(* ===== verification/Prelude.thy ===== *)
theory Prelude
  imports Main "HOL-Library.Word" "HOL-Library.State_Monad"
begin

text \<open>
  Shared vocabulary of the development: the machine integer types, the byte/word
  accessors the C++ code gets from its unions, the small state-monad layer the
  processor model is written in, and two compositional judgements on monadic code.

  \<^item> \<open>safe I f V\<close>: from a state satisfying \<open>I\<close>, the action \<open>f\<close> ends in a
    state satisfying \<open>I\<close> and returns a value satisfying \<open>V\<close>.
  \<^item> \<open>costs m lo hi f\<close>: the action \<open>f\<close> raises the counter \<open>m\<close> by at least
    \<open>lo\<close> and at most \<open>hi\<close>, from every state.

  Their composition rules are collected in \<open>safe_intro\<close> and \<open>costs_intro\<close>.
\<close>

unbundle bit_operations_syntax

type_synonym u8 = "8 word"
type_synonym u16 = "16 word"
type_synonym u32 = "32 word"
type_synonym u64 = "64 word"

named_theorems safe_intro "composition rules for safe"
named_theorems costs_intro "composition rules for costs"
named_theorems run_simps "symbolic execution of monadic code"

section \<open>Bytes of a 16-bit register\<close>

definition word_lo :: "u16 \<Rightarrow> u8" where
  "word_lo w = ucast w"

definition word_hi :: "u16 \<Rightarrow> u8" where
  "word_hi w = ucast (drop_bit 8 w)"

definition mk_word :: "u8 \<Rightarrow> u8 \<Rightarrow> u16" where
  "mk_word lo hi = ucast lo OR push_bit 8 (ucast hi)"

definition set_lo :: "u16 \<Rightarrow> u8 \<Rightarrow> u16" where
  "set_lo w b = mk_word b (word_hi w)"

definition set_hi :: "u16 \<Rightarrow> u8 \<Rightarrow> u16" where
  "set_hi w b = mk_word (word_lo w) b"

lemma bit_word_lo: "bit (word_lo w) n \<longleftrightarrow> n < 8 \<and> bit w n"
  by (simp add: word_lo_def bit_simps)

lemma bit_word_hi: "bit (word_hi w) n \<longleftrightarrow> n < 8 \<and> bit w (n + 8)"
  by (auto simp: word_hi_def bit_simps add.commute)

lemma bit_mk_word: "bit (mk_word l h) n \<longleftrightarrow> (if n < 8 then bit l n else bit h (n - 8))"
proof -
  have "n < 16" if "bit h (n - 8)" "\<not> n < 8"
    using bit_imp_le_length [OF that(1)] that(2) by simp
  then show ?thesis
    by (auto simp: mk_word_def bit_simps dest: bit_imp_le_length)
qed

lemma word_lo_mk_word [simp]: "word_lo (mk_word l h) = l"
  by (rule bit_word_eqI) (simp add: bit_word_lo bit_mk_word)

lemma word_hi_mk_word [simp]: "word_hi (mk_word l h) = h"
  by (rule bit_word_eqI) (simp add: bit_word_hi bit_mk_word)

lemma mk_word_lo_hi [simp]: "mk_word (word_lo w) (word_hi w) = w"
  by (rule bit_word_eqI) (auto simp: bit_word_lo bit_word_hi bit_mk_word)

lemma word_lo_set_lo [simp]: "word_lo (set_lo w b) = b"
  by (simp add: set_lo_def)

lemma word_hi_set_lo [simp]: "word_hi (set_lo w b) = word_hi w"
  by (simp add: set_lo_def)

lemma word_lo_set_hi [simp]: "word_lo (set_hi w b) = word_lo w"
  by (simp add: set_hi_def)

lemma word_hi_set_hi [simp]: "word_hi (set_hi w b) = b"
  by (simp add: set_hi_def)

lemma set_lo_self [simp]: "set_lo w (word_lo w) = w"
  by (simp add: set_lo_def)

lemma set_lo_set_lo [simp]: "set_lo (set_lo w a) b = set_lo w b"
  by (simp add: set_lo_def)

lemma word_hi_0 [simp]: "word_hi 0 = 0" and word_lo_0 [simp]: "word_lo 0 = 0"
  by (simp_all add: word_hi_def word_lo_def)

lemma word_eq_lo_hi: "w = v \<longleftrightarrow> word_lo w = word_lo v \<and> word_hi w = word_hi v"
  by (metis mk_word_lo_hi)

lemma word_hi_ucast [simp]: "word_hi (ucast (b :: u8)) = 0"
  by (rule bit_word_eqI) (auto simp: bit_word_hi bit_simps dest: bit_imp_le_length)

lemma word_lo_ucast [simp]: "word_lo (ucast (b :: u8)) = b"
  by (rule bit_word_eqI) (auto simp: bit_word_lo bit_simps)

lemma mod_65536_256: "(a :: int) mod 65536 mod 256 = a mod 256"
  by (rule mod_mod_cancel) simp

lemma word_lo_add: "word_lo (w + v) = word_lo w + word_lo v"
  unfolding word_lo_def
  by transfer (simp add: take_bit_eq_mod, metis mod_65536_256 mod_add_eq)

lemma word_lo_diff: "word_lo (w - v) = word_lo w - word_lo v"
  unfolding word_lo_def
  by transfer (simp add: take_bit_eq_mod, metis mod_65536_256 mod_diff_eq)

lemma word_lo_1 [simp]: "word_lo 1 = 1"
  by (simp add: word_lo_def)

section \<open>The state monad layer\<close>

abbreviation ret :: "'a \<Rightarrow> ('s, 'a) state" where
  "ret \<equiv> State_Monad.return"

definition gets :: "('s \<Rightarrow> 'a) \<Rightarrow> ('s, 'a) state" where
  "gets f = State (\<lambda>s. (f s, s))"

definition modify :: "('s \<Rightarrow> 's) \<Rightarrow> ('s, unit) state" where
  "modify f = State (\<lambda>s. ((), f s))"

definition mwhen :: "bool \<Rightarrow> ('s, unit) state \<Rightarrow> ('s, unit) state" where
  "mwhen b f = (if b then f else ret ())"

fun repeat_m :: "nat \<Rightarrow> ('s, unit) state \<Rightarrow> ('s, unit) state" where
  "repeat_m 0 f = ret ()"
| "repeat_m (Suc n) f = do { f; repeat_m n f }"

lemma run_gets [simp, run_simps]: "run_state (gets f) s = (f s, s)"
  by (simp add: gets_def)

lemma run_modify [simp, run_simps]: "run_state (modify f) s = ((), f s)"
  by (simp add: modify_def)

lemma run_if [run_simps]:
  "run_state (if b then f else g) s = (if b then run_state f s else run_state g s)"
  by simp

lemma run_mwhen [run_simps]:
  "run_state (mwhen b f) s = (if b then run_state f s else ((), s))"
  by (simp add: mwhen_def)

section \<open>Invariants kept and values returned\<close>

definition safe :: "('s \<Rightarrow> bool) \<Rightarrow> ('s, 'a) state \<Rightarrow> ('a \<Rightarrow> bool) \<Rightarrow> bool" where
  "safe I f V \<longleftrightarrow>
     (\<forall>s. I s \<longrightarrow> I (snd (run_state f s)) \<and> V (fst (run_state f s)))"

abbreviation keeps :: "('s \<Rightarrow> bool) \<Rightarrow> ('s, 'a) state \<Rightarrow> bool" where
  "keeps I f \<equiv> safe I f (\<lambda>_. True)"

lemma safeD: "safe I f V \<Longrightarrow> I s \<Longrightarrow> I (snd (run_state f s)) \<and> V (fst (run_state f s))"
  by (simp add: safe_def)

lemma keepsD: "keeps I f \<Longrightarrow> I s \<Longrightarrow> run_state f s = (r, s') \<Longrightarrow> I s'"
  by (force simp: safe_def)

lemma safe_ret [safe_intro]: "V x \<Longrightarrow> safe I (ret x) V"
  by (simp add: safe_def)

lemma safe_bind:
  assumes "safe I f V" and "\<And>r. V r \<Longrightarrow> safe I (g r) W"
  shows "safe I (f \<bind> g) W"
  using assms by (auto simp: safe_def split: prod.splits)

lemma keeps_bind [safe_intro]:
  assumes "keeps I f" and "\<And>r. safe I (g r) W"
  shows "safe I (f \<bind> g) W"
  using assms by (auto intro: safe_bind)

lemma safe_gets [safe_intro]: "(\<And>s. I s \<Longrightarrow> V (f s)) \<Longrightarrow> safe I (gets f) V"
  by (simp add: safe_def)

lemma safe_gets_bind:
  assumes "\<And>s. I s \<Longrightarrow> safe I (g (f s)) W"
  shows "safe I (gets f \<bind> g) W"
  using assms by (auto simp: safe_def)

lemma safe_modify [safe_intro]: "(\<And>s. I s \<Longrightarrow> I (f s)) \<Longrightarrow> V () \<Longrightarrow> safe I (modify f) V"
  by (simp add: safe_def)

lemma safe_if [safe_intro]:
  assumes "b \<Longrightarrow> safe I f V" and "\<not> b \<Longrightarrow> safe I g V"
  shows "safe I (if b then f else g) V"
  using assms by simp

lemma safe_mwhen [safe_intro]:
  assumes "b \<Longrightarrow> safe I f V" and "\<not> b \<Longrightarrow> V ()"
  shows "safe I (mwhen b f) V"
  using assms by (auto simp: mwhen_def intro: safe_ret)

lemma safe_weaken:
  assumes "safe I f V" and "\<And>r. V r \<Longrightarrow> W r"
  shows "safe I f W"
  using assms by (auto simp: safe_def)

lemma keeps_repeat_m [safe_intro]: "keeps I f \<Longrightarrow> keeps I (repeat_m n f)"
  by (induction n) (auto intro: safe_ret keeps_bind)

text \<open>From \<open>P\<close> to \<open>Q\<close>: the form for code that breaks an invariant and repairs it.\<close>

definition leads :: "('s \<Rightarrow> bool) \<Rightarrow> ('s, 'a) state \<Rightarrow> ('s \<Rightarrow> bool) \<Rightarrow> bool" where
  "leads P f Q \<longleftrightarrow> (\<forall>s. P s \<longrightarrow> Q (snd (run_state f s)))"

lemma leadsD: "leads P f Q \<Longrightarrow> P s \<Longrightarrow> Q (snd (run_state f s))"
  by (simp add: leads_def)

lemma keeps_leads: "keeps I f \<longleftrightarrow> leads I f I"
  by (simp add: safe_def leads_def)

lemma leads_keep: "keeps I f \<Longrightarrow> (\<And>s. I s \<Longrightarrow> Q s) \<Longrightarrow> leads I f Q"
  by (simp add: safe_def leads_def)

lemma leads_bind:
  assumes "leads P f R" and "\<And>r. leads R (g r) Q"
  shows "leads P (f \<bind> g) Q"
  using assms by (auto simp: leads_def split: prod.splits)

lemma leads_after:
  assumes "keeps P f" and "\<And>r. leads P (g r) Q"
  shows "leads P (f \<bind> g) Q"
  using assms by (auto simp: keeps_leads intro: leads_bind)

lemma leads_gets:
  assumes "\<And>s. P s \<Longrightarrow> leads P (g (f s)) Q"
  shows "leads P (gets f \<bind> g) Q"
  using assms by (simp add: leads_def)

lemma leads_if: "leads P f Q \<Longrightarrow> leads P g Q \<Longrightarrow> leads P (if b then f else g) Q"
  by simp

lemma leads_weaken:
  assumes "leads P f Q" and "\<And>s. P' s \<Longrightarrow> P s" and "\<And>s. Q s \<Longrightarrow> Q' s"
  shows "leads P' f Q'"
  using assms by (simp add: leads_def)

section \<open>Counted work\<close>

definition costs :: "('s \<Rightarrow> nat) \<Rightarrow> nat \<Rightarrow> nat \<Rightarrow> ('s, 'a) state \<Rightarrow> bool" where
  "costs m lo hi f \<longleftrightarrow>
     (\<forall>s. m s + lo \<le> m (snd (run_state f s)) \<and> m (snd (run_state f s)) \<le> m s + hi)"

lemma costsD:
  "costs m lo hi f \<Longrightarrow> run_state f s = (r, s') \<Longrightarrow> m s + lo \<le> m s' \<and> m s' \<le> m s + hi"
  by (auto simp: costs_def dest: spec [of _ s])

lemma costs_ret [costs_intro]: "costs m 0 0 (ret x)"
  by (simp add: costs_def)

lemma costs_gets [costs_intro]: "costs m 0 0 (gets f)"
  by (simp add: costs_def)

lemma costs_modify [costs_intro]: "(\<And>s. m (f s) = m s) \<Longrightarrow> costs m 0 0 (modify f)"
  by (simp add: costs_def)

lemma costs_bind [costs_intro]:
  assumes "costs m l1 h1 f" and "\<And>r. costs m l2 h2 (g r)"
  shows "costs m (l1 + l2) (h1 + h2) (f \<bind> g)"
  unfolding costs_def
proof
  fix s
  obtain r t where f: "run_state f s = (r, t)" by (cases "run_state f s")
  obtain q u where g: "run_state (g r) t = (q, u)" by (cases "run_state (g r) t")
  show "m s + (l1 + l2) \<le> m (snd (run_state (f \<bind> g) s)) \<and>
        m (snd (run_state (f \<bind> g) s)) \<le> m s + (h1 + h2)"
    using costsD [OF assms(1) f] costsD [OF assms(2) g] by (simp add: f g)
qed

lemma costs_if [costs_intro]:
  assumes "costs m l1 h1 f" and "costs m l2 h2 g"
  shows "costs m (min l1 l2) (max h1 h2) (if b then f else g)"
proof (cases b)
  case True
  then show ?thesis
    using assms(1) by (auto simp: costs_def intro: le_trans [OF add_left_mono [OF min.cobounded1]]
        order_trans [OF _ add_left_mono [OF max.cobounded1]])
next
  case False
  then show ?thesis
    using assms(2) by (auto simp: costs_def intro: le_trans [OF add_left_mono [OF min.cobounded2]]
        order_trans [OF _ add_left_mono [OF max.cobounded2]])
qed

lemma costs_mwhen [costs_intro]:
  assumes "costs m l h f"
  shows "costs m 0 h (mwhen b f)"
  using assms by (auto simp: costs_def mwhen_def intro: le_trans [OF le_add1])

lemma costs_weaken:
  assumes "costs m l h f" and "lo \<le> l" and "h \<le> hi"
  shows "costs m lo hi f"
  using assms by (auto simp: costs_def intro: le_trans [OF add_left_mono [OF assms(2)]]
      order_trans [OF _ add_left_mono [OF assms(3)]])

lemma costs_repeat_m [costs_intro]:
  assumes "costs m l h f"
  shows "costs m (n * l) (n * h) (repeat_m n f)"
proof (induction n)
  case 0
  show ?case by (simp add: costs_ret)
next
  case (Suc n)
  with assms show ?case by (simp add: costs_bind)
qed

end
