(* ===== verification/Cpu_State.thy ===== *)
theory Cpu_State
  imports Prelude
begin

text \<open>
  The processor's data: the compile-time traits of the eight cores
  (\<^verbatim>\<open>src/cpus/cpu_traits.hpp\<close>), the register file and status flags
  (\<^verbatim>\<open>src/cpu.hpp\<close>), and the interface through which the core reaches the rest of the
  machine (memory management unit, clock, interrupt and reset lines, WDM callbacks).

  The unions of \<^verbatim>\<open>cpu_state\<close> are represented by one field each and accessors:
  a 16-bit register is a \<^typ>\<open>u16\<close> whose low and high bytes are \<^const>\<open>word_lo\<close> and
  \<^const>\<open>word_hi\<close>; \<^verbatim>\<open>full_pc\<close> is \<open>reg_pb:reg_pc\<close> and \<^verbatim>\<open>full_db\<close> is the
  data bank shifted to bits 16 to 23 (its other bits are written only by the constructor and by
  reset, to zero); the status byte \<^verbatim>\<open>p\<close> is its eight bits, with \<open>get_p\<close> and
  \<open>set_p\<close>.  The bit that is B on a 6502 is the index-width flag X of the 65816, and the
  unused bit is its accumulator-width flag M.
\<close>

section \<open>Traits\<close>

record cpu_traits =
  trait_name :: string
  has_indirect_bug :: bool
  has_65c02_ops :: bool
  has_bbr_bbs :: bool
  has_65816_ops :: bool
  e_mode :: bool
  m_16 :: bool
  x_16 :: bool
  full_phantom_reads :: bool

definition CPU6502Traits :: cpu_traits where
  "CPU6502Traits = \<lparr>trait_name = ''6502'', has_indirect_bug = True, has_65c02_ops = False,
     has_bbr_bbs = False, has_65816_ops = False, e_mode = False, m_16 = False, x_16 = False,
     full_phantom_reads = False\<rparr>"

definition CPU65C02Traits :: cpu_traits where
  "CPU65C02Traits = \<lparr>trait_name = ''65C02'', has_indirect_bug = False, has_65c02_ops = True,
     has_bbr_bbs = False, has_65816_ops = False, e_mode = False, m_16 = False, x_16 = False,
     full_phantom_reads = False\<rparr>"

definition CPUR65C02Traits :: cpu_traits where
  "CPUR65C02Traits = \<lparr>trait_name = ''R65C02'', has_indirect_bug = False, has_65c02_ops = True,
     has_bbr_bbs = True, has_65816_ops = False, e_mode = False, m_16 = False, x_16 = False,
     full_phantom_reads = False\<rparr>"

definition CPUWDC65C02Traits :: cpu_traits where
  "CPUWDC65C02Traits = \<lparr>trait_name = ''WDC65C02'', has_indirect_bug = False,
     has_65c02_ops = True, has_bbr_bbs = True, has_65816_ops = False, e_mode = False,
     m_16 = False, x_16 = False, full_phantom_reads = False\<rparr>"

definition CPU65816_E_8_8_Traits :: cpu_traits where
  "CPU65816_E_8_8_Traits = \<lparr>trait_name = ''65816 Emulation'', has_indirect_bug = False,
     has_65c02_ops = True, has_bbr_bbs = False, has_65816_ops = True, e_mode = True,
     m_16 = False, x_16 = False, full_phantom_reads = False\<rparr>"

definition CPU65816_N_8_8_Traits :: cpu_traits where
  "CPU65816_N_8_8_Traits = \<lparr>trait_name = ''65816 Native M8 X8'', has_indirect_bug = False,
     has_65c02_ops = True, has_bbr_bbs = False, has_65816_ops = True, e_mode = False,
     m_16 = False, x_16 = False, full_phantom_reads = False\<rparr>"

definition CPU65816_N_8_16_Traits :: cpu_traits where
  "CPU65816_N_8_16_Traits = \<lparr>trait_name = ''65816 Native M8 X16'', has_indirect_bug = False,
     has_65c02_ops = True, has_bbr_bbs = False, has_65816_ops = True, e_mode = False,
     m_16 = False, x_16 = True, full_phantom_reads = False\<rparr>"

definition CPU65816_N_16_8_Traits :: cpu_traits where
  "CPU65816_N_16_8_Traits = \<lparr>trait_name = ''65816 Native M16 X8'', has_indirect_bug = False,
     has_65c02_ops = True, has_bbr_bbs = False, has_65816_ops = True, e_mode = False,
     m_16 = True, x_16 = False, full_phantom_reads = False\<rparr>"

definition CPU65816_N_16_16_Traits :: cpu_traits where
  "CPU65816_N_16_16_Traits = \<lparr>trait_name = ''65816 Native M16 X16'', has_indirect_bug = False,
     has_65c02_ops = True, has_bbr_bbs = False, has_65816_ops = True, e_mode = False,
     m_16 = True, x_16 = True, full_phantom_reads = False\<rparr>"

lemmas trait_defs = CPU6502Traits_def CPU65C02Traits_def CPUR65C02Traits_def
  CPUWDC65C02Traits_def CPU65816_E_8_8_Traits_def CPU65816_N_8_8_Traits_def
  CPU65816_N_8_16_Traits_def CPU65816_N_16_8_Traits_def CPU65816_N_16_16_Traits_def

section \<open>Vectors and flag masks\<close>

definition BRK_VECTOR :: u16 where "BRK_VECTOR = 0xFFFE"
definition IRQ_VECTOR :: u16 where "IRQ_VECTOR = 0xFFFE"
definition RESET_VECTOR :: u16 where "RESET_VECTOR = 0xFFFC"
definition NMI_VECTOR :: u16 where "NMI_VECTOR = 0xFFFA"
definition ABORTB_VECTOR :: u16 where "ABORTB_VECTOR = 0xFFF8"
definition COP_VECTOR :: u16 where "COP_VECTOR = 0xFFF4"

definition N_IRQ_VECTOR :: u16 where "N_IRQ_VECTOR = 0xFFEE"
definition N_NMI_VECTOR :: u16 where "N_NMI_VECTOR = 0xFFEA"
definition N_ABORTB_VECTOR :: u16 where "N_ABORTB_VECTOR = 0xFFE8"
definition N_BRK_VECTOR :: u16 where "N_BRK_VECTOR = 0xFFE6"
definition N_COP_VECTOR :: u16 where "N_COP_VECTOR = 0xFFE4"

definition FLAG_B :: u8 where "FLAG_B = 0x10"
definition FLAG_UNUSED :: u8 where "FLAG_UNUSED = 0x20"

section \<open>The register file\<close>

record cpu_state =
  reg_pc :: u16
  reg_pb :: u8
  reg_db :: u8
  reg_sp :: u16
  reg_a :: u16
  reg_x :: u16
  reg_y :: u16
  reg_d :: u16
  flag_C :: bool
  flag_Z :: bool
  flag_I :: bool
  flag_D :: bool
  flag_B :: bool
  flag_U :: bool
  flag_V :: bool
  flag_N :: bool
  flag_E :: bool
  clock_stopped :: bool
  halt :: u8
  irq_pipe :: u8
  nmi_pending :: bool
  boundary_abort_pending :: bool
  rdy :: bool

text \<open>The 65816 names of the two shared status bits.\<close>

abbreviation flag_X :: "cpu_state \<Rightarrow> bool" where "flag_X \<equiv> flag_B"
abbreviation flag_M :: "cpu_state \<Rightarrow> bool" where "flag_M \<equiv> flag_U"

definition get_p :: "cpu_state \<Rightarrow> u8" where
  "get_p c = of_bool (flag_C c) OR push_bit 1 (of_bool (flag_Z c)) OR
     push_bit 2 (of_bool (flag_I c)) OR push_bit 3 (of_bool (flag_D c)) OR
     push_bit 4 (of_bool (flag_B c)) OR push_bit 5 (of_bool (flag_U c)) OR
     push_bit 6 (of_bool (flag_V c)) OR push_bit 7 (of_bool (flag_N c))"

definition set_p :: "u8 \<Rightarrow> cpu_state \<Rightarrow> cpu_state" where
  "set_p v c = c\<lparr>flag_C := bit v 0, flag_Z := bit v 1, flag_I := bit v 2, flag_D := bit v 3,
     flag_B := bit v 4, flag_U := bit v 5, flag_V := bit v 6, flag_N := bit v 7\<rparr>"

definition full_pc :: "cpu_state \<Rightarrow> u32" where
  "full_pc c = push_bit 16 (ucast (reg_pb c)) OR ucast (reg_pc c)"

definition full_db :: "cpu_state \<Rightarrow> u32" where
  "full_db c = push_bit 16 (ucast (reg_db c))"

definition sp_lo :: "cpu_state \<Rightarrow> u8" where
  "sp_lo c = word_lo (reg_sp c)"

definition set_sp_lo :: "u8 \<Rightarrow> cpu_state \<Rightarrow> cpu_state" where
  "set_sp_lo b c = c\<lparr>reg_sp := set_lo (reg_sp c) b\<rparr>"

definition set_sp_hi :: "u8 \<Rightarrow> cpu_state \<Rightarrow> cpu_state" where
  "set_sp_hi b c = c\<lparr>reg_sp := set_hi (reg_sp c) b\<rparr>"

definition clear_xy_hi :: "cpu_state \<Rightarrow> cpu_state" where
  "clear_xy_hi c = c\<lparr>reg_x := set_hi (reg_x c) 0, reg_y := set_hi (reg_y c) 0\<rparr>"

text \<open>The constructor: the stack pointer's low byte is the host's random byte, and the E bit,
  which it does not set, is whatever the allocation held.\<close>

definition cpu_init :: "u8 \<Rightarrow> bool \<Rightarrow> cpu_state" where
  "cpu_init rnd old_E = \<lparr>reg_pc = 0, reg_pb = 0, reg_db = 0, reg_sp = ucast rnd, reg_a = 0,
     reg_x = 0, reg_y = 0, reg_d = 0, flag_C = False, flag_Z = False, flag_I = False,
     flag_D = False, flag_B = False, flag_U = False, flag_V = False, flag_N = False,
     flag_E = old_E, clock_stopped = False, halt = 0, irq_pipe = 0, nmi_pending = False,
     boundary_abort_pending = False, rdy = False\<rparr>"

section \<open>The rest of the machine, as the core sees it\<close>

text \<open>
  \<open>'m\<close> is the state of everything outside the core.  \<open>mmu_read\<close>, \<open>mmu_write\<close> and
  \<open>mmu_vp_read\<close> are the virtual methods \<^verbatim>\<open>MMU::read\<close>, \<^verbatim>\<open>write\<close> and
  \<^verbatim>\<open>vp_read\<close> (a read may change the machine: soft switches); \<open>clock_tick\<close> is
  \<^verbatim>\<open>NClock::incr_cycles\<close>; \<open>irq_line\<close> and \<open>reset_line\<close> are the fields
  \<^verbatim>\<open>irq_asserted\<close> and \<^verbatim>\<open>reset_asserted\<close>, which the interrupt and reset controllers
  write and the core only reads; \<open>wdm_handlers\<close> is the table of callbacks of the WDM
  instruction.
\<close>

record 'm machine_ops =
  mmu_read :: "u32 \<Rightarrow> 'm \<Rightarrow> u8 \<times> 'm"
  mmu_write :: "u32 \<Rightarrow> u8 \<Rightarrow> 'm \<Rightarrow> 'm"
  mmu_vp_read :: "u32 \<Rightarrow> 'm \<Rightarrow> u8 \<times> 'm"
  clock_tick :: "'m \<Rightarrow> 'm"
  irq_line :: "'m \<Rightarrow> bool"
  reset_line :: "'m \<Rightarrow> bool"
  wdm_handlers :: "u8 \<Rightarrow> (cpu_state \<times> 'm \<Rightarrow> cpu_state \<times> 'm) option"

text \<open>
  One entry per counted cycle: the kind of access the cycle made (the kinds of the bus access
  log), the address handed to the MMU and the byte moved.  The trace is a record of what the
  model did; nothing reads it.
\<close>

datatype access_kind =
  K_READ | K_WRITE | K_FETCH | K_VECTOR | K_PHANTOM_READ | K_PHANTOM_WRITE | K_SKIPPED_READ
| K_INTERNAL

record bus_cycle =
  cyc_kind :: access_kind
  cyc_addr :: u32
  cyc_data :: u8

record 'm machine =
  cpu :: cpu_state
  env :: 'm
  trace :: "bus_cycle list"

type_synonym ('m, 'a) action = "('m machine, 'a) state"

definition cpu_get :: "(cpu_state \<Rightarrow> 'a) \<Rightarrow> ('m, 'a) action" where
  "cpu_get f = gets (\<lambda>s. f (cpu s))"

definition cpu_upd :: "(cpu_state \<Rightarrow> cpu_state) \<Rightarrow> ('m, unit) action" where
  "cpu_upd f = modify (\<lambda>s. s\<lparr>cpu := f (cpu s)\<rparr>)"

definition cycles_of :: "'m machine \<Rightarrow> nat" where
  "cycles_of s = length (trace s)"

section \<open>Laws of the status byte and of the split registers\<close>

lemma bit_get_p:
  "bit (get_p c) n \<longleftrightarrow> n < 8 \<and>
     [flag_C c, flag_Z c, flag_I c, flag_D c, flag_B c, flag_U c, flag_V c, flag_N c] ! n"
proof (cases "n < 8")
  case True
  then consider "n = 0" | "n = 1" | "n = 2" | "n = 3" | "n = 4" | "n = 5" | "n = 6" | "n = 7"
    by linarith
  then show ?thesis
    by cases (simp_all add: get_p_def bit_simps)
next
  case False
  then show ?thesis by (auto dest: bit_imp_le_length)
qed

lemma get_p_set_p [simp]: "get_p (set_p v c) = v"
proof (rule bit_word_eqI)
  fix n assume "n < LENGTH(8)"
  then have "n \<in> {0, 1, 2, 3, 4, 5, 6, 7}" by auto
  then show "bit (get_p (set_p v c)) n = bit v n"
    by (auto simp: bit_get_p set_p_def)
qed

lemma set_p_get_p [simp]: "set_p (get_p c) c = c"
  by (simp add: set_p_def bit_get_p)

lemma run_cpu_get [simp, run_simps]: "run_state (cpu_get f) s = (f (cpu s), s)"
  by (simp add: cpu_get_def)

lemma run_cpu_upd [simp, run_simps]: "run_state (cpu_upd f) s = ((), s\<lparr>cpu := f (cpu s)\<rparr>)"
  by (simp add: cpu_upd_def)

lemma safe_cpu_get [safe_intro]: "(\<And>s. I s \<Longrightarrow> V (f (cpu s))) \<Longrightarrow> safe I (cpu_get f) V"
  unfolding cpu_get_def by (rule safe_gets)

lemma safe_cpu_get_bind:
  "(\<And>s. I s \<Longrightarrow> safe I (g (f (cpu s))) W) \<Longrightarrow> safe I (cpu_get f \<bind> g) W"
  unfolding cpu_get_def by (rule safe_gets_bind)

lemma safe_cpu_upd [safe_intro]:
  "(\<And>s. I s \<Longrightarrow> I (s\<lparr>cpu := f (cpu s)\<rparr>)) \<Longrightarrow> V () \<Longrightarrow> safe I (cpu_upd f) V"
  unfolding cpu_upd_def by (rule safe_modify)

lemma costs_cpu_get [costs_intro]: "costs cycles_of 0 0 (cpu_get f)"
  unfolding cpu_get_def by (rule costs_gets)

lemma costs_cpu_upd [costs_intro]: "costs cycles_of 0 0 (cpu_upd f)"
  unfolding cpu_upd_def by (rule costs_modify) (simp add: cycles_of_def)

end
