(* ===== verification/Cpu_Alu.thy ===== *)
theory Cpu_Alu
  imports Cpu_State
begin

text \<open>
  Flags and arithmetic of the core (\<^verbatim>\<open>src/cpus/base_6502.cpp\<close>), as functions on the
  register file.  The template parameter that is \<^verbatim>\<open>byte_t\<close> or \<^verbatim>\<open>word_t\<close> is a
  \<open>width\<close>; a value of that type is a \<^typ>\<open>u16\<close> that \<open>wtrunc\<close> cuts to the width
  wherever the C++ code stores it.  The overloads for \<^verbatim>\<open>uint8_t\<close> and \<^verbatim>\<open>word_t\<close>
  are separate definitions on \<^typ>\<open>u8\<close> and \<^typ>\<open>u16\<close>.  Intermediate results the
  code keeps in (promoted) signed integers are \<^typ>\<open>int\<close>; they stay within 16 bits.
\<close>

section \<open>Operand widths\<close>

datatype width = W8 | W16

definition wtrunc :: "width \<Rightarrow> u16 \<Rightarrow> u16" where
  "wtrunc w v = (case w of W8 \<Rightarrow> v AND 0xFF | W16 \<Rightarrow> v)"

definition alu_t :: "cpu_traits \<Rightarrow> width" where
  "alu_t tr = (if m_16 tr then W16 else W8)"

definition index_t :: "cpu_traits \<Rightarrow> width" where
  "index_t tr = (if x_16 tr then W16 else W8)"

definition get_A :: "cpu_traits \<Rightarrow> cpu_state \<Rightarrow> u16" where
  "get_A tr c = (if m_16 tr then reg_a c else ucast (word_lo (reg_a c)))"

definition set_A :: "cpu_traits \<Rightarrow> u16 \<Rightarrow> cpu_state \<Rightarrow> cpu_state" where
  "set_A tr v c =
     (if m_16 tr then c\<lparr>reg_a := v\<rparr> else c\<lparr>reg_a := set_lo (reg_a c) (word_lo v)\<rparr>)"

definition get_X :: "cpu_traits \<Rightarrow> cpu_state \<Rightarrow> u16" where
  "get_X tr c = (if x_16 tr then reg_x c else ucast (word_lo (reg_x c)))"

definition set_X :: "cpu_traits \<Rightarrow> u16 \<Rightarrow> cpu_state \<Rightarrow> cpu_state" where
  "set_X tr v c =
     (if x_16 tr then c\<lparr>reg_x := v\<rparr> else c\<lparr>reg_x := set_lo (reg_x c) (word_lo v)\<rparr>)"

definition get_Y :: "cpu_traits \<Rightarrow> cpu_state \<Rightarrow> u16" where
  "get_Y tr c = (if x_16 tr then reg_y c else ucast (word_lo (reg_y c)))"

definition set_Y :: "cpu_traits \<Rightarrow> u16 \<Rightarrow> cpu_state \<Rightarrow> cpu_state" where
  "set_Y tr v c =
     (if x_16 tr then c\<lparr>reg_y := v\<rparr> else c\<lparr>reg_y := set_lo (reg_y c) (word_lo v)\<rparr>)"

section \<open>Flags\<close>

definition set_n_z_flags :: "width \<Rightarrow> u16 \<Rightarrow> cpu_state \<Rightarrow> cpu_state" where
  "set_n_z_flags w v c =
     c\<lparr>flag_Z := (v = 0),
       flag_N := (case w of W16 \<Rightarrow> v AND 0x8000 \<noteq> 0 | W8 \<Rightarrow> v AND 0x80 \<noteq> 0)\<rparr>"

definition set_n_z_v_flags :: "width \<Rightarrow> u16 \<Rightarrow> u16 \<Rightarrow> cpu_state \<Rightarrow> cpu_state" where
  "set_n_z_v_flags w v n c =
     c\<lparr>flag_Z := (v = 0),
       flag_N := (case w of W16 \<Rightarrow> n AND 0x8000 \<noteq> 0 | W8 \<Rightarrow> n AND 0x80 \<noteq> 0),
       flag_V := (case w of W16 \<Rightarrow> n AND 0x4000 \<noteq> 0 | W8 \<Rightarrow> n AND 0x40 \<noteq> 0)\<rparr>"

definition set_z_flag :: "u16 \<Rightarrow> cpu_state \<Rightarrow> cpu_state" where
  "set_z_flag v c = c\<lparr>flag_Z := (v = 0)\<rparr>"

section \<open>Read-modify-write operations\<close>

type_synonym rmw_op = "width \<Rightarrow> u16 \<Rightarrow> cpu_state \<Rightarrow> u16 \<times> cpu_state"

definition IncrementOp :: rmw_op where
  "IncrementOp w n c = (let n' = wtrunc w (n + 1) in (n', set_n_z_flags w n' c))"

definition DecrementOp :: rmw_op where
  "DecrementOp w n c = (let n' = wtrunc w (n - 1) in (n', set_n_z_flags w n' c))"

definition ArithmeticShiftLeftOp :: rmw_op where
  "ArithmeticShiftLeftOp w n c =
     (let cy = (case w of W8 \<Rightarrow> n AND 0x80 \<noteq> 0 | W16 \<Rightarrow> n AND 0x8000 \<noteq> 0);
          n' = wtrunc w (push_bit 1 n)
      in (n', set_n_z_flags w n' (c\<lparr>flag_C := cy\<rparr>)))"

definition LogicalShiftRightOp :: rmw_op where
  "LogicalShiftRightOp w n c =
     (let n' = drop_bit 1 n in (n', set_n_z_flags w n' (c\<lparr>flag_C := (n AND 1 \<noteq> 0)\<rparr>)))"

definition RotateLeftOp :: rmw_op where
  "RotateLeftOp w n c =
     (let cy = (case w of W8 \<Rightarrow> n AND 0x80 \<noteq> 0 | W16 \<Rightarrow> n AND 0x8000 \<noteq> 0);
          n' = wtrunc w (push_bit 1 n) OR of_bool (flag_C c)
      in (n', set_n_z_flags w n' (c\<lparr>flag_C := cy\<rparr>)))"

definition RotateRightOp :: rmw_op where
  "RotateRightOp w n c =
     (let n' = drop_bit 1 n OR
                 push_bit (case w of W8 \<Rightarrow> 7 | W16 \<Rightarrow> 15) (of_bool (flag_C c))
      in (n', set_n_z_flags w n' (c\<lparr>flag_C := (n AND 1 \<noteq> 0)\<rparr>)))"

definition TestResetBitsOp :: "cpu_traits \<Rightarrow> rmw_op" where
  "TestResetBitsOp tr w n c =
     (n AND NOT (get_A tr c), set_z_flag (get_A tr c AND n) c)"

definition TestSetBitsOp :: "cpu_traits \<Rightarrow> rmw_op" where
  "TestSetBitsOp tr w n c = (n OR get_A tr c, set_z_flag (get_A tr c AND n) c)"

section \<open>Decimal arithmetic\<close>

definition bcd_to_int_8 :: "u8 \<Rightarrow> u8" where
  "bcd_to_int_8 bcd = (drop_bit 4 bcd * 10) + (bcd AND 0x0F)"

definition bcd_to_int_16 :: "u16 \<Rightarrow> u16" where
  "bcd_to_int_16 bcd = (drop_bit 12 bcd * 1000) + ((drop_bit 8 bcd AND 0x000F) * 100) +
     ((drop_bit 4 bcd AND 0x000F) * 10) + (bcd AND 0x0F)"

definition int_to_bcd :: "u8 \<Rightarrow> u8" where
  "int_to_bcd n = (let n1 = n mod 100 in push_bit 4 (n1 div 10) OR (n1 mod 10))"

definition int_to_bcd16 :: "u16 \<Rightarrow> u16" where
  "int_to_bcd16 n =
     (let n1 = n mod 10000
      in push_bit 12 (n1 div 1000) OR push_bit 8 ((n1 div 100) mod 10) OR
         push_bit 4 ((n1 div 10) mod 10) OR (n1 mod 10))"

definition add_bcd_8_set_flags ::
    "cpu_traits \<Rightarrow> u8 \<Rightarrow> u8 \<Rightarrow> cpu_state \<Rightarrow> u8 \<times> cpu_state" where
  "add_bcd_8_set_flags tr a b c =
     (let binary_sum = uint a + uint b + of_bool (flag_C c);
          AL0 = ucast (a AND 0x0F) + ucast (b AND 0x0F) + of_bool (flag_C c) :: u16;
          AL = (if AL0 \<ge> 0x0A then ((AL0 + 0x06) AND 0x0F) + 0x10 else AL0);
          UA0 = ucast (a AND 0xF0) + ucast (b AND 0xF0) + AL :: u16;
          n_seq2 = (UA0 AND 0x80 \<noteq> 0);
          UA = (if UA0 \<ge> 0xA0 then UA0 + 0x60 else UA0);
          SA = sint (a AND 0xF0) + sint (b AND 0xF0) + uint AL;
          a' = ucast UA :: u8
      in (a', c\<lparr>flag_C := (UA \<ge> 0x100),
                flag_V := (SA < -128 \<or> SA > 127),
                flag_Z := (if \<not> has_65c02_ops tr then binary_sum AND 0xFF = 0 else a' = 0),
                flag_N := (if \<not> has_65c02_ops tr then n_seq2 else a' AND 0x80 \<noteq> 0)\<rparr>))"

definition add_bcd_16_set_flags :: "cpu_traits \<Rightarrow> u16 \<Rightarrow> cpu_state \<Rightarrow> cpu_state" where
  "add_bcd_16_set_flags tr b c =
     (let (r_lo, c1) = add_bcd_8_set_flags tr (word_lo (get_A tr c)) (word_lo b) c;
          (r_hi, c2) = add_bcd_8_set_flags tr (word_hi (get_A tr c)) (word_hi b) c1;
          c3 = set_A tr (push_bit 8 (ucast r_hi) OR ucast r_lo) c2
      in c3\<lparr>flag_Z := (get_A tr c3 = 0)\<rparr>)"

definition sub_bcd_8_set_flags ::
    "cpu_traits \<Rightarrow> u8 \<Rightarrow> u8 \<Rightarrow> cpu_state \<Rightarrow> u8 \<times> cpu_state" where
  "sub_bcd_8_set_flags tr a b c =
     (let binary_sum = uint a - uint b - 1 + of_bool (flag_C c);
          N1 = b XOR 0xFF;
          AL0 = uint (a AND 0x0F) - uint (b AND 0x0F) + of_bool (flag_C c) - 1;
          (UA, V) =
            (if has_65c02_ops tr \<and> \<not> has_65816_ops tr then
               let UA0 = uint a - uint b + of_bool (flag_C c) - 1;
                   V0 = ((a XOR N1) AND 0x80 = 0 \<and> (uint a XOR UA0) AND 0x80 \<noteq> 0);
                   UA1 = (if UA0 < 0 then UA0 - 0x60 else UA0);
                   UA2 = (if AL0 < 0 then UA1 - 0x06 else UA1)
               in (UA2, V0)
             else
               let AL = (if AL0 < 0 then ((AL0 - 0x06) AND 0x0F) - 0x10 else AL0);
                   UA0 = uint (a AND 0xF0) - uint (b AND 0xF0) + AL;
                   V0 = ((a XOR N1) AND 0x80 = 0 \<and> (uint a XOR UA0) AND 0x80 \<noteq> 0);
                   UA1 = (if UA0 < 0 then UA0 - 0x60 else UA0)
               in (UA1, V0));
          a' = word_of_int (UA AND 0xFF) :: u8;
          bin8 = word_of_int binary_sum :: u8
      in (a', c\<lparr>flag_C := \<not> (binary_sum < 0),
                flag_Z := (if \<not> has_65c02_ops tr then bin8 = 0 else a' = 0),
                flag_N := (if \<not> has_65c02_ops tr then bin8 AND 0x80 \<noteq> 0
                           else a' AND 0x80 \<noteq> 0),
                flag_V := (if \<not> has_65c02_ops tr
                           then (a XOR N1) AND 0x80 = 0 \<and> (a XOR bin8) AND 0x80 \<noteq> 0
                           else V)\<rparr>))"

definition sub_bcd_16_set_flags :: "cpu_traits \<Rightarrow> u16 \<Rightarrow> cpu_state \<Rightarrow> cpu_state" where
  "sub_bcd_16_set_flags tr b c =
     (let (r_lo, c1) = sub_bcd_8_set_flags tr (word_lo (get_A tr c)) (word_lo b) c;
          (r_hi, c2) = sub_bcd_8_set_flags tr (word_hi (get_A tr c)) (word_hi b) c1;
          c3 = set_A tr (push_bit 8 (ucast r_hi) OR ucast r_lo) c2
      in c3\<lparr>flag_Z := (get_A tr c3 = 0)\<rparr>)"

section \<open>Binary arithmetic\<close>

text \<open>The binary branches of the two overloads of \<^verbatim>\<open>add_and_set_flags\<close>.\<close>

definition add_binary_8 :: "u8 \<Rightarrow> cpu_state \<Rightarrow> cpu_state" where
  "add_binary_8 n c =
     (let m = word_lo (reg_a c);
          S = ucast m + ucast n + of_bool (flag_C c) :: u32;
          S8 = ucast S :: u8
      in set_n_z_flags W8 (ucast S8)
           (c\<lparr>reg_a := set_lo (reg_a c) S8,
              flag_C := (S AND 0x0100 \<noteq> 0),
              flag_V := ((m XOR n) AND 0x80 = 0 \<and> (m XOR S8) AND 0x80 \<noteq> 0)\<rparr>))"

definition add_binary_16 :: "cpu_traits \<Rightarrow> u16 \<Rightarrow> cpu_state \<Rightarrow> cpu_state" where
  "add_binary_16 tr n c =
     (let m = get_A tr c;
          S = ucast m + ucast n + of_bool (flag_C c) :: u32;
          S16 = ucast S :: u16
      in set_n_z_flags W16 S16
           ((set_A tr S16 c)\<lparr>flag_C := (S AND 0x10000 \<noteq> 0),
              flag_V := ((m XOR n) AND 0x8000 = 0 \<and> (m XOR S16) AND 0x8000 \<noteq> 0)\<rparr>))"

text \<open>The binary branches of the two overloads of \<^verbatim>\<open>subtract_and_set_flags\<close>.\<close>

definition sub_binary_8 :: "u8 \<Rightarrow> cpu_state \<Rightarrow> cpu_state" where
  "sub_binary_8 n c =
     (let m = word_lo (reg_a c);
          N1 = n XOR 0xFF;
          S = ucast m + ucast N1 + of_bool (flag_C c) :: u32;
          S8 = ucast S :: u8
      in set_n_z_flags W8 (ucast S8)
           (c\<lparr>flag_C := (S AND 0x0100 \<noteq> 0),
              flag_V := ((m XOR N1) AND 0x80 = 0 \<and> (m XOR S8) AND 0x80 \<noteq> 0),
              reg_a := set_lo (reg_a c) S8\<rparr>))"

definition sub_binary_16 :: "cpu_traits \<Rightarrow> u16 \<Rightarrow> cpu_state \<Rightarrow> cpu_state" where
  "sub_binary_16 tr n c =
     (let m = get_A tr c;
          N1 = n XOR 0xFFFF;
          S = ucast m + ucast N1 + of_bool (flag_C c) :: u32;
          S16 = ucast S :: u16
      in set_n_z_flags W16 S16
           (set_A tr S16 (c\<lparr>flag_C := (S AND 0x10000 \<noteq> 0),
              flag_V := ((m XOR N1) AND 0x8000 = 0 \<and> (m XOR S16) AND 0x8000 \<noteq> 0)\<rparr>)))"

definition compare_8 :: "u8 \<Rightarrow> u8 \<Rightarrow> cpu_state \<Rightarrow> cpu_state" where
  "compare_8 m n c =
     (let N1 = n XOR 0xFF;
          S = ucast m + ucast N1 + 1 :: u32;
          S8 = ucast S :: u8
      in set_n_z_flags W8 (ucast S8) (c\<lparr>flag_C := (S AND 0x0100 \<noteq> 0)\<rparr>))"

definition compare_16 :: "u16 \<Rightarrow> u16 \<Rightarrow> cpu_state \<Rightarrow> cpu_state" where
  "compare_16 m n c =
     (let N1 = n XOR 0xFFFF;
          S = ucast m + ucast N1 + 1 :: u32;
          S16 = ucast S :: u16
      in set_n_z_flags W16 S16 (c\<lparr>flag_C := (S AND 0x10000 \<noteq> 0)\<rparr>))"

definition compare_and_set_flags :: "width \<Rightarrow> u16 \<Rightarrow> u16 \<Rightarrow> cpu_state \<Rightarrow> cpu_state" where
  "compare_and_set_flags w m n =
     (case w of W8 \<Rightarrow> compare_8 (word_lo m) (word_lo n) | W16 \<Rightarrow> compare_16 m n)"

end
