(* ===== verification/Cpu_Core.thy ===== *)
theory Cpu_Core
  imports Cpu_Alu
begin

text \<open>
  The bus cycles, addressing modes, stack and control-flow helpers of
  \<^verbatim>\<open>CPU6502Core\<close> (\<^verbatim>\<open>src/cpus/base_6502.cpp\<close>), one definition per function, in
  the state monad over the whole machine.  \<^verbatim>\<open>if constexpr\<close> on a trait is an
  \<^verbatim>\<open>if\<close> on the corresponding field of the traits argument.  A register passed by
  reference to a read helper is the value the helper returns, stored by the caller.  The
  observation rails (bus log, memory views, watches, traps, coverage, trace buffer) are off.
\<close>

section \<open>Bus cycles\<close>

text \<open>
  \<^verbatim>\<open>incr_cycles\<close>: shift the interrupt pipeline, then advance the clock.  The extra
  argument is the access the cycle carried, kept in the trace.
\<close>

definition incr_cycles :: "'m machine_ops \<Rightarrow> bus_cycle \<Rightarrow> ('m, unit) action" where
  "incr_cycles e acc = modify (\<lambda>s. s\<lparr>
     cpu := (cpu s)\<lparr>irq_pipe := push_bit 1 (irq_pipe (cpu s)) OR
              of_bool (\<not> flag_I (cpu s) \<and> irq_line e (env s))\<rparr>,
     env := clock_tick e (env s),
     trace := acc # trace s\<rparr>)"

definition internal_cycle :: bus_cycle where
  "internal_cycle = \<lparr>cyc_kind = K_INTERNAL, cyc_addr = 0, cyc_data = 0\<rparr>"

definition env_read :: "(u32 \<Rightarrow> 'm \<Rightarrow> u8 \<times> 'm) \<Rightarrow> u32 \<Rightarrow> ('m, u8) action" where
  "env_read f addr =
     State (\<lambda>s. (fst (f addr (env s)), s\<lparr>env := snd (f addr (env s))\<rparr>))"

definition env_write :: "'m machine_ops \<Rightarrow> u32 \<Rightarrow> u8 \<Rightarrow> ('m, unit) action" where
  "env_write e addr v = modify (\<lambda>s. s\<lparr>env := mmu_write e addr v (env s)\<rparr>)"

definition bus_read_k :: "'m machine_ops \<Rightarrow> access_kind \<Rightarrow> u32 \<Rightarrow> ('m, u8) action" where
  "bus_read_k e k addr = do {
     data \<leftarrow> env_read (mmu_read e) (addr AND 0xFFFFFF);
     incr_cycles e \<lparr>cyc_kind = k, cyc_addr = addr AND 0xFFFFFF, cyc_data = data\<rparr>;
     ret data
   }"

definition bus_read :: "'m machine_ops \<Rightarrow> u32 \<Rightarrow> ('m, u8) action" where
  "bus_read e addr = bus_read_k e K_READ addr"

definition bus_write :: "'m machine_ops \<Rightarrow> u32 \<Rightarrow> u8 \<Rightarrow> ('m, unit) action" where
  "bus_write e addr data = do {
     env_write e (addr AND 0xFFFFFF) data;
     incr_cycles e \<lparr>cyc_kind = K_WRITE, cyc_addr = addr AND 0xFFFFFF, cyc_data = data\<rparr>
   }"

definition vp_read :: "'m machine_ops \<Rightarrow> u32 \<Rightarrow> ('m, u8) action" where
  "vp_read e addr = do {
     data \<leftarrow> env_read (mmu_vp_read e) addr;
     incr_cycles e \<lparr>cyc_kind = K_VECTOR, cyc_addr = addr, cyc_data = data\<rparr>;
     ret data
   }"

definition phantom_read :: "'m machine_ops \<Rightarrow> u32 \<Rightarrow> ('m, unit) action" where
  "phantom_read e address = do {
     data \<leftarrow> env_read (mmu_read e) address;
     incr_cycles e \<lparr>cyc_kind = K_PHANTOM_READ, cyc_addr = address, cyc_data = data\<rparr>
   }"

definition phantom_read_ign ::
    "cpu_traits \<Rightarrow> 'm machine_ops \<Rightarrow> u32 \<Rightarrow> ('m, unit) action" where
  "phantom_read_ign tr e address =
     (if full_phantom_reads tr then phantom_read e address
      else incr_cycles e \<lparr>cyc_kind = K_SKIPPED_READ, cyc_addr = address, cyc_data = 0\<rparr>)"

definition phantom_write :: "'m machine_ops \<Rightarrow> u32 \<Rightarrow> u8 \<Rightarrow> ('m, unit) action" where
  "phantom_write e address value = do {
     env_write e address value;
     incr_cycles e \<lparr>cyc_kind = K_PHANTOM_WRITE, cyc_addr = address, cyc_data = value\<rparr>
   }"

section \<open>Program counter and data addresses\<close>

definition make_address_long :: "cpu_traits \<Rightarrow> cpu_state \<Rightarrow> u16 \<Rightarrow> u32" where
  "make_address_long tr c address =
     (if has_65816_ops tr \<and> \<not> e_mode tr then full_db c OR ucast address else ucast address)"

definition make_direct_long :: "cpu_traits \<Rightarrow> cpu_state \<Rightarrow> u8 \<Rightarrow> u32" where
  "make_direct_long tr c address =
     (if has_65816_ops tr then
        if e_mode tr then
          if reg_d c AND 0xFF = 0 then (ucast (reg_d c) OR ucast address) AND 0xFFFF
          else ucast (reg_d c) + ucast address
        else (ucast (reg_d c) + ucast address) AND 0xFFFF
      else ucast address)"

definition read_word :: "cpu_traits \<Rightarrow> 'm machine_ops \<Rightarrow> u16 \<Rightarrow> ('m, u16) action" where
  "read_word tr e address = do {
     eaddr \<leftarrow> cpu_get (\<lambda>c. make_address_long tr c address);
     vl \<leftarrow> bus_read e eaddr;
     eaddr1 \<leftarrow> cpu_get (\<lambda>c. make_address_long tr c (address + 1));
     vh \<leftarrow> bus_read e eaddr1;
     ret (mk_word vl vh)
   }"

definition make_pc_long :: "cpu_traits \<Rightarrow> cpu_state \<Rightarrow> u16 \<Rightarrow> u32" where
  "make_pc_long tr c address =
     (if has_65816_ops tr \<and> \<not> e_mode tr
      then push_bit 16 (ucast (reg_pb c)) OR ucast address else ucast address)"

definition PC :: "cpu_traits \<Rightarrow> cpu_state \<Rightarrow> u32" where
  "PC tr c = (if has_65816_ops tr then full_pc c else ucast (reg_pc c))"

definition read_word_bank0 :: "'m machine_ops \<Rightarrow> u16 \<Rightarrow> ('m, u16) action" where
  "read_word_bank0 e address = do {
     vl \<leftarrow> vp_read e (ucast address);
     vh \<leftarrow> vp_read e (ucast (address + 1));
     ret (mk_word vl vh)
   }"

definition fetch_pc :: "cpu_traits \<Rightarrow> 'm machine_ops \<Rightarrow> ('m, u8) action" where
  "fetch_pc tr e = do {
     addr \<leftarrow> cpu_get (PC tr);
     b \<leftarrow> env_read (mmu_read e) addr;
     incr_cycles e \<lparr>cyc_kind = K_FETCH, cyc_addr = addr, cyc_data = b\<rparr>;
     cpu_upd (\<lambda>c. c\<lparr>reg_pc := reg_pc c + 1\<rparr>);
     ret b
   }"

text \<open>The phantom read of the current program counter, the internal cycle of most
  implied-mode instructions.\<close>

definition phantom_pc :: "cpu_traits \<Rightarrow> 'm machine_ops \<Rightarrow> ('m, unit) action" where
  "phantom_pc tr e = do {
     addr \<leftarrow> cpu_get (\<lambda>c. make_pc_long tr c (reg_pc c));
     phantom_read_ign tr e addr
   }"

section \<open>Data of either width\<close>

definition read_data :: "'m machine_ops \<Rightarrow> width \<Rightarrow> u32 \<Rightarrow> ('m, u16) action" where
  "read_data e w eaddr =
     (case w of
        W8 \<Rightarrow> do { v \<leftarrow> bus_read e eaddr; ret (ucast v) }
      | W16 \<Rightarrow> do { lo \<leftarrow> bus_read e eaddr; hi \<leftarrow> bus_read e (eaddr + 1); ret (mk_word lo hi) })"

definition write_data :: "'m machine_ops \<Rightarrow> width \<Rightarrow> u32 \<Rightarrow> u16 \<Rightarrow> ('m, unit) action" where
  "write_data e w eaddr v =
     (case w of
        W8 \<Rightarrow> bus_write e eaddr (word_lo v)
      | W16 \<Rightarrow> do { bus_write e eaddr (word_lo v); bus_write e (eaddr + 1) (word_hi v) })"

definition write_tada :: "'m machine_ops \<Rightarrow> width \<Rightarrow> u32 \<Rightarrow> u16 \<Rightarrow> ('m, unit) action" where
  "write_tada e w eaddr v =
     (case w of
        W8 \<Rightarrow> bus_write e eaddr (word_lo v)
      | W16 \<Rightarrow> do { bus_write e (eaddr + 1) (word_hi v); bus_write e eaddr (word_lo v) })"

definition read_data_direct :: "'m machine_ops \<Rightarrow> width \<Rightarrow> u16 \<Rightarrow> ('m, u16) action" where
  "read_data_direct e w eaddr =
     (case w of
        W8 \<Rightarrow> do { v \<leftarrow> bus_read e (ucast eaddr); ret (ucast v) }
      | W16 \<Rightarrow> do { lo \<leftarrow> bus_read e (ucast eaddr); hi \<leftarrow> bus_read e (ucast (eaddr + 1));
                   ret (mk_word lo hi) })"

definition write_data_direct ::
    "'m machine_ops \<Rightarrow> width \<Rightarrow> u16 \<Rightarrow> u16 \<Rightarrow> ('m, unit) action" where
  "write_data_direct e w eaddr v =
     (case w of
        W8 \<Rightarrow> bus_write e (ucast eaddr) (word_lo v)
      | W16 \<Rightarrow> do { bus_write e (ucast eaddr) (word_lo v);
                   bus_write e (ucast (eaddr + 1)) (word_hi v) })"

definition write_tada_direct ::
    "'m machine_ops \<Rightarrow> width \<Rightarrow> u16 \<Rightarrow> u16 \<Rightarrow> ('m, unit) action" where
  "write_tada_direct e w eaddr v =
     (case w of
        W8 \<Rightarrow> bus_write e (ucast eaddr) (word_lo v)
      | W16 \<Rightarrow> do { bus_write e (ucast (eaddr + 1)) (word_hi v);
                   bus_write e (ucast eaddr) (word_lo v) })"

section \<open>Addressing modes\<close>

definition rmw_acc :: "cpu_traits \<Rightarrow> 'm machine_ops \<Rightarrow> rmw_op \<Rightarrow> ('m, unit) action" where
  "rmw_acc tr e operation = do {
     addr \<leftarrow> cpu_get (PC tr);
     phantom_read_ign tr e addr;
     cpu_upd (\<lambda>c. let (n', c') = operation (alu_t tr) (get_A tr c) c in set_A tr n' c')
   }"

definition read_imm :: "cpu_traits \<Rightarrow> 'm machine_ops \<Rightarrow> width \<Rightarrow> ('m, u16) action" where
  "read_imm tr e w =
     (case w of
        W8 \<Rightarrow> do { v \<leftarrow> fetch_pc tr e; ret (ucast v) }
      | W16 \<Rightarrow> do { lo \<leftarrow> fetch_pc tr e; hi \<leftarrow> fetch_pc tr e; ret (mk_word lo hi) })"

definition address_abs :: "cpu_traits \<Rightarrow> 'm machine_ops \<Rightarrow> ('m, u16) action" where
  "address_abs tr e = do { lo \<leftarrow> fetch_pc tr e; hi \<leftarrow> fetch_pc tr e; ret (mk_word lo hi) }"

text \<open>The data bank joined to a 16-bit address, when the core has one.\<close>

definition add_bank :: "cpu_traits \<Rightarrow> cpu_state \<Rightarrow> u16 \<Rightarrow> u32" where
  "add_bank tr c addr = (if has_65816_ops tr then ucast addr OR full_db c else ucast addr)"

definition read_abs :: "cpu_traits \<Rightarrow> 'm machine_ops \<Rightarrow> width \<Rightarrow> ('m, u16) action" where
  "read_abs tr e w = do {
     a \<leftarrow> address_abs tr e;
     eaddr \<leftarrow> cpu_get (\<lambda>c. add_bank tr c a);
     read_data e w eaddr
   }"

definition write_abs :: "cpu_traits \<Rightarrow> 'm machine_ops \<Rightarrow> width \<Rightarrow> u16 \<Rightarrow> ('m, unit) action" where
  "write_abs tr e w v = do {
     a \<leftarrow> address_abs tr e;
     eaddr \<leftarrow> cpu_get (\<lambda>c. add_bank tr c a);
     write_data e w eaddr v
   }"

text \<open>The modify cycle of a read-modify-write instruction: the NMOS part and the 65816 in
  emulation mode write the old value back, the 65C02 and the native 65816 read again.\<close>

definition rmw_modify_cycle ::
    "cpu_traits \<Rightarrow> 'm machine_ops \<Rightarrow> u32 \<Rightarrow> u32 \<Rightarrow> u16 \<Rightarrow> ('m, unit) action" where
  "rmw_modify_cycle tr e eaddr eaddr1 reg =
     (if has_65816_ops tr then
        if e_mode tr then phantom_write e eaddr (word_lo reg)
        else if alu_t tr = W8 then phantom_read e eaddr
        else phantom_read e eaddr1
      else if has_65c02_ops tr then phantom_read e eaddr
      else phantom_write e eaddr (word_lo reg))"

definition apply_rmw :: "cpu_traits \<Rightarrow> rmw_op \<Rightarrow> u16 \<Rightarrow> ('m, u16) action" where
  "apply_rmw tr operation reg = do {
     r \<leftarrow> cpu_get (operation (alu_t tr) reg);
     cpu_upd (\<lambda>_. snd r);
     ret (fst r)
   }"

definition rmw_abs :: "cpu_traits \<Rightarrow> 'm machine_ops \<Rightarrow> rmw_op \<Rightarrow> ('m, unit) action" where
  "rmw_abs tr e operation = do {
     a \<leftarrow> address_abs tr e;
     eaddr \<leftarrow> cpu_get (\<lambda>c. add_bank tr c a);
     reg \<leftarrow> read_data e (alu_t tr) eaddr;
     rmw_modify_cycle tr e eaddr (eaddr + 1) reg;
     reg' \<leftarrow> apply_rmw tr operation reg;
     write_tada e (alu_t tr) eaddr reg'
   }"

definition address_long :: "cpu_traits \<Rightarrow> 'm machine_ops \<Rightarrow> ('m, u32) action" where
  "address_long tr e = do {
     b0 \<leftarrow> fetch_pc tr e; b1 \<leftarrow> fetch_pc tr e; b2 \<leftarrow> fetch_pc tr e;
     ret (ucast b0 OR push_bit 8 (ucast b1) OR push_bit 16 (ucast b2))
   }"

definition read_long :: "cpu_traits \<Rightarrow> 'm machine_ops \<Rightarrow> width \<Rightarrow> ('m, u16) action" where
  "read_long tr e w = do { eaddr \<leftarrow> address_long tr e; read_data e w eaddr }"

definition write_long :: "cpu_traits \<Rightarrow> 'm machine_ops \<Rightarrow> width \<Rightarrow> u16 \<Rightarrow> ('m, unit) action" where
  "write_long tr e w v = do { eaddr \<leftarrow> address_long tr e; write_data e w eaddr v }"

definition address_long_x :: "cpu_traits \<Rightarrow> 'm machine_ops \<Rightarrow> u16 \<Rightarrow> ('m, u32) action" where
  "address_long_x tr e index = do { base \<leftarrow> address_long tr e; ret (base + ucast index) }"

definition read_long_x ::
    "cpu_traits \<Rightarrow> 'm machine_ops \<Rightarrow> width \<Rightarrow> u16 \<Rightarrow> ('m, u16) action" where
  "read_long_x tr e w index = do { eaddr \<leftarrow> address_long_x tr e index; read_data e w eaddr }"

definition write_long_x ::
    "cpu_traits \<Rightarrow> 'm machine_ops \<Rightarrow> width \<Rightarrow> u16 \<Rightarrow> u16 \<Rightarrow> ('m, unit) action" where
  "write_long_x tr e w v index = do { eaddr \<leftarrow> address_long_x tr e index; write_data e w eaddr v }"

definition address_abs_x :: "cpu_traits \<Rightarrow> 'm machine_ops \<Rightarrow> u16 \<Rightarrow> ('m, u32) action" where
  "address_abs_x tr e index =
     (if has_65816_ops tr then do {
        a \<leftarrow> address_abs tr e;
        base \<leftarrow> cpu_get (\<lambda>c. full_db c OR ucast a);
        let eaddr = base + ucast index;
        (if e_mode tr \<or> \<not> x_16 tr
         then mwhen (base AND 0xFF00 \<noteq> eaddr AND 0xFF00)
                (phantom_read e ((base AND 0xFFFF00) OR ((base + ucast index) AND 0xFF)))
         else phantom_read e eaddr);
        ret eaddr
      } else do {
        base \<leftarrow> address_abs tr e;
        let eaddr = (ucast (base + index) :: u32);
        mwhen (ucast base AND 0xFF00 \<noteq> eaddr AND 0xFF00)
          (phantom_read e ((ucast base AND 0xFF00) OR ((ucast base + ucast index) AND 0xFF)));
        ret eaddr
      })"

definition address_abs_x_write ::
    "cpu_traits \<Rightarrow> 'm machine_ops \<Rightarrow> u16 \<Rightarrow> ('m, u32) action" where
  "address_abs_x_write tr e index =
     (if has_65816_ops tr then do {
        a \<leftarrow> address_abs tr e;
        base \<leftarrow> cpu_get (\<lambda>c. full_db c OR ucast a);
        let eaddr = base + ucast index;
        (if e_mode tr \<or> \<not> x_16 tr
         then phantom_read e ((base AND 0xFFFF00) OR ((base + ucast index) AND 0xFF))
         else phantom_read e eaddr);
        ret eaddr
      } else do {
        base \<leftarrow> address_abs tr e;
        let eaddr = (ucast (base + index) :: u32);
        phantom_read e ((ucast base AND 0xFF00) OR ((ucast base + ucast index) AND 0xFF));
        ret eaddr
      })"

definition read_abs_x ::
    "cpu_traits \<Rightarrow> 'm machine_ops \<Rightarrow> width \<Rightarrow> u16 \<Rightarrow> ('m, u16) action" where
  "read_abs_x tr e w index = do { eaddr \<leftarrow> address_abs_x tr e index; read_data e w eaddr }"

definition write_abs_x ::
    "cpu_traits \<Rightarrow> 'm machine_ops \<Rightarrow> width \<Rightarrow> u16 \<Rightarrow> u16 \<Rightarrow> ('m, unit) action" where
  "write_abs_x tr e w v index =
     do { eaddr \<leftarrow> address_abs_x_write tr e index; write_data e w eaddr v }"

text \<open>\<^verbatim>\<open>address_rmw_abs_x\<close> has the same body as \<^verbatim>\<open>address_abs_x_write\<close>.\<close>

definition address_rmw_abs_x ::
    "cpu_traits \<Rightarrow> 'm machine_ops \<Rightarrow> u16 \<Rightarrow> ('m, u32) action" where
  "address_rmw_abs_x tr e index = address_abs_x_write tr e index"

definition rmw_abs_x :: "cpu_traits \<Rightarrow> 'm machine_ops \<Rightarrow> rmw_op \<Rightarrow> ('m, unit) action" where
  "rmw_abs_x tr e operation = do {
     x \<leftarrow> cpu_get (get_X tr);
     eaddr \<leftarrow> address_rmw_abs_x tr e x;
     reg \<leftarrow> read_data e (alu_t tr) eaddr;
     rmw_modify_cycle tr e eaddr (eaddr + 1) reg;
     reg' \<leftarrow> apply_rmw tr operation reg;
     write_tada e (alu_t tr) eaddr reg'
   }"

subsection \<open>Direct page\<close>

definition direct_base :: "cpu_traits \<Rightarrow> cpu_state \<Rightarrow> u8 \<Rightarrow> u16" where
  "direct_base tr c operand =
     (if \<not> has_65816_ops tr then ucast operand
      else if e_mode tr \<and> reg_d c AND 0xFF = 0 then reg_d c OR ucast operand
      else reg_d c + ucast operand)"

definition address_direct :: "cpu_traits \<Rightarrow> 'm machine_ops \<Rightarrow> ('m, u16) action" where
  "address_direct tr e = do {
     operand \<leftarrow> fetch_pc tr e;
     eaddr \<leftarrow> cpu_get (\<lambda>c. direct_base tr c operand);
     dl \<leftarrow> cpu_get (\<lambda>c. reg_d c AND 0xFF);
     mwhen (has_65816_ops tr \<and> dl \<noteq> 0) (phantom_pc tr e);
     ret eaddr
   }"

definition read_direct :: "cpu_traits \<Rightarrow> 'm machine_ops \<Rightarrow> width \<Rightarrow> ('m, u16) action" where
  "read_direct tr e w = do { eaddr \<leftarrow> address_direct tr e; read_data_direct e w eaddr }"

definition write_direct ::
    "cpu_traits \<Rightarrow> 'm machine_ops \<Rightarrow> width \<Rightarrow> u16 \<Rightarrow> ('m, unit) action" where
  "write_direct tr e w v = do { eaddr \<leftarrow> address_direct tr e; write_data_direct e w eaddr v }"

definition rmw_direct :: "cpu_traits \<Rightarrow> 'm machine_ops \<Rightarrow> rmw_op \<Rightarrow> ('m, unit) action" where
  "rmw_direct tr e operation = do {
     eaddr \<leftarrow> address_direct tr e;
     reg \<leftarrow> read_data_direct e (alu_t tr) eaddr;
     reg' \<leftarrow> apply_rmw tr operation reg;
     phantom_pc tr e;
     write_tada_direct e (alu_t tr) eaddr reg'
   }"

definition direct_x_base :: "cpu_traits \<Rightarrow> cpu_state \<Rightarrow> u8 \<Rightarrow> u16 \<Rightarrow> u16" where
  "direct_x_base tr c operand index =
     (if \<not> has_65816_ops tr then ucast (operand + word_lo index)
      else if e_mode tr \<and> reg_d c AND 0xFF = 0
      then reg_d c OR ucast (operand + word_lo index)
      else reg_d c + ucast operand + index)"

definition address_direct_x :: "cpu_traits \<Rightarrow> 'm machine_ops \<Rightarrow> u16 \<Rightarrow> ('m, u16) action" where
  "address_direct_x tr e index = do {
     operand \<leftarrow> fetch_pc tr e;
     eaddr \<leftarrow> cpu_get (\<lambda>c. direct_x_base tr c operand index);
     dl \<leftarrow> cpu_get (\<lambda>c. reg_d c AND 0xFF);
     mwhen (has_65816_ops tr \<and> dl \<noteq> 0) (phantom_pc tr e);
     phantom_pc tr e;
     ret eaddr
   }"

definition read_direct_x ::
    "cpu_traits \<Rightarrow> 'm machine_ops \<Rightarrow> width \<Rightarrow> u16 \<Rightarrow> ('m, u16) action" where
  "read_direct_x tr e w index =
     do { eaddr \<leftarrow> address_direct_x tr e index; read_data_direct e w eaddr }"

definition write_direct_x ::
    "cpu_traits \<Rightarrow> 'm machine_ops \<Rightarrow> width \<Rightarrow> u16 \<Rightarrow> u16 \<Rightarrow> ('m, unit) action" where
  "write_direct_x tr e w v index =
     do { eaddr \<leftarrow> address_direct_x tr e index; write_data_direct e w eaddr v }"

definition rmw_direct_x :: "cpu_traits \<Rightarrow> 'm machine_ops \<Rightarrow> rmw_op \<Rightarrow> ('m, unit) action" where
  "rmw_direct_x tr e operation = do {
     x \<leftarrow> cpu_get (get_X tr);
     eaddr \<leftarrow> address_direct_x tr e x;
     reg \<leftarrow> read_data_direct e (alu_t tr) eaddr;
     rmw_modify_cycle tr e (ucast eaddr) (ucast (eaddr + 1)) reg;
     reg' \<leftarrow> apply_rmw tr operation reg;
     write_tada_direct e (alu_t tr) eaddr reg'
   }"

definition page_wrap_inc :: "u16 \<Rightarrow> u16" where
  "page_wrap_inc a = (a AND 0xFF00) OR ucast (word_lo a + 1)"

definition direct_x_ind_hi :: "cpu_traits \<Rightarrow> cpu_state \<Rightarrow> u16 \<Rightarrow> u16" where
  "direct_x_ind_hi tr c eaddr =
     (if has_65816_ops tr \<and> reg_d c AND 0x00FF \<noteq> 0 then eaddr + 1 else page_wrap_inc eaddr)"

text \<open>The pointer fetch shared by the read and the write form of \<^verbatim>\<open>(d,X)\<close>.\<close>

definition pointer_direct_x_ind ::
    "cpu_traits \<Rightarrow> 'm machine_ops \<Rightarrow> u16 \<Rightarrow> ('m, u32) action" where
  "pointer_direct_x_ind tr e index = do {
     eaddr \<leftarrow> address_direct_x tr e index;
     ptr \<leftarrow> (if has_65816_ops tr \<and> \<not> e_mode tr then read_data_direct e W16 eaddr
            else do {
              lo \<leftarrow> bus_read e (ucast eaddr);
              hiaddr \<leftarrow> cpu_get (\<lambda>c. direct_x_ind_hi tr c eaddr);
              hi \<leftarrow> bus_read e (ucast hiaddr);
              ret (mk_word lo hi)
            });
     cpu_get (\<lambda>c. add_bank tr c ptr)
   }"

definition read_direct_x_ind ::
    "cpu_traits \<Rightarrow> 'm machine_ops \<Rightarrow> width \<Rightarrow> u16 \<Rightarrow> ('m, u16) action" where
  "read_direct_x_ind tr e w index =
     do { eaddr \<leftarrow> pointer_direct_x_ind tr e index; read_data e w eaddr }"

definition write_direct_x_ind ::
    "cpu_traits \<Rightarrow> 'm machine_ops \<Rightarrow> width \<Rightarrow> u16 \<Rightarrow> u16 \<Rightarrow> ('m, unit) action" where
  "write_direct_x_ind tr e w v index =
     do { eaddr \<leftarrow> pointer_direct_x_ind tr e index; write_data e w eaddr v }"

definition direct_ind_hi :: "cpu_traits \<Rightarrow> cpu_state \<Rightarrow> u16 \<Rightarrow> u16" where
  "direct_ind_hi tr c eaddr =
     (if has_65816_ops tr \<and> e_mode tr \<and> reg_d c AND 0x00FF = 0 then page_wrap_inc eaddr
      else eaddr + 1)"

definition address_direct_indirect :: "cpu_traits \<Rightarrow> 'm machine_ops \<Rightarrow> ('m, u32) action" where
  "address_direct_indirect tr e = do {
     eaddr \<leftarrow> address_direct tr e;
     hi_addr \<leftarrow> cpu_get (\<lambda>c. direct_ind_hi tr c eaddr);
     lo \<leftarrow> bus_read e (ucast eaddr);
     hi \<leftarrow> bus_read e (ucast hi_addr);
     cpu_get (\<lambda>c. add_bank tr c (mk_word lo hi))
   }"

definition read_direct_indirect ::
    "cpu_traits \<Rightarrow> 'm machine_ops \<Rightarrow> width \<Rightarrow> ('m, u16) action" where
  "read_direct_indirect tr e w =
     do { eaddr \<leftarrow> address_direct_indirect tr e; read_data e w eaddr }"

definition write_direct_indirect ::
    "cpu_traits \<Rightarrow> 'm machine_ops \<Rightarrow> width \<Rightarrow> u16 \<Rightarrow> ('m, unit) action" where
  "write_direct_indirect tr e w v =
     do { eaddr \<leftarrow> address_direct_indirect tr e; write_data e w eaddr v }"

text \<open>\<^verbatim>\<open>(d),Y\<close>: the pointer is cut to 16 bits and the data bank joined again.\<close>

definition read_direct_ind_x ::
    "cpu_traits \<Rightarrow> 'm machine_ops \<Rightarrow> width \<Rightarrow> u16 \<Rightarrow> ('m, u16) action" where
  "read_direct_ind_x tr e w index = do {
     ptr \<leftarrow> address_direct_indirect tr e;
     let eaddr_16 = (ucast ptr :: u16);
     (if has_65816_ops tr then do {
        base \<leftarrow> cpu_get (\<lambda>c. full_db c OR ucast eaddr_16);
        let eaddr = base + ucast index;
        (if e_mode tr \<or> \<not> x_16 tr
         then mwhen (eaddr AND 0xFF00 \<noteq> base AND 0xFF00)
                (phantom_read e ((base AND 0xFFFF00) OR (eaddr AND 0xFF)))
         else phantom_read e eaddr);
        read_data e w eaddr
      } else do {
        let eaddr = (ucast (eaddr_16 + index) :: u32);
        mwhen (eaddr AND 0xFF00 \<noteq> ucast eaddr_16 AND 0xFF00)
          (phantom_read e ((ucast eaddr_16 AND 0x00FF00) OR (eaddr AND 0xFF)));
        read_data e w eaddr
      })
   }"

definition write_direct_ind_x ::
    "cpu_traits \<Rightarrow> 'm machine_ops \<Rightarrow> width \<Rightarrow> u16 \<Rightarrow> u16 \<Rightarrow> ('m, unit) action" where
  "write_direct_ind_x tr e w v index = do {
     ptr \<leftarrow> address_direct_indirect tr e;
     let eaddr_16 = (ucast ptr :: u16);
     (if has_65816_ops tr then do {
        base \<leftarrow> cpu_get (\<lambda>c. full_db c OR ucast eaddr_16);
        let eaddr = base + ucast index;
        (if e_mode tr \<or> \<not> x_16 tr
         then phantom_read e ((base AND 0xFFFF00) OR (eaddr AND 0xFF))
         else phantom_read e eaddr);
        write_data e w eaddr v
      } else do {
        let eaddr = (ucast (eaddr_16 + index) :: u32);
        phantom_read e ((ucast eaddr_16 AND 0x00FF00) OR (eaddr AND 0xFF));
        write_data e w eaddr v
      })
   }"

definition address_direct_indirect_long ::
    "cpu_traits \<Rightarrow> 'm machine_ops \<Rightarrow> ('m, u32) action" where
  "address_direct_indirect_long tr e = do {
     eaddr \<leftarrow> address_direct tr e;
     b0 \<leftarrow> bus_read e (ucast eaddr);
     b1 \<leftarrow> bus_read e (ucast (eaddr + 1));
     b2 \<leftarrow> bus_read e (ucast (eaddr + 2));
     ret (ucast b0 OR push_bit 8 (ucast b1) OR push_bit 16 (ucast b2))
   }"

definition read_direct_ind_x_long ::
    "cpu_traits \<Rightarrow> 'm machine_ops \<Rightarrow> width \<Rightarrow> u16 \<Rightarrow> ('m, u16) action" where
  "read_direct_ind_x_long tr e w index =
     do { eaddr \<leftarrow> address_direct_indirect_long tr e; read_data e w (eaddr + ucast index) }"

definition write_direct_ind_x_long ::
    "cpu_traits \<Rightarrow> 'm machine_ops \<Rightarrow> width \<Rightarrow> u16 \<Rightarrow> u16 \<Rightarrow> ('m, unit) action" where
  "write_direct_ind_x_long tr e w v index =
     do { eaddr \<leftarrow> address_direct_indirect_long tr e; write_data e w (eaddr + ucast index) v }"

definition read_direct_ind_long ::
    "cpu_traits \<Rightarrow> 'm machine_ops \<Rightarrow> width \<Rightarrow> ('m, u16) action" where
  "read_direct_ind_long tr e w =
     do { eaddr \<leftarrow> address_direct_indirect_long tr e; read_data e w eaddr }"

definition write_direct_ind_long ::
    "cpu_traits \<Rightarrow> 'm machine_ops \<Rightarrow> width \<Rightarrow> u16 \<Rightarrow> ('m, unit) action" where
  "write_direct_ind_long tr e w v =
     do { eaddr \<leftarrow> address_direct_indirect_long tr e; write_data e w eaddr v }"

subsection \<open>Stack relative\<close>

definition address_stack_relative :: "cpu_traits \<Rightarrow> 'm machine_ops \<Rightarrow> ('m, u16) action" where
  "address_stack_relative tr e = do {
     offset \<leftarrow> fetch_pc tr e;
     eaddr \<leftarrow> cpu_get (\<lambda>c. reg_sp c + ucast offset);
     phantom_pc tr e;
     ret eaddr
   }"

definition read_stack_relative ::
    "cpu_traits \<Rightarrow> 'm machine_ops \<Rightarrow> width \<Rightarrow> ('m, u16) action" where
  "read_stack_relative tr e w =
     do { eaddr \<leftarrow> address_stack_relative tr e; read_data_direct e w eaddr }"

definition write_stack_relative ::
    "cpu_traits \<Rightarrow> 'm machine_ops \<Rightarrow> width \<Rightarrow> u16 \<Rightarrow> ('m, unit) action" where
  "write_stack_relative tr e w v =
     do { eaddr \<leftarrow> address_stack_relative tr e; write_data e w (ucast eaddr) v }"

definition pointer_stack_relative_y ::
    "cpu_traits \<Rightarrow> 'm machine_ops \<Rightarrow> ('m, u32) action" where
  "pointer_stack_relative_y tr e = do {
     addr \<leftarrow> address_stack_relative tr e;
     lo \<leftarrow> bus_read e (ucast addr);
     hi \<leftarrow> bus_read e (ucast (addr + 1));
     sp \<leftarrow> cpu_get reg_sp;
     phantom_read e (ucast sp);
     cpu_get (\<lambda>c. (ucast (mk_word lo hi) OR full_db c) + ucast (get_Y tr c))
   }"

definition read_stack_relative_y ::
    "cpu_traits \<Rightarrow> 'm machine_ops \<Rightarrow> width \<Rightarrow> ('m, u16) action" where
  "read_stack_relative_y tr e w =
     do { eaddr \<leftarrow> pointer_stack_relative_y tr e; read_data e w eaddr }"

definition write_stack_relative_y ::
    "cpu_traits \<Rightarrow> 'm machine_ops \<Rightarrow> width \<Rightarrow> u16 \<Rightarrow> ('m, unit) action" where
  "write_stack_relative_y tr e w v =
     do { eaddr \<leftarrow> pointer_stack_relative_y tr e; write_data e w eaddr v }"

section \<open>Register transfers\<close>

definition transfer_x_s :: "cpu_traits \<Rightarrow> 'm machine_ops \<Rightarrow> ('m, unit) action" where
  "transfer_x_s tr e = do {
     cpu_upd (\<lambda>c.
       if has_65816_ops tr then
         if e_mode tr then set_sp_hi 0x01 (set_sp_lo (word_lo (get_X tr c)) c)
         else c\<lparr>reg_sp := reg_x c\<rparr>
       else set_sp_hi 0x01 (set_sp_lo (word_lo (get_X tr c)) c));
     phantom_pc tr e
   }"

definition transfer_s_x :: "cpu_traits \<Rightarrow> 'm machine_ops \<Rightarrow> ('m, unit) action" where
  "transfer_s_x tr e = do {
     cpu_upd (\<lambda>c. let c' = set_X tr (reg_sp c) c
                  in set_n_z_flags (index_t tr) (get_X tr c') c');
     phantom_pc tr e
   }"

definition transfer_s_a :: "cpu_traits \<Rightarrow> 'm machine_ops \<Rightarrow> ('m, unit) action" where
  "transfer_s_a tr e = do {
     cpu_upd (\<lambda>c. set_n_z_flags W16 (reg_sp c) (c\<lparr>reg_a := reg_sp c\<rparr>));
     phantom_pc tr e
   }"

text \<open>\<^verbatim>\<open>transfer_reg_reg\<close> at the four register pairs the opcodes use it for.\<close>

definition transfer_reg_reg ::
    "cpu_traits \<Rightarrow> 'm machine_ops \<Rightarrow> width \<Rightarrow> (cpu_state \<Rightarrow> u16) \<Rightarrow>
     (u16 \<Rightarrow> cpu_state \<Rightarrow> cpu_state) \<Rightarrow> ('m, unit) action" where
  "transfer_reg_reg tr e w src dst = do {
     cpu_upd (\<lambda>c. set_n_z_flags w (src c) (dst (src c) c));
     phantom_pc tr e
   }"

section \<open>Arithmetic that may take a cycle\<close>

definition decimal_cycle :: "cpu_traits \<Rightarrow> 'm machine_ops \<Rightarrow> ('m, unit) action" where
  "decimal_cycle tr e =
     mwhen (has_65c02_ops tr \<and> \<not> has_65816_ops tr) (incr_cycles e internal_cycle)"

definition add_and_set_flags_8 ::
    "cpu_traits \<Rightarrow> 'm machine_ops \<Rightarrow> u8 \<Rightarrow> ('m, unit) action" where
  "add_and_set_flags_8 tr e n = do {
     dec \<leftarrow> cpu_get flag_D;
     if \<not> dec then cpu_upd (add_binary_8 n)
     else do {
       cpu_upd (\<lambda>c. let (a', c') = add_bcd_8_set_flags tr (word_lo (reg_a c)) n c
                    in c'\<lparr>reg_a := set_lo (reg_a c') a'\<rparr>);
       decimal_cycle tr e
     }
   }"

definition add_and_set_flags_16 :: "cpu_traits \<Rightarrow> u16 \<Rightarrow> ('m, unit) action" where
  "add_and_set_flags_16 tr n = do {
     dec \<leftarrow> cpu_get flag_D;
     if \<not> dec then cpu_upd (add_binary_16 tr n) else cpu_upd (add_bcd_16_set_flags tr n)
   }"

definition add_and_set_flags ::
    "cpu_traits \<Rightarrow> 'm machine_ops \<Rightarrow> u16 \<Rightarrow> ('m, unit) action" where
  "add_and_set_flags tr e n =
     (if m_16 tr then add_and_set_flags_16 tr n else add_and_set_flags_8 tr e (word_lo n))"

definition subtract_and_set_flags_8 ::
    "cpu_traits \<Rightarrow> 'm machine_ops \<Rightarrow> u8 \<Rightarrow> ('m, unit) action" where
  "subtract_and_set_flags_8 tr e n = do {
     dec \<leftarrow> cpu_get flag_D;
     if \<not> dec then cpu_upd (sub_binary_8 n)
     else do {
       cpu_upd (\<lambda>c. let (a', c') = sub_bcd_8_set_flags tr (word_lo (reg_a c)) n c
                    in c'\<lparr>reg_a := set_lo (reg_a c') a'\<rparr>);
       decimal_cycle tr e
     }
   }"

definition subtract_and_set_flags_16 :: "cpu_traits \<Rightarrow> u16 \<Rightarrow> ('m, unit) action" where
  "subtract_and_set_flags_16 tr n = do {
     dec \<leftarrow> cpu_get flag_D;
     if \<not> dec then cpu_upd (sub_binary_16 tr n) else cpu_upd (sub_bcd_16_set_flags tr n)
   }"

definition subtract_and_set_flags ::
    "cpu_traits \<Rightarrow> 'm machine_ops \<Rightarrow> u16 \<Rightarrow> ('m, unit) action" where
  "subtract_and_set_flags tr e n =
     (if m_16 tr then subtract_and_set_flags_16 tr n
      else subtract_and_set_flags_8 tr e (word_lo n))"

section \<open>Branches and jump targets\<close>

definition branch_if ::
    "cpu_traits \<Rightarrow> 'm machine_ops \<Rightarrow> u8 \<Rightarrow> bool \<Rightarrow> ('m, unit) action" where
  "branch_if tr e n condition = do {
     oaddr \<leftarrow> cpu_get reg_pc;
     let taddr = oaddr + scast n;
     mwhen condition (do {
       cpu_upd (\<lambda>c. c\<lparr>reg_pc := reg_pc c + scast n\<rparr>);
       incr_cycles e internal_cycle;
       mwhen (\<not> (has_65816_ops tr \<and> \<not> e_mode tr) \<and> oaddr AND 0xFF00 \<noteq> taddr AND 0xFF00)
         (incr_cycles e internal_cycle)
     })
   }"

definition make_pb_addr :: "cpu_traits \<Rightarrow> cpu_state \<Rightarrow> u16 \<Rightarrow> u32" where
  "make_pb_addr tr c addr =
     (if has_65816_ops tr then push_bit 16 (ucast (reg_pb c)) OR ucast addr else ucast addr)"

definition get_operand_address_absolute_indirect_x ::
    "cpu_traits \<Rightarrow> 'm machine_ops \<Rightarrow> ('m, u16) action" where
  "get_operand_address_absolute_indirect_x tr e = do {
     addr \<leftarrow> address_abs tr e;
     pc \<leftarrow> cpu_get (PC tr);
     phantom_read_ign tr e pc;
     if has_65816_ops tr then do {
       base \<leftarrow> cpu_get (\<lambda>c. addr + get_X tr c);
       p0 \<leftarrow> cpu_get (\<lambda>c. make_pb_addr tr c base);
       lo \<leftarrow> bus_read e p0;
       p1 \<leftarrow> cpu_get (\<lambda>c. make_pb_addr tr c (base + 1));
       hi \<leftarrow> bus_read e p1;
       ret (mk_word lo hi)
     } else do {
       x \<leftarrow> cpu_get (\<lambda>c. word_lo (reg_x c));
       read_word tr e (addr + ucast x)
     }
   }"

definition address_relative :: "cpu_traits \<Rightarrow> 'm machine_ops \<Rightarrow> ('m, u8) action" where
  "address_relative tr e = fetch_pc tr e"

definition address_relative_long :: "cpu_traits \<Rightarrow> 'm machine_ops \<Rightarrow> ('m, u16) action" where
  "address_relative_long tr e =
     do { lo \<leftarrow> fetch_pc tr e; hi \<leftarrow> fetch_pc tr e; ret (mk_word lo hi) }"

section \<open>Stack\<close>

definition stack_page :: "u8 \<Rightarrow> u32" where
  "stack_page b = 0x0100 OR ucast b"

definition push_byte :: "cpu_traits \<Rightarrow> 'm machine_ops \<Rightarrow> u8 \<Rightarrow> ('m, unit) action" where
  "push_byte tr e n =
     (if has_65816_ops tr then
        if e_mode tr then do {
          sl \<leftarrow> cpu_get sp_lo;
          bus_write e (stack_page sl) n;
          cpu_upd (\<lambda>c. set_sp_lo (sp_lo c - 1) c)
        } else do {
          sp \<leftarrow> cpu_get reg_sp;
          bus_write e (ucast sp) n;
          cpu_upd (\<lambda>c. c\<lparr>reg_sp := reg_sp c - 1\<rparr>)
        }
      else do {
        sl \<leftarrow> cpu_get sp_lo;
        bus_write e (stack_page sl) n;
        cpu_upd (\<lambda>c. c\<lparr>reg_sp := ucast (word_lo (reg_sp c - 1))\<rparr>)
      })"

definition pop_byte :: "cpu_traits \<Rightarrow> 'm machine_ops \<Rightarrow> ('m, u8) action" where
  "pop_byte tr e =
     (if has_65816_ops tr then
        if e_mode tr then do {
          cpu_upd (\<lambda>c. set_sp_lo (sp_lo c + 1) c);
          sl \<leftarrow> cpu_get sp_lo;
          bus_read e (stack_page sl)
        } else do {
          cpu_upd (\<lambda>c. c\<lparr>reg_sp := reg_sp c + 1\<rparr>);
          sp \<leftarrow> cpu_get reg_sp;
          bus_read e (ucast sp)
        }
      else do {
        cpu_upd (\<lambda>c. c\<lparr>reg_sp := ucast (word_lo (reg_sp c + 1))\<rparr>);
        sl \<leftarrow> cpu_get sp_lo;
        bus_read e (stack_page sl)
      })"

definition push_word :: "cpu_traits \<Rightarrow> 'm machine_ops \<Rightarrow> u16 \<Rightarrow> ('m, unit) action" where
  "push_word tr e n =
     (if has_65816_ops tr \<and> \<not> e_mode tr then do {
        sp \<leftarrow> cpu_get reg_sp;
        bus_write e (ucast sp) (word_hi n);
        sp1 \<leftarrow> cpu_get (\<lambda>c. reg_sp c - 1);
        bus_write e (ucast sp1) (word_lo n);
        cpu_upd (\<lambda>c. c\<lparr>reg_sp := reg_sp c - 2\<rparr>)
      } else do {
        sl \<leftarrow> cpu_get sp_lo;
        bus_write e (stack_page sl) (word_hi n);
        sl1 \<leftarrow> cpu_get (\<lambda>c. sp_lo c - 1);
        bus_write e (stack_page sl1) (word_lo n);
        cpu_upd (\<lambda>c. set_sp_lo (sp_lo c - 2) c)
      })"

definition push_byte_new :: "'m machine_ops \<Rightarrow> u8 \<Rightarrow> ('m, unit) action" where
  "push_byte_new e n = do {
     sp \<leftarrow> cpu_get reg_sp;
     bus_write e (ucast sp) n;
     cpu_upd (\<lambda>c. c\<lparr>reg_sp := reg_sp c - 1\<rparr>)
   }"

definition push_word_new :: "'m machine_ops \<Rightarrow> u16 \<Rightarrow> ('m, unit) action" where
  "push_word_new e n = do {
     push_byte_new e (word_hi n);
     push_byte_new e (word_lo n)
   }"

definition pop_byte_new :: "'m machine_ops \<Rightarrow> ('m, u8) action" where
  "pop_byte_new e = do {
     cpu_upd (\<lambda>c. c\<lparr>reg_sp := reg_sp c + 1\<rparr>);
     sp \<leftarrow> cpu_get reg_sp;
     bus_read e (ucast sp)
   }"

definition pop_word_new :: "'m machine_ops \<Rightarrow> ('m, u16) action" where
  "pop_word_new e = do {
     lo \<leftarrow> pop_byte_new e;
     hi \<leftarrow> pop_byte_new e;
     ret (mk_word lo hi)
   }"

definition stack_fix_new :: "cpu_traits \<Rightarrow> ('m, unit) action" where
  "stack_fix_new tr = mwhen (e_mode tr) (cpu_upd (set_sp_hi 0x01))"

definition pop_word :: "cpu_traits \<Rightarrow> 'm machine_ops \<Rightarrow> ('m, u16) action" where
  "pop_word tr e = do { l \<leftarrow> pop_byte tr e; h \<leftarrow> pop_byte tr e; ret (mk_word l h) }"

definition stack_pull :: "cpu_traits \<Rightarrow> 'm machine_ops \<Rightarrow> width \<Rightarrow> ('m, u16) action" where
  "stack_pull tr e w = do {
     phantom_pc tr e;
     phantom_pc tr e;
     (case w of W8 \<Rightarrow> do { v \<leftarrow> pop_byte tr e; ret (ucast v) } | W16 \<Rightarrow> pop_word tr e)
   }"

definition stack_push :: "cpu_traits \<Rightarrow> 'm machine_ops \<Rightarrow> width \<Rightarrow> u16 \<Rightarrow> ('m, unit) action" where
  "stack_push tr e w v = do {
     phantom_pc tr e;
     (case w of W8 \<Rightarrow> push_byte tr e (word_lo v) | W16 \<Rightarrow> push_word tr e v)
   }"

definition stack_rtl :: "cpu_traits \<Rightarrow> 'm machine_ops \<Rightarrow> ('m, unit) action" where
  "stack_rtl tr e = do {
     pc \<leftarrow> pop_word_new e;
     cpu_upd (\<lambda>c. c\<lparr>reg_pc := pc\<rparr>);
     pb \<leftarrow> pop_byte_new e;
     cpu_upd (\<lambda>c. c\<lparr>reg_pb := pb\<rparr>);
     stack_fix_new tr
   }"

definition brk_cop :: "cpu_traits \<Rightarrow> 'm machine_ops \<Rightarrow> u16 \<Rightarrow> ('m, unit) action" where
  "brk_cop tr e vector = do {
     sign \<leftarrow> fetch_pc tr e;
     if has_65816_ops tr then do {
       mwhen (\<not> e_mode tr) (do { pb \<leftarrow> cpu_get reg_pb; push_byte tr e pb });
       pc \<leftarrow> cpu_get reg_pc;
       push_word tr e pc;
       p \<leftarrow> cpu_get get_p;
       push_byte tr e (if e_mode tr then p OR FLAG_B OR FLAG_UNUSED else p);
       cpu_upd (\<lambda>c. c\<lparr>flag_I := True, flag_D := False\<rparr>);
       target \<leftarrow> read_word_bank0 e vector;
       cpu_upd (\<lambda>c. c\<lparr>reg_pc := target, reg_pb := 0\<rparr>)
     } else do {
       pc \<leftarrow> cpu_get reg_pc;
       push_word tr e pc;
       p \<leftarrow> cpu_get get_p;
       push_byte tr e (p OR FLAG_B OR FLAG_UNUSED);
       cpu_upd (\<lambda>c. c\<lparr>flag_I := True, flag_D := (if has_65c02_ops tr then False else flag_D c)\<rparr>);
       target \<leftarrow> read_word_bank0 e vector;
       cpu_upd (\<lambda>c. c\<lparr>reg_pc := target\<rparr>)
     }
   }"

definition move_memory :: "cpu_traits \<Rightarrow> 'm machine_ops \<Rightarrow> ('m, unit) action" where
  "move_memory tr e = do {
     DBA \<leftarrow> fetch_pc tr e;
     SBA \<leftarrow> fetch_pc tr e;
     src \<leftarrow> cpu_get (\<lambda>c. push_bit 16 (ucast SBA) OR ucast (get_X tr c));
     dst \<leftarrow> cpu_get (\<lambda>c. push_bit 16 (ucast DBA) OR ucast (get_Y tr c));
     n \<leftarrow> bus_read e src;
     bus_write e dst n;
     cpu_upd (\<lambda>c. c\<lparr>reg_db := DBA\<rparr>);
     phantom_read_ign tr e dst;
     phantom_read_ign tr e dst;
     a \<leftarrow> cpu_get reg_a;
     cpu_upd (\<lambda>c. c\<lparr>reg_a := a - 1\<rparr>);
     mwhen (a \<noteq> 0) (cpu_upd (\<lambda>c. c\<lparr>reg_pc := reg_pc c - 3\<rparr>))
   }"

definition invalid_opcode :: "u8 \<Rightarrow> ('m, unit) action" where
  "invalid_opcode opcode = ret ()"

definition invalid_nop :: "'m machine_ops \<Rightarrow> nat \<Rightarrow> nat \<Rightarrow> ('m, unit) action" where
  "invalid_nop e bytes cycles = do {
     cpu_upd (\<lambda>c. c\<lparr>reg_pc := reg_pc c + of_nat (bytes - 1)\<rparr>);
     repeat_m (cycles - 1) (incr_cycles e internal_cycle)
   }"

end
