(* ===== verification/Cpu_Opcodes.thy ===== *)
theory Cpu_Opcodes
  imports Cpu_Core
begin

text \<open>
  The opcode switch of \<^verbatim>\<open>CPU6502Core::execute_next\<close>
  (\<^verbatim>\<open>src/cpus/base_6502.cpp\<close>).  Each group of cases of the switch is a list of pairs of a
  case label (\<^verbatim>\<open>src/opcodes.hpp\<close>) and the action of its body, in the order of the
  source; the switch is the lookup in their concatenation, and a label that is missing is the
  \<^verbatim>\<open>default\<close> case.
\<close>

type_synonym 'm opcode_cases = "(u8 \<times> ('m, unit) action) list"

section \<open>Shapes of case bodies\<close>

text \<open>\<^verbatim>\<open>if constexpr (has_65c02_ops) ... else invalid_opcode\<close>.\<close>

definition cmos_only :: "cpu_traits \<Rightarrow> u8 \<Rightarrow> ('m, unit) action \<Rightarrow> ('m, unit) action" where
  "cmos_only tr opcode body = (if has_65c02_ops tr then body else invalid_opcode opcode)"

text \<open>\<^verbatim>\<open>if constexpr (has_65816_ops) ... else invalid_nop(cpu, 1, 1)\<close>.\<close>

definition long_only ::
    "cpu_traits \<Rightarrow> 'm machine_ops \<Rightarrow> ('m, unit) action \<Rightarrow> ('m, unit) action" where
  "long_only tr e body = (if has_65816_ops tr then body else invalid_nop e 1 1)"

text \<open>The three-way form: a body on the 65816, a NOP of the given length and time on the
  65C02, and the invalid-opcode message on the NMOS part.\<close>

definition inop ::
    "cpu_traits \<Rightarrow> 'm machine_ops \<Rightarrow> u8 \<Rightarrow> nat \<Rightarrow> nat \<Rightarrow> ('m, unit) action \<Rightarrow> ('m, unit) action" where
  "inop tr e opcode bytes cycles body =
     (if has_65816_ops tr then body
      else if has_65c02_ops tr then invalid_nop e bytes cycles
      else invalid_opcode opcode)"

text \<open>The index argument of an indexed mode.\<close>

definition by_X :: "cpu_traits \<Rightarrow> (u16 \<Rightarrow> ('m, 'a) action) \<Rightarrow> ('m, 'a) action" where
  "by_X tr mode = do { x \<leftarrow> cpu_get (get_X tr); mode x }"

definition by_Y :: "cpu_traits \<Rightarrow> (u16 \<Rightarrow> ('m, 'a) action) \<Rightarrow> ('m, 'a) action" where
  "by_Y tr mode = do { y \<leftarrow> cpu_get (get_Y tr); mode y }"

definition do_adc :: "cpu_traits \<Rightarrow> 'm machine_ops \<Rightarrow> ('m, u16) action \<Rightarrow> ('m, unit) action" where
  "do_adc tr e operand = do { N \<leftarrow> operand; add_and_set_flags tr e N }"

definition do_sbc :: "cpu_traits \<Rightarrow> 'm machine_ops \<Rightarrow> ('m, u16) action \<Rightarrow> ('m, unit) action" where
  "do_sbc tr e operand = do { N \<leftarrow> operand; subtract_and_set_flags tr e N }"

text \<open>Store to a register at the width of the core and set N and Z from it.\<close>

definition load_A :: "cpu_traits \<Rightarrow> u16 \<Rightarrow> cpu_state \<Rightarrow> cpu_state" where
  "load_A tr v c = (let c' = set_A tr v c in set_n_z_flags (alu_t tr) (get_A tr c') c')"

definition load_X :: "cpu_traits \<Rightarrow> u16 \<Rightarrow> cpu_state \<Rightarrow> cpu_state" where
  "load_X tr v c = (let c' = set_X tr v c in set_n_z_flags (index_t tr) (get_X tr c') c')"

definition load_Y :: "cpu_traits \<Rightarrow> u16 \<Rightarrow> cpu_state \<Rightarrow> cpu_state" where
  "load_Y tr v c = (let c' = set_Y tr v c in set_n_z_flags (index_t tr) (get_Y tr c') c')"

definition do_and :: "cpu_traits \<Rightarrow> ('m, u16) action \<Rightarrow> ('m, unit) action" where
  "do_and tr operand = do { N \<leftarrow> operand; cpu_upd (\<lambda>c. load_A tr (get_A tr c AND N) c) }"

definition do_ora :: "cpu_traits \<Rightarrow> ('m, u16) action \<Rightarrow> ('m, unit) action" where
  "do_ora tr operand = do { N \<leftarrow> operand; cpu_upd (\<lambda>c. load_A tr (get_A tr c OR N) c) }"

definition do_eor :: "cpu_traits \<Rightarrow> ('m, u16) action \<Rightarrow> ('m, unit) action" where
  "do_eor tr operand = do { N \<leftarrow> operand; cpu_upd (\<lambda>c. load_A tr (get_A tr c XOR N) c) }"

definition do_lda :: "cpu_traits \<Rightarrow> ('m, u16) action \<Rightarrow> ('m, unit) action" where
  "do_lda tr operand = do { N \<leftarrow> operand; cpu_upd (load_A tr N) }"

definition do_ldx :: "cpu_traits \<Rightarrow> ('m, u16) action \<Rightarrow> ('m, unit) action" where
  "do_ldx tr operand = do { N \<leftarrow> operand; cpu_upd (load_X tr N) }"

definition do_ldy :: "cpu_traits \<Rightarrow> ('m, u16) action \<Rightarrow> ('m, unit) action" where
  "do_ldy tr operand = do { N \<leftarrow> operand; cpu_upd (load_Y tr N) }"

definition do_cmp :: "cpu_traits \<Rightarrow> ('m, u16) action \<Rightarrow> ('m, unit) action" where
  "do_cmp tr operand =
     do { N \<leftarrow> operand; cpu_upd (\<lambda>c. compare_and_set_flags (alu_t tr) (get_A tr c) N c) }"

definition do_cpx :: "cpu_traits \<Rightarrow> ('m, u16) action \<Rightarrow> ('m, unit) action" where
  "do_cpx tr operand =
     do { N \<leftarrow> operand; cpu_upd (\<lambda>c. compare_and_set_flags (index_t tr) (get_X tr c) N c) }"

definition do_cpy :: "cpu_traits \<Rightarrow> ('m, u16) action \<Rightarrow> ('m, unit) action" where
  "do_cpy tr operand =
     do { N \<leftarrow> operand; cpu_upd (\<lambda>c. compare_and_set_flags (index_t tr) (get_Y tr c) N c) }"

definition do_bit :: "cpu_traits \<Rightarrow> ('m, u16) action \<Rightarrow> ('m, unit) action" where
  "do_bit tr operand =
     do { N \<leftarrow> operand; cpu_upd (\<lambda>c. set_n_z_v_flags (alu_t tr) (get_A tr c AND N) N c) }"

definition do_branch ::
    "cpu_traits \<Rightarrow> 'm machine_ops \<Rightarrow> (cpu_state \<Rightarrow> bool) \<Rightarrow> ('m, unit) action" where
  "do_branch tr e condition = do {
     N \<leftarrow> address_relative tr e;
     taken \<leftarrow> cpu_get condition;
     branch_if tr e N taken
   }"

text \<open>The argument of a store, read when the mode is entered.\<close>

definition store :: "(cpu_state \<Rightarrow> u16) \<Rightarrow> (u16 \<Rightarrow> ('m, unit) action) \<Rightarrow> ('m, unit) action" where
  "store reg mode = do { v \<leftarrow> cpu_get reg; mode v }"

text \<open>A register update followed or preceded by the internal cycle of an implied mode.\<close>

definition implied ::
    "cpu_traits \<Rightarrow> 'm machine_ops \<Rightarrow> (cpu_state \<Rightarrow> cpu_state) \<Rightarrow> ('m, unit) action" where
  "implied tr e f = do { cpu_upd f; phantom_pc tr e }"

definition implied_late ::
    "cpu_traits \<Rightarrow> 'm machine_ops \<Rightarrow> (cpu_state \<Rightarrow> cpu_state) \<Rightarrow> ('m, unit) action" where
  "implied_late tr e f = do { phantom_pc tr e; cpu_upd f }"

section \<open>The cases\<close>

definition adc_cases :: "cpu_traits \<Rightarrow> 'm machine_ops \<Rightarrow> 'm opcode_cases" where
  "adc_cases tr e = [
     (0x69, do_adc tr e (read_imm tr e (alu_t tr))),
     (0x65, do_adc tr e (read_direct tr e (alu_t tr))),
     (0x75, do_adc tr e (by_X tr (read_direct_x tr e (alu_t tr)))),
     (0x72, cmos_only tr 0x72 (do_adc tr e (read_direct_indirect tr e (alu_t tr)))),
     (0x6D, do_adc tr e (read_abs tr e (alu_t tr))),
     (0x7D, do_adc tr e (by_X tr (read_abs_x tr e (alu_t tr)))),
     (0x79, do_adc tr e (by_Y tr (read_abs_x tr e (alu_t tr)))),
     (0x61, do_adc tr e (by_X tr (read_direct_x_ind tr e (alu_t tr)))),
     (0x71, do_adc tr e (by_Y tr (read_direct_ind_x tr e (alu_t tr))))]"

definition and_cases :: "cpu_traits \<Rightarrow> 'm machine_ops \<Rightarrow> 'm opcode_cases" where
  "and_cases tr e = [
     (0x29, do_and tr (read_imm tr e (alu_t tr))),
     (0x25, do_and tr (read_direct tr e (alu_t tr))),
     (0x32, cmos_only tr 0x32 (do_and tr (read_direct_indirect tr e (alu_t tr)))),
     (0x35, do_and tr (by_X tr (read_direct_x tr e (alu_t tr)))),
     (0x2D, do_and tr (read_abs tr e (alu_t tr))),
     (0x3D, do_and tr (by_X tr (read_abs_x tr e (alu_t tr)))),
     (0x39, do_and tr (by_Y tr (read_abs_x tr e (alu_t tr)))),
     (0x21, do_and tr (by_X tr (read_direct_x_ind tr e (alu_t tr)))),
     (0x31, do_and tr (by_Y tr (read_direct_ind_x tr e (alu_t tr))))]"

definition asl_cases :: "cpu_traits \<Rightarrow> 'm machine_ops \<Rightarrow> 'm opcode_cases" where
  "asl_cases tr e = [
     (0x0A, rmw_acc tr e ArithmeticShiftLeftOp),
     (0x06, rmw_direct tr e ArithmeticShiftLeftOp),
     (0x16, rmw_direct_x tr e ArithmeticShiftLeftOp),
     (0x0E, rmw_abs tr e ArithmeticShiftLeftOp),
     (0x1E, rmw_abs_x tr e ArithmeticShiftLeftOp)]"

definition long_logic_cases :: "cpu_traits \<Rightarrow> 'm machine_ops \<Rightarrow> 'm opcode_cases" where
  "long_logic_cases tr e = [
     (0x0F, long_only tr e (do_ora tr (read_long tr e (alu_t tr)))),
     (0x1F, long_only tr e (do_ora tr (by_X tr (read_long_x tr e (alu_t tr))))),
     (0x2F, long_only tr e (do_and tr (read_long tr e (alu_t tr)))),
     (0x3F, long_only tr e (do_and tr (by_X tr (read_long_x tr e (alu_t tr))))),
     (0x4F, long_only tr e (do_eor tr (read_long tr e (alu_t tr)))),
     (0x5F, long_only tr e (do_eor tr (by_X tr (read_long_x tr e (alu_t tr))))),
     (0x6F, long_only tr e (do_adc tr e (read_long tr e (alu_t tr)))),
     (0x7F, long_only tr e (do_adc tr e (by_X tr (read_long_x tr e (alu_t tr)))))]"

definition long_move_cases :: "cpu_traits \<Rightarrow> 'm machine_ops \<Rightarrow> 'm opcode_cases" where
  "long_move_cases tr e = [
     (0x8F, long_only tr e (store (get_A tr) (\<lambda>v. write_long tr e (alu_t tr) v))),
     (0x9F, long_only tr e (store (get_A tr) (\<lambda>v. by_X tr (write_long_x tr e (alu_t tr) v)))),
     (0xAF, long_only tr e (do_lda tr (read_long tr e (alu_t tr)))),
     (0xBF, long_only tr e (do_lda tr (by_X tr (read_long_x tr e (alu_t tr))))),
     (0xCF, long_only tr e (do_cmp tr (read_long tr e (alu_t tr)))),
     (0xDF, long_only tr e (do_cmp tr (by_X tr (read_long_x tr e (alu_t tr))))),
     (0xEF, long_only tr e (do_sbc tr e (read_long tr e (alu_t tr)))),
     (0xFF, long_only tr e (do_sbc tr e (by_X tr (read_long_x tr e (alu_t tr)))))]"

definition branch_cases :: "cpu_traits \<Rightarrow> 'm machine_ops \<Rightarrow> 'm opcode_cases" where
  "branch_cases tr e = [
     (0x90, do_branch tr e (\<lambda>c. \<not> flag_C c)),
     (0xB0, do_branch tr e flag_C),
     (0xF0, do_branch tr e flag_Z),
     (0xD0, do_branch tr e (\<lambda>c. \<not> flag_Z c)),
     (0x30, do_branch tr e flag_N),
     (0x10, do_branch tr e (\<lambda>c. \<not> flag_N c)),
     (0x80, mwhen (has_65c02_ops tr) (do_branch tr e (\<lambda>_. True))),
     (0x50, do_branch tr e (\<lambda>c. \<not> flag_V c)),
     (0x70, do_branch tr e flag_V)]"

definition cmp_cases :: "cpu_traits \<Rightarrow> 'm machine_ops \<Rightarrow> 'm opcode_cases" where
  "cmp_cases tr e = [
     (0xC9, do_cmp tr (read_imm tr e (alu_t tr))),
     (0xD2, cmos_only tr 0xD2 (do_cmp tr (read_direct_indirect tr e (alu_t tr)))),
     (0xC5, do_cmp tr (read_direct tr e (alu_t tr))),
     (0xD5, do_cmp tr (by_X tr (read_direct_x tr e (alu_t tr)))),
     (0xCD, do_cmp tr (read_abs tr e (alu_t tr))),
     (0xDD, do_cmp tr (by_X tr (read_abs_x tr e (alu_t tr)))),
     (0xD9, do_cmp tr (by_Y tr (read_abs_x tr e (alu_t tr)))),
     (0xC1, do_cmp tr (by_X tr (read_direct_x_ind tr e (alu_t tr)))),
     (0xD1, do_cmp tr (by_Y tr (read_direct_ind_x tr e (alu_t tr))))]"

definition cpx_cpy_cases :: "cpu_traits \<Rightarrow> 'm machine_ops \<Rightarrow> 'm opcode_cases" where
  "cpx_cpy_cases tr e = [
     (0xE0, do_cpx tr (read_imm tr e (index_t tr))),
     (0xE4, do_cpx tr (read_direct tr e (index_t tr))),
     (0xEC, do_cpx tr (read_abs tr e (index_t tr))),
     (0xC0, do_cpy tr (read_imm tr e (index_t tr))),
     (0xC4, do_cpy tr (read_direct tr e (index_t tr))),
     (0xCC, do_cpy tr (read_abs tr e (index_t tr)))]"

definition dec_cases :: "cpu_traits \<Rightarrow> 'm machine_ops \<Rightarrow> 'm opcode_cases" where
  "dec_cases tr e = [
     (0xC6, rmw_direct tr e DecrementOp),
     (0xD6, rmw_direct_x tr e DecrementOp),
     (0xCE, rmw_abs tr e DecrementOp),
     (0xDE, rmw_abs_x tr e DecrementOp),
     (0xCA, implied tr e (\<lambda>c. load_X tr (get_X tr c - 1) c)),
     (0x88, implied tr e (\<lambda>c. load_Y tr (get_Y tr c - 1) c))]"

definition eor_cases :: "cpu_traits \<Rightarrow> 'm machine_ops \<Rightarrow> 'm opcode_cases" where
  "eor_cases tr e = [
     (0x49, do_eor tr (read_imm tr e (alu_t tr))),
     (0x52, cmos_only tr 0x52 (do_eor tr (read_direct_indirect tr e (alu_t tr)))),
     (0x45, do_eor tr (read_direct tr e (alu_t tr))),
     (0x55, do_eor tr (by_X tr (read_direct_x tr e (alu_t tr)))),
     (0x4D, do_eor tr (read_abs tr e (alu_t tr))),
     (0x5D, do_eor tr (by_X tr (read_abs_x tr e (alu_t tr)))),
     (0x59, do_eor tr (by_Y tr (read_abs_x tr e (alu_t tr)))),
     (0x41, do_eor tr (by_X tr (read_direct_x_ind tr e (alu_t tr)))),
     (0x51, do_eor tr (by_Y tr (read_direct_ind_x tr e (alu_t tr))))]"

definition inc_cases :: "cpu_traits \<Rightarrow> 'm machine_ops \<Rightarrow> 'm opcode_cases" where
  "inc_cases tr e = [
     (0x1A, cmos_only tr 0x1A (rmw_acc tr e IncrementOp)),
     (0x3A, cmos_only tr 0x3A (rmw_acc tr e DecrementOp)),
     (0xE6, rmw_direct tr e IncrementOp),
     (0xF6, rmw_direct_x tr e IncrementOp),
     (0xEE, rmw_abs tr e IncrementOp),
     (0xFE, rmw_abs_x tr e IncrementOp),
     (0xE8, implied tr e (\<lambda>c. load_X tr (get_X tr c + 1) c)),
     (0xC8, implied tr e (\<lambda>c. load_Y tr (get_Y tr c + 1) c))]"

definition lda_cases :: "cpu_traits \<Rightarrow> 'm machine_ops \<Rightarrow> 'm opcode_cases" where
  "lda_cases tr e = [
     (0xA9, do_lda tr (read_imm tr e (alu_t tr))),
     (0xA5, do_lda tr (read_direct tr e (alu_t tr))),
     (0xB5, do_lda tr (by_X tr (read_direct_x tr e (alu_t tr)))),
     (0xAD, do_lda tr (read_abs tr e (alu_t tr))),
     (0xBD, do_lda tr (by_X tr (read_abs_x tr e (alu_t tr)))),
     (0xB9, do_lda tr (by_Y tr (read_abs_x tr e (alu_t tr)))),
     (0xB2, cmos_only tr 0xB2 (do_lda tr (read_direct_indirect tr e (alu_t tr)))),
     (0xA1, do_lda tr (by_X tr (read_direct_x_ind tr e (alu_t tr)))),
     (0xB1, do_lda tr (by_Y tr (read_direct_ind_x tr e (alu_t tr))))]"

definition ldx_ldy_cases :: "cpu_traits \<Rightarrow> 'm machine_ops \<Rightarrow> 'm opcode_cases" where
  "ldx_ldy_cases tr e = [
     (0xA2, do_ldx tr (read_imm tr e (index_t tr))),
     (0xA6, do_ldx tr (read_direct tr e (index_t tr))),
     (0xB6, do_ldx tr (by_Y tr (read_direct_x tr e (index_t tr)))),
     (0xAE, do_ldx tr (read_abs tr e (index_t tr))),
     (0xBE, do_ldx tr (by_Y tr (read_abs_x tr e (index_t tr)))),
     (0xA0, do_ldy tr (read_imm tr e (index_t tr))),
     (0xA4, do_ldy tr (read_direct tr e (index_t tr))),
     (0xB4, do_ldy tr (by_X tr (read_direct_x tr e (index_t tr)))),
     (0xAC, do_ldy tr (read_abs tr e (index_t tr))),
     (0xBC, do_ldy tr (by_X tr (read_abs_x tr e (index_t tr))))]"

definition lsr_cases :: "cpu_traits \<Rightarrow> 'm machine_ops \<Rightarrow> 'm opcode_cases" where
  "lsr_cases tr e = [
     (0x4A, rmw_acc tr e LogicalShiftRightOp),
     (0x46, rmw_direct tr e LogicalShiftRightOp),
     (0x56, rmw_direct_x tr e LogicalShiftRightOp),
     (0x4E, rmw_abs tr e LogicalShiftRightOp),
     (0x5E, rmw_abs_x tr e LogicalShiftRightOp)]"

definition ora_cases :: "cpu_traits \<Rightarrow> 'm machine_ops \<Rightarrow> 'm opcode_cases" where
  "ora_cases tr e = [
     (0x09, do_ora tr (read_imm tr e (alu_t tr))),
     (0x12, cmos_only tr 0x12 (do_ora tr (read_direct_indirect tr e (alu_t tr)))),
     (0x05, do_ora tr (read_direct tr e (alu_t tr))),
     (0x15, do_ora tr (by_X tr (read_direct_x tr e (alu_t tr)))),
     (0x0D, do_ora tr (read_abs tr e (alu_t tr))),
     (0x1D, do_ora tr (by_X tr (read_abs_x tr e (alu_t tr)))),
     (0x19, do_ora tr (by_Y tr (read_abs_x tr e (alu_t tr)))),
     (0x01, do_ora tr (by_X tr (read_direct_x_ind tr e (alu_t tr)))),
     (0x11, do_ora tr (by_Y tr (read_direct_ind_x tr e (alu_t tr))))]"

text \<open>PHP pushes the status with B and the unused bit set, except on the native 65816,
  where those two bits are X and M.  PLP on the native 65816 may narrow the index registers.\<close>

definition op_php :: "cpu_traits \<Rightarrow> 'm machine_ops \<Rightarrow> ('m, unit) action" where
  "op_php tr e = do {
     p \<leftarrow> cpu_get get_p;
     (if has_65816_ops tr \<and> \<not> e_mode tr then stack_push tr e W8 (ucast p)
      else stack_push tr e W8 (ucast (p OR (FLAG_B OR FLAG_UNUSED))))
   }"

definition narrow_index :: "cpu_state \<Rightarrow> cpu_state" where
  "narrow_index c = (if flag_X c then clear_xy_hi c else c)"

definition op_plp :: "cpu_traits \<Rightarrow> 'm machine_ops \<Rightarrow> ('m, unit) action" where
  "op_plp tr e = do {
     p \<leftarrow> stack_pull tr e W8;
     cpu_upd (set_p (word_lo p));
     cpu_upd (\<lambda>c.
       if has_65816_ops tr \<and> \<not> e_mode tr then narrow_index c
       else if has_65816_ops tr \<and> e_mode tr then c\<lparr>flag_U := True, flag_B := True\<rparr>
       else set_p (get_p c AND NOT FLAG_B) c)
   }"

definition stack_cases :: "cpu_traits \<Rightarrow> 'm machine_ops \<Rightarrow> 'm opcode_cases" where
  "stack_cases tr e = [
     (0x48, store (get_A tr) (stack_push tr e (alu_t tr))),
     (0x08, op_php tr e),
     (0xDA, cmos_only tr 0xDA (store (get_X tr) (stack_push tr e (index_t tr)))),
     (0x5A, cmos_only tr 0x5A (store (get_Y tr) (stack_push tr e (index_t tr)))),
     (0x28, op_plp tr e),
     (0x68, do_lda tr (stack_pull tr e (alu_t tr))),
     (0xFA, cmos_only tr 0xFA (do_ldx tr (stack_pull tr e (index_t tr)))),
     (0x7A, cmos_only tr 0x7A (do_ldy tr (stack_pull tr e (index_t tr))))]"

definition rol_cases :: "cpu_traits \<Rightarrow> 'm machine_ops \<Rightarrow> 'm opcode_cases" where
  "rol_cases tr e = [
     (0x2A, rmw_acc tr e RotateLeftOp),
     (0x26, rmw_direct tr e RotateLeftOp),
     (0x36, rmw_direct_x tr e RotateLeftOp),
     (0x2E, rmw_abs tr e RotateLeftOp),
     (0x3E, rmw_abs_x tr e RotateLeftOp)]"

definition ror_cases :: "cpu_traits \<Rightarrow> 'm machine_ops \<Rightarrow> 'm opcode_cases" where
  "ror_cases tr e = [
     (0x6A, rmw_acc tr e RotateRightOp),
     (0x66, rmw_direct tr e RotateRightOp),
     (0x76, rmw_direct_x tr e RotateRightOp),
     (0x6E, rmw_abs tr e RotateRightOp),
     (0x7E, rmw_abs_x tr e RotateRightOp)]"

definition sbc_cases :: "cpu_traits \<Rightarrow> 'm machine_ops \<Rightarrow> 'm opcode_cases" where
  "sbc_cases tr e = [
     (0xE9, do_sbc tr e (read_imm tr e (alu_t tr))),
     (0xF2, cmos_only tr 0xF2 (do_sbc tr e (read_direct_indirect tr e (alu_t tr)))),
     (0xE5, do_sbc tr e (read_direct tr e (alu_t tr))),
     (0xF5, do_sbc tr e (by_X tr (read_direct_x tr e (alu_t tr)))),
     (0xED, do_sbc tr e (read_abs tr e (alu_t tr))),
     (0xFD, do_sbc tr e (by_X tr (read_abs_x tr e (alu_t tr)))),
     (0xF9, do_sbc tr e (by_Y tr (read_abs_x tr e (alu_t tr)))),
     (0xE1, do_sbc tr e (by_X tr (read_direct_x_ind tr e (alu_t tr)))),
     (0xF1, do_sbc tr e (by_Y tr (read_direct_ind_x tr e (alu_t tr))))]"

definition sta_cases :: "cpu_traits \<Rightarrow> 'm machine_ops \<Rightarrow> 'm opcode_cases" where
  "sta_cases tr e = [
     (0x92, cmos_only tr 0x92 (store (get_A tr) (\<lambda>v. write_direct_indirect tr e (alu_t tr) v))),
     (0x85, store (get_A tr) (\<lambda>v. write_direct tr e (alu_t tr) v)),
     (0x95, store (get_A tr) (\<lambda>v. by_X tr (write_direct_x tr e (alu_t tr) v))),
     (0x8D, store (get_A tr) (\<lambda>v. write_abs tr e (alu_t tr) v)),
     (0x9D, store (get_A tr) (\<lambda>v. by_X tr (write_abs_x tr e (alu_t tr) v))),
     (0x99, store (get_A tr) (\<lambda>v. by_Y tr (write_abs_x tr e (alu_t tr) v))),
     (0x81, store (get_A tr) (\<lambda>v. by_X tr (write_direct_x_ind tr e (alu_t tr) v))),
     (0x91, store (get_A tr) (\<lambda>v. by_Y tr (write_direct_ind_x tr e (alu_t tr) v)))]"

definition stx_sty_stz_cases :: "cpu_traits \<Rightarrow> 'm machine_ops \<Rightarrow> 'm opcode_cases" where
  "stx_sty_stz_cases tr e = [
     (0x86, store (get_X tr) (\<lambda>v. write_direct tr e (index_t tr) v)),
     (0x96, store (get_X tr) (\<lambda>v. by_Y tr (write_direct_x tr e (index_t tr) v))),
     (0x8E, store (get_X tr) (\<lambda>v. write_abs tr e (index_t tr) v)),
     (0x84, store (get_Y tr) (\<lambda>v. write_direct tr e (index_t tr) v)),
     (0x94, store (get_Y tr) (\<lambda>v. by_X tr (write_direct_x tr e (index_t tr) v))),
     (0x8C, store (get_Y tr) (\<lambda>v. write_abs tr e (index_t tr) v)),
     (0x64, cmos_only tr 0x64 (store (\<lambda>_. 0) (\<lambda>v. write_direct tr e (alu_t tr) v))),
     (0x74, cmos_only tr 0x74 (store (\<lambda>_. 0) (\<lambda>v. by_X tr (write_direct_x tr e (alu_t tr) v)))),
     (0x9C, cmos_only tr 0x9C (store (\<lambda>_. 0) (\<lambda>v. write_abs tr e (alu_t tr) v))),
     (0x9E, cmos_only tr 0x9E (store (\<lambda>_. 0) (\<lambda>v. by_X tr (write_abs_x tr e (alu_t tr) v))))]"

text \<open>TAX, TAY, TXA and TYA move the whole source register, cut to the width of the
  destination.\<close>

definition transfer_cases :: "cpu_traits \<Rightarrow> 'm machine_ops \<Rightarrow> 'm opcode_cases" where
  "transfer_cases tr e = [
     (0xAA, implied tr e (\<lambda>c. load_X tr (reg_a c) c)),
     (0xA8, implied tr e (\<lambda>c. load_Y tr (reg_a c) c)),
     (0x98, implied tr e (\<lambda>c. load_A tr (reg_y c) c)),
     (0x14, cmos_only tr 0x14 (rmw_direct tr e (TestResetBitsOp tr))),
     (0x1C, cmos_only tr 0x1C (rmw_abs tr e (TestResetBitsOp tr))),
     (0x04, cmos_only tr 0x04 (rmw_direct tr e (TestSetBitsOp tr))),
     (0x0C, cmos_only tr 0x0C (rmw_abs tr e (TestSetBitsOp tr))),
     (0xBA, transfer_s_x tr e),
     (0x8A, implied tr e (\<lambda>c. load_A tr (reg_x c) c)),
     (0x9A, transfer_x_s tr e)]"

section \<open>Control flow\<close>

definition op_brk :: "cpu_traits \<Rightarrow> 'm machine_ops \<Rightarrow> ('m, unit) action" where
  "op_brk tr e =
     (if has_65816_ops tr \<and> \<not> e_mode tr then brk_cop tr e N_BRK_VECTOR
      else brk_cop tr e BRK_VECTOR)"

definition set_pc :: "u16 \<Rightarrow> ('m, unit) action" where
  "set_pc a = cpu_upd (\<lambda>c. c\<lparr>reg_pc := a\<rparr>)"

definition op_jmp_abs :: "cpu_traits \<Rightarrow> 'm machine_ops \<Rightarrow> ('m, unit) action" where
  "op_jmp_abs tr e = do { addr \<leftarrow> address_abs tr e; set_pc addr }"

definition op_jmp_ind :: "cpu_traits \<Rightarrow> 'm machine_ops \<Rightarrow> ('m, unit) action" where
  "op_jmp_ind tr e = do {
     l \<leftarrow> fetch_pc tr e;
     h \<leftarrow> fetch_pc tr e;
     let aa = mk_word l h;
     let hi_addr = (if has_indirect_bug tr then page_wrap_inc aa else aa + 1);
     lo \<leftarrow> bus_read e (ucast aa);
     hi \<leftarrow> bus_read e (ucast hi_addr);
     mwhen (has_65c02_ops tr \<and> \<not> has_65816_ops tr) (incr_cycles e internal_cycle);
     set_pc (mk_word lo hi)
   }"

definition op_jmp_ind_x :: "cpu_traits \<Rightarrow> 'm machine_ops \<Rightarrow> ('m, unit) action" where
  "op_jmp_ind_x tr e =
     cmos_only tr 0x7C (do { addr \<leftarrow> get_operand_address_absolute_indirect_x tr e; set_pc addr })"

definition op_jsr :: "cpu_traits \<Rightarrow> 'm machine_ops \<Rightarrow> ('m, unit) action" where
  "op_jsr tr e = do {
     addr \<leftarrow> address_abs tr e;
     last \<leftarrow> cpu_get (\<lambda>c. make_pc_long tr c (reg_pc c - 1));
     phantom_read_ign tr e last;
     r \<leftarrow> cpu_get (\<lambda>c. reg_pc c - 1);
     push_word tr e r;
     set_pc addr
   }"

definition op_rti :: "cpu_traits \<Rightarrow> 'm machine_ops \<Rightarrow> ('m, unit) action" where
  "op_rti tr e = do {
     oldp \<leftarrow> cpu_get (\<lambda>c. get_p c AND (FLAG_B OR FLAG_UNUSED));
     phantom_pc tr e;
     phantom_pc tr e;
     p \<leftarrow> pop_byte tr e;
     (if has_65816_ops tr then do {
        cpu_upd (\<lambda>c. if \<not> e_mode tr then narrow_index (set_p p c)
                     else set_p ((p AND NOT (FLAG_B OR FLAG_UNUSED)) OR oldp) c);
        cpu_upd narrow_index;
        pc \<leftarrow> pop_word tr e;
        set_pc pc;
        mwhen (\<not> e_mode tr) (do { pb \<leftarrow> pop_byte tr e; cpu_upd (\<lambda>c. c\<lparr>reg_pb := pb\<rparr>) })
      } else do {
        cpu_upd (set_p ((p AND NOT (FLAG_B OR FLAG_UNUSED)) OR oldp));
        pc \<leftarrow> pop_word tr e;
        set_pc pc
      })
   }"

definition op_rts :: "cpu_traits \<Rightarrow> 'm machine_ops \<Rightarrow> ('m, unit) action" where
  "op_rts tr e = do {
     pc \<leftarrow> stack_pull tr e W16;
     set_pc pc;
     sp \<leftarrow> cpu_get reg_sp;
     phantom_read e (ucast sp);
     cpu_upd (\<lambda>c. c\<lparr>reg_pc := reg_pc c + 1\<rparr>)
   }"

definition control_cases :: "cpu_traits \<Rightarrow> 'm machine_ops \<Rightarrow> 'm opcode_cases" where
  "control_cases tr e = [
     (0x00, op_brk tr e),
     (0x4C, op_jmp_abs tr e),
     (0x6C, op_jmp_ind tr e),
     (0x7C, op_jmp_ind_x tr e),
     (0x20, op_jsr tr e),
     (0x40, op_rti tr e),
     (0x60, op_rts tr e),
     (0xEA, phantom_pc tr e)]"

text \<open>CLI and SEI change the mask after their last cycle, so that the interrupt pipeline
  samples the old mask; the other flag instructions change the flag first.\<close>

definition flag_cases :: "cpu_traits \<Rightarrow> 'm machine_ops \<Rightarrow> 'm opcode_cases" where
  "flag_cases tr e = [
     (0xD8, implied tr e (\<lambda>c. c\<lparr>flag_D := False\<rparr>)),
     (0xF8, implied tr e (\<lambda>c. c\<lparr>flag_D := True\<rparr>)),
     (0x18, implied tr e (\<lambda>c. c\<lparr>flag_C := False\<rparr>)),
     (0x58, implied_late tr e (\<lambda>c. c\<lparr>flag_I := False\<rparr>)),
     (0xB8, implied tr e (\<lambda>c. c\<lparr>flag_V := False\<rparr>)),
     (0x38, implied tr e (\<lambda>c. c\<lparr>flag_C := True\<rparr>)),
     (0x78, implied_late tr e (\<lambda>c. c\<lparr>flag_I := True\<rparr>))]"

definition bit_cases :: "cpu_traits \<Rightarrow> 'm machine_ops \<Rightarrow> 'm opcode_cases" where
  "bit_cases tr e = [
     (0x24, do_bit tr (read_direct tr e (alu_t tr))),
     (0x2C, do_bit tr (read_abs tr e (alu_t tr))),
     (0x89, cmos_only tr 0x89 (do { N \<leftarrow> read_imm tr e (alu_t tr); cpu_upd (\<lambda>c. set_z_flag (get_A tr c AND N) c) })),
     (0x34, cmos_only tr 0x34 (do_bit tr (by_X tr (read_direct_x tr e (alu_t tr))))),
     (0x3C, cmos_only tr 0x3C (do_bit tr (by_X tr (read_abs_x tr e (alu_t tr)))))]"

section \<open>Instructions of the 65816\<close>

definition op_cop :: "cpu_traits \<Rightarrow> 'm machine_ops \<Rightarrow> ('m, unit) action" where
  "op_cop tr e =
     (if e_mode tr then brk_cop tr e COP_VECTOR else brk_cop tr e N_COP_VECTOR)"

definition op_jsl :: "cpu_traits \<Rightarrow> 'm machine_ops \<Rightarrow> ('m, unit) action" where
  "op_jsl tr e = do {
     l \<leftarrow> fetch_pc tr e;
     h \<leftarrow> fetch_pc tr e;
     pb \<leftarrow> cpu_get reg_pb;
     push_byte_new e pb;
     sp \<leftarrow> cpu_get reg_sp;
     phantom_read e (ucast sp);
     o_pc \<leftarrow> cpu_get reg_pc;
     pb' \<leftarrow> fetch_pc tr e;
     cpu_upd (\<lambda>c. c\<lparr>reg_pb := pb'\<rparr>);
     push_word_new e o_pc;
     stack_fix_new tr;
     set_pc (mk_word l h)
   }"

definition call_wdm :: "'m machine_ops \<Rightarrow> u8 \<Rightarrow> ('m, unit) action" where
  "call_wdm e n = modify (\<lambda>s.
     case wdm_handlers e n of
       None \<Rightarrow> s
     | Some handler \<Rightarrow> (let (c, m) = handler (cpu s, env s) in s\<lparr>cpu := c, env := m\<rparr>))"

definition op_wdm :: "cpu_traits \<Rightarrow> 'm machine_ops \<Rightarrow> ('m, unit) action" where
  "op_wdm tr e = do { N \<leftarrow> fetch_pc tr e; call_wdm e N }"

definition op_per :: "cpu_traits \<Rightarrow> 'm machine_ops \<Rightarrow> ('m, unit) action" where
  "op_per tr e = do {
     offset \<leftarrow> address_relative_long tr e;
     target \<leftarrow> cpu_get (\<lambda>c. reg_pc c + offset);
     phantom_pc tr e;
     push_word_new e target;
     stack_fix_new tr
   }"

definition op_brl :: "cpu_traits \<Rightarrow> 'm machine_ops \<Rightarrow> ('m, unit) action" where
  "op_brl tr e = do {
     offset \<leftarrow> address_relative_long tr e;
     cpu_upd (\<lambda>c. c\<lparr>reg_pc := reg_pc c + offset\<rparr>);
     phantom_pc tr e
   }"

definition op_rep :: "cpu_traits \<Rightarrow> 'm machine_ops \<Rightarrow> ('m, unit) action" where
  "op_rep tr e = do {
     N \<leftarrow> read_imm tr e W8;
     cpu_upd (\<lambda>c. set_p (get_p c AND NOT (word_lo N)) c);
     cpu_upd (\<lambda>c. if flag_E c then set_sp_hi 0x01 (set_p (get_p c OR 0x30) c) else c);
     phantom_pc tr e
   }"

definition op_sep :: "cpu_traits \<Rightarrow> 'm machine_ops \<Rightarrow> ('m, unit) action" where
  "op_sep tr e = do {
     N \<leftarrow> read_imm tr e W8;
     cpu_upd (\<lambda>c. set_p (get_p c OR word_lo N) c);
     cpu_upd (\<lambda>c. if flag_E c then set_p (get_p c OR 0x30) c else narrow_index c);
     phantom_pc tr e
   }"

definition op_mvp :: "cpu_traits \<Rightarrow> 'm machine_ops \<Rightarrow> ('m, unit) action" where
  "op_mvp tr e = do {
     move_memory tr e;
     cpu_upd (\<lambda>c. set_X tr (get_X tr c - 1) c);
     cpu_upd (\<lambda>c. set_Y tr (get_Y tr c - 1) c)
   }"

definition op_mvn :: "cpu_traits \<Rightarrow> 'm machine_ops \<Rightarrow> ('m, unit) action" where
  "op_mvn tr e = do {
     move_memory tr e;
     cpu_upd (\<lambda>c. set_X tr (get_X tr c + 1) c);
     cpu_upd (\<lambda>c. set_Y tr (get_Y tr c + 1) c)
   }"

definition op_pei :: "cpu_traits \<Rightarrow> 'm machine_ops \<Rightarrow> ('m, unit) action" where
  "op_pei tr e = do {
     addr \<leftarrow> read_direct tr e W16; push_word_new e addr; stack_fix_new tr }"

definition op_pea :: "cpu_traits \<Rightarrow> 'm machine_ops \<Rightarrow> ('m, unit) action" where
  "op_pea tr e = do {
     addr \<leftarrow> read_imm tr e W16; push_word_new e addr; stack_fix_new tr }"

definition op_jml :: "cpu_traits \<Rightarrow> 'm machine_ops \<Rightarrow> ('m, unit) action" where
  "op_jml tr e = do {
     addr \<leftarrow> address_long tr e;
     cpu_upd (\<lambda>c. c\<lparr>reg_pc := ucast addr, reg_pb := ucast (drop_bit 16 addr)\<rparr>)
   }"

definition op_jml_ind :: "cpu_traits \<Rightarrow> 'm machine_ops \<Rightarrow> ('m, unit) action" where
  "op_jml_ind tr e = do {
     l \<leftarrow> fetch_pc tr e;
     h \<leftarrow> fetch_pc tr e;
     let addr = mk_word l h;
     lo \<leftarrow> bus_read e (ucast addr);
     hi \<leftarrow> bus_read e (ucast (addr + 1));
     pb \<leftarrow> bus_read e (ucast (addr + 2));
     cpu_upd (\<lambda>c. c\<lparr>reg_pb := pb\<rparr>);
     set_pc (mk_word lo hi)
   }"

definition op_jsr_ind_x :: "cpu_traits \<Rightarrow> 'm machine_ops \<Rightarrow> ('m, unit) action" where
  "op_jsr_ind_x tr e = do {
     l \<leftarrow> fetch_pc tr e;
     pc \<leftarrow> cpu_get reg_pc;
     push_word_new e pc;
     h \<leftarrow> fetch_pc tr e;
     phantom_pc tr e;
     indexed \<leftarrow> cpu_get (\<lambda>c. mk_word l h + get_X tr c);
     p0 \<leftarrow> cpu_get (\<lambda>c. make_pb_addr tr c indexed);
     lo \<leftarrow> bus_read e p0;
     p1 \<leftarrow> cpu_get (\<lambda>c. make_pb_addr tr c (indexed + 1));
     hi \<leftarrow> bus_read e p1;
     set_pc (mk_word lo hi);
     stack_fix_new tr
   }"

definition inop_x2_cases :: "cpu_traits \<Rightarrow> 'm machine_ops \<Rightarrow> 'm opcode_cases" where
  "inop_x2_cases tr e = [
     (0x02, inop tr e 0x02 2 2 (op_cop tr e)),
     (0x22, if has_65816_ops tr then op_jsl tr e else mwhen (has_65c02_ops tr) (invalid_nop e 2 2)),
     (0x42, inop tr e 0x42 2 2 (op_wdm tr e)),
     (0x62, inop tr e 0x62 2 2 (op_per tr e)),
     (0x82, inop tr e 0x82 2 2 (op_brl tr e)),
     (0xC2, inop tr e 0xC2 2 2 (op_rep tr e)),
     (0xE2, inop tr e 0xE2 2 2 (op_sep tr e))]"

definition inop_move_jump_cases :: "cpu_traits \<Rightarrow> 'm machine_ops \<Rightarrow> 'm opcode_cases" where
  "inop_move_jump_cases tr e = [
     (0x44, inop tr e 0x44 2 3 (op_mvp tr e)),
     (0x54, inop tr e 0x54 2 4 (op_mvn tr e)),
     (0xD4, inop tr e 0xD4 2 4 (op_pei tr e)),
     (0xF4, inop tr e 0xF4 2 4 (op_pea tr e)),
     (0x5C, inop tr e 0x5C 3 8 (op_jml tr e)),
     (0xDC, inop tr e 0xDC 3 4 (op_jml_ind tr e)),
     (0xFC, inop tr e 0xFC 3 4 (op_jsr_ind_x tr e))]"

definition inop_x3_low_cases :: "cpu_traits \<Rightarrow> 'm machine_ops \<Rightarrow> 'm opcode_cases" where
  "inop_x3_low_cases tr e = [
     (0x03, inop tr e 0x03 1 1 (do_ora tr (read_stack_relative tr e (alu_t tr)))),
     (0x13, inop tr e 0x13 1 1 (do_ora tr (read_stack_relative_y tr e (alu_t tr)))),
     (0x23, inop tr e 0x23 1 1 (do_and tr (read_stack_relative tr e (alu_t tr)))),
     (0x33, inop tr e 0x33 1 1 (do_and tr (read_stack_relative_y tr e (alu_t tr)))),
     (0x43, inop tr e 0x43 1 1 (do_eor tr (read_stack_relative tr e (alu_t tr)))),
     (0x53, inop tr e 0x53 1 1 (do_eor tr (read_stack_relative_y tr e (alu_t tr)))),
     (0x63, inop tr e 0x63 1 1 (do_adc tr e (read_stack_relative tr e (alu_t tr)))),
     (0x73, inop tr e 0x73 1 1 (do_adc tr e (read_stack_relative_y tr e (alu_t tr))))]"

definition inop_x3_high_cases :: "cpu_traits \<Rightarrow> 'm machine_ops \<Rightarrow> 'm opcode_cases" where
  "inop_x3_high_cases tr e = [
     (0x83, inop tr e 0x83 1 1 (store (get_A tr) (\<lambda>v. write_stack_relative tr e (alu_t tr) v))),
     (0x93, inop tr e 0x93 1 1 (store (get_A tr) (\<lambda>v. write_stack_relative_y tr e (alu_t tr) v))),
     (0xA3, inop tr e 0xA3 1 1 (do_lda tr (read_stack_relative tr e (alu_t tr)))),
     (0xB3, inop tr e 0xB3 1 1 (do_lda tr (read_stack_relative_y tr e (alu_t tr)))),
     (0xC3, inop tr e 0xC3 1 1 (do_cmp tr (read_stack_relative tr e (alu_t tr)))),
     (0xD3, inop tr e 0xD3 1 1 (do_cmp tr (read_stack_relative_y tr e (alu_t tr)))),
     (0xE3, inop tr e 0xE3 1 1 (do_sbc tr e (read_stack_relative tr e (alu_t tr)))),
     (0xF3, inop tr e 0xF3 1 1 (do_sbc tr e (read_stack_relative_y tr e (alu_t tr))))]"

definition inop_x7_low_cases :: "cpu_traits \<Rightarrow> 'm machine_ops \<Rightarrow> 'm opcode_cases" where
  "inop_x7_low_cases tr e = [
     (0x07, inop tr e 0x07 1 1 (do_ora tr (read_direct_ind_long tr e (alu_t tr)))),
     (0x17, inop tr e 0x17 1 1 (do_ora tr (by_Y tr (read_direct_ind_x_long tr e (alu_t tr))))),
     (0x27, inop tr e 0x27 1 1 (do_and tr (read_direct_ind_long tr e (alu_t tr)))),
     (0x37, inop tr e 0x37 1 1 (do_and tr (by_Y tr (read_direct_ind_x_long tr e (alu_t tr))))),
     (0x47, inop tr e 0x47 1 1 (do_eor tr (read_direct_ind_long tr e (alu_t tr)))),
     (0x57, inop tr e 0x57 1 1 (do_eor tr (by_Y tr (read_direct_ind_x_long tr e (alu_t tr))))),
     (0x67, inop tr e 0x67 1 1 (do_adc tr e (read_direct_ind_long tr e (alu_t tr)))),
     (0x77, inop tr e 0x77 1 1 (do_adc tr e (by_Y tr (read_direct_ind_x_long tr e (alu_t tr)))))]"

definition inop_x7_high_cases :: "cpu_traits \<Rightarrow> 'm machine_ops \<Rightarrow> 'm opcode_cases" where
  "inop_x7_high_cases tr e = [
     (0x87, inop tr e 0x87 1 1 (store (get_A tr) (\<lambda>v. write_direct_ind_long tr e (alu_t tr) v))),
     (0x97, inop tr e 0x97 1 1 (store (get_A tr) (\<lambda>v. by_Y tr (write_direct_ind_x_long tr e (alu_t tr) v)))),
     (0xA7, inop tr e 0xA7 1 1 (do_lda tr (read_direct_ind_long tr e (alu_t tr)))),
     (0xB7, inop tr e 0xB7 1 1 (do_lda tr (by_Y tr (read_direct_ind_x_long tr e (alu_t tr))))),
     (0xC7, inop tr e 0xC7 1 1 (do_cmp tr (read_direct_ind_long tr e (alu_t tr)))),
     (0xD7, inop tr e 0xD7 1 1 (do_cmp tr (by_Y tr (read_direct_ind_x_long tr e (alu_t tr))))),
     (0xE7, inop tr e 0xE7 1 1 (do_sbc tr e (read_direct_ind_long tr e (alu_t tr)))),
     (0xF7, inop tr e 0xF7 1 1 (do_sbc tr e (by_Y tr (read_direct_ind_x_long tr e (alu_t tr)))))]"

definition op_phd :: "cpu_traits \<Rightarrow> 'm machine_ops \<Rightarrow> ('m, unit) action" where
  "op_phd tr e = do { phantom_pc tr e; d \<leftarrow> cpu_get reg_d; push_word_new e d; stack_fix_new tr }"

definition op_tcs :: "cpu_traits \<Rightarrow> 'm machine_ops \<Rightarrow> ('m, unit) action" where
  "op_tcs tr e = do {
     cpu_upd (\<lambda>c. c\<lparr>reg_sp := reg_a c\<rparr>);
     mwhen (e_mode tr) (cpu_upd (set_sp_hi 0x01));
     phantom_pc tr e
   }"

definition op_pld :: "cpu_traits \<Rightarrow> 'm machine_ops \<Rightarrow> ('m, unit) action" where
  "op_pld tr e = do {
     phantom_pc tr e;
     phantom_pc tr e;
     d \<leftarrow> pop_word_new e;
     cpu_upd (\<lambda>c. c\<lparr>reg_d := d\<rparr>);
     stack_fix_new tr;
     cpu_upd (\<lambda>c. set_n_z_flags W16 (reg_d c) c)
   }"

definition op_phk :: "cpu_traits \<Rightarrow> 'm machine_ops \<Rightarrow> ('m, unit) action" where
  "op_phk tr e = do { phantom_pc tr e; b \<leftarrow> cpu_get reg_pb; push_byte_new e b; stack_fix_new tr }"

definition op_tcd :: "cpu_traits \<Rightarrow> 'm machine_ops \<Rightarrow> ('m, unit) action" where
  "op_tcd tr e = transfer_reg_reg tr e W16 reg_a (\<lambda>v c. c\<lparr>reg_d := v\<rparr>)"

definition op_rtl :: "cpu_traits \<Rightarrow> 'm machine_ops \<Rightarrow> ('m, unit) action" where
  "op_rtl tr e = do {
     phantom_pc tr e;
     phantom_pc tr e;
     stack_rtl tr e;
     cpu_upd (\<lambda>c. c\<lparr>reg_pc := reg_pc c + 1\<rparr>)
   }"

definition op_tdc :: "cpu_traits \<Rightarrow> 'm machine_ops \<Rightarrow> ('m, unit) action" where
  "op_tdc tr e = transfer_reg_reg tr e W16 reg_d (\<lambda>v c. c\<lparr>reg_a := v\<rparr>)"

definition op_phb :: "cpu_traits \<Rightarrow> 'm machine_ops \<Rightarrow> ('m, unit) action" where
  "op_phb tr e = do { phantom_pc tr e; b \<leftarrow> cpu_get reg_db; push_byte_new e b; stack_fix_new tr }"

definition op_txy :: "cpu_traits \<Rightarrow> 'm machine_ops \<Rightarrow> ('m, unit) action" where
  "op_txy tr e = transfer_reg_reg tr e (index_t tr) (get_X tr) (set_Y tr)"

definition op_plb :: "cpu_traits \<Rightarrow> 'm machine_ops \<Rightarrow> ('m, unit) action" where
  "op_plb tr e = do {
     phantom_pc tr e;
     phantom_pc tr e;
     b \<leftarrow> pop_byte_new e;
     cpu_upd (\<lambda>c. c\<lparr>reg_db := b\<rparr>);
     stack_fix_new tr;
     cpu_upd (\<lambda>c. set_n_z_flags W8 (ucast (reg_db c)) c)
   }"

definition op_tyx :: "cpu_traits \<Rightarrow> 'm machine_ops \<Rightarrow> ('m, unit) action" where
  "op_tyx tr e = transfer_reg_reg tr e (index_t tr) (get_Y tr) (set_X tr)"

definition op_wai :: "'m machine_ops \<Rightarrow> ('m, unit) action" where
  "op_wai e = do {
     irq \<leftarrow> gets (\<lambda>s. irq_line e (env s));
     mwhen (\<not> irq) (cpu_upd (\<lambda>c. c\<lparr>rdy := True\<rparr>));
     incr_cycles e internal_cycle;
     incr_cycles e internal_cycle
   }"

definition op_stp :: "'m machine_ops \<Rightarrow> ('m, unit) action" where
  "op_stp e = do {
     cpu_upd (\<lambda>c. c\<lparr>clock_stopped := True\<rparr>);
     incr_cycles e internal_cycle;
     incr_cycles e internal_cycle
   }"

definition op_xba :: "cpu_traits \<Rightarrow> 'm machine_ops \<Rightarrow> ('m, unit) action" where
  "op_xba tr e = do {
     cpu_upd (\<lambda>c. c\<lparr>reg_a := mk_word (word_hi (reg_a c)) (word_lo (reg_a c))\<rparr>);
     cpu_upd (\<lambda>c. set_n_z_flags W8 (ucast (word_lo (reg_a c))) c);
     phantom_pc tr e;
     phantom_pc tr e
   }"

definition enter_emulation :: "cpu_state \<Rightarrow> cpu_state" where
  "enter_emulation c = (set_sp_hi 0x01 (clear_xy_hi c))\<lparr>flag_U := True, flag_B := True\<rparr>"

definition op_xce :: "cpu_traits \<Rightarrow> 'm machine_ops \<Rightarrow> ('m, unit) action" where
  "op_xce tr e = do {
     phantom_pc tr e;
     cpu_upd (\<lambda>c. c\<lparr>flag_E := flag_C c, flag_C := flag_E c\<rparr>);
     cpu_upd (\<lambda>c. if flag_E c then enter_emulation c else c)
   }"

definition inop_xB_cases :: "cpu_traits \<Rightarrow> 'm machine_ops \<Rightarrow> 'm opcode_cases" where
  "inop_xB_cases tr e = [
     (0x0B, inop tr e 0x0B 1 1 (op_phd tr e)),
     (0x1B, inop tr e 0x1B 1 1 (op_tcs tr e)),
     (0x2B, inop tr e 0x2B 1 1 (op_pld tr e)),
     (0x3B, inop tr e 0x3B 1 1 (transfer_s_a tr e)),
     (0x4B, inop tr e 0x4B 1 1 (op_phk tr e)),
     (0x5B, inop tr e 0x5B 1 1 (op_tcd tr e)),
     (0x6B, inop tr e 0x6B 1 1 (op_rtl tr e)),
     (0x7B, inop tr e 0x7B 1 1 (op_tdc tr e)),
     (0x8B, inop tr e 0x8B 1 1 (op_phb tr e)),
     (0x9B, inop tr e 0x9B 1 1 (op_txy tr e)),
     (0xAB, inop tr e 0xAB 1 1 (op_plb tr e)),
     (0xBB, inop tr e 0xBB 1 1 (op_tyx tr e)),
     (0xCB, inop tr e 0xCB 1 1 (op_wai e)),
     (0xDB, inop tr e 0xDB 1 1 (op_stp e)),
     (0xEB, inop tr e 0xEB 1 1 (op_xba tr e)),
     (0xFB, inop tr e 0xFB 1 1 (op_xce tr e))]"

section \<open>The switch\<close>

definition opcode_table :: "cpu_traits \<Rightarrow> 'm machine_ops \<Rightarrow> 'm opcode_cases" where
  "opcode_table tr e =
     adc_cases tr e @ and_cases tr e @ asl_cases tr e @
     long_logic_cases tr e @ long_move_cases tr e @ branch_cases tr e @
     cmp_cases tr e @ cpx_cpy_cases tr e @ dec_cases tr e @
     eor_cases tr e @ inc_cases tr e @ lda_cases tr e @
     ldx_ldy_cases tr e @ lsr_cases tr e @ ora_cases tr e @
     stack_cases tr e @ rol_cases tr e @ ror_cases tr e @
     sbc_cases tr e @ sta_cases tr e @ stx_sty_stz_cases tr e @
     transfer_cases tr e @ control_cases tr e @ flag_cases tr e @
     bit_cases tr e @ inop_x2_cases tr e @ inop_move_jump_cases tr e @
     inop_x3_low_cases tr e @ inop_x3_high_cases tr e @ inop_x7_low_cases tr e @
     inop_x7_high_cases tr e @ inop_xB_cases tr e"

definition execute_opcode ::
    "cpu_traits \<Rightarrow> 'm machine_ops \<Rightarrow> u8 \<Rightarrow> ('m, unit) action" where
  "execute_opcode tr e opcode =
     (case map_of (opcode_table tr e) opcode of
        Some body \<Rightarrow> body
      | None \<Rightarrow> invalid_opcode opcode)"

lemmas opcode_case_defs = adc_cases_def and_cases_def asl_cases_def long_logic_cases_def
  long_move_cases_def branch_cases_def cmp_cases_def cpx_cpy_cases_def
  dec_cases_def eor_cases_def inc_cases_def lda_cases_def
  ldx_ldy_cases_def lsr_cases_def ora_cases_def stack_cases_def
  rol_cases_def ror_cases_def sbc_cases_def sta_cases_def
  stx_sty_stz_cases_def transfer_cases_def control_cases_def flag_cases_def
  bit_cases_def inop_x2_cases_def inop_move_jump_cases_def inop_x3_low_cases_def
  inop_x3_high_cases_def inop_x7_low_cases_def inop_x7_high_cases_def inop_xB_cases_def

end
