(* ===== verification/Cpu_Exec.thy ===== *)
theory Cpu_Exec
  imports Cpu_Opcodes
begin

text \<open>
  The instruction loop: \<^verbatim>\<open>CPU6502Core::execute_next\<close> and \<^verbatim>\<open>reset\<close>
  (\<^verbatim>\<open>src/cpus/base_6502.cpp\<close>), \<^verbatim>\<open>cpu_state::reset\<close>
  (\<^verbatim>\<open>src/cpu.cpp\<close>) and the 65816 front end, which picks one of five cores from the E, M and
  X flags before every instruction (\<^verbatim>\<open>src/cpus/cpu_65816.cpp\<close>).  The last section is the
  transition system of a running 65816: instructions interleaved with whatever the rest of the
  machine does.
\<close>

section \<open>Interrupt entry\<close>

definition native_mode :: "cpu_traits \<Rightarrow> bool" where
  "native_mode tr \<longleftrightarrow> has_65816_ops tr \<and> \<not> e_mode tr"

text \<open>The pushes, flag changes and vector fetch that NMI, ABORT and IRQ share.\<close>

definition enter_interrupt ::
    "cpu_traits \<Rightarrow> 'm machine_ops \<Rightarrow> u16 \<Rightarrow> ('m, unit) action" where
  "enter_interrupt tr e vector = do {
     phantom_pc tr e;
     mwhen (native_mode tr) (do { pb \<leftarrow> cpu_get reg_pb; push_byte tr e pb });
     pc \<leftarrow> cpu_get reg_pc;
     push_word tr e pc;
     p \<leftarrow> cpu_get get_p;
     push_byte tr e (if native_mode tr then p else (p AND NOT FLAG_B) OR FLAG_UNUSED);
     cpu_upd (\<lambda>c. c\<lparr>flag_I := True\<rparr>);
     mwhen (has_65c02_ops tr \<or> has_65816_ops tr) (cpu_upd (\<lambda>c. c\<lparr>flag_D := False\<rparr>));
     pc' \<leftarrow> read_word_bank0 e vector;
     set_pc pc'
   }"

definition nmi_abort_vector :: "cpu_traits \<Rightarrow> bool \<Rightarrow> u16" where
  "nmi_abort_vector tr abort =
     (if native_mode tr then (if abort then N_ABORTB_VECTOR else N_NMI_VECTOR)
      else (if abort then ABORTB_VECTOR else NMI_VECTOR))"

definition service_nmi_abort ::
    "cpu_traits \<Rightarrow> 'm machine_ops \<Rightarrow> ('m, unit) action" where
  "service_nmi_abort tr e = do {
     abort \<leftarrow> cpu_get boundary_abort_pending;
     cpu_upd (\<lambda>c. if abort then c\<lparr>boundary_abort_pending := False\<rparr>
                  else c\<lparr>nmi_pending := False\<rparr>);
     enter_interrupt tr e (nmi_abort_vector tr abort);
     cpu_upd (\<lambda>c. c\<lparr>reg_pb := 0\<rparr>);
     incr_cycles e internal_cycle;
     cpu_upd (\<lambda>c. c\<lparr>rdy := False\<rparr>)
   }"

definition service_irq :: "cpu_traits \<Rightarrow> 'm machine_ops \<Rightarrow> ('m, unit) action" where
  "service_irq tr e = do {
     enter_interrupt tr e (if native_mode tr then N_IRQ_VECTOR else IRQ_VECTOR);
     mwhen (has_65816_ops tr) (cpu_upd (\<lambda>c. c\<lparr>reg_pb := 0\<rparr>));
     incr_cycles e internal_cycle;
     cpu_upd (\<lambda>c. c\<lparr>rdy := False\<rparr>)
   }"

section \<open>One call of \<open>execute_next\<close>\<close>

definition run_instruction :: "cpu_traits \<Rightarrow> 'm machine_ops \<Rightarrow> ('m, unit) action" where
  "run_instruction tr e = do { opcode \<leftarrow> fetch_pc tr e; execute_opcode tr e opcode }"

definition execute_next :: "cpu_traits \<Rightarrow> 'm machine_ops \<Rightarrow> ('m, unit) action" where
  "execute_next tr e = do {
     stopped \<leftarrow> cpu_get clock_stopped;
     held \<leftarrow> gets (\<lambda>s. reset_line e (env s));
     if stopped \<or> held then incr_cycles e internal_cycle
     else do {
       pending \<leftarrow> cpu_get (\<lambda>c. nmi_pending c \<or> boundary_abort_pending c);
       pipe \<leftarrow> cpu_get irq_pipe;
       if pending then service_nmi_abort tr e
       else if pipe AND 0x02 \<noteq> 0 then service_irq tr e
       else do {
         waiting \<leftarrow> cpu_get rdy;
         irq \<leftarrow> gets (\<lambda>s. irq_line e (env s));
         if waiting \<and> \<not> irq then incr_cycles e internal_cycle
         else do {
           mwhen waiting (cpu_upd (\<lambda>c. c\<lparr>rdy := False\<rparr>));
           run_instruction tr e
         }
       }
     }
   }"

section \<open>Reset\<close>

definition core_reset :: "cpu_traits \<Rightarrow> 'm machine_ops \<Rightarrow> ('m, unit) action" where
  "core_reset tr e = do {
     cpu_upd (\<lambda>c. c\<lparr>clock_stopped := False\<rparr>);
     cpu_upd (\<lambda>c.
       if has_65816_ops tr then
         (clear_xy_hi (set_sp_hi 0x01 (c\<lparr>reg_d := 0, reg_db := 0, reg_pb := 0\<rparr>)))
           \<lparr>flag_E := True, flag_U := True, flag_B := True, flag_I := True, flag_D := False,
            rdy := False\<rparr>
       else c\<lparr>flag_I := True\<rparr>);
     pc \<leftarrow> read_word_bank0 e RESET_VECTOR;
     set_pc pc
   }"

text \<open>\<^verbatim>\<open>cpu_state::reset\<close>, on top of the core's own.\<close>

definition cpu_state_reset :: "('m, unit) action \<Rightarrow> ('m, unit) action" where
  "cpu_state_reset core = do {
     cpu_upd (\<lambda>c. c\<lparr>halt := 0, clock_stopped := False, flag_I := True, rdy := False,
                    nmi_pending := False, boundary_abort_pending := False\<rparr>);
     core
   }"

section \<open>The 65816 front end\<close>

definition select_core :: "cpu_state \<Rightarrow> cpu_traits" where
  "select_core c =
     (if flag_E c then CPU65816_E_8_8_Traits
      else if \<not> flag_M c \<and> \<not> flag_X c then CPU65816_N_16_16_Traits
      else if \<not> flag_M c \<and> flag_X c then CPU65816_N_16_8_Traits
      else if flag_M c \<and> \<not> flag_X c then CPU65816_N_8_16_Traits
      else CPU65816_N_8_8_Traits)"

definition cores_65816 :: "cpu_traits set" where
  "cores_65816 = {CPU65816_E_8_8_Traits, CPU65816_N_8_8_Traits, CPU65816_N_16_8_Traits,
     CPU65816_N_8_16_Traits, CPU65816_N_16_16_Traits}"

definition execute_next_65816 :: "'m machine_ops \<Rightarrow> ('m, unit) action" where
  "execute_next_65816 e = do { core \<leftarrow> cpu_get select_core; execute_next core e }"

text \<open>\<^verbatim>\<open>CPU65816::reset\<close> calls the core that ran last.\<close>

definition reset_65816 :: "cpu_traits \<Rightarrow> 'm machine_ops \<Rightarrow> ('m, unit) action" where
  "reset_65816 current_core e = do {
     cpu_upd (\<lambda>c. c\<lparr>clock_stopped := False\<rparr>);
     core_reset current_core e
   }"

section \<open>The running machine\<close>

text \<open>
  The program constructs the processor, whose 65816 starts on the emulation core, and resets it
  (\<^verbatim>\<open>gs2.cpp\<close>); between two calls of \<^verbatim>\<open>execute_next\<close> devices then change the outside state, a boundary NMI
  or ABORT is latched, or the system is reset.
\<close>

inductive machine_step :: "'m machine_ops \<Rightarrow> 'm machine \<Rightarrow> 'm machine \<Rightarrow> bool"
  for e :: "'m machine_ops" where
  step_execute: "machine_step e s (snd (run_state (execute_next_65816 e) s))"
| step_device: "machine_step e s (s\<lparr>env := m\<rparr>)"
| step_nmi: "machine_step e s (s\<lparr>cpu := (cpu s)\<lparr>nmi_pending := True\<rparr>\<rparr>)"
| step_abort: "machine_step e s (s\<lparr>cpu := (cpu s)\<lparr>boundary_abort_pending := True\<rparr>\<rparr>)"
| step_reset: "core \<in> cores_65816 \<Longrightarrow>
    machine_step e s (snd (run_state (cpu_state_reset (reset_65816 core e)) s))"

inductive reachable :: "'m machine_ops \<Rightarrow> 'm machine \<Rightarrow> bool"
  for e :: "'m machine_ops" where
  reach_init: "cpu s = cpu_init rnd old_E \<Longrightarrow> trace s = [] \<Longrightarrow>
    reachable e (snd (run_state (cpu_state_reset (reset_65816 CPU65816_E_8_8_Traits e)) s))"
| reach_step: "reachable e s \<Longrightarrow> machine_step e s s' \<Longrightarrow> reachable e s'"

inductive_cases machine_stepE: "machine_step e s s'"

end
