(* ===== verification/Cpu_Frame.thy ===== *)
theory Cpu_Frame
  imports Cpu_Exec
begin

text \<open>
  What the helpers of the core may change.  A property of the machine is stated as a predicate
  \<open>I\<close> together with a set \<open>A\<close> of addresses the core may put on the bus, and two locales say
  when it survives.

  \<^item> \<open>cycle_frame\<close>: \<open>I\<close> survives a bus cycle at an address in \<open>A\<close>, any device activity, and
    every register update that respects \<open>data_frame\<close>: the stack pointer, the mode flags E, M, X
    and the high index bytes of an 8-bit-index core stay as they are.
  \<^item> \<open>core_frame\<close>: \<open>I\<close> also survives stack pointer updates that keep the stack in its page in
    emulation mode, and a weaker \<open>I0\<close> survives any stack pointer update; setting the high byte
    back to 1 restores \<open>I\<close> from \<open>I0\<close>.

  Inside them every addressing mode, stack helper and opcode body that does not change the mode
  is shown to keep \<open>I\<close> once and for all.
\<close>

named_theorems frame_intro "operations that keep the framed invariant"

section \<open>Frames on the register file\<close>

definition traits_ok :: "cpu_traits \<Rightarrow> bool" where
  "traits_ok tr \<longleftrightarrow> (m_16 tr \<or> x_16 tr \<or> e_mode tr \<longrightarrow> has_65816_ops tr) \<and>
     (has_65816_ops tr \<longrightarrow> has_65c02_ops tr) \<and> (m_16 tr \<or> x_16 tr \<longrightarrow> \<not> e_mode tr)"

lemma traits_ok_all:
  "traits_ok CPU6502Traits" "traits_ok CPU65C02Traits" "traits_ok CPUR65C02Traits"
  "traits_ok CPUWDC65C02Traits" "core \<in> cores_65816 \<Longrightarrow> traits_ok core"
  by (auto simp: traits_ok_def trait_defs cores_65816_def)

definition data_frame :: "cpu_traits \<Rightarrow> cpu_state \<Rightarrow> cpu_state \<Rightarrow> bool" where
  "data_frame tr c c' \<longleftrightarrow> flag_E c' = flag_E c \<and> flag_U c' = flag_U c \<and> flag_B c' = flag_B c \<and>
     reg_sp c' = reg_sp c \<and>
     (\<not> x_16 tr \<longrightarrow> word_hi (reg_x c') = word_hi (reg_x c) \<and>
                    word_hi (reg_y c') = word_hi (reg_y c))"

lemma data_frame_refl [simp]: "data_frame tr c c"
  by (simp add: data_frame_def)

lemma data_frame_set_A [simp]: "data_frame tr c (set_A tr v c') = data_frame tr c c'"
  by (simp add: data_frame_def set_A_def)

lemma data_frame_set_X [simp]: "data_frame tr c (set_X tr v c)"
  by (simp add: data_frame_def set_X_def)

lemma data_frame_set_Y [simp]: "data_frame tr c (set_Y tr v c)"
  by (simp add: data_frame_def set_Y_def)

lemma data_frame_set_n_z_flags [simp]:
  "data_frame tr c (set_n_z_flags w v c') = data_frame tr c c'"
  by (simp add: data_frame_def set_n_z_flags_def)

lemma data_frame_set_n_z_v_flags [simp]:
  "data_frame tr c (set_n_z_v_flags w v n c') = data_frame tr c c'"
  by (simp add: data_frame_def set_n_z_v_flags_def)

lemma data_frame_set_z_flag [simp]:
  "data_frame tr c (set_z_flag v c') = data_frame tr c c'"
  by (simp add: data_frame_def set_z_flag_def)

lemma data_frame_fields [simp]:
  "data_frame tr c (c'\<lparr>reg_pc := a\<rparr>) = data_frame tr c c'"
  "data_frame tr c (c'\<lparr>reg_pb := b\<rparr>) = data_frame tr c c'"
  "data_frame tr c (c'\<lparr>reg_db := b\<rparr>) = data_frame tr c c'"
  "data_frame tr c (c'\<lparr>reg_a := a\<rparr>) = data_frame tr c c'"
  "data_frame tr c (c'\<lparr>reg_d := a\<rparr>) = data_frame tr c c'"
  "data_frame tr c (c'\<lparr>flag_C := f\<rparr>) = data_frame tr c c'"
  "data_frame tr c (c'\<lparr>flag_Z := f\<rparr>) = data_frame tr c c'"
  "data_frame tr c (c'\<lparr>flag_I := f\<rparr>) = data_frame tr c c'"
  "data_frame tr c (c'\<lparr>flag_D := f\<rparr>) = data_frame tr c c'"
  "data_frame tr c (c'\<lparr>flag_V := f\<rparr>) = data_frame tr c c'"
  "data_frame tr c (c'\<lparr>flag_N := f\<rparr>) = data_frame tr c c'"
  "data_frame tr c (c'\<lparr>clock_stopped := f\<rparr>) = data_frame tr c c'"
  "data_frame tr c (c'\<lparr>irq_pipe := b\<rparr>) = data_frame tr c c'"
  "data_frame tr c (c'\<lparr>nmi_pending := f\<rparr>) = data_frame tr c c'"
  "data_frame tr c (c'\<lparr>boundary_abort_pending := f\<rparr>) = data_frame tr c c'"
  "data_frame tr c (c'\<lparr>rdy := f\<rparr>) = data_frame tr c c'"
  by (simp_all add: data_frame_def)

lemma data_frame_load [simp]:
  "data_frame tr c (load_A tr v c)" "data_frame tr c (load_X tr v c)"
  "data_frame tr c (load_Y tr v c)"
  by (simp_all add: load_A_def load_X_def load_Y_def Let_def)

lemma data_frame_compare [simp]: "data_frame tr c (compare_and_set_flags w m n c)"
  by (simp add: compare_and_set_flags_def compare_8_def compare_16_def Let_def split: width.split)

lemma data_frame_binary [simp]:
  "data_frame tr c (add_binary_8 n c)" "data_frame tr c (add_binary_16 tr m c)"
  "data_frame tr c (sub_binary_8 n c)" "data_frame tr c (sub_binary_16 tr m c)"
  by (simp_all add: add_binary_8_def add_binary_16_def sub_binary_8_def sub_binary_16_def Let_def)

lemma data_frame_add_bcd_8 [simp]:
  "data_frame tr c0 (snd (add_bcd_8_set_flags tr a b c)) = data_frame tr c0 c"
  by (simp add: add_bcd_8_set_flags_def Let_def)

lemma data_frame_sub_bcd_8 [simp]:
  "data_frame tr c0 (snd (sub_bcd_8_set_flags tr a b c)) = data_frame tr c0 c"
  by (simp add: sub_bcd_8_set_flags_def Let_def split: prod.split)

lemma data_frame_bcd_16 [simp]:
  "data_frame tr c (add_bcd_16_set_flags tr n c)" "data_frame tr c (sub_bcd_16_set_flags tr n c)"
  by (simp_all add: add_bcd_16_set_flags_def sub_bcd_16_set_flags_def case_prod_beta Let_def)

text \<open>A read-modify-write operation touches N, Z and C only.\<close>

definition flags_only :: "rmw_op \<Rightarrow> bool" where
  "flags_only operation \<longleftrightarrow> (\<forall>tr w n c. data_frame tr c (snd (operation w n c)))"

lemma flags_only_ops [simp]:
  "flags_only IncrementOp" "flags_only DecrementOp" "flags_only ArithmeticShiftLeftOp"
  "flags_only LogicalShiftRightOp" "flags_only RotateLeftOp" "flags_only RotateRightOp"
  "flags_only (TestResetBitsOp tr)" "flags_only (TestSetBitsOp tr)"
  by (simp_all add: flags_only_def IncrementOp_def DecrementOp_def ArithmeticShiftLeftOp_def
      LogicalShiftRightOp_def RotateLeftOp_def RotateRightOp_def TestResetBitsOp_def
      TestSetBitsOp_def Let_def)

lemma safe_width [safe_intro]:
  assumes "w = W8 \<Longrightarrow> safe I f V" and "w = W16 \<Longrightarrow> safe I g V"
  shows "safe I (case w of W8 \<Rightarrow> f | W16 \<Rightarrow> g) V"
  using assms by (cases w) simp_all

lemma safe_let [safe_intro]: "safe I (f x) V \<Longrightarrow> safe I (Let x f) V"
  by simp

lemma ucast_u16_less: "(ucast (w :: u16) :: u32) < 0x10000"
  using uint_bounded [of w] by (simp add: word_less_def uint_up_ucast is_up)

lemma take_bit_u32_less: "take_bit 16 (w :: u32) < 0x10000"
  using take_bit_int_less_exp [of 16 "uint w"]
  by (simp add: word_less_def unsigned_take_bit_eq)

lemmas flow_intro = keeps_bind safe_if safe_mwhen safe_width safe_let safe_ret keeps_repeat_m

definition cases_keep :: "('m machine \<Rightarrow> bool) \<Rightarrow> 'm opcode_cases \<Rightarrow> bool" where
  "cases_keep I xs \<longleftrightarrow> (\<forall>(opc, body) \<in> set xs. keeps I body)"

lemma cases_keep_intro:
  "cases_keep I []" "keeps I body \<Longrightarrow> cases_keep I xs \<Longrightarrow> cases_keep I ((opc, body) # xs)"
  by (auto simp: cases_keep_def)

lemma cases_keep_append [simp]:
  "cases_keep I (xs @ ys) \<longleftrightarrow> cases_keep I xs \<and> cases_keep I ys"
  by (auto simp: cases_keep_def)

definition cases_lead ::
    "('m machine \<Rightarrow> bool) \<Rightarrow> ('m machine \<Rightarrow> bool) \<Rightarrow> 'm opcode_cases \<Rightarrow> bool" where
  "cases_lead P Q xs \<longleftrightarrow> (\<forall>(opc, body) \<in> set xs. leads P body Q)"

lemma cases_lead_intro:
  "cases_lead P Q []"
  "leads P body Q \<Longrightarrow> cases_lead P Q xs \<Longrightarrow> cases_lead P Q ((opc, body) # xs)"
  by (auto simp: cases_lead_def)

lemma cases_lead_append:
  "cases_lead P Q (xs @ ys) \<longleftrightarrow> cases_lead P Q xs \<and> cases_lead P Q ys"
  by (auto simp: cases_lead_def)

section \<open>Bus cycles and addressing modes\<close>

locale cycle_frame =
  fixes tr :: cpu_traits and e :: "'m machine_ops"
    and I :: "'m machine \<Rightarrow> bool" and A :: "u32 \<Rightarrow> bool"
  assumes ok: "traits_ok tr"
    and tick: "\<And>s acc p m. I s \<Longrightarrow> A (cyc_addr acc) \<Longrightarrow>
      I (s\<lparr>cpu := (cpu s)\<lparr>irq_pipe := p\<rparr>, env := m, trace := acc # trace s\<rparr>)"
    and device: "\<And>s m. I s \<Longrightarrow> I (s\<lparr>env := m\<rparr>)"
    and data: "\<And>s c'. I s \<Longrightarrow> data_frame tr (cpu s) c' \<Longrightarrow> I (s\<lparr>cpu := c'\<rparr>)"
    and A16: "\<And>a. a < 0x10000 \<Longrightarrow> A a"
    and A_long: "\<And>a. has_65816_ops tr \<Longrightarrow> A a"
    and A_mask: "\<And>a. A a \<Longrightarrow> A (a AND 0xFFFFFF)"
begin

lemma A_ucast [simp]: "A (ucast (w :: u16))"
  by (rule A16) (rule ucast_u16_less)

lemma A_stack_page [simp]: "A (stack_page b)"
proof -
  have "stack_page b = ucast (0x0100 OR ucast b :: u16)"
  proof -
    have "ucast (ucast b :: u16) = (ucast b :: u32)"
      by (rule bit_word_eqI) (auto simp: bit_simps dest: bit_imp_le_length)
    then show ?thesis by (simp add: stack_page_def unsigned_or_eq)
  qed
  then show ?thesis by simp
qed

lemma A_0 [simp]: "A 0"
  using A16 [of 0] by simp

lemma A_page [simp]: "A ((a AND 0xFF00) OR (b AND 0xFF))"
proof (rule A16)
  have "(a AND 0xFF00) OR (b AND 0xFF) = take_bit 16 ((a AND 0xFF00) OR (b AND 0xFF))"
    by (simp add: take_bit_or take_bit_and) (simp add: take_bit_eq_mask and.assoc mask_eq_exp_minus_1)
  also have "\<dots> < 0x10000"
    by (rule take_bit_u32_less)
  finally show "(a AND 0xFF00) OR (b AND 0xFF) < 0x10000" .
qed

lemma W16_long: "alu_t tr = W16 \<Longrightarrow> has_65816_ops tr" "index_t tr = W16 \<Longrightarrow> has_65816_ops tr"
  using ok by (auto simp: alu_t_def index_t_def traits_ok_def split: if_splits)

lemma cpu_upd_safe [frame_intro]:
  assumes "\<And>c. data_frame tr c (f c)"
  shows "keeps I (cpu_upd f)"
  using assms data by (auto intro!: safe_cpu_upd)

lemma incr_cycles_safe [frame_intro]: "A (cyc_addr acc) \<Longrightarrow> keeps I (incr_cycles e acc)"
  unfolding incr_cycles_def using tick by (auto intro!: safe_modify)

lemma internal_cycle_safe [frame_intro]: "keeps I (incr_cycles e internal_cycle)"
  by (rule incr_cycles_safe) (simp add: internal_cycle_def)

lemma env_read_safe [frame_intro]: "keeps I (env_read f a)"
  using device by (auto simp: safe_def env_read_def)

lemma env_write_safe [frame_intro]: "keeps I (env_write e a v)"
  unfolding env_write_def using device by (auto intro!: safe_modify)

lemma cpu_get_safe [frame_intro]: "keeps I (cpu_get f)"
  by (simp add: safe_def)

lemma gets_safe [frame_intro]: "keeps I (gets f)"
  by (simp add: safe_def)

lemma bus_read_safe [frame_intro]: "A a \<Longrightarrow> keeps I (bus_read e a)"
  unfolding bus_read_def bus_read_k_def
  by (intro flow_intro frame_intro) (simp_all add: A_mask)

lemma bus_write_safe [frame_intro]: "A a \<Longrightarrow> keeps I (bus_write e a v)"
  unfolding bus_write_def by (intro flow_intro frame_intro) (simp_all add: A_mask)

lemma vp_read_safe [frame_intro]: "A a \<Longrightarrow> keeps I (vp_read e a)"
  unfolding vp_read_def by (intro flow_intro frame_intro) simp_all

lemma phantom_read_safe [frame_intro]: "A a \<Longrightarrow> keeps I (phantom_read e a)"
  unfolding phantom_read_def by (intro flow_intro frame_intro) simp_all

lemma phantom_write_safe [frame_intro]: "A a \<Longrightarrow> keeps I (phantom_write e a v)"
  unfolding phantom_write_def by (intro flow_intro frame_intro) simp_all

lemma phantom_read_ign_safe [frame_intro]: "A a \<Longrightarrow> keeps I (phantom_read_ign tr e a)"
  unfolding phantom_read_ign_def by (intro flow_intro frame_intro) simp_all

text \<open>Addresses the core forms: all of them on a 65816, 16-bit ones otherwise.\<close>

lemma A_cases: "(\<not> has_65816_ops tr \<Longrightarrow> A a) \<Longrightarrow> A a"
  using A_long by blast

lemma A_addresses [simp]:
  "A (make_address_long tr c a)" "A (PC tr c)" "A (make_pc_long tr c a)" "A (add_bank tr c a)"
  "A (make_pb_addr tr c a)"
  by (auto simp: make_address_long_def PC_def make_pc_long_def add_bank_def make_pb_addr_def
      intro: A_long)

lemma cpu_get_A: "(\<And>c. A (f c)) \<Longrightarrow> safe I (cpu_get f) A"
  by (simp add: safe_def)

lemma at_address:
  assumes "safe I f A" and "\<And>a. A a \<Longrightarrow> safe I (g a) V"
  shows "safe I (f \<bind> g) V"
  using assms by (rule safe_bind)

lemma fetch_pc_safe [frame_intro]: "keeps I (fetch_pc tr e)"
  unfolding fetch_pc_def
  by (intro at_address [OF cpu_get_A] flow_intro frame_intro; simp)

lemma phantom_pc_safe [frame_intro]: "keeps I (phantom_pc tr e)"
  unfolding phantom_pc_def
  by (intro at_address [OF cpu_get_A] flow_intro frame_intro; simp)

lemma read_word_safe [frame_intro]: "keeps I (read_word tr e a)"
  unfolding read_word_def
  by (intro at_address [OF cpu_get_A] flow_intro frame_intro) simp_all

lemma read_word_bank0_safe [frame_intro]: "keeps I (read_word_bank0 e a)"
  unfolding read_word_bank0_def by (intro flow_intro frame_intro) simp_all

lemma read_data_safe [frame_intro]:
  "A a \<Longrightarrow> (w = W16 \<Longrightarrow> has_65816_ops tr) \<Longrightarrow> keeps I (read_data e w a)"
  unfolding read_data_def by (intro flow_intro frame_intro) (simp_all add: A_long)

lemma write_data_safe [frame_intro]:
  "A a \<Longrightarrow> (w = W16 \<Longrightarrow> has_65816_ops tr) \<Longrightarrow> keeps I (write_data e w a v)"
  unfolding write_data_def by (intro flow_intro frame_intro) (simp_all add: A_long)

lemma write_tada_safe [frame_intro]:
  "A a \<Longrightarrow> (w = W16 \<Longrightarrow> has_65816_ops tr) \<Longrightarrow> keeps I (write_tada e w a v)"
  unfolding write_tada_def by (intro flow_intro frame_intro) (simp_all add: A_long)

lemma data_direct_safe [frame_intro]:
  "keeps I (read_data_direct e w d)" "keeps I (write_data_direct e w d v)"
  "keeps I (write_tada_direct e w d v)"
  unfolding read_data_direct_def write_data_direct_def write_tada_direct_def
  by (intro flow_intro frame_intro; simp)+

lemmas get_address = at_address [OF cpu_get_A]

lemma rmw_acc_safe [frame_intro]: "flags_only operation \<Longrightarrow> keeps I (rmw_acc tr e operation)"
  unfolding rmw_acc_def
  by (intro get_address flow_intro frame_intro; simp add: flags_only_def case_prod_beta Let_def)

lemma read_imm_safe [frame_intro]: "keeps I (read_imm tr e w)"
  unfolding read_imm_def by (intro flow_intro frame_intro; simp)

lemma address_abs_safe [frame_intro]: "keeps I (address_abs tr e)"
  unfolding address_abs_def by (intro flow_intro frame_intro; simp)

lemma abs_safe [frame_intro]:
  assumes "w = W16 \<Longrightarrow> has_65816_ops tr"
  shows "keeps I (read_abs tr e w)" and "keeps I (write_abs tr e w v)"
  unfolding read_abs_def write_abs_def
  by (intro get_address flow_intro frame_intro; simp add: assms)+

lemma rmw_modify_cycle_safe [frame_intro]:
  "A a \<Longrightarrow> (has_65816_ops tr \<Longrightarrow> A a1) \<Longrightarrow> keeps I (rmw_modify_cycle tr e a a1 v)"
  unfolding rmw_modify_cycle_def by (intro flow_intro frame_intro; simp)

lemma apply_rmw_safe [frame_intro]:
  "flags_only operation \<Longrightarrow> keeps I (apply_rmw tr operation v)"
  using data by (auto simp: apply_rmw_def safe_def flags_only_def)

lemma rmw_abs_safe [frame_intro]: "flags_only operation \<Longrightarrow> keeps I (rmw_abs tr e operation)"
  unfolding rmw_abs_def
  by (intro get_address flow_intro frame_intro; simp add: W16_long A_long)

lemma address_long_safe [frame_intro]: "keeps I (address_long tr e)"
  "keeps I (address_long_x tr e x)"
  unfolding address_long_x_def address_long_def by (intro flow_intro frame_intro; simp)+

lemma long_safe [frame_intro]:
  assumes "has_65816_ops tr"
  shows "keeps I (read_long tr e w)" and "keeps I (write_long tr e w v)"
    and "keeps I (read_long_x tr e w x)" and "keeps I (write_long_x tr e w v x)"
  unfolding read_long_def write_long_def read_long_x_def write_long_x_def
  by (intro flow_intro frame_intro; simp add: A_long assms)+

lemma address_abs_x_A: "safe I (address_abs_x tr e x) A"
  unfolding address_abs_x_def Let_def
  by (intro flow_intro frame_intro) (simp_all add: A_long)

lemma address_abs_x_write_A: "safe I (address_abs_x_write tr e x) A"
  unfolding address_abs_x_write_def Let_def
  by (intro flow_intro frame_intro) (simp_all add: A_long)

lemma abs_x_safe [frame_intro]:
  assumes "w = W16 \<Longrightarrow> has_65816_ops tr"
  shows "keeps I (read_abs_x tr e w x)" and "keeps I (write_abs_x tr e w v x)"
  unfolding read_abs_x_def write_abs_x_def
  by (intro at_address [OF address_abs_x_A] at_address [OF address_abs_x_write_A] frame_intro;
      simp add: assms)+

lemma rmw_abs_x_safe [frame_intro]: "flags_only operation \<Longrightarrow> keeps I (rmw_abs_x tr e operation)"
  unfolding rmw_abs_x_def address_rmw_abs_x_def
  by (intro at_address [OF address_abs_x_write_A] flow_intro frame_intro;
      simp add: W16_long A_long)

lemma address_direct_safe [frame_intro]: "keeps I (address_direct tr e)"
  "keeps I (address_direct_x tr e x)"
  unfolding address_direct_def address_direct_x_def by (intro flow_intro frame_intro; simp)+

lemma direct_safe [frame_intro]:
  "keeps I (read_direct tr e w)" "keeps I (write_direct tr e w v)"
  "keeps I (read_direct_x tr e w x)" "keeps I (write_direct_x tr e w v x)"
  unfolding read_direct_def write_direct_def read_direct_x_def write_direct_x_def
  by (intro flow_intro frame_intro)+

lemma rmw_direct_safe [frame_intro]:
  assumes "flags_only operation"
  shows "keeps I (rmw_direct tr e operation)" and "keeps I (rmw_direct_x tr e operation)"
  unfolding rmw_direct_def rmw_direct_x_def by (intro flow_intro frame_intro; simp add: assms)+

lemma pointer_direct_x_ind_A: "safe I (pointer_direct_x_ind tr e x) A"
  unfolding pointer_direct_x_ind_def
  by (intro flow_intro frame_intro cpu_get_A) simp_all

lemma direct_x_ind_safe [frame_intro]:
  assumes "w = W16 \<Longrightarrow> has_65816_ops tr"
  shows "keeps I (read_direct_x_ind tr e w x)" and "keeps I (write_direct_x_ind tr e w v x)"
  unfolding read_direct_x_ind_def write_direct_x_ind_def
  by (intro at_address [OF pointer_direct_x_ind_A] frame_intro; simp add: assms)+

lemma address_direct_indirect_A: "safe I (address_direct_indirect tr e) A"
  unfolding address_direct_indirect_def
  by (intro flow_intro frame_intro cpu_get_A) simp_all

lemma direct_indirect_safe [frame_intro]:
  assumes "w = W16 \<Longrightarrow> has_65816_ops tr"
  shows "keeps I (read_direct_indirect tr e w)" and "keeps I (write_direct_indirect tr e w v)"
  unfolding read_direct_indirect_def write_direct_indirect_def
  by (intro at_address [OF address_direct_indirect_A] frame_intro; simp add: assms)+

lemma address_direct_indirect_safe [frame_intro]: "keeps I (address_direct_indirect tr e)"
  using address_direct_indirect_A by (rule safe_weaken) simp

lemma direct_ind_x_safe [frame_intro]:
  assumes "w = W16 \<Longrightarrow> has_65816_ops tr"
  shows "keeps I (read_direct_ind_x tr e w x)" and "keeps I (write_direct_ind_x tr e w v x)"
  unfolding read_direct_ind_x_def write_direct_ind_x_def Let_def
  by (intro flow_intro frame_intro; simp add: assms A_long and.commute)+

lemma direct_ind_long_safe [frame_intro]:
  assumes "has_65816_ops tr"
  shows "keeps I (address_direct_indirect_long tr e)"
    and "keeps I (read_direct_ind_x_long tr e w x)" and "keeps I (write_direct_ind_x_long tr e w v x)"
    and "keeps I (read_direct_ind_long tr e w)" and "keeps I (write_direct_ind_long tr e w v)"
  unfolding read_direct_ind_x_long_def write_direct_ind_x_long_def read_direct_ind_long_def
    write_direct_ind_long_def address_direct_indirect_long_def
  by (intro flow_intro frame_intro; simp add: A_long assms)+

lemma stack_relative_safe [frame_intro]:
  assumes "has_65816_ops tr"
  shows "keeps I (read_stack_relative tr e w)" and "keeps I (write_stack_relative tr e w v)"
    and "keeps I (read_stack_relative_y tr e w)" and "keeps I (write_stack_relative_y tr e w v)"
  unfolding read_stack_relative_def write_stack_relative_def read_stack_relative_y_def
    write_stack_relative_y_def pointer_stack_relative_y_def address_stack_relative_def
  by (intro flow_intro frame_intro; simp add: A_long assms)+

lemma transfer_safe [frame_intro]:
  "keeps I (transfer_s_x tr e)" "keeps I (transfer_s_a tr e)"
  "keeps I (op_tcd tr e)" "keeps I (op_tdc tr e)" "keeps I (op_txy tr e)" "keeps I (op_tyx tr e)"
  unfolding transfer_s_x_def transfer_s_a_def op_tcd_def op_tdc_def op_txy_def op_tyx_def
    transfer_reg_reg_def Let_def
  by (intro flow_intro frame_intro; simp)+

lemma decimal_cycle_safe [frame_intro]: "keeps I (decimal_cycle tr e)"
  unfolding decimal_cycle_def by (intro flow_intro frame_intro; simp)

lemma add_sub_safe [frame_intro]:
  "keeps I (add_and_set_flags tr e n)" "keeps I (subtract_and_set_flags tr e n)"
  unfolding add_and_set_flags_def add_and_set_flags_8_def add_and_set_flags_16_def
    subtract_and_set_flags_def subtract_and_set_flags_8_def subtract_and_set_flags_16_def
  by (intro flow_intro frame_intro; simp add: case_prod_beta)+

lemma branch_if_safe [frame_intro]: "keeps I (branch_if tr e n b)"
  unfolding branch_if_def by (intro flow_intro frame_intro; simp)

lemma absolute_indirect_x_safe [frame_intro]:
  "keeps I (get_operand_address_absolute_indirect_x tr e)"
  unfolding get_operand_address_absolute_indirect_x_def
  by (intro get_address flow_intro frame_intro; simp)

lemma relative_safe [frame_intro]:
  "keeps I (address_relative tr e)" "keeps I (address_relative_long tr e)"
  unfolding address_relative_def address_relative_long_def
  by (intro flow_intro frame_intro; simp)+

lemma invalid_safe [frame_intro]:
  "keeps I (invalid_opcode opc)" "keeps I (invalid_nop e m n)"
  unfolding invalid_opcode_def invalid_nop_def by (intro flow_intro frame_intro; simp)+

lemma move_memory_safe [frame_intro]:
  assumes "has_65816_ops tr"
  shows "keeps I (move_memory tr e)"
  unfolding move_memory_def by (intro flow_intro frame_intro; simp add: A_long assms)

lemma set_pc_safe [frame_intro]: "keeps I (set_pc a)"
  unfolding set_pc_def by (intro frame_intro) simp

text \<open>The shapes of case bodies.\<close>

lemma only_safe [frame_intro]:
  "(has_65c02_ops tr \<Longrightarrow> keeps I f) \<Longrightarrow> keeps I (cmos_only tr opc f)"
  "(has_65816_ops tr \<Longrightarrow> keeps I f) \<Longrightarrow> keeps I (long_only tr e f)"
  "(has_65816_ops tr \<Longrightarrow> keeps I f) \<Longrightarrow> keeps I (inop tr e opc m n f)"
  unfolding cmos_only_def long_only_def inop_def by (intro flow_intro frame_intro; simp)+

lemma index_safe [frame_intro]:
  "(\<And>x. keeps I (f x)) \<Longrightarrow> keeps I (by_X tr f)"
  "(\<And>x. keeps I (f x)) \<Longrightarrow> keeps I (by_Y tr f)"
  "(\<And>x. keeps I (g x)) \<Longrightarrow> keeps I (store reg g)"
  unfolding by_X_def by_Y_def store_def by (intro flow_intro frame_intro; simp)+

lemma do_safe [frame_intro]:
  assumes "keeps I f"
  shows "keeps I (do_adc tr e f)" and "keeps I (do_sbc tr e f)" and "keeps I (do_and tr f)"
    and "keeps I (do_ora tr f)" and "keeps I (do_eor tr f)" and "keeps I (do_lda tr f)"
    and "keeps I (do_ldx tr f)" and "keeps I (do_ldy tr f)" and "keeps I (do_cmp tr f)"
    and "keeps I (do_cpx tr f)" and "keeps I (do_cpy tr f)" and "keeps I (do_bit tr f)"
  unfolding do_adc_def do_sbc_def do_and_def do_ora_def do_eor_def do_lda_def do_ldx_def
    do_ldy_def do_cmp_def do_cpx_def do_cpy_def do_bit_def
  by (intro flow_intro frame_intro assms; simp)+

lemma do_branch_safe [frame_intro]: "keeps I (do_branch tr e b)"
  unfolding do_branch_def by (intro flow_intro frame_intro)

lemma implied_safe [frame_intro]:
  "(\<And>c. data_frame tr c (f c)) \<Longrightarrow> keeps I (implied tr e f)"
  "(\<And>c. data_frame tr c (f c)) \<Longrightarrow> keeps I (implied_late tr e f)"
  unfolding implied_def implied_late_def by (intro flow_intro frame_intro; simp)+

lemma alu_cases_safe:
  "cases_keep I (adc_cases tr e)" "cases_keep I (and_cases tr e)" "cases_keep I (cmp_cases tr e)"
  "cases_keep I (eor_cases tr e)" "cases_keep I (lda_cases tr e)" "cases_keep I (ora_cases tr e)"
  "cases_keep I (sbc_cases tr e)" "cases_keep I (sta_cases tr e)" "cases_keep I (bit_cases tr e)"
  unfolding adc_cases_def and_cases_def cmp_cases_def eor_cases_def lda_cases_def ora_cases_def
    sbc_cases_def sta_cases_def bit_cases_def
  by (intro cases_keep_intro flow_intro frame_intro; simp add: W16_long)+

lemma index_cases_safe:
  "cases_keep I (cpx_cpy_cases tr e)" "cases_keep I (ldx_ldy_cases tr e)"
  "cases_keep I (stx_sty_stz_cases tr e)"
  unfolding cpx_cpy_cases_def ldx_ldy_cases_def stx_sty_stz_cases_def
  by (intro cases_keep_intro frame_intro; simp add: W16_long)+

lemma rmw_cases_safe:
  "cases_keep I (asl_cases tr e)" "cases_keep I (lsr_cases tr e)" "cases_keep I (rol_cases tr e)"
  "cases_keep I (ror_cases tr e)" "cases_keep I (inc_cases tr e)" "cases_keep I (dec_cases tr e)"
  unfolding asl_cases_def lsr_cases_def rol_cases_def ror_cases_def inc_cases_def dec_cases_def
  by (intro cases_keep_intro frame_intro; simp)+

lemma long_cases_safe:
  "cases_keep I (long_logic_cases tr e)" "cases_keep I (long_move_cases tr e)"
  "cases_keep I (inop_x3_low_cases tr e)" "cases_keep I (inop_x3_high_cases tr e)"
  "cases_keep I (inop_x7_low_cases tr e)" "cases_keep I (inop_x7_high_cases tr e)"
  unfolding long_logic_cases_def long_move_cases_def inop_x3_low_cases_def inop_x3_high_cases_def
    inop_x7_low_cases_def inop_x7_high_cases_def
  by (intro cases_keep_intro frame_intro; simp)+

lemma branch_flag_cases_safe:
  "cases_keep I (branch_cases tr e)" "cases_keep I (flag_cases tr e)"
  unfolding branch_cases_def flag_cases_def
  by (intro cases_keep_intro flow_intro frame_intro; simp)+

lemmas data_cases_safe = alu_cases_safe index_cases_safe rmw_cases_safe long_cases_safe
  branch_flag_cases_safe

end

section \<open>The stack\<close>

locale core_frame = cycle_frame tr e I A + weak: cycle_frame tr e I0 A
  for tr :: cpu_traits and e :: "'m machine_ops"
    and I :: "'m machine \<Rightarrow> bool" and I0 :: "'m machine \<Rightarrow> bool" and A :: "u32 \<Rightarrow> bool" +
  assumes weaken: "\<And>s. I s \<Longrightarrow> I0 s"
    and sp_weak: "\<And>s v. I0 s \<Longrightarrow> I0 (s\<lparr>cpu := (cpu s)\<lparr>reg_sp := v\<rparr>\<rparr>)"
    and sp_keep: "\<And>s v. I s \<Longrightarrow> (e_mode tr \<Longrightarrow> word_hi v = word_hi (reg_sp (cpu s))) \<Longrightarrow>
      I (s\<lparr>cpu := (cpu s)\<lparr>reg_sp := v\<rparr>\<rparr>)"
    and sp_fix: "\<And>s v. I0 s \<Longrightarrow> (e_mode tr \<Longrightarrow> word_hi v = 0x01) \<Longrightarrow>
      I (s\<lparr>cpu := (cpu s)\<lparr>reg_sp := v\<rparr>\<rparr>)"
begin

lemma sp_upd_safe [frame_intro]:
  "(\<And>c. e_mode tr \<Longrightarrow> word_hi (v c) = word_hi (reg_sp c)) \<Longrightarrow>
     keeps I (cpu_upd (\<lambda>c. c\<lparr>reg_sp := v c\<rparr>))"
  using sp_keep by (auto intro!: safe_cpu_upd)

lemma sp_upd_fix: "leads I0 (cpu_upd (\<lambda>c. c\<lparr>reg_sp := v c\<rparr>)) I"
  if "\<And>c. e_mode tr \<Longrightarrow> word_hi (v c) = 0x01"
  using that sp_fix by (auto simp: leads_def)

lemma sp_upd_weak [frame_intro]: "keeps I0 (cpu_upd (\<lambda>c. c\<lparr>reg_sp := v c\<rparr>))"
  using sp_weak by (auto intro!: safe_cpu_upd)

lemma I_eq: "\<not> e_mode tr \<Longrightarrow> I0 s \<Longrightarrow> I s"
  using sp_fix [of s "reg_sp (cpu s)"] by simp

lemma stack_fix_new_fix: "leads I0 (stack_fix_new tr) I"
  using I_eq sp_upd_fix [of "\<lambda>c. set_hi (reg_sp c) 1"]
  by (auto simp: stack_fix_new_def mwhen_def leads_def set_sp_hi_def)

lemmas stack_intro = flow_intro sp_upd_safe sp_upd_weak cpu_get_safe weak.cpu_get_safe
  bus_read_safe bus_write_safe weak.bus_read_safe weak.bus_write_safe

lemma push_pop_byte_safe [frame_intro]:
  "keeps I (push_byte tr e n)" "keeps I (pop_byte tr e)"
  unfolding push_byte_def pop_byte_def set_sp_lo_def
  by (intro stack_intro; use ok in \<open>simp add: traits_ok_def\<close>)+

lemma push_word_safe [frame_intro]: "keeps I (push_word tr e v)"
  unfolding push_word_def set_sp_lo_def
  by (intro stack_intro; use ok in \<open>simp add: traits_ok_def\<close>)

lemma pop_word_safe [frame_intro]: "keeps I (pop_word tr e)"
  unfolding pop_word_def by (intro flow_intro frame_intro; simp)

lemma stack_pull_push_safe [frame_intro]:
  "keeps I (stack_pull tr e w)" "keeps I (stack_push tr e w v)"
  unfolding stack_pull_def stack_push_def by (intro flow_intro frame_intro; simp)+

lemma new_stack_weak [frame_intro]:
  "keeps I0 (push_byte_new e n)" "keeps I0 (push_word_new e v)"
  "keeps I0 (pop_byte_new e)" "keeps I0 (pop_word_new e)"
  unfolding push_word_new_def pop_word_new_def push_byte_new_def pop_byte_new_def
  by (intro stack_intro; simp)+

text \<open>Code that ends by repairing the stack pointer.\<close>

lemma repair:
  assumes "leads I0 f I"
  shows "keeps I f"
  unfolding keeps_leads by (rule leads_weaken [OF assms]) (simp_all add: weaken)

lemma fix_last: "leads I0 (stack_fix_new tr) I" "keeps I f \<Longrightarrow> leads I0 (stack_fix_new tr \<bind> (\<lambda>_. f)) I"
  by (auto simp: keeps_leads intro: stack_fix_new_fix leads_bind)

lemma push_fix_safe [frame_intro]:
  assumes "has_65816_ops tr"
  shows "keeps I (op_per tr e)" and "keeps I (op_pei tr e)" and "keeps I (op_pea tr e)"
    and "keeps I (op_phd tr e)" and "keeps I (op_phk tr e)" and "keeps I (op_phb tr e)"
    and "keeps I (op_jsl tr e)" and "keeps I (op_jsr_ind_x tr e)" and "keeps I (op_pld tr e)"
    and "keeps I (op_plb tr e)"
  unfolding op_per_def op_pei_def op_pea_def op_phd_def op_phk_def op_phb_def op_jsl_def
    op_jsr_ind_x_def op_pld_def op_plb_def
  by (rule repair, intro fix_last leads_after frame_intro; simp add: A_long assms)+

lemma rtl_safe [frame_intro]: "has_65816_ops tr \<Longrightarrow> keeps I (op_rtl tr e)"
proof -
  have "keeps I (stack_rtl tr e)"
    unfolding stack_rtl_def by (rule repair, intro fix_last leads_after frame_intro; simp)
  then show ?thesis
    unfolding op_rtl_def by (intro flow_intro frame_intro; simp)
qed

lemma sp_transfer_safe [frame_intro]: "keeps I (op_tcs tr e)" "keeps I (transfer_x_s tr e)"
proof -
  have "leads I0 (cpu_upd (\<lambda>c. c\<lparr>reg_sp := reg_a c\<rparr>) \<bind>
      (\<lambda>_. mwhen (e_mode tr) (cpu_upd (set_sp_hi 1)) \<bind> (\<lambda>_. phantom_pc tr e))) I"
    using stack_fix_new_fix phantom_pc_safe
    by (intro leads_after frame_intro leads_bind) (auto simp: stack_fix_new_def keeps_leads)
  then show "keeps I (op_tcs tr e)"
    unfolding op_tcs_def by (rule repair)
  have "leads I0 (cpu_upd (\<lambda>c. if has_65816_ops tr then
         if e_mode tr then set_sp_hi 0x01 (set_sp_lo (word_lo (get_X tr c)) c)
         else c\<lparr>reg_sp := reg_x c\<rparr>
       else set_sp_hi 0x01 (set_sp_lo (word_lo (get_X tr c)) c))) I"
    using sp_fix by (auto simp: leads_def set_sp_hi_def set_sp_lo_def)
  then show "keeps I (transfer_x_s tr e)"
    unfolding transfer_x_s_def
    by (intro repair leads_bind) (auto intro: leads_keep phantom_pc_safe)
qed

lemma brk_cop_safe [frame_intro]: "keeps I (brk_cop tr e v)"
  unfolding brk_cop_def by (intro flow_intro frame_intro; simp)

lemma op_brk_cop_safe [frame_intro]: "keeps I (op_brk tr e)" "keeps I (op_cop tr e)"
  unfolding op_brk_def op_cop_def by (intro flow_intro frame_intro)+

lemma jump_safe [frame_intro]:
  "keeps I (op_jmp_abs tr e)" "keeps I (op_jmp_ind tr e)" "keeps I (op_jmp_ind_x tr e)"
  "keeps I (op_jsr tr e)" "keeps I (op_rts tr e)" "keeps I (op_brl tr e)"
  unfolding op_jmp_abs_def op_jmp_ind_def op_jmp_ind_x_def op_jsr_def op_rts_def op_brl_def
  by (intro get_address flow_intro frame_intro; simp)+

lemma long_jump_safe [frame_intro]: "keeps I (op_jml tr e)" "keeps I (op_jml_ind tr e)"
  unfolding op_jml_def op_jml_ind_def by (intro flow_intro frame_intro; simp)+

lemma op_php_safe [frame_intro]: "keeps I (op_php tr e)"
  unfolding op_php_def by (intro flow_intro frame_intro)

lemma move_safe [frame_intro]:
  assumes "has_65816_ops tr"
  shows "keeps I (op_mvp tr e)" and "keeps I (op_mvn tr e)"
  unfolding op_mvp_def op_mvn_def by (intro flow_intro frame_intro; simp add: assms)+

lemma halt_safe [frame_intro]:
  "keeps I (op_wai e)" "keeps I (op_stp e)" "keeps I (op_xba tr e)"
  unfolding op_wai_def op_stp_def op_xba_def by (intro flow_intro frame_intro; simp)+

lemma transfer_cases_safe: "cases_keep I (transfer_cases tr e)"
  unfolding transfer_cases_def by (intro cases_keep_intro frame_intro; simp)

lemma inop_move_jump_cases_safe: "cases_keep I (inop_move_jump_cases tr e)"
  unfolding inop_move_jump_cases_def by (intro cases_keep_intro frame_intro; simp)

text \<open>Interrupt entry.\<close>

lemma enter_interrupt_safe [frame_intro]: "keeps I (enter_interrupt tr e v)"
  unfolding enter_interrupt_def by (intro flow_intro frame_intro; simp)

lemma service_safe [frame_intro]: "keeps I (service_irq tr e)" "keeps I (service_nmi_abort tr e)"
  unfolding service_irq_def service_nmi_abort_def by (intro flow_intro frame_intro; simp)+

text \<open>
  A call of \<open>execute_next\<close> leads from \<open>I\<close> to any weaker \<open>Q\<close>, as soon as the six operations
  that write the mode flags or call outside the core do.
\<close>

definition mode_changes_lead :: "('m machine \<Rightarrow> bool) \<Rightarrow> bool" where
  "mode_changes_lead Q \<longleftrightarrow> (\<forall>s. I s \<longrightarrow> Q s) \<and> leads I (op_plp tr e) Q \<and> leads I (op_rti tr e) Q \<and>
     (has_65816_ops tr \<longrightarrow> leads I (op_wdm tr e) Q \<and> leads I (op_rep tr e) Q \<and>
        leads I (op_sep tr e) Q \<and> leads I (op_xce tr e) Q)"

lemma keep_Q: "mode_changes_lead Q \<Longrightarrow> keeps I f \<Longrightarrow> leads I f Q"
  by (rule leads_keep) (auto simp: mode_changes_lead_def)

lemma cases_keep_Q: "mode_changes_lead Q \<Longrightarrow> cases_keep I xs \<Longrightarrow> cases_lead I Q xs"
  by (auto simp: cases_keep_def cases_lead_def keep_Q)

lemma inop_Q:
  assumes "mode_changes_lead Q" and "has_65816_ops tr \<Longrightarrow> leads I f Q"
  shows "leads I (inop tr e opc m n f) Q"
  using assms by (auto simp: inop_def intro!: keep_Q frame_intro)

lemma mode_cases_lead:
  assumes "mode_changes_lead Q"
  shows "cases_lead I Q (stack_cases tr e)" and "cases_lead I Q (control_cases tr e)"
    and "cases_lead I Q (inop_x2_cases tr e)" and "cases_lead I Q (inop_xB_cases tr e)"
proof -
  note Q = assms [unfolded mode_changes_lead_def]
  note keep = keep_Q [OF assms]
  show "cases_lead I Q (stack_cases tr e)"
    unfolding stack_cases_def
    by (intro cases_lead_intro; (simp add: Q; fail)?; rule keep; intro frame_intro)
  show "cases_lead I Q (control_cases tr e)"
    unfolding control_cases_def
    by (intro cases_lead_intro; (simp add: Q; fail)?; rule keep; intro frame_intro)
  show "cases_lead I Q (inop_x2_cases tr e)"
    unfolding inop_x2_cases_def
    by (intro cases_lead_intro inop_Q [OF assms]; (simp add: Q; fail)?; rule keep;
        intro flow_intro frame_intro; simp)
  show "cases_lead I Q (inop_xB_cases tr e)"
    unfolding inop_xB_cases_def
    by (intro cases_lead_intro inop_Q [OF assms]; (simp add: Q; fail)?; rule keep;
        intro flow_intro frame_intro; simp)
qed

lemma execute_opcode_leads:
  assumes "mode_changes_lead Q"
  shows "leads I (execute_opcode tr e opc) Q"
proof -
  have "cases_lead I Q (opcode_table tr e)"
    unfolding opcode_table_def cases_lead_append
    by (intro conjI mode_cases_lead assms cases_keep_Q [OF assms] data_cases_safe
        transfer_cases_safe inop_move_jump_cases_safe)
  then show ?thesis
    unfolding execute_opcode_def cases_lead_def
    by (auto split: option.split dest!: map_of_SomeD intro: keep_Q [OF assms] frame_intro)
qed

lemma execute_next_leads:
  assumes "mode_changes_lead Q"
  shows "leads I (execute_next tr e) Q"
proof -
  have run: "leads I (run_instruction tr e) Q"
    unfolding run_instruction_def
    by (intro leads_after frame_intro execute_opcode_leads assms)
  have fetch: "leads I (mwhen b (cpu_upd (\<lambda>c. c\<lparr>rdy := False\<rparr>)) \<bind> (\<lambda>_. run_instruction tr e)) Q"
    for b
    by (rule leads_after) (intro flow_intro frame_intro, simp, rule TrueI, rule run)
  show ?thesis
    unfolding execute_next_def
    by (intro leads_after leads_if frame_intro fetch; rule keep_Q [OF assms]; intro frame_intro)
qed

end

end
