(* ===== verification/Cpu_Mode.thy ===== *)
theory Cpu_Mode
  imports Cpu_Frame
begin

text \<open>
  The register discipline of the 65816, \<open>mode_ok\<close>, as an instance of the frame locales: in
  emulation mode M and X are set and the stack is in page 1; with 8-bit index registers their high
  bytes are zero.  Every instruction of every core keeps it, also those that change the mode, and it
  holds in every reachable state.
\<close>

section \<open>Mode discipline of the 65816\<close>

definition mode_ok :: "cpu_state \<Rightarrow> bool" where
  "mode_ok c \<longleftrightarrow> (flag_E c \<longrightarrow> flag_M c \<and> flag_X c \<and> word_hi (reg_sp c) = 0x01) \<and>
     (flag_X c \<longrightarrow> word_hi (reg_x c) = 0 \<and> word_hi (reg_y c) = 0)"

text \<open>The state matches the core that runs it; the weaker form leaves the stack free.\<close>

definition mode_weak :: "cpu_traits \<Rightarrow> 'm machine \<Rightarrow> bool" where
  "mode_weak tr s \<longleftrightarrow> flag_E (cpu s) = e_mode tr \<and> flag_M (cpu s) = (\<not> m_16 tr) \<and>
     flag_X (cpu s) = (\<not> x_16 tr) \<and>
     (\<not> x_16 tr \<longrightarrow> word_hi (reg_x (cpu s)) = 0 \<and> word_hi (reg_y (cpu s)) = 0)"

definition mode_inv :: "cpu_traits \<Rightarrow> 'm machine \<Rightarrow> bool" where
  "mode_inv tr s \<longleftrightarrow> mode_weak tr s \<and> (e_mode tr \<longrightarrow> word_hi (reg_sp (cpu s)) = 0x01)"

lemma mode_inv_ok: "traits_ok tr \<Longrightarrow> mode_inv tr s \<Longrightarrow> mode_ok (cpu s)"
  by (auto simp: mode_inv_def mode_weak_def mode_ok_def traits_ok_def)

lemma select_core_inv: "mode_ok (cpu s) \<Longrightarrow> mode_inv (select_core (cpu s)) s"
  by (auto simp: mode_inv_def mode_weak_def mode_ok_def select_core_def trait_defs)

lemma select_core_in: "select_core c \<in> cores_65816"
  by (simp add: select_core_def cores_65816_def)

lemma cycle_frame_weak:
  assumes "core \<in> cores_65816"
  shows "cycle_frame core (mode_weak core) (\<lambda>_. True)"
  using traits_ok_all(5) [OF assms]
  by unfold_locales (auto simp: mode_weak_def data_frame_def)

lemma cycle_frame_inv:
  assumes "core \<in> cores_65816"
  shows "cycle_frame core (mode_inv core) (\<lambda>_. True)"
  using traits_ok_all(5) [OF assms]
  by unfold_locales (auto simp: mode_inv_def mode_weak_def data_frame_def)

lemma core_frame_mode:
  assumes "core \<in> cores_65816"
  shows "core_frame core (mode_inv core) (mode_weak core) (\<lambda>_. True)"
  by (intro core_frame.intro core_frame_axioms.intro cycle_frame_weak cycle_frame_inv assms)
     (auto simp: mode_inv_def mode_weak_def)

interpretation em: core_frame CPU65816_E_8_8_Traits e "mode_inv CPU65816_E_8_8_Traits"
  "mode_weak CPU65816_E_8_8_Traits" "\<lambda>_. True" for e
  by (rule core_frame_mode) (simp add: cores_65816_def)

interpretation n88: core_frame CPU65816_N_8_8_Traits e "mode_inv CPU65816_N_8_8_Traits"
  "mode_weak CPU65816_N_8_8_Traits" "\<lambda>_. True" for e
  by (rule core_frame_mode) (simp add: cores_65816_def)

interpretation n168: core_frame CPU65816_N_16_8_Traits e "mode_inv CPU65816_N_16_8_Traits"
  "mode_weak CPU65816_N_16_8_Traits" "\<lambda>_. True" for e
  by (rule core_frame_mode) (simp add: cores_65816_def)

interpretation n816: core_frame CPU65816_N_8_16_Traits e "mode_inv CPU65816_N_8_16_Traits"
  "mode_weak CPU65816_N_8_16_Traits" "\<lambda>_. True" for e
  by (rule core_frame_mode) (simp add: cores_65816_def)

interpretation n1616: core_frame CPU65816_N_16_16_Traits e "mode_inv CPU65816_N_16_16_Traits"
  "mode_weak CPU65816_N_16_16_Traits" "\<lambda>_. True" for e
  by (rule core_frame_mode) (simp add: cores_65816_def)

text \<open>A WDM callback may write any register.  Registers that such a callback, called on registers in the discipline, has
  left outside it (the Host FST's callback can: \<^verbatim>\<open>hostfst_sync_cpu_from_engine\<close> writes all of X, Y, S and P).\<close>

definition wdm_left :: "'m machine_ops \<Rightarrow> cpu_state \<Rightarrow> bool" where
  "wdm_left e c' \<longleftrightarrow> \<not> mode_ok c' \<and>
     (\<exists>n handler c m. wdm_handlers e n = Some handler \<and> mode_ok c \<and> c' = fst (handler (c, m)))"

text \<open>The operations that write the mode flags repair the rest of the discipline.\<close>

abbreviation ok_state :: "'m machine \<Rightarrow> bool" where
  "ok_state s \<equiv> mode_ok (cpu s)"

abbreviation ok_or_left :: "'m machine_ops \<Rightarrow> 'm machine \<Rightarrow> bool" where
  "ok_or_left e s \<equiv> mode_ok (cpu s) \<or> wdm_left e (cpu s)"

lemma cores_65816_ops:
  "core \<in> cores_65816 \<Longrightarrow> has_65816_ops core" "core \<in> cores_65816 \<Longrightarrow> traits_ok core"
  by (auto simp: cores_65816_def trait_defs traits_ok_def)

lemma ok_phantom_pc: "keeps ok_state (phantom_pc tr e)"
  by (simp add: safe_def phantom_pc_def phantom_read_ign_def phantom_read_def env_read_def
      incr_cycles_def mode_ok_def)

lemma narrow_index_simps [simp]:
  "flag_E (narrow_index c) = flag_E c" "flag_U (narrow_index c) = flag_U c"
  "flag_B (narrow_index c) = flag_B c" "reg_sp (narrow_index c) = reg_sp c"
  "flag_B c \<Longrightarrow> word_hi (reg_x (narrow_index c)) = 0"
  "flag_B c \<Longrightarrow> word_hi (reg_y (narrow_index c)) = 0"
  by (simp_all add: narrow_index_def clear_xy_hi_def)

lemma set_p_simps [simp]:
  "flag_E (set_p v c) = flag_E c" "reg_sp (set_p v c) = reg_sp c" "reg_x (set_p v c) = reg_x c"
  "reg_y (set_p v c) = reg_y c" "flag_B (set_p v c) = bit v 4" "flag_U (set_p v c) = bit v 5"
  by (simp_all add: set_p_def)

lemma narrow_index_ok: "\<not> flag_E c \<Longrightarrow> mode_ok (narrow_index c)"
  by (simp add: mode_ok_def)

lemma plp_leads:
  assumes "core \<in> cores_65816"
  shows "leads (mode_inv core) (op_plp core e) ok_state"
  unfolding op_plp_def
  by (rule leads_after [OF core_frame.stack_pull_push_safe(1) [OF core_frame_mode [OF assms]]])
     (use cores_65816_ops [OF assms] in
       \<open>auto simp: leads_def mode_inv_def mode_weak_def mode_ok_def traits_ok_def\<close>)

lemma xce_leads:
  assumes "core \<in> cores_65816"
  shows "leads (mode_inv core) (op_xce core e) ok_state"
  unfolding op_xce_def
  by (rule leads_after [OF cycle_frame.phantom_pc_safe [OF cycle_frame_inv [OF assms]]])
     (auto simp: leads_def mode_inv_def mode_weak_def mode_ok_def enter_emulation_def
       clear_xy_hi_def set_sp_hi_def)

lemma two_updates_lead:
  assumes "\<And>s. P s \<Longrightarrow> R (g (f (cpu s)))" and "keeps (\<lambda>s. R (cpu s)) h"
  shows "leads P (cpu_upd f \<bind> (\<lambda>_. cpu_upd g \<bind> (\<lambda>_. h))) (\<lambda>s. R (cpu s))"
  using assms by (auto simp: leads_def safe_def)

lemma or_0x30_bits: "bit (p OR 0x30) 4" "bit (p OR 0x30) 5" for p :: u8
  by (simp_all add: bit_or_iff)

lemma rep_ok:
  assumes "mode_ok c" and "c' = set_p (get_p c AND NOT n) c"
  shows "mode_ok (if flag_E c' then set_sp_hi 0x01 (set_p (get_p c' OR 0x30) c') else c')"
  using assms by (auto simp: mode_ok_def set_sp_hi_def or_0x30_bits bit_and_iff bit_get_p)

lemma sep_ok:
  assumes "mode_ok c" and "c' = set_p (get_p c OR n) c"
  shows "mode_ok (if flag_E c' then set_p (get_p c' OR 0x30) c' else narrow_index c')"
  using assms by (auto simp: mode_ok_def or_0x30_bits)

lemma rep_sep_leads:
  assumes "core \<in> cores_65816"
  shows "leads (mode_inv core) (op_rep core e) ok_state"
    and "leads (mode_inv core) (op_sep core e) ok_state"
proof -
  note imm = leads_after [OF cycle_frame.read_imm_safe [OF cycle_frame_inv [OF assms]]]
  note ok = mode_inv_ok [OF cores_65816_ops(2) [OF assms]]
  show "leads (mode_inv core) (op_rep core e) ok_state"
    unfolding op_rep_def
    by (intro imm two_updates_lead ok_phantom_pc) (erule rep_ok [OF ok refl])
  show "leads (mode_inv core) (op_sep core e) ok_state"
    unfolding op_sep_def
    by (intro imm two_updates_lead ok_phantom_pc) (erule sep_ok [OF ok refl])
qed

lemma wdm_leads:
  assumes "core \<in> cores_65816"
  shows "leads (mode_inv core) (op_wdm core e) (ok_or_left e)"
proof -
  have "ok_or_left e (snd (run_state (call_wdm e n) s))" if "mode_inv core s" for n and s :: "'a machine"
    using mode_inv_ok [OF cores_65816_ops(2) [OF assms] that]
    by (force simp: call_wdm_def wdm_left_def case_prod_beta split: option.split)
  then show ?thesis
    unfolding op_wdm_def
    by (intro leads_after cycle_frame.fetch_pc_safe [OF cycle_frame_inv [OF assms]])
       (simp add: leads_def)
qed

text \<open>
  RTI on the native 65816 pulls the program counter and bank after the new status is in force,
  so its second half runs under the discipline of the new mode.
\<close>

definition native_ok :: "'m machine \<Rightarrow> bool" where
  "native_ok s \<longleftrightarrow> mode_ok (cpu s) \<and> \<not> flag_E (cpu s)"

lemma core_frame_native: "core_frame CPU65816_N_8_8_Traits native_ok native_ok (\<lambda>_. True)"
  by unfold_locales
     (auto simp: native_ok_def mode_ok_def data_frame_def traits_ok_def CPU65816_N_8_8_Traits_def)

interpretation native: core_frame CPU65816_N_8_8_Traits e native_ok native_ok "\<lambda>_. True" for e
  by (rule core_frame_native)

lemma native_pop:
  assumes "has_65816_ops tr" and "\<not> e_mode tr"
  shows "pop_byte tr e = pop_byte CPU65816_N_8_8_Traits e"
    and "pop_word tr e = pop_word CPU65816_N_8_8_Traits e"
  using assms by (simp_all add: pop_word_def pop_byte_def CPU65816_N_8_8_Traits_def)

lemma native_upd: "keeps native_ok (cpu_upd (\<lambda>c. c\<lparr>reg_pc := v\<rparr>))"
  "keeps native_ok (cpu_upd (\<lambda>c. c\<lparr>reg_pb := b\<rparr>))"
  by (auto simp: safe_def native_ok_def mode_ok_def)

lemma FLAG_mask: "FLAG_B OR FLAG_UNUSED = 0x30"
  by (simp add: FLAG_B_def FLAG_UNUSED_def)

lemma oldp_bits:
  fixes p q :: u8
  assumes "bit q 4" and "bit q 5"
  shows "bit ((p AND NOT 0x30) OR (q AND 0x30)) 4" and "bit ((p AND NOT 0x30) OR (q AND 0x30)) 5"
  using assms by (simp_all add: bit_or_iff bit_and_iff)

lemma rti_native:
  assumes core: "core \<in> cores_65816" and "\<not> e_mode core"
  shows "leads (mode_inv core) (op_rti core e) ok_state"
proof -
  note ops = cores_65816_ops(1) [OF core]
  note pull = cycle_frame.phantom_pc_safe [OF cycle_frame_inv [OF core]]
    cycle_frame.cpu_get_safe [OF cycle_frame_inv [OF core]]
    core_frame.push_pop_byte_safe(2) [OF core_frame_mode [OF core]]
  have enter: "leads (mode_inv core) (cpu_upd (\<lambda>c. narrow_index (set_p p c))) native_ok" for p
    using assms(2) by (auto simp: leads_def mode_inv_def mode_weak_def native_ok_def
        intro!: narrow_index_ok)
  have rest: "leads native_ok (cpu_upd narrow_index \<bind> (\<lambda>_. pop_word core e \<bind> (\<lambda>pc.
      set_pc pc \<bind> (\<lambda>_. pop_byte core e \<bind> (\<lambda>pb. cpu_upd (\<lambda>c. c\<lparr>reg_pb := pb\<rparr>)))))) ok_state"
    unfolding native_pop [OF ops assms(2)] set_pc_def
    by (intro leads_after native.pop_word_safe native.push_pop_byte_safe native_upd
          leads_keep [OF native_upd(2)])
       (auto simp: safe_def native_ok_def intro!: narrow_index_ok)
  show ?thesis
    unfolding op_rti_def
    using assms(2) ops by (simp add: mwhen_def) (intro leads_after pull leads_bind [OF enter] rest)
qed

lemma rti_emulation:
  assumes core: "core \<in> cores_65816" and e: "e_mode core"
  shows "leads (mode_inv core) (op_rti core e') ok_state"
proof -
  note ops = cores_65816_ops [OF core]
  note [frame_intro] = cycle_frame.phantom_pc_safe [OF cycle_frame_inv [OF core]]
    core_frame.push_pop_byte_safe(2) [OF core_frame_mode [OF core]]
    core_frame.pop_word_safe [OF core_frame_mode [OF core]]
    cycle_frame.set_pc_safe [OF cycle_frame_inv [OF core]]
  have status: "keeps (mode_inv core)
      (cpu_upd (set_p ((p AND NOT (FLAG_B OR FLAG_UNUSED)) OR
         (get_p (cpu s) AND (FLAG_B OR FLAG_UNUSED)))))"
    if "mode_inv core s" for p and s :: "'a machine"
  proof -
    have "bit (get_p (cpu s)) 4" "bit (get_p (cpu s)) 5"
      using that e ops(2) by (auto simp: mode_inv_def mode_weak_def bit_get_p traits_ok_def)
    from oldp_bits [OF this] e ops(2) show ?thesis
      unfolding FLAG_mask by (auto simp: safe_def mode_inv_def mode_weak_def traits_ok_def)
  qed
  have narrow: "keeps (mode_inv core) (cpu_upd narrow_index)"
    using e ops(2) by (auto simp: safe_def mode_inv_def mode_weak_def traits_ok_def)
  have "leads (mode_inv core) (op_rti core e') (mode_inv core)"
    unfolding op_rti_def cpu_get_def mwhen_def
    by (simp only: e ops(1) if_True if_False not_True_eq_False)
       (rule leads_gets, intro leads_after frame_intro status narrow leads_keep safe_ret;
        (assumption | rule TrueI))
  then show ?thesis
    by (rule leads_weaken) (auto intro: mode_inv_ok ops(2))
qed

lemma mode_changes:
  assumes core: "core \<in> cores_65816"
  shows "core_frame.mode_changes_lead core e (mode_inv core) (ok_or_left e)"
proof -
  have weak: "leads (mode_inv core) f (ok_or_left e)" if "leads (mode_inv core) f ok_state" for f :: "('a, unit) action"
    using that by (rule leads_weaken) simp_all
  show ?thesis
    unfolding core_frame.mode_changes_lead_def [OF core_frame_mode [OF core]]
    using core rti_native [OF core, THEN weak] rti_emulation [OF core, THEN weak] wdm_leads [OF core]
    by (auto intro: weak plp_leads rep_sep_leads xce_leads mode_inv_ok cores_65816_ops)
qed

lemma execute_next_core_ok:
  assumes "core \<in> cores_65816"
  shows "leads (mode_inv core) (execute_next core e) (ok_or_left e)"
  using core_frame.execute_next_leads [OF core_frame_mode mode_changes] assms by blast

lemma execute_next_65816_ok: "leads ok_state (execute_next_65816 e) (ok_or_left e)"
  using leadsD [OF execute_next_core_ok [OF select_core_in] select_core_inv]
  by (auto simp: leads_def execute_next_65816_def)

lemma reset_ok:
  assumes "core \<in> cores_65816"
  shows "leads (\<lambda>_. True) (cpu_state_reset (reset_65816 core e)) ok_state"
proof -
  have vector: "keeps ok_state (read_word_bank0 e RESET_VECTOR \<bind> set_pc)"
    by (simp add: safe_def read_word_bank0_def vp_read_def env_read_def incr_cycles_def set_pc_def
        mode_ok_def)
  have regs: "leads (\<lambda>_. True) (cpu_upd (\<lambda>c. if has_65816_ops core then
         (clear_xy_hi (set_sp_hi 0x01 (c\<lparr>reg_d := 0, reg_db := 0, reg_pb := 0\<rparr>)))
           \<lparr>flag_E := True, flag_U := True, flag_B := True, flag_I := True, flag_D := False,
            rdy := False\<rparr>
       else c\<lparr>flag_I := True\<rparr>)) ok_state"
    using cores_65816_ops(1) [OF assms]
    by (simp add: leads_def mode_ok_def clear_xy_hi_def set_sp_hi_def)
  show ?thesis
    unfolding cpu_state_reset_def reset_65816_def core_reset_def
    by (intro leads_after leads_bind [OF regs] leads_keep [OF vector]) (auto simp: safe_def)
qed



end
