(* ===== verification/Cpu_Memory.thy ===== *)
theory Cpu_Memory
  imports Cpu_Mode
begin

text \<open>
  The processor on ordinary memory.  The locale \<open>ram_bus\<close> is the interface between the core and
  the memory side: a partial map \<open>mem\<close> of the bytes that behave as memory, which a read returns
  and leaves alone, a write updates, and a clock tick does not touch.  Inside it the judgement
  \<open>does (c, m) f r (c', m')\<close> runs an action symbolically on the registers (interrupt pipeline
  aside) and the memory map, and the stack disciplines of the cores are proved: pushes and pulls
  are inverse, a subroutine returns behind its call, and an interrupt handler that only returns
  leaves no trace in the registers.
\<close>

section \<open>Stack addresses\<close>

definition sp_slot :: "cpu_traits \<Rightarrow> u16 \<Rightarrow> u32" where
  "sp_slot tr sp = (if native_mode tr then ucast sp else stack_page (word_lo sp))"

definition sp_dec :: "cpu_traits \<Rightarrow> u16 \<Rightarrow> u16" where
  "sp_dec tr sp =
     (if native_mode tr then sp - 1
      else if has_65816_ops tr then set_lo sp (word_lo sp - 1)
      else ucast (word_lo (sp - 1)))"

definition sp_inc :: "cpu_traits \<Rightarrow> u16 \<Rightarrow> u16" where
  "sp_inc tr sp =
     (if native_mode tr then sp + 1
      else if has_65816_ops tr then set_lo sp (word_lo sp + 1)
      else ucast (word_lo (sp + 1)))"

text \<open>The stack pointer after a push and a pull: the 8-bit cores clear the high byte, which they have no other use for
  and which TXS sets; and after a push of a word, which keeps that byte where two pushes of a byte clear it.\<close>

definition sp_back :: "cpu_traits \<Rightarrow> u16 \<Rightarrow> u16" where
  "sp_back tr sp = (if has_65816_ops tr then sp else ucast (word_lo sp))"

definition sp_dec2 :: "cpu_traits \<Rightarrow> u16 \<Rightarrow> u16" where
  "sp_dec2 tr sp = (if native_mode tr then sp - 2 else set_lo sp (word_lo sp - 2))"

lemma sp_inc_dec: "sp_inc tr (sp_dec tr sp) = sp_back tr sp"
  by (auto simp: sp_inc_def sp_dec_def sp_back_def word_lo_add word_lo_diff word_eq_lo_hi native_mode_def)

lemma sp_back_dec [simp]: "sp_back tr (sp_dec tr sp) = sp_dec tr sp"
  by (auto simp: sp_back_def sp_dec_def native_mode_def word_eq_lo_hi)

lemma sp_dec2 [simp]:
  "sp_inc tr (sp_dec2 tr sp) = sp_dec tr sp" "sp_dec tr (sp_dec2 tr sp) = sp_dec tr (sp_dec tr (sp_dec tr sp))"
  "sp_slot tr (sp_dec2 tr sp) = sp_slot tr (sp_dec tr (sp_dec tr sp))"
  by (auto simp: sp_inc_def sp_dec_def sp_dec2_def sp_slot_def word_lo_add word_lo_diff word_eq_lo_hi native_mode_def)

lemma sp_slot_back [simp]: "sp_slot tr (sp_back tr sp) = sp_slot tr sp"
  by (auto simp: sp_slot_def sp_back_def native_mode_def)

lemma mask24: "a < 0x10000 \<Longrightarrow> a AND 0xFFFFFF = a" for a :: u32
proof -
  assume "a < 0x10000"
  then have "uint a < 2 ^ 24" by (simp add: word_less_def)
  then have "take_bit 24 a = a"
    by (simp add: word_uint_eq_iff unsigned_take_bit_eq take_bit_int_eq_self)
  moreover have "take_bit 24 a = a AND 0xFFFFFF"
    by (simp add: take_bit_eq_mask mask_eq_exp_minus_1)
  ultimately show ?thesis by simp
qed

lemma stack_page_less: "stack_page b < 0x10000"
  by (rule cycle_frame.A_stack_page [where A = "\<lambda>a. a < 0x10000" and tr = CPU6502Traits
        and I = "\<lambda>_. True"])
     (unfold_locales, auto simp: mask24 traits_ok_def CPU6502Traits_def)

lemma sp_slot_mask [simp]: "sp_slot tr sp AND 0xFFFFFF = sp_slot tr sp"
  by (rule mask24) (simp add: sp_slot_def ucast_u16_less stack_page_less)

lemma ucast_stack_page: "ucast (stack_page b) = b"
proof -
  have "ucast (UCAST_32 b) = b" if "UCAST_32 = (ucast :: u8 \<Rightarrow> u32)" for UCAST_32
    unfolding that by (rule bit_word_eqI) (auto simp: bit_simps)
  moreover have z: "(0x100 :: u8) = 0" by simp
  have "(0x100 :: u8) OR b = b" unfolding z by simp
  ultimately show ?thesis by (simp add: stack_page_def unsigned_or_eq)
qed

lemma sp_slot_lo: "sp_slot tr a = sp_slot tr b \<Longrightarrow> word_lo a = word_lo b"
proof -
  have "word_lo w = ucast (ucast w :: u32)" for w
    by (rule bit_word_eqI) (auto simp: bit_word_lo bit_simps)
  then show "sp_slot tr a = sp_slot tr b \<Longrightarrow> word_lo a = word_lo b"
    by (auto simp: sp_slot_def split: if_splits) (metis ucast_stack_page)
qed

lemma word_lo_sp_dec [simp]: "word_lo (sp_dec tr sp) = word_lo sp - 1"
  by (simp add: sp_dec_def word_lo_diff)

text \<open>The four bytes an interrupt pushes go to four different places.\<close>

lemma sp_slots_distinct:
  "sp_slot tr (sp_dec tr sp) \<noteq> sp_slot tr sp"
  "sp_slot tr (sp_dec tr (sp_dec tr sp)) \<noteq> sp_slot tr sp"
  "sp_slot tr (sp_dec tr (sp_dec tr (sp_dec tr sp))) \<noteq> sp_slot tr sp"
  by (auto dest!: sp_slot_lo simp: word_lo_diff)

lemma set_hi_0: "word_hi w = 0 \<Longrightarrow> set_hi w 0 = w"
  by (simp add: word_eq_lo_hi)

lemma narrow_index_id:
  "(flag_B c \<Longrightarrow> word_hi (reg_x c) = 0 \<and> word_hi (reg_y c) = 0) \<Longrightarrow> narrow_index c = c"
  by (simp add: narrow_index_def clear_xy_hi_def set_hi_0)

lemma get_p_pc [simp]: "get_p (c\<lparr>reg_pc := a\<rparr>) = get_p c"
  by (simp add: get_p_def)

lemma set_p_frame [simp]:
  "reg_sp (set_p p c) = reg_sp c" "reg_x (set_p p c) = reg_x c" "reg_y (set_p p c) = reg_y c"
  "set_p p (c\<lparr>reg_sp := w\<rparr>) = (set_p p c)\<lparr>reg_sp := w\<rparr>"
  "set_p p (c\<lparr>irq_pipe := b\<rparr>) = (set_p p c)\<lparr>irq_pipe := b\<rparr>"
  by (simp_all add: set_p_def)

section \<open>The frame an interrupt leaves\<close>

definition irq_mask :: "cpu_traits \<Rightarrow> cpu_state \<Rightarrow> cpu_state" where
  "irq_mask tr c = c\<lparr>flag_I := True, flag_D := (if has_65c02_ops tr \<or> has_65816_ops tr then False
     else flag_D c)\<rparr>"

definition bank0 :: "cpu_traits \<Rightarrow> cpu_state \<Rightarrow> cpu_state" where
  "bank0 tr c = (if has_65816_ops tr then c\<lparr>reg_pb := 0\<rparr> else c)"

definition irq_vector :: "cpu_traits \<Rightarrow> u16" where
  "irq_vector tr = (if native_mode tr then N_IRQ_VECTOR else IRQ_VECTOR)"

definition irq_status :: "cpu_traits \<Rightarrow> cpu_state \<Rightarrow> u8" where
  "irq_status tr c = (if native_mode tr then get_p c else (get_p c AND NOT FLAG_B) OR FLAG_UNUSED)"

text \<open>The stack pointer below the program bank, which only the native 65816 pushes; the memory
  with the interrupt frame on the stack; the registers at the first instruction of the handler.\<close>

definition irq_sp :: "cpu_traits \<Rightarrow> u16 \<Rightarrow> u16" where
  "irq_sp tr sp = (if native_mode tr then sp_dec tr sp else sp)"

definition irq_frame :: "cpu_traits \<Rightarrow> cpu_state \<Rightarrow> (u32 \<rightharpoonup> u8) \<Rightarrow> u32 \<rightharpoonup> u8" where
  "irq_frame tr c m =
     (let sp = irq_sp tr (reg_sp c);
          m0 = (if native_mode tr then m(sp_slot tr (reg_sp c) \<mapsto> reg_pb c) else m)
      in m0(sp_slot tr sp \<mapsto> word_hi (reg_pc c), sp_slot tr (sp_dec tr sp) \<mapsto> word_lo (reg_pc c),
            sp_slot tr (sp_dec tr (sp_dec tr sp)) \<mapsto> irq_status tr c))"

definition irq_entered :: "cpu_traits \<Rightarrow> cpu_state \<Rightarrow> u16 \<Rightarrow> cpu_state" where
  "irq_entered tr c a =
     (bank0 tr ((irq_mask tr (c\<lparr>reg_sp := sp_dec tr (sp_dec tr (sp_dec tr (irq_sp tr (reg_sp c))))\<rparr>))
        \<lparr>reg_pc := a\<rparr>))\<lparr>rdy := False\<rparr>"

text \<open>The registers behind the RTI: as they were, except that emulation mode does not save the program bank.\<close>

definition irq_returned :: "cpu_traits \<Rightarrow> cpu_state \<Rightarrow> cpu_state" where
  "irq_returned tr c = c\<lparr>reg_sp := sp_back tr (reg_sp c),
     reg_pb := (if has_65816_ops tr \<and> e_mode tr then 0 else reg_pb c), rdy := False\<rparr>"

lemma irq_frame_bytes [simp]:
  "native_mode tr \<Longrightarrow> irq_frame tr c m (sp_slot tr (reg_sp c)) = Some (reg_pb c)"
  "irq_frame tr c m (sp_slot tr (irq_sp tr (reg_sp c))) = Some (word_hi (reg_pc c))"
  "irq_frame tr c m (sp_slot tr (sp_dec tr (irq_sp tr (reg_sp c)))) = Some (word_lo (reg_pc c))"
  "irq_frame tr c m (sp_slot tr (sp_dec tr (sp_dec tr (irq_sp tr (reg_sp c))))) =
     Some (irq_status tr c)"
  by (simp_all add: irq_frame_def Let_def irq_sp_def sp_slots_distinct sp_slots_distinct [symmetric])

lemma irq_entered_regs [simp]:
  "reg_sp (irq_entered tr c a) = sp_dec tr (sp_dec tr (sp_dec tr (irq_sp tr (reg_sp c))))"
  "reg_x (irq_entered tr c a) = reg_x c" "reg_y (irq_entered tr c a) = reg_y c"
  "reg_pc (irq_entered tr c a) = a" "flag_B (irq_entered tr c a) = flag_B c"
  "flag_U (irq_entered tr c a) = flag_U c" "clock_stopped (irq_entered tr c a) = clock_stopped c"
  "nmi_pending (irq_entered tr c a) = nmi_pending c" "\<not> rdy (irq_entered tr c a)"
  "boundary_abort_pending (irq_entered tr c a) = boundary_abort_pending c"
  by (simp_all add: irq_entered_def bank0_def irq_mask_def)

lemma irq_entered_restore:
  "set_p (get_p c) ((irq_entered tr c a)\<lparr>reg_pc := q\<rparr>)\<lparr>reg_pc := reg_pc c, reg_sp := sp, reg_pb := b\<rparr> =
     c\<lparr>reg_sp := sp, reg_pb := b, rdy := False\<rparr>"
  "set_p (get_p c) ((irq_entered tr c a)\<lparr>reg_pc := q\<rparr>)\<lparr>reg_sp := sp, reg_pc := reg_pc c\<rparr> =
     c\<lparr>reg_sp := sp, reg_pb := if has_65816_ops tr then 0 else reg_pb c, rdy := False\<rparr>"
  by (simp_all add: irq_entered_def bank0_def irq_mask_def set_p_def bit_get_p split: if_splits)

text \<open>Without native mode B and the unused bit are not pulled: RTI keeps the current ones.\<close>

lemma irq_status_back:
  assumes "\<not> native_mode tr"
  shows "(irq_status tr c AND NOT (FLAG_B OR FLAG_UNUSED)) OR
     (get_p (irq_entered tr c a) AND (FLAG_B OR FLAG_UNUSED)) = get_p c" (is "?l = _")
proof (rule bit_word_eqI)
  fix n assume "n < LENGTH(8)"
  then have "n \<in> {0, 1, 2, 3, 4, 5, 6, 7}" by auto
  then show "bit ?l n = bit (get_p c) n"
    using assms
    by (elim insertE emptyE)
       (simp_all add: irq_status_def bit_or_iff bit_and_iff bit_not_iff FLAG_B_def FLAG_UNUSED_def
         bit_get_p)
qed

section \<open>The interface\<close>

locale ram_bus =
  fixes e :: "'m machine_ops" and mem :: "'m \<Rightarrow> u32 \<rightharpoonup> u8" and W :: "u32 set"
  assumes read_val: "mem m a = Some v \<Longrightarrow> fst (mmu_read e a m) = v"
    and read_mem: "mem m a = Some v \<Longrightarrow> mem (snd (mmu_read e a m)) = mem m"
    and vector_val: "mem m a = Some v \<Longrightarrow> fst (mmu_vp_read e a m) = v"
    and vector_mem: "mem m a = Some v \<Longrightarrow> mem (snd (mmu_vp_read e a m)) = mem m"
    and write_mem: "a \<in> W \<Longrightarrow> mem m a \<noteq> None \<Longrightarrow> mem (mmu_write e a v m) = (mem m)(a \<mapsto> v)"
    and tick_mem: "mem (clock_tick e m) = mem m"
begin

definition ram :: "(u32 \<rightharpoonup> u8) \<Rightarrow> u32 \<Rightarrow> bool" where
  "ram m a \<longleftrightarrow> a \<in> W \<and> m a \<noteq> None"

lemma ram_upd [simp]: "ram m a \<Longrightarrow> ram (m(b \<mapsto> v)) a"
  by (simp add: ram_def)

definition regs :: "'m machine \<Rightarrow> cpu_state" where
  "regs s = (cpu s)\<lparr>irq_pipe := 0\<rparr>"

definition does ::
    "cpu_state \<times> (u32 \<rightharpoonup> u8) \<Rightarrow> ('m, 'a) action \<Rightarrow> 'a \<Rightarrow> cpu_state \<times> (u32 \<rightharpoonup> u8) \<Rightarrow> bool" where
  "does x f r y \<longleftrightarrow> (\<forall>s. regs s = fst x \<and> mem (env s) = snd x \<longrightarrow>
     fst (run_state f s) = r \<and> regs (snd (run_state f s)) = fst y \<and>
     mem (env (snd (run_state f s))) = snd y)"

lemma does_bind: "does x f r y \<Longrightarrow> does y (g r) q z \<Longrightarrow> does x (f \<bind> g) q z"
  by (auto simp: does_def split: prod.splits)

lemma does_ret: "does x (ret r) r x"
  by (simp add: does_def)

lemma does_if: "does x (if b then f else g) r y"
  if "b \<Longrightarrow> does x f r y" "\<not> b \<Longrightarrow> does x g r y"
  using that by simp

lemma does_get:
  assumes "\<And>c. f (c\<lparr>irq_pipe := 0\<rparr>) = f c"
  shows "does (c, m) (cpu_get f) (f c) (c, m)"
  using assms by (auto simp: does_def regs_def)

lemma does_upd:
  assumes "\<And>c. f (c\<lparr>irq_pipe := 0\<rparr>) = (f c)\<lparr>irq_pipe := 0\<rparr>"
  shows "does (c, m) (cpu_upd f) () (f c, m)"
  using assms by (auto simp: does_def regs_def)

lemma does_tick: "does x (incr_cycles e acc) () x"
  by (auto simp: does_def incr_cycles_def regs_def tick_mem)

lemma does_read:
  "m (a AND 0xFFFFFF) = Some v \<Longrightarrow> does (c, m) (bus_read e a) v (c, m)"
  by (auto simp: does_def bus_read_def bus_read_k_def env_read_def incr_cycles_def regs_def
      tick_mem read_val read_mem)

lemma does_write:
  "ram m (a AND 0xFFFFFF) \<Longrightarrow>
     does (c, m) (bus_write e a v) () (c, m(a AND 0xFFFFFF \<mapsto> v))"
  by (auto simp: does_def bus_write_def env_write_def incr_cycles_def regs_def tick_mem write_mem ram_def)

lemma does_vector: "m a = Some v \<Longrightarrow> does (c, m) (vp_read e a) v (c, m)"
  by (auto simp: does_def vp_read_def env_read_def incr_cycles_def regs_def tick_mem
      vector_val vector_mem)

lemma does_phantom: "m a = Some v \<Longrightarrow> does (c, m) (phantom_read e a) () (c, m)"
  by (auto simp: does_def phantom_read_def env_read_def incr_cycles_def regs_def tick_mem read_mem)

lemma does_skipped: "\<not> full_phantom_reads tr \<Longrightarrow> does x (phantom_read_ign tr e a) () x"
  by (simp add: phantom_read_ign_def does_tick)

lemma does_phantom_pc:
  assumes "\<not> full_phantom_reads tr"
  shows "does (c, m) (phantom_pc tr e) () (c, m)"
  unfolding phantom_pc_def
  by (rule does_bind, rule does_get) (simp_all add: make_pc_long_def does_skipped assms)

lemma does_fetch:
  assumes "m (PC tr c) = Some v"
  shows "does (c, m) (fetch_pc tr e) v (c\<lparr>reg_pc := reg_pc c + 1\<rparr>, m)"
  using assms
  by (auto simp: does_def fetch_pc_def env_read_def incr_cycles_def regs_def tick_mem
      read_val read_mem PC_def full_pc_def)

lemma does_push_byte:
  assumes "traits_ok tr" and "ram m (sp_slot tr (reg_sp c))"
  shows "does (c, m) (push_byte tr e n) ()
    (c\<lparr>reg_sp := sp_dec tr (reg_sp c)\<rparr>, m(sp_slot tr (reg_sp c) \<mapsto> n))"
proof -
  have w: "does (c, m) (bus_write e (sp_slot tr (reg_sp c)) n) ()
      (c, m(sp_slot tr (reg_sp c) \<mapsto> n))"
    using does_write [of m "sp_slot tr (reg_sp c)" c n] assms(2) by simp
  consider "native_mode tr" | "has_65816_ops tr" "e_mode tr" | "\<not> has_65816_ops tr"
    using assms(1) by (auto simp: traits_ok_def native_mode_def)
  then show ?thesis
  proof cases
    case 1
    then show ?thesis
      using w by (auto simp: push_byte_def native_mode_def sp_slot_def sp_dec_def
          intro!: does_bind does_get does_upd)
  next
    case 2
    then show ?thesis
      using w by (auto simp: push_byte_def native_mode_def sp_slot_def sp_dec_def sp_lo_def
          set_sp_lo_def intro!: does_bind does_get does_upd)
  next
    case 3
    then show ?thesis
      using w by (auto simp: push_byte_def native_mode_def sp_slot_def sp_dec_def sp_lo_def
          intro!: does_bind does_get does_upd)
  qed
qed

lemma does_pop_byte:
  assumes "traits_ok tr" and "m (sp_slot tr (sp_inc tr (reg_sp c))) = Some v"
  shows "does (c, m) (pop_byte tr e) v (c\<lparr>reg_sp := sp_inc tr (reg_sp c)\<rparr>, m)"
proof -
  let ?c = "c\<lparr>reg_sp := sp_inc tr (reg_sp c)\<rparr>"
  have r: "does (?c, m) (bus_read e (sp_slot tr (sp_inc tr (reg_sp c)))) v (?c, m)"
    using does_read [of m "sp_slot tr (sp_inc tr (reg_sp c))" v ?c] assms(2) by simp
  consider "native_mode tr" | "has_65816_ops tr" "e_mode tr" | "\<not> has_65816_ops tr"
    using assms(1) by (auto simp: traits_ok_def native_mode_def)
  then show ?thesis
  proof cases
    case 1
    then show ?thesis
      using r by (auto simp: pop_byte_def native_mode_def sp_slot_def sp_inc_def
          intro!: does_bind does_get does_upd)
  next
    case 2
    then show ?thesis
      using r by (auto simp: pop_byte_def native_mode_def sp_slot_def sp_inc_def sp_lo_def
          set_sp_lo_def intro!: does_bind does_get does_upd)
  next
    case 3
    then show ?thesis
      using r by (auto simp: pop_byte_def native_mode_def sp_slot_def sp_inc_def sp_lo_def
          intro!: does_bind does_get does_upd)
  qed
qed

lemma does_push_word:
  assumes "traits_ok tr" and "ram m (sp_slot tr (reg_sp c))" and "ram m (sp_slot tr (sp_dec tr (reg_sp c)))"
  shows "does (c, m) (push_word tr e n) ()
    (c\<lparr>reg_sp := sp_dec2 tr (reg_sp c)\<rparr>,
     m(sp_slot tr (reg_sp c) \<mapsto> word_hi n, sp_slot tr (sp_dec tr (reg_sp c)) \<mapsto> word_lo n))"
proof -
  let ?m = "m(sp_slot tr (reg_sp c) \<mapsto> word_hi n)"
  have w: "does (c, m) (bus_write e (sp_slot tr (reg_sp c)) (word_hi n)) () (c, ?m)"
    "does (c, ?m) (bus_write e (sp_slot tr (sp_dec tr (reg_sp c))) (word_lo n)) ()
       (c, ?m(sp_slot tr (sp_dec tr (reg_sp c)) \<mapsto> word_lo n))"
    using does_write [of m "sp_slot tr (reg_sp c)" c "word_hi n"]
      does_write [of ?m "sp_slot tr (sp_dec tr (reg_sp c))" c "word_lo n"] assms(2,3) by auto
  show ?thesis
  proof (cases "native_mode tr")
    case True
    then show ?thesis
      using w by (auto simp: push_word_def native_mode_def sp_slot_def sp_dec_def sp_dec2_def
          intro!: does_bind does_get does_upd)
  next
    case False
    have lo: "word_lo (sp_dec tr (reg_sp c)) = sp_lo c - 1"
      using False by (simp add: sp_dec_def sp_lo_def word_lo_diff)
    have sp: "sp_dec2 tr (reg_sp c) = set_lo (reg_sp c) (sp_lo c - 2)"
      using False by (simp add: sp_dec2_def sp_lo_def)
    show ?thesis
      using w False
      by (auto simp: push_word_def native_mode_def sp_slot_def lo sp sp_lo_def set_sp_lo_def
          intro!: does_bind does_get does_upd)
  qed
qed

lemma does_pop_word:
  assumes "traits_ok tr" and "m (sp_slot tr (sp_inc tr (reg_sp c))) = Some l"
    and "m (sp_slot tr (sp_inc tr (sp_inc tr (reg_sp c)))) = Some h"
  shows "does (c, m) (pop_word tr e) (mk_word l h)
    (c\<lparr>reg_sp := sp_inc tr (sp_inc tr (reg_sp c))\<rparr>, m)"
  unfolding pop_word_def
  using does_pop_byte [of tr m c l] does_pop_byte [of tr m "c\<lparr>reg_sp := sp_inc tr (reg_sp c)\<rparr>" h]
    assms
  by (auto intro!: does_bind does_ret)

lemma push_pop_word:
  assumes "traits_ok tr" and "ram m (sp_slot tr (reg_sp c))" and "ram m (sp_slot tr (sp_dec tr (reg_sp c)))"
  shows "does (c, m) (push_word tr e n \<bind> (\<lambda>_. pop_word tr e)) n
    (c\<lparr>reg_sp := sp_back tr (reg_sp c)\<rparr>, m(sp_slot tr (reg_sp c) \<mapsto> word_hi n, sp_slot tr (sp_dec tr (reg_sp c)) \<mapsto> word_lo n))"
    (is "does _ _ _ (_, ?m)")
proof -
  let ?sp = "sp_dec2 tr (reg_sp c)"
  have "does (c\<lparr>reg_sp := ?sp\<rparr>, ?m) (pop_word tr e) (mk_word (word_lo n) (word_hi n))
      (c\<lparr>reg_sp := sp_back tr (reg_sp c)\<rparr>, ?m)"
    using does_pop_word [of tr ?m "c\<lparr>reg_sp := ?sp\<rparr>" "word_lo n" "word_hi n"] assms(1)
    by (simp add: sp_inc_dec sp_slots_distinct sp_slots_distinct [symmetric])
  then show ?thesis
    using does_push_word [OF assms, of n] by (auto intro: does_bind)
qed

lemma does_set_pc: "does (c, m) (set_pc a) () (c\<lparr>reg_pc := a\<rparr>, m)"
  unfolding set_pc_def by (rule does_upd) simp

lemma does_address_abs:
  assumes "m (PC tr c) = Some l" and "m (PC tr (c\<lparr>reg_pc := reg_pc c + 1\<rparr>)) = Some h"
  shows "does (c, m) (address_abs tr e) (mk_word l h) (c\<lparr>reg_pc := reg_pc c + 2\<rparr>, m)"
  unfolding address_abs_def
  using does_fetch [of m tr c l] does_fetch [of m tr "c\<lparr>reg_pc := reg_pc c + 1\<rparr>" h] assms
  by (auto simp: add.assoc intro!: does_bind does_ret)

lemma does_jsr:
  assumes "traits_ok tr" and "\<not> full_phantom_reads tr"
    and "m (PC tr c) = Some l" and "m (PC tr (c\<lparr>reg_pc := reg_pc c + 1\<rparr>)) = Some h"
    and "ram m (sp_slot tr (reg_sp c))" and "ram m (sp_slot tr (sp_dec tr (reg_sp c)))"
  shows "does (c, m) (op_jsr tr e) ()
     (c\<lparr>reg_sp := sp_dec2 tr (reg_sp c), reg_pc := mk_word l h\<rparr>,
      m(sp_slot tr (reg_sp c) \<mapsto> word_hi (reg_pc c + 1),
        sp_slot tr (sp_dec tr (reg_sp c)) \<mapsto> word_lo (reg_pc c + 1)))"
proof -
  let ?c = "c\<lparr>reg_pc := reg_pc c + 2\<rparr>"
  have push: "does (?c, m) (push_word tr e (reg_pc c + 1)) ()
     (?c\<lparr>reg_sp := sp_dec2 tr (reg_sp c)\<rparr>,
      m(sp_slot tr (reg_sp c) \<mapsto> word_hi (reg_pc c + 1),
        sp_slot tr (sp_dec tr (reg_sp c)) \<mapsto> word_lo (reg_pc c + 1)))"
    using does_push_word [of tr m ?c] assms by simp
  have get: "does (?c, m) (cpu_get (\<lambda>c. reg_pc c - 1)) (reg_pc c + 1) (?c, m)"
    using does_get [of "\<lambda>c. reg_pc c - 1" ?c m] by (simp add: add.commute)
  have last: "does (?c, m) (cpu_get (\<lambda>c. make_pc_long tr c (reg_pc c - 1)))
      (make_pc_long tr ?c (reg_pc ?c - 1)) (?c, m)"
    by (rule does_get) (simp add: make_pc_long_def)
  show ?thesis
    unfolding op_jsr_def
    using does_bind [OF push does_set_pc [of _ _ "mk_word l h"]] assms(2)
    by (auto intro!: does_bind [OF does_address_abs [OF assms(3,4)]] does_bind [OF last]
        does_bind [OF does_skipped] does_bind [OF get])
qed

lemma does_rts:
  fixes tr sp0 defines "sp \<equiv> sp_back tr sp0"
  assumes "traits_ok tr" and "\<not> full_phantom_reads tr"
    and "reg_sp c = sp_dec2 tr sp0" and "m (sp_slot tr sp0) = Some (word_hi a)"
    and "m (sp_slot tr (sp_dec tr sp0)) = Some (word_lo a)" and "m (ucast sp) \<noteq> None"
  shows "does (c, m) (op_rts tr e) () (c\<lparr>reg_sp := sp, reg_pc := a + 1\<rparr>, m)"
proof -
  have pop: "does (c, m) (pop_word tr e) a (c\<lparr>reg_sp := sp\<rparr>, m)"
    using does_pop_word [of tr m c "word_lo a" "word_hi a"] assms(2,4-6) by (simp add: sp_inc_dec sp_def)
  obtain v where v: "m (ucast sp) = Some v" using assms(7) by blast
  let ?c = "c\<lparr>reg_sp := sp, reg_pc := a\<rparr>"
  have get: "does (?c, m) (cpu_get reg_sp) sp (?c, m)"
    using does_get [of reg_sp ?c m] by simp
  have inc: "does (?c, m) (cpu_upd (\<lambda>c. c\<lparr>reg_pc := reg_pc c + 1\<rparr>)) ()
      (?c\<lparr>reg_pc := reg_pc ?c + 1\<rparr>, m)"
    by (rule does_upd) simp
  have pull: "does (c, m) (stack_pull tr e W16) a (c\<lparr>reg_sp := sp\<rparr>, m)"
    unfolding stack_pull_def
    using pop by (auto intro!: does_bind [OF does_phantom_pc [OF assms(3)]])
  have set: "does (c\<lparr>reg_sp := sp\<rparr>, m) (set_pc a) () (?c, m)"
    using does_set_pc [of "c\<lparr>reg_sp := sp\<rparr>" m a] by simp
  show ?thesis
    unfolding op_rts_def
    using inc
    by (auto intro!: does_bind [OF pull] does_bind [OF set] does_bind [OF get]
        does_bind [OF does_phantom [of m "ucast sp" v]] v)
qed

lemma execute_jsr_rts:
  "execute_opcode tr e' 0x20 = op_jsr tr e'" "execute_opcode tr e' 0x60 = op_rts tr e'"
  by (simp_all add: execute_opcode_def opcode_table_def opcode_case_defs)

text \<open>A subroutine that returns at once: the two instructions in sequence.\<close>

lemma does_call_return:
  fixes c m tr l h
  defines "a \<equiv> reg_pc c" and "sp \<equiv> reg_sp c"
  defines "m' \<equiv> m(sp_slot tr sp \<mapsto> word_hi (a + 2), sp_slot tr (sp_dec tr sp) \<mapsto> word_lo (a + 2))"
  assumes ok: "traits_ok tr" "\<not> full_phantom_reads tr"
    and prog: "m (PC tr c) = Some 0x20" "m (PC tr (c\<lparr>reg_pc := a + 1\<rparr>)) = Some l"
      "m (PC tr (c\<lparr>reg_pc := a + 2\<rparr>)) = Some h" "m' (PC tr (c\<lparr>reg_pc := mk_word l h\<rparr>)) = Some 0x60"
    and stack: "ram m (sp_slot tr sp)" "ram m (sp_slot tr (sp_dec tr sp))" "m' (ucast (sp_back tr sp)) \<noteq> None"
  shows "does (c, m) (run_instruction tr e \<bind> (\<lambda>_. run_instruction tr e)) ()
    (c\<lparr>reg_sp := sp_back tr sp, reg_pc := a + 3\<rparr>, m')"
proof -
  let ?sp = "sp_dec2 tr sp"
  let ?c1 = "c\<lparr>reg_pc := a + 1\<rparr>" and ?c2 = "c\<lparr>reg_sp := ?sp, reg_pc := mk_word l h\<rparr>"
  have PC_sp: "PC tr (c\<lparr>reg_sp := w, reg_pc := q\<rparr>) = PC tr (c\<lparr>reg_pc := q\<rparr>)" for w q
    by (simp add: PC_def full_pc_def)
  have jsr: "does (?c1, m) (op_jsr tr e) () (?c2, m')"
    using does_jsr [of tr m ?c1 l h] ok prog(2,3) stack(1,2)
    by (simp add: m'_def sp_def add.assoc)
  have rts: "does (?c2\<lparr>reg_pc := mk_word l h + 1\<rparr>, m') (op_rts tr e) () (c\<lparr>reg_sp := sp_back tr sp, reg_pc := a + 3\<rparr>, m')"
    using does_rts [where tr = tr and ?sp0.0 = sp and c = "?c2\<lparr>reg_pc := mk_word l h + 1\<rparr>" and m = m' and a = "a + 2"] ok stack(3)
    by (simp add: m'_def sp_slots_distinct sp_slots_distinct [symmetric] sp_def add.assoc)
  have call: "does (c, m) (run_instruction tr e) () (?c2, m')"
    unfolding run_instruction_def
    by (rule does_bind [OF does_fetch [of m tr c "0x20"]])
       (use prog(1) jsr in \<open>simp_all add: execute_jsr_rts a_def\<close>)
  have return: "does (?c2, m') (run_instruction tr e) () (c\<lparr>reg_sp := sp_back tr sp, reg_pc := a + 3\<rparr>, m')"
    unfolding run_instruction_def
    by (rule does_bind [OF does_fetch [of m' tr ?c2 "0x60"]])
       (use prog(4) rts in \<open>simp_all add: execute_jsr_rts PC_sp\<close>)
  show ?thesis by (rule does_bind [OF call return])
qed

text \<open>Interrupt entry and return, in emulation mode and on the 8-bit cores.\<close>

lemma does_read_vector:
  assumes "m (ucast vec) = Some l" and "m (ucast (vec + 1)) = Some h"
  shows "does (c, m) (read_word_bank0 e vec) (mk_word l h) (c, m)"
  unfolding read_word_bank0_def
  using does_vector [of m "ucast vec" l c] does_vector [of m "ucast (vec + 1)" h c] assms
  by (auto intro!: does_bind does_ret)

lemma does_mwhen:
  "(b \<Longrightarrow> does x f () y) \<Longrightarrow> (\<not> b \<Longrightarrow> y = x) \<Longrightarrow> does x (mwhen b f) () y"
  by (auto simp: mwhen_def does_ret)

lemma does_mask:
  "does (c, m) (cpu_upd (\<lambda>c. c\<lparr>flag_I := True\<rparr>) \<bind> (\<lambda>_.
     mwhen (has_65c02_ops tr \<or> has_65816_ops tr) (cpu_upd (\<lambda>c. c\<lparr>flag_D := False\<rparr>)))) ()
     (irq_mask tr c, m)"
  by (auto simp: does_def regs_def irq_mask_def mwhen_def)

lemma does_leave_irq:
  "does (c, m) (mwhen (has_65816_ops tr) (cpu_upd (\<lambda>c. c\<lparr>reg_pb := 0\<rparr>)) \<bind> (\<lambda>_.
     incr_cycles e internal_cycle \<bind> (\<lambda>_. cpu_upd (\<lambda>c. c\<lparr>rdy := False\<rparr>)))) ()
     ((bank0 tr c)\<lparr>rdy := False\<rparr>, m)"
  by (auto simp: does_def regs_def bank0_def mwhen_def incr_cycles_def tick_mem)

text \<open>The bytes an interrupt pushes, and the registers and memory after pushing a list.\<close>

lemma does_enter_interrupt:
  assumes ok: "traits_ok tr" "\<not> full_phantom_reads tr"
    and pb: "does (c, m) (mwhen (native_mode tr) (do { pb \<leftarrow> cpu_get reg_pb; push_byte tr e pb })) ()
      (c\<lparr>reg_sp := sp\<rparr>, m0)"
    and slots: "ram m0 (sp_slot tr sp)" "ram m0 (sp_slot tr (sp_dec tr sp))"
      "ram m0 (sp_slot tr (sp_dec tr (sp_dec tr sp)))"
    and m1: "m1 = m0(sp_slot tr sp \<mapsto> word_hi (reg_pc c), sp_slot tr (sp_dec tr sp) \<mapsto> word_lo (reg_pc c),
       sp_slot tr (sp_dec tr (sp_dec tr sp)) \<mapsto> irq_status tr c)"
    and lh: "m1 (ucast vec) = Some l" "m1 (ucast (vec + 1)) = Some h"
  shows "does (c, m) (enter_interrupt tr e vec) ()
    ((irq_mask tr (c\<lparr>reg_sp := sp_dec tr (sp_dec tr (sp_dec tr sp))\<rparr>))\<lparr>reg_pc := mk_word l h\<rparr>, m1)"
proof -
  let ?c1 = "c\<lparr>reg_sp := sp\<rparr>" and ?c2 = "c\<lparr>reg_sp := sp_dec2 tr sp\<rparr>"
    and ?c3 = "c\<lparr>reg_sp := sp_dec tr (sp_dec tr (sp_dec tr sp))\<rparr>"
  let ?m2 = "m0(sp_slot tr sp \<mapsto> word_hi (reg_pc c), sp_slot tr (sp_dec tr sp) \<mapsto> word_lo (reg_pc c))"
  have pc: "does (?c1, m0) (cpu_get reg_pc) (reg_pc c) (?c1, m0)"
    using does_get [of reg_pc ?c1 m0] by simp
  have word: "does (?c1, m0) (push_word tr e (reg_pc c)) () (?c2, ?m2)"
    using does_push_word [of tr m0 ?c1 "reg_pc c"] ok(1) slots by simp
  have p: "does (?c2, ?m2) (cpu_get get_p) (get_p c) (?c2, ?m2)"
    using does_get [of get_p ?c2 ?m2] by (simp add: get_p_def)
  have byte: "does (?c2, ?m2) (push_byte tr e (irq_status tr c)) () (?c3, m1)"
    using does_push_byte [of tr ?m2 ?c2 "irq_status tr c"] ok(1) slots by (simp add: m1)
  have vector: "does (irq_mask tr ?c3, m1) (read_word_bank0 e vec \<bind> set_pc) ()
      ((irq_mask tr ?c3)\<lparr>reg_pc := mk_word l h\<rparr>, m1)"
    by (rule does_bind [OF does_read_vector does_set_pc]) (rule lh)+
  have rest: "does (?c3, m1) (cpu_upd (\<lambda>c. c\<lparr>flag_I := True\<rparr>) \<bind> (\<lambda>_.
      mwhen (has_65c02_ops tr \<or> has_65816_ops tr) (cpu_upd (\<lambda>c. c\<lparr>flag_D := False\<rparr>)) \<bind>
      (\<lambda>_. read_word_bank0 e vec \<bind> set_pc))) ()
      ((irq_mask tr ?c3)\<lparr>reg_pc := mk_word l h\<rparr>, m1)"
    using does_bind [OF does_mask vector] by (simp add: State_Monad.bind_assoc)
  show ?thesis
    unfolding enter_interrupt_def
    by (rule does_bind [OF does_phantom_pc [OF ok(2)]], rule does_bind [OF pb],
        rule does_bind [OF pc], rule does_bind [OF word], rule does_bind [OF p],
        rule does_bind [OF byte [unfolded irq_status_def]], rule rest)
qed

lemma does_rti_8:
  assumes ok: "traits_ok tr" "\<not> full_phantom_reads tr" "\<not> native_mode tr"
    and sp: "reg_sp c = sp_dec tr (sp_dec tr (sp_dec tr sp))"
    and mem: "m (sp_slot tr sp) = Some (word_hi a)" "m (sp_slot tr (sp_dec tr sp)) = Some (word_lo a)"
      "m (sp_slot tr (sp_dec tr (sp_dec tr sp))) = Some p"
    and p': "p' = (p AND NOT (FLAG_B OR FLAG_UNUSED)) OR (get_p c AND (FLAG_B OR FLAG_UNUSED))"
    and x: "has_65816_ops tr \<Longrightarrow> word_hi (reg_x c) = 0 \<and> word_hi (reg_y c) = 0"
  shows "does (c, m) (op_rti tr e) () ((set_p p' c)\<lparr>reg_sp := sp_back tr sp, reg_pc := a\<rparr>, m)"
proof -
  have up: "sp_inc tr (reg_sp c) = sp_dec tr (sp_dec tr sp)"
    "sp_inc tr (sp_dec tr (sp_dec tr sp)) = sp_dec tr sp" "sp_inc tr (sp_dec tr sp) = sp_back tr sp"
    using sp by (simp_all add: sp_inc_dec)
  let ?c1 = "c\<lparr>reg_sp := sp_dec tr (sp_dec tr sp)\<rparr>"
  let ?c2 = "set_p p' ?c1"
  have old: "does (c, m) (cpu_get (\<lambda>c. get_p c AND (FLAG_B OR FLAG_UNUSED)))
      (get_p c AND (FLAG_B OR FLAG_UNUSED)) (c, m)"
    by (rule does_get) (simp add: get_p_def)
  have pop: "does (c, m) (pop_byte tr e) p (?c1, m)"
    using does_pop_byte [of tr m c p] ok(1) mem(3) by (simp add: up)
  have set: "does (?c1, m) (cpu_upd (set_p p')) () (?c2, m)"
    by (rule does_upd) simp
  have narrow: "does (?c2, m) (cpu_upd narrow_index) () (?c2, m)" if "has_65816_ops tr"
    using does_upd [of narrow_index ?c2 m] narrow_index_id [of ?c2] x [OF that]
    by (simp add: narrow_index_def clear_xy_hi_def)
  have word: "does (?c2, m) (pop_word tr e) a (?c2\<lparr>reg_sp := sp_back tr sp\<rparr>, m)"
    using does_pop_word [of tr m ?c2 "word_lo a" "word_hi a"] ok(1) mem(1,2) by (simp add: up)
  have pc: "does (?c2, m) (pop_word tr e \<bind> set_pc) () ((set_p p' c)\<lparr>reg_sp := sp_back tr sp, reg_pc := a\<rparr>, m)"
    using does_bind [OF word, of set_pc, OF does_set_pc] by simp
  have e: "e_mode tr" if "has_65816_ops tr"
    using ok(3) that by (simp add: native_mode_def)
  note head = does_bind [OF old] does_bind [OF does_phantom_pc [OF ok(2)]] does_bind [OF pop]
  show ?thesis
  proof (cases "has_65816_ops tr")
    case True
    have "op_rti tr e = do {
        oldp \<leftarrow> cpu_get (\<lambda>c. get_p c AND (FLAG_B OR FLAG_UNUSED)); phantom_pc tr e; phantom_pc tr e;
        p \<leftarrow> pop_byte tr e; cpu_upd (set_p ((p AND NOT (FLAG_B OR FLAG_UNUSED)) OR oldp));
        cpu_upd narrow_index; pop_word tr e \<bind> set_pc }"
      using True e by (simp add: op_rti_def mwhen_def)
    then show ?thesis
      using does_bind [OF set does_bind [OF narrow [OF True] pc]]
      by (auto simp: p' intro!: head)
  next
    case False
    then show ?thesis
      unfolding op_rti_def
      using does_bind [OF set pc] by (auto simp: p' intro!: head)
  qed
qed

lemma does_rti_native:
  assumes ok: "traits_ok tr" "\<not> full_phantom_reads tr" "native_mode tr"
    and sp: "reg_sp c = sp_dec tr (sp_dec tr (sp_dec tr (sp_dec tr sp)))"
    and mem: "m (sp_slot tr sp) = Some b" "m (sp_slot tr (sp_dec tr sp)) = Some (word_hi a)"
      "m (sp_slot tr (sp_dec tr (sp_dec tr sp))) = Some (word_lo a)"
      "m (sp_slot tr (sp_dec tr (sp_dec tr (sp_dec tr sp)))) = Some p"
    and x: "bit p 4 \<Longrightarrow> word_hi (reg_x c) = 0 \<and> word_hi (reg_y c) = 0"
  shows "does (c, m) (op_rti tr e) () ((set_p p c)\<lparr>reg_pc := a, reg_sp := sp, reg_pb := b\<rparr>, m)"
proof -
  have ops: "has_65816_ops tr" "\<not> e_mode tr"
    using ok(3) by (simp_all add: native_mode_def)
  have up: "sp_inc tr (sp_dec tr w) = w" for w
    using ops by (simp add: sp_inc_dec sp_back_def)
  let ?c1 = "c\<lparr>reg_sp := sp_dec tr (sp_dec tr (sp_dec tr sp))\<rparr>"
  let ?c2 = "set_p p ?c1" and ?c3 = "(set_p p c)\<lparr>reg_sp := sp_dec tr sp\<rparr>"
  have old: "does (c, m) (cpu_get (\<lambda>c. get_p c AND (FLAG_B OR FLAG_UNUSED)))
      (get_p c AND (FLAG_B OR FLAG_UNUSED)) (c, m)"
    by (rule does_get) (simp add: get_p_def)
  have pop: "does (c, m) (pop_byte tr e) p (?c1, m)"
    using does_pop_byte [of tr m c p] ok(1) mem(4) by (simp add: up sp)
  have same: "narrow_index ?c2 = ?c2"
    using narrow_index_id [of ?c2] x by (simp add: set_p_def)
  have set: "does (?c1, m) (cpu_upd (\<lambda>c. narrow_index (set_p p c))) () (?c2, m)"
    using does_upd [of "\<lambda>c. narrow_index (set_p p c)" ?c1 m] same
    by (simp add: narrow_index_def clear_xy_hi_def)
  have narrow: "does (?c2, m) (cpu_upd narrow_index) () (?c2, m)"
    using does_upd [of narrow_index ?c2 m] same by (simp add: narrow_index_def clear_xy_hi_def)
  have word: "does (?c2, m) (pop_word tr e) a (?c3, m)"
    using does_pop_word [of tr m ?c2 "word_lo a" "word_hi a"] ok(1) mem(2,3) by (simp add: up)
  have pb: "does (?c3\<lparr>reg_pc := a\<rparr>, m) (pop_byte tr e) b (?c3\<lparr>reg_pc := a, reg_sp := sp\<rparr>, m)"
    using does_pop_byte [of tr m "?c3\<lparr>reg_pc := a\<rparr>" b] ok(1) mem(1) by (simp add: up)
  have bank: "does (?c3\<lparr>reg_pc := a, reg_sp := sp\<rparr>, m) (cpu_upd (\<lambda>c. c\<lparr>reg_pb := b\<rparr>)) ()
      ((set_p p c)\<lparr>reg_pc := a, reg_sp := sp, reg_pb := b\<rparr>, m)"
    using does_upd [of "\<lambda>c. c\<lparr>reg_pb := b\<rparr>" "?c3\<lparr>reg_pc := a, reg_sp := sp\<rparr>" m] by simp
  have "op_rti tr e = do {
      oldp \<leftarrow> cpu_get (\<lambda>c. get_p c AND (FLAG_B OR FLAG_UNUSED)); phantom_pc tr e; phantom_pc tr e;
      p \<leftarrow> pop_byte tr e; cpu_upd (\<lambda>c. narrow_index (set_p p c)); cpu_upd narrow_index;
      pc \<leftarrow> pop_word tr e; set_pc pc; pb \<leftarrow> pop_byte tr e; cpu_upd (\<lambda>c. c\<lparr>reg_pb := pb\<rparr>) }"
    using ops by (simp add: op_rti_def mwhen_def)
  then show ?thesis
    using bank
    by (auto intro!: does_bind [OF old] does_bind [OF does_phantom_pc [OF ok(2)]] does_bind [OF pop]
        does_bind [OF set] does_bind [OF narrow] does_bind [OF word] does_bind [OF does_set_pc]
        does_bind [OF pb])
qed

text \<open>Room for the four bytes of an interrupt frame.\<close>

definition irq_room :: "cpu_traits \<Rightarrow> u16 \<Rightarrow> (u32 \<rightharpoonup> u8) \<Rightarrow> bool" where
  "irq_room tr sp m \<longleftrightarrow> ram m (sp_slot tr sp) \<and> ram m (sp_slot tr (sp_dec tr sp)) \<and>
     ram m (sp_slot tr (sp_dec tr (sp_dec tr sp))) \<and>
     ram m (sp_slot tr (sp_dec tr (sp_dec tr (sp_dec tr sp))))"

lemma does_service_irq:
  assumes ok: "traits_ok tr" "\<not> full_phantom_reads tr"
    and room: "irq_room tr (reg_sp c) m"
    and vec: "irq_frame tr c m (ucast (irq_vector tr)) = Some l"
      "irq_frame tr c m (ucast (irq_vector tr + 1)) = Some h"
  shows "does (c, m) (service_irq tr e) () (irq_entered tr c (mk_word l h), irq_frame tr c m)"
proof -
  let ?sp = "irq_sp tr (reg_sp c)"
  let ?m0 = "if native_mode tr then m(sp_slot tr (reg_sp c) \<mapsto> reg_pb c) else m"
  have pb: "does (c, m) (mwhen (native_mode tr) (do { pb \<leftarrow> cpu_get reg_pb; push_byte tr e pb })) ()
      (c\<lparr>reg_sp := ?sp\<rparr>, ?m0)"
    using does_push_byte [of tr m c "reg_pb c"] does_get [of reg_pb c m] ok(1) room
    by (auto simp: mwhen_def irq_sp_def irq_room_def does_ret intro: does_bind)
  have enter: "does (c, m) (enter_interrupt tr e (irq_vector tr)) ()
    ((irq_mask tr (c\<lparr>reg_sp := sp_dec tr (sp_dec tr (sp_dec tr ?sp))\<rparr>))\<lparr>reg_pc := mk_word l h\<rparr>,
     irq_frame tr c m)"
    by (rule does_enter_interrupt [where ?m1.0 = "irq_frame tr c m", OF ok pb _ _ _ _ vec]; cases "native_mode tr")
       (use room in \<open>simp_all add: irq_room_def irq_sp_def irq_frame_def Let_def\<close>)
  show ?thesis
    unfolding service_irq_def irq_entered_def irq_vector_def [symmetric]
    by (rule does_bind [OF enter does_leave_irq])
qed

text \<open>A handler that returns at once puts every register back and wakes a waiting processor.\<close>

lemma does_irq_rti:
  assumes ok: "traits_ok tr" "\<not> full_phantom_reads tr"
    and x: "has_65816_ops tr \<Longrightarrow> e_mode tr \<or> flag_X c \<Longrightarrow>
      word_hi (reg_x c) = 0 \<and> word_hi (reg_y c) = 0"
  shows "does ((irq_entered tr c a)\<lparr>reg_pc := q\<rparr>, irq_frame tr c m) (op_rti tr e) ()
    (irq_returned tr c, irq_frame tr c m)"
proof (cases "native_mode tr")
  case True
  have sp: "irq_sp tr (reg_sp c) = sp_dec tr (reg_sp c)" using True by (simp add: irq_sp_def)
  note frame = sp irq_frame_bytes [of tr c m, unfolded sp]
  show ?thesis
    using does_rti_native [OF ok True, of "(irq_entered tr c a)\<lparr>reg_pc := q\<rparr>" "reg_sp c"
      "irq_frame tr c m" "reg_pb c" "reg_pc c" "get_p c"] True x irq_entered_restore(1) [where c = c and q = q and tr = tr and a = a]
    by (simp add: frame irq_status_def bit_get_p native_mode_def irq_returned_def sp_back_def)
next
  case False
  have sp: "irq_sp tr (reg_sp c) = reg_sp c" using False by (simp add: irq_sp_def)
  note frame = sp irq_frame_bytes [of tr c m, unfolded sp]
  show ?thesis
    using does_rti_8 [OF ok False, of "(irq_entered tr c a)\<lparr>reg_pc := q\<rparr>" "reg_sp c"
      "irq_frame tr c m" "reg_pc c" "irq_status tr c" "get_p c"] False x irq_entered_restore(2) [where c = c and q = q and tr = tr and a = a]
      irq_status_back [OF False, of c a]
    by (auto simp: frame native_mode_def irq_returned_def)
qed

lemma execute_rti: "execute_opcode tr e' 0x40 = op_rti tr e'"
  by (simp add: execute_opcode_def opcode_table_def opcode_case_defs)

lemma does_run_rti:
  assumes "traits_ok tr" "\<not> full_phantom_reads tr"
    and "has_65816_ops tr \<Longrightarrow> e_mode tr \<or> flag_X c \<Longrightarrow>
      word_hi (reg_x c) = 0 \<and> word_hi (reg_y c) = 0"
    and fetch: "irq_frame tr c m (PC tr (irq_entered tr c a)) = Some 0x40"
  shows "does (irq_entered tr c a, irq_frame tr c m) (run_instruction tr e) ()
    (irq_returned tr c, irq_frame tr c m)"
  unfolding run_instruction_def
  by (rule does_bind [OF does_fetch [of "irq_frame tr c m" tr "irq_entered tr c a" "0x40"]])
     (simp_all add: fetch execute_rti does_irq_rti assms(1-3))

end

section \<open>The interrupt pipeline\<close>

text \<open>
  Every cycle shifts the request into the pipeline, and the request is recognised two cycles
  later.  Interrupt entry masks the request three cycles before it ends, so what was already in
  flight has drained past the recognition bit when the handler's first instruction starts.
\<close>

definition drained :: "nat \<Rightarrow> 'm machine \<Rightarrow> bool" where
  "drained n s \<longleftrightarrow> flag_I (cpu s) \<and> (\<forall>k<n. \<not> bit (irq_pipe (cpu s)) k)"

lemma bit_shift_in: "bit (push_bit 1 p OR of_bool b) k \<longleftrightarrow> (if k = 0 then b else k < 8 \<and> bit p (k - 1))"
  for p :: u8
  by (simp only: bit_or_iff bit_push_bit_iff bit_of_bool_iff possible_bit_word) auto

lemma drained_tick: "drained n s \<Longrightarrow> drained (Suc n) (snd (run_state (incr_cycles e acc) s))"
proof -
  assume d: "drained n s"
  then have "irq_pipe (cpu (snd (run_state (incr_cycles e acc) s))) =
      push_bit 1 (irq_pipe (cpu s)) OR of_bool False"
    by (simp add: drained_def incr_cycles_def)
  moreover have "\<forall>k<Suc n. \<not> bit (push_bit 1 (irq_pipe (cpu s)) OR of_bool False) k"
    unfolding bit_shift_in using d by (auto simp: drained_def)
  ultimately show ?thesis
    using d by (simp add: drained_def) (simp add: incr_cycles_def)
qed

lemma drained_2: "drained 2 s \<Longrightarrow> irq_pipe (cpu s) AND 0x02 = 0"
  using and_exp_eq_0_iff_not_bit [of "irq_pipe (cpu s)" 1] by (simp add: drained_def)

lemma drained_upd: "(\<And>c. flag_I (f c) = flag_I c \<and> irq_pipe (f c) = irq_pipe c) \<Longrightarrow>
    keeps (drained n) (cpu_upd f)"
  by (simp add: safe_def drained_def)

lemma drained_vp_read: "leads (drained n) (vp_read e a) (drained (Suc n))"
proof -
  have "keeps (drained n) (env_read g a)" for g :: "u32 \<Rightarrow> 'a \<Rightarrow> u8 \<times> 'a"
    by (simp add: safe_def env_read_def drained_def)
  moreover have "leads (drained n) (incr_cycles e acc) (drained (Suc n))" for acc
    by (simp add: leads_def drained_tick)
  ultimately show ?thesis
    unfolding vp_read_def
    by (rule leads_after [OF _ leads_bind]) (simp add: leads_def)
qed

lemma enter_interrupt_drains: "leads (\<lambda>_. True) (enter_interrupt tr e v) (drained 2)"
proof -
  have mask: "leads (\<lambda>_. True) (cpu_upd (\<lambda>c. c\<lparr>flag_I := True\<rparr>)) (drained 0)"
    by (simp add: leads_def drained_def)
  have decimal: "keeps (drained 0) (mwhen b (cpu_upd (\<lambda>c. c\<lparr>flag_D := False\<rparr>)))" for b
    by (intro safe_mwhen drained_upd) simp_all
  have vector: "leads (drained 0) (read_word_bank0 e v) (drained 2)"
    unfolding read_word_bank0_def numeral_2_eq_2
    by (intro leads_bind [OF drained_vp_read]) (simp add: leads_def)
  have pc: "leads (drained 2) (set_pc a) (drained 2)" for a
    unfolding set_pc_def keeps_leads [symmetric] by (rule drained_upd) simp
  show ?thesis
    unfolding enter_interrupt_def
    by (intro leads_after [where P = "\<lambda>_. True"] leads_bind [OF mask] leads_after [OF decimal]
          leads_bind [OF vector] pc) (simp_all add: safe_def)
qed

lemma service_irq_drains: "leads (\<lambda>_. True) (service_irq tr e) (drained 2)"
proof -
  have bank: "keeps (drained 2) (mwhen b (cpu_upd (\<lambda>c. c\<lparr>reg_pb := 0\<rparr>)))" for b
    by (intro safe_mwhen drained_upd) simp_all
  have tick: "leads (drained 2) (incr_cycles e acc) (drained 2)" for acc
    using drained_tick by (fastforce simp: leads_def drained_def)
  show ?thesis
    unfolding service_irq_def
    by (intro leads_bind [OF enter_interrupt_drains] leads_after [OF bank] leads_bind [OF tick])
       (simp add: leads_def drained_def)
qed

section \<open>An interrupt and its return\<close>

lemma execute_next_takes_irq:
  assumes "\<not> clock_stopped (cpu s)" and "\<not> reset_line e (env s)"
    and "\<not> nmi_pending (cpu s)" and "\<not> boundary_abort_pending (cpu s)"
    and "irq_pipe (cpu s) AND 0x02 \<noteq> 0"
  shows "run_state (execute_next tr e) s = run_state (service_irq tr e) s"
  using assms by (simp add: execute_next_def)

lemma execute_next_runs:
  assumes "\<not> clock_stopped (cpu s)" and "\<not> reset_line e (env s)"
    and "\<not> nmi_pending (cpu s)" and "\<not> boundary_abort_pending (cpu s)"
    and "irq_pipe (cpu s) AND 0x02 = 0" and "\<not> rdy (cpu s)"
  shows "run_state (execute_next tr e) s = run_state (run_instruction tr e) s"
  using assms by (simp add: execute_next_def mwhen_def)

context ram_bus
begin

lemma doesD:
  assumes "does (c, m) f r (c', m')" and "regs s = c" and "mem (env s) = m"
  shows "regs (snd (run_state f s)) = c'" and "mem (env (snd (run_state f s))) = m'"
  using assms by (auto simp: does_def)

lemma regs_pipe: "cpu s = (regs s)\<lparr>irq_pipe := irq_pipe (cpu s)\<rparr>"
  by (simp add: regs_def)

lemma does_run:
  assumes "does (c\<lparr>irq_pipe := 0\<rparr>, m) f r (c'\<lparr>irq_pipe := 0\<rparr>, m')" and "cpu s = c" and "mem (env s) = m"
  shows "\<exists>s' pipe. run_state f s = (r, s') \<and> cpu s' = c'\<lparr>irq_pipe := pipe\<rparr> \<and> mem (env s') = m'"
proof -
  obtain q s' where run: "run_state f s = (q, s')" by (cases "run_state f s")
  have "regs s = c\<lparr>irq_pipe := 0\<rparr>" using assms(2) by (simp add: regs_def)
  then have "q = r \<and> regs s' = c'\<lparr>irq_pipe := 0\<rparr> \<and> mem (env s') = m'"
    using assms(1,3) run by (auto simp: does_def dest!: spec [of _ s])
  moreover then have "cpu s' = c'\<lparr>irq_pipe := irq_pipe (cpu s')\<rparr>"
    by (subst regs_pipe) simp
  ultimately show ?thesis using run by auto
qed

lemma regs_simps [simp]:
  "clock_stopped (regs s) = clock_stopped (cpu s)" "nmi_pending (regs s) = nmi_pending (cpu s)"
  "boundary_abort_pending (regs s) = boundary_abort_pending (cpu s)" "rdy (regs s) = rdy (cpu s)"
  by (simp_all add: regs_def)

lemma irq_and_return:
  fixes s tr defines "c \<equiv> regs s" and "m \<equiv> mem (env s)"
    and "s1 \<equiv> snd (run_state (execute_next tr e) s)"
  assumes ok: "traits_ok tr" "\<not> full_phantom_reads tr"
    and run: "\<not> clock_stopped c" "\<not> reset_line e (env s)" "\<not> reset_line e (env s1)"
      "\<not> nmi_pending c" "\<not> boundary_abort_pending c" "irq_pipe (cpu s) AND 0x02 \<noteq> 0"
    and mode: "has_65816_ops tr \<Longrightarrow> e_mode tr \<or> flag_X c \<Longrightarrow> word_hi (reg_x c) = 0 \<and> word_hi (reg_y c) = 0"
    and room: "irq_room tr (reg_sp c) m"
    and vec: "irq_frame tr c m (ucast (irq_vector tr)) = Some l"
      "irq_frame tr c m (ucast (irq_vector tr + 1)) = Some h"
    and rti: "irq_frame tr c m (PC tr (irq_entered tr c (mk_word l h))) = Some 0x40"
  shows "regs (snd (run_state (execute_next tr e) s1)) = irq_returned tr c \<and>
    mem (env (snd (run_state (execute_next tr e) s1))) = irq_frame tr c m"
proof -
  let ?c1 = "irq_entered tr c (mk_word l h)"
  have s1: "s1 = snd (run_state (service_irq tr e) s)"
    using run unfolding s1_def c_def by (simp add: execute_next_takes_irq)
  note entered = doesD [OF does_service_irq [OF ok room vec], of s]
  have c1: "regs s1 = ?c1" and m1: "mem (env s1) = irq_frame tr c m"
    using entered by (simp_all add: s1 c_def m_def)
  have "drained 2 s1" unfolding s1 by (rule leadsD [OF service_irq_drains TrueI])
  moreover have "\<not> clock_stopped (cpu s1)" "\<not> nmi_pending (cpu s1)"
      "\<not> boundary_abort_pending (cpu s1)" "\<not> rdy (cpu s1)"
    using run regs_simps [of s1] by (simp_all add: c1)
  ultimately have "run_state (execute_next tr e) s1 = run_state (run_instruction tr e) s1"
    using run(3) by (intro execute_next_runs drained_2)
  then show ?thesis
    using doesD [OF does_run_rti [OF ok mode rti] c1 m1] by simp
qed

end

end
