(* ===== verification/Alu_Correct.thy ===== *)
theory Alu_Correct
  imports Cpu_Core
begin

text \<open>
  What the arithmetic of the core computes.  Binary addition and subtraction are the integer
  operations, with C the carry out (or the absence of a borrow), V the signed overflow, N the
  sign and Z the zero test, at both widths; comparisons order unsigned values; a rotation through
  the carry is undone by the opposite one.  The bit tests the code writes as masks are first read as comparisons.
\<close>

named_theorems mask_simps "mask tests of the code as comparisons"

section \<open>Mask tests as comparisons\<close>

lemma int_bit_top:
  fixes k :: int
  assumes "0 \<le> k" and "k < 2 * 2 ^ n"
  shows "bit k n \<longleftrightarrow> 2 ^ n \<le> k"
proof (cases "2 ^ n \<le> k")
  case True
  then have "k div 2 ^ n = 1" using assms by (intro int_div_pos_eq [of _ _ _ "k - 2 ^ n"]) auto
  with True show ?thesis by (simp add: bit_iff_odd)
next
  case False
  then have "k div 2 ^ n = 0" using assms by (simp add: div_pos_pos_trivial)
  with False show ?thesis by (simp add: bit_iff_odd)
qed

lemma bit_7: "bit w 7 \<longleftrightarrow> 128 \<le> uint w" for w :: u8
  using int_bit_top [of "uint w" 7] uint_bounded [of w] by (simp add: bit_uint_iff)

lemma bit_15: "bit w 15 \<longleftrightarrow> 32768 \<le> uint w" for w :: u16
  using int_bit_top [of "uint w" 15] uint_bounded [of w] by (simp add: bit_uint_iff)

lemma and_8: "w AND 0x80 = 0 \<longleftrightarrow> \<not> bit w 7" for w :: "'a::len word"
  using and_exp_eq_0_iff_not_bit [of w 7] by simp

lemma and_16: "w AND 0x8000 = 0 \<longleftrightarrow> \<not> bit w 15" for w :: "'a::len word"
  using and_exp_eq_0_iff_not_bit [of w 15] by simp

lemma sign_mask [mask_simps]:
  "a AND 0x80 = 0 \<longleftrightarrow> \<not> 128 \<le> uint a" "c AND 0x8000 = 0 \<longleftrightarrow> \<not> 32768 \<le> uint c"
  for a :: u8 and c :: u16
  by (simp_all add: and_8 and_16 bit_7 bit_15)

lemma sign_xor [mask_simps]:
  "128 \<le> uint (a XOR b) \<longleftrightarrow> (128 \<le> uint a) \<noteq> (128 \<le> uint b)"
  "32768 \<le> uint (c XOR d) \<longleftrightarrow> (32768 \<le> uint c) \<noteq> (32768 \<le> uint d)"
  for a b :: u8 and c d :: u16
  by (simp_all add: bit_7 [symmetric] bit_15 [symmetric] bit_xor_iff)

lemma sint_8: "sint w = (if 128 \<le> uint w then uint w - 256 else uint w)" for w :: u8
  using bit_7 [of w] uint_bounded [of w]
  by (simp add: sint_uint signed_take_bit_eq_take_bit_minus bit_uint_iff take_bit_int_eq_self)

lemma sint_16: "sint w = (if 32768 \<le> uint w then uint w - 65536 else uint w)" for w :: u16
  using bit_15 [of w] uint_bounded [of w]
  by (simp add: sint_uint signed_take_bit_eq_take_bit_minus bit_uint_iff take_bit_int_eq_self)

section \<open>Sums with carry\<close>

text \<open>The carry and overflow rules on integers; \<open>M\<close> is half the range.\<close>

definition signed :: "int \<Rightarrow> int \<Rightarrow> int" where
  "signed M x = (if M \<le> x then x - 2 * M else x)"

lemma sum_mod:
  fixes a b c M :: int
  assumes "0 \<le> a" "a < 2 * M" "0 \<le> b" "b < 2 * M" "0 \<le> c" "c \<le> 1"
  shows "(a + b + c) mod (2 * M) = a + b + c - (if 2 * M \<le> a + b + c then 2 * M else 0)"
proof (cases "2 * M \<le> a + b + c")
  case True
  have "(a + b + c - 2 * M) mod (2 * M) = a + b + c - 2 * M"
    using True assms by (intro mod_pos_pos_trivial) auto
  with True show ?thesis by simp
next
  case False
  then show ?thesis using assms by (simp add: mod_pos_pos_trivial)
qed

lemma sum_overflow:
  fixes a b c M :: int
  assumes "0 \<le> a" "a < 2 * M" "0 \<le> b" "b < 2 * M" "0 \<le> c" "c \<le> 1"
    and s: "s = (a + b + c) mod (2 * M)"
  shows "((M \<le> a) = (M \<le> b) \<and> (M \<le> a) \<noteq> (M \<le> s)) \<longleftrightarrow>
    signed M a + signed M b + c < - M \<or> M \<le> signed M a + signed M b + c"
  using assms(1-6) unfolding s sum_mod [OF assms(1-6)] by (auto simp: signed_def)

lemma carry_8: "(S AND 0x100 \<noteq> 0) \<longleftrightarrow> 256 \<le> uint S" if "uint S < 512" for S :: u32
  using and_exp_eq_0_iff_not_bit [of S 8] int_bit_top [of "uint S" 8] that
  by (simp add: bit_uint_iff)

lemma carry_16: "(S AND 0x10000 \<noteq> 0) \<longleftrightarrow> 65536 \<le> uint S" if "uint S < 131072" for S :: u32
  using and_exp_eq_0_iff_not_bit [of S 16] int_bit_top [of "uint S" 16] that
  by (simp add: bit_uint_iff)

lemma uint_sum_8: "uint (ucast m + ucast n + of_bool b :: u32) = uint m + uint n + of_bool b"
  for m n :: u8
  using uint_bounded [of m] uint_bounded [of n]
  by (simp add: uint_word_ariths unsigned_ucast_eq take_bit_eq_mod mod_pos_pos_trivial)

lemma uint_sum_16: "uint (ucast m + ucast n + of_bool b :: u32) = uint m + uint n + of_bool b"
  for m n :: u16
  using uint_bounded [of m] uint_bounded [of n]
  by (simp add: uint_word_ariths unsigned_ucast_eq take_bit_eq_mod mod_pos_pos_trivial)

text \<open>What an addition leaves in the accumulator and the flags, at half range \<open>M\<close>.\<close>

definition added :: "int \<Rightarrow> int \<Rightarrow> int \<Rightarrow> bool \<Rightarrow> int \<Rightarrow> cpu_state \<Rightarrow> bool" where
  "added M a n cy r c \<longleftrightarrow>
     0 \<le> r \<and> r < 2 * M \<and> r + 2 * M * of_bool (flag_C c) = a + n + of_bool cy \<and>
     (flag_V c \<longleftrightarrow> signed M a + signed M n + of_bool cy < - M \<or>
                  M \<le> signed M a + signed M n + of_bool cy) \<and>
     (flag_N c \<longleftrightarrow> M \<le> r) \<and> (flag_Z c \<longleftrightarrow> r = 0)"

lemma added_sum:
  fixes a n M :: int and c :: cpu_state
  assumes "0 \<le> a" "a < 2 * M" "0 \<le> n" "n < 2 * M" and r: "r = (a + n + of_bool cy) mod (2 * M)"
    and "flag_C c \<longleftrightarrow> 2 * M \<le> a + n + of_bool cy"
    and "flag_V c \<longleftrightarrow> (M \<le> a) = (M \<le> n) \<and> (M \<le> a) \<noteq> (M \<le> r)"
    and "flag_N c \<longleftrightarrow> M \<le> r" and "flag_Z c \<longleftrightarrow> r = 0"
  shows "added M a n cy r c"
proof -
  have c: "(0::int) \<le> of_bool cy" "of_bool cy \<le> (1::int)" by simp_all
  note sum = sum_mod [OF assms(1-4) c] and overflow = sum_overflow [OF assms(1-4) c r]
  show ?thesis
    using assms(6-) overflow assms(1-4) unfolding added_def by (auto simp: r sum)
qed

lemma uint_ucast_8: "uint (ucast (S :: u32) :: u8) = uint S mod 256"
  and uint_ucast_16: "uint (ucast (S :: u32) :: u16) = uint S mod 65536"
  by (simp_all add: unsigned_ucast_eq take_bit_eq_mod)

lemma u8_range: "0 \<le> uint w" "uint w < 256" for w :: u8
  using uint_bounded [of w] by simp_all

lemma u16_range: "0 \<le> uint w" "uint w < 65536" for w :: u16
  using uint_bounded [of w] by simp_all

lemma uint_ucast_up: "uint (ucast b :: u16) = uint b" for b :: u8
  by (simp add: uint_up_ucast is_up)

lemma and_low_8: "(ucast r AND 0x80 = (0 :: u16)) \<longleftrightarrow> \<not> 128 \<le> uint r" for r :: u8
  by (simp add: and_8 bit_simps bit_7)

lemma ucast_0_iff: "(ucast r = (0 :: u16)) \<longleftrightarrow> r = 0" for r :: u8
  by (metis word_lo_0 word_lo_ucast unsigned_0)

lemma add_binary_8_added:
  "added 128 (uint (word_lo (reg_a c))) (uint n) (flag_C c)
     (uint (word_lo (reg_a (add_binary_8 n c)))) (add_binary_8 n c)"
  (is "added _ ?a ?n _ _ ?c")
proof (rule added_sum)
  let ?S = "ucast (word_lo (reg_a c)) + ucast n + of_bool (flag_C c) :: u32"
  have S: "uint ?S = ?a + ?n + of_bool (flag_C c)" by (rule uint_sum_8)
  have less: "uint ?S < 512"
    unfolding S using u8_range(2) [of "word_lo (reg_a c)"] u8_range(2) [of n] by (simp add: of_bool_def)
  show r: "uint (word_lo (reg_a ?c)) = (?a + ?n + of_bool (flag_C c)) mod (2 * 128)"
    by (simp add: add_binary_8_def Let_def set_n_z_flags_def uint_ucast_8 S)
  show "flag_C ?c \<longleftrightarrow> 2 * 128 \<le> ?a + ?n + of_bool (flag_C c)"
    using carry_8 [OF less] by (simp add: add_binary_8_def Let_def set_n_z_flags_def S)
  show "flag_V ?c \<longleftrightarrow> (128 \<le> ?a) = (128 \<le> ?n) \<and> (128 \<le> ?a) \<noteq> (128 \<le> uint (word_lo (reg_a ?c)))"
    by (simp add: add_binary_8_def Let_def set_n_z_flags_def mask_simps)
  show "flag_N ?c \<longleftrightarrow> 128 \<le> uint (word_lo (reg_a ?c))"
    by (simp add: add_binary_8_def Let_def set_n_z_flags_def and_low_8)
  show "flag_Z ?c \<longleftrightarrow> uint (word_lo (reg_a ?c)) = 0"
    by (simp add: add_binary_8_def Let_def set_n_z_flags_def ucast_0_iff uint_0_iff)
qed (use u8_range in simp_all)

lemma add_binary_16_added:
  assumes "m_16 tr"
  shows "added 32768 (uint (reg_a c)) (uint n) (flag_C c)
     (uint (reg_a (add_binary_16 tr n c))) (add_binary_16 tr n c)"
  (is "added _ ?a ?n _ _ ?c")
proof (rule added_sum)
  let ?S = "ucast (reg_a c) + ucast n + of_bool (flag_C c) :: u32"
  have S: "uint ?S = ?a + ?n + of_bool (flag_C c)" by (rule uint_sum_16)
  have less: "uint ?S < 131072"
    unfolding S using u16_range(2) [of "reg_a c"] u16_range(2) [of n] by (simp add: of_bool_def)
  note defs = add_binary_16_def Let_def set_n_z_flags_def get_A_def set_A_def assms
  show r: "uint (reg_a ?c) = (?a + ?n + of_bool (flag_C c)) mod (2 * 32768)"
    by (simp add: defs uint_ucast_16 S)
  show "flag_C ?c \<longleftrightarrow> 2 * 32768 \<le> ?a + ?n + of_bool (flag_C c)"
    using carry_16 [OF less] by (simp add: defs S)
  show "flag_V ?c \<longleftrightarrow> (32768 \<le> ?a) = (32768 \<le> ?n) \<and> (32768 \<le> ?a) \<noteq> (32768 \<le> uint (reg_a ?c))"
    by (simp add: defs mask_simps)
  show "flag_N ?c \<longleftrightarrow> 32768 \<le> uint (reg_a ?c)"
    by (simp add: defs mask_simps)
  show "flag_Z ?c \<longleftrightarrow> uint (reg_a ?c) = 0"
    by (simp add: defs uint_0_iff)
qed (use u16_range in simp_all)

section \<open>Differences with borrow\<close>

definition subtracted :: "int \<Rightarrow> int \<Rightarrow> int \<Rightarrow> bool \<Rightarrow> int \<Rightarrow> cpu_state \<Rightarrow> bool" where
  "subtracted M a n cy r c \<longleftrightarrow>
     0 \<le> r \<and> r < 2 * M \<and> r - 2 * M * of_bool (\<not> flag_C c) = a - n - of_bool (\<not> cy) \<and>
     (flag_V c \<longleftrightarrow> signed M a - signed M n - of_bool (\<not> cy) < - M \<or>
                  M \<le> signed M a - signed M n - of_bool (\<not> cy)) \<and>
     (flag_N c \<longleftrightarrow> M \<le> r) \<and> (flag_Z c \<longleftrightarrow> r = 0)"

lemma subtracted_added:
  assumes "added M a (2 * M - 1 - n) cy r c" and "0 \<le> n" and "n < 2 * M"
  shows "subtracted M a n cy r c"
  using assms by (auto simp: added_def subtracted_def signed_def)

lemma uint_complement: "uint (n XOR 0xFF) = 255 - uint n" "uint (m XOR 0xFFFF) = 65535 - uint m"
  for n :: u8 and m :: u16
proof -
  have ones: "(0xFF :: u8) = - 1" "(0xFFFF :: u16) = - 1" by simp_all
  have "n XOR 0xFF = - 1 - n" "m XOR 0xFFFF = - 1 - m"
    unfolding ones bit.xor_one_right not_eq_complement by simp_all
  then show "uint (n XOR 0xFF) = 255 - uint n" "uint (m XOR 0xFFFF) = 65535 - uint m"
    using mod_pos_pos_trivial [of "255 - uint n" 256] mod_pos_pos_trivial [of "65535 - uint m" 65536]
      u8_range [of n] u16_range [of m]
    by (simp_all add: uint_word_ariths del: mod_pos_pos_trivial)
qed

lemma sub_is_add: "sub_binary_8 n = add_binary_8 (n XOR 0xFF)"
  "sub_binary_16 tr m = add_binary_16 tr (m XOR 0xFFFF)"
  by (auto simp: fun_eq_iff sub_binary_8_def add_binary_8_def sub_binary_16_def add_binary_16_def
      set_n_z_flags_def set_A_def Let_def intro!: cpu_state.equality)

lemma sub_binary_8_subtracted:
  "subtracted 128 (uint (word_lo (reg_a c))) (uint n) (flag_C c)
     (uint (word_lo (reg_a (sub_binary_8 n c)))) (sub_binary_8 n c)"
  using add_binary_8_added [of c "n XOR 0xFF"] u8_range [of n]
  by (intro subtracted_added) (simp_all add: sub_is_add uint_complement)

lemma sub_binary_16_subtracted:
  assumes "m_16 tr"
  shows "subtracted 32768 (uint (reg_a c)) (uint n) (flag_C c)
     (uint (reg_a (sub_binary_16 tr n c))) (sub_binary_16 tr n c)"
  using add_binary_16_added [OF assms, of c "n XOR 0xFFFF"] u16_range [of n]
  by (intro subtracted_added) (simp_all add: sub_is_add uint_complement)

lemma diff_mod_0:
  fixes a b K :: int
  assumes "0 \<le> a" "a < K" "0 \<le> b" "b < K"
  shows "(a - b) mod K = 0 \<longleftrightarrow> a = b"
proof -
  have "(a - b) mod K = 0 \<longleftrightarrow> a mod K = b mod K"
    by (simp add: mod_eq_dvd_iff dvd_eq_mod_eq_0)
  with assms show ?thesis by (simp add: mod_pos_pos_trivial)
qed

lemma compare_8_flags:
  "flag_C (compare_8 m n c) \<longleftrightarrow> uint n \<le> uint m" "flag_Z (compare_8 m n c) \<longleftrightarrow> m = n"
  "flag_N (compare_8 m n c) \<longleftrightarrow> 128 \<le> (uint m - uint n) mod 256"
proof -
  let ?S = "ucast m + ucast (n XOR 0xFF) + 1 :: u32"
  have S: "uint ?S = uint m + (255 - uint n) + 1"
    using uint_sum_8 [of m "n XOR 0xFF" True] by (simp add: uint_complement)
  have less: "uint ?S < 512" unfolding S using u8_range [of m] u8_range [of n] by linarith
  have r: "uint (ucast ?S :: u8) = (uint m - uint n) mod 256"
    unfolding uint_ucast_8 S using mod_add_self2 [of "uint m - uint n" 256] by (simp add: algebra_simps)
  show "flag_C (compare_8 m n c) \<longleftrightarrow> uint n \<le> uint m"
    using carry_8 [OF less] by (simp add: compare_8_def Let_def set_n_z_flags_def S)
  have "(uint m - uint n) mod 256 = 0 \<longleftrightarrow> m = n"
    unfolding word_uint_eq_iff by (rule diff_mod_0) (rule u8_range)+
  then show "flag_Z (compare_8 m n c) \<longleftrightarrow> m = n"
    by (simp add: compare_8_def Let_def set_n_z_flags_def uint_ucast_up uint_0_iff [symmetric] r)
  show "flag_N (compare_8 m n c) \<longleftrightarrow> 128 \<le> (uint m - uint n) mod 256"
    by (simp add: compare_8_def Let_def set_n_z_flags_def and_low_8 r)
qed

lemma compare_16_flags:
  "flag_C (compare_16 m n c) \<longleftrightarrow> uint n \<le> uint m" "flag_Z (compare_16 m n c) \<longleftrightarrow> m = n"
  "flag_N (compare_16 m n c) \<longleftrightarrow> 32768 \<le> (uint m - uint n) mod 65536"
proof -
  let ?S = "ucast m + ucast (n XOR 0xFFFF) + 1 :: u32"
  have S: "uint ?S = uint m + (65535 - uint n) + 1"
    using uint_sum_16 [of m "n XOR 0xFFFF" True] by (simp add: uint_complement)
  have less: "uint ?S < 131072" unfolding S using u16_range [of m] u16_range [of n] by linarith
  have r: "uint (ucast ?S :: u16) = (uint m - uint n) mod 65536"
    unfolding uint_ucast_16 S
    using mod_add_self2 [of "uint m - uint n" 65536] by (simp add: algebra_simps)
  show "flag_C (compare_16 m n c) \<longleftrightarrow> uint n \<le> uint m"
    using carry_16 [OF less] by (simp add: compare_16_def Let_def set_n_z_flags_def S)
  have "(uint m - uint n) mod 65536 = 0 \<longleftrightarrow> m = n"
    unfolding word_uint_eq_iff by (rule diff_mod_0) (rule u16_range)+
  then show "flag_Z (compare_16 m n c) \<longleftrightarrow> m = n"
    by (simp add: compare_16_def Let_def set_n_z_flags_def uint_0_iff [symmetric] r)
  show "flag_N (compare_16 m n c) \<longleftrightarrow> 32768 \<le> (uint m - uint n) mod 65536"
    by (simp add: compare_16_def Let_def set_n_z_flags_def mask_simps r)
qed

section \<open>The instructions\<close>

definition half :: "cpu_traits \<Rightarrow> int" where
  "half tr = (if m_16 tr then 32768 else 128)"

definition acc :: "cpu_traits \<Rightarrow> cpu_state \<Rightarrow> int" where
  "acc tr c = uint (get_A tr c)"

definition operand :: "cpu_traits \<Rightarrow> u16 \<Rightarrow> int" where
  "operand tr n = (if m_16 tr then uint n else uint (word_lo n))"

text \<open>
  C22.  Binary ADC is integer addition.  With D clear, on a core of either accumulator width,
  \<^verbatim>\<open>add_and_set_flags\<close> leaves the sum with carry in the accumulator modulo the width, the
  carry out in C, the signed overflow of the two operands and the carry in V, the sign of the
  result in N and whether it is zero in Z; an 8-bit addition leaves the high accumulator byte.
\<close>

theorem adc_binary_correct:
  assumes "\<not> flag_D (cpu s)"
  shows "case run_state (add_and_set_flags tr e n) s of (_, s') \<Rightarrow>
     added (half tr) (acc tr (cpu s)) (operand tr n) (flag_C (cpu s)) (acc tr (cpu s')) (cpu s') \<and>
     (\<not> m_16 tr \<longrightarrow> word_hi (reg_a (cpu s')) = word_hi (reg_a (cpu s)))"
proof (cases "m_16 tr")
  case True
  then show ?thesis
    using assms add_binary_16_added [OF True, of "cpu s" n]
    by (simp add: add_and_set_flags_def add_and_set_flags_16_def half_def acc_def operand_def get_A_def)
next
  case False
  then show ?thesis
    using assms add_binary_8_added [of "cpu s" "word_lo n"]
    by (simp add: add_and_set_flags_def add_and_set_flags_8_def half_def acc_def operand_def get_A_def
        uint_ucast_up) (simp add: add_binary_8_def Let_def set_n_z_flags_def)
qed

text \<open>
  C23.  Binary SBC is integer subtraction with borrow: the difference in the accumulator modulo
  the width, C clear exactly when a borrow was needed, V the signed overflow, N and Z those of the
  result.
\<close>

theorem sbc_binary_correct:
  assumes "\<not> flag_D (cpu s)"
  shows "case run_state (subtract_and_set_flags tr e n) s of (_, s') \<Rightarrow>
     subtracted (half tr) (acc tr (cpu s)) (operand tr n) (flag_C (cpu s)) (acc tr (cpu s')) (cpu s') \<and>
     (\<not> m_16 tr \<longrightarrow> word_hi (reg_a (cpu s')) = word_hi (reg_a (cpu s)))"
proof (cases "m_16 tr")
  case True
  then show ?thesis
    using assms sub_binary_16_subtracted [OF True, of "cpu s" n]
    by (simp add: subtract_and_set_flags_def subtract_and_set_flags_16_def half_def acc_def
        operand_def get_A_def)
next
  case False
  then show ?thesis
    using assms sub_binary_8_subtracted [of "cpu s" "word_lo n"]
    by (simp add: subtract_and_set_flags_def subtract_and_set_flags_8_def half_def acc_def
        operand_def get_A_def uint_ucast_up)
       (simp add: sub_is_add add_binary_8_def Let_def set_n_z_flags_def)
qed

text \<open>
  A comparison orders unsigned values at its width: C is set exactly when the register is at
  least the operand, Z exactly when they are equal, and N is the sign of the wrapped difference;
  no other flag and no register changes.
\<close>

lemma compare_correct:
  "flag_C (compare_and_set_flags W8 m n c) = (uint (word_lo n) \<le> uint (word_lo m)) \<and>
   flag_Z (compare_and_set_flags W8 m n c) = (word_lo m = word_lo n) \<and>
   flag_N (compare_and_set_flags W8 m n c) = (128 \<le> (uint (word_lo m) - uint (word_lo n)) mod 256) \<and>
   flag_C (compare_and_set_flags W16 m n c) = (uint n \<le> uint m) \<and>
   flag_Z (compare_and_set_flags W16 m n c) = (m = n) \<and>
   flag_N (compare_and_set_flags W16 m n c) = (32768 \<le> (uint m - uint n) mod 65536) \<and>
   (compare_and_set_flags w m n c)\<lparr>flag_C := cy, flag_Z := z, flag_N := s\<rparr> =
     c\<lparr>flag_C := cy, flag_Z := z, flag_N := s\<rparr>"
  by (cases w)
     (auto simp: compare_and_set_flags_def compare_8_flags compare_16_flags,
      simp_all add: compare_8_def compare_16_def Let_def set_n_z_flags_def)

section \<open>Shifts and rotations\<close>

lemma and_1: "n AND 1 \<noteq> 0 \<longleftrightarrow> bit n 0" for n :: u16
  using and_exp_eq_0_iff_not_bit [of n 0] by simp

definition width_bits :: "width \<Rightarrow> nat" where
  "width_bits w = (case w of W8 \<Rightarrow> 8 | W16 \<Rightarrow> 16)"

lemma bit_wtrunc: "bit (wtrunc w n) k \<longleftrightarrow> k < width_bits w \<and> bit n k"
proof (cases w)
  case W8
  have "n AND 0xFF = take_bit 8 n" by (simp add: take_bit_eq_mask mask_eq_exp_minus_1)
  with W8 show ?thesis by (simp add: wtrunc_def width_bits_def bit_take_bit_iff)
next
  case W16
  then show ?thesis by (auto simp: wtrunc_def width_bits_def dest: bit_imp_le_length)
qed

lemma top_mask: "(case w of W8 \<Rightarrow> n AND 0x80 \<noteq> 0 | W16 \<Rightarrow> n AND 0x8000 \<noteq> 0) \<longleftrightarrow> bit n (width_bits w - 1)"
  for n :: u16
  by (simp add: width_bits_def and_8 and_16 split: width.split)

lemma rol_bits:
  "bit (fst (RotateLeftOp w n c)) k \<longleftrightarrow> (if k = 0 then flag_C c else k < width_bits w \<and> bit n (k - 1))"
  "flag_C (snd (RotateLeftOp w n c)) = bit n (width_bits w - 1)"
proof -
  have k: "bit (push_bit 1 n) k \<longleftrightarrow> 0 < k \<and> k < 16 \<and> bit n (k - 1)"
    by (simp only: bit_push_bit_iff possible_bit_word) auto
  have "0 < width_bits w" "width_bits w \<le> 16" by (simp_all add: width_bits_def split: width.split)
  then show "bit (fst (RotateLeftOp w n c)) k \<longleftrightarrow>
      (if k = 0 then flag_C c else k < width_bits w \<and> bit n (k - 1))"
    unfolding RotateLeftOp_def Let_def fst_conv bit_or_iff bit_wtrunc k by (auto simp: bit_simps)
  show "flag_C (snd (RotateLeftOp w n c)) = bit n (width_bits w - 1)"
    unfolding RotateLeftOp_def Let_def top_mask by (simp add: set_n_z_flags_def)
qed

lemma ror_bits:
  "bit (fst (RotateRightOp w n c)) k \<longleftrightarrow> bit n (k + 1) \<or> k = width_bits w - 1 \<and> flag_C c"
  "flag_C (snd (RotateRightOp w n c)) = bit n 0"
proof -
  have m: "(case w of W8 \<Rightarrow> 7 | W16 \<Rightarrow> 15) = width_bits w - 1" "width_bits w - 1 < 16"
    by (simp_all add: width_bits_def split: width.split)
  show "bit (fst (RotateRightOp w n c)) k \<longleftrightarrow> bit n (k + 1) \<or> k = width_bits w - 1 \<and> flag_C c"
    unfolding RotateRightOp_def Let_def m fst_conv bit_or_iff bit_drop_bit_eq bit_push_bit_iff
    using m(2) by (auto simp: bit_simps add.commute)
  show "flag_C (snd (RotateRightOp w n c)) = bit n 0"
    unfolding RotateRightOp_def Let_def by (simp add: set_n_z_flags_def and_1)
qed

text \<open>
  ROR undoes ROL and ROL undoes ROR, through the carry and at both widths: the operand and
  the carry come back, for every operand of the width.
\<close>

lemma rotations_inverse:
  assumes "wtrunc w n = n"
  shows "fst (RotateRightOp w (fst (RotateLeftOp w n c)) (snd (RotateLeftOp w n c))) = n \<and>
     flag_C (snd (RotateRightOp w (fst (RotateLeftOp w n c)) (snd (RotateLeftOp w n c)))) = flag_C c \<and>
     fst (RotateLeftOp w (fst (RotateRightOp w n c)) (snd (RotateRightOp w n c))) = n \<and>
     flag_C (snd (RotateLeftOp w (fst (RotateRightOp w n c)) (snd (RotateRightOp w n c)))) = flag_C c"
proof (intro conjI)
  have n: "bit n k \<Longrightarrow> k < width_bits w" for k
    using bit_wtrunc [of w n k] assms by simp
  have w: "0 < width_bits w" by (simp add: width_bits_def split: width.split)
  have top: "Suc k < width_bits w" if "bit n k" "\<not> bit n (width_bits w - Suc 0)" for k
    using n [OF that(1)] that by (cases "k = width_bits w - Suc 0") auto
  show "fst (RotateRightOp w (fst (RotateLeftOp w n c)) (snd (RotateLeftOp w n c))) = n"
    by (rule bit_word_eqI) (use n w top in \<open>auto simp: ror_bits rol_bits dest: n\<close>)
  show "fst (RotateLeftOp w (fst (RotateRightOp w n c)) (snd (RotateRightOp w n c))) = n"
    by (rule bit_word_eqI) (use n w in \<open>auto simp: ror_bits rol_bits dest: n\<close>)
  show "flag_C (snd (RotateRightOp w (fst (RotateLeftOp w n c)) (snd (RotateLeftOp w n c)))) = flag_C c"
    by (simp add: ror_bits rol_bits)
  show "flag_C (snd (RotateLeftOp w (fst (RotateRightOp w n c)) (snd (RotateRightOp w n c)))) = flag_C c"
    using w n [of "width_bits w"] by (auto simp: ror_bits rol_bits)
qed

end
