(* ===== verification/Alu_Decimal.thy ===== *)
theory Alu_Decimal
  imports Alu_Correct
begin

text \<open>
  The decimal mode of the core.  On operands whose nibbles are decimal digits, addition and
  subtraction with D set are decimal addition and subtraction at one or two bytes: the result is
  again a decimal numeral, C the carry out or the absence of a borrow.  The two forms of the
  subtraction, the one of the 65C02 and the one the other cores share, compute the same digits.
\<close>

section \<open>Decimal arithmetic\<close>

definition bcd_ok :: "u8 \<Rightarrow> bool" where
  "bcd_ok b \<longleftrightarrow> uint b mod 16 < 10 \<and> uint b div 16 < 10"

definition bcd_val :: "u8 \<Rightarrow> int" where
  "bcd_val b = 10 * (uint b div 16) + uint b mod 16"

lemma low_nibble: "uint (a AND 0x0F) = uint a mod 16" for a :: u8
proof -
  have "a AND 0x0F = a mod 16"
    using take_bit_eq_mask [of 4 a] by (simp add: mask_eq_exp_minus_1 take_bit_eq_mod)
  then show ?thesis by (simp add: uint_mod)
qed

lemma high_nibble: "uint (a AND 0xF0) = 16 * (uint a div 16)" for a :: u8
proof -
  have "(a AND 0x0F) + (a AND 0xF0) = (a AND 0x0F) OR (a AND 0xF0)"
  proof (rule disjunctive_add_eq_or)
    have "(a AND 0x0F) AND (a AND 0xF0) = (a AND a) AND (0x0F AND 0xF0)" by (simp only: ac_simps)
    then show "(a AND 0x0F) AND (a AND 0xF0) = 0" by simp
  qed
  also have "\<dots> = a AND (0x0F OR 0xF0)" by (simp only: bit.conj_disj_distrib)
  also have "\<dots> = a"
  proof -
    have "(0x0F OR 0xF0 :: u8) = - 1" by simp
    then show ?thesis by (simp only: bit.conj_one_right)
  qed
  finally have "a AND 0xF0 = a - (a AND 0x0F)" by (simp add: algebra_simps)
  then have "uint (a AND 0xF0) = (uint a - uint a mod 16) mod 256"
    by (simp add: uint_word_ariths low_nibble)
  also have "\<dots> = uint a - uint a mod 16"
    using u8_range [of a] zmod_le_nonneg_dividend [of "uint a" 16] pos_mod_sign [of 16 "uint a"]
    by (intro mod_pos_pos_trivial) linarith+
  finally show ?thesis by (simp add: minus_mod_eq_mult_div)
qed

lemma uint_word_small: "0 \<le> x \<Longrightarrow> x < 65536 \<Longrightarrow> uint (word_of_int x :: u16) = x"
  by (simp add: uint_word_of_int mod_pos_pos_trivial)

text \<open>A decimal sum of two digits and a carry, on integers: the half-carry correction and the
  digit it leaves.\<close>

definition digit_sum :: "int \<Rightarrow> int" where
  "digit_sum x = (if 10 \<le> x then (x + 6) mod 16 + 16 else x)"

lemma digit_sum: "0 \<le> x \<Longrightarrow> x \<le> 19 \<Longrightarrow> digit_sum x = 16 * (x div 10) + x mod 10"
proof -
  assume "0 \<le> x" "x \<le> 19"
  then have "x \<in> set [0..19]" by simp
  then show ?thesis by (auto simp: digit_sum_def upto_rec1)
qed

lemma uint_and_15: "uint (w AND 0x0F) = uint w mod 16" for w :: u16
proof -
  have "w AND 0x0F = w mod 16"
    using take_bit_eq_mask [of 4 w] by (simp add: mask_eq_exp_minus_1 take_bit_eq_mod)
  then show ?thesis by (simp add: uint_mod)
qed

lemma uint_add_small: "uint a + uint b < 65536 \<Longrightarrow> uint (a + b) = uint a + uint b" for a b :: u16
  using u16_range [of a] u16_range [of b] by (simp add: uint_word_ariths mod_pos_pos_trivial)

lemma uint_of_bool: "uint (of_bool b :: u16) = of_bool b"
  by simp

lemma bcd_digits:
  assumes "bcd_ok a"
  shows "0 \<le> uint a mod 16" "uint a mod 16 \<le> 9" "0 \<le> uint a div 16" "uint a div 16 \<le> 9"
  using assms u8_range [of a] by (simp_all add: bcd_ok_def pos_imp_zdiv_nonneg_iff)

lemma bcd_join:
  assumes "uint r = 16 * h + d" and "0 \<le> h" "h \<le> 9" "0 \<le> d" "d \<le> 9"
  shows "bcd_ok r \<and> bcd_val r = 10 * h + d"
proof -
  have "uint r div 16 = h" "uint r mod 16 = d" using assms by simp_all
  with assms show ?thesis by (simp add: bcd_ok_def bcd_val_def)
qed

text \<open>The two nibble sums of the decimal addition as words, read as integers.\<close>

lemma add_bcd_words:
  fixes a b :: u8 and cy :: bool
  assumes a: "bcd_ok a" and b: "bcd_ok b"
  defines "AL0 \<equiv> ucast (a AND 0x0F) + ucast (b AND 0x0F) + of_bool cy :: u16"
  defines "AL \<equiv> if AL0 \<ge> 0x0A then ((AL0 + 0x06) AND 0x0F) + 0x10 else AL0"
  defines "UA0 \<equiv> ucast (a AND 0xF0) + ucast (b AND 0xF0) + AL :: u16"
  defines "UA \<equiv> if UA0 \<ge> 0xA0 then UA0 + 0x60 else UA0"
  defines "x \<equiv> uint a mod 16 + uint b mod 16 + of_bool cy"
  defines "h \<equiv> uint a div 16 + uint b div 16 + x div 10"
  shows "uint UA = 16 * (h + (if 10 \<le> h then 6 else 0)) + x mod 10" and "0 \<le> h" "h \<le> 19" "0 \<le> x" "x \<le> 19"
proof -
  note d = bcd_digits [OF a] bcd_digits [OF b]
  have cy: "(0 :: int) \<le> of_bool cy" "of_bool cy \<le> (1 :: int)" by simp_all
  show x: "0 \<le> x" "x \<le> 19" using d cy unfolding x_def by linarith+
  have x10: "0 \<le> x div 10" "x div 10 \<le> 1" using x by (simp_all add: pos_imp_zdiv_nonneg_iff)
  show h: "0 \<le> h" "h \<le> 19" using d x10 unfolding h_def by linarith+
  have AL0: "uint AL0 = x"
    unfolding AL0_def x_def
    by (subst uint_add_small; (subst uint_add_small)?)
       (use d cy in \<open>simp_all add: uint_ucast_up low_nibble\<close>)
  have AL: "uint AL = digit_sum x"
  proof -
    have "uint (AL0 + 6) = x + 6" using x AL0 by (simp add: uint_add_small)
    then have "uint ((AL0 + 6) AND 0x0F) = (x + 6) mod 16" by (simp add: uint_and_15)
    then show ?thesis
      using AL0 x by (simp add: AL_def digit_sum_def word_le_def uint_add_small)
  qed
  have UA0: "uint UA0 = 16 * h + x mod 10"
  proof -
    have hi: "uint (ucast (a AND 0xF0) + ucast (b AND 0xF0) :: u16) = 16 * (uint a div 16) + 16 * (uint b div 16)"
      by (subst uint_add_small) (use d in \<open>simp_all add: uint_ucast_up high_nibble\<close>)
    have "16 * (uint a div 16) + 16 * (uint b div 16) + (16 * (x div 10) + x mod 10) < 65536"
      using d x10 pos_mod_bound [of 10 x] by linarith
    then show ?thesis
      unfolding UA0_def by (subst uint_add_small) (simp_all add: hi AL digit_sum x h_def)
  qed
  have "160 \<le> 16 * h + x mod 10 \<longleftrightarrow> 10 \<le> h"
    using pos_mod_bound [of 10 x] pos_mod_sign [of 10 x] by linarith
  then show "uint UA = 16 * (h + (if 10 \<le> h then 6 else 0)) + x mod 10"
    using UA0 h pos_mod_bound [of 10 x] by (simp add: UA_def word_le_def uint_add_small)
qed

lemma bcd_flag_C:
  "flag_C (c\<lparr>flag_C := C, flag_V := V, flag_Z := Z, flag_N := N\<rparr>) = C"
  "flag_C (c\<lparr>flag_C := C, flag_Z := Z, flag_N := N, flag_V := V\<rparr>) = C"
  by simp_all

lemma add_bcd_8_correct:
  assumes a: "bcd_ok a" and b: "bcd_ok b"
  shows "case add_bcd_8_set_flags tr a b c of (r, c') \<Rightarrow>
     bcd_ok r \<and> bcd_val r + 100 * of_bool (flag_C c') = bcd_val a + bcd_val b + of_bool (flag_C c)"
proof -
  define x where "x = uint a mod 16 + uint b mod 16 + of_bool (flag_C c)"
  define h where "h = uint a div 16 + uint b div 16 + x div 10"
  obtain r c' where R: "add_bcd_8_set_flags tr a b c = (r, c')" by fastforce
  define AL0 where "AL0 = (ucast (a AND 0x0F) + ucast (b AND 0x0F) + of_bool (flag_C c) :: u16)"
  define AL where "AL = (if AL0 \<ge> 0x0A then ((AL0 + 0x06) AND 0x0F) + 0x10 else AL0)"
  define UA0 where "UA0 = (ucast (a AND 0xF0) + ucast (b AND 0xF0) + AL :: u16)"
  define UA where "UA = (if UA0 \<ge> 0xA0 then UA0 + 0x60 else UA0)"
  note W = add_bcd_words [OF a b, of "flag_C c", folded AL0_def, folded AL_def, folded UA0_def,
      folded UA_def, folded x_def, folded h_def]
  have "fst (add_bcd_8_set_flags tr a b c) = ucast UA"
    by (simp only: add_bcd_8_set_flags_def Let_def UA_def UA0_def AL_def AL0_def fst_conv)
  moreover have "flag_C (snd (add_bcd_8_set_flags tr a b c)) \<longleftrightarrow> 0x100 \<le> UA"
    unfolding add_bcd_8_set_flags_def Let_def snd_conv bcd_flag_C UA_def UA0_def AL_def AL0_def
    by (rule refl)
  ultimately have R': "r = ucast UA" "flag_C c' \<longleftrightarrow> 0x100 \<le> UA" using R by simp_all
  have d: "0 \<le> x mod 10" "x mod 10 \<le> 9" using pos_mod_bound [of 10 x] pos_mod_sign [of 10 x] by linarith+
  have r: "uint r = (16 * (h + (if 10 \<le> h then 6 else 0)) + x mod 10) mod 256"
    and C: "flag_C c' \<longleftrightarrow> 256 \<le> 16 * (h + (if 10 \<le> h then 6 else 0)) + x mod 10"
    using R' W(1) by (simp_all add: unsigned_ucast_eq take_bit_eq_mod word_le_def)
  have "uint r = 16 * (if 10 \<le> h then h - 10 else h) + x mod 10"
  proof (cases "10 \<le> h")
    case True
    have eq: "16 * (h + 6) + x mod 10 = (16 * (h - 10) + x mod 10) + 256" by simp
    have "uint r = (16 * (h - 10) + x mod 10) mod 256"
      using r True by (simp only: if_True eq mod_add_self2)
    also have "\<dots> = 16 * (h - 10) + x mod 10"
      using True W(2,3) d by (intro mod_pos_pos_trivial) simp_all
    finally show ?thesis using True by simp
  next
    case False
    then show ?thesis using r W(2,3) d by (simp add: mod_pos_pos_trivial)
  qed
  then have "bcd_ok r \<and> bcd_val r = 10 * (if 10 \<le> h then h - 10 else h) + x mod 10"
    by (rule bcd_join) (use W d in auto)
  moreover have "flag_C c' \<longleftrightarrow> 10 \<le> h" using C W d by auto
  moreover have "10 * h + x mod 10 = bcd_val a + bcd_val b + of_bool (flag_C c)"
    unfolding h_def bcd_val_def using minus_mod_eq_mult_div [of x 10] by (simp add: x_def)
  ultimately show ?thesis using R by auto
qed

section \<open>Decimal subtraction\<close>

lemma int_and_255: "k AND 0xFF = k mod 256" for k :: int
  using take_bit_eq_mask [of 8 k] by (simp add: mask_eq_exp_minus_1 take_bit_eq_mod)

lemma int_and_15: "k AND 0xF = k mod 16" for k :: int
  using take_bit_eq_mask [of 4 k] by (simp add: mask_eq_exp_minus_1 take_bit_eq_mod)

text \<open>The digit a column leaves and the borrow into the next one, on integers.\<close>

lemma digit_borrow:
  fixes y z :: int
  assumes "- 10 \<le> y" "y \<le> 9"
  defines "hi \<equiv> z - (if y < 0 then 1 else 0)" and "d \<equiv> y + (if y < 0 then 10 else 0)"
  shows "16 * z + (if y < 0 then ((y - 6) AND 0xF) - 16 else y) = 16 * hi + d" (is ?shared)
    and "16 * z + y - (if y < 0 then 6 else 0) = 16 * hi + d"
    and "16 * hi + d < 0 \<longleftrightarrow> hi < 0" and "16 * z + y < 0 \<longleftrightarrow> hi < 0"
proof -
  have "(y - 6) AND 0xF = y + 10" if "y < 0"
  proof -
    have "(y - 6) mod 16 = (y + 10) mod 16" using mod_add_self2 [of "y - 6" 16] by (simp add: add.commute)
    with that assms show ?thesis by (simp add: int_and_15 mod_pos_pos_trivial)
  qed
  then show ?shared by (simp add: hi_def d_def)
qed (use assms in \<open>auto simp: hi_def d_def\<close>)

lemma sub_bcd_8_digits:
  fixes c :: cpu_state
  assumes a: "bcd_ok a" and b: "bcd_ok b"
  defines "y \<equiv> uint a mod 16 - uint b mod 16 - of_bool (\<not> flag_C c)"
  defines "hi \<equiv> uint a div 16 - uint b div 16 - (if y < 0 then 1 else 0)"
    and "d \<equiv> y + (if y < 0 then 10 else 0)"
  shows "uint (fst (sub_bcd_8_set_flags tr a b c)) = (16 * (hi - (if hi < 0 then 6 else 0)) + d) mod 256"
    and "flag_C (snd (sub_bcd_8_set_flags tr a b c)) \<longleftrightarrow> 0 \<le> hi"
proof -
  let ?z = "uint a div 16 - uint b div 16"
  note digits = bcd_digits [OF a] bcd_digits [OF b]
  have y: "- 10 \<le> y" "y \<le> 9" using digits by (auto simp: y_def)
  note D = digit_borrow [OF y, where z = ?z, folded hi_def d_def]
  have cy: "of_bool (flag_C c) - 1 = - (of_bool (\<not> flag_C c) :: int)" by simp
  have bin: "uint a - uint b - 1 + of_bool (flag_C c) = 16 * ?z + y"
    "uint a - uint b + of_bool (flag_C c) - 1 = 16 * ?z + y"
    by (simp_all add: y_def right_diff_distrib minus_mod_eq_mult_div [symmetric])
  have lo: "uint (a AND 0x0F) - uint (b AND 0x0F) + of_bool (flag_C c) - 1 = y"
    using cy by (simp add: low_nibble y_def)
  have top: "uint (a AND 0xF0) - uint (b AND 0xF0) = 16 * ?z" by (simp add: high_nibble)
  show "flag_C (snd (sub_bcd_8_set_flags tr a b c)) \<longleftrightarrow> 0 \<le> hi"
    unfolding sub_bcd_8_set_flags_def Let_def bin
    using D(4) by (auto simp: split_beta)
  show "uint (fst (sub_bcd_8_set_flags tr a b c)) = (16 * (hi - (if hi < 0 then 6 else 0)) + d) mod 256"
  proof (cases "has_65c02_ops tr \<and> \<not> has_65816_ops tr")
    case True
    have "fst (sub_bcd_8_set_flags tr a b c) = word_of_int
        (((if 16 * ?z + y < 0 then 16 * ?z + y - 0x60 else 16 * ?z + y) - (if y < 0 then 6 else 0)) AND 0xFF)"
      unfolding sub_bcd_8_set_flags_def Let_def bin lo by (simp add: True)
    also have "(if 16 * ?z + y < 0 then 16 * ?z + y - 0x60 else 16 * ?z + y) - (if y < 0 then 6 else 0) =
        16 * (hi - (if hi < 0 then 6 else 0)) + d"
      using D(2) unfolding D(4) by auto
    finally show ?thesis by (simp add: int_and_255 uint_word_of_int)
  next
    case False
    let ?AL = "if y < 0 then ((y - 6) AND 0xF) - 16 else y"
    have "fst (sub_bcd_8_set_flags tr a b c) = word_of_int
        ((if 16 * ?z + ?AL < 0 then 16 * ?z + ?AL - 0x60 else 16 * ?z + ?AL) AND 0xFF)"
      unfolding sub_bcd_8_set_flags_def Let_def bin lo top by (simp add: False)
    also have "(if 16 * ?z + ?AL < 0 then 16 * ?z + ?AL - 0x60 else 16 * ?z + ?AL) =
        16 * (hi - (if hi < 0 then 6 else 0)) + d"
      unfolding D(1) D(3) by simp
    finally show ?thesis by (simp add: int_and_255 uint_word_of_int)
  qed
qed

lemma sub_bcd_8_correct:
  assumes a: "bcd_ok a" and b: "bcd_ok b"
  shows "case sub_bcd_8_set_flags tr a b c of (r, c') \<Rightarrow>
     bcd_ok r \<and> bcd_val r - 100 * of_bool (\<not> flag_C c') = bcd_val a - bcd_val b - of_bool (\<not> flag_C c)"
proof -
  define y where "y = uint a mod 16 - uint b mod 16 - of_bool (\<not> flag_C c)"
  define hi where "hi = uint a div 16 - uint b div 16 - (if y < 0 then 1 else 0)"
  define d where "d = y + (if y < 0 then 10 else 0)"
  obtain r c' where R: "sub_bcd_8_set_flags tr a b c = (r, c')" by fastforce
  note S = sub_bcd_8_digits [OF a b, where tr = tr and c = c, folded y_def, folded hi_def d_def, unfolded R fst_conv snd_conv]
  note digits = bcd_digits [OF a] bcd_digits [OF b]
  have y: "- 10 \<le> y" "y \<le> 9" using digits by (auto simp: y_def)
  have d: "0 \<le> d" "d \<le> 9" using y by (auto simp: d_def)
  have hi: "- 10 \<le> hi" "hi \<le> 9" using digits by (auto simp: hi_def)
  have "uint r = 16 * (if hi < 0 then hi + 10 else hi) + d"
  proof (cases "hi < 0")
    case True
    have "(16 * (hi - 6) + d) mod 256 = (16 * (hi + 10) + d) mod 256"
      using mod_add_self2 [of "16 * (hi - 6) + d" 256] by (simp add: algebra_simps)
    with True S(1) hi d show ?thesis by (simp add: mod_pos_pos_trivial)
  next
    case False
    with S(1) hi d show ?thesis by (simp add: mod_pos_pos_trivial)
  qed
  then have "bcd_ok r \<and> bcd_val r = 10 * (if hi < 0 then hi + 10 else hi) + d"
    by (rule bcd_join) (use hi d in auto)
  moreover have "10 * hi + d = bcd_val a - bcd_val b - of_bool (\<not> flag_C c)"
    by (simp add: bcd_val_def hi_def d_def y_def)
  ultimately show ?thesis using R S(2) by auto
qed

section \<open>The instructions in decimal mode\<close>

definition bcd_word_ok :: "cpu_traits \<Rightarrow> u16 \<Rightarrow> bool" where
  "bcd_word_ok tr w \<longleftrightarrow> bcd_ok (word_lo w) \<and> (m_16 tr \<longrightarrow> bcd_ok (word_hi w))"

definition bcd_word_val :: "cpu_traits \<Rightarrow> u16 \<Rightarrow> int" where
  "bcd_word_val tr w = (if m_16 tr then 100 * bcd_val (word_hi w) else 0) + bcd_val (word_lo w)"

definition bcd_base :: "cpu_traits \<Rightarrow> int" where
  "bcd_base tr = (if m_16 tr then 10000 else 100)"

lemma join_bytes: "push_bit 8 (ucast h) OR ucast l = mk_word l h" for h l :: u8
  by (simp add: mk_word_def or.commute)

lemma add_bcd_16_correct:
  assumes "m_16 tr" and "bcd_word_ok tr (reg_a c)" and "bcd_word_ok tr n"
  defines "c' \<equiv> add_bcd_16_set_flags tr n c"
  shows "bcd_word_ok tr (reg_a c') \<and> bcd_word_val tr (reg_a c') + 10000 * of_bool (flag_C c') =
     bcd_word_val tr (reg_a c) + bcd_word_val tr n + of_bool (flag_C c)"
proof -
  obtain r1 c1 where 1: "add_bcd_8_set_flags tr (word_lo (reg_a c)) (word_lo n) c = (r1, c1)" by fastforce
  obtain r2 c2 where 2: "add_bcd_8_set_flags tr (word_hi (reg_a c)) (word_hi n) c1 = (r2, c2)" by fastforce
  show ?thesis
    using add_bcd_8_correct [where a = "word_lo (reg_a c)" and b = "word_lo n" and tr = tr and c = c]
      add_bcd_8_correct [where a = "word_hi (reg_a c)" and b = "word_hi n" and tr = tr and c = c1] assms(1-3)
    by (simp add: c'_def add_bcd_16_set_flags_def 1 2 get_A_def set_A_def join_bytes bcd_word_ok_def
        bcd_word_val_def)
qed

lemma sub_bcd_16_correct:
  assumes "m_16 tr" and "bcd_word_ok tr (reg_a c)" and "bcd_word_ok tr n"
  defines "c' \<equiv> sub_bcd_16_set_flags tr n c"
  shows "bcd_word_ok tr (reg_a c') \<and> bcd_word_val tr (reg_a c') - 10000 * of_bool (\<not> flag_C c') =
     bcd_word_val tr (reg_a c) - bcd_word_val tr n - of_bool (\<not> flag_C c)"
proof -
  obtain r1 c1 where 1: "sub_bcd_8_set_flags tr (word_lo (reg_a c)) (word_lo n) c = (r1, c1)" by fastforce
  obtain r2 c2 where 2: "sub_bcd_8_set_flags tr (word_hi (reg_a c)) (word_hi n) c1 = (r2, c2)" by fastforce
  show ?thesis
    using sub_bcd_8_correct [where a = "word_lo (reg_a c)" and b = "word_lo n" and tr = tr and c = c]
      sub_bcd_8_correct [where a = "word_hi (reg_a c)" and b = "word_hi n" and tr = tr and c = c1] assms(1-3)
    by (simp add: c'_def sub_bcd_16_set_flags_def 1 2 get_A_def set_A_def join_bytes bcd_word_ok_def
        bcd_word_val_def)
qed

lemma decimal_cycle_regs:
  "reg_a (cpu (snd (run_state (decimal_cycle tr e) s))) = reg_a (cpu s)"
  "flag_C (cpu (snd (run_state (decimal_cycle tr e) s))) = flag_C (cpu s)"
  by (simp_all add: decimal_cycle_def mwhen_def incr_cycles_def)

text \<open>
  C24.  Decimal ADC is decimal addition.  With D set and both operands decimal numerals of the
  accumulator's width, \<^verbatim>\<open>add_and_set_flags\<close> leaves a decimal numeral that, with C counted as
  the digit above it, is the sum of the operands and the carry in, on every core.
\<close>

theorem adc_decimal_correct:
  assumes "flag_D (cpu s)" and "bcd_word_ok tr (reg_a (cpu s))" and "bcd_word_ok tr n"
  shows "case run_state (add_and_set_flags tr e n) s of (_, s') \<Rightarrow>
     bcd_word_ok tr (reg_a (cpu s')) \<and>
     bcd_word_val tr (reg_a (cpu s')) + bcd_base tr * of_bool (flag_C (cpu s')) =
       bcd_word_val tr (reg_a (cpu s)) + bcd_word_val tr n + of_bool (flag_C (cpu s))"
proof (cases "m_16 tr")
  case True
  then show ?thesis
    using assms add_bcd_16_correct [OF True assms(2,3)]
    by (simp add: add_and_set_flags_def add_and_set_flags_16_def bcd_base_def)
next
  case False
  then show ?thesis
    using assms add_bcd_8_correct [where a = "word_lo (reg_a (cpu s))" and b = "word_lo n" and tr = tr and c = "cpu s"]
    by (simp add: add_and_set_flags_def add_and_set_flags_8_def bcd_base_def bcd_word_ok_def
        bcd_word_val_def decimal_cycle_regs split_beta)
qed

text \<open>
  C25.  Decimal SBC is decimal subtraction, at either width and for both subtraction algorithms of
  the code: the result is a decimal numeral, and C is clear exactly when a borrow was needed.
\<close>

theorem sbc_decimal_correct:
  assumes "flag_D (cpu s)" and "bcd_word_ok tr (reg_a (cpu s))" and "bcd_word_ok tr n"
  shows "case run_state (subtract_and_set_flags tr e n) s of (_, s') \<Rightarrow>
     bcd_word_ok tr (reg_a (cpu s')) \<and>
     bcd_word_val tr (reg_a (cpu s')) - bcd_base tr * of_bool (\<not> flag_C (cpu s')) =
       bcd_word_val tr (reg_a (cpu s)) - bcd_word_val tr n - of_bool (\<not> flag_C (cpu s))"
proof (cases "m_16 tr")
  case True
  then show ?thesis
    using assms sub_bcd_16_correct [OF True assms(2,3)]
    by (simp add: subtract_and_set_flags_def subtract_and_set_flags_16_def bcd_base_def)
next
  case False
  then show ?thesis
    using assms sub_bcd_8_correct [where a = "word_lo (reg_a (cpu s))" and b = "word_lo n" and tr = tr and c = "cpu s"]
    by (simp add: subtract_and_set_flags_def subtract_and_set_flags_8_def bcd_base_def bcd_word_ok_def
        bcd_word_val_def decimal_cycle_regs split_beta)
qed

end
