(* ===== verification/Mmu.thy ===== *)
theory Mmu
  imports Prelude
begin

text \<open>
  The page-table memory management unit \<^verbatim>\<open>MMU\<close> (\<^verbatim>\<open>src/mmus/mmu.hpp\<close>).  A page
  pointer is an address of the host memory, \<open>None\<close> for \<^verbatim>\<open>nullptr\<close>; two pages may point at
  the same host memory.  A bus handler is a number looked up in a table \<open>H\<close> of functions on the
  MMU and the device state \<open>'d\<close>, since a handler may remap pages.  A failed \<^verbatim>\<open>assert\<close>, an
  index past the page table and a store through a null pointer are values of \<open>mmu_error\<close>.
\<close>

datatype mmu_error = AssertFailed | TableOverrun | NullStore

record page_table_entry =
  read_p :: "nat option"
  write_p :: "nat option"
  read_h :: "nat option"
  write_h :: "nat option"
  shadow_h :: "nat option"
  read_d :: "string option"
  write_d :: "string option"

record 'd mmu =
  page_table :: "page_table_entry list"
  page_size_bits :: nat
  floating_bus_val :: u8
  host :: "nat \<Rightarrow> u8"
  devices :: 'd

record 'd handlers =
  read_handler :: "nat \<Rightarrow> u32 \<Rightarrow> 'd mmu \<Rightarrow> u8 \<times> 'd mmu"
  write_handler :: "nat \<Rightarrow> u32 \<Rightarrow> u8 \<Rightarrow> 'd mmu \<Rightarrow> 'd mmu"

definition num_pages :: "'d mmu \<Rightarrow> nat" where
  "num_pages m = length (page_table m)"

definition empty_page :: page_table_entry where
  "empty_page = \<lparr>read_p = None, write_p = None, read_h = None, write_h = None, shadow_h = None,
     read_d = None, write_d = None\<rparr>"

definition new_MMU :: "nat \<Rightarrow> nat \<Rightarrow> (nat \<Rightarrow> u8) \<Rightarrow> 'd \<Rightarrow> 'd mmu" where
  "new_MMU pages bits mem d =
     \<lparr>page_table = replicate pages empty_page, page_size_bits = bits, floating_bus_val = 0xEE,
      host = mem, devices = d\<rparr>"

text \<open>Both \<^verbatim>\<open>page\<close> and \<^verbatim>\<open>offset\<close> are \<^verbatim>\<open>uint16_t\<close> locals.\<close>

definition page_of :: "'d mmu \<Rightarrow> u32 \<Rightarrow> nat" where
  "page_of m address = unat (ucast (drop_bit (page_size_bits m) address) :: u16)"

definition offset_of :: "'d mmu \<Rightarrow> u32 \<Rightarrow> nat" where
  "offset_of m address = unat (ucast (take_bit (page_size_bits m) address) :: u16)"

definition pte :: "'d mmu \<Rightarrow> nat \<Rightarrow> page_table_entry" where
  "pte m page = page_table m ! page"

definition store_host :: "nat \<Rightarrow> u8 \<Rightarrow> 'd mmu \<Rightarrow> 'd mmu" where
  "store_host a v m = m\<lparr>host := (host m)(a := v)\<rparr>"

section \<open>The bus side\<close>

definition MMU_read :: "'d handlers \<Rightarrow> u32 \<Rightarrow> 'd mmu \<Rightarrow> mmu_error + (u8 \<times> 'd mmu)" where
  "MMU_read H address m =
     (let page = page_of m address
      in if \<not> page < num_pages m then Inl AssertFailed
         else case read_p (pte m page) of
           Some base \<Rightarrow> Inr (host m (base + offset_of m address), m)
         | None \<Rightarrow> (case read_h (pte m page) of
             Some h \<Rightarrow> Inr (read_handler H h address m)
           | None \<Rightarrow> Inr (floating_bus_val m, m)))"

definition MMU_write :: "'d handlers \<Rightarrow> u32 \<Rightarrow> u8 \<Rightarrow> 'd mmu \<Rightarrow> mmu_error + 'd mmu" where
  "MMU_write H address value m =
     (let page = page_of m address; e = pte m page
      in if \<not> page < num_pages m then Inl AssertFailed
         else
           let m1 = (case write_h e of
                       Some h \<Rightarrow> write_handler H h address value m
                     | None \<Rightarrow> (case write_p e of
                         Some base \<Rightarrow> store_host (base + offset_of m address) value m
                       | None \<Rightarrow> m))
           in Inr (case shadow_h (pte m1 page) of
                     Some h \<Rightarrow> write_handler H h address value m1
                   | None \<Rightarrow> m1))"

definition MMU_vp_read :: "'d handlers \<Rightarrow> u32 \<Rightarrow> 'd mmu \<Rightarrow> mmu_error + (u8 \<times> 'd mmu)" where
  "MMU_vp_read H address m = MMU_read H address m"

section \<open>The raw side\<close>

definition read_raw :: "u32 \<Rightarrow> 'd mmu \<Rightarrow> mmu_error + u8" where
  "read_raw address m =
     (let page = page_of m address
      in if page > num_pages m then Inr (floating_bus_val m)
         else if page = num_pages m then Inl TableOverrun
         else case read_p (pte m page) of
           None \<Rightarrow> Inr (floating_bus_val m)
         | Some base \<Rightarrow> Inr (host m (base + offset_of m address)))"

definition probe_peek :: "u32 \<Rightarrow> 'd mmu \<Rightarrow> mmu_error + u8" where
  "probe_peek address m = read_raw address m"

definition probe_readable :: "u32 \<Rightarrow> 'd mmu \<Rightarrow> mmu_error + bool" where
  "probe_readable address m =
     (let page = page_of m address
      in if page > num_pages m then Inr False
         else if page = num_pages m then Inl TableOverrun
         else Inr (read_p (pte m page) \<noteq> None))"

definition write_raw :: "u32 \<Rightarrow> u8 \<Rightarrow> 'd mmu \<Rightarrow> mmu_error + 'd mmu" where
  "write_raw address value m =
     (let page = page_of m address
      in if page > num_pages m then Inr m
         else if page = num_pages m then Inl TableOverrun
         else if read_p (pte m page) = None then Inr m
         else case write_p (pte m page) of
           None \<Rightarrow> Inl NullStore
         | Some base \<Rightarrow> Inr (store_host (base + offset_of m address) value m))"

definition probe_poke :: "u32 \<Rightarrow> u8 \<Rightarrow> 'd mmu \<Rightarrow> mmu_error + (bool \<times> 'd mmu)" where
  "probe_poke address value m =
     (let page = page_of m address
      in if page > num_pages m then Inr (False, m)
         else if page = num_pages m then Inl TableOverrun
         else if read_p (pte m page) = None \<or> write_p (pte m page) = None then Inr (False, m)
         else case write_raw address value m of
           Inl err \<Rightarrow> Inl err
         | Inr m' \<Rightarrow> Inr (True, m'))"

definition set_floating_bus :: "u8 \<Rightarrow> 'd mmu \<Rightarrow> 'd mmu" where
  "set_floating_bus v m = m\<lparr>floating_bus_val := v\<rparr>"

section \<open>Mapping\<close>

definition upd_page ::
    "nat \<Rightarrow> (page_table_entry \<Rightarrow> page_table_entry) \<Rightarrow> 'd mmu \<Rightarrow> mmu_error + 'd mmu" where
  "upd_page page f m =
     (if page < num_pages m then Inr (m\<lparr>page_table := (page_table m)[page := f (pte m page)]\<rparr>)
      else Inl TableOverrun)"

text \<open>The guard of the mapping functions returns only for pages past the end by more than
  one.\<close>

definition map_guarded ::
    "nat \<Rightarrow> (page_table_entry \<Rightarrow> page_table_entry) \<Rightarrow> 'd mmu \<Rightarrow> mmu_error + 'd mmu" where
  "map_guarded page f m = (if page > num_pages m then Inr m else upd_page page f m)"

definition map_page_both :: "nat \<Rightarrow> nat option \<Rightarrow> string option \<Rightarrow> 'd mmu \<Rightarrow> mmu_error + 'd mmu" where
  "map_page_both page data d =
     map_guarded page (\<lambda>e. e\<lparr>read_p := data, write_p := data, read_h := None, write_h := None,
       read_d := d, write_d := d\<rparr>)"

definition map_page_read_only ::
    "nat \<Rightarrow> nat option \<Rightarrow> string option \<Rightarrow> 'd mmu \<Rightarrow> mmu_error + 'd mmu" where
  "map_page_read_only page data d =
     map_guarded page (\<lambda>e. e\<lparr>read_p := data, write_p := None, read_d := d, write_d := None\<rparr>)"

definition map_page_read :: "nat \<Rightarrow> nat option \<Rightarrow> string option \<Rightarrow> 'd mmu \<Rightarrow> mmu_error + 'd mmu" where
  "map_page_read page data d = map_guarded page (\<lambda>e. e\<lparr>read_p := data, read_d := d\<rparr>)"

definition map_page_write :: "nat \<Rightarrow> nat option \<Rightarrow> string option \<Rightarrow> 'd mmu \<Rightarrow> mmu_error + 'd mmu" where
  "map_page_write page data d = map_guarded page (\<lambda>e. e\<lparr>write_p := data, write_d := d\<rparr>)"

definition set_page_shadow :: "nat \<Rightarrow> nat option \<Rightarrow> 'd mmu \<Rightarrow> mmu_error + 'd mmu" where
  "set_page_shadow page h = upd_page page (\<lambda>e. e\<lparr>shadow_h := h\<rparr>)"

definition set_page_read_h :: "nat \<Rightarrow> nat option \<Rightarrow> string option \<Rightarrow> 'd mmu \<Rightarrow> mmu_error + 'd mmu" where
  "set_page_read_h page h d = upd_page page (\<lambda>e. e\<lparr>read_h := h, read_d := d\<rparr>)"

definition set_page_write_h :: "nat \<Rightarrow> nat option \<Rightarrow> string option \<Rightarrow> 'd mmu \<Rightarrow> mmu_error + 'd mmu" where
  "set_page_write_h page h d = upd_page page (\<lambda>e. e\<lparr>write_h := h, write_d := d\<rparr>)"

definition set_page_table_entry :: "nat \<Rightarrow> page_table_entry \<Rightarrow> 'd mmu \<Rightarrow> mmu_error + 'd mmu" where
  "set_page_table_entry page e = upd_page page (\<lambda>_. e)"

section \<open>Laws of the bus side\<close>

text \<open>A page of plain memory: readable and writable at one place, no handlers.\<close>

definition plain_page :: "page_table_entry \<Rightarrow> bool" where
  "plain_page e \<longleftrightarrow> read_p e \<noteq> None \<and> write_p e = read_p e \<and> write_h e = None \<and> shadow_h e = None"

text \<open>What the page table means, in the arithmetic of natural numbers: an address is its page number times the size of a
  page plus an offset.  The 16-bit locals of the code hold both in a table of at most 65536 pages of at most 65536 bytes.\<close>

definition page_no :: "'d mmu \<Rightarrow> u32 \<Rightarrow> nat" where
  "page_no m a = unat a div 2 ^ page_size_bits m"

definition in_table :: "'d mmu \<Rightarrow> u32 \<Rightarrow> bool" where
  "in_table m a \<longleftrightarrow> page_no m a < num_pages m \<and> num_pages m \<le> 65536 \<and> page_size_bits m \<le> 16"

definition ram_at :: "'d mmu \<Rightarrow> u32 \<Rightarrow> bool" where
  "ram_at m a \<longleftrightarrow> in_table m a \<and> plain_page (page_table m ! page_no m a)"

definition host_addr :: "'d mmu \<Rightarrow> u32 \<Rightarrow> nat" where
  "host_addr m a = the (read_p (page_table m ! page_no m a)) + unat a mod 2 ^ page_size_bits m"

lemma page_of_in_table:
  assumes "in_table m a"
  shows "page_of m a = page_no m a"
proof -
  have "page_no m a < 65536" using assms by (simp add: in_table_def)
  moreover have "unat (drop_bit (page_size_bits m) a) = page_no m a"
    by (simp add: page_no_def unat_drop_bit_eq flip: drop_bit_eq_div)
  ultimately show ?thesis
    by (simp add: page_of_def unsigned_ucast_eq take_bit_nat_eq_self_iff)
qed

lemma offset_of_in_table:
  assumes "in_table m a"
  shows "offset_of m a = unat a mod 2 ^ page_size_bits m"
proof -
  have "(2 :: nat) ^ page_size_bits m \<le> 2 ^ 16"
    using assms by (intro power_increasing) (simp_all add: in_table_def)
  moreover have "unat a mod 2 ^ page_size_bits m < 2 ^ page_size_bits m" by simp
  ultimately have "unat a mod 2 ^ page_size_bits m < 65536" by (simp del: mod_less_divisor)
  moreover have "unat (take_bit (page_size_bits m) a) = unat a mod 2 ^ page_size_bits m"
    by (simp add: unsigned_take_bit_eq flip: take_bit_eq_mod)
  ultimately show ?thesis
    by (simp add: offset_of_def unsigned_ucast_eq take_bit_nat_eq_self_iff)
qed

lemmas in_table_eqs = page_of_in_table offset_of_in_table

lemma store_host_simps [simp]:
  "page_table (store_host h v m) = page_table m" "page_size_bits (store_host h v m) = page_size_bits m"
  "floating_bus_val (store_host h v m) = floating_bus_val m" "devices (store_host h v m) = devices m"
  "host (store_host h v m) = (host m)(h := v)"
  by (simp_all add: store_host_def)

lemma store_host_pages [simp]:
  "num_pages (store_host h v m) = num_pages m" "page_of (store_host h v m) a = page_of m a"
  "offset_of (store_host h v m) a = offset_of m a" "pte (store_host h v m) p = pte m p"
  "ram_at (store_host h v m) a = ram_at m a" "host_addr (store_host h v m) a = host_addr m a"
  "in_table (store_host h v m) a = in_table m a" "page_no (store_host h v m) a = page_no m a"
  by (simp_all add: num_pages_def page_of_def offset_of_def pte_def ram_at_def host_addr_def in_table_def page_no_def)

lemma read_ram: "ram_at m a \<Longrightarrow> MMU_read H a m = Inr (host m (host_addr m a), m)"
  by (auto simp: ram_at_def plain_page_def MMU_read_def host_addr_def Let_def in_table_eqs pte_def) (simp add: in_table_def)

lemma write_ram: "ram_at m a \<Longrightarrow> MMU_write H a v m = Inr (store_host (host_addr m a) v m)"
  by (auto simp: ram_at_def plain_page_def MMU_write_def host_addr_def Let_def in_table_eqs pte_def split: option.splits)
    (simp_all add: in_table_def)

text \<open>
  C37.  Memory behaves as memory, aliases included: a bus write to a plain page succeeds, and a
  bus read of any plain page afterwards returns the new byte where the two addresses resolve to
  the same host byte and the old byte everywhere else, leaving the MMU as it is.  The host byte of an
  address is the page's host memory plus the remainder of the address by the page size, so the shift, the
  mask and the 16-bit locals of the code compute quotient and remainder; the table has at most 65536 pages
  of at most 65536 bytes.
\<close>

theorem bus_read_after_write:
  assumes "ram_at m a" and "ram_at m b"
  shows "\<exists>m'. MMU_write H a v m = Inr m' \<and>
     MMU_read H b m' =
       Inr (if host_addr m b = host_addr m a then v else host m (host_addr m b), m')"
  using assms by (simp add: write_ram read_ram)

lemma upd_page_pte:
  assumes "upd_page page f m = Inr m'"
  shows "page < num_pages m" and "num_pages m' = num_pages m" and "page_of m' a = page_of m a"
    and "offset_of m' a = offset_of m a" and "host m' = host m"
    and "pte m' q = (if q = page then f (pte m page) else pte m q)"
  using assms by (auto simp: upd_page_def num_pages_def page_of_def offset_of_def pte_def split: if_splits)

lemma map_guarded_in: "page < num_pages m \<Longrightarrow> map_guarded page f m = upd_page page f m"
  by (simp add: map_guarded_def)

lemma upd_page_in: "page < num_pages m \<Longrightarrow> \<exists>m'. upd_page page f m = Inr m'"
  by (simp add: upd_page_def)

text \<open>
  A page mapped read-only is read-only on the bus: when it has no write or shadow handler,
  every write to it leaves the whole MMU unchanged, reads return the bytes it was mapped to, and
  no other page of the table has changed.
\<close>

lemma read_only_page_is_protected:
  assumes "map_page_read_only page (Some base) d m = Inr m'" and "page < num_pages m"
    and "write_h (pte m page) = None" and "shadow_h (pte m page) = None" and "page_of m a = page"
  shows "MMU_write H a v m' = Inr m' \<and>
     MMU_read H a m' = Inr (host m (base + offset_of m a), m') \<and>
     (\<forall>q. q \<noteq> page \<longrightarrow> pte m' q = pte m q)"
proof -
  note up = upd_page_pte [OF assms(1) [unfolded map_page_read_only_def map_guarded_in [OF assms(2)]]]
  show ?thesis
    using assms(2-5) by (auto simp: MMU_write_def MMU_read_def up Let_def)
qed

text \<open>
  Mapping a page for reading and writing makes it memory: inside the table
  \<^verbatim>\<open>map_page_both\<close> succeeds, drops the bus handlers, and every address of the page is then
  plain memory at the given host bytes (a shadow handler that was set stays).
\<close>

lemma map_page_both_gives_ram:
  assumes "in_table m a" and "shadow_h (pte m page) = None" and "page_no m a = page"
  shows "\<exists>m'. map_page_both page (Some base) d m = Inr m' \<and> ram_at m' a \<and>
     host_addr m' a = base + unat a mod 2 ^ page_size_bits m \<and> host m' = host m"
proof -
  have page: "page < num_pages m" using assms(1,3) by (simp add: in_table_def)
  obtain m' where m': "map_page_both page (Some base) d m = Inr m'"
    using upd_page_in [OF page] by (auto simp: map_page_both_def map_guarded_in [OF page])
  then have "page_table m' = (page_table m)[page := (pte m page)\<lparr>read_p := Some base, write_p := Some base, read_h := None,
      write_h := None, read_d := d, write_d := d\<rparr>]" "page_size_bits m' = page_size_bits m" "host m' = host m"
    using page by (auto simp: map_page_both_def map_guarded_in upd_page_def)
  then show ?thesis
    using m' assms page by (simp add: ram_at_def host_addr_def plain_page_def in_table_def page_no_def num_pages_def)
qed

text \<open>
  The raw accessors test \<^verbatim>\<open>page > num_pages\<close>, so the one page number that equals the
  table size slips through: they index past the table exactly there, where the bus side asserts;
  and \<^verbatim>\<open>write_raw\<close> stores through a null pointer exactly on a page that is readable but has
  no write pointer.  Everywhere else they return.
\<close>

lemma raw_access_faults:
  "(read_raw a m = Inl TableOverrun \<longleftrightarrow> page_of m a = num_pages m) \<and>
   (probe_readable a m = Inl TableOverrun \<longleftrightarrow> page_of m a = num_pages m) \<and>
   (write_raw a v m = Inl TableOverrun \<longleftrightarrow> page_of m a = num_pages m) \<and>
   (probe_poke a v m = Inl TableOverrun \<longleftrightarrow> page_of m a = num_pages m) \<and>
   (write_raw a v m = Inl NullStore \<longleftrightarrow> page_of m a < num_pages m \<and>
      read_p (pte m (page_of m a)) \<noteq> None \<and> write_p (pte m (page_of m a)) = None) \<and>
   (MMU_read H a m = Inl AssertFailed \<longleftrightarrow> num_pages m \<le> page_of m a)"
  by (auto simp: read_raw_def probe_readable_def write_raw_def probe_poke_def MMU_read_def Let_def
      split: option.splits sum.splits)

text \<open>
  A poke that reports success has landed: after \<^verbatim>\<open>probe_poke\<close> returned true, a
  \<^verbatim>\<open>probe_peek\<close> of the address returns the byte whenever the page reads and writes at the
  same place; and a poke that reports a refusal has changed nothing.
\<close>

lemma probe_poke_reports_truth:
  assumes "probe_poke a v m = Inr (ok, m')"
  shows "if ok then (write_p (pte m (page_of m a)) = read_p (pte m (page_of m a)) \<longrightarrow>
      probe_peek a m' = Inr v) else m' = m"
  using assms
  by (auto simp: probe_poke_def probe_peek_def write_raw_def read_raw_def Let_def
      split: if_splits option.splits sum.splits)

section \<open>Instances\<close>

text \<open>A II-family map: 256 pages of 256 bytes, RAM below \<open>$C000\<close>, ROM from \<open>$D000\<close>, and the
  I/O page left to handlers.\<close>

definition ii_page :: "nat \<Rightarrow> page_table_entry" where
  "ii_page p =
     (if p < 0xC0 then empty_page\<lparr>read_p := Some (p * 256), write_p := Some (p * 256)\<rparr>
      else if 0xD0 \<le> p then empty_page\<lparr>read_p := Some (p * 256)\<rparr>
      else empty_page)"

definition ii_mmu :: "unit mmu" where
  "ii_mmu = \<lparr>page_table = map ii_page [0..<256], page_size_bits = 8, floating_bus_val = 0xEE,
     host = (\<lambda>_. 0), devices = ()\<rparr>"

lemma ii_pages: "num_pages ii_mmu = 256" "p < 256 \<Longrightarrow> pte ii_mmu p = ii_page p"
  by (simp_all add: num_pages_def ii_mmu_def pte_def)

lemma ii_page_of: "page_of ii_mmu 0x1234 = 0x12" "page_of ii_mmu 0x2000 = 0x20"
  "page_of ii_mmu 0xD055 = 0xD0" "page_of ii_mmu 0x10000 = 256"
  by (simp_all add: page_of_def ii_mmu_def drop_bit_eq_div unat_div)

definition no_handlers :: "unit handlers" where
  "no_handlers = \<lparr>read_handler = (\<lambda>_ _ m. (0, m)), write_handler = (\<lambda>_ _ _ m. m)\<rparr>"

lemma ii_ram: "ram_at ii_mmu 0x1234" "ram_at ii_mmu 0x2000"
  by (simp_all add: ram_at_def in_table_def page_no_def num_pages_def ii_mmu_def ii_page_def plain_page_def empty_page_def)

theorem bus_read_after_write_witness:
  "ram_at ii_mmu 0x1234 \<and> ram_at ii_mmu 0x2000 \<and>
   (\<exists>m'. MMU_write no_handlers 0x1234 7 ii_mmu = Inr m' \<and>
     MMU_read no_handlers 0x2000 m' = Inr (if host_addr ii_mmu 0x2000 = host_addr ii_mmu 0x1234
       then 7 else host ii_mmu (host_addr ii_mmu 0x2000), m'))"
  using bus_read_after_write [OF ii_ram, of no_handlers 7] ii_ram by simp

lemma ii_page_facts: "write_h (pte ii_mmu 0x20) = None" "shadow_h (pte ii_mmu 0x20) = None"
  "(0x20 :: nat) < num_pages ii_mmu"
  by (simp_all add: ii_pages ii_page_def empty_page_def)

end
