(* ===== verification/Clock.thy ===== *)
theory Clock
  imports Prelude
begin

text \<open>
  The system clock (\<^verbatim>\<open>src/NClock.hpp\<close>): the base class \<^verbatim>\<open>NClock\<close> with its mode
  tables, the clock of the II family \<^verbatim>\<open>NClockII\<close> and the clock of the IIgs
  \<^verbatim>\<open>NClockIIgs\<close>.  Counters are 64-bit words.  The video scanner and the cycle handlers are
  functions on the state \<open>'d\<close> of the rest of the machine: one step of the clock maps a clock and
  a \<open>'d\<close> to the next pair.  The bus log and the observation globals are off.
\<close>

section \<open>Modes\<close>

datatype clock_mode_t =
  CLOCK_FREE_RUN | CLOCK_1_024MHZ | CLOCK_2_8MHZ | CLOCK_7_159MHZ | CLOCK_14_3MHZ

datatype clock_set_t = CLOCK_SET_US | CLOCK_SET_PAL

datatype cycle_type_t = CYCLE_TYPE_SYNC | CYCLE_TYPE_FAST_ROM | CYCLE_TYPE_FAST | CYCLE_TYPE_REFRESH

record clock_mode_info =
  hz_rate :: u64
  c14M_per_second :: u64
  cycles_per_frame :: u64
  c_14M_per_cpu_cycle :: u64
  extra_per_scanline :: u64
  cycles_per_scanline :: u64
  c14M_per_frame :: u64
  us_per_frame_even :: u64
  us_per_frame_odd :: u64
  vid_cycles_per_frame :: u64
  vid_cycles_per_second :: u64

definition mode_info ::
    "u64 \<Rightarrow> u64 \<Rightarrow> u64 \<Rightarrow> u64 \<Rightarrow> u64 \<Rightarrow> u64 \<Rightarrow> u64 \<Rightarrow> u64 \<Rightarrow> u64 \<Rightarrow> u64 \<Rightarrow> u64 \<Rightarrow> clock_mode_info" where
  "mode_info hz cs cf cc ex cl fr ue uo vf vs =
     \<lparr>hz_rate = hz, c14M_per_second = cs, cycles_per_frame = cf, c_14M_per_cpu_cycle = cc,
      extra_per_scanline = ex, cycles_per_scanline = cl, c14M_per_frame = fr,
      us_per_frame_even = ue, us_per_frame_odd = uo, vid_cycles_per_frame = vf,
      vid_cycles_per_second = vs\<rparr>"

fun us_clock_mode_info :: "clock_mode_t \<Rightarrow> clock_mode_info" where
  "us_clock_mode_info CLOCK_FREE_RUN =
     mode_info 14318180 14318180 238420 1 0 912 238944 16688154 16688155 17030 1020484"
| "us_clock_mode_info CLOCK_1_024MHZ =
     mode_info 1020484 14318180 17030 14 2 65 238944 16688154 16688155 17030 1020484"
| "us_clock_mode_info CLOCK_2_8MHZ =
     mode_info 2857370 14318180 47684 5 2 182 238944 16688154 16688155 17030 1020484"
| "us_clock_mode_info CLOCK_7_159MHZ =
     mode_info 7143390 14318180 119210 2 2 455 238944 16688154 16688155 17030 1020484"
| "us_clock_mode_info CLOCK_14_3MHZ =
     mode_info 14286780 14318180 238420 1 2 912 238944 16688154 16688155 17030 1020484"

fun pal_clock_mode_info :: "clock_mode_t \<Rightarrow> clock_mode_info" where
  "pal_clock_mode_info CLOCK_FREE_RUN =
     mode_info 14250450 14250450 283920 1 0 912 284544 19967369 19967370 20280 1015657"
| "pal_clock_mode_info CLOCK_1_024MHZ =
     mode_info 1015657 14250450 20280 14 2 65 284544 19967369 19967370 20280 1015657"
| "pal_clock_mode_info CLOCK_2_8MHZ =
     mode_info 2857370 14250450 56784 5 2 182 284544 19967369 19967370 20280 1015657"
| "pal_clock_mode_info CLOCK_7_159MHZ =
     mode_info 7143390 14250450 141960 2 2 455 284544 19967369 19967370 20280 1015657"
| "pal_clock_mode_info CLOCK_14_3MHZ =
     mode_info 14250450 14250450 283920 1 2 910 284544 19967369 19967370 20280 1015657"

fun system_clock_mode_info :: "clock_set_t \<Rightarrow> clock_mode_t \<Rightarrow> clock_mode_info" where
  "system_clock_mode_info CLOCK_SET_US = us_clock_mode_info"
| "system_clock_mode_info CLOCK_SET_PAL = pal_clock_mode_info"

definition LUDICROUS_CPU_PER_14M_MAX :: u32 where "LUDICROUS_CPU_PER_14M_MAX = 20"

section \<open>State\<close>

record 'd nclock =
  clock_set :: clock_set_t
  current :: clock_mode_info
  clock_mode :: clock_mode_t
  cycles :: u64
  c_14M :: u64
  video_cycles :: u64
  video_cycle_14M_count :: u64
  scanline_14M_count :: u64
  frame_start_c14M :: u64
  frame_end_c14M :: u64
  frame_count :: u64
  cpu_per_14m :: u32
  cpu_div :: u32
  video_scanner :: "('d \<Rightarrow> 'd) option"
  cycle_handlers :: "('d \<Rightarrow> 'd) list"
  slow_mode :: bool
  ram_refresh_cycles :: u64
  vidlinecycles :: u64
  video_c14m :: u64
  cycle_type :: cycle_type_t

definition set_cpu_per_14m :: "u32 \<Rightarrow> 'd nclock \<Rightarrow> 'd nclock" where
  "set_cpu_per_14m n k =
     (let n1 = (if n < 1 then 1 else n);
          n2 = (if n1 > LUDICROUS_CPU_PER_14M_MAX then LUDICROUS_CPU_PER_14M_MAX else n1)
      in k\<lparr>cpu_per_14m := n2, cpu_div := 0\<rparr>)"

definition select_system_clock :: "clock_set_t \<Rightarrow> 'd nclock \<Rightarrow> 'd nclock" where
  "select_system_clock cs k = k\<lparr>clock_set := cs\<rparr>"

definition set_clock_mode :: "clock_mode_t \<Rightarrow> 'd nclock \<Rightarrow> 'd nclock" where
  "set_clock_mode mode k =
     (if mode = CLOCK_FREE_RUN then
        k\<lparr>clock_mode := mode, current := system_clock_mode_info (clock_set k) CLOCK_14_3MHZ\<rparr>
      else
        k\<lparr>clock_mode := mode, current := system_clock_mode_info (clock_set k) mode,
          cpu_per_14m := 1, cpu_div := 0\<rparr>)"

text \<open>The constructor (\<^verbatim>\<open>cycle_handlers\<close> empty, no scanner yet).\<close>

definition NClock :: "clock_set_t \<Rightarrow> clock_mode_t \<Rightarrow> 'd nclock" where
  "NClock cs mode =
     (let k = set_clock_mode mode
          \<lparr>clock_set = cs, current = us_clock_mode_info CLOCK_1_024MHZ, clock_mode = mode,
           cycles = 0, c_14M = 0, video_cycles = 0, video_cycle_14M_count = 0,
           scanline_14M_count = 0, frame_start_c14M = 0, frame_end_c14M = 0, frame_count = 0,
           cpu_per_14m = 1, cpu_div = 0, video_scanner = None, cycle_handlers = [],
           slow_mode = False, ram_refresh_cycles = 0, vidlinecycles = 0, video_c14m = 0,
           cycle_type = CYCLE_TYPE_FAST\<rparr>
      in k\<lparr>frame_end_c14M := c14M_per_frame (current k)\<rparr>)"

definition set_video_scanner :: "('d \<Rightarrow> 'd) \<Rightarrow> 'd nclock \<Rightarrow> 'd nclock" where
  "set_video_scanner f k = k\<lparr>video_scanner := Some f\<rparr>"

definition set_cycle_handler :: "('d \<Rightarrow> 'd) \<Rightarrow> 'd nclock \<Rightarrow> 'd nclock" where
  "set_cycle_handler f k = k\<lparr>cycle_handlers := cycle_handlers k @ [f]\<rparr>"

definition get_hz_rate :: "'d nclock \<Rightarrow> u64" where
  "get_hz_rate k =
     (if clock_mode k = CLOCK_FREE_RUN then c14M_per_second (current k) * ucast (cpu_per_14m k)
      else hz_rate (current k))"

definition adjust_c14m :: "u64 \<Rightarrow> 'd nclock \<Rightarrow> 'd nclock" where
  "adjust_c14m amount k = k\<lparr>c_14M := c_14M k + amount\<rparr>"

definition next_frame :: "'d nclock \<Rightarrow> 'd nclock" where
  "next_frame k =
     k\<lparr>frame_start_c14M := frame_end_c14M k,
       frame_end_c14M := frame_end_c14M k + c14M_per_frame (current k),
       frame_count := frame_count k + 1\<rparr>"

fun mode_index :: "clock_mode_t \<Rightarrow> int" where
  "mode_index CLOCK_FREE_RUN = 0" | "mode_index CLOCK_1_024MHZ = 1"
| "mode_index CLOCK_2_8MHZ = 2" | "mode_index CLOCK_7_159MHZ = 3" | "mode_index CLOCK_14_3MHZ = 4"

definition toggle :: "int \<Rightarrow> 'd nclock \<Rightarrow> int" where
  "toggle direction k =
     (let new_mode = mode_index (clock_mode k) + direction
      in if new_mode < 0 then 4 else if new_mode \<ge> 5 then 0 else new_mode)"

section \<open>One processor cycle\<close>

text \<open>\<^verbatim>\<open>video_scanner->video_cycle()\<close> and then the cycle handlers, in order.\<close>

definition do_video_cycle :: "'d nclock \<Rightarrow> 'd \<Rightarrow> 'd" where
  "do_video_cycle k d =
     fold (\<lambda>h. h) (cycle_handlers k) (case video_scanner k of None \<Rightarrow> d | Some f \<Rightarrow> f d)"

text \<open>The multiplier of the ludicrous mode: \<^verbatim>\<open>True\<close> when this cycle does not reach the next
  14M tick.\<close>

definition ludicrous_skip :: "'d nclock \<Rightarrow> bool \<times> 'd nclock" where
  "ludicrous_skip k =
     (if cpu_per_14m k > 1 then
        if cpu_div k + 1 < cpu_per_14m k then (True, k\<lparr>cpu_div := cpu_div k + 1\<rparr>)
        else (False, k\<lparr>cpu_div := 0\<rparr>)
      else (False, k))"

definition slow_incr_cycles_II :: "'d nclock \<times> 'd \<Rightarrow> 'd nclock \<times> 'd" where
  "slow_incr_cycles_II st =
     (let (k, d) = st;
          (skip, k1) = ludicrous_skip (k\<lparr>cycles := cycles k + 1\<rparr>);
          per = c_14M_per_cpu_cycle (current k)
      in if skip then (k1, d)
         else
           let k2 = k1\<lparr>c_14M := c_14M k1 + per\<rparr>
           in if video_scanner k = None then (k2, d)
              else
                let k3 = k2\<lparr>video_cycle_14M_count := video_cycle_14M_count k2 + per,
                            scanline_14M_count := scanline_14M_count k2 + per\<rparr>;
                    (k4, d') =
                      (if video_cycle_14M_count k3 \<ge> 14
                       then (k3\<lparr>video_cycle_14M_count := video_cycle_14M_count k3 - 14,
                               video_cycles := video_cycles k3 + 1\<rparr>, do_video_cycle k3 d)
                       else (k3, d))
                in if scanline_14M_count k4 \<ge> 910
                   then (k4\<lparr>c_14M := c_14M k4 + extra_per_scanline (current k),
                           scanline_14M_count := 0\<rparr>, d')
                   else (k4, d'))"

text \<open>The catch-up loop of the IIgs clock.\<close>

function video_catch_up :: "'d nclock \<times> 'd \<Rightarrow> 'd nclock \<times> 'd" where
  "video_catch_up (k, d) =
     (if video_cycle_14M_count k \<ge> 14
      then video_catch_up
             (k\<lparr>video_cycle_14M_count := video_cycle_14M_count k - 14,
                video_cycles := video_cycles k + 1,
                vidlinecycles := vidlinecycles k + 1\<rparr>, do_video_cycle k d)
      else (k, d))"
  by pat_completeness auto

termination
  by (relation "measure (\<lambda>(k, d). unat (video_cycle_14M_count k))")
     (auto simp: word_le_nat_alt unat_sub)

declare video_catch_up.simps [simp del]

definition refresh :: "u64 \<Rightarrow> 'd nclock \<Rightarrow> bool \<times> 'd nclock" where
  "refresh cost k =
     (let r = ram_refresh_cycles k + cost
      in if r \<ge> 50 then (True, k\<lparr>ram_refresh_cycles := r - 50\<rparr>)
         else (False, k\<lparr>ram_refresh_cycles := r\<rparr>))"

text \<open>The type of the cycle after the machine-wide overrides, and its cost in 14M ticks.\<close>

definition effective_type :: "'d nclock \<Rightarrow> cycle_type_t" where
  "effective_type k =
     (if slow_mode k \<or> hz_rate (current k) = 1020484 then CYCLE_TYPE_SYNC else cycle_type k)"

definition cycle_cost :: "'d nclock \<Rightarrow> u64 \<times> 'd nclock" where
  "cycle_cost k =
     (case cycle_type k of
        CYCLE_TYPE_SYNC \<Rightarrow>
          let cost = (if video_cycle_14M_count k \<noteq> 0 then 14 + (14 - video_cycle_14M_count k) else 14)
          in (cost, snd (refresh cost k))
      | CYCLE_TYPE_FAST_ROM \<Rightarrow>
          let cost = c_14M_per_cpu_cycle (current k) in (cost, snd (refresh cost k))
      | _ \<Rightarrow>
          let cost = c_14M_per_cpu_cycle (current k); (due, k') = refresh cost k
          in (if due then cost + 5 else cost, k'))"

text \<open>The head of the cycle (type and multiplier), its cost and video work, and the whole.\<close>

definition begin_cycle_IIgs :: "'d nclock \<Rightarrow> bool \<times> 'd nclock" where
  "begin_cycle_IIgs k =
     (let k1 = k\<lparr>cycles := cycles k + 1, cycle_type := effective_type k\<rparr>
      in if cycle_type k1 = CYCLE_TYPE_SYNC then (False, k1\<lparr>cpu_div := 0\<rparr>)
         else ludicrous_skip k1)"

definition charge_cycle_IIgs :: "'d nclock \<times> 'd \<Rightarrow> 'd nclock \<times> 'd" where
  "charge_cycle_IIgs st =
     (let (k, d) = st;
          (cost, k1) = cycle_cost k;
          k2 = k1\<lparr>c_14M := c_14M k1 + cost\<rparr>
      in if video_scanner k = None then (k2, d)
         else
           let k3 = k2\<lparr>video_cycle_14M_count :=
                         video_cycle_14M_count k2 + (c_14M k2 - video_c14m k2),
                       video_c14m := c_14M k2\<rparr>;
               (k4, d') = video_catch_up (k3, d)
           in if vidlinecycles k4 \<ge> 65
              then (k4\<lparr>vidlinecycles := vidlinecycles k4 - 65,
                      c_14M := c_14M k4 + extra_per_scanline (current k4),
                      video_c14m := video_c14m k4 + extra_per_scanline (current k4)\<rparr>, d')
              else (k4, d'))"

definition slow_incr_cycles_IIgs :: "'d nclock \<times> 'd \<Rightarrow> 'd nclock \<times> 'd" where
  "slow_incr_cycles_IIgs st =
     (let (k, d) = st;
          (skip, k1) = begin_cycle_IIgs k;
          (k2, d') = (if skip then (k1, d) else charge_cycle_IIgs (k1, d))
      in (k2\<lparr>cycle_type := CYCLE_TYPE_FAST\<rparr>, d'))"

section \<open>Scan lines and frames of the II family\<close>

text \<open>The clock \<open>n\<close> cycles and \<open>a\<close> ticks into a scan line that began in \<open>k\<close>.\<close>

definition in_line :: "'d nclock \<Rightarrow> nat \<Rightarrow> nat \<Rightarrow> 'd nclock" where
  "in_line k n a =
     k\<lparr>cycles := cycles k + of_nat n, c_14M := c_14M k + of_nat a,
       video_cycles := video_cycles k + of_nat (a div 14),
       video_cycle_14M_count := of_nat (a mod 14), scanline_14M_count := of_nat a\<rparr>"

text \<open>The clock \<open>n\<close> cycles later, at the start of the \<open>l\<close>-th scan line after \<open>k\<close>.\<close>

definition lines_later :: "'d nclock \<Rightarrow> nat \<Rightarrow> nat \<Rightarrow> 'd nclock" where
  "lines_later k n l =
     k\<lparr>cycles := cycles k + of_nat n,
       c_14M := c_14M k + of_nat l * (910 + extra_per_scanline (current k)),
       video_cycles := video_cycles k + of_nat (65 * l),
       video_cycle_14M_count := 0, scanline_14M_count := 0\<rparr>"

definition line_start :: "'d nclock \<Rightarrow> nat \<Rightarrow> bool" where
  "line_start k p \<longleftrightarrow> video_scanner k \<noteq> None \<and> cpu_per_14m k \<le> 1 \<and>
     c_14M_per_cpu_cycle (current k) = of_nat p \<and> 0 < p \<and> p \<le> 14 \<and>
     video_cycle_14M_count k = 0 \<and> scanline_14M_count k = 0"

lemma of_nat_u64_le: "a < 2 ^ 64 \<Longrightarrow> b < 2 ^ 64 \<Longrightarrow> (of_nat a :: u64) \<le> of_nat b \<longleftrightarrow> a \<le> b"
  by (simp add: word_le_nat_alt unat_of_nat take_bit_nat_eq_self)

lemma div_mod_14_add:
  fixes a p :: nat
  assumes "p \<le> 14"
  shows "(a + p) div 14 = (if 14 \<le> a mod 14 + p then Suc (a div 14) else a div 14)"
    and "(a + p) mod 14 = (if 14 \<le> a mod 14 + p then a mod 14 + p - 14 else a mod 14 + p)"
proof -
  define r where "r = a mod 14 + p"
  have r: "r < 28" using assms mod_less_divisor [of 14 a] by (simp add: r_def)
  have a: "a + p = r + (a div 14) * 14" by (simp add: r_def)
  have "r div 14 = (if 14 \<le> r then 1 else 0)" "r mod 14 = (if 14 \<le> r then r - 14 else r)"
    using r by (auto simp: le_div_geq le_mod_geq)
  then show "(a + p) div 14 = (if 14 \<le> a mod 14 + p then Suc (a div 14) else a div 14)"
    and "(a + p) mod 14 = (if 14 \<le> a mod 14 + p then a mod 14 + p - 14 else a mod 14 + p)"
    unfolding r_def [symmetric] a by simp_all
qed

text \<open>One cycle of a clock with a scanner and no multiplier, as one update.\<close>

lemma slow_incr_cycles_II_plain:
  assumes "video_scanner k \<noteq> None" and "cpu_per_14m k \<le> 1"
    and "v = video_cycle_14M_count k + c_14M_per_cpu_cycle (current k)"
    and "l = scanline_14M_count k + c_14M_per_cpu_cycle (current k)"
  shows "fst (slow_incr_cycles_II (k, d)) =
     k\<lparr>cycles := cycles k + 1,
       c_14M := c_14M k + c_14M_per_cpu_cycle (current k) +
         (if 910 \<le> l then extra_per_scanline (current k) else 0),
       video_cycles := video_cycles k + (if 14 \<le> v then 1 else 0),
       video_cycle_14M_count := (if 14 \<le> v then v - 14 else v),
       scanline_14M_count := (if 910 \<le> l then 0 else l)\<rparr>"
  using assms by (auto simp: slow_incr_cycles_II_def ludicrous_skip_def Let_def)

lemma in_line_step:
  assumes "line_start k p" and "a + p < 910"
  shows "fst (slow_incr_cycles_II (in_line k n a, d)) = in_line k (Suc n) (a + p)"
proof -
  have p: "p \<le> 14" using assms(1) by (simp add: line_start_def)
  have count: "(14 :: u64) \<le> of_nat (a mod 14) + of_nat p \<longleftrightarrow> 14 \<le> a mod 14 + p"
    using of_nat_u64_le [of 14 "a mod 14 + p"] p by simp
  have line: "\<not> (910 :: u64) \<le> of_nat a + of_nat p"
    using of_nat_u64_le [of 910 "a + p"] assms(2) by simp
  have sc: "video_scanner (in_line k n a) \<noteq> None" "cpu_per_14m (in_line k n a) \<le> 1"
    using assms(1) by (simp_all add: line_start_def in_line_def)
  show ?thesis
    unfolding slow_incr_cycles_II_plain [OF sc refl refl]
    using assms(1) count line
    by (simp add: in_line_def line_start_def div_mod_14_add [OF p])
qed

lemma in_line_end:
  assumes "line_start k p" and "a + p = 910"
  shows "fst (slow_incr_cycles_II (in_line k n a, d)) = lines_later k (Suc n) 1"
proof -
  have p: "0 < p" "p \<le> 14" using assms(1) by (simp_all add: line_start_def)
  have wrap: "14 \<le> a mod 14 + p" "a mod 14 + p - 14 = 0" "Suc (a div 14) = 65"
    using div_mod_14_add [OF p(2), of a] p(1) assms(2) by (auto split: if_splits)
  have a: "of_nat (a mod 14) + of_nat p = (14 :: u64)" "of_nat a + of_nat p = (910 :: u64)"
    using wrap(1,2) assms(2) by (simp_all flip: of_nat_add)
  have v: "of_nat (a div 14) + (1 :: u64) = 65"
    using wrap(3) by (metis of_nat_Suc of_nat_numeral add.commute)
  have sc: "video_scanner (in_line k n a) \<noteq> None" "cpu_per_14m (in_line k n a) \<le> 1"
    using assms(1) by (simp_all add: line_start_def in_line_def)
  show ?thesis
    unfolding slow_incr_cycles_II_plain [OF sc refl refl]
    using assms(1) a v
    by (simp add: in_line_def lines_later_def line_start_def add.assoc)
qed

lemma funpow_pair: "(f ^^ Suc n) x = f (fst ((f ^^ n) x), snd ((f ^^ n) x))"
  by simp

lemma line_run:
  assumes "line_start k p" and "j * p < 910"
  shows "fst ((slow_incr_cycles_II ^^ j) (k, d)) = in_line k j (j * p)"
  using assms(2)
proof (induction j)
  case 0
  show ?case using assms(1) by (simp add: in_line_def line_start_def)
next
  case (Suc j)
  then have "fst ((slow_incr_cycles_II ^^ j) (k, d)) = in_line k j (j * p)" by simp
  then show ?case
    using in_line_step [OF assms(1), of "j * p" j "snd ((slow_incr_cycles_II ^^ j) (k, d))"] Suc.prems
    by (simp only: funpow_pair) (simp add: add.commute)
qed

lemma whole_line:
  assumes "line_start k p" and "m * p = 910"
  shows "fst ((slow_incr_cycles_II ^^ m) (k, d)) = lines_later k m 1"
proof -
  obtain j where m: "m = Suc j" using assms(2) by (cases m) auto
  have "j * p < 910" using assms by (auto simp: m line_start_def)
  from line_run [OF assms(1) this, of d] show ?thesis
    using in_line_end [OF assms(1), of "j * p" j "snd ((slow_incr_cycles_II ^^ j) (k, d))"] assms(2)
    unfolding m by (simp only: funpow_pair) (simp add: add.commute)
qed

lemma lines_later_start: "line_start k p \<Longrightarrow> line_start (lines_later k n l) p"
  by (simp add: line_start_def lines_later_def)

lemma lines_later_add: "lines_later (lines_later k n l) m 1 = lines_later k (n + m) (Suc l)"
  by (simp add: lines_later_def algebra_simps)

lemma scanlines_run:
  assumes "line_start k p" and "m * p = 910"
  shows "fst ((slow_incr_cycles_II ^^ (m * l)) (k, d)) = lines_later k (m * l) l"
proof (induction l)
  case 0
  show ?case using assms(1) by (simp add: lines_later_def line_start_def)
next
  case (Suc l)
  have "(slow_incr_cycles_II ^^ (m * Suc l)) (k, d) =
      (slow_incr_cycles_II ^^ m) ((slow_incr_cycles_II ^^ (m * l)) (k, d))"
    by (simp add: funpow_add)
  then show ?case
    using whole_line [OF lines_later_start [OF assms(1)] assms(2),
        of "m * l" l "snd ((slow_incr_cycles_II ^^ (m * l)) (k, d))"] Suc
    by (metis add.commute lines_later_add mult_Suc_right prod.collapse)
qed

definition frame_lines :: "clock_set_t \<Rightarrow> nat" where
  "frame_lines cs = (case cs of CLOCK_SET_US \<Rightarrow> 262 | CLOCK_SET_PAL \<Rightarrow> 312)"

definition mode_ticks :: "clock_mode_t \<Rightarrow> nat" where
  "mode_ticks mode =
     (case mode of CLOCK_1_024MHZ \<Rightarrow> 14 | CLOCK_2_8MHZ \<Rightarrow> 5 | CLOCK_7_159MHZ \<Rightarrow> 2 | _ \<Rightarrow> 1)"

lemma mode_ticks: "0 < mode_ticks mode" "mode_ticks mode \<le> 14"
  "910 div mode_ticks mode * mode_ticks mode = 910"
  by (cases mode; simp add: mode_ticks_def)+

text \<open>The frame figures of the tables are whole numbers of 912-tick scan lines.\<close>

lemma table_frames:
  assumes "info = current (NClock cs mode :: 'd nclock)"
  shows "c_14M_per_cpu_cycle info = of_nat (mode_ticks mode)" and "extra_per_scanline info = 2"
    and "unat (cycles_per_frame info) = (910 div mode_ticks mode) * frame_lines cs"
    and "c14M_per_frame info = of_nat (frame_lines cs) * 912"
    and "vid_cycles_per_frame info = of_nat (65 * frame_lines cs)"
  unfolding assms
  by (cases cs; cases mode;
      simp add: NClock_def set_clock_mode_def mode_info_def mode_ticks_def frame_lines_def Let_def)+

text \<open>
  C35.  A video frame takes exactly the time its table row says, in every mode of both clock sets:
  from a fresh clock of the II family with a scanner attached, after \<open>q\<close> times
  \<^verbatim>\<open>cycles_per_frame\<close> processor cycles the 14M counter has advanced by \<open>q\<close> times
  \<^verbatim>\<open>c14M_per_frame\<close> and the scanner has been stepped \<open>q\<close> times
  \<^verbatim>\<open>vid_cycles_per_frame\<close> times, and both counters stand at a line start again.
\<close>

theorem frame_timing:
  "let k0 = set_video_scanner f (NClock cs mode);
       k = fst ((slow_incr_cycles_II ^^ (unat (cycles_per_frame (current k0)) * q)) (k0, d))
    in c_14M k = of_nat q * c14M_per_frame (current k0) \<and>
       video_cycles k = of_nat q * vid_cycles_per_frame (current k0) \<and>
       video_cycle_14M_count k = 0 \<and> scanline_14M_count k = 0"
proof -
  define k0 where "k0 = set_video_scanner f (NClock cs mode)"
  note table = table_frames [OF refl, of cs mode, where 'd = 'a]
  have "line_start k0 (mode_ticks mode)"
    using mode_ticks [of mode] table(1)
    by (simp add: line_start_def k0_def set_video_scanner_def)
       (simp add: NClock_def set_clock_mode_def Let_def)
  note run = scanlines_run [OF this mode_ticks(3), of "frame_lines cs * q" d]
  have zero: "c_14M k0 = 0" "video_cycles k0 = 0" "current k0 = current (NClock cs mode :: 'a nclock)"
    by (simp_all add: k0_def set_video_scanner_def NClock_def set_clock_mode_def Let_def)
  show ?thesis
    using run unfolding k0_def [symmetric] zero(3) table(3) mult.assoc
    by (simp add: Let_def lines_later_def zero table algebra_simps)
qed

section \<open>The ludicrous multiplier\<close>

lemma ludicrous_run:
  assumes "1 < cpu_per_14m k" and "cpu_div k = 0" and "j < unat (cpu_per_14m k)"
  shows "(slow_incr_cycles_II ^^ j) (k, d) = (k\<lparr>cycles := cycles k + of_nat j, cpu_div := of_nat j\<rparr>, d)"
  using assms(3)
proof (induction j)
  case 0
  show ?case using assms(2) by simp
next
  case (Suc j)
  have "unat (cpu_per_14m k) < 2 ^ LENGTH(32)" by (rule unsigned_less)
  then have "(of_nat (Suc j) :: u32) < cpu_per_14m k"
    using Suc.prems
    by (simp add: word_less_nat_alt unat_of_nat take_bit_nat_eq_self del: of_nat_Suc)
  then have "(of_nat j + 1 :: u32) < cpu_per_14m k" by (simp add: add.commute)
  then show ?case
    using Suc assms(1)
    by (simp add: slow_incr_cycles_II_def ludicrous_skip_def Let_def algebra_simps)
qed

text \<open>
  In the ludicrous mode \<open>N\<close> processor cycles share one 14M tick: a clock whose multiplier is
  \<open>N > 1\<close> does in \<open>N\<close> cycles what the plain clock does in one, video cycle included, and only the
  processor cycle counter has moved further.
\<close>

lemma ludicrous_shares_tick:
  assumes "1 < cpu_per_14m k" and "cpu_div k = 0"
  shows "(slow_incr_cycles_II ^^ unat (cpu_per_14m k)) (k, d) =
     (let (k', d') = slow_incr_cycles_II (k\<lparr>cpu_per_14m := 1\<rparr>, d)
      in (k'\<lparr>cycles := cycles k + ucast (cpu_per_14m k), cpu_per_14m := cpu_per_14m k\<rparr>, d'))"
proof -
  obtain j where j: "unat (cpu_per_14m k) = Suc j"
    using assms(1) by (cases "unat (cpu_per_14m k)") (auto simp: word_less_nat_alt)
  have "of_nat (unat (cpu_per_14m k)) = cpu_per_14m k" by simp
  then have n: "of_nat j + 1 = cpu_per_14m k" "(of_nat j :: u64) + 1 = ucast (cpu_per_14m k)"
    using of_nat_unat [of "cpu_per_14m k", where 'a = "64 word"] unfolding j
    by (simp_all add: add.commute)
  have "(slow_incr_cycles_II ^^ unat (cpu_per_14m k)) (k, d) =
      slow_incr_cycles_II (k\<lparr>cycles := cycles k + of_nat j, cpu_div := of_nat j\<rparr>, d)"
    using ludicrous_run [OF assms, of j d] j by simp
  then show ?thesis
    using assms n
    by (auto simp: slow_incr_cycles_II_def ludicrous_skip_def Let_def do_video_cycle_def add.assoc
        split: if_splits)
qed

section \<open>The IIgs clock\<close>

lemma div_mod_14_step:
  fixes v :: u64
  assumes "14 \<le> v"
  shows "(v - 14) mod 14 = v mod 14" and "v div 14 = (v - 14) div 14 + 1"
proof -
  have u: "unat (v - 14) = unat v - 14" "14 \<le> unat v"
    using assms by (simp_all add: unat_sub word_le_nat_alt)
  show "(v - 14) mod 14 = v mod 14"
    using u by (simp add: word_arith_nat_mod le_mod_geq)
  show "v div 14 = (v - 14) div 14 + 1"
    using u by (simp add: word_arith_nat_div le_div_geq)
qed

lemma video_catch_up_clock:
  "fst (video_catch_up (k, d)) =
     k\<lparr>video_cycle_14M_count := video_cycle_14M_count k mod 14,
       video_cycles := video_cycles k + video_cycle_14M_count k div 14,
       vidlinecycles := vidlinecycles k + video_cycle_14M_count k div 14\<rparr>"
proof (induction "(k, d)" arbitrary: k d rule: video_catch_up.induct)
  case (1 k d)
  show ?case
  proof (cases "14 \<le> video_cycle_14M_count k")
    case True
    then show ?thesis
      using 1 [OF True] div_mod_14_step [OF True]
      by (simp add: video_catch_up.simps [of k] add.assoc add.commute)
  next
    case False
    then have "unat (video_cycle_14M_count k) < 14" by (simp add: word_le_nat_alt)
    then show ?thesis
      using False
      by (simp add: video_catch_up.simps [of k] word_arith_nat_mod word_arith_nat_div)
  qed
qed

text \<open>What every cycle keeps: the video clock is caught up, less than one video cycle is owed,
  and less than a line of video cycles is counted.\<close>

definition gs_ok :: "'d nclock \<Rightarrow> bool" where
  "gs_ok k \<longleftrightarrow> video_cycle_14M_count k < 14 \<and> vidlinecycles k < 65 \<and> video_c14m k = c_14M k"

lemma refresh_fields:
  "snd (refresh c k) = k\<lparr>ram_refresh_cycles := ram_refresh_cycles (snd (refresh c k))\<rparr>"
  by (simp add: refresh_def Let_def)

lemma cycle_cost_fields:
  "\<exists>r. snd (cycle_cost k) = k\<lparr>ram_refresh_cycles := r\<rparr>"
  using refresh_fields
  by (auto simp: cycle_cost_def Let_def case_prod_beta split: cycle_type_t.split intro: exI)

text \<open>The ticks owed to the video clock after a cycle that is not skipped.\<close>

lemma cycle_cost_owed:
  assumes "video_cycle_14M_count k < 14" and "c_14M_per_cpu_cycle (current k) \<le> 14"
  defines "owed \<equiv> video_cycle_14M_count k + fst (cycle_cost k)"
  shows "owed < 42" and "cycle_type k = CYCLE_TYPE_SYNC \<Longrightarrow>
    owed = (if video_cycle_14M_count k = 0 then 14 else 28)"
proof -
  show sync: "cycle_type k = CYCLE_TYPE_SYNC \<Longrightarrow>
    owed = (if video_cycle_14M_count k = 0 then 14 else 28)"
    by (simp add: owed_def cycle_cost_def Let_def)
  have small: "a + b < 42" if "a < 14" "b \<le> 19" for a b :: u64
  proof -
    have "unat a + unat b < 33" using that by (simp add: word_less_nat_alt word_le_nat_alt)
    then show ?thesis by (simp add: word_less_nat_alt unat_word_ariths take_bit_nat_eq_self)
  qed
  have fast: "fst (cycle_cost k) \<le> 19" if "cycle_type k \<noteq> CYCLE_TYPE_SYNC"
  proof -
    have "c_14M_per_cpu_cycle (current k) + 5 \<le> 19" "c_14M_per_cpu_cycle (current k) \<le> 19"
      using assms(2) by (auto simp: word_le_nat_alt unat_word_ariths take_bit_nat_eq_self)
    then show ?thesis
      using that by (cases "cycle_type k") (auto simp: cycle_cost_def Let_def case_prod_beta)
  qed
  show "owed < 42"
    using sync small [OF assms(1) fast] by (cases "cycle_type k = CYCLE_TYPE_SYNC") (auto simp: owed_def)
qed

lemma charge_cycle_clock:
  assumes "video_scanner k \<noteq> None" and "video_c14m k = c_14M k"
    and "owed = video_cycle_14M_count k + fst (cycle_cost k)"
    and "vl = vidlinecycles k + owed div 14"
    and "extra = (if 65 \<le> vl then extra_per_scanline (current k) else 0)"
  shows "fst (charge_cycle_IIgs (k, d)) =
     (snd (cycle_cost k))\<lparr>c_14M := c_14M k + fst (cycle_cost k) + extra,
        video_cycles := video_cycles k + owed div 14, video_cycle_14M_count := owed mod 14,
        vidlinecycles := (if 65 \<le> vl then vl - 65 else vl),
        video_c14m := c_14M k + fst (cycle_cost k) + extra\<rparr>"
proof -
  obtain r where r: "snd (cycle_cost k) = k\<lparr>ram_refresh_cycles := r\<rparr>"
    using cycle_cost_fields by blast
  show ?thesis
    using assms
    by (auto simp: charge_cycle_IIgs_def case_prod_beta Let_def r video_catch_up_clock)
qed

lemma begin_cycle_fields:
  "snd (begin_cycle_IIgs k) = k\<lparr>cycles := cycles k + 1, cycle_type := effective_type k,
     cpu_div := cpu_div (snd (begin_cycle_IIgs k))\<rparr>"
  by (simp add: begin_cycle_IIgs_def ludicrous_skip_def Let_def)

lemma mod_14_less: "v mod 14 < 14" for v :: u64
  by (simp add: word_mod_less_divisor)

lemma div_14_le:
  fixes v :: u64
  assumes "v < 42"
  shows "v div 14 \<le> 2"
proof -
  have "unat v div 14 \<le> 2" using assms by (simp add: word_less_nat_alt)
  then show ?thesis by (simp add: word_le_nat_alt unat_div)
qed

lemma line_count_less:
  fixes n m :: u64
  assumes "n < 65" and "m \<le> 2"
  shows "(if 65 \<le> n + m then n + m - 65 else n + m) < 65"
proof -
  have "unat (n + m) = unat n + unat m" "unat (n + m) < 67"
    using assms by (simp_all add: word_less_nat_alt word_le_nat_alt unat_word_ariths take_bit_nat_eq_self)
  then show ?thesis
    by (auto simp: word_less_nat_alt word_le_nat_alt unat_sub)
qed

text \<open>
  C36.  The IIgs clock keeps its video side in step: with a scanner attached and a mode of at most
  14 ticks per cycle, after every processor cycle of any type the video clock is caught up with
  the 14M counter, less than one video cycle is owed and less than a line of video cycles is
  counted; and a cycle that runs at the 1 MHz side (\<^verbatim>\<open>CYCLE_TYPE_SYNC\<close>) ends exactly on a
  video cycle boundary.
\<close>

theorem IIgs_clock_in_step:
  assumes "video_scanner k \<noteq> None" and "gs_ok k" and "c_14M_per_cpu_cycle (current k) \<le> 14"
    and "k' = fst (slow_incr_cycles_IIgs (k, d))"
  shows "gs_ok k' \<and> (effective_type k = CYCLE_TYPE_SYNC \<longrightarrow> video_cycle_14M_count k' = 0)"
proof -
  define k1 where "k1 = snd (begin_cycle_IIgs k)"
  obtain dv where k1: "k1 = k\<lparr>cycles := cycles k + 1, cycle_type := effective_type k, cpu_div := dv\<rparr>"
    using begin_cycle_fields [of k] unfolding k1_def by blast
  have k': "k' = (if fst (begin_cycle_IIgs k) then k1 else fst (charge_cycle_IIgs (k1, d)))
      \<lparr>cycle_type := CYCLE_TYPE_FAST\<rparr>"
    by (simp add: assms(4) slow_incr_cycles_IIgs_def case_prod_beta Let_def k1_def)
  have sync: "\<not> fst (begin_cycle_IIgs k)" if "effective_type k = CYCLE_TYPE_SYNC"
    using that by (simp add: begin_cycle_IIgs_def Let_def)
  have ok: "video_scanner k1 \<noteq> None" "video_c14m k1 = c_14M k1" "vidlinecycles k1 < 65"
    "video_cycle_14M_count k1 < 14" "c_14M_per_cpu_cycle (current k1) \<le> 14"
    "cycle_type k1 = effective_type k" "video_cycle_14M_count k1 = video_cycle_14M_count k"
    using assms(1-3) by (simp_all add: k1 gs_ok_def)
  note owed = cycle_cost_owed [OF ok(4,5)]
  note charge = charge_cycle_clock [OF ok(1,2) refl refl refl, of d]
  have charged: "gs_ok (fst (charge_cycle_IIgs (k1, d)))"
    using line_count_less [OF ok(3) div_14_le [OF owed(1)]]
    by (simp add: charge gs_ok_def mod_14_less)
  have aligned: "video_cycle_14M_count (fst (charge_cycle_IIgs (k1, d))) = 0"
    if "effective_type k = CYCLE_TYPE_SYNC"
    using owed(2) that by (simp add: charge ok(6))
  have "gs_ok k1" using assms(2) by (simp add: k1 gs_ok_def)
  then show ?thesis
    using charged aligned sync unfolding k' by (auto simp: gs_ok_def)
qed

theorem IIgs_clock_in_step_witness:
  "let k = set_video_scanner (\<lambda>d. d) (NClock CLOCK_SET_US CLOCK_1_024MHZ) :: unit nclock;
       k' = fst (slow_incr_cycles_IIgs (k, ()))
   in video_scanner k \<noteq> None \<and> gs_ok k \<and> c_14M_per_cpu_cycle (current k) \<le> 14 \<and>
      effective_type k = CYCLE_TYPE_SYNC \<and> gs_ok k' \<and> video_cycle_14M_count k' = 0"
proof -
  let ?k = "set_video_scanner (\<lambda>d. d) (NClock CLOCK_SET_US CLOCK_1_024MHZ) :: unit nclock"
  have "video_scanner ?k \<noteq> None" "gs_ok ?k" "c_14M_per_cpu_cycle (current ?k) \<le> 14"
    "effective_type ?k = CYCLE_TYPE_SYNC"
    by (simp_all add: set_video_scanner_def NClock_def set_clock_mode_def mode_info_def gs_ok_def
        effective_type_def Let_def)
  with IIgs_clock_in_step [OF this(1-3) refl, of "()"] show ?thesis by (simp add: Let_def)
qed

lemma funpow_4: "(f ^^ 4) x = f (f (f (f x)))"
  by (simp add: eval_nat_numeral)

text \<open>
  The override that runs the IIgs at the 1 MHz side compares the rate with 1020484, the US
  figure, so the 1 MHz mode of the PAL set (1015657) is not recognised: its cycles are charged
  as fast ones, memory refresh included.  After four cycles the US clock has advanced 56 ticks,
  and the PAL clock 61.
\<close>

lemma IIgs_pal_1MHz_not_synchronous:
  "effective_type (NClock CLOCK_SET_US CLOCK_1_024MHZ :: unit nclock) = CYCLE_TYPE_SYNC \<and>
   effective_type (NClock CLOCK_SET_PAL CLOCK_1_024MHZ :: unit nclock) = CYCLE_TYPE_FAST \<and>
   c_14M (fst ((slow_incr_cycles_IIgs ^^ 4) (NClock CLOCK_SET_US CLOCK_1_024MHZ, ()))) = 56 \<and>
   c_14M (fst ((slow_incr_cycles_IIgs ^^ 4) (NClock CLOCK_SET_PAL CLOCK_1_024MHZ, ()))) = 61"
  unfolding funpow_4
  by (simp add: effective_type_def NClock_def set_clock_mode_def mode_info_def Let_def
      slow_incr_cycles_IIgs_def begin_cycle_IIgs_def charge_cycle_IIgs_def
      cycle_cost_def refresh_def ludicrous_skip_def)

end
