(* ===== verification/Lines.thy ===== *)
theory Lines
  imports Prelude
begin

text \<open>
  The two wired-or signal controllers: \<^verbatim>\<open>InterruptController\<close>
  (\<^verbatim>\<open>src/util/InterruptController.hpp\<close>) and \<^verbatim>\<open>ResetController\<close>
  (\<^verbatim>\<open>src/util/ResetController.hpp\<close>), each a 64-bit field with one bit per device and a
  receiver that is told when the field changes.  A call of the receiver is the second component
  an operation returns; \<open>irq_line_after\<close> is the receiver \<^verbatim>\<open>computer_t\<close> registers, which
  copies the level into the processor's \<^verbatim>\<open>irq_asserted\<close>.  The mask \<^verbatim>\<open>(1 << irq)\<close> is
  a 32-bit \<^verbatim>\<open>int\<close> that is sign-extended to 64 bits, and is modelled as such.
\<close>

section \<open>Device numbers\<close>

datatype device_irq_id =
  IRQ_SLOT_0 | IRQ_SLOT_1 | IRQ_SLOT_2 | IRQ_SLOT_3 | IRQ_SLOT_4 | IRQ_SLOT_5 | IRQ_SLOT_6
| IRQ_SLOT_7 | IRQ_ID_SOUNDGLU | IRQ_ID_KEYGLOO | IRQ_ID_ADB_DATAREG | IRQ_ID_VGC | IRQ_ID_SCC
| IRQ_ID_MEGAII | IRQ_ID_AGENT

fun irq_number :: "device_irq_id \<Rightarrow> nat" where
  "irq_number IRQ_SLOT_0 = 0" | "irq_number IRQ_SLOT_1 = 1" | "irq_number IRQ_SLOT_2 = 2"
| "irq_number IRQ_SLOT_3 = 3" | "irq_number IRQ_SLOT_4 = 4" | "irq_number IRQ_SLOT_5 = 5"
| "irq_number IRQ_SLOT_6 = 6" | "irq_number IRQ_SLOT_7 = 7" | "irq_number IRQ_ID_SOUNDGLU = 8"
| "irq_number IRQ_ID_KEYGLOO = 9" | "irq_number IRQ_ID_ADB_DATAREG = 10"
| "irq_number IRQ_ID_VGC = 11" | "irq_number IRQ_ID_SCC = 12" | "irq_number IRQ_ID_MEGAII = 13"
| "irq_number IRQ_ID_AGENT = 14"

datatype device_reset_id =
  RST_SLOT_0 | RST_SLOT_1 | RST_SLOT_2 | RST_SLOT_3 | RST_SLOT_4 | RST_SLOT_5 | RST_SLOT_6
| RST_SLOT_7 | RST_ID_KEYMICRO | RST_ID_KEYBOARD | RST_ID_POWERUP

fun reset_number :: "device_reset_id \<Rightarrow> nat" where
  "reset_number RST_SLOT_0 = 0" | "reset_number RST_SLOT_1 = 1" | "reset_number RST_SLOT_2 = 2"
| "reset_number RST_SLOT_3 = 3" | "reset_number RST_SLOT_4 = 4" | "reset_number RST_SLOT_5 = 5"
| "reset_number RST_SLOT_6 = 6" | "reset_number RST_SLOT_7 = 7"
| "reset_number RST_ID_KEYMICRO = 9" | "reset_number RST_ID_KEYBOARD = 10"
| "reset_number RST_ID_POWERUP = 10"

section \<open>The controllers\<close>

definition line_mask :: "nat \<Rightarrow> u64" where
  "line_mask n = scast (push_bit n (1 :: 32 word))"

definition line_unmask :: "nat \<Rightarrow> u64" where
  "line_unmask n = scast (NOT (push_bit n (1 :: 32 word)))"

record interrupt_controller =
  irq_bits :: u64
  irq_receiver :: bool

definition InterruptController :: interrupt_controller where
  "InterruptController = \<lparr>irq_bits = 0, irq_receiver = False\<rparr>"

definition register_irq_receiver :: "interrupt_controller \<Rightarrow> interrupt_controller" where
  "register_irq_receiver ic = ic\<lparr>irq_receiver := True\<rparr>"

definition any_irq_asserted :: "interrupt_controller \<Rightarrow> bool" where
  "any_irq_asserted ic \<longleftrightarrow> irq_bits ic \<noteq> 0"

definition notify_irq_receiver :: "interrupt_controller \<Rightarrow> bool option" where
  "notify_irq_receiver ic = (if irq_receiver ic then Some (irq_bits ic \<noteq> 0) else None)"

text \<open>Store the field and call the receiver if it changed.\<close>

definition irq_store :: "u64 \<Rightarrow> interrupt_controller \<Rightarrow> interrupt_controller \<times> bool option" where
  "irq_store v ic =
     (let ic' = ic\<lparr>irq_bits := v\<rparr>
      in (ic', if irq_bits ic \<noteq> v then notify_irq_receiver ic' else None))"

definition assert_irq ::
    "device_irq_id \<Rightarrow> interrupt_controller \<Rightarrow> interrupt_controller \<times> bool option" where
  "assert_irq irq ic = irq_store (irq_bits ic OR line_mask (irq_number irq)) ic"

definition deassert_irq ::
    "device_irq_id \<Rightarrow> interrupt_controller \<Rightarrow> interrupt_controller \<times> bool option" where
  "deassert_irq irq ic = irq_store (irq_bits ic AND line_unmask (irq_number irq)) ic"

definition set_irq ::
    "device_irq_id \<Rightarrow> bool \<Rightarrow> interrupt_controller \<Rightarrow> interrupt_controller \<times> bool option" where
  "set_irq irq assert ic =
     irq_store (if assert then irq_bits ic OR line_mask (irq_number irq)
                else irq_bits ic AND line_unmask (irq_number irq)) ic"

definition get_irq :: "device_irq_id \<Rightarrow> interrupt_controller \<Rightarrow> bool" where
  "get_irq irq ic \<longleftrightarrow> irq_bits ic AND line_mask (irq_number irq) \<noteq> 0"

definition clear_all_irqs ::
    "interrupt_controller \<Rightarrow> interrupt_controller \<times> bool option" where
  "clear_all_irqs ic = irq_store 0 ic"

record reset_controller =
  reset_bits :: u64
  reset_receiver :: bool

definition ResetController :: reset_controller where
  "ResetController = \<lparr>reset_bits = 0, reset_receiver = False\<rparr>"

definition reset_store :: "u64 \<Rightarrow> reset_controller \<Rightarrow> reset_controller \<times> u64 option" where
  "reset_store v rc =
     (rc\<lparr>reset_bits := v\<rparr>,
      if reset_bits rc \<noteq> v \<and> reset_receiver rc then Some v else None)"

definition assert_reset ::
    "device_reset_id \<Rightarrow> bool \<Rightarrow> reset_controller \<Rightarrow> reset_controller \<times> u64 option" where
  "assert_reset reset assert rc =
     reset_store (if assert then reset_bits rc OR line_mask (reset_number reset)
                  else reset_bits rc AND line_unmask (reset_number reset)) rc"

definition get_reset :: "device_reset_id \<Rightarrow> reset_controller \<Rightarrow> bool" where
  "get_reset reset rc \<longleftrightarrow> reset_bits rc AND line_mask (reset_number reset) \<noteq> 0"

definition any_reset_asserted :: "reset_controller \<Rightarrow> bool" where
  "any_reset_asserted rc \<longleftrightarrow> reset_bits rc \<noteq> 0"

definition clear_all_resets :: "reset_controller \<Rightarrow> reset_controller \<times> u64 option" where
  "clear_all_resets rc = reset_store 0 rc"

text \<open>The receiver of the interrupt controller, and the level it leaves in the processor.\<close>

definition irq_line_after :: "bool \<Rightarrow> bool option \<Rightarrow> bool" where
  "irq_line_after level note = (case note of None \<Rightarrow> level | Some l \<Rightarrow> l)"

section \<open>The masks\<close>

lemma bit_line_mask: "n < 31 \<Longrightarrow> bit (line_mask n) k \<longleftrightarrow> k = n"
  by (auto simp: line_mask_def bit_simps min_def)

lemma bit_line_unmask: "n < 31 \<Longrightarrow> bit (line_unmask n) k \<longleftrightarrow> k < 64 \<and> k \<noteq> n"
  by (auto simp: line_unmask_def bit_simps min_def)

lemma irq_number_less [simp]: "irq_number i < 31" by (cases i) simp_all

lemma reset_number_less [simp]: "reset_number i < 31" by (cases i) simp_all

lemma irq_number_inject [simp]: "irq_number i = irq_number j \<longleftrightarrow> i = j"
  by (cases i; cases j) simp_all

lemma word_nonzero_iff: "w \<noteq> 0 \<longleftrightarrow> (\<exists>k. bit w k)" for w :: u64
proof
  assume "w \<noteq> 0"
  then show "\<exists>k. bit w k" by (rule contrapos_np) (auto intro: bit_word_eqI)
qed auto

lemma and_line_mask: "n < 31 \<Longrightarrow> w AND line_mask n \<noteq> 0 \<longleftrightarrow> bit w n"
  by (auto simp: word_nonzero_iff bit_and_iff bit_line_mask)

section \<open>Wired-or lines\<close>

text \<open>The level the last operation on line \<open>n\<close> left, starting from \<open>init\<close>.\<close>

definition last_level :: "('i \<Rightarrow> nat) \<Rightarrow> nat \<Rightarrow> ('i \<times> bool) list \<Rightarrow> bool \<Rightarrow> bool" where
  "last_level number n ops init = fold (\<lambda>(i, b) l. if number i = n then b else l) ops init"

locale wired_or =
  fixes upd :: "'i \<Rightarrow> bool \<Rightarrow> 's \<Rightarrow> 's" and number :: "'i \<Rightarrow> nat"
    and lines :: "'s \<Rightarrow> nat set" and level :: "'s \<Rightarrow> bool"
  assumes lines_upd:
      "lines (upd i b s) = (if b then insert (number i) (lines s) else lines s - {number i})"
    and level_iff: "level s \<longleftrightarrow> lines s \<noteq> {}"
begin

lemma lines_run:
  "n \<in> lines (fold (\<lambda>(i, b). upd i b) ops s) \<longleftrightarrow> last_level number n ops (n \<in> lines s)"
proof (induction ops arbitrary: s)
  case Nil
  show ?case by (simp add: last_level_def)
next
  case (Cons x ops)
  have step: "n \<in> lines (upd i b s) \<longleftrightarrow> (if number i = n then b else n \<in> lines s)" for i b
    by (auto simp: lines_upd)
  show ?case
    using Cons [of "upd (fst x) (snd x) s"] step
    by (simp add: last_level_def case_prod_beta)
qed

lemma level_run:
  "level (fold (\<lambda>(i, b). upd i b) ops s) \<longleftrightarrow> (\<exists>n. last_level number n ops (n \<in> lines s))"
  by (auto simp: level_iff lines_run [symmetric])

lemma level_held: "number i \<noteq> number j \<Longrightarrow> number j \<in> lines s \<Longrightarrow> level (upd i b s)"
  by (auto simp: level_iff lines_upd)

end

lemma irq_bits_set: "irq_bits (fst (set_irq i b ic)) =
    (if b then irq_bits ic OR line_mask (irq_number i) else irq_bits ic AND line_unmask (irq_number i))"
  by (simp add: set_irq_def irq_store_def Let_def)

interpretation irq: wired_or "\<lambda>i b ic. fst (set_irq i b ic)" irq_number
  "\<lambda>ic. {n. bit (irq_bits ic) n}" any_irq_asserted
  by unfold_locales
     (auto simp: irq_bits_set bit_or_iff bit_and_iff bit_line_mask bit_line_unmask any_irq_asserted_def
       word_nonzero_iff dest: bit_imp_le_length)

lemma reset_bits_set: "reset_bits (fst (assert_reset i b rc)) =
    (if b then reset_bits rc OR line_mask (reset_number i)
     else reset_bits rc AND line_unmask (reset_number i))"
  by (simp add: assert_reset_def reset_store_def)

interpretation reset: wired_or "\<lambda>i b rc. fst (assert_reset i b rc)" reset_number
  "\<lambda>rc. {n. bit (reset_bits rc) n}" any_reset_asserted
  by unfold_locales
     (auto simp: reset_bits_set bit_or_iff bit_and_iff bit_line_mask bit_line_unmask
       any_reset_asserted_def word_nonzero_iff dest: bit_imp_le_length)

section \<open>The processor's interrupt line\<close>

text \<open>One call of \<^verbatim>\<open>set_irq\<close> with the receiver of \<^verbatim>\<open>computer_t\<close> attached.\<close>

definition set_irq_line ::
    "device_irq_id \<times> bool \<Rightarrow> interrupt_controller \<times> bool \<Rightarrow> interrupt_controller \<times> bool" where
  "set_irq_line op st =
     (let (ic', note) = set_irq (fst op) (snd op) (fst st) in (ic', irq_line_after (snd st) note))"

lemma set_irq_line_step:
  assumes "irq_receiver ic" and "level = any_irq_asserted ic"
  shows "snd (set_irq_line op (ic, level)) = any_irq_asserted (fst (set_irq_line op (ic, level)))"
    and "irq_receiver (fst (set_irq_line op (ic, level)))"
  using assms
  by (auto simp: set_irq_line_def set_irq_def irq_store_def notify_irq_receiver_def
      irq_line_after_def any_irq_asserted_def Let_def)

lemma set_irq_line_run:
  assumes "irq_receiver ic" and "level = any_irq_asserted ic"
  shows "fold set_irq_line ops (ic, level) =
     (let ic' = fold (\<lambda>(i, b). \<lambda>ic. fst (set_irq i b ic)) ops ic in (ic', any_irq_asserted ic'))"
  using assms
proof (induction ops arbitrary: ic level)
  case (Cons op ops)
  note step = set_irq_line_step [OF Cons.prems, of op]
  have fst: "fst (set_irq_line op (ic, level)) = fst (set_irq (fst op) (snd op) ic)"
    by (simp add: set_irq_line_def case_prod_beta)
  show ?case
    using Cons.IH [OF step(2) step(1)] by (simp add: fst [symmetric] case_prod_beta)
qed simp

text \<open>
  C34.  The interrupt request line of the processor is the wired-or of the devices: after any
  sequence of \<^verbatim>\<open>set_irq\<close> calls on a fresh controller with the computer's receiver
  registered, the line is high exactly when the last call of some device asserted it, and each
  device reads back its own last level.
\<close>

theorem irq_line_is_wired_or:
  "case fold set_irq_line ops (register_irq_receiver InterruptController, False) of (ic, level) \<Rightarrow>
     (level \<longleftrightarrow> (\<exists>n. last_level irq_number n ops False)) \<and>
     (\<forall>i. get_irq i ic \<longleftrightarrow> last_level irq_number (irq_number i) ops False)"
proof -
  let ?ic0 = "register_irq_receiver InterruptController"
  have start: "irq_receiver ?ic0" "False = any_irq_asserted ?ic0" "\<And>n. \<not> bit (irq_bits ?ic0) n"
    by (simp_all add: register_irq_receiver_def InterruptController_def any_irq_asserted_def)
  show ?thesis
    using irq.level_run [of ops ?ic0] irq.lines_run [of _ ops ?ic0] start(3)
    by (simp add: set_irq_line_run [OF start(1,2)] Let_def get_irq_def and_line_mask)
qed

text \<open>
  The reset numbers of the keyboard and of power-up coincide, so releasing one releases the
  other: with the power-up reset asserted, a keyboard release leaves no reset asserted at all.
\<close>

lemma keyboard_releases_powerup:
  "\<not> any_reset_asserted (fst (assert_reset RST_ID_KEYBOARD False
     (fst (assert_reset RST_ID_POWERUP True ResetController))))"
  by (simp add: assert_reset_def reset_store_def any_reset_asserted_def ResetController_def
      line_mask_def line_unmask_def)

end
