(* ===== verification/System.thy ===== *)
theory System
  imports Cpu_Memory Alu_Decimal Mmu Clock Lines
begin

text \<open>
  The assembled machine: the processor core on top of the page-table MMU, the II clock and the
  interrupt controller, wired the way \<^verbatim>\<open>computer_t\<close> wires them (\<^verbatim>\<open>src/computer.cpp\<close>).
  A failed assertion of the MMU aborts the emulator; the board keeps this as an MMU of \<open>None\<close>.
  The locale \<^const>\<open>ram_bus\<close> of the processor is interpreted on the board for every window of
  addresses the page table maps to plain memory, ROM included, and the stack, subroutine and
  interrupt properties are stated for the whole machine.
\<close>

section \<open>The board\<close>

record ('d, 'v) board =
  b_mmu :: "'d mmu option"
  b_clock :: "'v nclock"
  b_video :: 'v
  b_irq :: interrupt_controller
  b_irq_asserted :: bool
  b_reset :: reset_controller

definition board_access ::
    "('d mmu \<Rightarrow> mmu_error + (u8 \<times> 'd mmu)) \<Rightarrow> ('d, 'v) board \<Rightarrow> u8 \<times> ('d, 'v) board" where
  "board_access f b =
     (case b_mmu b of
        None \<Rightarrow> (0, b)
      | Some m \<Rightarrow> (case f m of
          Inl _ \<Rightarrow> (0, b\<lparr>b_mmu := None\<rparr>)
        | Inr (v, m') \<Rightarrow> (v, b\<lparr>b_mmu := Some m'\<rparr>)))"

definition board_write ::
    "'d handlers \<Rightarrow> u32 \<Rightarrow> u8 \<Rightarrow> ('d, 'v) board \<Rightarrow> ('d, 'v) board" where
  "board_write H a v b =
     snd (board_access (\<lambda>m. map_sum id (Pair 0) (MMU_write H a v m)) b)"

definition board_tick ::
    "('v nclock \<times> 'v \<Rightarrow> 'v nclock \<times> 'v) \<Rightarrow> ('d, 'v) board \<Rightarrow> ('d, 'v) board" where
  "board_tick slow b =
     (let (k, v) = slow (b_clock b, b_video b) in b\<lparr>b_clock := k, b_video := v\<rparr>)"

text \<open>\<open>slow\<close> is the clock's virtual \<^verbatim>\<open>slow_incr_cycles\<close>; no WDM handler is registered.\<close>

definition board_ops ::
    "'d handlers \<Rightarrow> ('v nclock \<times> 'v \<Rightarrow> 'v nclock \<times> 'v) \<Rightarrow> ('d, 'v) board machine_ops" where
  "board_ops H slow =
     \<lparr>mmu_read = (\<lambda>a. board_access (MMU_read H a)), mmu_write = board_write H,
      mmu_vp_read = (\<lambda>a. board_access (MMU_vp_read H a)), clock_tick = board_tick slow,
      irq_line = b_irq_asserted, reset_line = (\<lambda>b. any_reset_asserted (b_reset b)),
      wdm_handlers = (\<lambda>_. None)\<rparr>"

text \<open>A device raises or lowers its request; the receiver copies the level to the processor.\<close>

definition board_set_irq :: "device_irq_id \<Rightarrow> bool \<Rightarrow> ('d, 'v) board \<Rightarrow> ('d, 'v) board" where
  "board_set_irq i level b =
     (let (ic, l) = set_irq_line (i, level) (b_irq b, b_irq_asserted b)
      in b\<lparr>b_irq := ic, b_irq_asserted := l\<rparr>)"

section \<open>Windows of memory\<close>

text \<open>
  The addresses \<open>R\<close> read as memory, those in \<open>W\<close> also store, and no other address of the window
  shares a host byte with a writable one.
\<close>

definition window :: "u32 set \<Rightarrow> u32 set \<Rightarrow> 'd mmu \<Rightarrow> bool" where
  "window R W m \<longleftrightarrow> W \<subseteq> R \<and>
     (\<forall>a\<in>R. in_table m a \<and> read_p (page_table m ! page_no m a) \<noteq> None) \<and>
     (\<forall>a\<in>W. ram_at m a \<and> (\<forall>b\<in>R. host_addr m b = host_addr m a \<longrightarrow> b = a))"

definition board_mem :: "u32 set \<Rightarrow> u32 set \<Rightarrow> ('d, 'v) board \<Rightarrow> u32 \<rightharpoonup> u8" where
  "board_mem R W b a =
     (case b_mmu b of
        None \<Rightarrow> None
      | Some m \<Rightarrow> if window R W m \<and> a \<in> R then Some (host m (host_addr m a)) else None)"

lemma window_store [simp]: "window R W (store_host h v m) = window R W m"
  by (simp add: window_def)

lemma read_window:
  assumes "window R W m" and "a \<in> R"
  shows "MMU_read H a m = Inr (host m (host_addr m a), m)"
  using assms by (auto simp: window_def MMU_read_def host_addr_def Let_def in_table_eqs pte_def) (simp add: in_table_def)

lemma board_mem_SomeE:
  assumes "board_mem R W b a = Some v"
  obtains m where "b_mmu b = Some m" "window R W m" "a \<in> R" "v = host m (host_addr m a)"
  using assms by (auto simp: board_mem_def split: option.splits if_splits)

lemma board_read:
  assumes "board_mem R W b a = Some v"
  shows "board_access (MMU_read H a) b = (v, b)"
  using assms by (rule board_mem_SomeE) (simp add: board_access_def read_window)

lemma board_write_mem:
  assumes "a \<in> W" and "board_mem R W b a \<noteq> None"
  shows "board_mem R W (board_write H a v b) = (board_mem R W b)(a \<mapsto> v)"
proof -
  from assms(2) obtain m where m: "b_mmu b = Some m" "window R W m" "a \<in> R"
    by (auto elim!: board_mem_SomeE)
  have ram: "ram_at m a" and inj: "\<And>q. q \<in> R \<Longrightarrow> host_addr m q = host_addr m a \<Longrightarrow> q = a"
    using m(2) assms(1) by (auto simp: window_def)
  have "board_write H a v b = b\<lparr>b_mmu := Some (store_host (host_addr m a) v m)\<rparr>"
    by (simp add: board_write_def board_access_def m(1) write_ram [OF ram])
  then show ?thesis
    using m inj by (auto simp: board_mem_def fun_eq_iff)
qed

lemma board_tick_mem: "board_mem R W (board_tick slow b) = board_mem R W b"
  by (simp add: board_mem_def board_tick_def fun_eq_iff split: prod.split)

interpretation sys: ram_bus "board_ops H slow" "board_mem R W" W
  for H :: "'d handlers" and slow :: "'v nclock \<times> 'v \<Rightarrow> 'v nclock \<times> 'v" and R W
proof unfold_locales
  fix b :: "('d, 'v) board" and a v
  assume mem: "board_mem R W b a = Some v"
  show "fst (mmu_read (board_ops H slow) a b) = v"
    "board_mem R W (snd (mmu_read (board_ops H slow) a b)) = board_mem R W b"
    "fst (mmu_vp_read (board_ops H slow) a b) = v"
    "board_mem R W (snd (mmu_vp_read (board_ops H slow) a b)) = board_mem R W b"
    using board_read [OF mem, of H] by (simp_all add: board_ops_def MMU_vp_read_def [abs_def])
next
  fix a v and b :: "('d, 'v) board"
  assume "a \<in> W" and "board_mem R W b a \<noteq> None"
  then show "board_mem R W (mmu_write (board_ops H slow) a v b) = (board_mem R W b)(a \<mapsto> v)"
    by (simp add: board_ops_def board_write_mem)
next
  fix b :: "('d, 'v) board"
  show "board_mem R W (clock_tick (board_ops H slow) b) = board_mem R W b"
    by (simp add: board_ops_def board_tick_mem)
qed

section \<open>Subroutines and interrupts on the assembled machine\<close>

definition cpu_cores :: "cpu_traits set" where
  "cpu_cores = {CPU6502Traits, CPU65C02Traits, CPUR65C02Traits, CPUWDC65C02Traits} \<union> cores_65816"

lemma cpu_cores_ok: "tr \<in> cpu_cores \<Longrightarrow> traits_ok tr \<and> \<not> full_phantom_reads tr"
  by (auto simp: cpu_cores_def cores_65816_def traits_ok_def trait_defs)

text \<open>
  C4.  A subroutine call returns behind itself.  On any core, with JSR at the program counter,
  RTS at its target and two free bytes of RAM on the stack, running the two instructions leaves
  every register as it was (the interrupt pipeline aside) but the program counter, which is three
  further, and memory with only the return address added below the stack pointer.  The 8-bit cores also clear
  the high byte of the stack pointer register, which they do not use for the stack.  RTS reads once more at the
  stack pointer it leaves (on the 8-bit cores that is an address in page zero), so memory is asked to be there.
\<close>

theorem subroutine_returns:
  fixes H :: "'d handlers" and slow :: "'v nclock \<times> 'v \<Rightarrow> 'v nclock \<times> 'v"
  defines "e \<equiv> board_ops H slow"
  assumes core: "tr \<in> cpu_cores" and s: "cpu s = c" "board_mem R W (env s) = m"
    and m': "m' = m(sp_slot tr (reg_sp c) \<mapsto> word_hi (reg_pc c + 2),
                    sp_slot tr (sp_dec tr (reg_sp c)) \<mapsto> word_lo (reg_pc c + 2))"
    and prog: "m (PC tr c) = Some 0x20" "m (PC tr (c\<lparr>reg_pc := reg_pc c + 1\<rparr>)) = Some l"
      "m (PC tr (c\<lparr>reg_pc := reg_pc c + 2\<rparr>)) = Some h"
      "m' (PC tr (c\<lparr>reg_pc := mk_word l h\<rparr>)) = Some 0x60"
    and stack: "{sp_slot tr (reg_sp c), sp_slot tr (sp_dec tr (reg_sp c))} \<subseteq> W \<inter> dom m"
      "ucast (sp_back tr (reg_sp c)) \<in> dom m'"
  shows "\<exists>s' pipe. run_state (do { run_instruction tr e; run_instruction tr e }) s = ((), s') \<and>
     cpu s' = c\<lparr>reg_sp := sp_back tr (reg_sp c), reg_pc := reg_pc c + 3, irq_pipe := pipe\<rparr> \<and>
     board_mem R W (env s') = m'"
proof -
  let ?c = "c\<lparr>irq_pipe := 0\<rparr>"
  have PC: "PC tr ?c = PC tr c" "PC tr (?c\<lparr>reg_pc := q\<rparr>) = PC tr (c\<lparr>reg_pc := q\<rparr>)" for q
    by (simp_all add: PC_def full_pc_def)
  have c0: "reg_sp ?c = reg_sp c" "reg_pc ?c = reg_pc c" by simp_all
  have swap: "?c\<lparr>reg_sp := w, reg_pc := q\<rparr> = c\<lparr>reg_sp := w, reg_pc := q, irq_pipe := 0\<rparr>" for w q
    by (rule cpu_state.equality) simp_all
  have room: "sys.ram W m (sp_slot tr (reg_sp c))" "sys.ram W m (sp_slot tr (sp_dec tr (reg_sp c)))"
    using stack(1) by (auto simp: sys.ram_def)
  have top: "m' (ucast (sp_back tr (reg_sp c))) \<noteq> None" using stack(2) by (simp add: domIff)
  have "sys.does R W (?c, m) (run_instruction tr e \<bind> (\<lambda>_. run_instruction tr e)) ()
      (?c\<lparr>reg_sp := sp_back tr (reg_sp ?c), reg_pc := reg_pc ?c + 3\<rparr>,
       m(sp_slot tr (reg_sp ?c) \<mapsto> word_hi (reg_pc ?c + 2),
         sp_slot tr (sp_dec tr (reg_sp ?c)) \<mapsto> word_lo (reg_pc ?c + 2)))"
    unfolding e_def
    by (rule sys.does_call_return [where l = l and h = h])
       (use cpu_cores_ok [OF core] prog room top in \<open>simp_all only: PC m' c0 not_False_eq_True\<close>)
  then have "sys.does R W (?c, m) (run_instruction tr e \<bind> (\<lambda>_. run_instruction tr e)) ()
      (c\<lparr>reg_sp := sp_back tr (reg_sp c), reg_pc := reg_pc c + 3, irq_pipe := 0\<rparr>, m')"
    by (simp only: m' c0 swap)
  from sys.does_run [OF this s] show ?thesis by simp
qed

lemma board_reset_frame:
  "b_reset (snd (mmu_read (board_ops H slow) a b)) = b_reset b"
  "b_reset (snd (mmu_vp_read (board_ops H slow) a b)) = b_reset b"
  "b_reset (mmu_write (board_ops H slow) a v b) = b_reset b"
  "b_reset (clock_tick (board_ops H slow) b) = b_reset b"
  by (simp_all add: board_ops_def board_access_def board_write_def board_tick_def
      split: option.split sum.split prod.split)

lemma service_irq_reset: "keeps (\<lambda>s. b_reset (env s) = r) (service_irq tr (board_ops H slow))"
proof -
  let ?I = "\<lambda>s. b_reset (env s) = r"
  have cycle: "keeps ?I (incr_cycles (board_ops H slow) acc)"
      "keeps ?I (env_write (board_ops H slow) a v)" "keeps ?I (env_read (mmu_read (board_ops H slow)) a)"
      "keeps ?I (env_read (mmu_vp_read (board_ops H slow)) a)" for acc a v
    by (simp_all add: safe_def incr_cycles_def env_write_def env_read_def board_reset_frame)
  show ?thesis
    unfolding service_irq_def enter_interrupt_def phantom_pc_def phantom_read_ign_def
      phantom_read_def push_byte_def push_word_def bus_write_def read_word_bank0_def vp_read_def
      set_pc_def
    by (intro flow_intro cycle safe_cpu_get safe_cpu_upd TrueI) simp_all
qed

text \<open>
  C3.  An interrupt whose handler only returns leaves no trace in the registers.  On any core, in
  any mode, with a request through the pipeline, RTI at the address in the interrupt vector and
  four bytes of RAM on the stack, two calls of \<^verbatim>\<open>execute_next\<close> take the interrupt, do not
  take it again although the line may still be high, return, and leave every register as it was
  (the pipeline aside, and a waiting processor woken); memory differs by the pushed frame only.  Two registers are
  exceptions: the 8-bit cores clear the high byte of the stack pointer register, which they do not use, and the
  emulation mode of the 65816, which does not push the program bank, continues in bank 0.  A 65816 is asked to be in
  its register discipline, on the core its flags select.
\<close>

theorem interrupt_is_transparent:
  fixes H :: "'d handlers" and slow :: "'v nclock \<times> 'v \<Rightarrow> 'v nclock \<times> 'v"
  defines "e \<equiv> board_ops H slow"
  assumes core: "tr \<in> cpu_cores" and s: "cpu s = c" "board_mem R W (env s) = m"
    and mode: "tr \<in> cores_65816 \<longrightarrow> mode_ok c \<and> select_core c = tr"
    and run: "\<not> clock_stopped c" "\<not> any_reset_asserted (b_reset (env s))"
      "\<not> nmi_pending c" "\<not> boundary_abort_pending c" "irq_pipe c AND 0x02 \<noteq> 0"
    and room: "{sp_slot tr (reg_sp c), sp_slot tr (sp_dec tr (reg_sp c)),
      sp_slot tr (sp_dec tr (sp_dec tr (reg_sp c))),
      sp_slot tr (sp_dec tr (sp_dec tr (sp_dec tr (reg_sp c))))} \<subseteq> W \<inter> dom m"
    and vec: "irq_frame tr c m (ucast (irq_vector tr)) = Some l"
      "irq_frame tr c m (ucast (irq_vector tr + 1)) = Some h"
    and rti: "irq_frame tr c m (PC tr (irq_entered tr c (mk_word l h))) = Some 0x40"
  shows "\<exists>s' pipe. run_state (do { execute_next tr e; execute_next tr e }) s = ((), s') \<and>
     cpu s' = c\<lparr>reg_sp := sp_back tr (reg_sp c), reg_pb := (if has_65816_ops tr \<and> e_mode tr then 0 else reg_pb c),
       rdy := False, irq_pipe := pipe\<rparr> \<and> board_mem R W (env s') = irq_frame tr c m"
proof -
  let ?c = "c\<lparr>irq_pipe := 0\<rparr>" and ?s1 = "snd (run_state (execute_next tr e) s)"
  have frame: "irq_frame tr ?c = irq_frame tr c"
    by (simp add: fun_eq_iff irq_frame_def irq_status_def get_p_def)
  have entered: "PC tr (irq_entered tr ?c a) = PC tr (irq_entered tr c a)" for a
    by (simp add: PC_def full_pc_def irq_entered_def bank0_def irq_mask_def)
  have held: "\<not> reset_line e (env s)" "\<not> reset_line e (env ?s1)"
    using run s service_irq_reset [of "b_reset (env s)" tr H slow]
    by (auto simp: e_def execute_next_takes_irq safe_def board_ops_def)
  have c0: "sys.regs s = ?c" using s by (simp add: sys.regs_def)
  have x: "e_mode tr \<or> flag_X c \<Longrightarrow> word_hi (reg_x c) = 0 \<and> word_hi (reg_y c) = 0"
    if "has_65816_ops tr"
  proof -
    have "tr \<in> cores_65816" using core that by (auto simp: cpu_cores_def trait_defs)
    then show "e_mode tr \<or> flag_X c \<Longrightarrow> word_hi (reg_x c) = 0 \<and> word_hi (reg_y c) = 0"
      using mode by (auto simp: mode_ok_def select_core_def trait_defs split: if_splits)
  qed
  have "sys.regs (snd (run_state (execute_next tr e) ?s1)) = irq_returned tr ?c \<and>
      board_mem R W (env (snd (run_state (execute_next tr e) ?s1))) = irq_frame tr c m"
    unfolding e_def
    by (rule sys.irq_and_return [where s = s and tr = tr and R = R and W = W and l = l and h = h,
          unfolded c0 s(2) frame entered])
       (use cpu_cores_ok [OF core] run held x room vec rti s(1)
         in \<open>simp_all add: e_def sys.irq_room_def sys.ram_def domIff\<close>)
  then have "cpu (snd (run_state (execute_next tr e) ?s1)) = (irq_returned tr c)\<lparr>irq_pipe :=
        irq_pipe (cpu (snd (run_state (execute_next tr e) ?s1)))\<rparr> \<and>
      board_mem R W (env (snd (run_state (execute_next tr e) ?s1))) = irq_frame tr c m"
    by (subst sys.regs_pipe) (simp add: irq_returned_def)
  then show ?thesis
    by (intro exI [of _ "snd (run_state (execute_next tr e) ?s1)"]
        exI [of _ "irq_pipe (cpu (snd (run_state (execute_next tr e) ?s1)))"])
       (auto split: prod.split simp: prod_eq_iff irq_returned_def)
qed

section \<open>A machine to run\<close>

text \<open>An Apple II map with JSR \<open>$0400\<close> at \<open>$0300\<close>, RTS at \<open>$0400\<close> and \<open>$40\<close>, which is RTI,
  everywhere else; so every vector points at \<open>$4040\<close>.\<close>

definition demo_host :: "nat \<Rightarrow> u8" where
  "demo_host a = (if a = 0x300 then 0x20 else if a = 0x301 then 0x00 else if a = 0x302 then 0x04
     else if a = 0x400 then 0x60 else 0x40)"

definition demo_mmu :: "unit mmu" where
  "demo_mmu = ii_mmu\<lparr>host := demo_host\<rparr>"

definition demo_R :: "u32 set" where
  "demo_R = {a. a < 0xC000} \<union> {a. 0xD000 \<le> a \<and> a < 0x10000}"

definition demo_W :: "u32 set" where
  "demo_W = {a. a < 0xC000}"

definition demo_board :: "(unit, unit) board" where
  "demo_board = \<lparr>b_mmu = Some demo_mmu, b_clock = NClock CLOCK_SET_US CLOCK_1_024MHZ, b_video = (),
     b_irq = register_irq_receiver InterruptController, b_irq_asserted = True,
     b_reset = ResetController\<rparr>"

definition demo_machine :: "cpu_state \<Rightarrow> (unit, unit) board machine" where
  "demo_machine c = \<lparr>cpu = c, env = demo_board, trace = []\<rparr>"

lemma demo_pages:
  "page_no demo_mmu a = unat a div 256" "page_size_bits demo_mmu = 8" "num_pages demo_mmu = 256"
  "p < 256 \<Longrightarrow> page_table demo_mmu ! p = ii_page p"
  by (simp_all add: page_no_def demo_mmu_def ii_mmu_def num_pages_def)

lemma demo_R_page:
  assumes "a \<in> demo_R"
  shows "unat a div 256 < 256" "unat a div 256 < 0xC0 \<or> 0xD0 \<le> unat a div 256"
  using assms by (auto simp: demo_R_def word_less_nat_alt word_le_nat_alt)

lemma demo_addr: "a \<in> demo_R \<Longrightarrow> host_addr demo_mmu a = unat a"
  using demo_R_page by (auto simp: host_addr_def demo_pages ii_page_def)

lemma demo_window: "window demo_R demo_W demo_mmu"
proof -
  have "in_table demo_mmu a \<and> read_p (page_table demo_mmu ! page_no demo_mmu a) \<noteq> None" if "a \<in> demo_R" for a
    using demo_R_page [OF that] by (auto simp: in_table_def demo_pages ii_page_def)
  moreover have "ram_at demo_mmu a" if "a \<in> demo_W" for a
  proof -
    have "unat a div 256 < 0xC0" using that by (auto simp: demo_W_def word_less_nat_alt)
    then show ?thesis
      by (simp add: ram_at_def in_table_def demo_pages ii_page_def plain_page_def empty_page_def)
  qed
  moreover have "demo_W \<subseteq> demo_R" by (auto simp: demo_W_def demo_R_def)
  ultimately show ?thesis
    unfolding window_def by (auto simp: demo_addr subset_iff word_unat_eq_iff)
qed

lemma demo_mem: "board_mem demo_R demo_W demo_board a =
    (if a \<in> demo_R then Some (demo_host (unat a)) else None)"
proof -
  have "host demo_mmu = demo_host" by (simp add: demo_mmu_def)
  then show ?thesis
    using demo_window by (simp add: board_mem_def demo_board_def demo_addr)
qed

abbreviation demo_map :: "u32 \<rightharpoonup> u8" where
  "demo_map \<equiv> board_mem demo_R demo_W demo_board"

lemma demo_in [simp]:
  "a < 0xC000 \<Longrightarrow> a \<in> demo_W" "a < 0xC000 \<Longrightarrow> a \<in> demo_R"
  "0xD000 \<le> a \<Longrightarrow> a < 0x10000 \<Longrightarrow> a \<in> demo_R"
  by (simp_all add: demo_W_def demo_R_def)

lemma demo_machine_simps [simp]: "cpu (demo_machine c) = c" "env (demo_machine c) = demo_board"
  by (simp_all add: demo_machine_def)

definition demo_6502 :: cpu_state where
  "demo_6502 = (cpu_init 0xFF False)\<lparr>reg_pc := 0x300, reg_a := 0x42, reg_sp := 0x1FF\<rparr>"

lemma demo_6502_simps [simp]:
  "reg_pc demo_6502 = 0x300" "reg_sp demo_6502 = 0x1FF" "PC CPU6502Traits c = ucast (reg_pc c)"
  by (simp_all add: demo_6502_def cpu_init_def PC_def CPU6502Traits_def)

lemma demo_6502_stack [simp]:
  "sp_slot CPU6502Traits 0x1FF = 0x1FF" "sp_dec CPU6502Traits 0x1FF = 0xFE" "sp_back CPU6502Traits 0x1FF = 0xFF"
  "sp_slot CPU6502Traits 0xFE = 0x1FE"
  by (simp_all add: sp_slot_def sp_dec_def sp_back_def native_mode_def CPU6502Traits_def
      stack_page_def word_lo_def word_hi_def)

lemma demo_return [simp]: "word_hi 0x302 = 0x03" "word_lo 0x302 = 0x02"
  by (simp_all add: word_hi_def word_lo_def)

text \<open>The stack pointer is the one LDX \<open>#$FF\<close> and TXS leave.\<close>

theorem subroutine_returns_witness:
  "\<exists>s' pipe. run_state (do { run_instruction CPU6502Traits (board_ops no_handlers slow_incr_cycles_II);
        run_instruction CPU6502Traits (board_ops no_handlers slow_incr_cycles_II) })
        (demo_machine demo_6502) = ((), s') \<and>
     cpu s' = demo_6502\<lparr>reg_sp := 0xFF, reg_pc := 0x303, irq_pipe := pipe\<rparr> \<and>
     board_mem demo_R demo_W (env s') = demo_map(0x1FF \<mapsto> 0x03, 0x1FE \<mapsto> 0x02)"
proof -
  have "\<exists>s' pipe. run_state (do { run_instruction CPU6502Traits (board_ops no_handlers slow_incr_cycles_II);
        run_instruction CPU6502Traits (board_ops no_handlers slow_incr_cycles_II) })
        (demo_machine demo_6502) = ((), s') \<and>
     cpu s' = demo_6502\<lparr>reg_sp := sp_back CPU6502Traits (reg_sp demo_6502), reg_pc := reg_pc demo_6502 + 3,
       irq_pipe := pipe\<rparr> \<and>
     board_mem demo_R demo_W (env s') = demo_map(0x1FF \<mapsto> 0x03, 0x1FE \<mapsto> 0x02)"
    by (rule subroutine_returns [where l = 0 and h = 4, OF _ _ refl])
       (simp_all add: cpu_cores_def demo_mem demo_host_def mk_word_def domIff)
  then show ?thesis by simp
qed

definition demo_65816 :: cpu_state where
  "demo_65816 = (cpu_init 0 False)\<lparr>reg_pb := 0x12, reg_pc := 0x3456, reg_sp := 0x1FFF, reg_x := 0xABCD,
     flag_C := True, flag_D := True, irq_pipe := 0x03, rdy := True\<rparr>"

lemma demo_native [simp]: "native_mode CPU65816_N_16_16_Traits" "has_65816_ops CPU65816_N_16_16_Traits"
  "\<not> e_mode CPU65816_N_16_16_Traits" "CPU65816_N_16_16_Traits \<in> cores_65816"
  "CPU65816_N_16_16_Traits \<in> cpu_cores"
  by (simp_all add: native_mode_def CPU65816_N_16_16_Traits_def cores_65816_def cpu_cores_def)

lemma demo_65816_simps [simp]:
  "sp_slot CPU65816_N_16_16_Traits w = ucast w" "sp_dec CPU65816_N_16_16_Traits w = w - 1"
  "irq_sp CPU65816_N_16_16_Traits w = w - 1" "sp_back CPU65816_N_16_16_Traits w = w"
  "irq_vector CPU65816_N_16_16_Traits = 0xFFEE" "reg_sp demo_65816 = 0x1FFF"
  by (simp_all add: sp_slot_def sp_dec_def irq_sp_def sp_back_def irq_vector_def
      N_IRQ_VECTOR_def demo_65816_def)

theorem interrupt_is_transparent_witness:
  "\<exists>s' pipe. run_state (do { execute_next CPU65816_N_16_16_Traits (board_ops no_handlers slow_incr_cycles_II);
        execute_next CPU65816_N_16_16_Traits (board_ops no_handlers slow_incr_cycles_II) })
        (demo_machine demo_65816) = ((), s') \<and>
     cpu s' = demo_65816\<lparr>rdy := False, irq_pipe := pipe\<rparr> \<and>
     board_mem demo_R demo_W (env s') = irq_frame CPU65816_N_16_16_Traits demo_65816 demo_map"
proof -
  have same: "demo_65816\<lparr>reg_sp := sp_back CPU65816_N_16_16_Traits (reg_sp demo_65816),
      reg_pb := (if has_65816_ops CPU65816_N_16_16_Traits \<and> e_mode CPU65816_N_16_16_Traits then 0 else reg_pb demo_65816),
      rdy := False, irq_pipe := pipe\<rparr> = demo_65816\<lparr>rdy := False, irq_pipe := pipe\<rparr>" for pipe
    by (simp add: demo_65816_def)
  show ?thesis
    unfolding same [symmetric]
  proof (rule interrupt_is_transparent [where l = "0x40" and h = "0x40"])
  show "CPU65816_N_16_16_Traits \<in> cores_65816 \<longrightarrow>
      mode_ok demo_65816 \<and> select_core demo_65816 = CPU65816_N_16_16_Traits"
    by (simp add: mode_ok_def select_core_def demo_65816_def cpu_init_def)
  show "irq_frame CPU65816_N_16_16_Traits demo_65816 demo_map
      (PC CPU65816_N_16_16_Traits (irq_entered CPU65816_N_16_16_Traits demo_65816 (mk_word 0x40 0x40))) =
      Some 0x40"
    by (simp add: irq_frame_def PC_def full_pc_def irq_entered_def bank0_def mk_word_def
        demo_mem demo_host_def)
  qed (simp_all add: demo_mem demo_host_def irq_frame_def domIff,
     simp_all add: demo_65816_def cpu_init_def demo_board_def ResetController_def any_reset_asserted_def)
qed

lemma board_wdm: "\<not> wdm_left (board_ops H slow) c"
  by (simp add: wdm_left_def board_ops_def)

lemma demo_65816_ok: "mode_ok demo_65816"
  by (simp add: mode_ok_def demo_65816_def cpu_init_def)



theorem adc_binary_correct_witness:
  "case run_state (add_and_set_flags CPU6502Traits (board_ops no_handlers slow_incr_cycles_II) 0x7F)
      (demo_machine demo_6502) of (_, s') \<Rightarrow>
     added (half CPU6502Traits) (acc CPU6502Traits demo_6502) (operand CPU6502Traits 0x7F)
       (flag_C demo_6502) (acc CPU6502Traits (cpu s')) (cpu s')"
  using adc_binary_correct [where s = "demo_machine demo_6502" and tr = CPU6502Traits
      and e = "board_ops no_handlers slow_incr_cycles_II" and n = "0x7F"]
  by (auto simp: demo_6502_def cpu_init_def split: prod.splits)

theorem sbc_binary_correct_witness:
  "case run_state (subtract_and_set_flags CPU6502Traits (board_ops no_handlers slow_incr_cycles_II) 0x43)
      (demo_machine demo_6502) of (_, s') \<Rightarrow>
     subtracted (half CPU6502Traits) (acc CPU6502Traits demo_6502) (operand CPU6502Traits 0x43)
       (flag_C demo_6502) (acc CPU6502Traits (cpu s')) (cpu s')"
  using sbc_binary_correct [where s = "demo_machine demo_6502" and tr = CPU6502Traits
      and e = "board_ops no_handlers slow_incr_cycles_II" and n = "0x43"]
  by (auto simp: demo_6502_def cpu_init_def split: prod.splits)

definition demo_decimal :: cpu_state where
  "demo_decimal = demo_6502\<lparr>flag_D := True, reg_a := 0x58\<rparr>"

lemma demo_decimal_ok:
  "flag_D (cpu (demo_machine demo_decimal))" "reg_a (cpu (demo_machine demo_decimal)) = 0x58"
  "bcd_word_ok CPU6502Traits 0x58" "bcd_word_ok CPU6502Traits 0x46"
  by (simp_all add: demo_decimal_def demo_machine_def bcd_word_ok_def bcd_ok_def word_lo_def trait_defs)

theorem adc_decimal_correct_witness:
  "case run_state (add_and_set_flags CPU6502Traits (board_ops no_handlers slow_incr_cycles_II) 0x46)
      (demo_machine demo_decimal) of (_, s') \<Rightarrow>
     bcd_word_ok CPU6502Traits (reg_a (cpu s')) \<and>
     bcd_word_val CPU6502Traits (reg_a (cpu s')) + 100 * of_bool (flag_C (cpu s')) =
       104 + of_bool (flag_C demo_decimal)"
  using adc_decimal_correct [where s = "demo_machine demo_decimal" and tr = CPU6502Traits
      and e = "board_ops no_handlers slow_incr_cycles_II" and n = "0x46"] demo_decimal_ok
  by (simp add: bcd_word_val_def bcd_val_def bcd_base_def word_lo_def trait_defs demo_machine_def split_beta)

theorem sbc_decimal_correct_witness:
  "case run_state (subtract_and_set_flags CPU6502Traits (board_ops no_handlers slow_incr_cycles_II) 0x46)
      (demo_machine demo_decimal) of (_, s') \<Rightarrow>
     bcd_word_ok CPU6502Traits (reg_a (cpu s')) \<and>
     bcd_word_val CPU6502Traits (reg_a (cpu s')) - 100 * of_bool (\<not> flag_C (cpu s')) =
       12 - of_bool (\<not> flag_C demo_decimal)"
  using sbc_decimal_correct [where s = "demo_machine demo_decimal" and tr = CPU6502Traits
      and e = "board_ops no_handlers slow_incr_cycles_II" and n = "0x46"] demo_decimal_ok
  by (simp add: bcd_word_val_def bcd_val_def bcd_base_def word_lo_def trait_defs demo_machine_def split_beta)

end
