(* ===== verification/Cpu_Cycles.thy ===== *)
theory Cpu_Cycles
  imports Cpu_Exec
begin

text \<open>
  Instruction timing of the NMOS 6502.  A cycle is one call of \<^verbatim>\<open>incr_cycles\<close>, recorded in the trace
  whatever access it carried; the judgement \<open>costs\<close> bounds the number of cycles of an action from
  every state.  Each helper of the core is given its cost on the 6502 once, and the opcodes of the
  switch are then compared with the table of the data sheet.
\<close>

section \<open>The helpers\<close>

lemma nmos:
  "has_65816_ops CPU6502Traits = False" "has_65c02_ops CPU6502Traits = False" "alu_t CPU6502Traits = W8"
  "index_t CPU6502Traits = W8" "m_16 CPU6502Traits = False" "e_mode CPU6502Traits = False"
  "full_phantom_reads CPU6502Traits = False" "has_indirect_bug CPU6502Traits = True"
  "(if True then x else y) = x" "(if False then x else y) = y" "(False \<and> b) = False" "(b \<and> False) = False" "(\<not> False) = True"
  "(True \<and> b) = b" "mwhen False g = ret ()" "(case W8 of W8 \<Rightarrow> x | W16 \<Rightarrow> y) = x" "(case W16 of W8 \<Rightarrow> x | W16 \<Rightarrow> y) = y"
  "Let z h = h z"
  by (simp_all add: CPU6502Traits_def alu_t_def index_t_def mwhen_def)

lemma costs_incr_cycles [costs_intro]: "costs cycles_of 1 1 (incr_cycles e acc)"
  by (simp add: costs_def incr_cycles_def cycles_of_def)

lemma costs_env_read [costs_intro]: "costs cycles_of 0 0 (env_read f a)"
  by (simp add: costs_def env_read_def cycles_of_def)

lemma costs_env_write [costs_intro]: "costs cycles_of 0 0 (env_write e a v)"
  by (simp add: costs_def env_write_def cycles_of_def)

lemma costs_bus_read_k [costs_intro]: "costs cycles_of 1 1 (bus_read_k e k a)"
  by (simp only: bus_read_k_def nmos, rule costs_weaken, (rule costs_intro)+) simp_all

lemma costs_bus_read [costs_intro]: "costs cycles_of 1 1 (bus_read e a)"
  by (simp only: bus_read_def nmos, rule costs_weaken, (rule costs_intro)+) simp_all

lemma costs_bus_write [costs_intro]: "costs cycles_of 1 1 (bus_write e a v)"
  by (simp only: bus_write_def nmos, rule costs_weaken, (rule costs_intro)+) simp_all

lemma costs_vp_read [costs_intro]: "costs cycles_of 1 1 (vp_read e a)"
  by (simp only: vp_read_def nmos, rule costs_weaken, (rule costs_intro)+) simp_all

lemma costs_phantom_read [costs_intro]: "costs cycles_of 1 1 (phantom_read e a)"
  by (simp only: phantom_read_def nmos, rule costs_weaken, (rule costs_intro)+) simp_all

lemma costs_phantom_read_ign [costs_intro]: "costs cycles_of 1 1 (phantom_read_ign CPU6502Traits e a)"
  by (simp only: phantom_read_ign_def nmos, rule costs_weaken, (rule costs_intro)+) simp_all

lemma costs_phantom_write [costs_intro]: "costs cycles_of 1 1 (phantom_write e a v)"
  by (simp only: phantom_write_def nmos, rule costs_weaken, (rule costs_intro)+) simp_all

lemma costs_fetch_pc [costs_intro]: "costs cycles_of 1 1 (fetch_pc CPU6502Traits e)"
  by (simp only: fetch_pc_def nmos, rule costs_weaken, (rule costs_intro)+) simp_all

lemma costs_phantom_pc [costs_intro]: "costs cycles_of 1 1 (phantom_pc CPU6502Traits e)"
  by (simp only: phantom_pc_def nmos, rule costs_weaken, (rule costs_intro)+) simp_all

lemma costs_read_word_bank0 [costs_intro]: "costs cycles_of 2 2 (read_word_bank0 e a)"
  by (simp only: read_word_bank0_def nmos, rule costs_weaken, (rule costs_intro)+) simp_all

lemma costs_read_data [costs_intro]: "costs cycles_of 1 1 (read_data e W8 a)"
  by (simp only: read_data_def nmos, rule costs_weaken, (rule costs_intro)+) simp_all

lemma costs_write_data [costs_intro]: "costs cycles_of 1 1 (write_data e W8 a v)"
  by (simp only: write_data_def nmos, rule costs_weaken, (rule costs_intro)+) simp_all

lemma costs_write_tada [costs_intro]: "costs cycles_of 1 1 (write_tada e W8 a v)"
  by (simp only: write_tada_def nmos, rule costs_weaken, (rule costs_intro)+) simp_all

lemma costs_read_data_direct [costs_intro]: "costs cycles_of 1 1 (read_data_direct e W8 a)"
  by (simp only: read_data_direct_def nmos, rule costs_weaken, (rule costs_intro)+) simp_all

lemma costs_write_data_direct [costs_intro]: "costs cycles_of 1 1 (write_data_direct e W8 a v)"
  by (simp only: write_data_direct_def nmos, rule costs_weaken, (rule costs_intro)+) simp_all

lemma costs_write_tada_direct [costs_intro]: "costs cycles_of 1 1 (write_tada_direct e W8 a v)"
  by (simp only: write_tada_direct_def nmos, rule costs_weaken, (rule costs_intro)+) simp_all

lemma costs_rmw_acc [costs_intro]: "costs cycles_of 1 1 (rmw_acc CPU6502Traits e f)"
  by (simp only: rmw_acc_def nmos, rule costs_weaken, (rule costs_intro)+) simp_all

lemma costs_read_imm [costs_intro]: "costs cycles_of 1 1 (read_imm CPU6502Traits e W8)"
  by (simp only: read_imm_def nmos, rule costs_weaken, (rule costs_intro)+) simp_all

lemma costs_address_abs [costs_intro]: "costs cycles_of 2 2 (address_abs CPU6502Traits e)"
  by (simp only: address_abs_def nmos, rule costs_weaken, (rule costs_intro)+) simp_all

lemma costs_read_abs [costs_intro]: "costs cycles_of 3 3 (read_abs CPU6502Traits e W8)"
  by (simp only: read_abs_def nmos, rule costs_weaken, (rule costs_intro)+) simp_all

lemma costs_write_abs [costs_intro]: "costs cycles_of 3 3 (write_abs CPU6502Traits e W8 v)"
  by (simp only: write_abs_def nmos, rule costs_weaken, (rule costs_intro)+) simp_all

lemma costs_rmw_modify_cycle [costs_intro]: "costs cycles_of 1 1 (rmw_modify_cycle CPU6502Traits e a b r)"
  by (simp only: rmw_modify_cycle_def nmos, rule costs_weaken, (rule costs_intro)+) simp_all

lemma costs_apply_rmw [costs_intro]: "costs cycles_of 0 0 (apply_rmw CPU6502Traits f r)"
  by (simp only: apply_rmw_def nmos, rule costs_weaken, (rule costs_intro)+) simp_all

lemma costs_rmw_abs [costs_intro]: "costs cycles_of 5 5 (rmw_abs CPU6502Traits e f)"
  by (simp only: rmw_abs_def nmos, rule costs_weaken, (rule costs_intro)+) simp_all

lemma costs_address_abs_x_write [costs_intro]: "costs cycles_of 3 3 (address_abs_x_write CPU6502Traits e i)"
  by (simp only: address_abs_x_write_def nmos, rule costs_weaken, (rule costs_intro)+) simp_all

lemma costs_write_abs_x [costs_intro]: "costs cycles_of 4 4 (write_abs_x CPU6502Traits e W8 v i)"
  by (simp only: write_abs_x_def nmos, rule costs_weaken, (rule costs_intro)+) simp_all

lemma costs_address_rmw_abs_x [costs_intro]: "costs cycles_of 3 3 (address_rmw_abs_x CPU6502Traits e i)"
  by (simp only: address_rmw_abs_x_def nmos, rule costs_weaken, (rule costs_intro)+) simp_all

lemma costs_rmw_abs_x [costs_intro]: "costs cycles_of 6 6 (rmw_abs_x CPU6502Traits e f)"
  by (simp only: rmw_abs_x_def nmos, rule costs_weaken, (rule costs_intro)+) simp_all

lemma costs_address_direct [costs_intro]: "costs cycles_of 1 1 (address_direct CPU6502Traits e)"
  by (simp only: address_direct_def nmos, rule costs_weaken, (rule costs_intro)+) simp_all

lemma costs_read_direct [costs_intro]: "costs cycles_of 2 2 (read_direct CPU6502Traits e W8)"
  by (simp only: read_direct_def nmos, rule costs_weaken, (rule costs_intro)+) simp_all

lemma costs_write_direct [costs_intro]: "costs cycles_of 2 2 (write_direct CPU6502Traits e W8 v)"
  by (simp only: write_direct_def nmos, rule costs_weaken, (rule costs_intro)+) simp_all

lemma costs_rmw_direct [costs_intro]: "costs cycles_of 4 4 (rmw_direct CPU6502Traits e f)"
  by (simp only: rmw_direct_def nmos, rule costs_weaken, (rule costs_intro)+) simp_all

lemma costs_address_direct_x [costs_intro]: "costs cycles_of 2 2 (address_direct_x CPU6502Traits e i)"
  by (simp only: address_direct_x_def nmos, rule costs_weaken, (rule costs_intro)+) simp_all

lemma costs_read_direct_x [costs_intro]: "costs cycles_of 3 3 (read_direct_x CPU6502Traits e W8 i)"
  by (simp only: read_direct_x_def nmos, rule costs_weaken, (rule costs_intro)+) simp_all

lemma costs_write_direct_x [costs_intro]: "costs cycles_of 3 3 (write_direct_x CPU6502Traits e W8 v i)"
  by (simp only: write_direct_x_def nmos, rule costs_weaken, (rule costs_intro)+) simp_all

lemma costs_rmw_direct_x [costs_intro]: "costs cycles_of 5 5 (rmw_direct_x CPU6502Traits e f)"
  by (simp only: rmw_direct_x_def nmos, rule costs_weaken, (rule costs_intro)+) simp_all

lemma costs_pointer_direct_x_ind [costs_intro]: "costs cycles_of 4 4 (pointer_direct_x_ind CPU6502Traits e i)"
  by (simp only: pointer_direct_x_ind_def nmos, rule costs_weaken, (rule costs_intro)+) simp_all

lemma costs_read_direct_x_ind [costs_intro]: "costs cycles_of 5 5 (read_direct_x_ind CPU6502Traits e W8 i)"
  by (simp only: read_direct_x_ind_def nmos, rule costs_weaken, (rule costs_intro)+) simp_all

lemma costs_write_direct_x_ind [costs_intro]: "costs cycles_of 5 5 (write_direct_x_ind CPU6502Traits e W8 v i)"
  by (simp only: write_direct_x_ind_def nmos, rule costs_weaken, (rule costs_intro)+) simp_all

lemma costs_address_direct_indirect [costs_intro]: "costs cycles_of 3 3 (address_direct_indirect CPU6502Traits e)"
  by (simp only: address_direct_indirect_def nmos, rule costs_weaken, (rule costs_intro)+) simp_all

lemma costs_write_direct_ind_x [costs_intro]: "costs cycles_of 5 5 (write_direct_ind_x CPU6502Traits e W8 v i)"
  by (simp only: write_direct_ind_x_def nmos, rule costs_weaken, (rule costs_intro)+) simp_all

lemma costs_transfer_x_s [costs_intro]: "costs cycles_of 1 1 (transfer_x_s CPU6502Traits e)"
  by (simp only: transfer_x_s_def nmos, rule costs_weaken, (rule costs_intro)+) simp_all

lemma costs_transfer_s_x [costs_intro]: "costs cycles_of 1 1 (transfer_s_x CPU6502Traits e)"
  by (simp only: transfer_s_x_def nmos, rule costs_weaken, (rule costs_intro)+) simp_all

lemma costs_decimal_cycle [costs_intro]: "costs cycles_of 0 0 (decimal_cycle CPU6502Traits e)"
  by (simp only: decimal_cycle_def nmos, rule costs_weaken, (rule costs_intro)+) simp_all

lemma costs_add_and_set_flags_8 [costs_intro]: "costs cycles_of 0 0 (add_and_set_flags_8 CPU6502Traits e v)"
  by (simp only: add_and_set_flags_8_def nmos, rule costs_weaken, (rule costs_intro)+) simp_all

lemma costs_subtract_and_set_flags_8 [costs_intro]: "costs cycles_of 0 0 (subtract_and_set_flags_8 CPU6502Traits e v)"
  by (simp only: subtract_and_set_flags_8_def nmos, rule costs_weaken, (rule costs_intro)+) simp_all

lemma costs_add_and_set_flags [costs_intro]: "costs cycles_of 0 0 (add_and_set_flags CPU6502Traits e v)"
  by (simp only: add_and_set_flags_def nmos, rule costs_weaken, (rule costs_intro)+) simp_all

lemma costs_subtract_and_set_flags [costs_intro]: "costs cycles_of 0 0 (subtract_and_set_flags CPU6502Traits e v)"
  by (simp only: subtract_and_set_flags_def nmos, rule costs_weaken, (rule costs_intro)+) simp_all

lemma costs_address_relative [costs_intro]: "costs cycles_of 1 1 (address_relative CPU6502Traits e)"
  by (simp only: address_relative_def nmos, rule costs_weaken, (rule costs_intro)+) simp_all

lemma costs_push_byte [costs_intro]: "costs cycles_of 1 1 (push_byte CPU6502Traits e v)"
  by (simp only: push_byte_def nmos, rule costs_weaken, (rule costs_intro)+) simp_all

lemma costs_pop_byte [costs_intro]: "costs cycles_of 1 1 (pop_byte CPU6502Traits e)"
  by (simp only: pop_byte_def nmos, rule costs_weaken, (rule costs_intro)+) simp_all

lemma costs_push_word [costs_intro]: "costs cycles_of 2 2 (push_word CPU6502Traits e v)"
  by (simp only: push_word_def nmos, rule costs_weaken, (rule costs_intro)+) simp_all

lemma costs_pop_word [costs_intro]: "costs cycles_of 2 2 (pop_word CPU6502Traits e)"
  by (simp only: pop_word_def nmos, rule costs_weaken, (rule costs_intro)+) simp_all

lemma costs_stack_pull8 [costs_intro]: "costs cycles_of 3 3 (stack_pull CPU6502Traits e W8)"
  by (simp only: stack_pull_def nmos, rule costs_weaken, (rule costs_intro)+) simp_all

lemma costs_stack_pull16 [costs_intro]: "costs cycles_of 4 4 (stack_pull CPU6502Traits e W16)"
  by (simp only: stack_pull_def nmos, rule costs_weaken, (rule costs_intro)+) simp_all

lemma costs_stack_push [costs_intro]: "costs cycles_of 2 2 (stack_push CPU6502Traits e W8 v)"
  by (simp only: stack_push_def nmos, rule costs_weaken, (rule costs_intro)+) simp_all

lemma costs_brk_cop [costs_intro]: "costs cycles_of 6 6 (brk_cop CPU6502Traits e a)"
  by (simp only: brk_cop_def nmos, rule costs_weaken, (rule costs_intro)+) simp_all

lemma costs_set_pc [costs_intro]: "costs cycles_of 0 0 (set_pc a)"
  by (simp only: set_pc_def nmos, rule costs_weaken, (rule costs_intro)+) simp_all

lemma costs_op_php [costs_intro]: "costs cycles_of 2 2 (op_php CPU6502Traits e)"
  by (simp only: op_php_def nmos, rule costs_weaken, (rule costs_intro)+) simp_all

lemma costs_op_plp [costs_intro]: "costs cycles_of 3 3 (op_plp CPU6502Traits e)"
  by (simp only: op_plp_def nmos, rule costs_weaken, (rule costs_intro)+) simp_all

lemma costs_op_brk [costs_intro]: "costs cycles_of 6 6 (op_brk CPU6502Traits e)"
  by (simp only: op_brk_def nmos, rule costs_weaken, (rule costs_intro)+) simp_all

lemma costs_op_jmp_abs [costs_intro]: "costs cycles_of 2 2 (op_jmp_abs CPU6502Traits e)"
  by (simp only: op_jmp_abs_def nmos, rule costs_weaken, (rule costs_intro)+) simp_all

lemma costs_op_jmp_ind [costs_intro]: "costs cycles_of 4 4 (op_jmp_ind CPU6502Traits e)"
  by (simp only: op_jmp_ind_def nmos, rule costs_weaken, (rule costs_intro)+) simp_all

lemma costs_op_jsr [costs_intro]: "costs cycles_of 5 5 (op_jsr CPU6502Traits e)"
  by (simp only: op_jsr_def nmos, rule costs_weaken, (rule costs_intro)+) simp_all

lemma costs_op_rti [costs_intro]: "costs cycles_of 5 5 (op_rti CPU6502Traits e)"
  by (simp only: op_rti_def nmos, rule costs_weaken, (rule costs_intro)+) simp_all

lemma costs_op_rts [costs_intro]: "costs cycles_of 5 5 (op_rts CPU6502Traits e)"
  by (simp only: op_rts_def nmos, rule costs_weaken, (rule costs_intro)+) simp_all

lemma costs_implied [costs_intro]: "costs cycles_of 1 1 (implied CPU6502Traits e f)"
  by (simp only: implied_def nmos, rule costs_weaken, (rule costs_intro)+) simp_all

lemma costs_implied_late [costs_intro]: "costs cycles_of 1 1 (implied_late CPU6502Traits e f)"
  by (simp only: implied_late_def nmos, rule costs_weaken, (rule costs_intro)+) simp_all

section \<open>Shapes of case bodies\<close>

lemma costs_by_X [costs_intro]: "(\<And>i. costs cycles_of l h (f i)) \<Longrightarrow> costs cycles_of l h (by_X tr f)"
  unfolding by_X_def by (rule costs_weaken, (rule costs_intro | assumption)+) simp_all

lemma costs_by_Y [costs_intro]: "(\<And>i. costs cycles_of l h (f i)) \<Longrightarrow> costs cycles_of l h (by_Y tr f)"
  unfolding by_Y_def by (rule costs_weaken, (rule costs_intro | assumption)+) simp_all

lemma costs_store [costs_intro]: "(\<And>v. costs cycles_of l h (f v)) \<Longrightarrow> costs cycles_of l h (store r f)"
  unfolding store_def by (rule costs_weaken, (rule costs_intro | assumption)+) simp_all

lemma costs_operand [costs_intro]:
  assumes "costs cycles_of l h f"
  shows "costs cycles_of l h (do_adc CPU6502Traits e f)" "costs cycles_of l h (do_sbc CPU6502Traits e f)"
    "costs cycles_of l h (do_and tr f)" "costs cycles_of l h (do_ora tr f)" "costs cycles_of l h (do_eor tr f)"
    "costs cycles_of l h (do_lda tr f)" "costs cycles_of l h (do_ldx tr f)" "costs cycles_of l h (do_ldy tr f)"
    "costs cycles_of l h (do_cmp tr f)" "costs cycles_of l h (do_cpx tr f)" "costs cycles_of l h (do_cpy tr f)"
    "costs cycles_of l h (do_bit tr f)"
  unfolding do_adc_def do_sbc_def do_and_def do_ora_def do_eor_def do_lda_def do_ldx_def do_ldy_def do_cmp_def
    do_cpx_def do_cpy_def do_bit_def
  by (rule costs_weaken, rule costs_bind, rule assms, rule costs_intro, simp, simp)+

section \<open>The switch has one case for every byte\<close>

lemma opcode_labels:
  "map unat (map fst (opcode_table tr e)) =
     [105, 101, 117, 114, 109, 125, 121, 97, 113, 41, 37, 50, 53, 45, 61, 57, 33, 49, 10, 6,
      22, 14, 30, 15, 31, 47, 63, 79, 95, 111, 127, 143, 159, 175, 191, 207, 223, 239, 255, 144,
      176, 240, 208, 48, 16, 128, 80, 112, 201, 210, 197, 213, 205, 221, 217, 193, 209, 224, 228, 236,
      192, 196, 204, 198, 214, 206, 222, 202, 136, 73, 82, 69, 85, 77, 93, 89, 65, 81, 26, 58,
      230, 246, 238, 254, 232, 200, 169, 165, 181, 173, 189, 185, 178, 161, 177, 162, 166, 182, 174, 190,
      160, 164, 180, 172, 188, 74, 70, 86, 78, 94, 9, 18, 5, 21, 13, 29, 25, 1, 17, 72,
      8, 218, 90, 40, 104, 250, 122, 42, 38, 54, 46, 62, 106, 102, 118, 110, 126, 233, 242, 229,
      245, 237, 253, 249, 225, 241, 146, 133, 149, 141, 157, 153, 129, 145, 134, 150, 142, 132, 148, 140,
      100, 116, 156, 158, 170, 168, 152, 20, 28, 4, 12, 186, 138, 154, 0, 76, 108, 124, 32, 64,
      96, 234, 216, 248, 24, 88, 184, 56, 120, 36, 44, 137, 52, 60, 2, 34, 66, 98, 130, 194,
      226, 68, 84, 212, 244, 92, 220, 252, 3, 19, 35, 51, 67, 83, 99, 115, 131, 147, 163, 179,
      195, 211, 227, 243, 7, 23, 39, 55, 71, 87, 103, 119, 135, 151, 167, 183, 199, 215, 231, 247,
      11, 27, 43, 59, 75, 91, 107, 123, 139, 155, 171, 187, 203, 219, 235, 251]"
  by (simp add: opcode_table_def opcode_case_defs)

lemma opcode_table_distinct: "distinct (map fst (opcode_table tr e))"
proof -
  have "distinct (map unat (map fst (opcode_table tr e)))"
    unfolding opcode_labels by simp
  then show ?thesis
    by (simp only: distinct_map)
qed

lemma execute_opcode_eq: "(opc, body) \<in> set (opcode_table tr e) \<Longrightarrow> execute_opcode tr e opc = body"
  by (simp add: execute_opcode_def map_of_is_SomeI [OF opcode_table_distinct])

section \<open>The data sheet\<close>

text \<open>
  Opcode, cycles, and what may add to them: an index register that takes the operand's address, or the pointer the
  operand points at, into another page; or a branch that is taken, with one more cycle when its target lies in another
  page than the instruction behind it.  One table for each group of cases of the switch.
\<close>

datatype extra = No_extra | Index_X | Index_Y | Pointer_Y | Taken_if "cpu_state \<Rightarrow> bool"

type_synonym timing_table = "(u8 \<times> nat \<times> extra) list"

text \<open>The operand bytes are what the bus delivers behind the opcode; addresses are natural numbers, taken modulo 65536.\<close>

definition operand8 :: "'m machine_ops \<Rightarrow> 'm machine \<Rightarrow> u8" where
  "operand8 e s = fst (run_state (fetch_pc CPU6502Traits e) s)"

definition operand16 :: "'m machine_ops \<Rightarrow> 'm machine \<Rightarrow> nat" where
  "operand16 e s = unat (operand8 e s) + 256 * unat (operand8 e (snd (run_state (fetch_pc CPU6502Traits e) s)))"

definition pointer16 :: "'m machine_ops \<Rightarrow> 'm machine \<Rightarrow> nat" where
  "pointer16 e s = unat (fst (run_state (address_direct_indirect CPU6502Traits e) s)) mod 65536"

definition crosses :: "nat \<Rightarrow> nat \<Rightarrow> bool" where
  "crosses base index \<longleftrightarrow> base div 256 \<noteq> (base + index) mod 65536 div 256"

definition branch_crosses :: "'m machine_ops \<Rightarrow> 'm machine \<Rightarrow> bool" where
  "branch_crosses e s \<longleftrightarrow>
     (let behind = (uint (reg_pc (cpu s)) + 1) mod 65536
      in behind div 256 \<noteq> (behind + sint (operand8 e s)) mod 65536 div 256)"

definition extra_cycles :: "'m machine_ops \<Rightarrow> 'm machine \<Rightarrow> extra \<Rightarrow> nat" where
  "extra_cycles e s x =
     (case x of
        No_extra \<Rightarrow> 0
      | Index_X \<Rightarrow> of_bool (crosses (operand16 e s) (unat (word_lo (reg_x (cpu s)))))
      | Index_Y \<Rightarrow> of_bool (crosses (operand16 e s) (unat (word_lo (reg_y (cpu s)))))
      | Pointer_Y \<Rightarrow> of_bool (crosses (pointer16 e s) (unat (word_lo (reg_y (cpu s)))))
      | Taken_if cond \<Rightarrow> if cond (cpu s) then 1 + of_bool (branch_crosses e s) else 0)"

definition adc_timing :: timing_table where
  "adc_timing = [
     (0x69, 2, No_extra), (0x65, 3, No_extra), (0x75, 4, No_extra), (0x6D, 4, No_extra), (0x7D, 4, Index_X),
     (0x79, 4, Index_Y), (0x61, 6, No_extra), (0x71, 5, Pointer_Y)]"

definition and_timing :: timing_table where
  "and_timing = [
     (0x29, 2, No_extra), (0x25, 3, No_extra), (0x35, 4, No_extra), (0x2D, 4, No_extra), (0x3D, 4, Index_X),
     (0x39, 4, Index_Y), (0x21, 6, No_extra), (0x31, 5, Pointer_Y)]"

definition asl_timing :: timing_table where
  "asl_timing = [
     (0x0A, 2, No_extra), (0x06, 5, No_extra), (0x16, 6, No_extra), (0x0E, 6, No_extra), (0x1E, 7, No_extra)]"

definition branch_timing :: timing_table where
  "branch_timing = [
     (0x90, 2, Taken_if (\<lambda>c. \<not> flag_C c)), (0xB0, 2, Taken_if flag_C), (0xF0, 2, Taken_if flag_Z),
     (0xD0, 2, Taken_if (\<lambda>c. \<not> flag_Z c)), (0x30, 2, Taken_if flag_N), (0x10, 2, Taken_if (\<lambda>c. \<not> flag_N c)),
     (0x50, 2, Taken_if (\<lambda>c. \<not> flag_V c)), (0x70, 2, Taken_if flag_V)]"

definition cmp_timing :: timing_table where
  "cmp_timing = [
     (0xC9, 2, No_extra), (0xC5, 3, No_extra), (0xD5, 4, No_extra), (0xCD, 4, No_extra), (0xDD, 4, Index_X),
     (0xD9, 4, Index_Y), (0xC1, 6, No_extra), (0xD1, 5, Pointer_Y)]"

definition cpx_cpy_timing :: timing_table where
  "cpx_cpy_timing = [
     (0xE0, 2, No_extra), (0xE4, 3, No_extra), (0xEC, 4, No_extra), (0xC0, 2, No_extra), (0xC4, 3, No_extra),
     (0xCC, 4, No_extra)]"

definition dec_timing :: timing_table where
  "dec_timing = [
     (0xC6, 5, No_extra), (0xD6, 6, No_extra), (0xCE, 6, No_extra), (0xDE, 7, No_extra), (0xCA, 2, No_extra),
     (0x88, 2, No_extra)]"

definition eor_timing :: timing_table where
  "eor_timing = [
     (0x49, 2, No_extra), (0x45, 3, No_extra), (0x55, 4, No_extra), (0x4D, 4, No_extra), (0x5D, 4, Index_X),
     (0x59, 4, Index_Y), (0x41, 6, No_extra), (0x51, 5, Pointer_Y)]"

definition inc_timing :: timing_table where
  "inc_timing = [
     (0xE6, 5, No_extra), (0xF6, 6, No_extra), (0xEE, 6, No_extra), (0xFE, 7, No_extra), (0xE8, 2, No_extra),
     (0xC8, 2, No_extra)]"

definition lda_timing :: timing_table where
  "lda_timing = [
     (0xA9, 2, No_extra), (0xA5, 3, No_extra), (0xB5, 4, No_extra), (0xAD, 4, No_extra), (0xBD, 4, Index_X),
     (0xB9, 4, Index_Y), (0xA1, 6, No_extra), (0xB1, 5, Pointer_Y)]"

definition ldx_ldy_timing :: timing_table where
  "ldx_ldy_timing = [
     (0xA2, 2, No_extra), (0xA6, 3, No_extra), (0xB6, 4, No_extra), (0xAE, 4, No_extra), (0xBE, 4, Index_Y),
     (0xA0, 2, No_extra), (0xA4, 3, No_extra), (0xB4, 4, No_extra), (0xAC, 4, No_extra), (0xBC, 4, Index_X)]"

definition lsr_timing :: timing_table where
  "lsr_timing = [
     (0x4A, 2, No_extra), (0x46, 5, No_extra), (0x56, 6, No_extra), (0x4E, 6, No_extra), (0x5E, 7, No_extra)]"

definition ora_timing :: timing_table where
  "ora_timing = [
     (0x09, 2, No_extra), (0x05, 3, No_extra), (0x15, 4, No_extra), (0x0D, 4, No_extra), (0x1D, 4, Index_X),
     (0x19, 4, Index_Y), (0x01, 6, No_extra), (0x11, 5, Pointer_Y)]"

definition stack_timing :: timing_table where
  "stack_timing = [
     (0x48, 3, No_extra), (0x08, 3, No_extra), (0x28, 4, No_extra), (0x68, 4, No_extra)]"

definition rol_timing :: timing_table where
  "rol_timing = [
     (0x2A, 2, No_extra), (0x26, 5, No_extra), (0x36, 6, No_extra), (0x2E, 6, No_extra), (0x3E, 7, No_extra)]"

definition ror_timing :: timing_table where
  "ror_timing = [
     (0x6A, 2, No_extra), (0x66, 5, No_extra), (0x76, 6, No_extra), (0x6E, 6, No_extra), (0x7E, 7, No_extra)]"

definition sbc_timing :: timing_table where
  "sbc_timing = [
     (0xE9, 2, No_extra), (0xE5, 3, No_extra), (0xF5, 4, No_extra), (0xED, 4, No_extra), (0xFD, 4, Index_X),
     (0xF9, 4, Index_Y), (0xE1, 6, No_extra), (0xF1, 5, Pointer_Y)]"

definition sta_timing :: timing_table where
  "sta_timing = [
     (0x85, 3, No_extra), (0x95, 4, No_extra), (0x8D, 4, No_extra), (0x9D, 5, No_extra), (0x99, 5, No_extra),
     (0x81, 6, No_extra), (0x91, 6, No_extra)]"

definition stx_sty_stz_timing :: timing_table where
  "stx_sty_stz_timing = [
     (0x86, 3, No_extra), (0x96, 4, No_extra), (0x8E, 4, No_extra), (0x84, 3, No_extra), (0x94, 4, No_extra),
     (0x8C, 4, No_extra)]"

definition transfer_timing :: timing_table where
  "transfer_timing = [
     (0xAA, 2, No_extra), (0xA8, 2, No_extra), (0x98, 2, No_extra), (0xBA, 2, No_extra), (0x8A, 2, No_extra),
     (0x9A, 2, No_extra)]"

definition control_timing :: timing_table where
  "control_timing = [
     (0x00, 7, No_extra), (0x4C, 3, No_extra), (0x6C, 5, No_extra), (0x20, 6, No_extra), (0x40, 6, No_extra),
     (0x60, 6, No_extra), (0xEA, 2, No_extra)]"

definition flag_timing :: timing_table where
  "flag_timing = [
     (0xD8, 2, No_extra), (0xF8, 2, No_extra), (0x18, 2, No_extra), (0x58, 2, No_extra), (0xB8, 2, No_extra),
     (0x38, 2, No_extra), (0x78, 2, No_extra)]"

definition bit_timing :: timing_table where
  "bit_timing = [
     (0x24, 3, No_extra), (0x2C, 4, No_extra)]"

definition timing_6502 :: timing_table where
  "timing_6502 =
     adc_timing @ and_timing @ asl_timing @ branch_timing @
     cmp_timing @ cpx_cpy_timing @ dec_timing @ eor_timing @
     inc_timing @ lda_timing @ ldx_ldy_timing @ lsr_timing @
     ora_timing @ stack_timing @ rol_timing @ ror_timing @
     sbc_timing @ sta_timing @ stx_sty_stz_timing @ transfer_timing @
     control_timing @ flag_timing @ bit_timing"

section \<open>Cycles that depend on the operand\<close>

definition takes :: "('m machine \<Rightarrow> nat) \<Rightarrow> ('m, 'a) action \<Rightarrow> bool" where
  "takes k f \<longleftrightarrow> (\<forall>s. cycles_of (snd (run_state f s)) = cycles_of s + k s)"

lemma takes_exact: "costs cycles_of n n f \<Longrightarrow> takes (\<lambda>_. n) f"
  by (simp add: costs_def takes_def le_antisym)

lemma takes_then: "takes k f \<Longrightarrow> (\<And>r. costs cycles_of n n (g r)) \<Longrightarrow> takes (\<lambda>s. k s + n) (f \<bind> g)"
  by (auto simp: takes_def costs_def split: prod.split) (metis add.assoc add.commute le_antisym snd_conv)

lemma takes_operand:
  assumes "takes k f"
  shows "takes k (do_adc CPU6502Traits e f)" "takes k (do_sbc CPU6502Traits e f)" "takes k (do_and tr f)"
    "takes k (do_ora tr f)" "takes k (do_eor tr f)" "takes k (do_lda tr f)" "takes k (do_ldx tr f)"
    "takes k (do_ldy tr f)" "takes k (do_cmp tr f)"
  unfolding do_adc_def do_sbc_def do_and_def do_ora_def do_eor_def do_lda_def do_ldx_def do_ldy_def do_cmp_def
  by (rule takes_then [OF assms, of 0, simplified], rule costs_intro)+

lemma takes_by_X: "(\<And>i. takes (k i) (f i)) \<Longrightarrow> takes (\<lambda>s. k (get_X tr (cpu s)) s) (by_X tr f)"
  "(\<And>i. takes (k i) (f i)) \<Longrightarrow> takes (\<lambda>s. k (get_Y tr (cpu s)) s) (by_Y tr f)"
  by (simp_all add: takes_def by_X_def by_Y_def cpu_get_def)

lemma index_6502: "unat (get_X CPU6502Traits c) = unat (word_lo (reg_x c))" "unat (get_Y CPU6502Traits c) = unat (word_lo (reg_y c))"
proof -
  have "unat (ucast w :: u16) = unat w" for w :: u8
    using unsigned_less [of w, where ?'a = nat] by (simp add: unsigned_ucast_eq take_bit_nat_eq_self_iff)
  then show "unat (get_X CPU6502Traits c) = unat (word_lo (reg_x c))" "unat (get_Y CPU6502Traits c) = unat (word_lo (reg_y c))"
    by (simp_all add: get_X_def get_Y_def CPU6502Traits_def)
qed

lemma takes_bind:
  assumes "costs cycles_of n n f" "\<And>s. costs cycles_of (k s) (k s) (g (fst (run_state f s)))"
  shows "takes (\<lambda>s. n + k s) (f \<bind> g)"
proof -
  have "cycles_of (snd (run_state (f \<bind> g) s)) = cycles_of s + (n + k s)" for s
  proof -
    obtain x t where f: "run_state f s = (x, t)" by fastforce
    have "cycles_of t = cycles_of s + n" using costsD [OF assms(1) f] by simp
    moreover have "cycles_of (snd (run_state (g x) t)) = cycles_of t + k s"
      using costsD [OF assms(2) [of s], of t] f by (cases "run_state (g x) t") (simp add: le_antisym)
    ultimately show ?thesis by (simp add: f)
  qed
  then show ?thesis by (simp add: takes_def)
qed

lemma costs_if_phantom:
  "costs cycles_of n n g \<Longrightarrow>
    costs cycles_of (of_bool b + n) (of_bool b + n) (mwhen b (phantom_read e a) \<bind> (\<lambda>_. g))"
  using costs_bind [OF costs_phantom_read, of n n "\<lambda>_. g" e a] by (cases b) (simp_all add: mwhen_def)

lemma page_differs:
  fixes a b :: u16
  shows "ucast a AND 0xFF00 \<noteq> (ucast b :: u32) AND 0xFF00 \<longleftrightarrow> unat a div 256 \<noteq> unat b div 256" (is ?wide)
    "a AND 0xFF00 \<noteq> b AND 0xFF00 \<longleftrightarrow> unat a div 256 \<noteq> unat b div 256" (is ?narrow)
proof -
  have hi: "unat a div 256 = unat b div 256 \<longleftrightarrow> (\<forall>n. 8 \<le> n \<longrightarrow> bit a n = bit b n)"
  proof -
    have "unat w div 256 = unat (drop_bit 8 w)" for w :: u16
      by (simp add: drop_bit_eq_div unat_div)
    then have "unat a div 256 = unat b div 256 \<longleftrightarrow> drop_bit 8 a = drop_bit 8 b" by (simp add: word_unat_eq_iff)
    also have "\<dots> \<longleftrightarrow> (\<forall>n. bit (drop_bit 8 a) n = bit (drop_bit 8 b) n)" by (metis bit_word_eqI)
    also have "\<dots> \<longleftrightarrow> (\<forall>n. bit a (8 + n) = bit b (8 + n))" by (simp only: bit_drop_bit_eq comp_apply)
    finally show ?thesis by (metis le_add_diff_inverse le_add1)
  qed
  have mask: "(0xFF00 :: u32) = push_bit 8 (mask 8)" "(0xFF00 :: u16) = push_bit 8 (mask 8)" by (simp_all add: mask_eq_exp_minus_1)
  have "bit (ucast w AND 0xFF00 :: u32) n \<longleftrightarrow> 8 \<le> n \<and> bit w n" for w :: u16 and n
    unfolding mask by (auto simp: bit_and_iff bit_push_bit_iff bit_mask_iff bit_ucast_iff dest: bit_imp_le_length)
  then show ?wide unfolding hi by (metis bit_word_eqI)
  have "bit (w AND 0xFF00) n \<longleftrightarrow> 8 \<le> n \<and> bit w n" for w :: u16 and n
    unfolding mask by (auto simp: bit_and_iff bit_push_bit_iff bit_mask_iff dest: bit_imp_le_length)
  moreover have "x = y \<longleftrightarrow> (\<forall>n. bit x n = bit y n)" for x y :: u16 by (auto intro: bit_word_eqI)
  ultimately show ?narrow unfolding hi by auto
qed

lemma unat_mk_word: "unat (mk_word l h) = unat l + 256 * unat h"
proof -
  have "bit (unat (mk_word l h)) n \<longleftrightarrow> bit (unat l + push_bit 8 (unat h)) n" for n
  proof -
    have "unat l + push_bit 8 (unat h) = unat l OR push_bit 8 (unat h)"
      by (rule disjunctive_add) (auto simp: bit_simps dest: bit_imp_le_length)
    then show ?thesis by (auto simp: bit_simps bit_mk_word dest: bit_imp_le_length)
  qed
  then show ?thesis by (simp add: bit_eq_iff push_bit_eq_mult mult.commute)
qed

lemma operand16_run: "unat (fst (run_state (address_abs CPU6502Traits e) s)) = operand16 e s"
  by (simp add: address_abs_def operand16_def operand8_def unat_mk_word split: prod.split)

lemma takes_read_abs_x:
  "takes (\<lambda>s. 3 + of_bool (crosses (operand16 e s) (unat i))) (read_abs_x CPU6502Traits e W8 i)"
proof -
  let ?g = "\<lambda>base. mwhen (ucast base AND 0xFF00 \<noteq> (ucast (base + i) :: u32) AND 0xFF00)
      (phantom_read e ((ucast base AND 0xFF00) OR ((ucast base + ucast i) AND 0xFF))) \<bind>
      (\<lambda>_. read_data e W8 (ucast (base + i)))"
  have "read_abs_x CPU6502Traits e W8 i = address_abs CPU6502Traits e \<bind> ?g"
    by (simp add: read_abs_x_def address_abs_x_def nmos State_Monad.bind_assoc)
  moreover have "costs cycles_of (of_bool (crosses (operand16 e s) (unat i)) + 1) (of_bool (crosses (operand16 e s) (unat i)) + 1)
      (?g (fst (run_state (address_abs CPU6502Traits e) s)))" for s
  proof -
    let ?b = "fst (run_state (address_abs CPU6502Traits e) s)"
    have c: "crosses (operand16 e s) (unat i) \<longleftrightarrow> ucast ?b AND 0xFF00 \<noteq> (ucast (?b + i) :: u32) AND 0xFF00"
      unfolding page_differs crosses_def operand16_run [symmetric] by (simp add: unat_word_ariths)
    show ?thesis unfolding c by (rule costs_if_phantom [OF costs_read_data])
  qed
  ultimately show ?thesis using takes_bind [OF costs_address_abs, of _ ?g] by (simp add: numeral_3_eq_3)
qed

lemma takes_read_direct_ind_x:
  "takes (\<lambda>s. 4 + of_bool (crosses (pointer16 e s) (unat i))) (read_direct_ind_x CPU6502Traits e W8 i)"
proof -
  let ?g = "\<lambda>ptr. mwhen (ucast (ucast ptr + i) AND 0xFF00 \<noteq> (ucast (ucast ptr :: u16) :: u32) AND 0xFF00)
      (phantom_read e ((ucast (ucast ptr :: u16) AND 0xFF00) OR (ucast (ucast ptr + i) AND 0xFF))) \<bind>
      (\<lambda>_. read_data e W8 (ucast (ucast ptr + i :: u16)))"
  have "read_direct_ind_x CPU6502Traits e W8 i = address_direct_indirect CPU6502Traits e \<bind> ?g"
    by (simp add: read_direct_ind_x_def nmos)
  moreover have unat16: "unat (ucast p :: u16) = unat p mod 65536" for p :: u32
    by (simp add: unsigned_ucast_eq take_bit_eq_mod)
  have "costs cycles_of (of_bool (crosses (pointer16 e s) (unat i)) + 1) (of_bool (crosses (pointer16 e s) (unat i)) + 1)
      (?g (fst (run_state (address_direct_indirect CPU6502Traits e) s)))" for s
  proof -
    let ?b = "ucast (fst (run_state (address_direct_indirect CPU6502Traits e) s)) :: u16"
    have c: "crosses (pointer16 e s) (unat i) \<longleftrightarrow> ucast (?b + i) AND 0xFF00 \<noteq> (ucast ?b :: u32) AND 0xFF00"
      unfolding page_differs crosses_def pointer16_def unat16 [symmetric] by (auto simp: unat_word_ariths)
    show ?thesis unfolding c by (rule costs_if_phantom [OF costs_read_data])
  qed
  ultimately show ?thesis using takes_bind [OF costs_address_direct_indirect, of _ ?g] by (simp add: eval_nat_numeral)
qed

lemma branch_page_differs:
  fixes pc :: u16 and n :: u8
  shows "(pc + 1) AND 0xFF00 \<noteq> (pc + 1 + scast n) AND 0xFF00 \<longleftrightarrow>
    (let behind = (uint pc + 1) mod 65536 in behind div 256 \<noteq> (behind + sint n) mod 65536 div 256)"
proof -
  have "uint (pc + 1) = (uint pc + 1) mod 65536"
    by (simp add: uint_word_ariths)
  moreover have "uint (q + scast n) = (uint q + sint n) mod 65536" for q :: u16
  proof -
    have "q + scast n = word_of_int (uint q + sint n)"
      unfolding wi_hom_add [symmetric] by (simp only: word_of_int_uint of_int_sint)
    then show ?thesis by (simp only: uint_word_of_int) simp
  qed
  moreover have "unat a div 256 \<noteq> unat b div 256 \<longleftrightarrow> uint a div 256 \<noteq> uint b div 256" for a b :: u16
  proof -
    have "uint w div 256 = int (unat w div 256)" for w :: u16 by (simp add: zdiv_int)
    then show ?thesis by simp
  qed
  ultimately show ?thesis unfolding page_differs(2) Let_def by simp
qed

lemma takes_do_branch:
  assumes "\<And>c p q. cond (c\<lparr>irq_pipe := p, reg_pc := q\<rparr>) = cond c"
  shows "takes (\<lambda>s. 1 + extra_cycles e s (Taken_if cond)) (do_branch CPU6502Traits e cond)"
proof -
  have run: "\<exists>s1 p. run_state (fetch_pc CPU6502Traits e) s = (operand8 e s, s1) \<and> cycles_of s1 = cycles_of s + 1 \<and>
      cpu s1 = (cpu s)\<lparr>irq_pipe := p, reg_pc := reg_pc (cpu s) + 1\<rparr>" for s
    by (auto simp: operand8_def fetch_pc_def env_read_def incr_cycles_def cpu_get_def cpu_upd_def cycles_of_def
        split: prod.split)
  have "cycles_of (snd (run_state (do_branch CPU6502Traits e cond) s)) =
      cycles_of s + (1 + extra_cycles e s (Taken_if cond))" for s
  proof -
    obtain s1 p where s1: "run_state (fetch_pc CPU6502Traits e) s = (operand8 e s, s1)" "cycles_of s1 = cycles_of s + 1"
      "cpu s1 = (cpu s)\<lparr>irq_pipe := p, reg_pc := reg_pc (cpu s) + 1\<rparr>" using run by blast
    have "cycles_of (snd (run_state (branch_if CPU6502Traits e (operand8 e s) b) s1)) =
        cycles_of s1 + (if b then 1 + of_bool (branch_crosses e s) else 0)" for b
      using branch_page_differs [of "reg_pc (cpu s)" "operand8 e s"]
      by (simp add: branch_if_def nmos s1(3) branch_crosses_def mwhen_def cpu_get_def cpu_upd_def incr_cycles_def cycles_of_def)
    then show ?thesis
      using assms by (simp add: do_branch_def address_relative_def s1 cpu_get_def extra_cycles_def)
  qed
  then show ?thesis by (simp add: takes_def)
qed

lemmas takes_intro = takes_operand takes_by_X takes_read_abs_x takes_read_direct_ind_x takes_do_branch

text \<open>Every row names a case, and the body of the case takes exactly the cycles of the row less the one of the opcode
  fetch, from every state.\<close>

definition timed :: "'m machine_ops \<Rightarrow> timing_table \<Rightarrow> 'm opcode_cases \<Rightarrow> bool" where
  "timed e rows xs \<longleftrightarrow> (\<forall>(opc, n, x) \<in> set rows. 0 < n \<and>
     (\<exists>body. (opc, body) \<in> set xs \<and> takes (\<lambda>s. n - 1 + extra_cycles e s x) body))"

lemma timed_Nil: "timed e [] xs"
  by (simp add: timed_def)

lemma timed_Cons:
  assumes "map_of xs opc = Some body" "costs cycles_of l h body" "l = n - 1" "h = n - 1" "0 < n" and "timed e rows xs"
  shows "timed e ((opc, n, No_extra) # rows) xs"
  using assms map_of_SomeD [OF assms(1)] takes_exact [of "n - 1" body] by (auto simp: timed_def extra_cycles_def)

lemma timed_extra:
  assumes "map_of xs opc = Some body" "takes k body" "\<And>s. k s = n - 1 + extra_cycles e s x" "0 < n"
    and "timed e rows xs"
  shows "timed e ((opc, n, x) # rows) xs"
proof -
  have "k = (\<lambda>s. n - 1 + extra_cycles e s x)" using assms(3) by auto
  then show ?thesis using assms map_of_SomeD [OF assms(1)] by (auto simp: timed_def)
qed

lemma timed_append: "timed e (rows @ rows') xs \<longleftrightarrow> timed e rows xs \<and> timed e rows' xs"
  by (simp only: timed_def set_append ball_Un)

lemma timed_mono: "timed e rows xs \<Longrightarrow> set xs \<subseteq> set ys \<Longrightarrow> timed e rows ys"
  by (fastforce simp: timed_def)

lemma timed_adc_cases: "timed e adc_timing (adc_cases CPU6502Traits e)"
  unfolding adc_timing_def adc_cases_def nmos
  by (rule timed_Nil | (rule timed_Cons, simp, (rule costs_intro)+, simp, simp, simp) |
      (rule timed_extra, simp, (rule takes_intro)+, simp; (simp add: extra_cycles_def index_6502)?))+

lemma timed_and_cases: "timed e and_timing (and_cases CPU6502Traits e)"
  unfolding and_timing_def and_cases_def nmos
  by (rule timed_Nil | (rule timed_Cons, simp, (rule costs_intro)+, simp, simp, simp) |
      (rule timed_extra, simp, (rule takes_intro)+, simp; (simp add: extra_cycles_def index_6502)?))+

lemma timed_asl_cases: "timed e asl_timing (asl_cases CPU6502Traits e)"
  unfolding asl_timing_def asl_cases_def nmos
  by (rule timed_Nil | (rule timed_Cons, simp, (rule costs_intro)+, simp, simp, simp))+

lemma timed_branch_cases: "timed e branch_timing (branch_cases CPU6502Traits e)"
  unfolding branch_timing_def branch_cases_def nmos
  by (rule timed_Nil | (rule timed_Cons, simp, (rule costs_intro)+, simp, simp, simp) |
      (rule timed_extra, simp, (rule takes_intro)+, simp; (simp add: extra_cycles_def index_6502)?))+

lemma timed_cmp_cases: "timed e cmp_timing (cmp_cases CPU6502Traits e)"
  unfolding cmp_timing_def cmp_cases_def nmos
  by (rule timed_Nil | (rule timed_Cons, simp, (rule costs_intro)+, simp, simp, simp) |
      (rule timed_extra, simp, (rule takes_intro)+, simp; (simp add: extra_cycles_def index_6502)?))+

lemma timed_cpx_cpy_cases: "timed e cpx_cpy_timing (cpx_cpy_cases CPU6502Traits e)"
  unfolding cpx_cpy_timing_def cpx_cpy_cases_def nmos
  by (rule timed_Nil | (rule timed_Cons, simp, (rule costs_intro)+, simp, simp, simp))+

lemma timed_dec_cases: "timed e dec_timing (dec_cases CPU6502Traits e)"
  unfolding dec_timing_def dec_cases_def nmos
  by (rule timed_Nil | (rule timed_Cons, simp, (rule costs_intro)+, simp, simp, simp))+

lemma timed_eor_cases: "timed e eor_timing (eor_cases CPU6502Traits e)"
  unfolding eor_timing_def eor_cases_def nmos
  by (rule timed_Nil | (rule timed_Cons, simp, (rule costs_intro)+, simp, simp, simp) |
      (rule timed_extra, simp, (rule takes_intro)+, simp; (simp add: extra_cycles_def index_6502)?))+

lemma timed_inc_cases: "timed e inc_timing (inc_cases CPU6502Traits e)"
  unfolding inc_timing_def inc_cases_def nmos
  by (rule timed_Nil | (rule timed_Cons, simp, (rule costs_intro)+, simp, simp, simp))+

lemma timed_lda_cases: "timed e lda_timing (lda_cases CPU6502Traits e)"
  unfolding lda_timing_def lda_cases_def nmos
  by (rule timed_Nil | (rule timed_Cons, simp, (rule costs_intro)+, simp, simp, simp) |
      (rule timed_extra, simp, (rule takes_intro)+, simp; (simp add: extra_cycles_def index_6502)?))+

lemma timed_ldx_ldy_cases: "timed e ldx_ldy_timing (ldx_ldy_cases CPU6502Traits e)"
  unfolding ldx_ldy_timing_def ldx_ldy_cases_def nmos
  by (rule timed_Nil | (rule timed_Cons, simp, (rule costs_intro)+, simp, simp, simp) |
      (rule timed_extra, simp, (rule takes_intro)+, simp; (simp add: extra_cycles_def index_6502)?))+

lemma timed_lsr_cases: "timed e lsr_timing (lsr_cases CPU6502Traits e)"
  unfolding lsr_timing_def lsr_cases_def nmos
  by (rule timed_Nil | (rule timed_Cons, simp, (rule costs_intro)+, simp, simp, simp))+

lemma timed_ora_cases: "timed e ora_timing (ora_cases CPU6502Traits e)"
  unfolding ora_timing_def ora_cases_def nmos
  by (rule timed_Nil | (rule timed_Cons, simp, (rule costs_intro)+, simp, simp, simp) |
      (rule timed_extra, simp, (rule takes_intro)+, simp; (simp add: extra_cycles_def index_6502)?))+

lemma timed_stack_cases: "timed e stack_timing (stack_cases CPU6502Traits e)"
  unfolding stack_timing_def stack_cases_def nmos
  by (rule timed_Nil | (rule timed_Cons, simp, (rule costs_intro)+, simp, simp, simp))+

lemma timed_rol_cases: "timed e rol_timing (rol_cases CPU6502Traits e)"
  unfolding rol_timing_def rol_cases_def nmos
  by (rule timed_Nil | (rule timed_Cons, simp, (rule costs_intro)+, simp, simp, simp))+

lemma timed_ror_cases: "timed e ror_timing (ror_cases CPU6502Traits e)"
  unfolding ror_timing_def ror_cases_def nmos
  by (rule timed_Nil | (rule timed_Cons, simp, (rule costs_intro)+, simp, simp, simp))+

lemma timed_sbc_cases: "timed e sbc_timing (sbc_cases CPU6502Traits e)"
  unfolding sbc_timing_def sbc_cases_def nmos
  by (rule timed_Nil | (rule timed_Cons, simp, (rule costs_intro)+, simp, simp, simp) |
      (rule timed_extra, simp, (rule takes_intro)+, simp; (simp add: extra_cycles_def index_6502)?))+

lemma timed_sta_cases: "timed e sta_timing (sta_cases CPU6502Traits e)"
  unfolding sta_timing_def sta_cases_def nmos
  by (rule timed_Nil | (rule timed_Cons, simp, (rule costs_intro)+, simp, simp, simp))+

lemma timed_stx_sty_stz_cases: "timed e stx_sty_stz_timing (stx_sty_stz_cases CPU6502Traits e)"
  unfolding stx_sty_stz_timing_def stx_sty_stz_cases_def nmos
  by (rule timed_Nil | (rule timed_Cons, simp, (rule costs_intro)+, simp, simp, simp))+

lemma timed_transfer_cases: "timed e transfer_timing (transfer_cases CPU6502Traits e)"
  unfolding transfer_timing_def transfer_cases_def nmos
  by (rule timed_Nil | (rule timed_Cons, simp, (rule costs_intro)+, simp, simp, simp))+

lemma timed_control_cases: "timed e control_timing (control_cases CPU6502Traits e)"
  unfolding control_timing_def control_cases_def nmos
  by (rule timed_Nil | (rule timed_Cons, simp, (rule costs_intro)+, simp, simp, simp))+

lemma timed_flag_cases: "timed e flag_timing (flag_cases CPU6502Traits e)"
  unfolding flag_timing_def flag_cases_def nmos
  by (rule timed_Nil | (rule timed_Cons, simp, (rule costs_intro)+, simp, simp, simp))+

lemma timed_bit_cases: "timed e bit_timing (bit_cases CPU6502Traits e)"
  unfolding bit_timing_def bit_cases_def nmos
  by (rule timed_Nil | (rule timed_Cons, simp, (rule costs_intro)+, simp, simp, simp))+

lemmas timed_cases =
  timed_adc_cases timed_and_cases timed_asl_cases timed_branch_cases timed_cmp_cases
  timed_cpx_cpy_cases timed_dec_cases timed_eor_cases timed_inc_cases timed_lda_cases
  timed_ldx_ldy_cases timed_lsr_cases timed_ora_cases timed_stack_cases timed_rol_cases
  timed_ror_cases timed_sbc_cases timed_sta_cases timed_stx_sty_stz_cases timed_transfer_cases
  timed_control_cases timed_flag_cases timed_bit_cases

lemma timed_opcode_table: "timed e timing_6502 (opcode_table CPU6502Traits e)"
  unfolding timing_6502_def timed_append
  by (intro conjI; rule timed_mono, rule timed_cases [of e], auto simp: opcode_table_def)

text \<open>
  C33.  Instruction timing of the 6502.  From every state of the processor and of the machine, an instruction whose
  fetched opcode is one of the 151 documented ones takes exactly the cycles of the data sheet, the opcode fetch
  included: those of the opcode and addressing mode, one more where an indexed read leaves the page of its base
  address, one more for a branch whose flag has the value it tests, and another one when such a branch leaves the page of
  the instruction behind it.
\<close>

theorem instruction_timing_6502:
  assumes row: "(opc, n, x) \<in> set timing_6502"
    and fetch: "run_state (fetch_pc CPU6502Traits e) s = (opc, s1)"
    and run: "run_state (run_instruction CPU6502Traits e) s = (r, s')"
  shows "cycles_of s' = cycles_of s + n + extra_cycles e s1 x"
proof -
  from timed_opcode_table row
  obtain body where n: "0 < n" and body: "(opc, body) \<in> set (opcode_table CPU6502Traits e)"
    and takes: "takes (\<lambda>s. n - 1 + extra_cycles e s x) body"
    by (fastforce simp: timed_def)
  have "run_state body s1 = (r, s')"
    using run by (simp add: run_instruction_def fetch execute_opcode_eq [OF body])
  then have "cycles_of s' = cycles_of s1 + (n - 1 + extra_cycles e s1 x)"
    using takes by (metis takes_def snd_conv)
  moreover have "cycles_of s1 = cycles_of s + 1" using costsD [OF costs_fetch_pc fetch] by simp
  ultimately show ?thesis using n by simp
qed

text \<open>A flat memory that holds the opcode of \<^verbatim>\<open>ORA abs,X\<close> everywhere, as the machine of a concrete run.\<close>

definition flat_ops :: "(u32 \<Rightarrow> u8) machine_ops" where
  "flat_ops = \<lparr>mmu_read = (\<lambda>a m. (m a, m)), mmu_write = (\<lambda>a v m. m(a := v)), mmu_vp_read = (\<lambda>a m. (m a, m)),
     clock_tick = id, irq_line = (\<lambda>_. False), reset_line = (\<lambda>_. False), wdm_handlers = (\<lambda>_. None)\<rparr>"

definition flat_machine :: "(u32 \<Rightarrow> u8) machine" where
  "flat_machine = \<lparr>cpu = (cpu_init 0xFF False)\<lparr>reg_pc := 0x300, reg_x := 0xF0\<rparr>, env = (\<lambda>a. 0x1D), trace = []\<rparr>"

theorem instruction_timing_6502_witness:
  "cycles_of (snd (run_state (run_instruction CPU6502Traits flat_ops) flat_machine)) = 5"
proof -
  have row: "(0x1D, 4, Index_X) \<in> set timing_6502"
    by (simp add: timing_6502_def ora_timing_def)
  obtain s1 where fetch: "run_state (fetch_pc CPU6502Traits flat_ops) flat_machine = (0x1D, s1)"
    and s1: "reg_x (cpu s1) = 0xF0" "env s1 = (\<lambda>_. 0x1D)"
    by (simp add: fetch_pc_def env_read_def flat_ops_def flat_machine_def incr_cycles_def cpu_get_def cpu_upd_def)
  have op: "operand8 flat_ops s = 0x1D \<and> env (snd (run_state (fetch_pc CPU6502Traits flat_ops) s)) = (\<lambda>_. 0x1D)"
    if "env s = (\<lambda>_. 0x1D)" for s
    using that by (simp add: operand8_def fetch_pc_def env_read_def flat_ops_def incr_cycles_def cpu_get_def cpu_upd_def)
  have "extra_cycles flat_ops s1 Index_X = 1"
    using op s1 by (simp add: extra_cycles_def operand16_def crosses_def word_lo_def)
  then show ?thesis
    using instruction_timing_6502 [OF row fetch prod.collapse [symmetric]]
    by (simp add: cycles_of_def flat_machine_def [THEN arg_cong [where f = trace]])
qed

end
