(* ===== verification/Queues.thy ===== *)
theory Queues
  imports Prelude
begin

text \<open>
  The two first-in first-out queues of the program: the fixed-capacity ring buffer
  (\<^verbatim>\<open>src/util/RingBuffer.hpp\<close>) the video generator reads its bit stream from, and the
  queue of events between modules (\<^verbatim>\<open>src/util/EventQueue.cpp\<close>).  The locale \<open>fifo\<close> is the
  contract both provide; a failed assertion is \<open>None\<close>.
\<close>

section \<open>The contract of a queue\<close>

locale fifo =
  fixes push :: "'a \<Rightarrow> 'q \<Rightarrow> 'q option"
    and front :: "'q \<Rightarrow> 'a option"
    and pop :: "'q \<Rightarrow> 'q option"
    and ok :: "'q \<Rightarrow> bool"
    and room :: "'q \<Rightarrow> nat \<Rightarrow> bool"
    and contents :: "'q \<Rightarrow> 'a list"
  assumes push_spec: "ok q \<Longrightarrow> room q (Suc n) \<Longrightarrow>
      \<exists>q'. push v q = Some q' \<and> ok q' \<and> room q' n \<and> contents q' = contents q @ [v]"
    and front_spec: "ok q \<Longrightarrow> contents q = v # vs \<Longrightarrow> front q = Some v"
    and pop_spec: "ok q \<Longrightarrow> contents q = v # vs \<Longrightarrow> \<exists>q'. pop q = Some q' \<and> ok q' \<and> contents q' = vs"
    and empty_spec: "ok q \<Longrightarrow> contents q = [] \<Longrightarrow> front q = None"
begin

primrec push_all :: "'a list \<Rightarrow> 'q \<Rightarrow> 'q option" where
  "push_all [] q = Some q"
| "push_all (v # vs) q = Option.bind (push v q) (push_all vs)"

primrec take_out :: "nat \<Rightarrow> 'q \<Rightarrow> ('a list \<times> 'q) option" where
  "take_out 0 q = Some ([], q)"
| "take_out (Suc n) q = Option.bind (front q) (\<lambda>v. Option.bind (pop q) (\<lambda>q'.
     map_option (apfst ((#) v)) (take_out n q')))"

lemma push_all_spec:
  "ok q \<Longrightarrow> room q (length vs) \<Longrightarrow>
   \<exists>q'. push_all vs q = Some q' \<and> ok q' \<and> contents q' = contents q @ vs"
proof (induction vs arbitrary: q)
  case (Cons v vs)
  then obtain q1 where "push v q = Some q1" "ok q1" "room q1 (length vs)" "contents q1 = contents q @ [v]"
    using push_spec [of q "length vs" v] by auto
  with Cons.IH [of q1] show ?case by auto
qed simp

lemma take_out_spec:
  "ok q \<Longrightarrow> n \<le> length (contents q) \<Longrightarrow>
   \<exists>q'. take_out n q = Some (take n (contents q), q') \<and> ok q' \<and> contents q' = drop n (contents q)"
proof (induction n arbitrary: q)
  case (Suc n)
  then obtain v vs where c: "contents q = v # vs" by (cases "contents q") auto
  with Suc.prems pop_spec [of q v vs] obtain q1 where "pop q = Some q1" "ok q1" "contents q1 = vs" by auto
  with Suc.IH [of q1] Suc.prems c front_spec [of q v vs] show ?case by auto
qed simp

text \<open>What goes in comes out, in order.\<close>

lemma push_take:
  assumes "ok q" and "contents q = []" and "room q (length vs)"
  shows "\<exists>q' q''. push_all vs q = Some q' \<and> take_out (length vs) q' = Some (vs, q'') \<and> contents q'' = []"
  using push_all_spec [OF assms(1,3)] take_out_spec [of _ "length vs"] assms(2) by force

end

section \<open>The ring buffer\<close>

record 'a ring_buffer =
  buf :: "'a list"
  head :: u8
  rb_size :: u8

definition rb_push :: "nat \<Rightarrow> 'a \<Rightarrow> 'a ring_buffer \<Rightarrow> 'a ring_buffer option" where
  "rb_push N v q =
     (if unat (rb_size q) < N
      then Some (q\<lparr>buf := (buf q)[(unat (head q) + unat (rb_size q)) mod N mod 256 := v],
                   rb_size := rb_size q + 1\<rparr>)
      else None)"

definition rb_pop :: "nat \<Rightarrow> 'a ring_buffer \<Rightarrow> 'a ring_buffer option" where
  "rb_pop N q =
     (if 0 < unat (rb_size q)
      then Some (q\<lparr>head := of_nat ((unat (head q) + 1) mod N), rb_size := rb_size q - 1\<rparr>)
      else None)"

definition rb_front :: "'a ring_buffer \<Rightarrow> 'a option" where
  "rb_front q = (if 0 < unat (rb_size q) then Some (buf q ! unat (head q)) else None)"

definition rb_empty :: "'a ring_buffer \<Rightarrow> bool" where
  "rb_empty q \<longleftrightarrow> rb_size q = 0"

definition rb_clear :: "'a ring_buffer \<Rightarrow> 'a ring_buffer" where
  "rb_clear q = q\<lparr>head := 0, rb_size := 0\<rparr>"

definition rb_ok :: "nat \<Rightarrow> 'a ring_buffer \<Rightarrow> bool" where
  "rb_ok N q \<longleftrightarrow> N < 256 \<and> length (buf q) = N \<and> unat (head q) < N \<and> unat (rb_size q) \<le> N"

definition rb_room :: "nat \<Rightarrow> 'a ring_buffer \<Rightarrow> nat \<Rightarrow> bool" where
  "rb_room N q n \<longleftrightarrow> unat (rb_size q) + n \<le> N"

definition rb_contents :: "nat \<Rightarrow> 'a ring_buffer \<Rightarrow> 'a list" where
  "rb_contents N q = map (\<lambda>i. buf q ! ((unat (head q) + i) mod N)) [0 ..< unat (rb_size q)]"

lemma unat_u8_Suc: "unat (w + 1) = Suc (unat w)" if "unat w < 255" for w :: u8
  using that by (simp add: unat_word_ariths)

lemma unat_u8_pred: "unat (w - 1) = unat w - 1" if "0 < unat w" for w :: u8
  using that by (metis unat_minus_one unat_eq_zero less_irrefl)

lemma ring_index_inj:
  fixes h i j N :: nat
  assumes "(h + i) mod N = (h + j) mod N" and "i < N" and "j < N"
  shows "i = j"
proof -
  have "i = j" if "i \<le> j" "j < N" "(h + i) mod N = (h + j) mod N" for i j
  proof -
    have "N dvd (h + j) - (h + i)"
      using that mod_eq_dvd_iff_nat [of "h + i" "h + j" N] by simp
    then show ?thesis using that by (metis add_diff_cancel_left diff_is_0_eq dvd_imp_le le_antisym
        less_imp_diff_less linorder_not_le neq0_conv)
  qed
  from this [of i j] this [of j i] show ?thesis using assms by (metis nat_le_linear)
qed

lemma rb_contents_length [simp]: "length (rb_contents N q) = unat (rb_size q)"
  by (simp add: rb_contents_def)

interpretation ring: fifo "rb_push N" rb_front "rb_pop N" "rb_ok N" "rb_room N" "rb_contents N" for N
proof
  fix q :: "'a ring_buffer" and n v
  assume ok: "rb_ok N q" and room: "rb_room N q (Suc n)"
  let ?k = "unat (rb_size q)" and ?h = "unat (head q)"
  let ?q = "q\<lparr>buf := (buf q)[(?h + ?k) mod N := v], rb_size := rb_size q + 1\<rparr>"
  have k: "?k < N" "N < 256" "length (buf q) = N" "(?h + ?k) mod N < N"
    using ok room by (auto simp: rb_ok_def rb_room_def)
  then have m: "(?h + ?k) mod N mod 256 = (?h + ?k) mod N" by (intro mod_less) linarith
  from k have s: "unat (rb_size q + 1) = Suc ?k" and p: "rb_push N v q = Some ?q"
    by (simp_all add: unat_u8_Suc rb_push_def m)
  have old: "buf ?q ! ((?h + i) mod N) = buf q ! ((?h + i) mod N)" if "i < ?k" for i
    using ring_index_inj [of ?h ?k N i] that k by (auto simp: nth_list_update)
  have "rb_contents N ?q = rb_contents N q @ [v]"
    using k old by (simp add: rb_contents_def s)
  moreover have "rb_ok N ?q" "rb_room N ?q n" using ok room k by (simp_all add: rb_ok_def rb_room_def s)
  ultimately show "\<exists>q'. rb_push N v q = Some q' \<and> rb_ok N q' \<and> rb_room N q' n \<and>
      rb_contents N q' = rb_contents N q @ [v]"
    using p by blast
next
  fix q :: "'a ring_buffer" and v vs
  assume ok: "rb_ok N q" and c: "rb_contents N q = v # vs"
  let ?k = "unat (rb_size q)" and ?h = "unat (head q)"
  have k: "0 < ?k" "?h < N" "N < 256"
    using ok rb_contents_length [of N q] unfolding c by (auto simp: rb_ok_def)
  then have split: "[0 ..< ?k] = 0 # map Suc [0 ..< ?k - 1]" by (simp add: map_Suc_upt upt_conv_Cons)
  have v: "v = buf q ! ?h" and vs: "vs = map (\<lambda>i. buf q ! ((?h + Suc i) mod N)) [0 ..< ?k - 1]"
    using c k by (auto simp: rb_contents_def split)
  show "rb_front q = Some v" using k v by (simp add: rb_front_def)
  let ?q = "q\<lparr>head := of_nat (Suc ?h mod N), rb_size := rb_size q - 1\<rparr>"
  have "Suc ?h mod N < N" using k by (intro mod_less_divisor) simp
  then have "Suc ?h mod N < 2 ^ 8" using k(3) by simp
  then have h: "unat (of_nat (Suc ?h mod N) :: u8) = Suc ?h mod N"
    by (simp only: unsigned_of_nat len_bit0 len_num1) (simp add: take_bit_nat_eq_self)
  have "rb_contents N ?q = vs"
    using k by (simp add: rb_contents_def vs unat_u8_pred h mod_add_left_eq del: of_nat_mod)
  moreover have "rb_ok N ?q" using ok k h by (auto simp: rb_ok_def unat_u8_pred simp del: of_nat_mod)
  moreover have "rb_pop N q = Some ?q" using k by (simp add: rb_pop_def)
  ultimately show "\<exists>q'. rb_pop N q = Some q' \<and> rb_ok N q' \<and> rb_contents N q' = vs" by blast
next
  fix q :: "'a ring_buffer"
  assume "rb_contents N q = []"
  then show "rb_front q = None" by (simp add: rb_contents_def rb_front_def)
qed

section \<open>The queue of events\<close>

definition addEvent :: "'e \<Rightarrow> 'e list \<Rightarrow> 'e list" where
  "addEvent e q = q @ [e]"

definition getNextEvent :: "'e list \<Rightarrow> 'e option \<times> 'e list" where
  "getNextEvent q = (case q of [] \<Rightarrow> (None, []) | e # es \<Rightarrow> (Some e, es))"

interpretation event_queue: fifo "\<lambda>e q. Some (addEvent e q)" "\<lambda>q. fst (getNextEvent q)"
    "\<lambda>q. Some (snd (getNextEvent q))" "\<lambda>q. True" "\<lambda>q n. True" "\<lambda>q. q"
  by unfold_locales (simp_all add: addEvent_def getNextEvent_def)

section \<open>What the queues promise\<close>

text \<open>
  C39.  The ring buffer refines a list of bounded length.  For every capacity up to 255, a push
  appends to the abstract list and fails its assertion exactly when the buffer is full; front and
  pop are the head and the tail and fail their assertions exactly on an empty buffer; clear empties
  it.  The invariant survives all of them.
\<close>

theorem ring_buffer_refines_list:
  assumes "rb_ok N q"
  shows "(case rb_push N v q of
       None \<Rightarrow> length (rb_contents N q) = N
     | Some q' \<Rightarrow> length (rb_contents N q) < N \<and> rb_ok N q' \<and> rb_contents N q' = rb_contents N q @ [v]) \<and>
   (case rb_contents N q of
       [] \<Rightarrow> rb_empty q \<and> rb_front q = None \<and> rb_pop N q = None
     | x # xs \<Rightarrow> \<not> rb_empty q \<and> rb_front q = Some x \<and>
         (\<exists>q'. rb_pop N q = Some q' \<and> rb_ok N q' \<and> rb_contents N q' = xs)) \<and>
   rb_ok N (rb_clear q) \<and> rb_contents N (rb_clear q) = []"
proof (intro conjI)
  show "case rb_push N v q of None \<Rightarrow> length (rb_contents N q) = N
     | Some q' \<Rightarrow> length (rb_contents N q) < N \<and> rb_ok N q' \<and> rb_contents N q' = rb_contents N q @ [v]"
  proof (cases "unat (rb_size q) < N")
    case True
    then show ?thesis using ring.push_spec [OF assms, of 0 v] by (auto simp: rb_room_def)
  next
    case False
    with assms show ?thesis by (simp add: rb_push_def rb_ok_def)
  qed
  show "case rb_contents N q of [] \<Rightarrow> rb_empty q \<and> rb_front q = None \<and> rb_pop N q = None
     | x # xs \<Rightarrow> \<not> rb_empty q \<and> rb_front q = Some x \<and>
         (\<exists>q'. rb_pop N q = Some q' \<and> rb_ok N q' \<and> rb_contents N q' = xs)"
  proof (cases "rb_contents N q")
    case Nil
    then have "unat (rb_size q) = 0" using rb_contents_length [of N q] by simp
    with Nil show ?thesis by (simp add: rb_empty_def rb_front_def rb_pop_def unat_eq_0)
  next
    case (Cons x xs)
    then have "rb_size q \<noteq> 0" using rb_contents_length [of N q] by auto
    with Cons ring.front_spec [OF assms Cons] ring.pop_spec [OF assms Cons] show ?thesis
      by (simp add: rb_empty_def)
  qed
qed (use assms in \<open>auto simp: rb_ok_def rb_clear_def rb_contents_def\<close>)

text \<open>
  A queue gives back what was put in, in order, for the ring buffer within its capacity and
  for the event queue without bound.
\<close>

lemma queues_fifo:
  assumes "rb_ok N q" and "rb_contents N q = []" and "length vs \<le> N"
  shows "(\<exists>q' q''. ring.push_all N vs q = Some q' \<and> ring.take_out N (length vs) q' = Some (vs, q'') \<and>
      rb_contents N q'' = []) \<and>
    (\<exists>es. event_queue.push_all evs [] = Some es \<and> event_queue.take_out (length evs) es = Some (evs, []))"
proof
  have "rb_room N q (length vs)"
    using assms rb_contents_length [of N q] by (simp add: rb_room_def)
  then show "\<exists>q' q''. ring.push_all N vs q = Some q' \<and>
      ring.take_out N (length vs) q' = Some (vs, q'') \<and> rb_contents N q'' = []"
    by (rule ring.push_take [OF assms(1,2)])
  show "\<exists>es. event_queue.push_all evs [] = Some es \<and>
      event_queue.take_out (length evs) es = Some (evs, [])"
    using event_queue.push_take [of "[]" evs] by auto
qed

text \<open>
  The class admits a capacity of 256, for which the 8-bit element count wraps: the push that
  fills the buffer makes it empty, without an assertion failing.
\<close>

lemma ring_buffer_256_loses_all:
  assumes "length (buf q) = 256" and "unat (rb_size q) = 255"
  shows "\<exists>q'. rb_push 256 v q = Some q' \<and> rb_empty q' \<and> rb_contents 256 q' = []"
proof -
  have "rb_size q = of_nat 255" using assms(2) by (metis of_nat_unat ucast_id)
  then have "rb_size q + 1 = 0" by simp
  then show ?thesis using assms(2) by (simp add: rb_push_def rb_empty_def rb_contents_def)
qed

definition demo_ring :: "nat \<Rightarrow> u8 \<Rightarrow> nat ring_buffer" where
  "demo_ring N h = \<lparr>buf = replicate N 0, head = h, rb_size = 0\<rparr>"

lemma demo_ring_ok: "rb_ok 32 (demo_ring 32 30)" "rb_contents 32 (demo_ring 32 30) = []"
  by (simp_all add: demo_ring_def rb_ok_def rb_contents_def)

theorem ring_buffer_refines_list_witness:
  "rb_ok 32 (demo_ring 32 30) \<and> rb_contents 32 (demo_ring 32 30) = [] \<and>
   (case rb_push 32 7 (demo_ring 32 30) of None \<Rightarrow> False | Some q \<Rightarrow> rb_contents 32 q = [7])"
  using ring_buffer_refines_list [OF demo_ring_ok(1), of 7] demo_ring_ok by (auto split: option.splits)

end
