(* ===== verification/Page_Maps.thy ===== *)
theory Page_Maps
  imports Mmu
begin

text \<open>
  Loops over the page table.  Devices remap memory by loops of mapping calls, each of which may
  fail; on a table that is large enough the whole loop is one pure function of page number and
  entry, a \<open>remap\<close>, and remaps compose.  The lemmas here let the devices' proofs compute that
  function and forget the loops.
\<close>

section \<open>Sequences of mapping calls\<close>

type_synonym 'd mmu_op = "'d mmu \<Rightarrow> mmu_error + 'd mmu"

definition op_then :: "'d mmu_op \<Rightarrow> 'd mmu_op \<Rightarrow> 'd mmu_op" where
  "op_then f g m = (case f m of Inl err \<Rightarrow> Inl err | Inr m' \<Rightarrow> g m')"

definition op_skip :: "'d mmu_op" where
  "op_skip m = Inr m"

primrec for_each :: "nat list \<Rightarrow> (nat \<Rightarrow> 'd mmu_op) \<Rightarrow> 'd mmu_op" where
  "for_each [] f = op_skip"
| "for_each (i # is) f = op_then (f i) (for_each is f)"

section \<open>Remaps\<close>

definition remap :: "(nat \<Rightarrow> page_table_entry \<Rightarrow> page_table_entry) \<Rightarrow> 'd mmu \<Rightarrow> 'd mmu" where
  "remap F m = m\<lparr>page_table := map (\<lambda>p. F p (pte m p)) [0 ..< num_pages m]\<rparr>"

lemma remap_fields [simp]:
  "num_pages (remap F m) = num_pages m" "host (remap F m) = host m" "devices (remap F m) = devices m"
  "page_size_bits (remap F m) = page_size_bits m" "floating_bus_val (remap F m) = floating_bus_val m"
  "page_of (remap F m) a = page_of m a" "offset_of (remap F m) a = offset_of m a"
  by (simp_all add: remap_def num_pages_def page_of_def offset_of_def)

lemma pte_remap [simp]: "p < num_pages m \<Longrightarrow> pte (remap F m) p = F p (pte m p)"
  by (simp add: remap_def pte_def)

lemma remap_remap [simp]: "remap G (remap F m) = remap (\<lambda>p e. G p (F p e)) m"
  by (simp add: remap_def pte_def num_pages_def)

lemma remap_id [simp]: "remap (\<lambda>p e. e) m = m"
  by (simp add: remap_def pte_def num_pages_def map_nth)

lemma remap_cong: "(\<And>p e. p < num_pages m \<Longrightarrow> F p e = G p e) \<Longrightarrow> remap F m = remap G m"
  by (simp add: remap_def)

lemma upd_page_remap:
  "page < num_pages m \<Longrightarrow> upd_page page f m = Inr (remap (\<lambda>p e. if p = page then f e else e) m)"
  by (auto simp: upd_page_def remap_def pte_def num_pages_def nth_list_update
      intro!: mmu.equality nth_equalityI)

text \<open>An operation that never fails on a table of \<open>N\<close> pages and acts on the table alone.\<close>

definition does_remap :: "nat \<Rightarrow> 'd mmu_op \<Rightarrow> (nat \<Rightarrow> page_table_entry \<Rightarrow> page_table_entry) \<Rightarrow> bool" where
  "does_remap N f F \<longleftrightarrow> (\<forall>m. num_pages m = N \<longrightarrow> f m = Inr (remap F m))"

lemma does_remapD: "does_remap N f F \<Longrightarrow> num_pages m = N \<Longrightarrow> f m = Inr (remap F m)"
  by (simp add: does_remap_def)

text \<open>The same for an operation on a single page.\<close>

definition does_page :: "nat \<Rightarrow> 'd mmu_op \<Rightarrow> nat \<Rightarrow> (page_table_entry \<Rightarrow> page_table_entry) \<Rightarrow> bool" where
  "does_page N f page g \<longleftrightarrow> does_remap N f (\<lambda>p e. if p = page then g e else e)"

lemma page_map:
  "page < N \<Longrightarrow> does_page N (map_page_read page x d) page (\<lambda>e. e\<lparr>read_p := x, read_d := d\<rparr>)"
  "page < N \<Longrightarrow> does_page N (map_page_write page x d) page (\<lambda>e. e\<lparr>write_p := x, write_d := d\<rparr>)"
  "page < N \<Longrightarrow> does_page N (map_page_both page x d) page
     (\<lambda>e. e\<lparr>read_p := x, write_p := x, read_h := None, write_h := None, read_d := d, write_d := d\<rparr>)"
  "page < N \<Longrightarrow> does_page N (map_page_read_only page x d) page
     (\<lambda>e. e\<lparr>read_p := x, write_p := None, read_d := d, write_d := None\<rparr>)"
  by (simp_all add: does_page_def does_remap_def map_page_read_def map_page_write_def map_page_both_def
      map_page_read_only_def map_guarded_in upd_page_remap)

lemma does_skip: "does_remap N op_skip (\<lambda>p e. e)"
  by (simp add: does_remap_def op_skip_def)

lemma does_then:
  "does_remap N f F \<Longrightarrow> does_remap N g G \<Longrightarrow> does_remap N (op_then f g) (\<lambda>p e. G p (F p e))"
  by (simp add: does_remap_def op_then_def)

lemma remap_if:
  "does_remap N f F \<Longrightarrow> does_remap N g G \<Longrightarrow>
   does_remap N (if b then f else g) (\<lambda>p e. if b then F p e else G p e)"
  by (cases b) simp_all

lemma page_then:
  assumes "does_page N f page F" and "does_page N g page G"
  shows "does_page N (op_then f g) page (\<lambda>e. G (F e))"
proof -
  have "(\<lambda>p e. if p = page then G (if p = page then F e else e) else (if p = page then F e else e)) =
      (\<lambda>p e. if p = page then G (F e) else e)"
    by (auto simp: fun_eq_iff)
  with does_then [OF assms [unfolded does_page_def]] show ?thesis by (simp add: does_page_def)
qed

lemma page_if:
  "does_page N f page F \<Longrightarrow> does_page N g page G \<Longrightarrow>
   does_page N (if b then f else g) page (\<lambda>e. if b then F e else G e)"
  by (cases b) simp_all

lemma does_page_remap: "does_page N f page g \<Longrightarrow> does_remap N f (\<lambda>p e. if p = page then g e else e)"
  by (simp add: does_page_def)

lemma does_for_each:
  assumes "distinct is" and "\<And>i. i \<in> set is \<Longrightarrow> does_page N (f i) i (g i)"
  shows "does_remap N (for_each is f) (\<lambda>p e. if p \<in> set is then g p e else e)"
  using assms
proof (induction "is")
  case Nil
  then show ?case by (simp add: does_skip)
next
  case (Cons i "is")
  have "does_remap N (for_each (i # is) f)
      (\<lambda>p e. if p \<in> set is then g p (if p = i then g i e else e) else (if p = i then g i e else e))"
    unfolding for_each.simps
    by (rule does_then [OF does_page_remap [OF Cons.prems(2)] Cons.IH]) (use Cons.prems in auto)
  moreover have "(\<lambda>p e. if p \<in> set is then g p (if p = i then g i e else e) else (if p = i then g i e else e)) =
      (\<lambda>p e. if p \<in> set (i # is) then g p e else e)"
    using Cons.prems(1) by (auto simp: fun_eq_iff)
  ultimately show ?case by simp
qed

text \<open>The loops of the sources run over an interval of pages, or count from 0 and add a base.\<close>

lemma does_for_range:
  assumes "\<And>i. a \<le> i \<Longrightarrow> i < b \<Longrightarrow> does_page N (f i) i (g i)"
  shows "does_remap N (for_each [a ..< b] f) (\<lambda>p e. if a \<le> p \<and> p < b then g p e else e)"
  using does_for_each [of "[a ..< b]" N f g] assms by simp

lemma for_each_map: "for_each (map h is) f = for_each is (\<lambda>i. f (h i))"
  by (induction "is") simp_all

lemma does_for_offset:
  assumes "\<And>i. i < n \<Longrightarrow> does_page N (f i) (i + k) (g i)"
  shows "does_remap N (for_each [0 ..< n] f) (\<lambda>p e. if k \<le> p \<and> p < k + n then g (p - k) e else e)"
proof -
  have "[k ..< k + n] = map (\<lambda>i. i + k) [0 ..< n]" by (simp add: map_add_upt add.commute)
  then have eq: "for_each [0 ..< n] f = for_each [k ..< k + n] (\<lambda>p. f (p - k))"
    by (simp only: for_each_map) simp
  have "does_page N (f (p - k)) p (g (p - k))" if "k \<le> p" "p < k + n" for p
    using assms [of "p - k"] that by simp
  then show ?thesis unfolding eq by (rule does_for_range)
qed

lemma does_remap_cong:
  assumes "does_remap N f F" and "\<And>p e. p < N \<Longrightarrow> F p e = G p e"
  shows "does_remap N f G"
  using assms remap_cong [of _ F G] by (auto simp: does_remap_def)

lemmas map_loops = does_then remap_if does_for_offset does_for_range page_then page_if page_map does_skip

end
