(* ===== verification/Language_Card.thy ===== *)
theory Language_Card
  imports Page_Maps
begin

text \<open>
  The language card: the flip-flops every machine shares
  (\<^verbatim>\<open>src/devices/languagecard/LanguageCardLogic.hpp\<close>) and the card of the II Plus
  (\<^verbatim>\<open>languagecard.cpp\<close>), which maps its 16K over the ROM.  The flip-flops are 16-bit integers
  that only ever hold 0 and 1, here \<^typ>\<open>bool\<close>; the one for the write enable is inverted, as in
  the code.
\<close>

section \<open>The flip-flops\<close>

record lc_logic =
  FF_BANK_1 :: bool
  FF_READ_ENABLE :: bool
  FF_PRE_WRITE :: bool
  FF_WRITE_ENABLE' :: bool

definition LANG_A3 :: u32 where "LANG_A3 = 8"

definition LANG_A0A1 :: u32 where "LANG_A0A1 = 3"

definition lc_read :: "u32 \<Rightarrow> lc_logic \<Rightarrow> lc_logic" where
  "lc_read address ll =
     (let ll1 = ll\<lparr>FF_BANK_1 := (address AND LANG_A3 \<noteq> 0)\<rparr>;
          ll2 = ll1\<lparr>FF_READ_ENABLE := (address AND LANG_A0A1 = 0 \<or> address AND LANG_A0A1 = 3)\<rparr>;
          old_pre_write = FF_PRE_WRITE ll2;
          ll3 = ll2\<lparr>FF_PRE_WRITE := (address AND 1 = 1)\<rparr>;
          ll4 = (if old_pre_write \<and> address AND 1 = 1 then ll3\<lparr>FF_WRITE_ENABLE' := False\<rparr> else ll3)
      in if address AND 1 = 0 then ll4\<lparr>FF_WRITE_ENABLE' := True\<rparr> else ll4)"

definition lc_write :: "u32 \<Rightarrow> lc_logic \<Rightarrow> lc_logic" where
  "lc_write address ll =
     (let ll1 = ll\<lparr>FF_BANK_1 := (address AND LANG_A3 \<noteq> 0)\<rparr>;
          ll2 = ll1\<lparr>FF_READ_ENABLE := (address AND LANG_A0A1 = 0 \<or> address AND LANG_A0A1 = 3)\<rparr>;
          ll3 = ll2\<lparr>FF_PRE_WRITE := False\<rparr>
      in if address AND 1 = 0 then ll3\<lparr>FF_WRITE_ENABLE' := True\<rparr> else ll3)"

definition lc_reset :: lc_logic where
  "lc_reset = \<lparr>FF_BANK_1 = False, FF_READ_ENABLE = False, FF_PRE_WRITE = False, FF_WRITE_ENABLE' = False\<rparr>"

section \<open>What a sequence of accesses selects\<close>

datatype lc_access = Rd u32 | Wr u32

fun lc_step :: "lc_access \<Rightarrow> lc_logic \<Rightarrow> lc_logic" where
  "lc_step (Rd a) ll = lc_read a ll"
| "lc_step (Wr a) ll = lc_write a ll"

fun lc_addr :: "lc_access \<Rightarrow> u32" where
  "lc_addr (Rd a) = a"
| "lc_addr (Wr a) = a"

definition lc_odd :: "lc_access \<Rightarrow> bool" where
  "lc_odd x \<longleftrightarrow> lc_addr x AND 1 = 1"

definition odd_read :: "lc_access \<Rightarrow> bool" where
  "odd_read x \<longleftrightarrow> (\<exists>a. x = Rd a) \<and> lc_odd x"

text \<open>The rule of the hardware: the card is write protected when an even access was made and no two
  successive accesses since then were both reads of odd addresses.\<close>

fun two_odd_reads :: "lc_access list \<Rightarrow> bool" where
  "two_odd_reads (x # y # xs) \<longleftrightarrow> odd_read x \<and> odd_read y \<or> two_odd_reads (y # xs)"
| "two_odd_reads _ \<longleftrightarrow> False"

definition write_protected :: "lc_access list \<Rightarrow> bool" where
  "write_protected xs \<longleftrightarrow> (\<exists>ys x zs. xs = ys @ x # zs \<and> \<not> lc_odd x \<and> (\<forall>z \<in> set zs. lc_odd z) \<and>
     \<not> two_odd_reads zs)"

lemma even_iff: "a AND 1 = 0 \<longleftrightarrow> a AND 1 \<noteq> 1" for a :: u32
  by (metis and_one_eq one_neq_zero not_mod_2_eq_1_eq_0 parity_cases)

lemma two_odd_reads_snoc:
  "two_odd_reads (xs @ [y]) \<longleftrightarrow> two_odd_reads xs \<or> xs \<noteq> [] \<and> odd_read (last xs) \<and> odd_read y"
  by (induction xs rule: two_odd_reads.induct) auto

lemma write_protected_snoc:
  "write_protected (xs @ [y]) \<longleftrightarrow>
     \<not> lc_odd y \<or> write_protected xs \<and> \<not> (odd_read (last xs) \<and> odd_read y)"
proof (cases "lc_odd y")
  case False
  then have "xs @ [y] = xs @ y # [] \<and> \<not> lc_odd y \<and> (\<forall>z \<in> set []. lc_odd z) \<and> \<not> two_odd_reads []" by simp
  with False show ?thesis unfolding write_protected_def by blast
next
  case odd: True
  have "write_protected (xs @ [y]) \<longleftrightarrow> write_protected xs \<and> \<not> (odd_read (last xs) \<and> odd_read y)"
  proof
    assume "write_protected (xs @ [y])"
    then obtain ys x zs where e: "xs @ [y] = ys @ x # zs" and x: "\<not> lc_odd x"
        "\<forall>z \<in> set zs. lc_odd z" "\<not> two_odd_reads zs"
      by (auto simp: write_protected_def)
    then obtain zs' where zs: "zs = zs' @ [y]"
      using odd by (cases zs rule: rev_cases) auto
    with e have xs: "xs = ys @ x # zs'" by simp
    have "\<not> two_odd_reads zs'" and l: "\<not> (zs' \<noteq> [] \<and> odd_read (last zs') \<and> odd_read y)"
      using x(3) by (auto simp: zs two_odd_reads_snoc)
    then have "write_protected xs" using x xs zs by (auto simp: write_protected_def)
    moreover have "\<not> (odd_read (last xs) \<and> odd_read y)"
      using l x(1) by (auto simp: xs odd_read_def)
    ultimately show "write_protected xs \<and> \<not> (odd_read (last xs) \<and> odd_read y)" by simp
  next
    assume a: "write_protected xs \<and> \<not> (odd_read (last xs) \<and> odd_read y)"
    then obtain ys x zs where xs: "xs = ys @ x # zs" and x: "\<not> lc_odd x" "\<forall>z \<in> set zs. lc_odd z"
        "\<not> two_odd_reads zs"
      by (auto simp: write_protected_def)
    have "xs @ [y] = ys @ x # (zs @ [y])" by (simp add: xs)
    moreover have "\<not> two_odd_reads (zs @ [y])"
      using a x(3) by (auto simp: two_odd_reads_snoc xs)
    moreover have "\<forall>z \<in> set (zs @ [y]). lc_odd z" using x(2) odd by simp
    ultimately show "write_protected (xs @ [y])"
      using x(1) unfolding write_protected_def by blast
  qed
  with odd show ?thesis by simp
qed

lemma write_protected_init: "\<not> write_protected []" "write_protected [x] \<longleftrightarrow> \<not> lc_odd x"
proof -
  show n: "\<not> write_protected []" by (simp add: write_protected_def)
  show "write_protected [x] \<longleftrightarrow> \<not> lc_odd x" using write_protected_snoc [of "[]" x] n by simp
qed

lemma lc_run_flags:
  assumes "ll = fold lc_step xs lc_reset"
  shows "FF_PRE_WRITE ll \<longleftrightarrow> xs \<noteq> [] \<and> odd_read (last xs)" (is ?pre)
    and "FF_WRITE_ENABLE' ll \<longleftrightarrow> write_protected xs" (is ?we)
proof -
  have "?pre \<and> ?we"
    using assms
  proof (induction xs arbitrary: ll rule: rev_induct)
    case Nil
    then show ?case by (simp add: lc_reset_def write_protected_def)
  next
    case (snoc x xs)
    show ?case
      using snoc.IH [OF refl] snoc.prems
      by (cases x; cases "xs = []")
         (auto simp: lc_read_def lc_write_def Let_def write_protected_snoc write_protected_init
           odd_read_def lc_odd_def even_iff)
  qed
  then show ?pre ?we by auto
qed

lemma lc_run_select:
  assumes "xs \<noteq> []"
  defines "ll \<equiv> fold lc_step xs lc_reset"
  shows "FF_BANK_1 ll \<longleftrightarrow> lc_addr (last xs) AND LANG_A3 \<noteq> 0"
    and "FF_READ_ENABLE ll \<longleftrightarrow> lc_addr (last xs) AND LANG_A0A1 \<in> {0, 3}"
proof -
  obtain ys x where xs: "xs = ys @ [x]" using assms(1) by (cases xs rule: rev_cases) auto
  show "FF_BANK_1 ll \<longleftrightarrow> lc_addr (last xs) AND LANG_A3 \<noteq> 0"
    "FF_READ_ENABLE ll \<longleftrightarrow> lc_addr (last xs) AND LANG_A0A1 \<in> {0, 3}"
    by (cases x; simp add: ll_def xs lc_read_def lc_write_def Let_def)+
qed

text \<open>
  C38.  The card is write enabled at power up, and after any sequence of reads and writes of its
  registers it is write protected exactly when an even register was accessed and since then no two
  successive accesses were both reads of odd registers; which bank is selected and whether RAM is
  read follow from the last access alone, as the comment in \<^verbatim>\<open>languagecard.hpp\<close> tabulates.
\<close>

theorem language_card_switches:
  "FF_WRITE_ENABLE' (fold lc_step xs lc_reset) = write_protected xs \<and>
   (case rev xs of [] \<Rightarrow> fold lc_step xs lc_reset = lc_reset
     | x # _ \<Rightarrow> FF_BANK_1 (fold lc_step xs lc_reset) = (lc_addr x AND LANG_A3 \<noteq> 0) \<and>
         FF_READ_ENABLE (fold lc_step xs lc_reset) = (lc_addr x AND LANG_A0A1 \<in> {0, 3}))"
proof (cases xs rule: rev_cases)
  case Nil
  then show ?thesis using lc_run_flags(2) [of _ "[]"] by simp
next
  case (snoc ys x)
  then show ?thesis using lc_run_flags(2) [OF refl, of xs] lc_run_select [of xs] by simp
qed

section \<open>The card of the II Plus\<close>

text \<open>\<open>ram_bank\<close> and \<open>rom\<close> are the host addresses of the card's 16K and of the 12K ROM.\<close>

definition set_memory_pages_based_on_flags :: "nat \<Rightarrow> nat \<Rightarrow> lc_logic \<Rightarrow> 'd mmu_op" where
  "set_memory_pages_based_on_flags ram_bank rom ll =
     (let bank = (if FF_BANK_1 ll then ram_bank else ram_bank + 0x1000);
          bank_d = (if FF_BANK_1 ll then ''LC_BANK1'' else ''LC_BANK2'')
      in op_then
        (for_each [0 ..< 16] (\<lambda>i. op_then
           (if FF_READ_ENABLE ll then map_page_read (i + 0xD0) (Some (bank + i * 256)) (Some bank_d)
            else map_page_read (i + 0xD0) (Some (rom + i * 256)) (Some ''SYS_ROM''))
           (if \<not> FF_WRITE_ENABLE' ll then map_page_write (i + 0xD0) (Some (bank + i * 256)) (Some bank_d)
            else map_page_write (i + 0xD0) None (Some ''NONE''))))
        (for_each [0 ..< 32] (\<lambda>i. op_then
           (if FF_READ_ENABLE ll then map_page_read (i + 0xE0) (Some (ram_bank + 0x2000 + i * 256)) (Some ''LC RAM'')
            else map_page_read (i + 0xE0) (Some (rom + 0x1000 + i * 256)) (Some ''LC RAM''))
           (if \<not> FF_WRITE_ENABLE' ll then map_page_write (i + 0xE0) (Some (ram_bank + 0x2000 + i * 256)) (Some ''LC RAM'')
            else map_page_write (i + 0xE0) None (Some ''NONE'')))))"

definition languagecard_read_C0xx ::
    "nat \<Rightarrow> nat \<Rightarrow> u32 \<Rightarrow> lc_logic \<times> 'd mmu \<Rightarrow> mmu_error + (u8 \<times> lc_logic \<times> 'd mmu)" where
  "languagecard_read_C0xx ram_bank rom address = (\<lambda>(ll, m).
     let ll' = lc_read address ll
     in map_sum id (\<lambda>m'. (floating_bus_val m', ll', m')) (set_memory_pages_based_on_flags ram_bank rom ll' m))"

definition languagecard_write_C0xx ::
    "nat \<Rightarrow> nat \<Rightarrow> u32 \<Rightarrow> u8 \<Rightarrow> lc_logic \<times> 'd mmu \<Rightarrow> mmu_error + (lc_logic \<times> 'd mmu)" where
  "languagecard_write_C0xx ram_bank rom address v = (\<lambda>(ll, m).
     let ll' = lc_write address ll
     in map_sum id (\<lambda>m'. (ll', m')) (set_memory_pages_based_on_flags ram_bank rom ll' m))"

text \<open>Where a page of the upper 12K is found: the card's RAM and the ROM.\<close>

definition lc_ram_page :: "nat \<Rightarrow> bool \<Rightarrow> nat \<Rightarrow> nat" where
  "lc_ram_page ram_bank bank1 p =
     ram_bank + (if p < 0xE0 then (if bank1 then 0 else 0x1000) + (p - 0xD0) * 256
                 else 0x2000 + (p - 0xE0) * 256)"

text \<open>The entry the two loops leave for a page, as one function of the page number.\<close>

definition lc_entry :: "nat \<Rightarrow> nat \<Rightarrow> lc_logic \<Rightarrow> nat \<Rightarrow> page_table_entry \<Rightarrow> page_table_entry" where
  "lc_entry ram_bank rom ll p e =
     (if p < 0xD0 then e else
      let ram = lc_ram_page ram_bank (FF_BANK_1 ll) p;
          bank_d = (if 0xE0 \<le> p then ''LC RAM'' else if FF_BANK_1 ll then ''LC_BANK1'' else ''LC_BANK2'')
      in e\<lparr>read_p := Some (if FF_READ_ENABLE ll then ram else rom + (p - 0xD0) * 256),
           read_d := Some (if FF_READ_ENABLE ll \<or> 0xE0 \<le> p then bank_d else ''SYS_ROM''),
           write_p := (if FF_WRITE_ENABLE' ll then None else Some ram),
           write_d := Some (if FF_WRITE_ENABLE' ll then ''NONE'' else bank_d)\<rparr>)"

lemma set_memory_pages_remap:
  "does_remap 256 (set_memory_pages_based_on_flags ram_bank rom ll) (lc_entry ram_bank rom ll)"
  unfolding set_memory_pages_based_on_flags_def Let_def
  by (rule does_remap_cong, (rule map_loops | linarith)+) (auto simp: lc_entry_def lc_ram_page_def Let_def)

text \<open>
  An access to a register of the II Plus card remaps the upper 12K as its flip-flops say, and
  nothing else: reads of \<open>$D000\<close> to \<open>$FFFF\<close> come from the selected RAM bank or from the ROM, writes
  go to the RAM bank or nowhere, and the pages below are as they were.
\<close>

lemma language_card_maps_memory:
  assumes "num_pages m = 256" and "page_of m a = p" and "0xD0 \<le> p" and "p < 256"
    and "write_h (pte m p) = None" and "shadow_h (pte m p) = None"
  shows "\<exists>m'. languagecard_read_C0xx ram rom r (ll, m) = Inr (floating_bus_val m, lc_read r ll, m') \<and>
     (\<forall>q < 0xD0. pte m' q = pte m q) \<and> host m' = host m \<and>
     MMU_read H a m' = Inr (host m ((if FF_READ_ENABLE (lc_read r ll)
         then lc_ram_page ram (FF_BANK_1 (lc_read r ll)) p else rom + (p - 0xD0) * 256) + offset_of m a), m') \<and>
     MMU_write H a v m' = Inr (if FF_WRITE_ENABLE' (lc_read r ll) then m'
       else store_host (lc_ram_page ram (FF_BANK_1 (lc_read r ll)) p + offset_of m a) v m')"
proof -
  let ?ll = "lc_read r ll"
  define m' where "m' = remap (lc_entry ram rom ?ll) m"
  have "set_memory_pages_based_on_flags ram rom ?ll m = Inr m'"
    unfolding m'_def using assms(1) by (rule does_remapD [OF set_memory_pages_remap])
  then have "languagecard_read_C0xx ram rom r (ll, m) = Inr (floating_bus_val m, ?ll, m')"
    by (simp add: languagecard_read_C0xx_def Let_def m'_def)
  moreover have "\<forall>q < 0xD0. pte m' q = pte m q"
    using assms(1) by (simp add: m'_def lc_entry_def)
  moreover have page: "pte m' p = lc_entry ram rom ?ll p (pte m p)" "p < num_pages m'" "page_of m' a = p"
      "offset_of m' a = offset_of m a" "host m' = host m"
    using assms(1,2,4) by (simp_all add: m'_def)
  then have "MMU_read H a m' = Inr (host m ((if FF_READ_ENABLE ?ll
         then lc_ram_page ram (FF_BANK_1 ?ll) p else rom + (p - 0xD0) * 256) + offset_of m a), m')"
    using assms(3) by (simp add: MMU_read_def Let_def lc_entry_def)
  moreover have "MMU_write H a v m' = Inr (if FF_WRITE_ENABLE' ?ll then m'
       else store_host (lc_ram_page ram (FF_BANK_1 ?ll) p + offset_of m a) v m')"
    using page assms(3,5,6) by (simp add: MMU_write_def Let_def lc_entry_def)
  ultimately show ?thesis using page(5) by blast
qed

text \<open>\<^verbatim>\<open>MMU_II::init_map\<close>, which a reset of the II Plus runs; the card's own reset handler does
  nothing.\<close>

definition init_map_II :: "nat \<Rightarrow> nat \<Rightarrow> 'd mmu_op" where
  "init_map_II ram rom =
     op_then (for_each [0 ..< 192] (\<lambda>i. map_page_both i (Some (ram + i * 256)) (Some ''MAIN_RAM'')))
       (for_each [0 ..< 48] (\<lambda>i. map_page_read_only (i + 0xD0) (Some (rom + i * 256)) (Some ''SYS_ROM'')))"

definition reset_languagecard :: "lc_logic \<Rightarrow> lc_logic" where
  "reset_languagecard ll = ll"

text \<open>
  A reset of the II Plus disconnects the language card: the flip-flops keep their state, as the
  hardware does, but the MMU maps ROM, read-only, over the whole card, so a card that is enabled
  for writing or reading no longer is, until one of its registers is accessed again.
\<close>

lemma reset_disconnects_language_card:
  assumes "num_pages m = 256" and "0xD0 \<le> p" and "p < 256"
  shows "\<exists>m'. init_map_II ram rom m = Inr m' \<and>
     read_p (pte m' p) = Some (rom + (p - 0xD0) * 256) \<and> write_p (pte m' p) = None \<and>
     (\<not> FF_WRITE_ENABLE' (reset_languagecard ll) \<longrightarrow>
        write_p (lc_entry ram_bank rom (reset_languagecard ll) p (pte m' p)) \<noteq> write_p (pte m' p))"
proof -
  have "does_remap 256 (init_map_II ram rom)
     (\<lambda>p e. if p < 192 then e\<lparr>read_p := Some (ram + p * 256), write_p := Some (ram + p * 256),
          read_h := None, write_h := None, read_d := Some ''MAIN_RAM'', write_d := Some ''MAIN_RAM''\<rparr>
        else if 0xD0 \<le> p then e\<lparr>read_p := Some (rom + (p - 0xD0) * 256), write_p := None,
          read_d := Some ''SYS_ROM'', write_d := None\<rparr> else e)"
    unfolding init_map_II_def
    by (rule does_remap_cong, rule does_then, rule does_for_range, rule page_map, linarith,
        rule does_for_offset, rule page_map, linarith) auto
  from does_remapD [OF this assms(1)] show ?thesis
    using assms by (auto simp: lc_entry_def Let_def)
qed

end
