(* ===== verification/Mmu_II.thy ===== *)
theory Mmu_II
  imports Language_Card
begin

text \<open>
  The MMU of the II, II Plus and IIe (\<^verbatim>\<open>src/mmus/mmu_ii.cpp\<close>, \<^verbatim>\<open>mmu_iie.cpp\<close>), also the
  Mega II of the IIgs: the I/O page \<open>$C0xx\<close> with two handlers per address, the slot ROM pages
  \<open>$C1\<close> to \<open>$CF\<close> composed from the slots' and the internal ROM tables, and the flip-flops that give
  \<open>$C800\<close> to \<open>$CFFF\<close> to a card.  Virtual functions dispatch on the dynamic class; handlers are
  numbers looked up in a table of functions on the whole MMU.
\<close>

section \<open>State\<close>

datatype mmu_class = Class_II | Class_IIe

record 'd mmu_ii =
  base :: "'d mmu"
  dyn_class :: mmu_class
  main_ram :: nat
  main_rom_D0 :: "nat option"
  C0xx_read_handlers :: "nat \<Rightarrow> nat option \<times> nat option"
  C0xx_write_handlers :: "nat \<Rightarrow> nat option \<times> nat option"
  C0xx_read_internal :: "nat \<Rightarrow> u8"
  C0xx_write_internal :: "nat \<Rightarrow> u8"
  C8xx_slot :: int
  C8xx_handlers :: "nat \<Rightarrow> nat option"
  c8_flipflops :: u8
  c8_contention :: u64
  c8_contention_last :: u8
  slot_rom_ptable :: "page_table_entry list"
  int_rom_ptable :: "page_table_entry list"
  reg_slot :: u8
  f_intcxrom :: bool
  f_slotc3rom :: bool
  gs_slot_register :: bool
  gs_motors_active :: u8
  gs_motor_hook :: bool

record 'd ii_handlers =
  ii_read :: "nat \<Rightarrow> u32 \<Rightarrow> 'd mmu_ii \<Rightarrow> u8 \<times> 'd mmu_ii"
  ii_write :: "nat \<Rightarrow> u32 \<Rightarrow> u8 \<Rightarrow> 'd mmu_ii \<Rightarrow> 'd mmu_ii"
  ii_c8 :: "nat \<Rightarrow> nat \<Rightarrow> 'd mmu_ii \<Rightarrow> 'd mmu_ii"
  ii_en35 :: "'d mmu_ii \<Rightarrow> bool"
  ii_motor :: "'d mmu_ii \<Rightarrow> 'd mmu_ii"

definition C8XX_MOTHERBOARD :: int where "C8XX_MOTHERBOARD = 8"

section \<open>The slot ROM area\<close>

definition set_pte :: "nat \<Rightarrow> page_table_entry \<Rightarrow> 'd mmu_ii \<Rightarrow> 'd mmu_ii" where
  "set_pte page e m = m\<lparr>base := (base m)\<lparr>page_table := (page_table (base m))[page := e]\<rparr>\<rparr>"

text \<open>The entry \<^verbatim>\<open>compose_c1cf\<close> puts at page \<open>$C1 + i\<close>, for either class.\<close>

definition c1cf_entry :: "'d mmu_ii \<Rightarrow> nat \<Rightarrow> page_table_entry" where
  "c1cf_entry m i =
     (case dyn_class m of
        Class_II \<Rightarrow> slot_rom_ptable m ! i
      | Class_IIe \<Rightarrow>
          if f_intcxrom m then int_rom_ptable m ! i
          else if 7 \<le> i then slot_rom_ptable m ! i
          else if i = 2 then (if f_slotc3rom m then slot_rom_ptable m ! 2 else int_rom_ptable m ! 2)
          else if reg_slot m AND push_bit (i + 1) 1 \<noteq> 0 then slot_rom_ptable m ! i
          else int_rom_ptable m ! i)"

definition compose_c1cf :: "'d mmu_ii \<Rightarrow> 'd mmu_ii" where
  "compose_c1cf m = fold (\<lambda>i. set_pte (0xC1 + i) (c1cf_entry m i)) [0 ..< 15] m"

definition upd_slot_rom :: "nat \<Rightarrow> (page_table_entry \<Rightarrow> page_table_entry) \<Rightarrow> 'd mmu_ii \<Rightarrow> 'd mmu_ii" where
  "upd_slot_rom page f m =
     (if page < 0xC1 \<or> 0xCF < page then m
      else m\<lparr>slot_rom_ptable := (slot_rom_ptable m)[page - 0xC1 := f (slot_rom_ptable m ! (page - 0xC1))]\<rparr>)"

definition map_c1cf_page_both :: "nat \<Rightarrow> nat option \<Rightarrow> string option \<Rightarrow> 'd mmu_ii \<Rightarrow> 'd mmu_ii" where
  "map_c1cf_page_both page data d =
     upd_slot_rom page (\<lambda>e. e\<lparr>read_p := data, write_p := data, read_h := None, write_h := None,
       read_d := d, write_d := d\<rparr>)"

definition map_c1cf_page_read_only :: "nat \<Rightarrow> nat option \<Rightarrow> string option \<Rightarrow> 'd mmu_ii \<Rightarrow> 'd mmu_ii" where
  "map_c1cf_page_read_only page data d =
     upd_slot_rom page (\<lambda>e. e\<lparr>read_p := data, write_p := None, read_d := d, write_d := None\<rparr>)"

definition map_c1cf_page_read_h :: "nat \<Rightarrow> nat option \<Rightarrow> string option \<Rightarrow> 'd mmu_ii \<Rightarrow> 'd mmu_ii" where
  "map_c1cf_page_read_h page h d m =
     (if page < 0xC1 \<or> 0xCF < page then m
      else compose_c1cf (upd_slot_rom page (\<lambda>e. e\<lparr>read_h := h, read_d := d\<rparr>) m))"

definition map_c1cf_page_write_h :: "nat \<Rightarrow> nat option \<Rightarrow> string option \<Rightarrow> 'd mmu_ii \<Rightarrow> 'd mmu_ii" where
  "map_c1cf_page_write_h page h d m =
     (if page < 0xC1 \<or> 0xCF < page then m
      else compose_c1cf (upd_slot_rom page (\<lambda>e. e\<lparr>write_h := h, write_d := d\<rparr>) m))"

definition map_c1cf_internal_rom ::
    "nat \<Rightarrow> nat option \<Rightarrow> string option \<Rightarrow> 'd mmu_ii \<Rightarrow> mmu_error + 'd mmu_ii" where
  "map_c1cf_internal_rom page data d m =
     (if \<not> (0xC1 \<le> page \<and> page \<le> 0xCF) then Inl AssertFailed
      else Inr (m\<lparr>int_rom_ptable := (int_rom_ptable m)[page - 0xC1 :=
        \<lparr>read_p = data, write_p = None, read_h = None, write_h = None, shadow_h = None,
         read_d = d, write_d = None\<rparr>]\<rparr>))"

definition set_default_C8xx_map_II :: "'d mmu_ii \<Rightarrow> 'd mmu_ii" where
  "set_default_C8xx_map_II m =
     compose_c1cf (fold (\<lambda>page. map_c1cf_page_both (page + 0xC8) None (Some ''NONE'')) [0 ..< 8]
       (m\<lparr>C8xx_slot := -1, c8_flipflops := 0\<rparr>))"

definition set_default_C8xx_map :: "'d mmu_ii \<Rightarrow> 'd mmu_ii" where
  "set_default_C8xx_map m =
     (case dyn_class m of
        Class_II \<Rightarrow> set_default_C8xx_map_II m
      | Class_IIe \<Rightarrow> if \<not> f_intcxrom m then set_default_C8xx_map_II m else m)"

definition set_slot_rom :: "nat \<Rightarrow> nat option \<Rightarrow> string option \<Rightarrow> 'd mmu_ii \<Rightarrow> 'd mmu_ii" where
  "set_slot_rom slot rom name m =
     (if slot < 1 \<or> 8 \<le> slot then m
      else compose_c1cf (map_c1cf_page_read_only (0xC0 + slot) rom name m))"

definition set_C8xx_handler :: "nat \<Rightarrow> nat option \<Rightarrow> 'd mmu_ii \<Rightarrow> 'd mmu_ii" where
  "set_C8xx_handler slot h m = m\<lparr>C8xx_handlers := (C8xx_handlers m)(slot := h)\<rparr>"

definition call_C8xx_handler :: "'d ii_handlers \<Rightarrow> nat \<Rightarrow> 'd mmu_ii \<Rightarrow> 'd mmu_ii" where
  "call_C8xx_handler H slot m =
     (let m1 = (case C8xx_handlers m slot of Some h \<Rightarrow> ii_c8 H h slot m | None \<Rightarrow> m)
      in compose_c1cf (m1\<lparr>C8xx_slot := int slot\<rparr>))"

definition c8_select :: "'d ii_handlers \<Rightarrow> nat \<Rightarrow> 'd mmu_ii \<Rightarrow> 'd mmu_ii" where
  "c8_select H slot m =
     (if slot < 1 \<or> 7 < slot \<or> C8xx_handlers m slot = None then m
      else
        let b = push_bit slot 1;
            m1 = (if c8_flipflops m AND NOT b \<noteq> 0 \<and> c8_flipflops m AND b = 0
                  then m\<lparr>c8_contention := c8_contention m + 1, c8_contention_last := c8_flipflops m OR b\<rparr>
                  else m);
            m2 = m1\<lparr>c8_flipflops := c8_flipflops m1 OR b\<rparr>
        in if C8xx_slot m2 \<noteq> int slot then call_C8xx_handler H slot m2 else m2)"

definition slot_card_selected :: "'d mmu_ii \<Rightarrow> nat \<Rightarrow> bool" where
  "slot_card_selected m slot =
     (case dyn_class m of
        Class_II \<Rightarrow> True
      | Class_IIe \<Rightarrow>
          if f_intcxrom m then False
          else if slot = 3 then f_slotc3rom m
          else if gs_slot_register m then drop_bit slot (reg_slot m) AND 1 \<noteq> 0 else True)"

definition motherboard_c8_access :: "'d mmu_ii \<Rightarrow> nat \<Rightarrow> bool" where
  "motherboard_c8_access m slot =
     (case dyn_class m of Class_II \<Rightarrow> False | Class_IIe \<Rightarrow> slot = 3 \<and> \<not> f_slotc3rom m)"

text \<open>Without a ROM the source adds the offset to a null pointer; the model keeps the page unmapped.\<close>

definition map_motherboard_c8 :: "'d mmu_ii \<Rightarrow> 'd mmu_ii" where
  "map_motherboard_c8 m =
     (case dyn_class m of
        Class_II \<Rightarrow> m
      | Class_IIe \<Rightarrow> compose_c1cf (fold (\<lambda>page. map_c1cf_page_read_only (page + 0xC8)
          (map_option (\<lambda>rom. rom + 0x800 + page * 0x100) (main_rom_D0 m)) (Some ''SYS_ROM'')) [0 ..< 8] m))"

definition c0xx_gate :: "'d mmu_ii \<Rightarrow> nat \<Rightarrow> int" where
  "c0xx_gate m sub =
     (case dyn_class m of
        Class_II \<Rightarrow> -1
      | Class_IIe \<Rightarrow>
          if \<not> gs_slot_register m \<or> sub < 0x90 then -1
          else let slot = sub div 16 - 8
               in if slot = 3 \<or> slot = 4 then -1 else uint (drop_bit slot (reg_slot m) AND 1))"

definition c0xx_motor_touch :: "'d ii_handlers \<Rightarrow> nat \<Rightarrow> 'd mmu_ii \<Rightarrow> 'd mmu_ii" where
  "c0xx_motor_touch H sub m =
     (case dyn_class m of
        Class_II \<Rightarrow> m
      | Class_IIe \<Rightarrow>
          if \<not> gs_motor_hook m then m
          else
            let slot = sub div 16 - 8; b = push_bit (slot - 4) 1; before = gs_motors_active m;
                m1 = (if odd sub \<and> \<not> (slot = 6 \<and> ii_en35 H m)
                      then m\<lparr>gs_motors_active := gs_motors_active m OR b\<rparr>
                      else if even sub then m\<lparr>gs_motors_active := gs_motors_active m AND NOT b\<rparr>
                      else m)
            in if gs_motors_active m1 \<noteq> before then ii_motor H m1 else m1)"

section \<open>The bus\<close>

definition page_read :: "'d ii_handlers \<Rightarrow> u32 \<Rightarrow> 'd mmu_ii \<Rightarrow> u8 \<times> 'd mmu_ii" where
  "page_read H ea m =
     (let e = pte (base m) (unat ea div 256)
      in case read_p e of
           Some b \<Rightarrow> (host (base m) (b + unat ea mod 256), m)
         | None \<Rightarrow> (case read_h e of
             Some h \<Rightarrow> ii_read H h ea m
           | None \<Rightarrow> (floating_bus_val (base m), m)))"

definition page_write :: "'d ii_handlers \<Rightarrow> u32 \<Rightarrow> u8 \<Rightarrow> 'd mmu_ii \<Rightarrow> 'd mmu_ii" where
  "page_write H ea v m =
     (let page = unat ea div 256; e = pte (base m) page;
          m1 = (case write_h e of
                  Some h \<Rightarrow> ii_write H h ea v m
                | None \<Rightarrow> (case write_p e of
                    Some b \<Rightarrow> m\<lparr>base := store_host (b + unat ea mod 256) v (base m)\<rparr>
                  | None \<Rightarrow> m))
      in case shadow_h (pte (base m1) page) of Some h \<Rightarrow> ii_write H h ea v m1 | None \<Rightarrow> m1)"

definition gate_skips :: "int \<Rightarrow> u8 \<Rightarrow> nat \<Rightarrow> bool" where
  "gate_skips gate internal k \<longleftrightarrow> 0 \<le> gate \<and> (drop_bit k internal AND 1 \<noteq> 0) = (gate = 1)"

definition c0xx_read_one ::
    "'d ii_handlers \<Rightarrow> int \<Rightarrow> u32 \<Rightarrow> nat \<Rightarrow> bool \<times> u8 \<times> 'd mmu_ii \<Rightarrow> bool \<times> u8 \<times> 'd mmu_ii" where
  "c0xx_read_one H gate ea k = (\<lambda>(answered, retval, m).
     let sub = unat ea mod 256; (h0, h1) = C0xx_read_handlers m sub
     in case (if k = 0 then h0 else h1) of
          None \<Rightarrow> (answered, retval, m)
        | Some h \<Rightarrow>
            if gate_skips gate (C0xx_read_internal m sub) k then (answered, retval, m)
            else let (v, m') = ii_read H h ea m in (True, retval OR v, m'))"

definition c0xx_write_one :: "'d ii_handlers \<Rightarrow> int \<Rightarrow> u32 \<Rightarrow> u8 \<Rightarrow> nat \<Rightarrow> 'd mmu_ii \<Rightarrow> 'd mmu_ii" where
  "c0xx_write_one H gate ea v k m =
     (let sub = unat ea mod 256; (h0, h1) = C0xx_write_handlers m sub
      in case (if k = 0 then h0 else h1) of
           None \<Rightarrow> m
         | Some h \<Rightarrow> if gate_skips gate (C0xx_write_internal m sub) k then m else ii_write H h ea v m)"

definition motor_address :: "nat \<Rightarrow> bool" where
  "motor_address sub \<longleftrightarrow> 0xC0 \<le> sub \<and> (sub div 2) mod 8 = 4"

definition c0xx_read :: "'d ii_handlers \<Rightarrow> u32 \<Rightarrow> 'd mmu_ii \<Rightarrow> u8 \<times> 'd mmu_ii" where
  "c0xx_read H ea m =
     (let sub = unat ea mod 256;
          m0 = (if motor_address sub then c0xx_motor_touch H sub m else m);
          gate = c0xx_gate m0 sub;
          (answered, retval, m') = c0xx_read_one H gate ea 1 (c0xx_read_one H gate ea 0 (False, 0, m0))
      in if answered then (retval, m') else (retval OR floating_bus_val (base m'), m'))"

definition c0xx_write :: "'d ii_handlers \<Rightarrow> u32 \<Rightarrow> u8 \<Rightarrow> 'd mmu_ii \<Rightarrow> 'd mmu_ii" where
  "c0xx_write H ea v m =
     (let sub = unat ea mod 256;
          m0 = (if motor_address sub then c0xx_motor_touch H sub m else m);
          gate = c0xx_gate m0 sub
      in c0xx_write_one H gate ea v 1 (c0xx_write_one H gate ea v 0 m0))"

definition slot_access :: "'d ii_handlers \<Rightarrow> nat \<Rightarrow> 'd mmu_ii \<Rightarrow> 'd mmu_ii" where
  "slot_access H slot m =
     (if slot_card_selected m slot then c8_select H slot m
      else if motherboard_c8_access m slot \<and> C8xx_slot m \<noteq> C8XX_MOTHERBOARD
      then (map_motherboard_c8 m)\<lparr>C8xx_slot := C8XX_MOTHERBOARD\<rparr>
      else m)"

definition MMU_II_read :: "'d ii_handlers \<Rightarrow> u32 \<Rightarrow> 'd mmu_ii \<Rightarrow> u8 \<times> 'd mmu_ii" where
  "MMU_II_read H address m =
     (let ea = take_bit 16 address; page = unat ea div 256
      in if num_pages (base m) \<le> page then (floating_bus_val (base m), m)
         else if page = 0xC0 then c0xx_read H ea m
         else if 0xC1 \<le> page \<and> page < 0xC8 then page_read H ea (slot_access H (page mod 8) m)
         else if ea = 0xCFFF then
           (let (v, m') = page_read H ea m in (v, set_default_C8xx_map m'))
         else page_read H ea m)"

definition MMU_II_write :: "'d ii_handlers \<Rightarrow> u32 \<Rightarrow> u8 \<Rightarrow> 'd mmu_ii \<Rightarrow> 'd mmu_ii" where
  "MMU_II_write H address v m =
     (let ea = take_bit 16 address; page = unat ea div 256
      in if page = 0xC0 then c0xx_write H ea v m
         else if 0xC1 \<le> page \<and> page < 0xC8 then page_write H ea v (slot_access H (page mod 8) m)
         else if ea = 0xCFFF then set_default_C8xx_map (page_write H ea v m)
         else page_write H ea v m)"

section \<open>Registration, switches, reset\<close>

definition free_slot :: "nat option \<times> nat option \<Rightarrow> nat \<Rightarrow> mmu_error + nat option \<times> nat option" where
  "free_slot hs h =
     (case hs of (None, h1) \<Rightarrow> Inr (Some h, h1) | (Some h0, None) \<Rightarrow> Inr (Some h0, Some h)
      | (Some _, Some _) \<Rightarrow> Inl AssertFailed)"

definition set_C0XX_read_handler :: "nat \<Rightarrow> nat \<Rightarrow> 'd mmu_ii \<Rightarrow> mmu_error + 'd mmu_ii" where
  "set_C0XX_read_handler address h m =
     (if \<not> (0xC000 \<le> address \<and> address < 0xC100) then Inl AssertFailed
      else map_sum id (\<lambda>hs. m\<lparr>C0xx_read_handlers := (C0xx_read_handlers m)(address mod 256 := hs)\<rparr>)
             (free_slot (C0xx_read_handlers m (address mod 256)) h))"

definition set_C0XX_write_handler :: "nat \<Rightarrow> nat \<Rightarrow> 'd mmu_ii \<Rightarrow> mmu_error + 'd mmu_ii" where
  "set_C0XX_write_handler address h m =
     (if \<not> (0xC000 \<le> address \<and> address < 0xC100) then Inl AssertFailed
      else map_sum id (\<lambda>hs. m\<lparr>C0xx_write_handlers := (C0xx_write_handlers m)(address mod 256 := hs)\<rparr>)
             (free_slot (C0xx_write_handlers m (address mod 256)) h))"

definition set_C0XX_read_handler_internal :: "nat \<Rightarrow> nat \<Rightarrow> 'd mmu_ii \<Rightarrow> mmu_error + 'd mmu_ii" where
  "set_C0XX_read_handler_internal address h m =
     (let b = address mod 256; k = (if fst (C0xx_read_handlers m b) = None then 0 else 1)
      in map_sum id (\<lambda>m'. m'\<lparr>C0xx_read_internal :=
             (C0xx_read_internal m')(b := C0xx_read_internal m' b OR push_bit k 1)\<rparr>)
           (set_C0XX_read_handler address h m))"

definition set_C0XX_write_handler_internal :: "nat \<Rightarrow> nat \<Rightarrow> 'd mmu_ii \<Rightarrow> mmu_error + 'd mmu_ii" where
  "set_C0XX_write_handler_internal address h m =
     (let b = address mod 256; k = (if fst (C0xx_write_handlers m b) = None then 0 else 1)
      in map_sum id (\<lambda>m'. m'\<lparr>C0xx_write_internal :=
             (C0xx_write_internal m')(b := C0xx_write_internal m' b OR push_bit k 1)\<rparr>)
           (set_C0XX_write_handler address h m))"

definition set_slot_register :: "u8 \<Rightarrow> 'd mmu_ii \<Rightarrow> 'd mmu_ii" where
  "set_slot_register v m = compose_c1cf (m\<lparr>reg_slot := v\<rparr>)"

definition iie_mmu_handle_C00X_write :: "u32 \<Rightarrow> u8 \<Rightarrow> 'd mmu_ii \<Rightarrow> 'd mmu_ii" where
  "iie_mmu_handle_C00X_write address v m =
     (if address = 0xC006 then compose_c1cf (m\<lparr>f_intcxrom := False\<rparr>)
      else if address = 0xC007 then compose_c1cf (m\<lparr>f_intcxrom := True\<rparr>)
      else if address = 0xC00A then compose_c1cf (m\<lparr>f_slotc3rom := False\<rparr>)
      else if address = 0xC00B then compose_c1cf (m\<lparr>f_slotc3rom := True\<rparr>)
      else m)"

definition init_map :: "'d mmu_ii \<Rightarrow> mmu_error + 'd mmu_ii" where
  "init_map m =
     (let ram = for_each [0 ..< 192] (\<lambda>i. map_page_both i (Some (main_ram m + i * 256)) (Some ''MAIN_RAM''));
          skip = (case dyn_class m of Class_II \<Rightarrow> 0 | Class_IIe \<Rightarrow> 0x1000);
          rom = (case main_rom_D0 m of
                   None \<Rightarrow> op_skip
                 | Some r \<Rightarrow> for_each [0 ..< 48] (\<lambda>i. map_page_read_only (i + 0xD0) (Some (r + skip + i * 256)) (Some ''SYS_ROM'')))
      in map_sum id (\<lambda>b. m\<lparr>base := b\<rparr>) (op_then ram rom (base m)))"

definition MMU_II_reset :: "'d mmu_ii \<Rightarrow> mmu_error + 'd mmu_ii" where
  "MMU_II_reset m = init_map (set_default_C8xx_map_II m)"

definition MMU_IIe_reset :: "'d mmu_ii \<Rightarrow> mmu_error + 'd mmu_ii" where
  "MMU_IIe_reset m =
     map_sum id (\<lambda>m'. compose_c1cf (m'\<lparr>f_intcxrom := False, f_slotc3rom := False\<rparr>)) (MMU_II_reset m)"

text \<open>The constructors.  Members without an initialiser hold whatever the allocation held: \<open>g\<close> and \<open>gi\<close>
  are that content of the slot ROM and the internal ROM table.  The virtual calls in the constructor
  of the base class run the base class's own functions, so the class is \<^const>\<open>Class_II\<close> during it.\<close>

definition power_on_randomize :: "u8 \<Rightarrow> nat \<Rightarrow> nat \<Rightarrow> nat \<Rightarrow> (nat \<Rightarrow> u8) \<Rightarrow> nat \<Rightarrow> u8" where
  "power_on_randomize b ram from to =
     fold (\<lambda>k mem. let i = ram + from + 4 * k in mem(i := b, i + 1 := b, i + 2 := 0, i + 3 := 0))
       [0 ..< (to - from + 3) div 4]"

definition MMU_II_members ::
    "page_table_entry list \<Rightarrow> page_table_entry list \<Rightarrow> nat \<Rightarrow> nat \<Rightarrow> nat option \<Rightarrow> (nat \<Rightarrow> u8) \<Rightarrow> 'd \<Rightarrow> 'd mmu_ii" where
  "MMU_II_members g gi ram ram_amount rom mem d =
     \<lparr>base = new_MMU 256 8 (power_on_randomize 0xFF ram 0 ram_amount mem) d, dyn_class = Class_II,
      main_ram = ram, main_rom_D0 = rom,
      C0xx_read_handlers = (\<lambda>_. (None, None)), C0xx_write_handlers = (\<lambda>_. (None, None)),
      C0xx_read_internal = (\<lambda>_. 0), C0xx_write_internal = (\<lambda>_. 0), C8xx_slot = -1,
      C8xx_handlers = (\<lambda>_. None), c8_flipflops = 0, c8_contention = 0, c8_contention_last = 0,
      slot_rom_ptable = g, int_rom_ptable = gi, reg_slot = 0xF6, f_intcxrom = False,
      f_slotc3rom = False, gs_slot_register = False, gs_motors_active = 0, gs_motor_hook = False\<rparr>"

definition MMU_II_new ::
    "page_table_entry list \<Rightarrow> page_table_entry list \<Rightarrow> nat \<Rightarrow> nat \<Rightarrow> nat option \<Rightarrow> (nat \<Rightarrow> u8) \<Rightarrow> 'd \<Rightarrow> mmu_error + 'd mmu_ii" where
  "MMU_II_new g gi ram ram_amount rom mem d =
     map_sum id (\<lambda>m. (set_default_C8xx_map_II m)\<lparr>slot_rom_ptable := replicate 15 empty_page\<rparr>)
       (init_map (MMU_II_members g gi ram ram_amount rom mem d))"

section \<open>Expansion ROM of the cards\<close>

text \<open>The \<open>$C800\<close> handlers the cards register; a ROM is the host address of its image.  The two
  handlers of the Videx screen memory are numbers, as all bus handlers are.\<close>

definition map_rom :: "nat \<Rightarrow> string \<Rightarrow> 'd mmu_ii \<Rightarrow> 'd mmu_ii" where
  "map_rom rom d = fold (\<lambda>page. map_c1cf_page_read_only (page + 0xC8) (Some (rom + page * 0x100)) (Some d)) [0 ..< 8]"

definition map_rom_ssc :: "nat option \<Rightarrow> 'd mmu_ii \<Rightarrow> 'd mmu_ii" where
  "map_rom_ssc rom m = (case rom of None \<Rightarrow> m | Some r \<Rightarrow> map_rom r ''SSC_ROM'' m)"

definition map_rom_thunderclock :: "nat option \<Rightarrow> 'd mmu_ii \<Rightarrow> 'd mmu_ii" where
  "map_rom_thunderclock rom m = (case rom of None \<Rightarrow> m | Some r \<Rightarrow> map_rom r ''TCP_ROM'' m)"

definition map_rom_memexp :: "nat \<Rightarrow> 'd mmu_ii \<Rightarrow> 'd mmu_ii" where
  "map_rom_memexp rom = map_rom (rom + 0x800) ''MEMEXP_ROM''"

definition map_rom_pdblock3 :: "nat \<Rightarrow> 'd mmu_ii \<Rightarrow> 'd mmu_ii" where
  "map_rom_pdblock3 rom = map_rom rom ''PDB3_ROM''"

definition map_rom_videx :: "nat \<Rightarrow> nat \<Rightarrow> nat \<Rightarrow> 'd mmu_ii \<Rightarrow> 'd mmu_ii" where
  "map_rom_videx rom write2 read2 =
     map_c1cf_page_read_h 0xCD (Some read2) (Some ''VIDEXRAM'') \<circ>
     map_c1cf_page_read_h 0xCC (Some read2) (Some ''VIDEXRAM'') \<circ>
     map_c1cf_page_write_h 0xCD (Some write2) (Some ''VIDEXRAM'') \<circ>
     map_c1cf_page_write_h 0xCC (Some write2) (Some ''VIDEXRAM'') \<circ>
     fold (\<lambda>page. map_c1cf_page_both page None (Some ''NONE'')) [0xCC, 0xCD, 0xCE, 0xCF] \<circ>
     fold (\<lambda>page. map_c1cf_page_read_only (page + 0xC8) (Some (rom + page * 0x100)) (Some ''VIDEXROM'')) [0, 1, 2, 3]"

section \<open>Composition\<close>

lemma set_pte_simps [simp]:
  "num_pages (base (set_pte p e m)) = num_pages (base m)"
  "q < num_pages (base m) \<Longrightarrow> pte (base (set_pte p e m)) q = (if q = p then e else pte (base m) q)"
  "host (base (set_pte p e m)) = host (base m)"
  "floating_bus_val (base (set_pte p e m)) = floating_bus_val (base m)"
  by (simp_all add: set_pte_def num_pages_def pte_def nth_list_update)

lemma set_pte_fields [simp]:
  "dyn_class (set_pte p e m) = dyn_class m" "main_rom_D0 (set_pte p e m) = main_rom_D0 m"
  "C8xx_slot (set_pte p e m) = C8xx_slot m" "C8xx_handlers (set_pte p e m) = C8xx_handlers m"
  "c8_flipflops (set_pte p e m) = c8_flipflops m" "c8_contention (set_pte p e m) = c8_contention m"
  "slot_rom_ptable (set_pte p e m) = slot_rom_ptable m" "int_rom_ptable (set_pte p e m) = int_rom_ptable m"
  "reg_slot (set_pte p e m) = reg_slot m" "f_intcxrom (set_pte p e m) = f_intcxrom m"
  "f_slotc3rom (set_pte p e m) = f_slotc3rom m" "gs_slot_register (set_pte p e m) = gs_slot_register m"
  "C0xx_read_handlers (set_pte p e m) = C0xx_read_handlers m"
  "C0xx_write_handlers (set_pte p e m) = C0xx_write_handlers m"
  "C0xx_read_internal (set_pte p e m) = C0xx_read_internal m" "gs_motor_hook (set_pte p e m) = gs_motor_hook m"
  by (simp_all add: set_pte_def)

lemma fold_field:
  "(\<And>p e m. F (set_pte p e m) = F m) \<Longrightarrow> F (fold (\<lambda>i. set_pte (k + i) (f i)) is m) = F m"
  by (induction "is" arbitrary: m) simp_all

lemma fold_set_pte:
  assumes "num_pages (base m) = 256"
  shows "num_pages (base (fold (\<lambda>i. set_pte (k + i) (f i)) is m)) = 256 \<and>
     (\<forall>q < 256. pte (base (fold (\<lambda>i. set_pte (k + i) (f i)) is m)) q =
        (if \<exists>i \<in> set is. q = k + i then f (q - k) else pte (base m) q))"
  using assms by (induction "is" arbitrary: m) auto

lemma compose_fields [simp]:
  "dyn_class (compose_c1cf m) = dyn_class m" "main_rom_D0 (compose_c1cf m) = main_rom_D0 m"
  "C8xx_slot (compose_c1cf m) = C8xx_slot m" "C8xx_handlers (compose_c1cf m) = C8xx_handlers m"
  "c8_flipflops (compose_c1cf m) = c8_flipflops m" "c8_contention (compose_c1cf m) = c8_contention m"
  "slot_rom_ptable (compose_c1cf m) = slot_rom_ptable m" "int_rom_ptable (compose_c1cf m) = int_rom_ptable m"
  "reg_slot (compose_c1cf m) = reg_slot m" "f_intcxrom (compose_c1cf m) = f_intcxrom m"
  "f_slotc3rom (compose_c1cf m) = f_slotc3rom m" "gs_slot_register (compose_c1cf m) = gs_slot_register m"
  "C0xx_read_handlers (compose_c1cf m) = C0xx_read_handlers m"
  "C0xx_write_handlers (compose_c1cf m) = C0xx_write_handlers m"
  "C0xx_read_internal (compose_c1cf m) = C0xx_read_internal m" "gs_motor_hook (compose_c1cf m) = gs_motor_hook m"
  "host (base (compose_c1cf m)) = host (base m)" "num_pages (base (compose_c1cf m)) = num_pages (base m)"
  "floating_bus_val (base (compose_c1cf m)) = floating_bus_val (base m)"
  unfolding compose_c1cf_def
  by (rule fold_field [where F = dyn_class] fold_field [where F = main_rom_D0] fold_field [where F = C8xx_slot]
      fold_field [where F = C8xx_handlers] fold_field [where F = c8_flipflops] fold_field [where F = c8_contention]
      fold_field [where F = slot_rom_ptable] fold_field [where F = int_rom_ptable] fold_field [where F = reg_slot]
      fold_field [where F = f_intcxrom] fold_field [where F = f_slotc3rom] fold_field [where F = gs_slot_register]
      fold_field [where F = C0xx_read_handlers] fold_field [where F = C0xx_write_handlers] fold_field [where F = C0xx_read_internal] fold_field [where F = gs_motor_hook]
      fold_field [where F = "\<lambda>m. host (base m)"] fold_field [where F = "\<lambda>m. num_pages (base m)"]
      fold_field [where F = "\<lambda>m. floating_bus_val (base m)"]; simp)+

section \<open>The invariant\<close>

text \<open>
  The tables keep their sizes; the pages \<open>$C1\<close> to \<open>$CF\<close> are what the switches and the two ROM tables
  prescribe; the owner of \<open>$C800\<close> has its flip-flop set and only cards with expansion ROM have one.
\<close>

definition geometry :: "'d mmu_ii \<Rightarrow> bool" where
  "geometry m \<longleftrightarrow> num_pages (base m) = 256 \<and> length (slot_rom_ptable m) = 15 \<and> length (int_rom_ptable m) = 15"

text \<open>The rule of the machine for the pages \<open>$C1\<close> to \<open>$CF\<close>: a IIe shows its internal ROM in all of them while INTCXROM is
  on; otherwise slot 3's page shows it while SLOTC3ROM is off, and the page of another slot while the slot's bit in the
  slot register is clear.  Everything else comes from the cards.\<close>

definition internal_rom_page :: "'d mmu_ii \<Rightarrow> nat \<Rightarrow> bool" where
  "internal_rom_page m p \<longleftrightarrow> dyn_class m = Class_IIe \<and>
     (f_intcxrom m \<or> p = 0xC3 \<and> \<not> f_slotc3rom m \<or>
      p \<in> {0xC1, 0xC2, 0xC4, 0xC5, 0xC6, 0xC7} \<and> \<not> bit (reg_slot m) (p - 0xC0))"

definition composed :: "'d mmu_ii \<Rightarrow> bool" where
  "composed m \<longleftrightarrow> (\<forall>p \<in> {0xC1..0xCF}.
     pte (base m) p = (if internal_rom_page m p then int_rom_ptable m else slot_rom_ptable m) ! (p - 0xC1))"

definition c8_ok :: "'d mmu_ii \<Rightarrow> bool" where
  "c8_ok m \<longleftrightarrow> (C8xx_slot m = - 1 \<or> 1 \<le> C8xx_slot m \<and> C8xx_slot m \<le> 8) \<and>
     (\<forall>n. C8xx_slot m = int n \<and> n \<le> 7 \<longrightarrow> bit (c8_flipflops m) n) \<and>
     (\<forall>n. bit (c8_flipflops m) n \<longrightarrow> 1 \<le> n \<and> n \<le> 7 \<and> C8xx_handlers m n \<noteq> None)"

definition mmu_ii_ok :: "'d mmu_ii \<Rightarrow> bool" where
  "mmu_ii_ok m \<longleftrightarrow> geometry m \<and> composed m \<and> c8_ok m"

lemma c1cf_entry_rule:
  assumes "i < 15"
  shows "c1cf_entry m i = (if internal_rom_page m (0xC1 + i) then int_rom_ptable m else slot_rom_ptable m) ! i"
proof -
  have r: "reg_slot m AND push_bit n 1 \<noteq> 0 \<longleftrightarrow> bit (reg_slot m) n" for n
    by (simp add: bit_iff_and_push_bit_not_eq_0)
  have pages: "0xC1 + i \<in> {0xC1, 0xC2, 0xC4, 0xC5, 0xC6, 0xC7} \<longleftrightarrow> \<not> 7 \<le> i \<and> i \<noteq> 2"
    "0xC1 + i = 0xC3 \<longleftrightarrow> i = 2" "0xC1 + i - 0xC0 = i + 1" by auto
  show ?thesis
    unfolding c1cf_entry_def internal_rom_page_def r pages
    by (cases "dyn_class m"; cases "f_intcxrom m"; cases "7 \<le> i"; cases "i = 2") auto
qed

lemma composed_iff: "composed m \<longleftrightarrow> (\<forall>i < 15. pte (base m) (0xC1 + i) = c1cf_entry m i)"
proof -
  have "(\<forall>p \<in> {0xC1..0xCF}. P p) \<longleftrightarrow> (\<forall>i < 15. P (0xC1 + i))" for P :: "nat \<Rightarrow> bool"
  proof
    assume a: "\<forall>i < 15. P (0xC1 + i)"
    show "\<forall>p \<in> {0xC1..0xCF}. P p"
    proof
      fix p :: nat assume "p \<in> {0xC1..0xCF}"
      then have "p - 0xC1 < 15" "0xC1 + (p - 0xC1) = p" by auto
      then show "P p" using a by metis
    qed
  qed simp
  then show ?thesis by (simp add: composed_def c1cf_entry_rule)
qed

lemma c1cf_entry_cong:
  "dyn_class m' = dyn_class m \<Longrightarrow> slot_rom_ptable m' = slot_rom_ptable m \<Longrightarrow>
   int_rom_ptable m' = int_rom_ptable m \<Longrightarrow> f_intcxrom m' = f_intcxrom m \<Longrightarrow>
   f_slotc3rom m' = f_slotc3rom m \<Longrightarrow> reg_slot m' = reg_slot m \<Longrightarrow> c1cf_entry m' i = c1cf_entry m i"
  by (simp only: c1cf_entry_def)

lemma compose_composed:
  assumes "geometry m"
  shows "geometry (compose_c1cf m) \<and> composed (compose_c1cf m) \<and>
     (\<forall>q < 256. q < 0xC1 \<or> 0xCF < q \<longrightarrow> pte (base (compose_c1cf m)) q = pte (base m) q)"
proof -
  have N: "num_pages (base m) = 256" using assms by (simp add: geometry_def)
  have pages: "pte (base (compose_c1cf m)) q =
      (if \<exists>i \<in> set [0 ..< 15]. q = 0xC1 + i then c1cf_entry m (q - 0xC1) else pte (base m) q)" if "q < 256" for q
    unfolding compose_c1cf_def using fold_set_pte [OF N, of "0xC1" "c1cf_entry m" "[0 ..< 15]"] that by blast
  have "pte (base (compose_c1cf m)) (0xC1 + i) = c1cf_entry (compose_c1cf m) i" if "i < 15" for i
  proof -
    have "\<exists>j \<in> set [0 ..< 15]. 0xC1 + i = 0xC1 + j" using that by auto
    then have "pte (base (compose_c1cf m)) (0xC1 + i) = c1cf_entry m i" using pages [of "0xC1 + i"] that by simp
    then show ?thesis using c1cf_entry_cong [of "compose_c1cf m" m i] by simp
  qed
  moreover have "pte (base (compose_c1cf m)) q = pte (base m) q" if "q < 256" "q < 0xC1 \<or> 0xCF < q" for q
  proof -
    have "\<not> (\<exists>j \<in> set [0 ..< 15]. q = 0xC1 + j)" using that by auto
    then show ?thesis using pages [OF that(1)] by simp
  qed
  ultimately show ?thesis using assms by (simp add: geometry_def composed_iff)
qed

lemma slot_compose_ok:
  "geometry m \<Longrightarrow> c8_ok m \<Longrightarrow> mmu_ii_ok (compose_c1cf m)"
  using compose_composed [of m] by (simp add: mmu_ii_ok_def c8_ok_def)

text \<open>What a remapping of slot ROM leaves alone.\<close>

definition c8_frame :: "'d mmu_ii \<Rightarrow> 'd mmu_ii \<Rightarrow> bool" where
  "c8_frame m m' \<longleftrightarrow> (geometry m \<longrightarrow> geometry m') \<and> C8xx_slot m' = C8xx_slot m \<and>
     C8xx_handlers m' = C8xx_handlers m \<and> c8_flipflops m' = c8_flipflops m \<and>
     c8_contention m' = c8_contention m"

lemma c8_frame_refl [simp]: "c8_frame m m"
  by (simp add: c8_frame_def)

lemma c8_frame_trans: "c8_frame m m1 \<Longrightarrow> c8_frame m1 m2 \<Longrightarrow> c8_frame m m2"
  by (auto simp: c8_frame_def)

lemma c8_frame_ok: "c8_frame m m' \<Longrightarrow> c8_ok m' = c8_ok m"
  by (simp add: c8_frame_def c8_ok_def)

lemma c8_frame_slot_rom: "c8_frame m (upd_slot_rom page f m)"
  by (simp add: c8_frame_def upd_slot_rom_def geometry_def)

lemma c8_frame_fold:
  "(\<And>i m. c8_frame m (f i m)) \<Longrightarrow> c8_frame m (fold f is m)"
  by (induction "is" arbitrary: m) (auto intro: c8_frame_trans)

lemma c8_frame_map_c1cf:
  "c8_frame m (map_c1cf_page_both page x d m)" "c8_frame m (map_c1cf_page_read_only page x d m)"
  by (simp_all add: map_c1cf_page_both_def map_c1cf_page_read_only_def c8_frame_slot_rom)

lemma c8_frame_compose: "c8_frame m (compose_c1cf m)"
  using compose_composed [of m] by (simp add: c8_frame_def)

lemma c8_frame_map_h:
  "c8_frame m (map_c1cf_page_read_h page h d m)" "c8_frame m (map_c1cf_page_write_h page h d m)"
  by (simp_all add: map_c1cf_page_read_h_def map_c1cf_page_write_h_def
      c8_frame_trans [OF c8_frame_slot_rom c8_frame_compose])

lemma c8_frame_map_rom: "c8_frame m (map_rom rom d m)"
  unfolding map_rom_def by (rule c8_frame_fold) (rule c8_frame_map_c1cf)

lemma c8_frame_comp: "(\<And>m. c8_frame m (f m)) \<Longrightarrow> (\<And>m. c8_frame m (g m)) \<Longrightarrow> c8_frame m ((f \<circ> g) m)"
  using c8_frame_trans by (metis comp_apply)

lemma c8_frame_cards:
  "c8_frame m (map_rom_ssc r m)" "c8_frame m (map_rom_thunderclock r m)" "c8_frame m (map_rom_memexp q m)"
  "c8_frame m (map_rom_pdblock3 q m)" "c8_frame m (map_rom_videx q w h m)"
proof -
  show "c8_frame m (map_rom_videx q w h m)"
    unfolding map_rom_videx_def by (intro c8_frame_comp c8_frame_fold c8_frame_map_h c8_frame_map_c1cf)
qed (simp_all add: map_rom_ssc_def map_rom_thunderclock_def map_rom_memexp_def map_rom_pdblock3_def
    c8_frame_map_rom split: option.split)

lemma set_default_II_ok:
  assumes "geometry m"
  shows "mmu_ii_ok (set_default_C8xx_map_II m)"
proof -
  let ?m = "m\<lparr>C8xx_slot := -1, c8_flipflops := 0\<rparr>"
  have f: "c8_frame ?m (fold (\<lambda>page. map_c1cf_page_both (page + 0xC8) None (Some ''NONE'')) [0 ..< 8] ?m)"
    by (rule c8_frame_fold) (rule c8_frame_map_c1cf)
  have "geometry ?m" "c8_ok ?m" using assms by (simp_all add: geometry_def c8_ok_def)
  with f show ?thesis
    unfolding set_default_C8xx_map_II_def by (intro slot_compose_ok) (auto simp: c8_frame_def c8_ok_def)
qed

lemma set_default_ok: "mmu_ii_ok m \<Longrightarrow> mmu_ii_ok (set_default_C8xx_map m)"
  using set_default_II_ok [of m] unfolding set_default_C8xx_map_def
  by (cases "dyn_class m") (simp_all add: mmu_ii_ok_def)

lemma ok_cong:
  assumes "mmu_ii_ok m" and "page_table (base m') = page_table (base m)" and "dyn_class m' = dyn_class m"
    and "slot_rom_ptable m' = slot_rom_ptable m" and "int_rom_ptable m' = int_rom_ptable m"
    and "f_intcxrom m' = f_intcxrom m" and "f_slotc3rom m' = f_slotc3rom m" and "reg_slot m' = reg_slot m"
    and "c8_ok m'"
  shows "mmu_ii_ok m'"
  using assms c1cf_entry_cong [of m' m]
  by (simp add: mmu_ii_ok_def geometry_def composed_iff num_pages_def pte_def)

lemma map_motherboard_ok:
  assumes "mmu_ii_ok m" and "motherboard_c8_access m slot"
  shows "mmu_ii_ok ((map_motherboard_c8 m)\<lparr>C8xx_slot := C8XX_MOTHERBOARD\<rparr>)"
proof -
  have iie: "dyn_class m = Class_IIe" using assms(2) by (simp add: motherboard_c8_access_def split: mmu_class.splits)
  let ?m = "fold (\<lambda>page. map_c1cf_page_read_only (page + 0xC8)
     (map_option (\<lambda>rom. rom + 0x800 + page * 0x100) (main_rom_D0 m)) (Some ''SYS_ROM'')) [0 ..< 8] m"
  have f: "c8_frame m ?m" by (rule c8_frame_fold) (rule c8_frame_map_c1cf)
  with assms(1) have ok: "mmu_ii_ok (compose_c1cf ?m)"
    by (intro slot_compose_ok) (auto simp: mmu_ii_ok_def c8_frame_def c8_frame_ok [OF f])
  then have "c8_ok ((compose_c1cf ?m)\<lparr>C8xx_slot := C8XX_MOTHERBOARD\<rparr>)"
    by (auto simp: mmu_ii_ok_def c8_ok_def C8XX_MOTHERBOARD_def)
  with ok show ?thesis unfolding map_motherboard_c8_def iie by (intro ok_cong [OF ok]) simp_all
qed

section \<open>Handlers that keep the invariant\<close>

text \<open>The cards with expansion ROM among the slots accessed.\<close>

definition claimed :: "'d mmu_ii \<Rightarrow> nat list \<Rightarrow> nat set" where
  "claimed m slots = {n \<in> set slots. 1 \<le> n \<and> n \<le> 7 \<and> C8xx_handlers m n \<noteq> None}"

lemma card_insert_pred:
  assumes "finite A"
  shows "card (insert x A) - 1 = card A - 1 + (if A - {x} \<noteq> {} \<and> x \<notin> A then 1 else 0)"
proof (cases "x \<in> A \<or> A = {}")
  case False
  then have "0 < card A" using assms by (simp add: card_gt_0_iff)
  with False assms show ?thesis by auto
qed (use assms in \<open>auto simp: insert_absorb\<close>)

lemma and_push_bit: "w AND push_bit k 1 = 0 \<longleftrightarrow> \<not> bit w k" for w :: u8
  by (simp add: bit_iff_and_push_bit_not_eq_0)

lemma and_not_push_bit: "w AND NOT (push_bit k 1) = 0 \<longleftrightarrow> (\<forall>n. bit w n \<longrightarrow> n = k)" for w :: u8
proof
  assume z: "w AND NOT (push_bit k 1) = 0"
  show "\<forall>n. bit w n \<longrightarrow> n = k"
  proof (intro allI impI)
    fix n assume b: "bit w n"
    have "\<not> bit (0 :: u8) n" by simp
    then have "\<not> bit (w AND NOT (push_bit k 1)) n" unfolding z .
    with b show "n = k" by (auto simp: bit_simps dest: bit_imp_le_length)
  qed
next
  assume a: "\<forall>n. bit w n \<longrightarrow> n = k"
  show "w AND NOT (push_bit k 1) = 0"
    by (rule bit_eqI) (use a in \<open>auto simp: bit_simps\<close>)
qed

locale card_handlers =
  fixes H :: "'d ii_handlers"
  assumes read_keeps: "mmu_ii_ok m \<Longrightarrow> mmu_ii_ok (snd (ii_read H h a m))"
    and write_keeps: "mmu_ii_ok m \<Longrightarrow> mmu_ii_ok (ii_write H h a v m)"
    and motor_keeps: "mmu_ii_ok m \<Longrightarrow> mmu_ii_ok (ii_motor H m)"
    and c8_keeps: "c8_frame m (ii_c8 H h slot m)"
begin

lemma call_C8xx_ok:
  assumes "geometry m" and "c8_ok m" and "1 \<le> slot" and "slot \<le> 7" and "bit (c8_flipflops m) slot"
  shows "mmu_ii_ok (call_C8xx_handler H slot m)"
proof -
  let ?m = "case C8xx_handlers m slot of Some h \<Rightarrow> ii_c8 H h slot m | None \<Rightarrow> m"
  have f: "c8_frame m ?m" using c8_keeps by (simp split: option.split)
  then have "geometry (?m\<lparr>C8xx_slot := int slot\<rparr>)" using assms(1) by (simp add: c8_frame_def geometry_def)
  moreover have "c8_ok (?m\<lparr>C8xx_slot := int slot\<rparr>)" using f assms by (auto simp: c8_frame_def c8_ok_def)
  ultimately show ?thesis unfolding call_C8xx_handler_def Let_def by (rule slot_compose_ok)
qed

lemma c8_select_ok:
  assumes "mmu_ii_ok m"
  shows "mmu_ii_ok (c8_select H slot m)"
proof (cases "slot < 1 \<or> 7 < slot \<or> C8xx_handlers m slot = None")
  case True
  with assms show ?thesis by (simp add: c8_select_def)
next
  case False
  define b :: u8 where "b = push_bit slot 1"
  define m1 where "m1 = (if c8_flipflops m AND NOT b \<noteq> 0 \<and> c8_flipflops m AND b = 0
     then m\<lparr>c8_contention := c8_contention m + 1, c8_contention_last := c8_flipflops m OR b\<rparr> else m)"
  define m2 where "m2 = m1\<lparr>c8_flipflops := c8_flipflops m1 OR b\<rparr>"
  have b: "bit b n \<longleftrightarrow> n = slot" for n
    using False by (auto simp: b_def bit_simps)
  have c8: "c8_ok m2"
    using assms False b by (auto simp: m2_def m1_def mmu_ii_ok_def c8_ok_def bit_or_iff)
  have ok: "mmu_ii_ok m2"
    using c8 by (rule ok_cong [OF assms, rotated -1]) (simp_all add: m2_def m1_def)
  have "bit (c8_flipflops m2) slot" using b by (simp add: m2_def bit_or_iff)
  with ok False have "mmu_ii_ok (call_C8xx_handler H slot m2)"
    by (intro call_C8xx_ok) (auto simp: mmu_ii_ok_def)
  with ok False show ?thesis
    unfolding c8_select_def Let_def b_def [symmetric] m1_def [symmetric] m2_def [symmetric] by auto
qed

lemma slot_access_ok: "mmu_ii_ok m \<Longrightarrow> mmu_ii_ok (slot_access H slot m)"
  using c8_select_ok map_motherboard_ok by (auto simp: slot_access_def)

lemma page_read_ok: "mmu_ii_ok m \<Longrightarrow> mmu_ii_ok (snd (page_read H ea m))"
  using read_keeps by (simp add: page_read_def Let_def split: option.split)

lemma store_ok: "mmu_ii_ok m \<Longrightarrow> mmu_ii_ok (m\<lparr>base := store_host a v (base m)\<rparr>)"
  by (rule ok_cong) (simp_all add: mmu_ii_ok_def c8_ok_def)

lemma page_write_ok: "mmu_ii_ok m \<Longrightarrow> mmu_ii_ok (page_write H ea v m)"
  by (auto simp: page_write_def Let_def write_keeps store_ok split: option.split)

lemma motor_ok: "mmu_ii_ok m \<Longrightarrow> mmu_ii_ok (c0xx_motor_touch H sub m)"
proof -
  assume ok: "mmu_ii_ok m"
  then have "mmu_ii_ok (m\<lparr>gs_motors_active := x\<rparr>)" for x
    by (rule ok_cong) (use ok in \<open>simp_all add: mmu_ii_ok_def c8_ok_def\<close>)
  with ok motor_keeps show ?thesis by (simp add: c0xx_motor_touch_def Let_def split: mmu_class.split)
qed

lemma c0xx_read_one_ok:
  "mmu_ii_ok (snd (snd s)) \<Longrightarrow> mmu_ii_ok (snd (snd (c0xx_read_one H gate ea k s)))"
  using read_keeps by (cases s) (auto simp: c0xx_read_one_def Let_def split_beta split: option.split)

lemma c0xx_write_one_ok: "mmu_ii_ok m \<Longrightarrow> mmu_ii_ok (c0xx_write_one H gate ea v k m)"
  using write_keeps by (auto simp: c0xx_write_one_def Let_def split_beta split: option.split)

lemma c0xx_ok: "mmu_ii_ok m \<Longrightarrow> mmu_ii_ok (snd (c0xx_read H ea m))"
  "mmu_ii_ok m \<Longrightarrow> mmu_ii_ok (c0xx_write H ea v m)"
  by (simp_all add: c0xx_read_def c0xx_write_def Let_def split_beta c0xx_read_one_ok c0xx_write_one_ok motor_ok)

lemma read_ok: "mmu_ii_ok m \<Longrightarrow> mmu_ii_ok (snd (MMU_II_read H a m))"
  by (simp add: MMU_II_read_def Let_def split_beta c0xx_ok page_read_ok slot_access_ok set_default_ok)

lemma write_ok: "mmu_ii_ok m \<Longrightarrow> mmu_ii_ok (MMU_II_write H a v m)"
  by (simp add: MMU_II_write_def Let_def c0xx_ok page_write_ok slot_access_ok set_default_ok)

lemma call_C8xx_fields:
  "C8xx_handlers (call_C8xx_handler H slot m) = C8xx_handlers m"
  "c8_flipflops (call_C8xx_handler H slot m) = c8_flipflops m"
  "c8_contention (call_C8xx_handler H slot m) = c8_contention m"
  using c8_keeps [of m _ slot] by (simp_all add: call_C8xx_handler_def Let_def c8_frame_def split: option.split)

lemma c8_select_effect:
  assumes "1 \<le> slot" and "slot \<le> 7" and "C8xx_handlers m slot \<noteq> None"
  shows "C8xx_handlers (c8_select H slot m) = C8xx_handlers m"
    and "c8_flipflops (c8_select H slot m) = c8_flipflops m OR push_bit slot 1"
    and "c8_contention (c8_select H slot m) = c8_contention m +
      (if c8_flipflops m AND NOT (push_bit slot 1) \<noteq> 0 \<and> c8_flipflops m AND push_bit slot 1 = 0 then 1 else 0)"
  using assms by (auto simp: c8_select_def Let_def call_C8xx_fields)

lemma c8_select_run:
  assumes "c8_flipflops m = 0"
  defines "run \<equiv> \<lambda>slots. fold (c8_select H) slots m"
  shows "C8xx_handlers (run slots) = C8xx_handlers m \<and> (\<forall>n. bit (c8_flipflops (run slots)) n \<longleftrightarrow> n \<in> claimed m slots) \<and>
     c8_contention (run slots) = c8_contention m + of_nat (card (claimed m slots) - 1)"
proof (induction slots rule: rev_induct)
  case Nil
  then show ?case using assms by (simp add: claimed_def)
next
  case (snoc slot slots)
  let ?m = "run slots"
  have fin: "finite (claimed m slots)" by (simp add: claimed_def)
  show ?case
  proof (cases "1 \<le> slot \<and> slot \<le> 7 \<and> C8xx_handlers m slot \<noteq> None")
    case False
    then have "claimed m (slots @ [slot]) = claimed m slots" by (auto simp: claimed_def)
    moreover have "c8_select H slot ?m = ?m" using False snoc by (auto simp: c8_select_def run_def)
    ultimately show ?thesis using snoc by (simp add: run_def)
  next
    case True
    then have cl: "claimed m (slots @ [slot]) = insert slot (claimed m slots)" by (auto simp: claimed_def)
    have b: "bit (push_bit slot 1 :: u8) n \<longleftrightarrow> n = slot" for n using True by (auto simp: bit_simps)
    have here: "c8_flipflops ?m AND push_bit slot 1 = 0 \<longleftrightarrow> slot \<notin> claimed m slots"
      unfolding and_push_bit using snoc by simp
    have others: "c8_flipflops ?m AND NOT (push_bit slot 1) \<noteq> 0 \<longleftrightarrow> claimed m slots - {slot} \<noteq> {}"
      unfolding and_not_push_bit using snoc by auto
    have h: "C8xx_handlers ?m slot \<noteq> None" using True snoc by simp
    have sel: "C8xx_handlers (run (slots @ [slot])) = C8xx_handlers ?m"
      "c8_flipflops (run (slots @ [slot])) = c8_flipflops ?m OR push_bit slot 1"
      "c8_contention (run (slots @ [slot])) = c8_contention ?m +
         (if claimed m slots - {slot} \<noteq> {} \<and> slot \<notin> claimed m slots then 1 else 0)"
      using c8_select_effect [of slot ?m] True h unfolding here others by (simp_all add: run_def)
    have "bit (c8_flipflops (run (slots @ [slot]))) n \<longleftrightarrow> n \<in> claimed m (slots @ [slot])" for n
      unfolding sel(2) bit_or_iff b cl using snoc by auto
    moreover have "c8_contention (run (slots @ [slot])) = c8_contention m + of_nat (card (claimed m (slots @ [slot])) - 1)"
      unfolding sel(3) cl card_insert_pred [OF fin] using snoc by simp
    ultimately show ?thesis using sel(1) snoc by simp
  qed
qed

end

end
