(* ===== verification/Slot_Cards.thy ===== *)
theory Slot_Cards
  imports Mmu_II
begin

text \<open>
  The slots of the II family with the cards that are modelled: the language card, the switches of the
  IIe and the expansion ROMs.  Their handlers satisfy the laws of \<^theory_text>\<open>card_handlers\<close>, so the
  invariant of the MMU holds on every run of the bus; the rest of the theory shows what the CPU sees
  of the expansion ROM, of the slot decode and of a new MMU.
\<close>

section \<open>The modelled cards\<close>

text \<open>
  The handlers of the repository that are modelled, as one table: bus handler 0 is the language card
  of the II Plus, whose flip-flops are then the device state, bus handler 1 the switches of the IIe;
  \<open>$C800\<close> handlers 0 to 4 are the five cards above.  Videx uses the bus handlers 2 and 3 for its screen
  memory, which is not modelled here; other numbers are not registered and leave the MMU alone.
\<close>

record card_roms =
  lc_ram :: nat
  lc_rom :: nat
  ssc_rom :: "nat option"
  thunderclock_rom :: "nat option"
  memexp_rom :: nat
  pdblock3_rom :: nat
  videx_rom :: nat

definition lc_bus_read :: "nat \<Rightarrow> nat \<Rightarrow> u32 \<Rightarrow> lc_logic mmu_ii \<Rightarrow> u8 \<times> lc_logic mmu_ii" where
  "lc_bus_read ram rom a m =
     (case languagecard_read_C0xx ram rom a (devices (base m), base m) of
        Inr (v, ll, b) \<Rightarrow> (v, m\<lparr>base := b\<lparr>devices := ll\<rparr>\<rparr>)
      | Inl _ \<Rightarrow> (0, m))"

definition lc_bus_write :: "nat \<Rightarrow> nat \<Rightarrow> u32 \<Rightarrow> u8 \<Rightarrow> lc_logic mmu_ii \<Rightarrow> lc_logic mmu_ii" where
  "lc_bus_write ram rom a v m =
     (case languagecard_write_C0xx ram rom a v (devices (base m), base m) of
        Inr (ll, b) \<Rightarrow> m\<lparr>base := b\<lparr>devices := ll\<rparr>\<rparr>
      | Inl _ \<Rightarrow> m)"

definition slot_cards :: "card_roms \<Rightarrow> lc_logic ii_handlers" where
  "slot_cards R =
     \<lparr>ii_read = (\<lambda>h a m. if h = 0 then lc_bus_read (lc_ram R) (lc_rom R) a m else (0, m)),
      ii_write = (\<lambda>h a v m. if h = 0 then lc_bus_write (lc_ram R) (lc_rom R) a v m
                          else if h = 1 then iie_mmu_handle_C00X_write a v m else m),
      ii_c8 = (\<lambda>h slot m.
         if h = 0 then map_rom_ssc (ssc_rom R) m else if h = 1 then map_rom_thunderclock (thunderclock_rom R) m
         else if h = 2 then map_rom_memexp (memexp_rom R) m else if h = 3 then map_rom_pdblock3 (pdblock3_rom R) m
         else if h = 4 then map_rom_videx (videx_rom R) 2 3 m else m),
      ii_en35 = (\<lambda>m. False),
      ii_motor = (\<lambda>m. m)\<rparr>"

lemma base_ok:
  assumes "mmu_ii_ok m" and "num_pages b = 256" and "\<And>q. 0xC1 \<le> q \<Longrightarrow> q \<le> 0xCF \<Longrightarrow> pte b q = pte (base m) q"
  shows "mmu_ii_ok (m\<lparr>base := b\<rparr>)"
proof -
  have "c1cf_entry (m\<lparr>base := b\<rparr>) i = c1cf_entry m i" for i by (rule c1cf_entry_cong) simp_all
  then show ?thesis using assms by (simp add: mmu_ii_ok_def geometry_def composed_iff c8_ok_def)
qed

lemma pte_devices [simp]: "pte (b\<lparr>devices := x\<rparr>) q = pte b q" "num_pages (b\<lparr>devices := x\<rparr>) = num_pages b"
  by (simp_all add: pte_def num_pages_def)

lemma lc_bus_ok:
  assumes "mmu_ii_ok m"
  shows "mmu_ii_ok (snd (lc_bus_read ram rom a m))" and "mmu_ii_ok (lc_bus_write ram rom a v m)"
proof -
  have N: "num_pages (base m) = 256" using assms by (simp add: mmu_ii_ok_def geometry_def)
  have e: "set_memory_pages_based_on_flags ram rom ll (base m) = Inr (remap (lc_entry ram rom ll) (base m))" for ll
    by (rule does_remapD [OF set_memory_pages_remap N])
  have "mmu_ii_ok (m\<lparr>base := (remap (lc_entry ram rom ll) (base m))\<lparr>devices := x\<rparr>\<rparr>)" for ll x
    by (rule base_ok [OF assms]) (use N in \<open>simp_all add: lc_entry_def\<close>)
  then show "mmu_ii_ok (snd (lc_bus_read ram rom a m))" "mmu_ii_ok (lc_bus_write ram rom a v m)"
    by (simp_all add: lc_bus_read_def lc_bus_write_def languagecard_read_C0xx_def languagecard_write_C0xx_def Let_def e)
qed

lemma iie_switch_ok:
  assumes "mmu_ii_ok m"
  shows "mmu_ii_ok (iie_mmu_handle_C00X_write a v m)"
proof -
  have "mmu_ii_ok (compose_c1cf (m\<lparr>f_intcxrom := x\<rparr>))" "mmu_ii_ok (compose_c1cf (m\<lparr>f_slotc3rom := x\<rparr>))" for x
    using assms by (intro slot_compose_ok; simp add: mmu_ii_ok_def geometry_def c8_ok_def)+
  with assms show ?thesis by (simp add: iie_mmu_handle_C00X_write_def)
qed

interpretation cards: card_handlers "slot_cards R" for R
  by unfold_locales (simp_all add: slot_cards_def lc_bus_ok iie_switch_ok c8_frame_cards)

section \<open>Reset\<close>

definition init_entry :: "'d mmu_ii \<Rightarrow> nat \<Rightarrow> page_table_entry \<Rightarrow> page_table_entry" where
  "init_entry m p e =
     (if p < 192 then e\<lparr>read_p := Some (main_ram m + p * 256), write_p := Some (main_ram m + p * 256),
        read_h := None, write_h := None, read_d := Some ''MAIN_RAM'', write_d := Some ''MAIN_RAM''\<rparr>
      else case main_rom_D0 m of
        None \<Rightarrow> e
      | Some r \<Rightarrow> if 0xD0 \<le> p \<and> p < 0x100 then
            e\<lparr>read_p := Some (r + (case dyn_class m of Class_II \<Rightarrow> 0 | Class_IIe \<Rightarrow> 0x1000) + (p - 0xD0) * 256),
              write_p := None, read_d := Some ''SYS_ROM'', write_d := None\<rparr>
          else e)"

lemma ii_init_remap:
  assumes "num_pages (base m) = 256"
  shows "init_map m = Inr (m\<lparr>base := remap (init_entry m) (base m)\<rparr>)"
proof -
  have ram: "does_remap 256 (for_each [0 ..< 192] (\<lambda>i. map_page_both i (Some (main_ram m + i * 256)) (Some ''MAIN_RAM'')))
     (\<lambda>p e. if 0 \<le> p \<and> p < 192 then e\<lparr>read_p := Some (main_ram m + p * 256), write_p := Some (main_ram m + p * 256),
        read_h := None, write_h := None, read_d := Some ''MAIN_RAM'', write_d := Some ''MAIN_RAM''\<rparr> else e)"
    by (rule does_for_range, rule page_map, linarith)
  have rom: "does_remap 256 (for_each [0 ..< 48] (\<lambda>i. map_page_read_only (i + 0xD0) (Some (k + i * 256)) (Some ''SYS_ROM'')))
     (\<lambda>p e. if 0xD0 \<le> p \<and> p < 0xD0 + 48 then e\<lparr>read_p := Some (k + (p - 0xD0) * 256), write_p := None,
        read_d := Some ''SYS_ROM'', write_d := None\<rparr> else e)" for k
    by (rule does_for_offset, rule page_map, linarith)
  show ?thesis
  proof (cases "main_rom_D0 m")
    case None
    show ?thesis
      unfolding init_map_def Let_def None option.case does_remapD [OF does_then [OF ram does_skip] assms]
      by (simp, rule arg_cong [where f = "\<lambda>b. m\<lparr>base := b\<rparr>"], rule remap_cong) (simp add: init_entry_def None)
  next
    case (Some r)
    show ?thesis
      unfolding init_map_def Let_def Some option.case does_remapD [OF does_then [OF ram rom] assms]
      by (simp, rule arg_cong [where f = "\<lambda>b. m\<lparr>base := b\<rparr>"], rule remap_cong)
         (simp add: init_entry_def Some split: mmu_class.split)
  qed
qed

lemma MMU_II_reset_ok:
  assumes "mmu_ii_ok m"
  shows "\<exists>m'. MMU_II_reset m = Inr m' \<and> mmu_ii_ok m' \<and> C8xx_slot m' = -1 \<and> c8_flipflops m' = 0"
proof -
  let ?m = "set_default_C8xx_map_II m"
  have ok: "mmu_ii_ok ?m" using assms by (intro set_default_II_ok) (simp add: mmu_ii_ok_def)
  then have N: "num_pages (base ?m) = 256" by (simp add: mmu_ii_ok_def geometry_def)
  have "mmu_ii_ok (?m\<lparr>base := remap (init_entry ?m) (base ?m)\<rparr>)"
    by (rule base_ok [OF ok]) (use N in \<open>auto simp: init_entry_def split: option.split\<close>)
  moreover have "c8_frame (m\<lparr>C8xx_slot := -1, c8_flipflops := 0\<rparr>) ?m"
    unfolding set_default_C8xx_map_II_def
    by (rule c8_frame_trans [OF c8_frame_fold [OF c8_frame_map_c1cf(1)] c8_frame_compose])
  ultimately show ?thesis
    using ii_init_remap [OF N] by (simp add: MMU_II_reset_def c8_frame_def)
qed

lemma MMU_IIe_reset_ok:
  assumes "mmu_ii_ok m"
  shows "\<exists>m'. MMU_IIe_reset m = Inr m' \<and> mmu_ii_ok m'"
proof -
  obtain m' where m': "MMU_II_reset m = Inr m'" "mmu_ii_ok m'" using MMU_II_reset_ok [OF assms] by blast
  then have "mmu_ii_ok (compose_c1cf (m'\<lparr>f_intcxrom := False, f_slotc3rom := False\<rparr>))"
    by (intro slot_compose_ok) (simp_all add: mmu_ii_ok_def geometry_def c8_ok_def)
  with m' show ?thesis by (simp add: MMU_IIe_reset_def)
qed

section \<open>Any run of the bus\<close>

datatype ii_access = II_Read u32 | II_Write u32 u8 | II_Slot_Register u8 | II_Reset

fun ii_do :: "'d ii_handlers \<Rightarrow> ii_access \<Rightarrow> 'd mmu_ii \<Rightarrow> mmu_error + 'd mmu_ii" where
  "ii_do H (II_Read a) m = Inr (snd (MMU_II_read H a m))"
| "ii_do H (II_Write a v) m = Inr (MMU_II_write H a v m)"
| "ii_do H (II_Slot_Register v) m = Inr (set_slot_register v m)"
| "ii_do H II_Reset m = (case dyn_class m of Class_II \<Rightarrow> MMU_II_reset m | Class_IIe \<Rightarrow> MMU_IIe_reset m)"

fun ii_run :: "'d ii_handlers \<Rightarrow> ii_access list \<Rightarrow> 'd mmu_ii \<Rightarrow> mmu_error + 'd mmu_ii" where
  "ii_run H [] m = Inr m"
| "ii_run H (x # xs) m = (case ii_do H x m of Inl err \<Rightarrow> Inl err | Inr m' \<Rightarrow> ii_run H xs m')"

lemma set_slot_register_ok: "mmu_ii_ok m \<Longrightarrow> mmu_ii_ok (set_slot_register v m)"
  unfolding set_slot_register_def by (intro slot_compose_ok) (simp_all add: mmu_ii_ok_def geometry_def c8_ok_def)

lemma ii_do_ok:
  assumes "mmu_ii_ok m"
  shows "\<exists>m'. ii_do (slot_cards R) x m = Inr m' \<and> mmu_ii_ok m'"
  using assms MMU_II_reset_ok [OF assms] MMU_IIe_reset_ok [OF assms]
  by (cases x) (auto simp: cards.read_ok cards.write_ok set_slot_register_ok split: mmu_class.split)

lemma ii_run_ok:
  "mmu_ii_ok m \<Longrightarrow> \<exists>m'. ii_run (slot_cards R) xs m = Inr m' \<and> mmu_ii_ok m'"
proof (induction xs arbitrary: m)
  case (Cons x xs)
  then show ?case using ii_do_ok [of m R x] by fastforce
qed simp


section \<open>Slot accesses\<close>

lemma geometry_nth:
  assumes "geometry m"
  shows "num_pages (base m) = 256" "i < 15 \<Longrightarrow> i < length (slot_rom_ptable m)"
  using assms by (simp_all add: geometry_def)

lemma upd_slot_rom_nth:
  assumes "geometry m" and "i < 15"
  shows "slot_rom_ptable (upd_slot_rom page f m) ! i =
     (if page = 0xC1 + i then f (slot_rom_ptable m ! i) else slot_rom_ptable m ! i)"
  using assms by (auto simp: upd_slot_rom_def geometry_def nth_list_update)

lemma slot_rom_fold:
  assumes "geometry m"
  shows "i < 15 \<Longrightarrow> slot_rom_ptable (fold (\<lambda>page. upd_slot_rom (page + 0xC8) (f page)) [0 ..< n] m) ! i =
     (if 7 \<le> i \<and> i < 7 + n then f (i - 7) (slot_rom_ptable m ! i) else slot_rom_ptable m ! i)"
proof (induction n)
  case 0
  then show ?case by auto
next
  case (Suc n)
  have "geometry (fold (\<lambda>page. upd_slot_rom (page + 0xC8) (f page)) [0 ..< n] m)"
    using c8_frame_fold [where f = "\<lambda>page. upd_slot_rom (page + 0xC8) (f page)"] assms c8_frame_slot_rom
    unfolding c8_frame_def by blast
  then show ?case
    using Suc by (auto simp: upd_slot_rom_nth)
qed

definition slot_rom_visible :: "'d mmu_ii \<Rightarrow> bool" where
  "slot_rom_visible m \<longleftrightarrow> dyn_class m = Class_II \<or> \<not> f_intcxrom m"

lemma compose_c8_page:
  assumes "geometry m" and "slot_rom_visible m" and "0xC8 \<le> p" and "p \<le> 0xCF"
  shows "pte (base (compose_c1cf m)) p = slot_rom_ptable m ! (p - 0xC1)"
proof -
  have p: "0xC1 + (p - 0xC1) = p" "p - 0xC1 < 15" "7 \<le> p - 0xC1" using assms(3,4) by simp_all
  have "pte (base (compose_c1cf m)) (0xC1 + (p - 0xC1)) = c1cf_entry (compose_c1cf m) (p - 0xC1)"
    using compose_composed [OF assms(1)] p(2) unfolding composed_iff by blast
  then show ?thesis
    unfolding p(1) using assms(2) p(3) by (auto simp: c1cf_entry_def slot_rom_visible_def split: mmu_class.split)
qed

lemma upd_slot_rom_visible: "slot_rom_visible (upd_slot_rom page f m) = slot_rom_visible m"
  by (simp add: upd_slot_rom_def slot_rom_visible_def)

lemma c8_pages:
  assumes "geometry m" and "slot_rom_visible m" and "0xC8 \<le> p" and "p \<le> 0xCF"
  shows "pte (base (compose_c1cf (fold (\<lambda>page. upd_slot_rom (page + 0xC8) (f page)) [0 ..< 8] m))) p =
     f (p - 0xC8) (slot_rom_ptable m ! (p - 0xC1))"
proof -
  let ?m = "fold (\<lambda>page. upd_slot_rom (page + 0xC8) (f page)) [0 ..< 8] m"
  have fr: "c8_frame m ?m" by (rule c8_frame_fold) (rule c8_frame_slot_rom)
  have vis: "slot_rom_visible (fold (\<lambda>page. upd_slot_rom (page + 0xC8) (f page)) ps m)" for ps
    using assms(2) by (induction ps arbitrary: m) (simp_all add: upd_slot_rom_visible)
  have p: "p - 0xC1 < 15" "p - 0xC1 - 7 = p - 0xC8" "7 \<le> p - 0xC1" "p - 0xC1 < 7 + 8" using assms(3,4) by simp_all
  have "pte (base (compose_c1cf ?m)) p = slot_rom_ptable ?m ! (p - 0xC1)"
    using fr assms vis by (intro compose_c8_page) (simp_all add: c8_frame_def)
  also have "\<dots> = f (p - 0xC8) (slot_rom_ptable m ! (p - 0xC1))"
    unfolding slot_rom_fold [OF assms(1) p(1)] using p by simp
  finally show ?thesis .
qed

lemma released_pages:
  assumes "geometry m" and "slot_rom_visible m" and "0xC8 \<le> p" and "p \<le> 0xCF"
  shows "read_p (pte (base (set_default_C8xx_map_II m)) p) = None"
    and "read_h (pte (base (set_default_C8xx_map_II m)) p) = None"
proof -
  let ?z = "m\<lparr>C8xx_slot := -1, c8_flipflops := 0\<rparr>"
  have "geometry ?z" "slot_rom_visible ?z" using assms by (simp_all add: geometry_def slot_rom_visible_def)
  note c = c8_pages [OF this assms(3,4)]
  show "read_p (pte (base (set_default_C8xx_map_II m)) p) = None"
    "read_h (pte (base (set_default_C8xx_map_II m)) p) = None"
    unfolding set_default_C8xx_map_II_def map_c1cf_page_both_def c by simp_all
qed

lemma released_fields:
  "C8xx_slot (set_default_C8xx_map_II m) = -1" "c8_flipflops (set_default_C8xx_map_II m) = 0"
  "geometry m \<Longrightarrow> geometry (set_default_C8xx_map_II m)"
proof -
  have fr: "c8_frame (m\<lparr>C8xx_slot := -1, c8_flipflops := 0\<rparr>) (set_default_C8xx_map_II m)"
    unfolding set_default_C8xx_map_II_def
    by (rule c8_frame_trans [OF c8_frame_fold [OF c8_frame_map_c1cf(1)] c8_frame_compose])
  then show "C8xx_slot (set_default_C8xx_map_II m) = -1" "c8_flipflops (set_default_C8xx_map_II m) = 0"
    "geometry m \<Longrightarrow> geometry (set_default_C8xx_map_II m)"
    by (simp_all add: c8_frame_def geometry_def)
qed

lemma map_rom_pages:
  assumes "geometry m" and "slot_rom_visible m" and "0xC8 \<le> p" and "p \<le> 0xCF"
  shows "read_p (pte (base (compose_c1cf (map_rom r d m))) p) = Some (r + (p - 0xC8) * 0x100)"
  unfolding map_rom_def map_c1cf_page_read_only_def c8_pages [OF assms] by simp

lemma bus_page: "unat a < 0x10000 \<Longrightarrow> take_bit 16 a = a" for a :: u32
  by (rule word_unat_eq_iff [THEN iffD2]) (simp only: unsigned_take_bit_eq, simp add: take_bit_nat_eq_self)

lemma compose_owner: "compose_c1cf (m\<lparr>C8xx_slot := s\<rparr>) = (compose_c1cf m)\<lparr>C8xx_slot := s\<rparr>"
proof -
  have "c1cf_entry (m\<lparr>C8xx_slot := s\<rparr>) = c1cf_entry m" by (rule ext, rule c1cf_entry_cong) simp_all
  moreover have c: "set_pte p e (m\<lparr>C8xx_slot := s\<rparr>) = (set_pte p e m)\<lparr>C8xx_slot := s\<rparr>" for p e and m :: "'a mmu_ii"
    by (simp add: set_pte_def)
  have "fold (\<lambda>i. set_pte (k + i) (f i)) is (m\<lparr>C8xx_slot := s\<rparr>) =
      (fold (\<lambda>i. set_pte (k + i) (f i)) is m)\<lparr>C8xx_slot := s\<rparr>" for k f "is"
    by (induction "is" arbitrary: m) (simp_all add: c)
  ultimately show ?thesis by (simp add: compose_c1cf_def)
qed

lemma slot_rom_field:
  "(\<And>page g m. F (upd_slot_rom page g m) = F m) \<Longrightarrow>
   F (fold (\<lambda>page. upd_slot_rom (page + k) (f page)) ps m) = F m"
  by (induction ps arbitrary: m) simp_all

lemma upd_slot_rom_fields:
  "base (upd_slot_rom page g m) = base m" "dyn_class (upd_slot_rom page g m) = dyn_class m"
  "int_rom_ptable (upd_slot_rom page g m) = int_rom_ptable m" "f_intcxrom (upd_slot_rom page g m) = f_intcxrom m"
  "f_slotc3rom (upd_slot_rom page g m) = f_slotc3rom m" "reg_slot (upd_slot_rom page g m) = reg_slot m"
  by (simp_all add: upd_slot_rom_def)

lemma map_rom_other:
  "base (map_rom r d m) = base m" "dyn_class (map_rom r d m) = dyn_class m"
  "int_rom_ptable (map_rom r d m) = int_rom_ptable m" "f_intcxrom (map_rom r d m) = f_intcxrom m"
  "f_slotc3rom (map_rom r d m) = f_slotc3rom m" "reg_slot (map_rom r d m) = reg_slot m"
  unfolding map_rom_def map_c1cf_page_read_only_def
  by (simp_all only: slot_rom_field [where F = base] slot_rom_field [where F = dyn_class]
      slot_rom_field [where F = int_rom_ptable] slot_rom_field [where F = f_intcxrom]
      slot_rom_field [where F = f_slotc3rom] slot_rom_field [where F = reg_slot] upd_slot_rom_fields)

lemma map_rom_slot_pages:
  assumes "geometry m" and "i < 7"
  shows "c1cf_entry (map_rom r d m) i = c1cf_entry m i"
proof -
  have s: "slot_rom_ptable (map_rom r d m) ! i = slot_rom_ptable m ! i"
    using slot_rom_fold [OF assms(1), of i] assms(2) unfolding map_rom_def map_c1cf_page_read_only_def by simp
  show ?thesis unfolding c1cf_entry_def map_rom_other s
    using assms(2) slot_rom_fold [OF assms(1), of 2] unfolding map_rom_def map_c1cf_page_read_only_def
    by (simp split: mmu_class.split)
qed

lemma ssc_claim:
  assumes "mmu_ii_ok m" and "slot_rom_visible m" and "1 \<le> n" and "n \<le> 7"
    and "C8xx_handlers m n = Some 0" and "C8xx_slot m \<noteq> int n" and "ssc_rom R = Some r"
  shows "C8xx_slot (c8_select (slot_cards R) n m) = int n"
    and "bit (c8_flipflops (c8_select (slot_cards R) n m)) n"
    and "0xC8 \<le> p \<Longrightarrow> p \<le> 0xCF \<Longrightarrow>
      read_p (pte (base (c8_select (slot_cards R) n m)) p) = Some (r + (p - 0xC8) * 0x100)"
    and "i < 7 \<Longrightarrow> pte (base (c8_select (slot_cards R) n m)) (0xC1 + i) = pte (base m) (0xC1 + i)"
    and "num_pages (base (c8_select (slot_cards R) n m)) = 256"
    and "host (base (c8_select (slot_cards R) n m)) = host (base m)"
proof -
  let ?m1 = "if c8_flipflops m AND NOT (push_bit n 1) \<noteq> 0 \<and> c8_flipflops m AND push_bit n 1 = 0
     then m\<lparr>c8_contention := c8_contention m + 1, c8_contention_last := c8_flipflops m OR push_bit n 1\<rparr> else m"
  define m2 where "m2 = ?m1\<lparr>c8_flipflops := c8_flipflops ?m1 OR push_bit n 1\<rparr>"
  have same: "base m2 = base m" "geometry m2 = geometry m" "slot_rom_visible m2 = slot_rom_visible m"
    "C8xx_handlers m2 = C8xx_handlers m" "C8xx_slot m2 = C8xx_slot m"
    by (simp_all add: m2_def geometry_def slot_rom_visible_def)
  have entry: "c1cf_entry m2 j = c1cf_entry m j" for j by (rule c1cf_entry_cong) (simp_all add: m2_def)
  have "c8_select (slot_cards R) n m = call_C8xx_handler (slot_cards R) n m2"
    unfolding c8_select_def Let_def m2_def [symmetric] using assms(3-6) same by simp
  also have "\<dots> = (compose_c1cf (map_rom r ''SSC_ROM'' m2))\<lparr>C8xx_slot := int n\<rparr>"
    using assms(5,7) same by (simp add: call_C8xx_handler_def Let_def slot_cards_def map_rom_ssc_def compose_owner)
  finally have e: "c8_select (slot_cards R) n m = (compose_c1cf (map_rom r ''SSC_ROM'' m2))\<lparr>C8xx_slot := int n\<rparr>" .
  have g: "geometry m2" "slot_rom_visible m2" using assms(1,2) same by (simp_all add: mmu_ii_ok_def)
  show "C8xx_slot (c8_select (slot_cards R) n m) = int n" by (simp add: e)
  have "bit (push_bit n 1 :: u8) n" using assms(4) by (simp add: bit_simps)
  then show "bit (c8_flipflops (c8_select (slot_cards R) n m)) n"
    using cards.c8_select_effect(2) [OF assms(3,4), of m R] assms(5) by (simp add: bit_or_iff)
  show "read_p (pte (base (c8_select (slot_cards R) n m)) p) = Some (r + (p - 0xC8) * 0x100)"
    if "0xC8 \<le> p" "p \<le> 0xCF" using map_rom_pages [OF g that] by (simp add: e)
  have g': "geometry (map_rom r ''SSC_ROM'' m2)" using c8_frame_map_rom [of m2] g(1) by (simp add: c8_frame_def)
  show "pte (base (c8_select (slot_cards R) n m)) (0xC1 + i) = pte (base m) (0xC1 + i)" if "i < 7"
  proof -
    have "pte (base (c8_select (slot_cards R) n m)) (0xC1 + i) = c1cf_entry (compose_c1cf (map_rom r ''SSC_ROM'' m2)) i"
      using compose_composed [OF g'] that by (simp add: e composed_iff)
    also have "\<dots> = c1cf_entry (map_rom r ''SSC_ROM'' m2) i" by (rule c1cf_entry_cong) simp_all
    also have "\<dots> = c1cf_entry m i" using map_rom_slot_pages [OF g(1) that] entry by simp
    also have "\<dots> = pte (base m) (0xC1 + i)" using assms(1) that by (simp add: mmu_ii_ok_def composed_iff)
    finally show ?thesis .
  qed
  show "num_pages (base (c8_select (slot_cards R) n m)) = 256" using g' by (simp add: e geometry_def)
  show "host (base (c8_select (slot_cards R) n m)) = host (base m)" by (simp add: e map_rom_other same)
qed

lemma expansion_read:
  assumes "num_pages (base m) = 256" and "0xC800 \<le> unat a" and "unat a < 0xCFFF"
  shows "MMU_II_read H a m = page_read H a m"
proof -
  have "0xC8 \<le> unat a div 256" "unat a div 256 \<le> 0xCF" "a \<noteq> 0xCFFF" using assms(2,3) by auto
  then show ?thesis using assms by (simp add: MMU_II_read_def Let_def bus_page)
qed

text \<open>
  C27.  The slot ROM area of the II, II Plus and IIe stays what its switches prescribe.  From a state in
  which it is, any sequence of bus reads and writes at any addresses, of slot register settings and
  of resets, with the modelled cards, runs without a failed assertion and ends in such a state: the
  tables keep their sizes; each of the pages \<open>$C1\<close> to \<open>$CF\<close> shows the internal ROM exactly when the machine is a
  IIe and INTCXROM is on, or it is slot 3's page and SLOTC3ROM is off, or it is another slot's page and its bit of the
  slot register is clear, and what the cards have mapped otherwise; and a card owns \<open>$C800\<close> only while its flip-flop
  is set.
\<close>

theorem bus_keeps_slot_rom_map:
  assumes "mmu_ii_ok m"
  shows "\<exists>m'. ii_run (slot_cards R) xs m = Inr m' \<and> mmu_ii_ok m'"
  using assms by (rule ii_run_ok)

text \<open>
  The expansion ROM of a card appears when the card is selected: a read of a slot's page
  \<open>$Cn00\<close> that selects a Super Serial Card puts its 2K image at \<open>$C800\<close> to \<open>$CFFE\<close>, makes the slot
  the owner and sets its flip-flop, whatever was mapped there before.
\<close>

lemma expansion_rom_appears:
  assumes "mmu_ii_ok m" and "1 \<le> n" and "n \<le> 7" and "slot_card_selected m n"
    and "C8xx_handlers m n = Some 0" and "C8xx_slot m \<noteq> int n" and "ssc_rom R = Some r"
    and "unat x div 256 = 0xC0 + n" and "read_p (pte (base m) (0xC0 + n)) \<noteq> None"
    and "0xC800 \<le> unat a" and "unat a < 0xCFFF"
  shows "\<exists>v m1. MMU_II_read (slot_cards R) x m = (v, m1) \<and> C8xx_slot m1 = int n \<and> bit (c8_flipflops m1) n \<and>
     MMU_II_read (slot_cards R) a m1 = (host (base m) (r + (unat a - 0xC800)), m1)"
proof -
  let ?H = "slot_cards R" and ?m = "c8_select (slot_cards R) n m"
  have vis: "slot_rom_visible m" using assms(4) by (auto simp: slot_card_selected_def slot_rom_visible_def split: mmu_class.splits if_splits)
  have N: "num_pages (base m) = 256" using assms(1) by (simp add: mmu_ii_ok_def geometry_def)
  note claim = ssc_claim [OF assms(1) vis assms(2,3,5,6,7)]
  have x: "unat x < 0x10000" "(0xC0 + n) mod 8 = n" using assms(3,8) by (auto simp: mod_add_left_eq [symmetric])
  obtain b where b: "read_p (pte (base m) (0xC0 + n)) = Some b" using assms(9) by auto
  have "MMU_II_read ?H x m = page_read ?H x (slot_access ?H n m)"
    using assms(2,3,8) N x by (simp add: MMU_II_read_def Let_def bus_page)
  also have "\<dots> = (host (base m) (b + unat x mod 256), ?m)"
    using assms(2,3,4,8) claim(4) [of "n - 1"] b claim(6) by (simp add: slot_access_def page_read_def Let_def)
  finally have rd: "MMU_II_read ?H x m = (host (base m) (b + unat x mod 256), ?m)" .
  have p: "0xC8 \<le> unat a div 256" "unat a div 256 \<le> 0xCF" "(unat a div 256 - 0xC8) * 0x100 + unat a mod 256 = unat a - 0xC800"
    using assms(10,11) by (auto simp: diff_mult_distrib)
  have "MMU_II_read ?H a ?m = page_read ?H a ?m"
    using assms(10,11) claim(5) by (intro expansion_read) simp_all
  also have "\<dots> = (host (base m) (r + (unat a - 0xC800)), ?m)"
    using claim(3) [OF p(1,2)] claim(6) p(3) by (simp add: page_read_def Let_def add.assoc)
  finally show ?thesis using rd claim(1,2) by blast
qed

text \<open>
  An access to \<open>$CFFF\<close> returns the byte of the card's ROM that is still mapped and then releases
  the expansion area: no owner, no flip-flop set, and \<open>$C800\<close> to \<open>$CFFE\<close> read as floating bus.
\<close>

lemma cfff_releases_expansion_rom:
  assumes "mmu_ii_ok m" and "slot_rom_visible m" and "read_p (pte (base m) 0xCF) = Some b"
    and "0xC800 \<le> unat a" and "unat a < 0xCFFF"
  shows "\<exists>m1. MMU_II_read H 0xCFFF m = (host (base m) (b + 0xFF), m1) \<and> C8xx_slot m1 = -1 \<and>
     c8_flipflops m1 = 0 \<and> MMU_II_read H a m1 = (floating_bus_val (base m1), m1)"
proof -
  have N: "num_pages (base m) = 256" and g: "geometry m" using assms(1) by (simp_all add: mmu_ii_ok_def geometry_def)
  have r: "MMU_II_read H 0xCFFF m = (host (base m) (b + 0xFF), set_default_C8xx_map m)"
    using assms(3) N by (simp add: MMU_II_read_def Let_def bus_page page_read_def)
  have "set_default_C8xx_map m = set_default_C8xx_map_II m"
    using assms(2) by (auto simp: set_default_C8xx_map_def slot_rom_visible_def split: mmu_class.split)
  moreover define m1 where m1: "m1 = set_default_C8xx_map_II m"
  ultimately have e: "set_default_C8xx_map m = m1" by simp
  have p: "0xC8 \<le> unat a div 256" "unat a div 256 \<le> 0xCF" using assms(4,5) by auto
  have "num_pages (base m1) = 256" using released_fields(3) [OF g] by (simp add: m1 geometry_def)
  then have "MMU_II_read H a m1 = page_read H a m1" using assms(4,5) by (rule expansion_read)
  also have "\<dots> = (floating_bus_val (base m1), m1)"
    using released_pages [OF g assms(2) p] by (simp add: page_read_def Let_def m1)
  finally show ?thesis by (simp add: r e) (simp add: m1 released_fields)
qed

text \<open>
  The contention counter is exact.  Starting with every flip-flop clear, after accesses to any
  slots in any order the flip-flops set are those of the accessed cards that have expansion ROM, and
  the counter has grown by the number of such cards beyond the first.
\<close>

lemma contention_counts_claims:
  assumes "c8_flipflops m = 0"
  shows "(\<forall>n. bit (c8_flipflops (fold (c8_select (slot_cards R)) slots m)) n \<longleftrightarrow> n \<in> claimed m slots) \<and>
     c8_contention (fold (c8_select (slot_cards R)) slots m) = c8_contention m + of_nat (card (claimed m slots) - 1)"
  using cards.c8_select_run [OF assms] by blast

text \<open>
  The page a slot access shows and the card it selects agree.  On a machine of the IIe class,
  with the IIgs slot register or with the register at its initial value, page \<open>$Cn\<close> is the card's
  ROM exactly when the access sets the card's flip-flop, and the internal ROM otherwise.
\<close>

lemma slot_decode_agrees:
  assumes "mmu_ii_ok m" and "dyn_class m = Class_IIe" and "1 \<le> n" and "n \<le> 7"
    and "gs_slot_register m \<or> reg_slot m = 0xF6"
  shows "pte (base m) (0xC0 + n) =
     (if slot_card_selected m n then slot_rom_ptable m ! (n - 1) else int_rom_ptable m ! (n - 1))"
proof -
  have r: "reg_slot m AND push_bit n 1 \<noteq> 0 \<longleftrightarrow> bit (reg_slot m) n" by (simp add: bit_iff_and_push_bit_not_eq_0)
  have d: "drop_bit n (reg_slot m) AND 1 \<noteq> 0 \<longleftrightarrow> bit (reg_slot m) n" by (simp add: bit_iff_odd_drop_bit and_one_eq odd_iff_mod_2_eq_one)
  have F6: "n \<noteq> 3 \<Longrightarrow> bit (0xF6 :: u8) n" 
  proof -
    assume "n \<noteq> 3"
    then have "n \<in> {1, 2, 4, 5, 6, 7}" using assms(3,4) by auto
    then show ?thesis by auto
  qed
  have "n - 1 < 15" using assms(4) by simp
  with assms(1) have "pte (base m) (0xC1 + (n - 1)) = c1cf_entry m (n - 1)"
    unfolding mmu_ii_ok_def composed_iff by blast
  moreover have "0xC1 + (n - 1) = 0xC0 + n" "n - 1 + 1 = n" "n - 1 = 2 \<longleftrightarrow> n = 3" "\<not> 7 \<le> n - 1" using assms(3,4) by auto
  ultimately have "pte (base m) (0xC0 + n) = (if f_intcxrom m then int_rom_ptable m ! (n - 1)
      else if n = 3 then (if f_slotc3rom m then slot_rom_ptable m ! 2 else int_rom_ptable m ! 2)
      else if bit (reg_slot m) n then slot_rom_ptable m ! (n - 1) else int_rom_ptable m ! (n - 1))"
    using assms(2) r by (simp add: c1cf_entry_def)
  then show ?thesis
    using assms(2,5) F6 unfolding slot_card_selected_def d by auto
qed

text \<open>
  On a IIgs the slot register decides who answers a slot's I/O addresses: where a built-in
  device and a card are both registered, a read returns what the selected one returns and the other
  is not called.  (The card's handler is taken not to register handlers.)
\<close>

lemma slot_register_gates_io:
  assumes "dyn_class m = Class_IIe" and "gs_slot_register m" and "\<not> gs_motor_hook m"
    and "n \<in> {1, 2, 5, 6, 7}" and "unat a = 0xC080 + 16 * n + k" and "k < 16"
    and "C0xx_read_handlers m (0x80 + 16 * n + k) = (Some slotcard, Some builtin)"
    and "C0xx_read_internal m (0x80 + 16 * n + k) = 2"
    and "C0xx_read_handlers (snd (ii_read H slotcard a m)) = C0xx_read_handlers m"
    and "C0xx_read_internal (snd (ii_read H slotcard a m)) = C0xx_read_internal m"
  shows "c0xx_read H a m = ii_read H (if bit (reg_slot m) n then slotcard else builtin) a m"
proof -
  let ?sub = "0x80 + 16 * n + k"
  have n: "n \<le> 7" "1 \<le> n" "n \<noteq> 3" "n \<noteq> 4" using assms(4) by auto
  have "unat a = ?sub + 256 * 0xC0" "?sub < 256" using assms(5,6) n by simp_all
  then have "unat a mod 256 = ?sub" by (simp only: mod_mult_self2 mod_less)
  moreover have "?sub div 16 - 8 = n" using assms(6) by auto
  ultimately have sub: "unat a mod 256 = ?sub" "?sub div 16 - 8 = n" "\<not> ?sub < 0x90" using n by auto
  have motor: "c0xx_motor_touch H s m = m" for s using assms(3) by (simp add: c0xx_motor_touch_def split: mmu_class.split)
  have bitn: "drop_bit n (reg_slot m) AND 1 = (if bit (reg_slot m) n then 1 else 0)"
    by (simp add: bit_iff_odd_drop_bit and_one_eq mod_2_eq_odd)
  have gate: "c0xx_gate m ?sub = (if bit (reg_slot m) n then 1 else 0)"
    using assms(1,2) n sub(2,3) bitn by (simp add: c0xx_gate_def Let_def)
  have skips: "gate_skips 1 2 0 = False" "gate_skips 0 2 0 = True" "gate_skips 1 2 1 = True" "gate_skips 0 2 1 = False"
    by (simp_all add: gate_skips_def)
  have m0: "(if motor_address ?sub then c0xx_motor_touch H ?sub m else m) = m" by (simp add: motor)
  show ?thesis
    unfolding c0xx_read_def Let_def sub(1) m0 gate
    by (cases "bit (reg_slot m) n")
       (use assms(7-10) in \<open>simp_all add: c0xx_read_one_def Let_def sub(1) split_beta skips [simplified]\<close>)
qed


text \<open>
  The constructor of the II MMU leaves uninitialised entries in the page table: it releases the
  expansion area, which copies the slot ROM table into the page table, before it initialises that
  table.  The pages \<open>$C1\<close> to \<open>$C7\<close> then hold whatever the allocation held, although the slot ROM
  table reads as empty, until something composes the map again.
\<close>

lemma constructor_leaks_uninitialised:
  assumes "length g = 15" and "length gi = 15" and "i < 7"
  shows "\<exists>m. MMU_II_new g gi ram amount rom mem d = Inr m \<and> slot_rom_ptable m = replicate 15 empty_page \<and>
     pte (base m) (0xC1 + i) = g ! i"
proof -
  define z where "z = MMU_II_members g gi ram amount rom mem d"
  have N: "num_pages (base z) = 256" by (simp add: z_def MMU_II_members_def new_MMU_def num_pages_def)
  let ?m = "z\<lparr>base := remap (init_entry z) (base z)\<rparr>"
  have new: "MMU_II_new g gi ram amount rom mem d = Inr ((set_default_C8xx_map_II ?m)\<lparr>slot_rom_ptable := replicate 15 empty_page\<rparr>)"
    unfolding MMU_II_new_def z_def [symmetric] ii_init_remap [OF N] by simp
  let ?z = "?m\<lparr>C8xx_slot := -1, c8_flipflops := 0\<rparr>"
  let ?f = "fold (\<lambda>page. map_c1cf_page_both (page + 0xC8) None (Some ''NONE'')) [0 ..< 8] ?z"
  have "dyn_class ?f = dyn_class ?z"
    unfolding map_c1cf_page_both_def by (rule slot_rom_field) (rule upd_slot_rom_fields)
  then have cls: "dyn_class ?f = Class_II" by (simp add: z_def MMU_II_members_def)
  have gz: "geometry ?z" using assms N by (simp add: z_def MMU_II_members_def geometry_def)
  have "c8_frame ?z ?f" by (rule c8_frame_fold) (rule c8_frame_map_c1cf)
  with gz have gf: "geometry ?f" by (simp add: c8_frame_def)
  have "pte (base (compose_c1cf ?f)) (0xC1 + i) = c1cf_entry (compose_c1cf ?f) i"
    using compose_composed [OF gf] assms(3) by (simp add: composed_iff)
  also have "\<dots> = slot_rom_ptable ?f ! i" by (simp add: c1cf_entry_def cls del: upt_rec_numeral)
  also have "\<dots> = slot_rom_ptable ?z ! i"
    unfolding map_c1cf_page_both_def using slot_rom_fold [OF gz, of i] assms(3) by simp
  finally have "pte (base (set_default_C8xx_map_II ?m)) (0xC1 + i) = g ! i"
    by (simp add: set_default_C8xx_map_II_def z_def MMU_II_members_def del: upt_rec_numeral)
  then show ?thesis unfolding new by simp
qed

section \<open>A small machine\<close>

text \<open>A machine with a Super Serial Card in slot 1 and a memory expansion card in slot 2.\<close>

definition ii_example :: "mmu_class \<Rightarrow> lc_logic mmu_ii" where
  "ii_example c = compose_c1cf
     \<lparr>base = new_MMU 256 8 (\<lambda>_. 7) lc_reset, dyn_class = c, main_ram = 0, main_rom_D0 = None,
      C0xx_read_handlers = (\<lambda>_. (None, None))(0xE5 := (Some 5, Some 6)),
      C0xx_write_handlers = (\<lambda>_. (None, None)),
      C0xx_read_internal = (\<lambda>_. 2), C0xx_write_internal = (\<lambda>_. 0), C8xx_slot = -1,
      C8xx_handlers = (\<lambda>_. None)(1 := Some 0, 2 := Some 2), c8_flipflops = 0, c8_contention = 0,
      c8_contention_last = 0, slot_rom_ptable = replicate 15 (empty_page\<lparr>read_p := Some 0x8000\<rparr>),
      int_rom_ptable = replicate 15 empty_page, reg_slot = 0xF6, f_intcxrom = False,
      f_slotc3rom = False, gs_slot_register = True, gs_motors_active = 0, gs_motor_hook = False\<rparr>"

definition example_roms :: card_roms where
  "example_roms = \<lparr>lc_ram = 0x10000, lc_rom = 0xD000, ssc_rom = Some 0x20000, thunderclock_rom = None,
     memexp_rom = 0x30000, pdblock3_rom = 0x40000, videx_rom = 0x50000\<rparr>"

lemma ii_example_ok: "mmu_ii_ok (ii_example c)"
  unfolding ii_example_def
  by (rule slot_compose_ok) (simp_all add: geometry_def c8_ok_def num_pages_def new_MMU_def)

lemma ii_example_fields [simp]:
  "dyn_class (ii_example c) = c" "C8xx_slot (ii_example c) = -1" "C8xx_handlers (ii_example c) 1 = Some 0"
  "C8xx_handlers (ii_example c) = (\<lambda>_. None)(1 := Some 0, 2 := Some 2)"
  "c8_flipflops (ii_example c) = 0" "c8_contention (ii_example c) = 0" "f_intcxrom (ii_example c) = False"
  "host (base (ii_example c)) x = 7" "reg_slot (ii_example c) = 0xF6" "gs_slot_register (ii_example c)"
  "slot_rom_ptable (ii_example c) = replicate 15 (empty_page\<lparr>read_p := Some 0x8000\<rparr>)"
  by (simp_all add: ii_example_def new_MMU_def)

lemma ii_example_page:
  assumes "1 \<le> n" and "n \<le> 15"
  shows "read_p (pte (base (ii_example Class_II)) (0xC0 + n)) = Some 0x8000"
proof -
  have i: "n - 1 < 15" "0xC0 + n = 0xC1 + (n - 1)" using assms by auto
  have "pte (base (ii_example Class_II)) (0xC1 + (n - 1)) = c1cf_entry (ii_example Class_II) (n - 1)"
    using ii_example_ok [of Class_II] i(1) unfolding mmu_ii_ok_def composed_iff by blast
  then show ?thesis unfolding i(2) using i(1) by (simp add: c1cf_entry_def)
qed

theorem bus_keeps_slot_rom_map_witness:
  "\<exists>m'. ii_run (slot_cards example_roms) [II_Read 0xC100, II_Write 0xC007 0, II_Read 0xCFFF, II_Reset]
     (ii_example Class_IIe) = Inr m' \<and> mmu_ii_ok m'"
  by (rule bus_keeps_slot_rom_map) (rule ii_example_ok)

end
