(* ===== verification/Iie_Memory.thy ===== *)
theory Iie_Memory
  imports Language_Card
begin

text \<open>
  The memory switches of the IIe (\<^verbatim>\<open>src/devices/iiememory/iiememory.cpp\<close>): 128K of RAM,
  of which zero page, text page, hi-res page and the rest are switched between main and auxiliary
  memory for reading and for writing, and the bank-switched 16K at the top.  The code remembers in
  summary flags what is mapped and remaps only what changes; the theorem is that after any
  sequence of switch accesses and resets the page table is what the switches, read on their own,
  prescribe.  \<open>ram\<close> and \<open>rom\<close> are the host addresses of the 128K and of the ROM image of
  \<open>$C000\<close> to \<open>$FFFF\<close>.  The keyboard latch in the low bits of the status reads is a parameter.
\<close>

section \<open>State\<close>

record iiememory =
  f_80store :: bool
  f_ramrd :: bool
  f_ramwrt :: bool
  f_altzp :: bool
  m_zp :: bool
  m_text1_r :: bool
  m_text1_w :: bool
  m_hires1_r :: bool
  m_hires1_w :: bool
  m_all_r :: bool
  m_all_w :: bool
  s_hires :: bool
  s_page2 :: bool
  s_text :: bool
  s_mixed :: bool
  lc :: lc_logic

definition iiememory_init :: iiememory where
  "iiememory_init = \<lparr>f_80store = False, f_ramrd = False, f_ramwrt = False, f_altzp = False,
     m_zp = False, m_text1_r = False, m_text1_w = False, m_hires1_r = False, m_hires1_w = False,
     m_all_r = False, m_all_w = False, s_hires = False, s_page2 = False, s_text = False,
     s_mixed = False, lc = lc_reset\<rparr>"

type_synonym 'd iie = "iiememory \<times> 'd mmu"

section \<open>Operations\<close>

definition bsr_map_memory :: "nat \<Rightarrow> nat \<Rightarrow> iiememory \<Rightarrow> 'd mmu_op" where
  "bsr_map_memory ram rom st =
     (let alt = (if f_altzp st then 0x10000 else 0);
          bankd0 = ram + (if FF_BANK_1 (lc st) then 0xC000 else 0xD000) + alt;
          banke0 = ram + 0xE000 + alt;
          bank_d = (if FF_BANK_1 (lc st) then ''LC_BANK1'' else ''LC_BANK2'')
      in op_then
        (for_each [0 ..< 16] (\<lambda>i. op_then
           (if FF_READ_ENABLE (lc st) then map_page_read (i + 0xD0) (Some (bankd0 + i * 256)) (Some bank_d)
            else map_page_read (i + 0xD0) (Some (rom + 0x1000 + i * 256)) (Some ''SYS_ROM''))
           (if \<not> FF_WRITE_ENABLE' (lc st) then map_page_write (i + 0xD0) (Some (bankd0 + i * 256)) (Some bank_d)
            else map_page_write (i + 0xD0) None (Some ''NONE''))))
        (for_each [0 ..< 32] (\<lambda>i. op_then
           (if FF_READ_ENABLE (lc st) then map_page_read (i + 0xE0) (Some (banke0 + i * 256)) (Some ''LC RAM'')
            else map_page_read (i + 0xE0) (Some (rom + 0x2000 + i * 256)) (Some ''SYS_ROM''))
           (if \<not> FF_WRITE_ENABLE' (lc st) then map_page_write (i + 0xE0) (Some (banke0 + i * 256)) (Some ''LC RAM'')
            else map_page_write (i + 0xE0) None (Some ''NONE'')))))"

definition alt_offset :: "bool \<Rightarrow> nat" where
  "alt_offset b = (if b then 0x10000 else 0)"

definition map_tag :: "bool \<Rightarrow> string option" where
  "map_tag b = Some (if b then ''AUX'' else ''MAIN'')"

definition map_reads :: "nat \<Rightarrow> bool \<Rightarrow> nat list \<Rightarrow> 'd mmu_op" where
  "map_reads ram b pages =
     for_each pages (\<lambda>i. map_page_read i (Some (ram + alt_offset b + i * 256)) (map_tag b))"

definition map_writes :: "nat \<Rightarrow> bool \<Rightarrow> nat list \<Rightarrow> 'd mmu_op" where
  "map_writes ram b pages =
     for_each pages (\<lambda>i. map_page_write i (Some (ram + alt_offset b + i * 256)) (map_tag b))"

definition iiememory_compose_map :: "nat \<Rightarrow> nat \<Rightarrow> 'd iie \<Rightarrow> mmu_error + 'd iie" where
  "iiememory_compose_map ram rom = (\<lambda>(st, m).
     let n_zp = f_altzp st; n_all_r = f_ramrd st; n_all_w = f_ramwrt st;
         n_text1_r = (if f_80store st then s_page2 st else f_ramrd st);
         n_text1_w = (if f_80store st then s_page2 st else f_ramwrt st);
         n_hires1_r = (if f_80store st then if s_hires st then s_page2 st else f_ramrd st else f_ramrd st);
         n_hires1_w = (if f_80store st then if s_hires st then s_page2 st else f_ramwrt st else f_ramwrt st);
         zp = (if n_zp \<noteq> m_zp st then
             op_then (map_page_read 0 (Some (ram + alt_offset n_zp + 0)) (map_tag n_zp))
            (op_then (map_page_write 0 (Some (ram + alt_offset n_zp + 0)) (map_tag n_zp))
            (op_then (map_page_read 1 (Some (ram + alt_offset n_zp + 0x100)) (map_tag n_zp))
            (op_then (map_page_write 1 (Some (ram + alt_offset n_zp + 0x100)) (map_tag n_zp))
              (bsr_map_memory ram rom st)))) else op_skip);
         t_r = (if n_text1_r \<noteq> m_text1_r st then map_reads ram n_text1_r [0x04 ..< 0x08] else op_skip);
         t_w = (if n_text1_w \<noteq> m_text1_w st then map_writes ram n_text1_w [0x04 ..< 0x08] else op_skip);
         h_r = (if n_hires1_r \<noteq> m_hires1_r st then map_reads ram n_hires1_r [0x20 ..< 0x40] else op_skip);
         h_w = (if n_hires1_w \<noteq> m_hires1_w st then map_writes ram n_hires1_w [0x20 ..< 0x40] else op_skip);
         a_r = (if n_all_r \<noteq> m_all_r st then
             op_then (map_reads ram n_all_r [0x02 ..< 0x04])
            (op_then (map_reads ram n_all_r [0x08 ..< 0x20])
              (map_reads ram n_all_r [0x40 ..< 0xC0])) else op_skip);
         a_w = (if n_all_w \<noteq> m_all_w st then
             op_then (map_writes ram n_all_w [0x02 ..< 0x04])
            (op_then (map_writes ram n_all_w [0x08 ..< 0x20])
              (map_writes ram n_all_w [0x40 ..< 0xC0])) else op_skip);
         st' = st\<lparr>m_zp := n_zp, m_text1_r := n_text1_r, m_text1_w := n_text1_w, m_hires1_r := n_hires1_r,
           m_hires1_w := n_hires1_w, m_all_r := n_all_r, m_all_w := n_all_w\<rparr>
     in map_sum id (Pair st')
          (op_then zp (op_then t_r (op_then t_w (op_then h_r (op_then h_w (op_then a_r a_w))))) m))"

definition iiememory_write_C00X :: "nat \<Rightarrow> nat \<Rightarrow> u32 \<Rightarrow> 'd iie \<Rightarrow> mmu_error + 'd iie" where
  "iiememory_write_C00X ram rom address = (\<lambda>(st, m).
     let st' = (if address = 0xC000 then st\<lparr>f_80store := False\<rparr>
                else if address = 0xC001 then st\<lparr>f_80store := True\<rparr>
                else if address = 0xC002 then st\<lparr>f_ramrd := False\<rparr>
                else if address = 0xC003 then st\<lparr>f_ramrd := True\<rparr>
                else if address = 0xC004 then st\<lparr>f_ramwrt := False\<rparr>
                else if address = 0xC005 then st\<lparr>f_ramwrt := True\<rparr>
                else if address = 0xC008 then st\<lparr>f_altzp := False\<rparr>
                else if address = 0xC009 then st\<lparr>f_altzp := True\<rparr>
                else st)
     in iiememory_compose_map ram rom (st', m))"

definition display_switch :: "u32 \<Rightarrow> iiememory \<Rightarrow> iiememory option" where
  "display_switch address st =
     (if address = 0xC050 then Some (st\<lparr>s_text := False\<rparr>)
      else if address = 0xC051 then Some (st\<lparr>s_text := True\<rparr>)
      else if address = 0xC052 then Some (st\<lparr>s_mixed := False\<rparr>)
      else if address = 0xC053 then Some (st\<lparr>s_mixed := True\<rparr>)
      else if address = 0xC054 then Some (st\<lparr>s_page2 := False\<rparr>)
      else if address = 0xC055 then Some (st\<lparr>s_page2 := True\<rparr>)
      else if address = 0xC056 then Some (st\<lparr>s_hires := False\<rparr>)
      else if address = 0xC057 then Some (st\<lparr>s_hires := True\<rparr>)
      else None)"

definition iiememory_read_display :: "nat \<Rightarrow> nat \<Rightarrow> u32 \<Rightarrow> 'd iie \<Rightarrow> mmu_error + (u8 \<times> 'd iie)" where
  "iiememory_read_display ram rom address = (\<lambda>(st, m).
     case display_switch address st of
       None \<Rightarrow> Inl AssertFailed
     | Some st' \<Rightarrow> map_sum id (Pair 0) (iiememory_compose_map ram rom (st', m)))"

definition iiememory_write_display :: "nat \<Rightarrow> nat \<Rightarrow> u32 \<Rightarrow> 'd iie \<Rightarrow> mmu_error + 'd iie" where
  "iiememory_write_display ram rom address s = map_sum id snd (iiememory_read_display ram rom address s)"

definition bsr_read_C0xx :: "nat \<Rightarrow> nat \<Rightarrow> u32 \<Rightarrow> 'd iie \<Rightarrow> mmu_error + (u8 \<times> 'd iie)" where
  "bsr_read_C0xx ram rom address = (\<lambda>(st, m).
     let st' = st\<lparr>lc := lc_read address (lc st)\<rparr>
     in map_sum id (\<lambda>m'. (floating_bus_val m', st', m')) (bsr_map_memory ram rom st' m))"

definition bsr_write_C0xx :: "nat \<Rightarrow> nat \<Rightarrow> u32 \<Rightarrow> 'd iie \<Rightarrow> mmu_error + 'd iie" where
  "bsr_write_C0xx ram rom address = (\<lambda>(st, m).
     let st' = st\<lparr>lc := lc_write address (lc st)\<rparr>
     in map_sum id (Pair st') (bsr_map_memory ram rom st' m))"

text \<open>The status reads; \<open>kbv\<close> is the keyboard latch if the keyboard has published one, and the
  slot ROM switches belong to the MMU.\<close>

definition keyboard_bits :: "u8 option \<Rightarrow> u8" where
  "keyboard_bits kbv = (case kbv of None \<Rightarrow> 0xEE | Some k \<Rightarrow> k) AND 0x7F"

definition status_byte :: "u8 option \<Rightarrow> bool \<Rightarrow> u8" where
  "status_byte kbv b = keyboard_bits kbv OR (if b then 0x80 else 0)"

definition bsr_read_C011 :: "u8 option \<Rightarrow> iiememory \<Rightarrow> u8" where
  "bsr_read_C011 kbv st = status_byte kbv (\<not> FF_BANK_1 (lc st))"

definition bsr_read_C012 :: "u8 option \<Rightarrow> iiememory \<Rightarrow> u8" where
  "bsr_read_C012 kbv st = status_byte kbv (FF_READ_ENABLE (lc st))"

definition iiememory_read_C01X :: "u8 option \<Rightarrow> bool \<Rightarrow> bool \<Rightarrow> u32 \<Rightarrow> iiememory \<Rightarrow> mmu_error + u8" where
  "iiememory_read_C01X kbv intcxrom slotc3rom address st =
     (if address = 0xC011 then Inr (status_byte kbv (\<not> FF_BANK_1 (lc st)))
      else if address = 0xC012 then Inr (status_byte kbv (FF_READ_ENABLE (lc st)))
      else if address = 0xC013 then Inr (status_byte kbv (f_ramrd st))
      else if address = 0xC014 then Inr (status_byte kbv (f_ramwrt st))
      else if address = 0xC015 then Inr (status_byte kbv intcxrom)
      else if address = 0xC016 then Inr (status_byte kbv (f_altzp st))
      else if address = 0xC017 then Inr (status_byte kbv slotc3rom)
      else if address = 0xC018 then Inr (status_byte kbv (f_80store st))
      else Inl AssertFailed)"

definition reset_iiememory :: "nat \<Rightarrow> nat \<Rightarrow> 'd iie \<Rightarrow> mmu_error + 'd iie" where
  "reset_iiememory ram rom = (\<lambda>(st, m).
     let st' = st\<lparr>lc := lc_reset, f_80store := False, f_ramrd := False, f_ramwrt := False,
                  f_altzp := False, s_page2 := False\<rparr>
     in case bsr_map_memory ram rom st' m of
          Inl err \<Rightarrow> Inl err
        | Inr m' \<Rightarrow> iiememory_compose_map ram rom (st', m'))"

text \<open>\<^verbatim>\<open>MMU_IIe::init_map\<close>, which the MMU runs when it is built and on every reset.\<close>

definition init_map_IIe :: "nat \<Rightarrow> nat \<Rightarrow> 'd mmu_op" where
  "init_map_IIe ram rom =
     op_then (for_each [0 ..< 192] (\<lambda>i. map_page_both i (Some (ram + i * 256)) (Some ''MAIN_RAM'')))
       (for_each [0 ..< 48] (\<lambda>i. map_page_read_only (i + 0xD0) (Some (rom + 0x1000 + i * 256)) (Some ''SYS_ROM'')))"

section \<open>What the switches prescribe\<close>

text \<open>The map as a function of the switches alone.  80STORE takes the text page, and with HIRES the
  hi-res page, away from RAMRD and RAMWRT and gives them to PAGE2.\<close>

definition aux_read :: "iiememory \<Rightarrow> nat \<Rightarrow> bool" where
  "aux_read st p =
     (if p < 2 \<or> 0xD0 \<le> p then f_altzp st
      else if f_80store st \<and> (4 \<le> p \<and> p < 8 \<or> s_hires st \<and> 0x20 \<le> p \<and> p < 0x40) then s_page2 st
      else f_ramrd st)"

definition aux_write :: "iiememory \<Rightarrow> nat \<Rightarrow> bool" where
  "aux_write st p =
     (if p < 2 \<or> 0xD0 \<le> p then f_altzp st
      else if f_80store st \<and> (4 \<le> p \<and> p < 8 \<or> s_hires st \<and> 0x20 \<le> p \<and> p < 0x40) then s_page2 st
      else f_ramwrt st)"

text \<open>The 4K of bank 1 lie at \<open>$C000\<close> of the RAM, everything else at its own address.\<close>

definition ram_page :: "iiememory \<Rightarrow> nat \<Rightarrow> nat" where
  "ram_page st p = (if 0xD0 \<le> p \<and> p < 0xE0 \<and> FF_BANK_1 (lc st) then p - 0x10 else p)"

definition spec_read :: "nat \<Rightarrow> nat \<Rightarrow> iiememory \<Rightarrow> nat \<Rightarrow> nat option" where
  "spec_read ram rom st p =
     (if 0xD0 \<le> p \<and> \<not> FF_READ_ENABLE (lc st) then Some (rom + (p - 0xC0) * 256)
      else Some (ram + alt_offset (aux_read st p) + ram_page st p * 256))"

definition spec_write :: "nat \<Rightarrow> iiememory \<Rightarrow> nat \<Rightarrow> nat option" where
  "spec_write ram st p =
     (if 0xD0 \<le> p \<and> FF_WRITE_ENABLE' (lc st) then None
      else Some (ram + alt_offset (aux_write st p) + ram_page st p * 256))"

definition io_page :: "nat \<Rightarrow> bool" where
  "io_page p \<longleftrightarrow> 0xC0 \<le> p \<and> p < 0xD0"

text \<open>The table follows the switches, and the summary flags tell the truth about it.\<close>

definition map_follows :: "nat \<Rightarrow> nat \<Rightarrow> iiememory \<Rightarrow> 'd mmu \<Rightarrow> bool" where
  "map_follows ram rom st m \<longleftrightarrow> (\<forall>p < 256. \<not> io_page p \<longrightarrow>
     read_p (pte m p) = spec_read ram rom st p \<and> write_p (pte m p) = spec_write ram st p)"

definition summary_ok :: "iiememory \<Rightarrow> bool" where
  "summary_ok st \<longleftrightarrow> m_zp st = f_altzp st \<and> m_all_r st = f_ramrd st \<and> m_all_w st = f_ramwrt st \<and>
     m_text1_r st = aux_read st 4 \<and> m_text1_w st = aux_write st 4 \<and>
     m_hires1_r st = aux_read st 0x20 \<and> m_hires1_w st = aux_write st 0x20"

definition iie_ok :: "nat \<Rightarrow> nat \<Rightarrow> 'd iie \<Rightarrow> bool" where
  "iie_ok ram rom = (\<lambda>(st, m). num_pages m = 256 \<and> map_follows ram rom st m \<and> summary_ok st)"

definition bsr_entry :: "nat \<Rightarrow> nat \<Rightarrow> iiememory \<Rightarrow> nat \<Rightarrow> page_table_entry \<Rightarrow> page_table_entry" where
  "bsr_entry ram rom st p e =
     (if p < 0xD0 then e else
      let bank_d = (if 0xE0 \<le> p then ''LC RAM'' else if FF_BANK_1 (lc st) then ''LC_BANK1'' else ''LC_BANK2'')
      in e\<lparr>read_p := spec_read ram rom st p,
           read_d := Some (if FF_READ_ENABLE (lc st) then bank_d else ''SYS_ROM''),
           write_p := spec_write ram st p,
           write_d := Some (if FF_WRITE_ENABLE' (lc st) then ''NONE'' else bank_d)\<rparr>)"

lemma bsr_map_remap: "does_remap 256 (bsr_map_memory ram rom st) (bsr_entry ram rom st)"
  unfolding bsr_map_memory_def Let_def
  by (rule does_remap_cong, (rule map_loops | linarith)+)
     (auto simp: bsr_entry_def spec_read_def spec_write_def ram_page_def aux_read_def aux_write_def
       alt_offset_def Let_def)

lemma map_reads_remap:
  "b \<le> 256 \<Longrightarrow> does_remap 256 (map_reads ram x [a ..< b])
     (\<lambda>p e. if a \<le> p \<and> p < b then e\<lparr>read_p := Some (ram + alt_offset x + p * 256), read_d := map_tag x\<rparr> else e)"
  unfolding map_reads_def by (rule does_for_range, rule page_map) linarith

lemma map_writes_remap:
  "b \<le> 256 \<Longrightarrow> does_remap 256 (map_writes ram x [a ..< b])
     (\<lambda>p e. if a \<le> p \<and> p < b then e\<lparr>write_p := Some (ram + alt_offset x + p * 256), write_d := map_tag x\<rparr> else e)"
  unfolding map_writes_def by (rule does_for_range, rule page_map) linarith

lemma iie_init_remap:
  "does_remap 256 (init_map_IIe ram rom)
     (\<lambda>p e. if p < 192 then e\<lparr>read_p := Some (ram + p * 256), write_p := Some (ram + p * 256),
          read_h := None, write_h := None, read_d := Some ''MAIN_RAM'', write_d := Some ''MAIN_RAM''\<rparr>
        else if 0xD0 \<le> p then e\<lparr>read_p := Some (rom + 0x1000 + (p - 0xD0) * 256), write_p := None,
          read_d := Some ''SYS_ROM'', write_d := None\<rparr> else e)"
  unfolding init_map_IIe_def
  by (rule does_remap_cong, rule does_then, rule does_for_range, rule page_map, linarith,
      rule does_for_offset, rule page_map, linarith) auto

section \<open>The incremental remapping\<close>

definition is_text :: "nat \<Rightarrow> bool" where "is_text p \<longleftrightarrow> 4 \<le> p \<and> p < 8"

definition is_hires :: "nat \<Rightarrow> bool" where "is_hires p \<longleftrightarrow> 0x20 \<le> p \<and> p < 0x40"

definition is_rest :: "nat \<Rightarrow> bool" where
  "is_rest p \<longleftrightarrow> 2 \<le> p \<and> p < 4 \<or> 8 \<le> p \<and> p < 0x20 \<or> 0x40 \<le> p \<and> p < 0xC0"

lemma low_page_cases:
  assumes "p < 0xC0"
  obtains "p < 2" "\<not> is_text p" "\<not> is_hires p" "\<not> is_rest p"
    | "is_text p" "\<not> p < 2" "\<not> is_hires p" "\<not> is_rest p"
    | "is_hires p" "\<not> p < 2" "\<not> is_text p" "\<not> is_rest p"
    | "is_rest p" "\<not> p < 2" "\<not> is_text p" "\<not> is_hires p"
proof -
  consider "p < 2" | "is_text p" | "is_hires p" | "is_rest p"
    using assms unfolding is_text_def is_hires_def is_rest_def by linarith
  then show thesis using that unfolding is_text_def is_hires_def is_rest_def by cases auto
qed

definition sw_read :: "nat \<Rightarrow> bool \<Rightarrow> bool \<Rightarrow> bool \<Rightarrow> nat \<Rightarrow> page_table_entry \<Rightarrow> page_table_entry" where
  "sw_read ram changed x here p e =
     (if changed \<and> here then e\<lparr>read_p := Some (ram + alt_offset x + p * 256), read_d := map_tag x\<rparr> else e)"

definition sw_write :: "nat \<Rightarrow> bool \<Rightarrow> bool \<Rightarrow> bool \<Rightarrow> nat \<Rightarrow> page_table_entry \<Rightarrow> page_table_entry" where
  "sw_write ram changed x here p e =
     (if changed \<and> here then e\<lparr>write_p := Some (ram + alt_offset x + p * 256), write_d := map_tag x\<rparr> else e)"

definition zp_entry :: "nat \<Rightarrow> nat \<Rightarrow> iiememory \<Rightarrow> nat \<Rightarrow> page_table_entry \<Rightarrow> page_table_entry" where
  "zp_entry ram rom st p e =
     (if f_altzp st = m_zp st then e
      else sw_write ram True (f_altzp st) (p < 2) p (sw_read ram True (f_altzp st) (p < 2) p
        (bsr_entry ram rom st p e)))"

lemma sw_pointers [simp]:
  "read_p (sw_read ram ch x here p e) = (if ch \<and> here then Some (ram + alt_offset x + p * 256) else read_p e)"
  "write_p (sw_read ram ch x here p e) = write_p e" "read_p (sw_write ram ch x here p e) = read_p e"
  "write_p (sw_write ram ch x here p e) = (if ch \<and> here then Some (ram + alt_offset x + p * 256) else write_p e)"
  by (simp_all add: sw_read_def sw_write_def)

lemma bsr_pointers [simp]:
  "read_p (bsr_entry ram rom st p e) = (if p < 0xD0 then read_p e else spec_read ram rom st p)"
  "write_p (bsr_entry ram rom st p e) = (if p < 0xD0 then write_p e else spec_write ram st p)"
  by (simp_all add: bsr_entry_def Let_def)

lemma zp_remap:
  "does_remap 256 (if f_altzp st \<noteq> m_zp st then
      op_then (map_page_read 0 (Some (ram + alt_offset (f_altzp st) + 0)) (map_tag (f_altzp st)))
     (op_then (map_page_write 0 (Some (ram + alt_offset (f_altzp st) + 0)) (map_tag (f_altzp st)))
     (op_then (map_page_read 1 (Some (ram + alt_offset (f_altzp st) + 0x100)) (map_tag (f_altzp st)))
     (op_then (map_page_write 1 (Some (ram + alt_offset (f_altzp st) + 0x100)) (map_tag (f_altzp st)))
       (bsr_map_memory ram rom st)))) else op_skip) (zp_entry ram rom st)"
  by (rule does_remap_cong,
      (rule remap_if does_then does_skip bsr_map_remap does_page_remap page_map | linarith)+)
     (auto simp: zp_entry_def sw_read_def sw_write_def bsr_entry_def)

lemma text_reads_remap:
  "does_remap 256 (if ch then map_reads ram x [0x04 ..< 0x08] else op_skip) (\<lambda>p. sw_read ram ch x (is_text p) p)"
  by (rule does_remap_cong, (rule remap_if does_then does_skip map_reads_remap map_writes_remap | linarith)+)
     (auto simp: sw_read_def sw_write_def is_text_def is_hires_def is_rest_def)

lemma text_writes_remap:
  "does_remap 256 (if ch then map_writes ram x [0x04 ..< 0x08] else op_skip) (\<lambda>p. sw_write ram ch x (is_text p) p)"
  by (rule does_remap_cong, (rule remap_if does_then does_skip map_reads_remap map_writes_remap | linarith)+)
     (auto simp: sw_read_def sw_write_def is_text_def is_hires_def is_rest_def)

lemma hires_reads_remap:
  "does_remap 256 (if ch then map_reads ram x [0x20 ..< 0x40] else op_skip) (\<lambda>p. sw_read ram ch x (is_hires p) p)"
  by (rule does_remap_cong, (rule remap_if does_then does_skip map_reads_remap map_writes_remap | linarith)+)
     (auto simp: sw_read_def sw_write_def is_text_def is_hires_def is_rest_def)

lemma hires_writes_remap:
  "does_remap 256 (if ch then map_writes ram x [0x20 ..< 0x40] else op_skip) (\<lambda>p. sw_write ram ch x (is_hires p) p)"
  by (rule does_remap_cong, (rule remap_if does_then does_skip map_reads_remap map_writes_remap | linarith)+)
     (auto simp: sw_read_def sw_write_def is_text_def is_hires_def is_rest_def)

lemma rest_reads_remap:
  "does_remap 256 (if ch then op_then (map_reads ram x [0x02 ..< 0x04]) (op_then (map_reads ram x [0x08 ..< 0x20])
      (map_reads ram x [0x40 ..< 0xC0])) else op_skip) (\<lambda>p. sw_read ram ch x (is_rest p) p)"
  by (rule does_remap_cong, (rule remap_if does_then does_skip map_reads_remap map_writes_remap | linarith)+)
     (auto simp: sw_read_def sw_write_def is_text_def is_hires_def is_rest_def)

lemma rest_writes_remap:
  "does_remap 256 (if ch then op_then (map_writes ram x [0x02 ..< 0x04]) (op_then (map_writes ram x [0x08 ..< 0x20])
      (map_writes ram x [0x40 ..< 0xC0])) else op_skip) (\<lambda>p. sw_write ram ch x (is_rest p) p)"
  by (rule does_remap_cong, (rule remap_if does_then does_skip map_reads_remap map_writes_remap | linarith)+)
     (auto simp: sw_read_def sw_write_def is_text_def is_hires_def is_rest_def)

lemmas region_remaps = text_reads_remap text_writes_remap hires_reads_remap hires_writes_remap
  rest_reads_remap rest_writes_remap

text \<open>What the summary flags claim about a page below the I/O space.\<close>

definition sum_read :: "iiememory \<Rightarrow> nat \<Rightarrow> bool" where
  "sum_read st p = (if p < 2 then m_zp st else if is_text p then m_text1_r st
     else if is_hires p then m_hires1_r st else m_all_r st)"

definition sum_write :: "iiememory \<Rightarrow> nat \<Rightarrow> bool" where
  "sum_write st p = (if p < 2 then m_zp st else if is_text p then m_text1_w st
     else if is_hires p then m_hires1_w st else m_all_w st)"

definition low_as_summary :: "nat \<Rightarrow> iiememory \<Rightarrow> 'd mmu \<Rightarrow> bool" where
  "low_as_summary ram st m \<longleftrightarrow> (\<forall>p < 0xC0.
     read_p (pte m p) = Some (ram + alt_offset (sum_read st p) + p * 256) \<and>
     write_p (pte m p) = Some (ram + alt_offset (sum_write st p) + p * 256))"

definition high_follows :: "nat \<Rightarrow> nat \<Rightarrow> iiememory \<Rightarrow> 'd mmu \<Rightarrow> bool" where
  "high_follows ram rom st m \<longleftrightarrow> (\<forall>p. 0xD0 \<le> p \<and> p < 256 \<longrightarrow>
     read_p (pte m p) = spec_read ram rom st p \<and> write_p (pte m p) = spec_write ram st p)"

lemma summary_switches:
  assumes "summary_ok st" and "p < 0xC0"
  shows "sum_read st p = aux_read st p \<and> sum_write st p = aux_write st p"
proof -
  have "\<not> 0xD0 \<le> p" "\<not> is_hires 4" "is_text 4" "\<not> is_text 0x20" "is_hires 0x20"
    using assms(2) by (simp_all add: is_text_def is_hires_def)
  then show ?thesis
    using assms unfolding summary_ok_def sum_read_def sum_write_def aux_read_def aux_write_def
      is_text_def [symmetric] is_hires_def [symmetric]
    by simp
qed

lemma map_follows_split:
  assumes "summary_ok st"
  shows "map_follows ram rom st m \<longleftrightarrow> low_as_summary ram st m \<and> high_follows ram rom st m"
proof -
  have low: "spec_read ram rom st p = Some (ram + alt_offset (sum_read st p) + p * 256)"
    "spec_write ram st p = Some (ram + alt_offset (sum_write st p) + p * 256)" if "p < 0xC0" for p
    using summary_switches [OF assms that] that by (simp_all add: spec_read_def spec_write_def ram_page_def)
  have io: "\<not> io_page p \<longleftrightarrow> p < 0xC0 \<or> 0xD0 \<le> p" for p unfolding io_page_def by linarith
  show ?thesis
  proof
    assume "map_follows ram rom st m"
    then show "low_as_summary ram st m \<and> high_follows ram rom st m"
      using low unfolding map_follows_def low_as_summary_def high_follows_def io by simp
  next
    assume "low_as_summary ram st m \<and> high_follows ram rom st m"
    then show "map_follows ram rom st m"
      using low unfolding map_follows_def low_as_summary_def high_follows_def io by auto
  qed
qed

definition switches :: "iiememory \<Rightarrow> bool list \<times> lc_logic" where
  "switches st = ([f_80store st, f_ramrd st, f_ramwrt st, f_altzp st, s_hires st, s_page2 st, s_text st,
     s_mixed st], lc st)"

definition summarised :: "iiememory \<Rightarrow> iiememory" where
  "summarised st = st\<lparr>m_zp := f_altzp st, m_text1_r := aux_read st 4, m_text1_w := aux_write st 4,
     m_hires1_r := aux_read st 0x20, m_hires1_w := aux_write st 0x20, m_all_r := f_ramrd st,
     m_all_w := f_ramwrt st\<rparr>"

lemma summarised [simp]:
  "summary_ok (summarised st)" "switches (summarised st) = switches st"
  "spec_read ram rom (summarised st) p = spec_read ram rom st p"
  "spec_write ram (summarised st) p = spec_write ram st p"
  by (auto simp: summarised_def summary_ok_def switches_def spec_read_def spec_write_def aux_read_def
      aux_write_def ram_page_def)

definition compose_entry :: "nat \<Rightarrow> nat \<Rightarrow> iiememory \<Rightarrow> nat \<Rightarrow> page_table_entry \<Rightarrow> page_table_entry" where
  "compose_entry ram rom st p e =
     sw_write ram (f_ramwrt st \<noteq> m_all_w st) (f_ramwrt st) (is_rest p) p
    (sw_read ram (f_ramrd st \<noteq> m_all_r st) (f_ramrd st) (is_rest p) p
    (sw_write ram (aux_write st 0x20 \<noteq> m_hires1_w st) (aux_write st 0x20) (is_hires p) p
    (sw_read ram (aux_read st 0x20 \<noteq> m_hires1_r st) (aux_read st 0x20) (is_hires p) p
    (sw_write ram (aux_write st 4 \<noteq> m_text1_w st) (aux_write st 4) (is_text p) p
    (sw_read ram (aux_read st 4 \<noteq> m_text1_r st) (aux_read st 4) (is_text p) p
    (zp_entry ram rom st p e))))))"

lemma compose_remap:
  assumes "num_pages m = 256"
  shows "iiememory_compose_map ram rom (st, m) = Inr (summarised st, remap (compose_entry ram rom st) m)"
proof -
  have t: "(if f_80store st then s_page2 st else f_ramrd st) = aux_read st 4"
    "(if f_80store st then s_page2 st else f_ramwrt st) = aux_write st 4"
    by (simp_all add: aux_read_def aux_write_def)
  have h: "(if f_80store st then if s_hires st then s_page2 st else f_ramrd st else f_ramrd st) = aux_read st 0x20"
    "(if f_80store st then if s_hires st then s_page2 st else f_ramwrt st else f_ramwrt st) = aux_write st 0x20"
    by (simp_all add: aux_read_def aux_write_def)
  note seq = does_then [OF zp_remap does_then [OF text_reads_remap does_then [OF text_writes_remap
    does_then [OF hires_reads_remap does_then [OF hires_writes_remap
    does_then [OF rest_reads_remap rest_writes_remap]]]]]]
  show ?thesis
    unfolding iiememory_compose_map_def Let_def prod.case h t
    unfolding does_remapD [OF seq assms]
    by (simp add: summarised_def compose_entry_def [abs_def])
qed

lemma iie_compose_ok:
  assumes N: "num_pages m = 256" and low: "low_as_summary ram st m"
    and high: "f_altzp st = m_zp st \<Longrightarrow> high_follows ram rom st m"
  shows "iie_ok ram rom (summarised st, remap (compose_entry ram rom st) m)"
proof -
  let ?m = "remap (compose_entry ram rom st) m"
  have "low_as_summary ram (summarised st) ?m"
    unfolding low_as_summary_def
  proof (intro allI impI)
    fix p :: nat
    assume p: "p < 0xC0"
    then have old: "read_p (pte m p) = Some (ram + alt_offset (sum_read st p) + p * 256)"
        "write_p (pte m p) = Some (ram + alt_offset (sum_write st p) + p * 256)"
      and here: "pte ?m p = compose_entry ram rom st p (pte m p)" "p < 0xD0"
      using low N by (simp_all add: low_as_summary_def)
    from p show "read_p (pte ?m p) = Some (ram + alt_offset (sum_read (summarised st) p) + p * 256) \<and>
        write_p (pte ?m p) = Some (ram + alt_offset (sum_write (summarised st) p) + p * 256)"
      by (cases rule: low_page_cases)
         (simp_all add: here old compose_entry_def zp_entry_def sum_read_def sum_write_def summarised_def)
  qed
  moreover have "high_follows ram rom (summarised st) ?m"
    unfolding high_follows_def
  proof (intro allI impI)
    fix p :: nat
    assume p: "0xD0 \<le> p \<and> p < 256"
    then have out: "\<not> is_text p" "\<not> is_hires p" "\<not> is_rest p" "\<not> p < 2" "\<not> p < 0xD0"
      by (auto simp: is_text_def is_hires_def is_rest_def)
    show "read_p (pte ?m p) = spec_read ram rom (summarised st) p \<and>
        write_p (pte ?m p) = spec_write ram (summarised st) p"
      using high p N out by (cases "f_altzp st = m_zp st") (simp_all add: compose_entry_def zp_entry_def high_follows_def)
  qed
  ultimately show ?thesis using N by (simp add: iie_ok_def map_follows_split)
qed

text \<open>Changing a switch and composing.\<close>

lemma switch_ok:
  assumes "iie_ok ram rom (st, m)" and "lc st' = lc st"
    and "m_zp st' = m_zp st" "m_text1_r st' = m_text1_r st" "m_text1_w st' = m_text1_w st"
    "m_hires1_r st' = m_hires1_r st" "m_hires1_w st' = m_hires1_w st" "m_all_r st' = m_all_r st"
    "m_all_w st' = m_all_w st"
  shows "\<exists>m'. iiememory_compose_map ram rom (st', m) = Inr (summarised st', m') \<and>
     iie_ok ram rom (summarised st', m') \<and> host m' = host m"
proof -
  have N: "num_pages m = 256" and sum: "summary_ok st" and "low_as_summary ram st m" "high_follows ram rom st m"
    using assms(1) map_follows_split [of st] by (auto simp: iie_ok_def)
  then have low: "low_as_summary ram st' m"
    by (simp add: low_as_summary_def sum_read_def sum_write_def assms(3-))
  have high: "high_follows ram rom st' m" if "f_altzp st' = m_zp st'"
  proof -
    have "f_altzp st' = f_altzp st" using that sum assms(3) by (simp add: summary_ok_def)
    then show ?thesis
      using \<open>high_follows ram rom st m\<close> assms(2)
      by (simp add: high_follows_def spec_read_def spec_write_def aux_read_def aux_write_def ram_page_def)
  qed
  from iie_compose_ok [OF N low high] compose_remap [OF N, of ram rom st'] show ?thesis by simp
qed

lemma bsr_ok:
  assumes "iie_ok ram rom (st, m)"
  shows "\<exists>m'. bsr_map_memory ram rom (st\<lparr>lc := ll\<rparr>) m = Inr m' \<and>
     iie_ok ram rom (st\<lparr>lc := ll\<rparr>, m') \<and> host m' = host m"
proof -
  let ?st = "st\<lparr>lc := ll\<rparr>"
  have N: "num_pages m = 256" and sum: "summary_ok st" and low: "low_as_summary ram st m"
    using assms map_follows_split [of st] by (auto simp: iie_ok_def)
  have sum': "summary_ok ?st" using sum by (simp add: summary_ok_def aux_read_def aux_write_def)
  have "low_as_summary ram ?st (remap (bsr_entry ram rom ?st) m)"
    using low N by (simp add: low_as_summary_def sum_read_def sum_write_def)
  moreover have "high_follows ram rom ?st (remap (bsr_entry ram rom ?st) m)"
    using N by (simp add: high_follows_def)
  ultimately have "iie_ok ram rom (?st, remap (bsr_entry ram rom ?st) m)"
    using N sum' by (simp add: iie_ok_def map_follows_split [OF sum'])
  then show ?thesis using does_remapD [OF bsr_map_remap N, of ram rom ?st] by auto
qed

text \<open>A reset finds main memory mapped below the I/O space, whatever the summary flags say.\<close>

definition main_below :: "nat \<Rightarrow> 'd mmu \<Rightarrow> bool" where
  "main_below ram m \<longleftrightarrow> num_pages m = 256 \<and> (\<forall>p < 0xC0. read_p (pte m p) = Some (ram + p * 256) \<and>
     write_p (pte m p) = Some (ram + p * 256))"

lemma compose_main:
  assumes m: "main_below ram m" and high: "high_follows ram rom st m"
    and off: "\<not> f_80store st" "\<not> f_ramrd st" "\<not> f_ramwrt st" "\<not> f_altzp st"
  shows "iie_ok ram rom (summarised st, remap (compose_entry ram rom st) m)"
proof -
  let ?m = "remap (compose_entry ram rom st) m"
  have N: "num_pages m = 256" using m by (simp add: main_below_def)
  have aux: "\<not> aux_read st p" "\<not> aux_write st p" for p using off by (simp_all add: aux_read_def aux_write_def)
  have "low_as_summary ram (summarised st) ?m"
    using m off
    by (auto simp: low_as_summary_def main_below_def compose_entry_def zp_entry_def sum_read_def
        sum_write_def summarised_def aux alt_offset_def)
  moreover have "high_follows ram rom (summarised st) ?m"
    unfolding high_follows_def
  proof (intro allI impI)
    fix p :: nat
    assume p: "0xD0 \<le> p \<and> p < 256"
    then have out: "\<not> is_text p" "\<not> is_hires p" "\<not> is_rest p" "\<not> p < 2" "\<not> p < 0xD0"
      by (auto simp: is_text_def is_hires_def is_rest_def)
    show "read_p (pte ?m p) = spec_read ram rom (summarised st) p \<and>
        write_p (pte ?m p) = spec_write ram (summarised st) p"
      using high p N out by (cases "f_altzp st = m_zp st") (simp_all add: compose_entry_def zp_entry_def high_follows_def)
  qed
  ultimately show ?thesis using N by (simp add: iie_ok_def map_follows_split)
qed

lemma iie_reset_ok:
  assumes "main_below ram m"
  shows "\<exists>st' m'. reset_iiememory ram rom (st, m) = Inr (st', m') \<and> iie_ok ram rom (st', m')"
proof -
  let ?st = "st\<lparr>lc := lc_reset, f_80store := False, f_ramrd := False, f_ramwrt := False,
    f_altzp := False, s_page2 := False\<rparr>"
  let ?m = "remap (bsr_entry ram rom ?st) m"
  have N: "num_pages m = 256" using assms by (simp add: main_below_def)
  have "main_below ram ?m" "high_follows ram rom ?st ?m"
    using assms by (simp_all add: main_below_def high_follows_def)
  then have "iie_ok ram rom (summarised ?st, remap (compose_entry ram rom ?st) ?m)"
    by (rule compose_main) simp_all
  moreover have "reset_iiememory ram rom (st, m) = Inr (summarised ?st, remap (compose_entry ram rom ?st) ?m)"
    using N compose_remap [of ?m ram rom ?st]
    by (simp add: reset_iiememory_def Let_def does_remapD [OF bsr_map_remap N])
  ultimately show ?thesis by blast
qed

lemma init_main_below:
  assumes "num_pages m = 256"
  shows "\<exists>m'. init_map_IIe ram rom m = Inr m' \<and> main_below ram m'"
  using does_remapD [OF iie_init_remap assms, of ram rom] assms by (simp add: main_below_def)

section \<open>Accesses and resets\<close>

datatype iie_access =
    SwitchWrite u32 | DisplayRead u32 | DisplayWrite u32 | BankRead u32 | BankWrite u32 | SystemReset

text \<open>A reset of the machine runs \<^verbatim>\<open>MMU_IIe::reset\<close> first and the device's handler after it
  (\<^verbatim>\<open>computer_t::reset\<close>).\<close>

fun iie_do :: "nat \<Rightarrow> nat \<Rightarrow> iie_access \<Rightarrow> 'd iie \<Rightarrow> mmu_error + 'd iie" where
  "iie_do ram rom (SwitchWrite a) s = iiememory_write_C00X ram rom a s"
| "iie_do ram rom (DisplayRead a) s = map_sum id snd (iiememory_read_display ram rom a s)"
| "iie_do ram rom (DisplayWrite a) s = iiememory_write_display ram rom a s"
| "iie_do ram rom (BankRead a) s = map_sum id snd (bsr_read_C0xx ram rom a s)"
| "iie_do ram rom (BankWrite a) s = bsr_write_C0xx ram rom a s"
| "iie_do ram rom SystemReset (st, m) =
     (case init_map_IIe ram rom m of Inl err \<Rightarrow> Inl err | Inr m' \<Rightarrow> reset_iiememory ram rom (st, m'))"

text \<open>The device registers its display handlers for \<open>$C050\<close> to \<open>$C057\<close> only.\<close>

fun registered :: "iie_access \<Rightarrow> bool" where
  "registered (DisplayRead a) \<longleftrightarrow> 0xC050 \<le> a \<and> a \<le> 0xC057"
| "registered (DisplayWrite a) \<longleftrightarrow> 0xC050 \<le> a \<and> a \<le> 0xC057"
| "registered _ \<longleftrightarrow> True"

primrec iie_run :: "nat \<Rightarrow> nat \<Rightarrow> iie_access list \<Rightarrow> 'd iie \<Rightarrow> mmu_error + 'd iie" where
  "iie_run ram rom [] s = Inr s"
| "iie_run ram rom (a # as) s = (case iie_do ram rom a s of Inl err \<Rightarrow> Inl err | Inr s' \<Rightarrow> iie_run ram rom as s')"

definition init_iiememory :: "nat \<Rightarrow> nat \<Rightarrow> 'd mmu \<Rightarrow> mmu_error + 'd iie" where
  "init_iiememory ram rom m = map_sum id (Pair iiememory_init) (bsr_map_memory ram rom iiememory_init m)"

lemma display_registered:
  assumes "0xC050 \<le> a" and "a \<le> 0xC057"
  shows "\<exists>st'. display_switch a st = Some st' \<and> lc st' = lc st \<and> m_zp st' = m_zp st \<and>
     m_text1_r st' = m_text1_r st \<and> m_text1_w st' = m_text1_w st \<and> m_hires1_r st' = m_hires1_r st \<and>
     m_hires1_w st' = m_hires1_w st \<and> m_all_r st' = m_all_r st \<and> m_all_w st' = m_all_w st"
proof -
  have "unat a \<in> {0xC050 .. 0xC057}" using assms by (simp add: word_le_nat_alt)
  then have "unat a \<in> set [0xC050 ..< 0xC058]" unfolding set_upt atLeastAtMost_iff atLeastLessThan_iff by linarith
  then have "a \<in> set (map of_nat [0xC050 ..< 0xC058])" by (metis image_eqI list.set_map of_nat_unat ucast_id)
  then have "a = 0xC050 \<or> a = 0xC051 \<or> a = 0xC052 \<or> a = 0xC053 \<or> a = 0xC054 \<or> a = 0xC055 \<or>
      a = 0xC056 \<or> a = 0xC057"
    by (auto simp: upt_rec)
  then show ?thesis by (elim disjE) (simp_all add: display_switch_def)
qed

lemma iie_do_ok:
  assumes ok: "iie_ok ram rom (st, m)" and "registered a"
  shows "\<exists>st' m'. iie_do ram rom a (st, m) = Inr (st', m') \<and> iie_ok ram rom (st', m')"
proof (cases a)
  case (SwitchWrite x)
  show ?thesis
    unfolding SwitchWrite iie_do.simps iiememory_write_C00X_def Let_def prod.case
    using switch_ok [OF ok, of "if x = 0xC000 then st\<lparr>f_80store := False\<rparr> else if x = 0xC001 then st\<lparr>f_80store := True\<rparr>
      else if x = 0xC002 then st\<lparr>f_ramrd := False\<rparr> else if x = 0xC003 then st\<lparr>f_ramrd := True\<rparr>
      else if x = 0xC004 then st\<lparr>f_ramwrt := False\<rparr> else if x = 0xC005 then st\<lparr>f_ramwrt := True\<rparr>
      else if x = 0xC008 then st\<lparr>f_altzp := False\<rparr> else if x = 0xC009 then st\<lparr>f_altzp := True\<rparr> else st"]
    by auto
next
  case (DisplayRead x)
  with assms(2) obtain st' where "display_switch x st = Some st'" "lc st' = lc st" "m_zp st' = m_zp st"
      "m_text1_r st' = m_text1_r st" "m_text1_w st' = m_text1_w st" "m_hires1_r st' = m_hires1_r st"
      "m_hires1_w st' = m_hires1_w st" "m_all_r st' = m_all_r st" "m_all_w st' = m_all_w st"
    using display_registered [of x st] by auto
  with switch_ok [OF ok, of st'] DisplayRead show ?thesis by (auto simp: iiememory_read_display_def)
next
  case (DisplayWrite x)
  with assms(2) obtain st' where "display_switch x st = Some st'" "lc st' = lc st" "m_zp st' = m_zp st"
      "m_text1_r st' = m_text1_r st" "m_text1_w st' = m_text1_w st" "m_hires1_r st' = m_hires1_r st"
      "m_hires1_w st' = m_hires1_w st" "m_all_r st' = m_all_r st" "m_all_w st' = m_all_w st"
    using display_registered [of x st] by auto
  with switch_ok [OF ok, of st'] DisplayWrite show ?thesis
    by (auto simp: iiememory_write_display_def iiememory_read_display_def)
next
  case (BankRead x)
  with bsr_ok [OF ok, of "lc_read x (lc st)"] show ?thesis by (auto simp: bsr_read_C0xx_def Let_def)
next
  case (BankWrite x)
  with bsr_ok [OF ok, of "lc_write x (lc st)"] show ?thesis by (auto simp: bsr_write_C0xx_def Let_def)
next
  case SystemReset
  have "num_pages m = 256" using ok by (simp add: iie_ok_def)
  from init_main_below [OF this, of ram rom] obtain m' where "init_map_IIe ram rom m = Inr m'" "main_below ram m'"
    by blast
  with iie_reset_ok [of ram m' rom st] SystemReset show ?thesis by auto
qed

lemma iie_run_ok:
  "iie_ok ram rom s \<Longrightarrow> \<forall>a \<in> set as. registered a \<Longrightarrow> \<exists>s'. iie_run ram rom as s = Inr s' \<and> iie_ok ram rom s'"
proof (induction as arbitrary: s)
  case (Cons a as)
  obtain st m where s: "s = (st, m)" by fastforce
  from iie_do_ok [of ram rom st m a] Cons.prems s obtain s1 where "iie_do ram rom a s = Inr s1" "iie_ok ram rom s1"
    by auto
  with Cons.IH [of s1] Cons.prems show ?case by auto
qed simp

lemma init_iie_ok:
  assumes "main_below ram m0"
  shows "\<exists>m. init_iiememory ram rom m0 = Inr (iiememory_init, m) \<and> iie_ok ram rom (iiememory_init, m)"
proof -
  have N: "num_pages m0 = 256" using assms by (simp add: main_below_def)
  let ?m = "remap (bsr_entry ram rom iiememory_init) m0"
  have init: "init_iiememory ram rom m0 = Inr (iiememory_init, ?m)"
    by (simp add: init_iiememory_def does_remapD [OF bsr_map_remap N])
  have sum: "summary_ok iiememory_init"
    by (simp add: summary_ok_def iiememory_init_def aux_read_def aux_write_def)
  have "low_as_summary ram iiememory_init ?m"
    using assms by (auto simp: low_as_summary_def main_below_def sum_read_def sum_write_def alt_offset_def
        iiememory_init_def)
  moreover have "high_follows ram rom iiememory_init ?m"
    using N by (simp add: high_follows_def)
  ultimately show ?thesis
    using N sum init by (simp add: iie_ok_def map_follows_split [OF sum])
qed

text \<open>
  C26.  The incremental remapping of the IIe agrees with the full one.  Starting from the map the MMU
  builds at power up, after any sequence of writes to the memory switches, accesses to the display
  switches and the bank registers, and machine resets, no call has failed and every page outside
  the I/O space is mapped, for reading and for writing, where the current settings of 80STORE,
  RAMRD, RAMWRT, ALTZP, PAGE2, HIRES and the bank flip-flops prescribe.
\<close>

theorem iie_map_follows_switches:
  assumes "num_pages m = 256" and "\<forall>a \<in> set as. registered a"
  shows "\<exists>m0 s0 st' m'. init_map_IIe ram rom m = Inr m0 \<and> init_iiememory ram rom m0 = Inr s0 \<and>
     iie_run ram rom as s0 = Inr (st', m') \<and> map_follows ram rom st' m' \<and> summary_ok st'"
proof -
  obtain m0 where m0: "init_map_IIe ram rom m = Inr m0" "main_below ram m0"
    using init_main_below [OF assms(1)] by blast
  obtain m1 where m1: "init_iiememory ram rom m0 = Inr (iiememory_init, m1)" "iie_ok ram rom (iiememory_init, m1)"
    using init_iie_ok [OF m0(2)] by blast
  from iie_run_ok [OF m1(2) assms(2)] obtain st' m' where
    "iie_run ram rom as (iiememory_init, m1) = Inr (st', m')" "iie_ok ram rom (st', m')" by auto
  with m0(1) m1(1) show ?thesis by (auto simp: iie_ok_def)
qed

theorem iie_map_follows_switches_witness:
  "\<exists>m0 s0 st' m'. init_map_IIe 0 0x20000 ii_mmu = Inr m0 \<and> init_iiememory 0 0x20000 m0 = Inr s0 \<and>
     iie_run 0 0x20000 [SwitchWrite 0xC001, DisplayRead 0xC055, BankRead 0xC083, BankRead 0xC083,
       SwitchWrite 0xC009, SystemReset, SwitchWrite 0xC005] s0 = Inr (st', m') \<and> map_follows 0 0x20000 st' m'"
  using iie_map_follows_switches [of ii_mmu "[SwitchWrite 0xC001, DisplayRead 0xC055, BankRead 0xC083,
       BankRead 0xC083, SwitchWrite 0xC009, SystemReset, SwitchWrite 0xC005]" 0 "0x20000"]
  by (auto simp: ii_pages(1))

text \<open>The status registers report a switch in bit 7 and the keyboard latch below; both handlers the
  device registers for \<open>$C011\<close> and \<open>$C012\<close> return the same byte, so combining them changes nothing.\<close>

lemma status_byte_bits:
  "bit (status_byte kbv b) 7 = b" "status_byte kbv b AND 0x7F = keyboard_bits kbv"
proof -
  have m: "(0x7F :: u8) = mask 7" by (simp add: mask_eq_exp_minus_1)
  have k: "bit (keyboard_bits kbv) n \<Longrightarrow> n < 7" for n
    unfolding keyboard_bits_def m by (simp add: bit_simps)
  have h: "bit (if b then 0x80 else 0 :: u8) n \<longleftrightarrow> b \<and> n = 7" for n
    using bit_push_bit_iff [of 7 "1 :: u8" n] by (auto simp: bit_simps)
  show "bit (status_byte kbv b) 7 = b" using k h by (auto simp: status_byte_def bit_or_iff)
  show "status_byte kbv b AND 0x7F = keyboard_bits kbv"
    by (rule bit_word_eqI) (use k h in \<open>auto simp: status_byte_def m bit_simps\<close>)
qed

lemma bank_status_handlers_agree:
  "iiememory_read_C01X kbv i s 0xC011 st = Inr (bsr_read_C011 kbv st)"
  "iiememory_read_C01X kbv i s 0xC012 st = Inr (bsr_read_C012 kbv st)"
  by (simp_all add: iiememory_read_C01X_def bsr_read_C011_def bsr_read_C012_def)

end
