(* ===== verification/Iie_Board.thy ===== *)
theory Iie_Board
  imports Slot_Cards Iie_Memory
begin

text \<open>
  The memory system of the IIe as a whole: the MMU with its slot ROM area and the memory device with
  its switches, wired together by the registrations both make.  A locale says what a set of handlers
  must respect outside the slot ROM pages; with it the map of all 64K is shown to follow the
  switches on every run of the bus from power up.
\<close>

section \<open>What slot ROM operations leave alone\<close>

definition outside_eq :: "'d mmu_ii \<Rightarrow> 'd mmu_ii \<Rightarrow> bool" where
  "outside_eq m m' \<longleftrightarrow> (num_pages (base m) = 256 \<longrightarrow> num_pages (base m') = 256 \<and>
       (\<forall>p < 256. p < 0xC1 \<or> 0xCF < p \<longrightarrow> pte (base m') p = pte (base m) p)) \<and>
     devices (base m') = devices (base m) \<and> main_ram m' = main_ram m \<and>
     main_rom_D0 m' = main_rom_D0 m \<and> dyn_class m' = dyn_class m"

lemma outside_refl [simp]: "outside_eq m m"
  by (simp add: outside_eq_def)

lemma outside_trans: "outside_eq m m1 \<Longrightarrow> outside_eq m1 m2 \<Longrightarrow> outside_eq m m2"
  by (auto simp: outside_eq_def)

lemma outside_fold: "(\<And>i m. outside_eq m (f i m)) \<Longrightarrow> outside_eq m (fold f is m)"
  by (induction "is" arbitrary: m) (auto intro: outside_trans)

lemma outside_fold_in: "(\<And>i m. i \<in> set is \<Longrightarrow> outside_eq m (f i m)) \<Longrightarrow> outside_eq m (fold f is m)"
proof (induction "is" arbitrary: m)
  case (Cons i "is")
  have "outside_eq m (f i m)" by (rule Cons.prems) simp
  moreover have "outside_eq (f i m) (fold f is (f i m))" by (rule Cons.IH) (rule Cons.prems, simp)
  ultimately show ?case by (auto intro: outside_trans)
qed simp

lemma outside_set_pte: "0xC1 \<le> p \<Longrightarrow> p \<le> 0xCF \<Longrightarrow> outside_eq m (set_pte p e m)"
  by (auto simp: outside_eq_def) (simp_all add: set_pte_def)

lemma outside_compose: "outside_eq m (compose_c1cf m)"
  unfolding compose_c1cf_def by (rule outside_fold_in, rule outside_set_pte) auto

lemma outside_upd: "outside_eq m (upd_slot_rom page f m)"
  by (simp add: outside_eq_def upd_slot_rom_def)

lemma outside_map_c1cf:
  "outside_eq m (map_c1cf_page_both page x d m)" "outside_eq m (map_c1cf_page_read_only page x d m)"
  by (simp_all add: map_c1cf_page_both_def map_c1cf_page_read_only_def outside_upd)

lemma outside_map_h:
  "outside_eq m (map_c1cf_page_read_h page h d m)" "outside_eq m (map_c1cf_page_write_h page h d m)"
  by (simp_all add: map_c1cf_page_read_h_def map_c1cf_page_write_h_def outside_trans [OF outside_upd outside_compose])

lemma outside_map_rom: "outside_eq m (map_rom r d m)"
  unfolding map_rom_def by (rule outside_fold) (rule outside_map_c1cf)

lemma outside_comp: "(\<And>m. outside_eq m (f m)) \<Longrightarrow> (\<And>m. outside_eq m (g m)) \<Longrightarrow> outside_eq m ((f \<circ> g) m)"
  using outside_trans by (metis comp_apply)

lemma outside_cards:
  "outside_eq m (map_rom_ssc r m)" "outside_eq m (map_rom_thunderclock r m)" "outside_eq m (map_rom_memexp q m)"
  "outside_eq m (map_rom_pdblock3 q m)" "outside_eq m (map_rom_videx q w h m)"
proof -
  show "outside_eq m (map_rom_videx q w h m)"
    unfolding map_rom_videx_def by (intro outside_comp outside_fold outside_map_h outside_map_c1cf)
qed (simp_all add: map_rom_ssc_def map_rom_thunderclock_def map_rom_memexp_def map_rom_pdblock3_def
    outside_map_rom split: option.split)

lemma outside_fields:
  "outside_eq m (m\<lparr>C8xx_slot := s\<rparr>)" "outside_eq m (m\<lparr>c8_flipflops := x\<rparr>)" "outside_eq m (m\<lparr>gs_motors_active := x\<rparr>)"
  "outside_eq m (m\<lparr>c8_contention := n, c8_contention_last := x\<rparr>)" "outside_eq m (m\<lparr>reg_slot := x\<rparr>)"
  "outside_eq m (m\<lparr>f_intcxrom := b\<rparr>)" "outside_eq m (m\<lparr>f_slotc3rom := b\<rparr>)"
  "outside_eq m (m\<lparr>base := store_host a v (base m)\<rparr>)"
  by (simp_all add: outside_eq_def store_host_def pte_def num_pages_def)

lemma outside_default: "outside_eq m (set_default_C8xx_map m)" "outside_eq m (set_default_C8xx_map_II m)"
proof -
  show "outside_eq m (set_default_C8xx_map_II m)" for m :: "'a mmu_ii"
    unfolding set_default_C8xx_map_II_def
    by (rule outside_trans [OF outside_trans [OF outside_fields(1) outside_fields(2)]],
        rule outside_trans [OF outside_fold outside_compose]) (rule outside_map_c1cf)
  then show "outside_eq m (set_default_C8xx_map m)"
    by (simp add: set_default_C8xx_map_def split: mmu_class.split)
qed

lemma outside_motherboard: "outside_eq m (map_motherboard_c8 m)"
  unfolding map_motherboard_c8_def
  by (cases "dyn_class m") (simp_all only: mmu_class.case outside_refl
      outside_trans [OF outside_fold [OF outside_map_c1cf(2)] outside_compose])

lemma outside_switch: "outside_eq m (iie_mmu_handle_C00X_write a v m)"
  by (simp add: iie_mmu_handle_C00X_write_def outside_trans [OF outside_fields(6) outside_compose]
      outside_trans [OF outside_fields(7) outside_compose])

section \<open>Handlers that keep a property of the rest of the map\<close>

locale board_handlers = card_handlers H for H :: "'d ii_handlers" +
  fixes J :: "'d mmu_ii \<Rightarrow> bool"
  assumes J_read: "mmu_ii_ok m \<Longrightarrow> J m \<Longrightarrow> J (snd (ii_read H h a m))"
    and J_write: "mmu_ii_ok m \<Longrightarrow> J m \<Longrightarrow> J (ii_write H h a v m)"
    and J_motor: "mmu_ii_ok m \<Longrightarrow> J m \<Longrightarrow> J (ii_motor H m)"
    and c8_outside: "outside_eq m (ii_c8 H h slot m)"
    and J_outside: "outside_eq m m' \<Longrightarrow> J m \<Longrightarrow> J m'"
begin

lemma outside_call_C8xx: "outside_eq m (call_C8xx_handler H slot m)"
proof -
  have "outside_eq m (case C8xx_handlers m slot of Some h \<Rightarrow> ii_c8 H h slot m | None \<Rightarrow> m)"
    using c8_outside by (simp split: option.split)
  then show ?thesis unfolding call_C8xx_handler_def Let_def
    by (blast intro: outside_trans outside_fields(1) outside_compose)
qed

lemma outside_c8_select: "outside_eq m (c8_select H slot m)"
proof -
  have e: "outside_eq m (m\<lparr>c8_flipflops := y\<rparr>)"
    "outside_eq m (m\<lparr>c8_contention := n, c8_contention_last := x, c8_flipflops := y\<rparr>)" for n x y
    by (simp_all add: outside_eq_def)
  show ?thesis
    by (auto simp: c8_select_def Let_def e intro: outside_trans [OF e(1) outside_call_C8xx]
        outside_trans [OF e(2) outside_call_C8xx])
qed

lemma slot_access_J: "J m \<Longrightarrow> J (slot_access H slot m)"
  using J_outside [OF outside_c8_select] J_outside [OF outside_trans [OF outside_motherboard outside_fields(1)]]
  by (auto simp: slot_access_def)

lemma page_read_J: "mmu_ii_ok m \<Longrightarrow> J m \<Longrightarrow> J (snd (page_read H ea m))"
  using J_read by (simp add: page_read_def Let_def split: option.split)

lemma page_write_J:
  assumes "mmu_ii_ok m" and "J m"
  shows "J (page_write H ea v m)"
proof -
  have s: "J (m\<lparr>base := store_host a v (base m)\<rparr>)" for a using J_outside [OF outside_fields(8)] assms(2) .
  show ?thesis
    by (auto simp: page_write_def Let_def s write_keeps store_ok assms J_write split: option.split)
qed

lemma motor_J: "mmu_ii_ok m \<Longrightarrow> J m \<Longrightarrow> J (c0xx_motor_touch H sub m)"
proof -
  assume a: "mmu_ii_ok m" "J m"
  have o: "J (m\<lparr>gs_motors_active := x\<rparr>)" for x using J_outside [OF outside_fields(3) a(2)] .
  have k: "mmu_ii_ok (m\<lparr>gs_motors_active := x\<rparr>)" for x
    using a(1) by (rule ok_cong) (use a(1) in \<open>simp_all add: mmu_ii_ok_def c8_ok_def\<close>)
  show ?thesis using a o k J_motor by (simp add: c0xx_motor_touch_def Let_def split: mmu_class.split)
qed

lemma read_one_J:
  "mmu_ii_ok (snd (snd s)) \<Longrightarrow> J (snd (snd s)) \<Longrightarrow> J (snd (snd (c0xx_read_one H gate ea k s)))"
  using J_read by (cases s) (auto simp: c0xx_read_one_def Let_def split_beta split: option.split)

lemma write_one_J: "mmu_ii_ok m \<Longrightarrow> J m \<Longrightarrow> J (c0xx_write_one H gate ea v k m)"
  using J_write by (auto simp: c0xx_write_one_def Let_def split_beta split: option.split)

lemma c0xx_J: "mmu_ii_ok m \<Longrightarrow> J m \<Longrightarrow> J (snd (c0xx_read H ea m))"
  "mmu_ii_ok m \<Longrightarrow> J m \<Longrightarrow> J (c0xx_write H ea v m)"
  by (simp_all add: c0xx_read_def c0xx_write_def Let_def split_beta c0xx_read_one_ok c0xx_write_one_ok
      motor_ok read_one_J write_one_J motor_J)

lemma read_J: "mmu_ii_ok m \<Longrightarrow> J m \<Longrightarrow> J (snd (MMU_II_read H a m))"
  by (simp add: MMU_II_read_def Let_def split_beta c0xx_J page_read_J slot_access_ok slot_access_J
      J_outside [OF outside_default(1)])

lemma write_J: "mmu_ii_ok m \<Longrightarrow> J m \<Longrightarrow> J (MMU_II_write H a v m)"
  by (simp add: MMU_II_write_def Let_def c0xx_J page_write_J slot_access_ok slot_access_J
      J_outside [OF outside_default(1)])

end

section \<open>The handlers of the IIe\<close>

text \<open>
  The device state is the memory device's record.  Bus handlers are numbered per direction: reads 0
  \<^verbatim>\<open>iiememory_read_C01X\<close>, 1 \<^verbatim>\<open>iiememory_read_display\<close>, 2 \<^verbatim>\<open>bsr_read_C0xx\<close>, 3 \<^verbatim>\<open>bsr_read_C011\<close>,
  4 \<^verbatim>\<open>bsr_read_C012\<close>; writes 0 \<^verbatim>\<open>iiememory_write_C00X\<close>, 1 \<^verbatim>\<open>iiememory_write_display\<close>,
  2 \<^verbatim>\<open>bsr_write_C0xx\<close>, 3 \<^verbatim>\<open>iie_mmu_handle_C00X_write\<close>.  \<open>kbv\<close> is the keyboard's last key.  A handler
  whose assertion fails stops the emulator; here it leaves the state alone, and the registrations
  never lead to one.
\<close>

definition lift_read ::
    "(iiememory iie \<Rightarrow> mmu_error + (u8 \<times> iiememory iie)) \<Rightarrow> iiememory mmu_ii \<Rightarrow> u8 \<times> iiememory mmu_ii" where
  "lift_read f m = (case f (devices (base m), base m) of
     Inr (v, st, b) \<Rightarrow> (v, m\<lparr>base := b\<lparr>devices := st\<rparr>\<rparr>) | Inl _ \<Rightarrow> (0, m))"

definition lift_write ::
    "(iiememory iie \<Rightarrow> mmu_error + iiememory iie) \<Rightarrow> iiememory mmu_ii \<Rightarrow> iiememory mmu_ii" where
  "lift_write f m = (case f (devices (base m), base m) of
     Inr (st, b) \<Rightarrow> m\<lparr>base := b\<lparr>devices := st\<rparr>\<rparr> | Inl _ \<Rightarrow> m)"

definition iie_handlers :: "nat \<Rightarrow> nat \<Rightarrow> u8 option \<Rightarrow> card_roms \<Rightarrow> iiememory ii_handlers" where
  "iie_handlers ram rom kbv R =
     \<lparr>ii_read = (\<lambda>h a m.
        if h = 0 then (case iiememory_read_C01X kbv (f_intcxrom m) (f_slotc3rom m) a (devices (base m)) of
                         Inr v \<Rightarrow> (v, m) | Inl _ \<Rightarrow> (0, m))
        else if h = 1 then lift_read (iiememory_read_display ram rom a) m
        else if h = 2 then lift_read (bsr_read_C0xx ram rom a) m
        else if h = 3 then (bsr_read_C011 kbv (devices (base m)), m)
        else if h = 4 then (bsr_read_C012 kbv (devices (base m)), m)
        else (0, m)),
      ii_write = (\<lambda>h a v m.
        if h = 0 then lift_write (iiememory_write_C00X ram rom a) m
        else if h = 1 then lift_write (iiememory_write_display ram rom a) m
        else if h = 2 then lift_write (bsr_write_C0xx ram rom a) m
        else if h = 3 then iie_mmu_handle_C00X_write a v m
        else m),
      ii_c8 = (\<lambda>h slot m.
         if h = 0 then map_rom_ssc (ssc_rom R) m else if h = 1 then map_rom_thunderclock (thunderclock_rom R) m
         else if h = 2 then map_rom_memexp (memexp_rom R) m else if h = 3 then map_rom_pdblock3 (pdblock3_rom R) m
         else if h = 4 then map_rom_videx (videx_rom R) 5 5 m else m),
      ii_en35 = (\<lambda>m. False),
      ii_motor = (\<lambda>m. m)\<rparr>"

section \<open>Power up\<close>

text \<open>Registration of a handler at each address of a list.\<close>

primrec register_each :: "('m \<Rightarrow> nat \<Rightarrow> mmu_error + 'm) \<Rightarrow> nat list \<Rightarrow> 'm \<Rightarrow> mmu_error + 'm" where
  "register_each f [] m = Inr m"
| "register_each f (a # as) m = (case f m a of Inl err \<Rightarrow> Inl err | Inr m' \<Rightarrow> register_each f as m')"

definition then_do :: "mmu_error + 'm \<Rightarrow> ('m \<Rightarrow> mmu_error + 'n) \<Rightarrow> mmu_error + 'n" where
  "then_do r f = (case r of Inl err \<Rightarrow> Inl err | Inr m \<Rightarrow> f m)"

lemma then_do_Inr: "then_do (Inr m) f = f m"
  by (simp add: then_do_def)

definition reads_at :: "nat \<Rightarrow> nat list \<Rightarrow> 'd mmu_ii \<Rightarrow> mmu_error + 'd mmu_ii" where
  "reads_at h = register_each (\<lambda>m a. set_C0XX_read_handler a h m)"

definition writes_at :: "nat \<Rightarrow> nat list \<Rightarrow> 'd mmu_ii \<Rightarrow> mmu_error + 'd mmu_ii" where
  "writes_at h = register_each (\<lambda>m a. set_C0XX_write_handler a h m)"

definition both_at :: "nat \<Rightarrow> nat list \<Rightarrow> 'd mmu_ii \<Rightarrow> mmu_error + 'd mmu_ii" where
  "both_at h = register_each (\<lambda>m a. then_do (set_C0XX_read_handler a h m) (set_C0XX_write_handler a h))"

definition set_host :: "(nat \<Rightarrow> u8) \<Rightarrow> 'd mmu_ii \<Rightarrow> 'd mmu_ii" where
  "set_host f m = m\<lparr>base := (base m)\<lparr>host := f\<rparr>\<rparr>"

definition MMU_IIe_new ::
    "page_table_entry list \<Rightarrow> page_table_entry list \<Rightarrow> nat \<Rightarrow> nat \<Rightarrow> nat option \<Rightarrow> (nat \<Rightarrow> u8) \<Rightarrow> 'd \<Rightarrow> mmu_error + 'd mmu_ii" where
  "MMU_IIe_new g gi ram ram_amount rom mem d =
     then_do (MMU_II_new g gi ram ram_amount rom mem d) (\<lambda>m.
     then_do (init_map (m\<lparr>dyn_class := Class_IIe, int_rom_ptable := replicate 15 empty_page\<rparr>)) (\<lambda>m.
     then_do (writes_at 3 [0xC006, 0xC007, 0xC00A, 0xC00B]
       (set_host (power_on_randomize 0xCC ram 0x10000 0x20000 (host (base m))) m)) (\<lambda>m.
       register_each (\<lambda>m i. map_c1cf_internal_rom (0xC0 + i) (map_option (\<lambda>r. r + i * 256) (main_rom_D0 m)) (Some ''SYS_ROM'') m)
         [1 ..< 16] m)))"

definition init_iiememory_board :: "nat \<Rightarrow> nat \<Rightarrow> iiememory mmu_ii \<Rightarrow> mmu_error + iiememory mmu_ii" where
  "init_iiememory_board ram rom m =
     then_do (writes_at 0 [0xC000, 0xC001, 0xC002, 0xC003, 0xC004, 0xC005, 0xC008, 0xC009] m) (\<lambda>m.
     then_do (reads_at 0 [0xC011 ..< 0xC019] m) (\<lambda>m.
     then_do (both_at 1 [0xC050 ..< 0xC058] m) (\<lambda>m.
     then_do (reads_at 3 [0xC011] m) (\<lambda>m.
     then_do (reads_at 4 [0xC012] m) (\<lambda>m.
     then_do (both_at 2 [0xC080 ..< 0xC090] m) (\<lambda>m.
       map_sum id (\<lambda>(st, b). m\<lparr>base := b\<lparr>devices := st\<rparr>\<rparr>) (init_iiememory ram rom (base m))))))))"

section \<open>Registration succeeds\<close>

text \<open>Only the handler tables change, and never an address runs out of its two handlers.\<close>

lemma iiememory_registers:
  assumes "C0xx_read_handlers m = (\<lambda>_. (None, None))"
    and "C0xx_write_handlers m = (\<lambda>_. (None, None))(6 := (Some 3, None), 7 := (Some 3, None),
      0xA := (Some 3, None), 0xB := (Some 3, None))"
  shows "\<exists>r w. init_iiememory_board ram rom m = map_sum id (\<lambda>(st, b).
      m\<lparr>C0xx_read_handlers := r, C0xx_write_handlers := w, base := b\<lparr>devices := st\<rparr>\<rparr>) (init_iiememory ram rom (base m))"
  using assms
  by (simp add: init_iiememory_board_def then_do_def writes_at_def reads_at_def both_at_def upt_rec_numeral
    set_C0XX_read_handler_def set_C0XX_write_handler_def free_slot_def) blast

lemma internal_rom_maps:
  assumes "set is \<subseteq> {1 ..< 16}"
  shows "\<exists>t. register_each (\<lambda>m i. map_c1cf_internal_rom (0xC0 + i) (map_option (\<lambda>r. r + i * 256) (main_rom_D0 m)) (Some ''SYS_ROM'') m) is m
       = Inr (m\<lparr>int_rom_ptable := t\<rparr>) \<and> length t = length (int_rom_ptable m)"
  using assms
proof (induction "is" arbitrary: m)
  case Nil
  have "m = m\<lparr>int_rom_ptable := int_rom_ptable m\<rparr>" by simp
  then show ?case by (metis register_each.simps(1))
next
  case (Cons i "is")
  obtain t where t: "map_c1cf_internal_rom (0xC0 + i) (map_option (\<lambda>r. r + i * 256) (main_rom_D0 m)) (Some ''SYS_ROM'') m
      = Inr (m\<lparr>int_rom_ptable := t\<rparr>)" "length t = length (int_rom_ptable m)"
    using Cons.prems by (simp add: map_c1cf_internal_rom_def)
  from Cons.IH [of "m\<lparr>int_rom_ptable := t\<rparr>"] Cons.prems t show ?case by auto
qed

text \<open>The constructor of the IIe, whatever the allocation held.\<close>

lemma default_II_tables:
  "C0xx_read_handlers (set_default_C8xx_map_II m) = C0xx_read_handlers m"
  "C0xx_write_handlers (set_default_C8xx_map_II m) = C0xx_write_handlers m"
proof -
  have u: "C0xx_read_handlers (upd_slot_rom p f m) = C0xx_read_handlers m"
    "C0xx_write_handlers (upd_slot_rom p f m) = C0xx_write_handlers m" for p f and m :: "'a mmu_ii"
    by (simp_all add: upd_slot_rom_def)
  show "C0xx_read_handlers (set_default_C8xx_map_II m) = C0xx_read_handlers m"
    "C0xx_write_handlers (set_default_C8xx_map_II m) = C0xx_write_handlers m"
    unfolding set_default_C8xx_map_II_def map_c1cf_page_both_def compose_fields
    unfolding slot_rom_field [where F = C0xx_read_handlers, OF u(1)] slot_rom_field [where F = C0xx_write_handlers, OF u(2)]
    by simp_all
qed

lemma MMU_II_new_fields:
  assumes "length g = 15" and "length gi = 15"
  shows "\<exists>m. MMU_II_new g gi ram amount rom mem d = Inr m \<and> geometry m \<and> c8_ok m \<and> main_ram m = ram \<and>
     main_rom_D0 m = rom \<and> C0xx_read_handlers m = (\<lambda>_. (None, None)) \<and> C0xx_write_handlers m = (\<lambda>_. (None, None))"
proof -
  define z where "z = MMU_II_members g gi ram amount rom mem d"
  have N: "num_pages (base z) = 256" by (simp add: z_def MMU_II_members_def new_MMU_def num_pages_def)
  define z1 where "z1 = z\<lparr>base := remap (init_entry z) (base z)\<rparr>"
  let ?m = "(set_default_C8xx_map_II z1)\<lparr>slot_rom_ptable := replicate 15 empty_page\<rparr>"
  have new: "MMU_II_new g gi ram amount rom mem d = Inr ?m"
    unfolding MMU_II_new_def z_def [symmetric] ii_init_remap [OF N] z1_def by simp
  have g1: "geometry z1" using assms N by (simp add: z1_def z_def MMU_II_members_def geometry_def)
  have "main_ram z1 = ram" "main_rom_D0 z1 = rom" "C0xx_read_handlers z1 = (\<lambda>_. (None, None))"
    "C0xx_write_handlers z1 = (\<lambda>_. (None, None))" by (simp_all add: z1_def z_def MMU_II_members_def)
  moreover have "outside_eq z1 (set_default_C8xx_map_II z1)" by (rule outside_default)
  ultimately have "main_ram ?m = ram" "main_rom_D0 ?m = rom" "C0xx_read_handlers ?m = (\<lambda>_. (None, None))"
    "C0xx_write_handlers ?m = (\<lambda>_. (None, None))"
    by (simp_all add: outside_eq_def default_II_tables)
  moreover have "geometry ?m" using released_fields(3) [OF g1] by (simp add: geometry_def)
  moreover have "c8_ok ?m" by (simp add: c8_ok_def released_fields)
  ultimately show ?thesis using new by blast
qed

lemma init_map_IIe_eq:
  "dyn_class m = Class_IIe \<Longrightarrow> main_rom_D0 m = Some rom \<Longrightarrow>
   init_map m = map_sum id (\<lambda>b. m\<lparr>base := b\<rparr>) (init_map_IIe (main_ram m) rom (base m))"
  by (simp add: init_map_def init_map_IIe_def Let_def)

lemma MMU_IIe_new_fields:
  assumes "length g = 15" and "length gi = 15"
  shows "\<exists>m. MMU_IIe_new g gi ram amount (Some rom) mem d = Inr m \<and> geometry m \<and> c8_ok m \<and> main_below ram (base m) \<and>
     main_ram m = ram \<and> main_rom_D0 m = Some rom \<and> dyn_class m = Class_IIe \<and> C0xx_read_handlers m = (\<lambda>_. (None, None)) \<and>
     C0xx_write_handlers m = (\<lambda>_. (None, None))(6 := (Some 3, None), 7 := (Some 3, None),
       0xA := (Some 3, None), 0xB := (Some 3, None))"
proof -
  obtain m0 where m0: "MMU_II_new g gi ram amount (Some rom) mem d = Inr m0" "geometry m0" "c8_ok m0"
      "main_ram m0 = ram" "main_rom_D0 m0 = Some rom"
    and tabs: "C0xx_read_handlers m0 = (\<lambda>_. (None, None))" "C0xx_write_handlers m0 = (\<lambda>_. (None, None))"
    using MMU_II_new_fields [OF assms, of ram amount "Some rom" mem d] by blast
  let ?m1 = "m0\<lparr>dyn_class := Class_IIe, int_rom_ptable := replicate 15 empty_page\<rparr>"
  have "num_pages (base ?m1) = 256" using m0(2) by (simp add: geometry_def)
  then obtain b where b: "init_map_IIe ram rom (base ?m1) = Inr b" "main_below ram b"
    using init_main_below by blast
  then have init: "init_map ?m1 = Inr (?m1\<lparr>base := b\<rparr>)"
    using init_map_IIe_eq [of ?m1 rom] m0(4,5) by simp
  let ?m2 = "(set_host (power_on_randomize 0xCC ram 0x10000 0x20000 (host b)) (?m1\<lparr>base := b\<rparr>))
    \<lparr>C0xx_write_handlers := (\<lambda>_. (None, None))(6 := (Some 3, None), 7 := (Some 3, None), 0xA := (Some 3, None), 0xB := (Some 3, None))\<rparr>"
  have w: "writes_at 3 [0xC006, 0xC007, 0xC00A, 0xC00B]
      (set_host (power_on_randomize 0xCC ram 0x10000 0x20000 (host b)) (?m1\<lparr>base := b\<rparr>)) = Inr ?m2"
    using tabs by (simp add: writes_at_def set_C0XX_write_handler_def free_slot_def set_host_def)
  obtain t where t: "register_each (\<lambda>m i. map_c1cf_internal_rom (0xC0 + i) (map_option (\<lambda>r. r + i * 256) (main_rom_D0 m)) (Some ''SYS_ROM'') m)
      [1 ..< 16] ?m2 = Inr (?m2\<lparr>int_rom_ptable := t\<rparr>)" "length t = length (int_rom_ptable ?m2)"
    using internal_rom_maps [OF eq_refl [OF set_upt], of ?m2] by blast
  have hb: "base (?m1\<lparr>base := b\<rparr>) = b" by simp
  let ?m3 = "?m2\<lparr>int_rom_ptable := t\<rparr>"
  have "MMU_IIe_new g gi ram amount (Some rom) mem d = Inr ?m3"
    by (simp only: MMU_IIe_new_def m0(1) then_do_Inr init hb w t(1))
  moreover have "base ?m3 = b\<lparr>host := power_on_randomize 0xCC ram 0x10000 0x20000 (host b)\<rparr>" by (simp add: set_host_def)
  then have "main_below ram (base ?m3)"
    using b(2) by (simp add: main_below_def num_pages_def pte_def)
  moreover have "geometry ?m3"
    using m0(2) t(2) \<open>main_below ram (base ?m3)\<close> by (simp add: geometry_def set_host_def main_below_def)
  moreover have "c8_ok ?m3" using m0(3) by (simp add: c8_ok_def set_host_def)
  moreover have "main_ram ?m3 = ram" "main_rom_D0 ?m3 = Some rom" "dyn_class ?m3 = Class_IIe"
    "C0xx_read_handlers ?m3 = (\<lambda>_. (None, None))" using m0 tabs by (simp_all add: set_host_def)
  moreover have "C0xx_write_handlers ?m3 = (\<lambda>_. (None, None))(6 := (Some 3, None), 7 := (Some 3, None),
       0xA := (Some 3, None), 0xB := (Some 3, None))" by simp
  ultimately show ?thesis by blast
qed


section \<open>The map of the whole address space\<close>

definition iie_map :: "nat \<Rightarrow> nat \<Rightarrow> iiememory mmu_ii \<Rightarrow> bool" where
  "iie_map ram rom m \<longleftrightarrow> iie_ok ram rom (devices (base m), base m) \<and> main_ram m = ram \<and>
     main_rom_D0 m = Some rom \<and> dyn_class m = Class_IIe"

lemma iie_ok_cong:
  assumes "iie_ok ram rom (st, b)" and "num_pages b' = 256" and "\<And>p. p < 256 \<Longrightarrow> \<not> io_page p \<Longrightarrow> pte b' p = pte b p"
  shows "iie_ok ram rom (st, b')"
  using assms by (auto simp: iie_ok_def map_follows_def)

lemma iie_map_outside:
  assumes "outside_eq m m'" and "iie_map ram rom m"
  shows "iie_map ram rom m'"
proof -
  have "num_pages (base m) = 256" using assms(2) by (simp add: iie_map_def iie_ok_def)
  then have "num_pages (base m') = 256" "p < 256 \<Longrightarrow> \<not> io_page p \<Longrightarrow> pte (base m') p = pte (base m) p" for p
    using assms(1) by (auto simp: outside_eq_def io_page_def)
  with assms show ?thesis using iie_ok_cong [of ram rom "devices (base m)" "base m" "base m'"]
    by (simp add: iie_map_def outside_eq_def)
qed

text \<open>The memory device leaves the I/O pages alone.\<close>

lemma entries_io:
  assumes "io_page p"
  shows "compose_entry ram rom st p e = e" and "bsr_entry ram rom st p e = e"
proof -
  have "\<not> is_text p" "\<not> is_hires p" "\<not> is_rest p" "\<not> p < 2" "p < 0xD0"
    using assms by (auto simp: io_page_def is_text_def is_hires_def is_rest_def)
  then show "compose_entry ram rom st p e = e" "bsr_entry ram rom st p e = e"
    by (simp_all add: compose_entry_def zp_entry_def bsr_entry_def sw_read_def sw_write_def)
qed

lemma compose_io:
  assumes "num_pages m = 256" and "iiememory_compose_map ram rom (st, m) = Inr (st', m')" and "io_page p"
  shows "pte m' p = pte m p"
proof -
  have "p < 256" using assms(3) by (simp add: io_page_def)
  with assms show ?thesis by (auto simp: compose_remap entries_io)
qed

lemma bsr_io:
  assumes "num_pages m = 256" and "bsr_map_memory ram rom st m = Inr m'" and "io_page p"
  shows "pte m' p = pte m p"
proof -
  have "p < 256" using assms(3) by (simp add: io_page_def)
  with assms show ?thesis by (auto simp: does_remapD [OF bsr_map_remap] entries_io)
qed

lemma iie_do_io:
  assumes "num_pages m = 256" and "iie_do ram rom x (st, m) = Inr (st', m')" and "x \<noteq> SystemReset" and "io_page p"
  shows "pte m' p = pte m p"
  using assms
  by (cases x) (auto simp: iiememory_write_C00X_def iiememory_read_display_def iiememory_write_display_def
      bsr_read_C0xx_def bsr_write_C0xx_def Let_def map_sum_def dest: compose_io bsr_io split: option.splits sum.splits)


lemma compose_pages: "num_pages m = 256 \<Longrightarrow> iiememory_compose_map ram rom (st, m) = Inr (st', m') \<Longrightarrow> num_pages m' = 256"
  by (auto simp: compose_remap)

lemma bsr_pages: "num_pages m = 256 \<Longrightarrow> bsr_map_memory ram rom st m = Inr m' \<Longrightarrow> num_pages m' = 256"
  by (auto simp: does_remapD [OF bsr_map_remap])

lemma iie_do_pages:
  assumes "num_pages m = 256" and "iie_do ram rom x (st, m) = Inr (st', m')" and "x \<noteq> SystemReset"
  shows "num_pages m' = 256"
  using assms
  by (cases x) (auto simp: iiememory_write_C00X_def iiememory_read_display_def iiememory_write_display_def
      bsr_read_C0xx_def bsr_write_C0xx_def Let_def map_sum_def dest: compose_pages bsr_pages split: option.splits sum.splits)

lemma unregistered_fails: "\<not> registered x \<Longrightarrow> iie_do ram rom x (st, m) = Inl AssertFailed"
  by (cases x) (auto simp: iiememory_read_display_def iiememory_write_display_def display_switch_def)

lemma lift_write_ok:
  assumes "mmu_ii_ok m" and "x \<noteq> SystemReset"
  shows "mmu_ii_ok (lift_write (iie_do ram rom x) m)"
proof (cases "iie_do ram rom x (devices (base m), base m)")
  case (Inl err)
  then show ?thesis using assms(1) by (simp add: lift_write_def)
next
  case (Inr s)
  then obtain st b where b: "iie_do ram rom x (devices (base m), base m) = Inr (st, b)" by (cases s) simp
  have N: "num_pages (base m) = 256" using assms(1) by (simp add: mmu_ii_ok_def geometry_def)
  have "mmu_ii_ok (m\<lparr>base := b\<lparr>devices := st\<rparr>\<rparr>)"
    by (rule base_ok [OF assms(1)])
       (use iie_do_pages [OF N b assms(2)] iie_do_io [OF N b assms(2)] in \<open>simp_all add: io_page_def\<close>)
  then show ?thesis using b by (simp add: lift_write_def)
qed

lemma lift_write_map:
  assumes "iie_map ram rom m" and "x \<noteq> SystemReset"
  shows "iie_map ram rom (lift_write (iie_do ram rom x) m)"
proof (cases "registered x")
  case False
  then show ?thesis using assms(1) by (simp add: lift_write_def unregistered_fails)
next
  case True
  have "iie_ok ram rom (devices (base m), base m)" using assms(1) by (simp add: iie_map_def)
  from iie_do_ok [OF this True] obtain st b where b: "iie_do ram rom x (devices (base m), base m) = Inr (st, b)"
      "iie_ok ram rom (st, b)" by blast
  then have "iie_ok ram rom (st, b\<lparr>devices := st\<rparr>)" by (simp add: iie_ok_def map_follows_def)
  with b(1) assms(1) show ?thesis by (simp add: lift_write_def iie_map_def)
qed

lemma snd_lift_read: "snd (lift_read f m) = lift_write (\<lambda>s. map_sum id snd (f s)) m"
  by (cases "f (devices (base m), base m)") (auto simp: lift_read_def lift_write_def)

lemma lifted:
  "snd (lift_read (iiememory_read_display ram rom a) m) = lift_write (iie_do ram rom (DisplayRead a)) m"
  "snd (lift_read (bsr_read_C0xx ram rom a) m) = lift_write (iie_do ram rom (BankRead a)) m"
  "lift_write (iiememory_write_C00X ram rom a) m = lift_write (iie_do ram rom (SwitchWrite a)) m"
  "lift_write (iiememory_write_display ram rom a) m = lift_write (iie_do ram rom (DisplayWrite a)) m"
  "lift_write (bsr_write_C0xx ram rom a) m = lift_write (iie_do ram rom (BankWrite a)) m"
  by (simp_all add: snd_lift_read) (simp_all add: lift_write_def)

interpretation iie: board_handlers "iie_handlers ram rom kbv R" "iie_map ram rom" for ram rom kbv R
proof unfold_locales
  fix m m' :: "iiememory mmu_ii" and h a v slot
  show "mmu_ii_ok m \<Longrightarrow> mmu_ii_ok (snd (ii_read (iie_handlers ram rom kbv R) h a m))"
    by (auto simp: iie_handlers_def lifted lift_write_ok split: sum.split)
  show "mmu_ii_ok m \<Longrightarrow> mmu_ii_ok (ii_write (iie_handlers ram rom kbv R) h a v m)"
    by (simp add: iie_handlers_def lifted lift_write_ok iie_switch_ok)
  show "mmu_ii_ok m \<Longrightarrow> iie_map ram rom m \<Longrightarrow> iie_map ram rom (snd (ii_read (iie_handlers ram rom kbv R) h a m))"
    by (auto simp: iie_handlers_def lifted lift_write_map split: sum.split)
  show "mmu_ii_ok m \<Longrightarrow> iie_map ram rom m \<Longrightarrow> iie_map ram rom (ii_write (iie_handlers ram rom kbv R) h a v m)"
    by (simp add: iie_handlers_def lifted lift_write_map iie_map_outside [OF outside_switch])
  show "outside_eq m m' \<Longrightarrow> iie_map ram rom m \<Longrightarrow> iie_map ram rom m'" by (rule iie_map_outside)
qed (simp_all add: iie_handlers_def c8_frame_cards outside_cards)

section \<open>Runs of the machine\<close>

text \<open>
  \<^verbatim>\<open>computer_t::reset\<close>: a cold start first invalidates the power-up bytes, then the MMU is reset and the
  memory device's handler runs.  (The processor's own reset, between the two, is not part of the memory
  system.)
\<close>

definition reset_computer :: "iiememory ii_handlers \<Rightarrow> nat \<Rightarrow> nat \<Rightarrow> bool \<Rightarrow> iiememory mmu_ii \<Rightarrow> mmu_error + iiememory mmu_ii" where
  "reset_computer H ram rom cold_start m =
     (let m1 = (if cold_start then MMU_II_write H 0x3F4 0 (MMU_II_write H 0x3F3 0 (MMU_II_write H 0x3F2 0 m)) else m)
      in then_do (MMU_IIe_reset m1) (\<lambda>m2.
         map_sum id (\<lambda>(st, b). m2\<lparr>base := b\<lparr>devices := st\<rparr>\<rparr>) (reset_iiememory ram rom (devices (base m2), base m2))))"

datatype iie_event = Bus_Read u32 | Bus_Write u32 u8 | Computer_Reset bool

fun iie_step :: "nat \<Rightarrow> nat \<Rightarrow> u8 option \<Rightarrow> card_roms \<Rightarrow> iie_event \<Rightarrow> iiememory mmu_ii \<Rightarrow> mmu_error + iiememory mmu_ii" where
  "iie_step ram rom kbv R (Bus_Read a) m = Inr (snd (MMU_II_read (iie_handlers ram rom kbv R) a m))"
| "iie_step ram rom kbv R (Bus_Write a v) m = Inr (MMU_II_write (iie_handlers ram rom kbv R) a v m)"
| "iie_step ram rom kbv R (Computer_Reset c) m = reset_computer (iie_handlers ram rom kbv R) ram rom c m"

primrec iie_steps :: "nat \<Rightarrow> nat \<Rightarrow> u8 option \<Rightarrow> card_roms \<Rightarrow> iie_event list \<Rightarrow> iiememory mmu_ii \<Rightarrow> mmu_error + iiememory mmu_ii" where
  "iie_steps ram rom kbv R [] m = Inr m"
| "iie_steps ram rom kbv R (x # xs) m = then_do (iie_step ram rom kbv R x m) (iie_steps ram rom kbv R xs)"


lemma main_below_outside: "outside_eq m m' \<Longrightarrow> main_below ram (base m) \<Longrightarrow> main_below ram (base m')"
  by (auto simp: outside_eq_def main_below_def)

lemma MMU_IIe_reset_main:
  assumes "mmu_ii_ok m" and "iie_map ram rom m"
  shows "\<exists>m'. MMU_IIe_reset m = Inr m' \<and> mmu_ii_ok m' \<and> main_below ram (base m') \<and> main_ram m' = ram \<and>
     main_rom_D0 m' = Some rom \<and> dyn_class m' = Class_IIe"
proof -
  let ?d = "set_default_C8xx_map_II m"
  have d: "outside_eq m ?d" by (rule outside_default)
  have "num_pages (base m) = 256" using assms(1) by (simp add: mmu_ii_ok_def geometry_def)
  with d have f: "num_pages (base ?d) = 256" "main_ram ?d = ram" "main_rom_D0 ?d = Some rom" "dyn_class ?d = Class_IIe"
    using assms(2) by (simp_all add: outside_eq_def iie_map_def)
  let ?i = "?d\<lparr>base := remap (init_entry ?d) (base ?d)\<rparr>"
  have i: "MMU_II_reset m = Inr ?i" unfolding MMU_II_reset_def by (rule ii_init_remap [OF f(1)])
  have mb: "main_below ram (base ?i)" using f by (simp add: main_below_def init_entry_def)
  let ?j = "compose_c1cf (?i\<lparr>f_intcxrom := False, f_slotc3rom := False\<rparr>)"
  have r: "MMU_IIe_reset m = Inr ?j" by (simp add: MMU_IIe_reset_def i)
  have o: "outside_eq ?i ?j"
    using outside_trans [OF outside_trans [OF outside_fields(6) outside_fields(7)] outside_compose] .
  have "mmu_ii_ok ?j" using MMU_IIe_reset_ok [OF assms(1)] r by simp
  moreover have "main_below ram (base ?j)" by (rule main_below_outside [OF o mb])
  moreover have "main_ram ?j = ram" "main_rom_D0 ?j = Some rom" "dyn_class ?j = Class_IIe"
    using o f by (simp_all add: outside_eq_def)
  ultimately show ?thesis using r by blast
qed

lemma reset_io:
  assumes "num_pages m = 256" and "reset_iiememory ram rom (st, m) = Inr (st', m')"
  shows "num_pages m' = 256" and "io_page p \<Longrightarrow> pte m' p = pte m p"
proof -
  obtain st1 m1 where "bsr_map_memory ram rom st1 m = Inr m1" "iiememory_compose_map ram rom (st1, m1) = Inr (st', m')"
    using assms(2) by (auto simp: reset_iiememory_def Let_def split: sum.splits)
  then show "num_pages m' = 256" "io_page p \<Longrightarrow> pte m' p = pte m p"
    using assms(1) bsr_pages compose_pages bsr_io compose_io by metis+
qed

lemma reset_computer_ok:
  assumes "mmu_ii_ok m" and "iie_map ram rom m"
  shows "\<exists>m'. reset_computer (iie_handlers ram rom kbv R) ram rom c m = Inr m' \<and> mmu_ii_ok m' \<and> iie_map ram rom m'"
proof -
  let ?H = "iie_handlers ram rom kbv R"
  define m1 where "m1 = (if c then MMU_II_write ?H 0x3F4 0 (MMU_II_write ?H 0x3F3 0 (MMU_II_write ?H 0x3F2 0 m)) else m)"
  have "mmu_ii_ok m1" "iie_map ram rom m1"
    using assms by (simp_all add: m1_def iie.write_ok iie.write_J)
  from MMU_IIe_reset_main [OF this] obtain m2 where m2: "MMU_IIe_reset m1 = Inr m2" "mmu_ii_ok m2"
      "main_below ram (base m2)" "main_ram m2 = ram" "main_rom_D0 m2 = Some rom" "dyn_class m2 = Class_IIe" by blast
  have N: "num_pages (base m2) = 256" using m2(2) by (simp add: mmu_ii_ok_def geometry_def)
  obtain st b where b: "reset_iiememory ram rom (devices (base m2), base m2) = Inr (st, b)" "iie_ok ram rom (st, b)"
    using iie_reset_ok [OF m2(3)] by blast
  let ?m = "m2\<lparr>base := b\<lparr>devices := st\<rparr>\<rparr>"
  have "mmu_ii_ok ?m"
    by (rule base_ok [OF m2(2)]) (use reset_io [OF N b(1)] in \<open>simp_all add: io_page_def\<close>)
  moreover have "iie_map ram rom ?m"
    using b(2) m2(4-6) by (simp add: iie_map_def iie_ok_def map_follows_def)
  moreover have "reset_computer ?H ram rom c m = Inr ?m"
    unfolding reset_computer_def Let_def m1_def [symmetric] m2(1) then_do_Inr b(1) by simp
  ultimately show ?thesis by blast
qed

lemma iie_steps_ok:
  "mmu_ii_ok m \<Longrightarrow> iie_map ram rom m \<Longrightarrow>
   \<exists>m'. iie_steps ram rom kbv R xs m = Inr m' \<and> mmu_ii_ok m' \<and> iie_map ram rom m'"
proof (induction xs arbitrary: m)
  case (Cons x xs)
  have "\<exists>m1. iie_step ram rom kbv R x m = Inr m1 \<and> mmu_ii_ok m1 \<and> iie_map ram rom m1"
    using Cons.prems reset_computer_ok [OF Cons.prems]
    by (cases x) (auto simp: iie.read_ok iie.read_J iie.write_ok iie.write_J)
  then show ?case using Cons.IH by (auto simp: then_do_Inr)
qed simp

lemma iie_power_up_ok:
  assumes "length g = 15" and "length gi = 15" and "1 \<le> slot" and "slot \<le> 7"
  shows "\<exists>m0 m1. MMU_IIe_new g gi ram amount (Some rom) mem d = Inr m0 \<and> init_iiememory_board ram rom m0 = Inr m1 \<and>
     mmu_ii_ok (set_slot_rom slot p name m1) \<and> iie_map ram rom (set_slot_rom slot p name m1)"
proof -
  obtain m0 where m0: "MMU_IIe_new g gi ram amount (Some rom) mem d = Inr m0" "geometry m0" "c8_ok m0" "main_below ram (base m0)"
      "main_ram m0 = ram" "main_rom_D0 m0 = Some rom" "dyn_class m0 = Class_IIe"
      "C0xx_read_handlers m0 = (\<lambda>_. (None, None))"
      "C0xx_write_handlers m0 = (\<lambda>_. (None, None))(6 := (Some 3, None), 7 := (Some 3, None),
       0xA := (Some 3, None), 0xB := (Some 3, None))"
    using MMU_IIe_new_fields [OF assms(1,2), of ram amount rom mem d] by blast
  obtain b where b: "init_iiememory ram rom (base m0) = Inr (iiememory_init, b)" "iie_ok ram rom (iiememory_init, b)"
    using init_iie_ok [OF m0(4)] by blast
  obtain r w where rw: "init_iiememory_board ram rom m0 = Inr (m0\<lparr>C0xx_read_handlers := r, C0xx_write_handlers := w,
      base := b\<lparr>devices := iiememory_init\<rparr>\<rparr>)"
    using iiememory_registers [OF m0(8,9), of ram rom] b(1) by auto
  let ?m1 = "m0\<lparr>C0xx_read_handlers := r, C0xx_write_handlers := w, base := b\<lparr>devices := iiememory_init\<rparr>\<rparr>"
  have N: "num_pages b = 256" using b(2) by (simp add: iie_ok_def)
  have g1: "geometry ?m1" "c8_ok ?m1" using m0(2,3) N by (simp_all add: geometry_def c8_ok_def)
  have map1: "iie_map ram rom ?m1" using b(2) m0(5-7) by (simp add: iie_map_def iie_ok_def map_follows_def)
  let ?u = "map_c1cf_page_read_only (0xC0 + slot) p name ?m1"
  have e: "set_slot_rom slot p name ?m1 = compose_c1cf ?u" using assms(3,4) by (simp add: set_slot_rom_def)
  have fr: "c8_frame ?m1 ?u" by (rule c8_frame_map_c1cf)
  have "mmu_ii_ok (compose_c1cf ?u)"
    using fr g1 by (intro slot_compose_ok) (simp_all add: c8_frame_def c8_frame_ok [OF fr])
  moreover have "iie_map ram rom (compose_c1cf ?u)"
    by (rule iie_map_outside [OF outside_trans [OF outside_map_c1cf(2) outside_compose] map1])
  ultimately show ?thesis using m0(1) rw unfolding e [symmetric] by blast
qed

text \<open>
  C5.  The memory system of the IIe, from power up.  Whatever the allocations held, the constructor of
  the MMU and the registrations of the memory device succeed; once a card's ROM has been entered,
  after any sequence of bus reads, bus writes and computer resets, no assertion has failed, every page
  outside the I/O space is where 80STORE, RAMRD, RAMWRT, ALTZP, PAGE2, HIRES and the bank flip-flops
  put it, the pages \<open>$C1\<close> to \<open>$CF\<close> show the internal ROM or the cards' as INTCXROM, SLOTC3ROM and the slot register
  prescribe (\<open>mmu_ii_ok\<close>), and a bus read outside \<open>$C000\<close> to \<open>$CFFF\<close> returns the byte of host memory that those
  switches select.
\<close>

theorem iie_memory_follows_switches:
  assumes "length g = 15" and "length gi = 15" and "1 \<le> slot" and "slot \<le> 7"
  shows "\<exists>m0 m1 m'. MMU_IIe_new g gi ram amount (Some rom) mem d = Inr m0 \<and> init_iiememory_board ram rom m0 = Inr m1 \<and>
     iie_steps ram rom kbv R xs (set_slot_rom slot p name m1) = Inr m' \<and> mmu_ii_ok m' \<and>
     map_follows ram rom (devices (base m')) (base m') \<and>
     (unat a < 0x10000 \<and> \<not> io_page (unat a div 256) \<longrightarrow>
        MMU_II_read (iie_handlers ram rom kbv R) a m' =
          (host (base m') (the (spec_read ram rom (devices (base m')) (unat a div 256)) + unat a mod 256), m'))"
proof -
  obtain m0 m1 where m: "MMU_IIe_new g gi ram amount (Some rom) mem d = Inr m0" "init_iiememory_board ram rom m0 = Inr m1"
      "mmu_ii_ok (set_slot_rom slot p name m1)" "iie_map ram rom (set_slot_rom slot p name m1)"
    using iie_power_up_ok [OF assms] by blast
  obtain m' where m': "iie_steps ram rom kbv R xs (set_slot_rom slot p name m1) = Inr m'" "mmu_ii_ok m'" "iie_map ram rom m'"
    using iie_steps_ok [OF m(3,4)] by blast
  have f: "map_follows ram rom (devices (base m')) (base m')" "num_pages (base m') = 256"
    using m'(3) by (simp_all add: iie_map_def iie_ok_def)
  have "MMU_II_read (iie_handlers ram rom kbv R) a m' =
      (host (base m') (the (spec_read ram rom (devices (base m')) (unat a div 256)) + unat a mod 256), m')"
    if a: "unat a < 0x10000" "\<not> io_page (unat a div 256)"
  proof -
    let ?p = "unat a div 256"
    have p: "?p < 256" "\<not> (0xC0 \<le> ?p \<and> ?p < 0xD0)" using a by (auto simp: io_page_def)
    have "read_p (pte (base m') ?p) = spec_read ram rom (devices (base m')) ?p"
      using f(1) p(1) a(2) by (simp add: map_follows_def)
    moreover have "spec_read ram rom (devices (base m')) ?p \<noteq> None" by (simp add: spec_read_def)
    then obtain x where "spec_read ram rom (devices (base m')) ?p = Some x" by blast
    moreover have "MMU_II_read (iie_handlers ram rom kbv R) a m' = page_read (iie_handlers ram rom kbv R) a m'"
      using a(1) p f(2) by (auto simp: MMU_II_read_def Let_def bus_page)
    ultimately show ?thesis by (simp add: page_read_def Let_def)
  qed
  with m(1,2) m'(1,2) f(1) show ?thesis by blast
qed

theorem iie_memory_follows_switches_witness:
  "\<exists>m0 m1 m'. MMU_IIe_new (replicate 15 empty_page) (replicate 15 empty_page) 0 0x20000 (Some 0x20000) (\<lambda>_. 0) iiememory_init = Inr m0 \<and>
     init_iiememory_board 0 0x20000 m0 = Inr m1 \<and>
     iie_steps 0 0x20000 None example_roms [Bus_Write 0xC003 0, Bus_Read 0xC083, Computer_Reset True]
       (set_slot_rom 6 (Some 0x30000) (Some ''DISKII'') m1) = Inr m' \<and> mmu_ii_ok m'"
  using iie_memory_follows_switches [of "replicate 15 empty_page" "replicate 15 empty_page" 6 0 "0x20000" "0x20000"
    "\<lambda>_. 0" iiememory_init None example_roms "[Bus_Write 0xC003 0, Bus_Read 0xC083, Computer_Reset True]"
    "Some 0x30000" "Some ''DISKII''" 0]
  by fastforce

end
