(* ===== verification/Woz_Bits.thy ===== *)
theory Woz_Bits
  imports Prelude "HOL-Library.Monad_Syntax"
begin

text \<open>
  The bit stream of a floppy disk track and the base class of the nibblizers
  (\<^verbatim>\<open>src/util/woz_nibblizer.hpp\<close>, \<^verbatim>\<open>woz_nibblizer.cpp\<close>): bits are appended most significant first,
  a data nibble takes eight bits and a sync nibble ten, and a nibble is read back by shifting bits
  into a register until its top bit is set.

  A track is abstracted to the list of its bits (\<open>stream\<close>).  The judgement \<open>emits f xs\<close> says that the
  writer \<open>f\<close> appends \<open>xs\<close>; \<open>ahead\<close> is what a cursor will read before the end of the track.
\<close>

named_theorems emits_intro "composition rules for emits"

section \<open>The track and its writers\<close>

record woz_track_t =
  bits :: "u8 list"
  bit_count :: u32

definition empty_track :: woz_track_t where
  "empty_track = \<lparr>bits = [], bit_count = 0\<rparr>"

definition emit_bit :: "bool \<Rightarrow> woz_track_t \<Rightarrow> woz_track_t" where
  "emit_bit b trk =
     (let byte_idx = unat (drop_bit 3 (bit_count trk));
          bit_idx = unat (7 - (bit_count trk AND 7));
          v = (if byte_idx \<ge> length (bits trk) then bits trk @ [0x00] else bits trk)
      in \<lparr>bits = (if b then v[byte_idx := v ! byte_idx OR push_bit bit_idx 1] else v),
          bit_count = bit_count trk + 1\<rparr>)"

definition emit_sync_byte :: "woz_track_t \<Rightarrow> woz_track_t" where
  "emit_sync_byte trk = emit_bit False (emit_bit False (fold (\<lambda>_. emit_bit True) [0..<8] trk))"

definition emit_data_byte :: "u8 \<Rightarrow> woz_track_t \<Rightarrow> woz_track_t" where
  "emit_data_byte byte trk = fold (\<lambda>i. emit_bit (bit byte i)) (rev [0..<8]) trk"

definition emit_sync_bytes :: "nat \<Rightarrow> woz_track_t \<Rightarrow> woz_track_t" where
  "emit_sync_bytes n trk = fold (\<lambda>_. emit_sync_byte) [0..<n] trk"

definition emit_encoded_44 :: "u8 \<Rightarrow> woz_track_t \<Rightarrow> woz_track_t" where
  "emit_encoded_44 value trk =
     (let xx = drop_bit 1 (value AND 0xAA) OR 0xAA;
          yy = (value AND 0x55) OR 0xAA
      in emit_data_byte yy (emit_data_byte xx trk))"

section \<open>The cursor\<close>

record bit_cursor =
  pos :: u32
  consumed :: u64

definition start_cursor :: bit_cursor where
  "start_cursor = \<lparr>pos = 0, consumed = 0\<rparr>"

text \<open>\<^verbatim>\<open>read_bit\<close> divides by the bit count and indexes the vector of bytes; \<^const>\<open>None\<close> stands for a
  division by zero and for an index past the vector.\<close>

definition read_bit :: "woz_track_t \<Rightarrow> bit_cursor \<Rightarrow> (bool \<times> bit_cursor) option" where
  "read_bit trk c =
     (let i = pos c mod bit_count trk; j = unat (drop_bit 3 i)
      in if bit_count trk = 0 \<or> j \<ge> length (bits trk) then None
         else Some (bit (bits trk ! j) (unat (7 - (i AND 7))),
                    \<lparr>pos = pos c + 1, consumed = consumed c + 1\<rparr>))"

definition shift_in :: "u8 \<Rightarrow> bool \<Rightarrow> u8" where
  "shift_in shifter b = push_bit 1 shifter OR of_bool b"

text \<open>The loop of \<^verbatim>\<open>read_nibble\<close>, with the shift register; \<^const>\<open>None\<close> also when it never ends.\<close>

partial_function (option) latch_nibble ::
    "woz_track_t \<Rightarrow> u8 \<Rightarrow> bit_cursor \<Rightarrow> (u8 \<times> bit_cursor) option" where
  "latch_nibble trk shifter c = do {
     (b, c') \<leftarrow> read_bit trk c;
     let shifter' = shift_in shifter b;
     if shifter' AND 0x80 \<noteq> 0 then Some (shifter', c') else latch_nibble trk shifter' c'
   }"

definition read_nibble :: "woz_track_t \<Rightarrow> bit_cursor \<Rightarrow> (u8 \<times> bit_cursor) option" where
  "read_nibble trk c = latch_nibble trk 0 c"

section \<open>Abstraction to a list of bits\<close>

definition stored_bit :: "u8 list \<Rightarrow> nat \<Rightarrow> bool" where
  "stored_bit bs i = bit (bs ! (i div 8)) (7 - i mod 8)"

definition stream :: "woz_track_t \<Rightarrow> bool list" where
  "stream trk = map (stored_bit (bits trk)) [0..<unat (bit_count trk)]"

text \<open>As many bytes as the bits need, and the unused bits of the last byte are clear.\<close>

definition track_ok :: "woz_track_t \<Rightarrow> bool" where
  "track_ok trk \<longleftrightarrow>
     length (bits trk) = (unat (bit_count trk) + 7) div 8 \<and>
     (\<forall>i \<ge> unat (bit_count trk). i < 8 * length (bits trk) \<longrightarrow> \<not> stored_bit (bits trk) i)"

lemma length_stream [simp]: "length (stream trk) = unat (bit_count trk)"
  by (simp add: stream_def)

lemma track_ok_empty: "track_ok empty_track" "stream empty_track = []"
  by (simp_all add: track_ok_def empty_track_def stream_def)

lemma bit_index:
  fixes w :: u32
  shows "unat (drop_bit 3 w) = unat w div 8" "unat (7 - (w AND 7)) = 7 - unat w mod 8"
proof -
  show "unat (drop_bit 3 w) = unat w div 8"
    by (simp add: drop_bit_eq_div unat_div)
  have "w AND 7 = take_bit 3 w"
    by (simp add: take_bit_eq_mask mask_eq_exp_minus_1)
  moreover have "unat (take_bit 3 w) = unat w mod 8"
    by (simp add: take_bit_eq_mod unat_mod)
  ultimately show "unat (7 - (w AND 7)) = 7 - unat w mod 8"
    by (simp add: unat_sub word_le_nat_alt)
qed

lemma stored_bit_set:
  assumes "i div 8 < length v"
  shows "stored_bit (v[n div 8 := v ! (n div 8) OR push_bit (7 - n mod 8) 1]) i \<longleftrightarrow> i = n \<or> stored_bit v i"
proof (cases "i div 8 = n div 8")
  case True
  have "i = n \<longleftrightarrow> i mod 8 = n mod 8"
    using True by (metis div_mult_mod_eq)
  moreover have "i mod 8 < 8" "n mod 8 < 8"
    by simp_all
  ultimately have "i = n \<longleftrightarrow> 7 - i mod 8 = 7 - n mod 8"
    by linarith
  with True assms show ?thesis
    by (auto simp: stored_bit_def bit_simps)
next
  case False
  then show ?thesis by (auto simp: stored_bit_def)
qed

lemma emit_bit_stream:
  assumes "track_ok trk" and "unat (bit_count trk) + 1 < 2 ^ 32"
  shows "track_ok (emit_bit b trk)" and "stream (emit_bit b trk) = stream trk @ [b]"
proof -
  define n where "n = unat (bit_count trk)"
  define v where "v = (if n div 8 \<ge> length (bits trk) then bits trk @ [0x00] else bits trk)"
  have len: "length (bits trk) = (n + 7) div 8"
    and clear: "\<And>i. n \<le> i \<Longrightarrow> i < 8 * length (bits trk) \<Longrightarrow> \<not> stored_bit (bits trk) i"
    using assms(1) by (auto simp: track_ok_def n_def)
  have len_v: "length v = (n + 1 + 7) div 8" "n div 8 < length v"
    using len by (auto simp: v_def)
  have same: "stored_bit v i \<longleftrightarrow> stored_bit (bits trk) i" if "i < n" for i
    using that len by (auto simp: v_def stored_bit_def nth_append)
  have rest: "\<not> stored_bit v i" if "n \<le> i" "i < 8 * length v" for i
    using that clear [of i] len by (auto simp: v_def stored_bit_def nth_append split: if_splits)
  have count: "unat (bit_count trk + 1) = n + 1"
    using assms(2) by (simp add: n_def unat_word_ariths)
  have eq: "emit_bit b trk = \<lparr>bits = (if b then v[n div 8 := v ! (n div 8) OR push_bit (7 - n mod 8) 1] else v),
      bit_count = bit_count trk + 1\<rparr>"
    by (simp add: emit_bit_def Let_def bit_index v_def n_def)
  have stored: "stored_bit (bits (emit_bit b trk)) i \<longleftrightarrow> (if i = n then b else stored_bit v i)"
    if "i < 8 * length v" for i
    using that rest [of i] stored_bit_set [of i v n] by (auto simp: eq)
  have len': "length (bits (emit_bit b trk)) = length v"
    by (simp add: eq)
  show "track_ok (emit_bit b trk)"
    using stored rest len_v by (auto simp: track_ok_def len' eq [THEN arg_cong [where f = bit_count]] count)
  have "map (stored_bit (bits (emit_bit b trk))) [0..<n + 1] = map (stored_bit (bits trk)) [0..<n] @ [b]"
    using stored same len_v by auto
  then show "stream (emit_bit b trk) = stream trk @ [b]"
    by (simp only: stream_def eq [THEN arg_cong [where f = bit_count]] count n_def [symmetric]
        woz_track_t.simps)
qed

section \<open>What the writers append\<close>

definition emits :: "(woz_track_t \<Rightarrow> woz_track_t) \<Rightarrow> bool list \<Rightarrow> bool" where
  "emits f xs \<longleftrightarrow>
     (\<forall>trk. track_ok trk \<and> unat (bit_count trk) + length xs < 2 ^ 32 \<longrightarrow>
        track_ok (f trk) \<and> stream (f trk) = stream trk @ xs)"

lemma emitsD:
  assumes "emits f xs" "track_ok trk" "unat (bit_count trk) + length xs < 2 ^ 32"
  shows "track_ok (f trk)" "stream (f trk) = stream trk @ xs" "unat (bit_count (f trk)) = unat (bit_count trk) + length xs"
  using assms length_stream [of "f trk"] by (auto simp: emits_def)

lemma emits_bit [emits_intro]: "emits (emit_bit b) [b]"
  using emit_bit_stream by (simp add: emits_def)

lemma emits_then [emits_intro]:
  assumes "emits f xs" "emits g ys"
  shows "emits (\<lambda>trk. g (f trk)) (xs @ ys)"
  unfolding emits_def
proof (intro allI impI)
  fix trk assume trk: "track_ok trk \<and> unat (bit_count trk) + length (xs @ ys) < 2 ^ 32"
  then have f: "track_ok (f trk)" "stream (f trk) = stream trk @ xs"
    "unat (bit_count (f trk)) = unat (bit_count trk) + length xs"
    using emitsD [OF assms(1)] by simp_all
  then show "track_ok (g (f trk)) \<and> stream (g (f trk)) = stream trk @ xs @ ys"
    using emitsD [OF assms(2), of "f trk"] trk by simp
qed

lemma emits_nothing: "emits (\<lambda>trk. trk) []"
  by (simp add: emits_def)

lemma emits_fold [emits_intro]:
  assumes "\<And>x. x \<in> set xs \<Longrightarrow> emits (f x) (g x)"
  shows "emits (fold f xs) (concat (map g xs))"
  using assms
proof (induction xs)
  case Nil
  show ?case using emits_nothing by (simp add: id_def)
next
  case (Cons x xs)
  then have "emits (\<lambda>trk. fold f xs (f x trk)) (g x @ concat (map g xs))"
    by (intro emits_then) simp_all
  then show ?case by (simp add: comp_def)
qed

definition byte_bits :: "u8 \<Rightarrow> bool list" where
  "byte_bits byte = map (bit byte) (rev [0..<8])"

lemma length_byte_bits [simp]: "length (byte_bits b) = 8"
  by (simp add: byte_bits_def)

text \<open>A cell of the track is a nibble and the number of zero bits behind it.\<close>

type_synonym cell = "u8 \<times> nat"

definition cell_bits :: "cell list \<Rightarrow> bool list" where
  "cell_bits cs = concat (map (\<lambda>(b, k). byte_bits b @ replicate k False) cs)"

lemma cell_bits_simps [simp]:
  "cell_bits [] = []" "cell_bits ((b, k) # cs) = byte_bits b @ replicate k False @ cell_bits cs"
  "cell_bits (cs @ ds) = cell_bits cs @ cell_bits ds"
  by (simp_all add: cell_bits_def)

abbreviation data_cells :: "u8 list \<Rightarrow> cell list" where
  "data_cells bs \<equiv> map (\<lambda>b. (b, 0)) bs"

abbreviation sync_cells :: "nat \<Rightarrow> cell list" where
  "sync_cells n \<equiv> replicate n (0xFF, 2)"

lemma emits_data_byte [emits_intro]: "emits (emit_data_byte b) (cell_bits [(b, 0)])"
  using emits_fold [where f = "\<lambda>i. emit_bit (bit b i)" and g = "\<lambda>i. [bit b i]" and xs = "rev [0..<8]", OF emits_bit]
  by (simp add: emit_data_byte_def [abs_def] byte_bits_def concat_map_singleton)

lemma byte_bits_FF: "byte_bits 0xFF = replicate 8 True"
  by (simp add: byte_bits_def upt_rec eval_nat_numeral)

lemma emits_sync_byte [emits_intro]: "emits emit_sync_byte (cell_bits [(0xFF, 2)])"
proof -
  have ones: "emits (fold (\<lambda>_. emit_bit True) [0..<8]) (replicate 8 True)"
    using emits_fold [where f = "\<lambda>_ :: nat. emit_bit True" and g = "\<lambda>_. [True]" and xs = "[0..<8]", OF emits_bit]
    by (simp add: concat_map_singleton map_replicate_const)
  have "emits (\<lambda>trk. emit_bit False (emit_bit False (fold (\<lambda>_. emit_bit True) [0..<8] trk)))
      ((replicate 8 True @ [False]) @ [False])"
    by (rule emits_then [OF emits_then [OF ones emits_bit] emits_bit])
  then show ?thesis
    by (simp add: emit_sync_byte_def [abs_def] byte_bits_FF numeral_2_eq_2)
qed

lemma cell_bits_replicate: "cell_bits (replicate n x) = concat (replicate n (cell_bits [x]))"
  by (induction n) (auto simp: cell_bits_def)

lemma emits_sync_bytes [emits_intro]: "emits (emit_sync_bytes n) (cell_bits (sync_cells n))"
  using emits_fold [where f = "\<lambda>_ :: nat. emit_sync_byte" and g = "\<lambda>_. cell_bits [(0xFF, 2)]" and xs = "[0..<n]",
      OF emits_sync_byte]
  by (simp add: emit_sync_bytes_def [abs_def] cell_bits_replicate map_replicate_const del: cell_bits_simps(2))

section \<open>Reading back\<close>

definition ahead :: "woz_track_t \<Rightarrow> bit_cursor \<Rightarrow> bool list" where
  "ahead trk c = drop (unat (pos c)) (stream trk)"

definition advance :: "nat \<Rightarrow> bit_cursor \<Rightarrow> bit_cursor" where
  "advance n c = \<lparr>pos = pos c + of_nat n, consumed = consumed c + of_nat n\<rparr>"

lemma advance_advance [simp]: "advance n (advance m c) = advance (m + n) c" "advance 0 c = c"
  by (simp_all add: advance_def add.assoc)

lemma pos_advance:
  assumes "unat (pos c) + n \<le> unat (bit_count trk)"
  shows "unat (pos (advance n c)) = unat (pos c) + n"
proof -
  have "unat (bit_count trk) < 2 ^ LENGTH(32)"
    by (rule unsigned_less)
  then have "unat (pos c) + n < 2 ^ 32"
    using assms by simp
  then show ?thesis
    by (simp add: advance_def unat_word_ariths unat_of_nat)
qed

lemma ahead_advance:
  assumes "ahead trk c = xs @ ys"
  shows "ahead trk (advance (length xs) c) = ys"
proof -
  have "length xs \<le> unat (bit_count trk) - unat (pos c)"
    using arg_cong [OF assms, of length] by (simp add: ahead_def)
  then consider "length xs = 0" | "unat (pos c) + length xs \<le> unat (bit_count trk)" by linarith
  then show ?thesis
  proof cases
    case 1
    then show ?thesis using assms by simp
  next
    case 2
    then show ?thesis
      using assms pos_advance [OF 2] by (simp add: ahead_def add.commute flip: drop_drop)
  qed
qed

lemma read_bit_ahead:
  assumes "track_ok trk" "ahead trk c = b # xs"
  shows "read_bit trk c = Some (b, advance 1 c)"
proof -
  have less: "unat (pos c) < unat (bit_count trk)"
    using arg_cong [OF assms(2), of length] by (simp add: ahead_def)
  then have mod: "pos c mod bit_count trk = pos c"
    by (simp add: word_unat_eq_iff unat_mod)
  have "stream trk ! unat (pos c) = b"
    using assms(2) less by (simp add: ahead_def flip: Cons_nth_drop_Suc)
  then have "bit (bits trk ! (unat (pos c) div 8)) (7 - unat (pos c) mod 8) = b"
    using less by (simp add: stream_def stored_bit_def)
  moreover have "unat (pos c) div 8 < length (bits trk)"
    using assms(1) less by (auto simp: track_ok_def)
  ultimately show ?thesis
    using less by (auto simp: read_bit_def Let_def mod bit_index advance_def)
qed

lemma shift_in_drop_bit: "shift_in (drop_bit (Suc n) b) (bit b n) = drop_bit n b"
proof (rule bit_word_eqI)
  fix m assume "m < LENGTH(8)"
  then show "bit (shift_in (drop_bit (Suc n) b) (bit b n)) m = bit (drop_bit n b) m"
    unfolding shift_in_def bit_or_iff bit_push_bit_iff bit_drop_bit_eq by (cases m) (auto simp: bit_simps)
qed

lemma shift_in_zero: "shift_in 0 False = 0"
  by (simp add: shift_in_def)

lemma latched_iff:
  fixes b :: u8
  shows "drop_bit n b AND 0x80 \<noteq> 0 \<longleftrightarrow> bit b (n + 7)"
proof -
  have "(0x80 :: u8) = push_bit 7 1" by simp
  then have "w AND 0x80 \<noteq> 0 \<longleftrightarrow> bit w 7" for w :: u8
    by (metis and_exp_eq_0_iff_not_bit push_bit_of_1)
  then show ?thesis by (simp add: bit_simps add.commute)
qed

lemma latch_bits:
  assumes "track_ok trk" "bit b 7" "ahead trk c = map (bit b) (rev [0..<Suc n]) @ xs"
  shows "latch_nibble trk (drop_bit (Suc n) b) c = Some (b, advance (Suc n) c)"
  using assms(3)
proof (induction n arbitrary: c)
  case 0
  have "read_bit trk c = Some (bit b 0, advance 1 c)"
    using 0 by (intro read_bit_ahead [OF assms(1)]) simp
  moreover have "b AND 0x80 \<noteq> 0"
    using latched_iff [of 0 b] assms(2) by simp
  ultimately show ?case
    using shift_in_drop_bit [of 0 b] by (subst latch_nibble.simps) (simp add: Let_def)
next
  case (Suc n)
  have read: "read_bit trk c = Some (bit b (Suc n), advance 1 c)"
    using Suc.prems by (intro read_bit_ahead [OF assms(1)]) simp
  have "ahead trk (advance 1 c) = map (bit b) (rev [0..<Suc n]) @ xs"
    using ahead_advance [of trk c "[bit b (Suc n)]"] Suc.prems by simp
  then have rest: "latch_nibble trk (drop_bit (Suc n) b) (advance 1 c) = Some (b, advance (Suc n) (advance 1 c))"
    by (rule Suc.IH)
  have "\<not> bit b (Suc n + 7)"
    by (auto dest: bit_imp_le_length)
  then have "drop_bit (Suc n) b AND 0x80 = 0"
    using latched_iff [of "Suc n" b] by blast
  then show ?case
    using rest by (subst latch_nibble.simps) (simp add: Let_def read shift_in_drop_bit)
qed

lemma latch_skips_zero:
  assumes "track_ok trk" "ahead trk c = False # xs"
  shows "latch_nibble trk 0 c = latch_nibble trk 0 (advance 1 c)"
  by (subst latch_nibble.simps) (simp add: Let_def read_bit_ahead [OF assms] shift_in_zero)

lemma read_nibble_cell:
  assumes "track_ok trk" "bit b 7" "ahead trk c = replicate j False @ byte_bits b @ xs"
  shows "read_nibble trk c = Some (b, advance (j + 8) c)" "ahead trk (advance (j + 8) c) = xs"
proof -
  show "read_nibble trk c = Some (b, advance (j + 8) c)"
    unfolding read_nibble_def using assms(3)
  proof (induction j arbitrary: c)
    case 0
    have "latch_nibble trk (drop_bit (Suc 7) b) c = Some (b, advance (Suc 7) c)"
      using 0 by (intro latch_bits [OF assms(1,2), where xs = xs]) (simp add: byte_bits_def)
    moreover have "drop_bit (Suc 7) b = 0"
      by (rule bit_word_eqI) (auto simp: bit_simps dest: bit_imp_le_length)
    ultimately show ?case by simp
  next
    case (Suc j)
    then have "latch_nibble trk 0 c = latch_nibble trk 0 (advance 1 c)"
      by (intro latch_skips_zero [OF assms(1)]) simp
    moreover have "ahead trk (advance 1 c) = replicate j False @ byte_bits b @ xs"
      using ahead_advance [of trk c "[False]"] Suc.prems by simp
    ultimately show ?case
      using Suc.IH [of "advance 1 c"] by simp
  qed
  show "ahead trk (advance (j + 8) c) = xs"
    using ahead_advance [of trk c "replicate j False @ byte_bits b" xs] assms(3) by simp
qed

end
