(* ===== verification/Woz_Image.thy ===== *)
theory Woz_Image
  imports Woz_Bits
begin

text \<open>
  What the two nibblizers share: the media descriptor (\<^verbatim>\<open>src/util/media.hpp\<close>), the WOZ image in memory
  (\<^verbatim>\<open>src/util/woz.hpp\<close>) and the writer that replaces a file atomically (\<^verbatim>\<open>src/util/file_safety.hpp\<close>).  The host's files
  are a map from paths to contents, and for the writer also which data a crash may lose; which of the operating system's
  calls succeed is a record \<open>host_io\<close>, an argument of the definitions.
\<close>

section \<open>Media and images\<close>

datatype media_type_t = MEDIA_NYBBLE | MEDIA_PRENYBBLE | MEDIA_BLK | MEDIA_WOZ

datatype media_interleave_t = INTERLEAVE_NONE | INTERLEAVE_DO | INTERLEAVE_PO | INTERLEAVE_CPM

record media_descriptor =
  filename :: string
  media_type :: media_type_t
  interleave :: media_interleave_t
  data_offset :: nat
  data_size :: nat
  media_write_protected :: bool
  dos33_volume :: u16

record woz_info_t =
  info_version :: u8
  disk_type :: u8
  write_protected :: u8
  synchronized :: u8
  cleaned :: u8
  creator :: "u8 list"
  disk_sides :: u8
  boot_sector_format :: u8
  optimal_bit_timing :: u8
  compatible_hardware :: u16
  required_ram :: u16
  largest_track :: u16
  flux_block :: u16
  largest_flux_track :: u16

text \<open>The map \<^verbatim>\<open>meta\<close> is the list of its entries in the order of the keys.\<close>

record woz_image_t =
  file_version :: int
  info :: woz_info_t
  tmap :: "u8 list"
  tracks :: "woz_track_t list"
  meta :: "(u8 list \<times> u8 list) list"
  unsaved_chunks :: "u8 list list"

definition get_track_ptr :: "woz_image_t \<Rightarrow> int \<Rightarrow> woz_track_t option" where
  "get_track_ptr img quarter_track =
     (if quarter_track < 0 \<or> quarter_track \<ge> 160 then None
      else let idx = tmap img ! nat quarter_track
           in if idx = 0xFF then None
              else if unat idx \<ge> length (tracks img) then None
              else Some (tracks img ! unat idx))"

section \<open>Files\<close>

type_synonym files = "string \<rightharpoonup> u8 list"

text \<open>Which calls succeed: opening the file for reading, reading it to its end, creating the temporary file, writing
  and flushing it, renaming it over the original, removing it; and what a failed write leaves in it.\<close>

record host_io =
  open_ok :: bool
  read_ok :: bool
  create_ok :: bool
  fwrite_ok :: bool
  flush_ok :: bool
  rename_ok :: bool
  remove_ok :: bool
  partial_write :: "u8 list"

definition fopen_rb :: "host_io \<Rightarrow> string \<Rightarrow> files \<Rightarrow> u8 list option" where
  "fopen_rb io path fs = (if open_ok io then fs path else None)"

text \<open>\<^verbatim>\<open>fread\<close> of \<open>n\<close> pieces of a given size, from what is left of the file.\<close>

fun fread_pieces :: "nat \<Rightarrow> nat \<Rightarrow> u8 list \<Rightarrow> (u8 list list \<times> u8 list) option" where
  "fread_pieces 0 sz f = Some ([], f)"
| "fread_pieces (Suc n) sz f =
     (if length f < sz then None
      else do { (ps, f') \<leftarrow> fread_pieces n sz (drop sz f); Some (take sz f # ps, f') })"

section \<open>Replacing a file\<close>

definition tmp_path :: "string \<Rightarrow> string" where
  "tmp_path path = path @ ''.gs2tmp''"

text \<open>
  The storage as the program and a crash see it: the contents of the files, the files whose data the host may still hold
  in its buffers, and the directories a crash may fall back to, since a rename need not have reached the disk.  Data that
  is not synced may be in any state after a crash, missing, torn or replaced.
\<close>

record storage =
  contents :: files
  unsynced :: "string set"
  undone :: "files list"

definition on_disk :: "files \<Rightarrow> storage" where
  "on_disk fs = \<lparr>contents = fs, unsynced = {}, undone = []\<rparr>"

definition after_crash :: "storage \<Rightarrow> files \<Rightarrow> bool" where
  "after_crash s fs' \<longleftrightarrow> (\<exists>fs \<in> set (contents s # undone s). \<forall>p. p \<notin> unsynced s \<longrightarrow> fs' p = fs p)"

text \<open>\<^verbatim>\<open>fopen\<close> for writing and \<^verbatim>\<open>fwrite\<close> leave the file unsynced, \<^verbatim>\<open>flush_to_disk\<close> syncs it, a rename is atomic (as POSIX
  and Windows document it) and takes the state of the data along, and a removal need not be on the disk.\<close>

definition put_file :: "string \<Rightarrow> u8 list \<Rightarrow> storage \<Rightarrow> storage" where
  "put_file path data s = s\<lparr>contents := (contents s)(path \<mapsto> data), unsynced := insert path (unsynced s)\<rparr>"

definition flush_to_disk :: "host_io \<Rightarrow> string \<Rightarrow> storage \<Rightarrow> bool \<times> storage" where
  "flush_to_disk io path s = (if flush_ok io then (True, s\<lparr>unsynced := unsynced s - {path}\<rparr>) else (False, s))"

definition rename_file :: "host_io \<Rightarrow> string \<Rightarrow> string \<Rightarrow> storage \<Rightarrow> bool \<times> storage" where
  "rename_file io old new s =
     (if rename_ok io
      then (True, s\<lparr>contents := (contents s)(new := contents s old, old := None), undone := contents s # undone s,
              unsynced := if old \<in> unsynced s then insert new (unsynced s) else unsynced s\<rparr>)
      else (False, s))"

definition remove_file :: "host_io \<Rightarrow> string \<Rightarrow> storage \<Rightarrow> storage" where
  "remove_file io path s =
     (if remove_ok io then s\<lparr>contents := (contents s)(path := None), unsynced := insert path (unsynced s)\<rparr> else s)"

text \<open>The result and the storage after each call that changes it, the last entry when the function returns.\<close>

definition atomic_write_steps :: "host_io \<Rightarrow> string \<Rightarrow> u8 list \<Rightarrow> storage \<Rightarrow> bool \<times> storage list" where
  "atomic_write_steps io path data s =
     (let tmp = tmp_path path in
      if \<not> create_ok io then (False, [s])
      else let s1 = put_file tmp [] s;
               wrote = (data = [] \<or> fwrite_ok io);
               s2 = put_file tmp (if wrote then data else partial_write io) s1;
               (flushed, s3) = (if wrote then flush_to_disk io tmp s2 else (False, s2))
           in if \<not> wrote \<or> \<not> flushed then (False, [s, s1, s2, s3, remove_file io tmp s3])
              else case rename_file io tmp path s3 of
                (renamed, s4) \<Rightarrow>
                  if \<not> renamed then (False, [s, s1, s2, s3, s4, remove_file io tmp s4])
                  else (True, [s, s1, s2, s3, s4]))"

definition atomic_write :: "host_io \<Rightarrow> string \<Rightarrow> u8 list \<Rightarrow> files \<Rightarrow> bool \<times> files" where
  "atomic_write io path data fs = map_prod id (contents \<circ> last) (atomic_write_steps io path data (on_disk fs))"

lemmas storage_defs =
  on_disk_def put_file_def flush_to_disk_def rename_file_def remove_file_def

definition patch :: "nat \<Rightarrow> u8 list \<Rightarrow> u8 list \<Rightarrow> u8 list" where
  "patch offset data whole =
     (let whole = (if length whole < offset + length data
                   then whole @ replicate (offset + length data - length whole) 0 else whole)
      in take offset whole @ data @ drop (offset + length data) whole)"

definition atomic_patch :: "host_io \<Rightarrow> string \<Rightarrow> nat \<Rightarrow> u8 list \<Rightarrow> files \<Rightarrow> bool \<times> files" where
  "atomic_patch io path offset data fs =
     (case fopen_rb io path fs of
        None \<Rightarrow> atomic_write io path (patch offset data []) fs
      | Some whole \<Rightarrow>
          if \<not> read_ok io then (False, fs) else atomic_write io path (patch offset data whole) fs)"

definition EXPORT_LOSSY :: int where
  "EXPORT_LOSSY = -2"

section \<open>Lemmas on files\<close>

lemma tmp_path_neq [simp]: "tmp_path path \<noteq> path" "path \<noteq> tmp_path path"
  by (simp_all add: tmp_path_def)

text \<open>Two file systems that agree on every path but one.\<close>

definition same_but :: "string \<Rightarrow> files \<Rightarrow> files \<Rightarrow> bool" where
  "same_but p fs fs' \<longleftrightarrow> (\<forall>q. q \<noteq> p \<longrightarrow> fs' q = fs q)"

lemma same_but_refl [simp]: "same_but p fs fs"
  by (simp add: same_but_def)

lemma atomic_write_result:
  assumes "atomic_write io path data fs = (ok, fs')"
  shows "if ok then fs' = fs(path \<mapsto> data, tmp_path path := None) else same_but (tmp_path path) fs fs'"
  using assms
  by (auto simp: atomic_write_def atomic_write_steps_def Let_def storage_defs same_but_def fun_upd_def split: if_splits)

lemma fread_pieces_spec:
  assumes "n * sz \<le> length f"
  shows "\<exists>ps. fread_pieces n sz f = Some (ps, drop (n * sz) f) \<and> length ps = n \<and> (\<forall>p \<in> set ps. length p = sz) \<and>
    concat ps = take (n * sz) f"
  using assms
proof (induction n arbitrary: f)
  case (Suc n)
  then have "n * sz \<le> length (drop sz f)" by simp
  from Suc.IH [OF this] obtain ps where ps: "fread_pieces n sz (drop sz f) = Some (ps, drop (n * sz) (drop sz f))"
    "length ps = n" "\<forall>p \<in> set ps. length p = sz" "concat ps = take (n * sz) (drop sz f)" by blast
  then show ?case
    using Suc.prems by (auto simp: take_add add.commute)
qed simp

lemma patch_self:
  assumes "offset + n \<le> length f"
  shows "patch offset (take n (drop offset f)) f = f"
proof -
  have len: "length (take n (drop offset f)) = n" using assms by simp
  have "take n (drop offset f) @ drop (offset + n) f = drop offset f"
    by (metis append_take_drop_id drop_drop add.commute)
  then show ?thesis
    using assms unfolding patch_def len by simp
qed

lemma patch_outside:
  assumes "i < length f" "i < offset \<or> offset + length data \<le> i"
  shows "patch offset data f ! i = f ! i"
  using assms by (auto simp: patch_def Let_def nth_append min_def)

lemma length_patch: "length (patch offset data f) = max (length f) (offset + length data)"
  by (auto simp: patch_def Let_def min_def max_def)

text \<open>The result of a patch whose file can be opened.\<close>

lemma atomic_patch_result:
  assumes "atomic_patch io path offset data fs = (ok, fs')" "fs path = Some f" "open_ok io"
  shows "if ok then fs' = fs(path \<mapsto> patch offset data f, tmp_path path := None) else same_but (tmp_path path) fs fs'"
  using assms atomic_write_result by (auto simp: atomic_patch_def fopen_rb_def split: if_splits)

definition io_ok :: "host_io \<Rightarrow> bool" where
  "io_ok io \<longleftrightarrow> open_ok io \<and> read_ok io \<and> create_ok io \<and> fwrite_ok io \<and> flush_ok io \<and> rename_ok io"

lemma atomic_patch_self:
  assumes "fs path = Some f" "open_ok io" "offset + length data \<le> length f" "0 < length data"
    and "data = take (length data) (drop offset f)"
  shows "\<exists>fs'. atomic_patch io path offset data fs = (io_ok io, fs') \<and> same_but (tmp_path path) fs fs'"
proof -
  have "patch offset data f = f"
    using patch_self [OF assms(3)] assms(5) by simp
  then show ?thesis
    using assms(1-4)
    by (cases f)
      (auto simp: atomic_patch_def fopen_rb_def atomic_write_def atomic_write_steps_def Let_def io_ok_def storage_defs same_but_def)
qed

text \<open>What an export that returned has done to the files: nothing but leaving a temporary file when it reports an error,
  and otherwise a change of the \<open>n\<close> bytes at the data offset.\<close>

definition contained :: "nat \<Rightarrow> media_descriptor \<Rightarrow> files \<Rightarrow> int \<Rightarrow> files \<Rightarrow> bool" where
  "contained n media fs rc fs' \<longleftrightarrow>
     (if rc \<noteq> 0 then same_but (tmp_path (filename media)) fs fs'
      else \<exists>f f'. fs (filename media) = Some f \<and> fs' = fs(filename media \<mapsto> f', tmp_path (filename media) := None) \<and>
        length f' = max (length f) (data_offset media + n) \<and>
        (\<forall>i < length f. i < data_offset media \<or> data_offset media + n \<le> i \<longrightarrow> f' ! i = f ! i))"

lemma contained_patch:
  assumes "atomic_patch io (filename media) (data_offset media) data fs = (ok, fs')"
    and "fs (filename media) = Some f" "open_ok io" "length data = n"
  shows "contained n media fs (if ok then 0 else -1) fs'"
  using atomic_patch_result [OF assms(1-3)] assms(2,4) patch_outside [of _ f "data_offset media" data] length_patch
  by (auto simp: contained_def split: if_splits)

text \<open>
  The interface of the nibblizers (\<^verbatim>\<open>class Woz_Nibblizer\<close>): \<open>size\<close> bytes of the file belong to the disk, and \<open>accepts\<close>
  says which media can be imported.
\<close>

locale nibblizer =
  fixes import_image :: "host_io \<Rightarrow> woz_image_t \<Rightarrow> media_descriptor option \<Rightarrow> files \<Rightarrow> int \<times> woz_image_t"
    and export_image :: "host_io \<Rightarrow> woz_image_t \<Rightarrow> media_descriptor \<Rightarrow> files \<Rightarrow> (int \<times> files) option"
    and size :: nat
    and accepts :: "media_descriptor \<Rightarrow> bool"
  assumes import_export:
    "accepts media \<Longrightarrow> fs (filename media) = Some f \<Longrightarrow> data_offset media + size \<le> length f \<Longrightarrow> open_ok io \<Longrightarrow> read_ok io \<Longrightarrow>
     open_ok io' \<Longrightarrow>
     \<exists>img' fs'. import_image io img (Some media) fs = (0, img') \<and>
       export_image io' img' media fs = Some (if io_ok io' then 0 else -1, fs') \<and> same_but (tmp_path (filename media)) fs fs'"
    and export_contained:
    "export_image io img media fs = Some (rc, fs') \<Longrightarrow> fs (filename media) = Some f \<Longrightarrow> open_ok io \<Longrightarrow>
     contained size media fs rc fs'"

text \<open>
  C32.  Crash safety of the writer.  Stop an atomic write after any of its calls, by the death of the program or of the
  machine, so that data the host has not been told to flush is in any state and the rename may or may not have reached
  the disk: the file holds its old contents or all of its new contents, and no other file but the temporary one has
  changed.  If the write reports failure, the file is as it was; if it reports success, the program reads the new
  contents.
\<close>

theorem atomic_write_crash_safe:
  assumes "atomic_write_steps io path data (on_disk fs) = (ok, states)" "s \<in> set states" "after_crash s fs'"
  shows "(fs' path = fs path \<or> fs' path = Some data) \<and> (\<not> ok \<longrightarrow> fs' path = fs path) \<and>
    (\<forall>q. q \<noteq> path \<and> q \<noteq> tmp_path path \<longrightarrow> fs' q = fs q) \<and> (ok \<longrightarrow> contents (last states) path = Some data)"
  using assms by (auto simp: atomic_write_steps_def Let_def storage_defs after_crash_def split: if_splits)

definition full_disk_io :: host_io where
  "full_disk_io = \<lparr>open_ok = True, read_ok = True, create_ok = True, fwrite_ok = True, flush_ok = False, rename_ok = True,
     remove_ok = False, partial_write = []\<rparr>"

text \<open>The flush fails, the machine stops, and half of the temporary file is left.\<close>

theorem atomic_write_crash_safe_witness:
  "let (ok, states) = atomic_write_steps full_disk_io ''a'' [7, 8, 9] (on_disk [''a'' \<mapsto> [1, 2]]);
       fs' = [''a'' \<mapsto> [1, 2], ''a.gs2tmp'' \<mapsto> [7]]
   in \<not> ok \<and> after_crash (last states) fs' \<and> fs' ''a'' = Some [1, 2]"
proof -
  let ?fs' = "[''a'' \<mapsto> [1, 2], ''a.gs2tmp'' \<mapsto> [7]]" and ?s = "on_disk [''a'' \<mapsto> [1, 2]]"
  obtain states where r: "atomic_write_steps full_disk_io ''a'' [7, 8, 9] ?s = (False, states)"
    and l: "last states \<in> set states" "after_crash (last states) ?fs'"
    by (simp add: atomic_write_steps_def Let_def storage_defs full_disk_io_def after_crash_def tmp_path_def)
  from atomic_write_crash_safe [OF r l] l(2) show ?thesis by (simp add: r)
qed


definition unopened_io :: host_io where
  "unopened_io = \<lparr>open_ok = False, read_ok = True, create_ok = True, fwrite_ok = True, flush_ok = True, rename_ok = True,
     remove_ok = True, partial_write = []\<rparr>"


end
