(* ===== verification/Woz_Crc.thy ===== *)
theory Woz_Crc
  imports Prelude
begin

text \<open>
  The checksum of WOZ files (\<^verbatim>\<open>Woz::crc32\<close> of \<^verbatim>\<open>src/util/woz.cpp\<close>) and its bitwise definition.
\<close>

section \<open>The checksum\<close>

definition crc32_tab :: "u32 list" where
  "crc32_tab = [
    0x00000000, 0x77073096, 0xee0e612c, 0x990951ba, 0x076dc419, 0x706af48f, 0xe963a535, 0x9e6495a3,
    0x0edb8832, 0x79dcb8a4, 0xe0d5e91e, 0x97d2d988, 0x09b64c2b, 0x7eb17cbd, 0xe7b82d07, 0x90bf1d91,
    0x1db71064, 0x6ab020f2, 0xf3b97148, 0x84be41de, 0x1adad47d, 0x6ddde4eb, 0xf4d4b551, 0x83d385c7,
    0x136c9856, 0x646ba8c0, 0xfd62f97a, 0x8a65c9ec, 0x14015c4f, 0x63066cd9, 0xfa0f3d63, 0x8d080df5,
    0x3b6e20c8, 0x4c69105e, 0xd56041e4, 0xa2677172, 0x3c03e4d1, 0x4b04d447, 0xd20d85fd, 0xa50ab56b,
    0x35b5a8fa, 0x42b2986c, 0xdbbbc9d6, 0xacbcf940, 0x32d86ce3, 0x45df5c75, 0xdcd60dcf, 0xabd13d59,
    0x26d930ac, 0x51de003a, 0xc8d75180, 0xbfd06116, 0x21b4f4b5, 0x56b3c423, 0xcfba9599, 0xb8bda50f,
    0x2802b89e, 0x5f058808, 0xc60cd9b2, 0xb10be924, 0x2f6f7c87, 0x58684c11, 0xc1611dab, 0xb6662d3d,
    0x76dc4190, 0x01db7106, 0x98d220bc, 0xefd5102a, 0x71b18589, 0x06b6b51f, 0x9fbfe4a5, 0xe8b8d433,
    0x7807c9a2, 0x0f00f934, 0x9609a88e, 0xe10e9818, 0x7f6a0dbb, 0x086d3d2d, 0x91646c97, 0xe6635c01,
    0x6b6b51f4, 0x1c6c6162, 0x856530d8, 0xf262004e, 0x6c0695ed, 0x1b01a57b, 0x8208f4c1, 0xf50fc457,
    0x65b0d9c6, 0x12b7e950, 0x8bbeb8ea, 0xfcb9887c, 0x62dd1ddf, 0x15da2d49, 0x8cd37cf3, 0xfbd44c65,
    0x4db26158, 0x3ab551ce, 0xa3bc0074, 0xd4bb30e2, 0x4adfa541, 0x3dd895d7, 0xa4d1c46d, 0xd3d6f4fb,
    0x4369e96a, 0x346ed9fc, 0xad678846, 0xda60b8d0, 0x44042d73, 0x33031de5, 0xaa0a4c5f, 0xdd0d7cc9,
    0x5005713c, 0x270241aa, 0xbe0b1010, 0xc90c2086, 0x5768b525, 0x206f85b3, 0xb966d409, 0xce61e49f,
    0x5edef90e, 0x29d9c998, 0xb0d09822, 0xc7d7a8b4, 0x59b33d17, 0x2eb40d81, 0xb7bd5c3b, 0xc0ba6cad,
    0xedb88320, 0x9abfb3b6, 0x03b6e20c, 0x74b1d29a, 0xead54739, 0x9dd277af, 0x04db2615, 0x73dc1683,
    0xe3630b12, 0x94643b84, 0x0d6d6a3e, 0x7a6a5aa8, 0xe40ecf0b, 0x9309ff9d, 0x0a00ae27, 0x7d079eb1,
    0xf00f9344, 0x8708a3d2, 0x1e01f268, 0x6906c2fe, 0xf762575d, 0x806567cb, 0x196c3671, 0x6e6b06e7,
    0xfed41b76, 0x89d32be0, 0x10da7a5a, 0x67dd4acc, 0xf9b9df6f, 0x8ebeeff9, 0x17b7be43, 0x60b08ed5,
    0xd6d6a3e8, 0xa1d1937e, 0x38d8c2c4, 0x4fdff252, 0xd1bb67f1, 0xa6bc5767, 0x3fb506dd, 0x48b2364b,
    0xd80d2bda, 0xaf0a1b4c, 0x36034af6, 0x41047a60, 0xdf60efc3, 0xa867df55, 0x316e8eef, 0x4669be79,
    0xcb61b38c, 0xbc66831a, 0x256fd2a0, 0x5268e236, 0xcc0c7795, 0xbb0b4703, 0x220216b9, 0x5505262f,
    0xc5ba3bbe, 0xb2bd0b28, 0x2bb45a92, 0x5cb36a04, 0xc2d7ffa7, 0xb5d0cf31, 0x2cd99e8b, 0x5bdeae1d,
    0x9b64c2b0, 0xec63f226, 0x756aa39c, 0x026d930a, 0x9c0906a9, 0xeb0e363f, 0x72076785, 0x05005713,
    0x95bf4a82, 0xe2b87a14, 0x7bb12bae, 0x0cb61b38, 0x92d28e9b, 0xe5d5be0d, 0x7cdcefb7, 0x0bdbdf21,
    0x86d3d2d4, 0xf1d4e242, 0x68ddb3f8, 0x1fda836e, 0x81be16cd, 0xf6b9265b, 0x6fb077e1, 0x18b74777,
    0x88085ae6, 0xff0f6a70, 0x66063bca, 0x11010b5c, 0x8f659eff, 0xf862ae69, 0x616bffd3, 0x166ccf45,
    0xa00ae278, 0xd70dd2ee, 0x4e048354, 0x3903b3c2, 0xa7672661, 0xd06016f7, 0x4969474d, 0x3e6e77db,
    0xaed16a4a, 0xd9d65adc, 0x40df0b66, 0x37d83bf0, 0xa9bcae53, 0xdebb9ec5, 0x47b2cf7f, 0x30b5ffe9,
    0xbdbdf21c, 0xcabac28a, 0x53b39330, 0x24b4a3a6, 0xbad03605, 0xcdd70693, 0x54de5729, 0x23d967bf,
    0xb3667a2e, 0xc4614ab8, 0x5d681b02, 0x2a6f2b94, 0xb40bbe37, 0xc30c8ea1, 0x5a05df1b, 0x2d02ef8d]"

definition crc32_step :: "u8 \<Rightarrow> u32 \<Rightarrow> u32" where
  "crc32_step b crc = crc32_tab ! unat ((crc XOR ucast b) AND 0xFF) XOR drop_bit 8 crc"

definition crc32 :: "u8 list \<Rightarrow> u32" where
  "crc32 buf = fold crc32_step buf (0 XOR NOT 0) XOR NOT 0"

text \<open>The bitwise definition of the same checksum, with the reflected polynomial.\<close>

definition crc_bit :: "u32 \<Rightarrow> u32" where
  "crc_bit x = drop_bit 1 x XOR (if bit x 0 then 0xEDB88320 else 0)"

definition crc_byte :: "u32 \<Rightarrow> u32" where
  "crc_byte x = (crc_bit ^^ 8) x"

definition crc32_spec :: "u8 list \<Rightarrow> u32" where
  "crc32_spec buf = NOT (fold (\<lambda>b crc. crc_byte (crc XOR ucast b)) buf (NOT 0))"

lemma crc_bit_xor: "crc_bit (x XOR y) = crc_bit x XOR crc_bit y"
proof -
  have "drop_bit 1 (x XOR y) = drop_bit 1 x XOR drop_bit 1 y"
    by (rule bit_word_eqI) (simp add: bit_simps)
  then show ?thesis
    by (auto simp: crc_bit_def bit_xor_iff xor.assoc xor.commute xor.left_commute)
qed

lemma crc_bits_xor: "(crc_bit ^^ n) (x XOR y) = (crc_bit ^^ n) x XOR (crc_bit ^^ n) y"
  by (induction n) (simp_all add: crc_bit_xor)

lemma crc_bits_high: "take_bit n x = 0 \<Longrightarrow> (crc_bit ^^ n) x = drop_bit n x"
proof (induction n)
  case (Suc n)
  have low: "\<not> bit x m" if "m < Suc n" for m
    using arg_cong [OF Suc.prems, of "\<lambda>w. bit w m"] that by (simp add: bit_take_bit_iff)
  have "take_bit n x = 0"
    by (rule bit_word_eqI) (use low in \<open>simp add: bit_take_bit_iff\<close>)
  then show ?case
    using Suc.IH low [of n] by (simp add: crc_bit_def bit_drop_bit_eq)
qed simp

text \<open>The second half of each power-of-two prefix of the table is the first half plus one entry, and so are the numbers
  below 256; that leaves eight entries to compute.\<close>

definition doubled :: "u32 list \<Rightarrow> nat \<Rightarrow> bool" where
  "doubled xs n \<longleftrightarrow> take n (drop n xs) = map (\<lambda>v. xs ! n XOR v) (take n xs)"

lemma crc32_tab_doubled: "list_all (doubled crc32_tab) [1, 2, 4, 8, 16, 32, 64, 128]"
  by (simp add: doubled_def crc32_tab_def)

lemma numbers_doubled: "list_all (doubled (map of_nat [0..<256])) [1, 2, 4, 8, 16, 32, 64, 128]"
proof -
  have "map (of_nat :: nat \<Rightarrow> u32) [0..<256] = map of_nat (upt 0 256)" ..
  show ?thesis by (simp add: doubled_def upt_rec)
qed

lemma crc_byte_steps: "crc_byte x = crc_bit (crc_bit (crc_bit (crc_bit (crc_bit (crc_bit (crc_bit (crc_bit x)))))))"
  by (simp add: crc_byte_def eval_nat_numeral)

lemma crc_basis: "list_all (\<lambda>n. crc32_tab ! n = crc_byte (of_nat n)) [0, 1, 2, 4, 8, 16, 32, 64, 128]"
  by (simp add: crc32_tab_def crc_byte_steps crc_bit_def)

lemma crc_double:
  assumes "doubled crc32_tab n" "doubled (map of_nat [0..<256]) n" "crc32_tab ! n = crc_byte (of_nat n)" "2 * n \<le> 256"
    and "\<forall>i < n. crc32_tab ! i = crc_byte (of_nat i)"
  shows "\<forall>i < 2 * n. crc32_tab ! i = crc_byte (of_nat i)"
proof (intro allI impI)
  fix i assume i: "i < 2 * n"
  show "crc32_tab ! i = crc_byte (of_nat i)"
  proof (cases "i < n")
    case False
    define j where "j = i - n"
    have j: "i = n + j" "j < n" using False i by (auto simp: j_def)
    have len: "length crc32_tab = 256" by (simp add: crc32_tab_def)
    have "xs ! i = xs ! n XOR xs ! j" if "doubled xs n" "length xs = 256" for xs
    proof -
      have "xs ! i = take n (drop n xs) ! j" using that(2) j assms(4) by simp
      also have "\<dots> = map (\<lambda>v. xs ! n XOR v) (take n xs) ! j" using that(1) by (simp only: doubled_def)
      also have "\<dots> = xs ! n XOR xs ! j" using that(2) j assms(4) by simp
      finally show ?thesis .
    qed
    from this [OF assms(1) len] this [OF assms(2)] show ?thesis
      using assms(3,5) j i assms(4) by (simp add: crc_byte_def crc_bits_xor)
  qed (use assms(5) in simp)
qed

lemma crc_entries: "i < 256 \<Longrightarrow> crc32_tab ! i = crc_byte (of_nat i)"
proof -
  note d = crc32_tab_doubled [simplified] numbers_doubled [simplified] crc_basis [simplified]
  have "\<forall>i < 1. crc32_tab ! i = crc_byte (of_nat i)" using d by simp
  then have "\<forall>i < 2 * 1. crc32_tab ! i = crc_byte (of_nat i)" by (intro crc_double) (use d in simp_all)
  then have "\<forall>i < 2 * 2. crc32_tab ! i = crc_byte (of_nat i)" by (intro crc_double) (use d in simp_all)
  then have "\<forall>i < 2 * 4. crc32_tab ! i = crc_byte (of_nat i)" by (intro crc_double) (use d in simp_all)
  then have "\<forall>i < 2 * 8. crc32_tab ! i = crc_byte (of_nat i)" by (intro crc_double) (use d in simp_all)
  then have "\<forall>i < 2 * 16. crc32_tab ! i = crc_byte (of_nat i)" by (intro crc_double) (use d in simp_all)
  then have "\<forall>i < 2 * 32. crc32_tab ! i = crc_byte (of_nat i)" by (intro crc_double) (use d in simp_all)
  then have "\<forall>i < 2 * 64. crc32_tab ! i = crc_byte (of_nat i)" by (intro crc_double) (use d in simp_all)
  then have "\<forall>i < 2 * 128. crc32_tab ! i = crc_byte (of_nat i)" by (intro crc_double) (use d in simp_all)
  moreover assume "i < 256"
  ultimately show "crc32_tab ! i = crc_byte (of_nat i)" by simp
qed

lemma crc32_step_spec: "crc32_step b crc = crc_byte (crc XOR ucast b)"
proof -
  let ?x = "crc XOR ucast b"
  have low: "?x AND 0xFF = take_bit 8 ?x" by (simp add: take_bit_eq_mask mask_eq_exp_minus_1)
  have "unat (take_bit 8 ?x) < 256"
    unfolding unsigned_take_bit_eq using take_bit_nat_less_exp [of 8 "unat ?x"] by simp
  then have tab: "crc32_tab ! unat (take_bit 8 ?x) = crc_byte (take_bit 8 ?x)"
    using crc_entries by simp
  define hi where "hi = push_bit 8 (drop_bit 8 ?x)"
  have split: "?x = take_bit 8 ?x XOR hi"
  proof (rule bit_word_eqI)
    fix n
    show "bit ?x n = bit (take_bit 8 ?x XOR hi) n"
      by (cases "n < 8") (auto simp: hi_def bit_simps not_less dest: bit_imp_le_length)
  qed
  have "take_bit 8 hi = 0"
    by (rule bit_word_eqI) (auto simp: hi_def bit_simps)
  then have "crc_byte hi = drop_bit 8 hi"
    unfolding crc_byte_def by (rule crc_bits_high)
  also have "\<dots> = drop_bit 8 crc"
    by (rule bit_word_eqI) (auto simp: hi_def bit_simps dest: bit_imp_le_length)
  finally have "crc_byte ?x = crc_byte (take_bit 8 ?x) XOR drop_bit 8 crc"
    using crc_bits_xor [of 8 "take_bit 8 ?x" hi] split unfolding crc_byte_def by metis
  then show ?thesis by (simp only: crc32_step_def low tab)
qed

text \<open>
  C10.  The checksum.  The table-driven routine computes the cyclic redundancy check of the reflected polynomial
  \<^verbatim>\<open>0xEDB88320\<close>, bit by bit, of any byte sequence.
\<close>

theorem crc32_correct: "crc32 buf = crc32_spec buf"
proof -
  have "crc32_step = (\<lambda>b crc. crc_byte (crc XOR ucast b))"
    by (intro ext crc32_step_spec)
  then show ?thesis
    by (simp add: crc32_def crc32_spec_def)
qed

end
