(* ===== verification/Woz_File.thy ===== *)
theory Woz_File
  imports Woz_Image Woz_Crc
begin

text \<open>
  The WOZ file format (\<^verbatim>\<open>src/util/woz.cpp\<close>): the chunk parsers of \<open>load\<close> and the chunk writers of \<open>save\<close>.
  \<^const>\<open>None\<close> as the result of \<open>load\<close> stands for a read outside the file buffer, which the parsers of the track chunk do
  not exclude.
\<close>

section \<open>Constants and little-endian numbers\<close>

definition WOZ1_MAGIC :: "u8 list" where "WOZ1_MAGIC = [0x57, 0x4F, 0x5A, 0x31, 0xFF, 0x0A, 0x0D, 0x0A]"
definition WOZ2_MAGIC :: "u8 list" where "WOZ2_MAGIC = [0x57, 0x4F, 0x5A, 0x32, 0xFF, 0x0A, 0x0D, 0x0A]"
definition WOZ_CHUNK_INFO :: u32 where "WOZ_CHUNK_INFO = 0x4F464E49"
definition WOZ_CHUNK_TMAP :: u32 where "WOZ_CHUNK_TMAP = 0x50414D54"
definition WOZ_CHUNK_TRKS :: u32 where "WOZ_CHUNK_TRKS = 0x534B5254"
definition WOZ_CHUNK_META :: u32 where "WOZ_CHUNK_META = 0x4154454D"
definition WOZ_HEADER_SIZE :: nat where "WOZ_HEADER_SIZE = 12"
definition WOZ_BLOCK_SIZE :: nat where "WOZ_BLOCK_SIZE = 512"
definition WOZ_TRK_ARRAY_ENTRIES :: nat where "WOZ_TRK_ARRAY_ENTRIES = 160"
definition WOZ_TRK_ENTRY_SIZE :: nat where "WOZ_TRK_ENTRY_SIZE = 8"
definition WOZ1_TRACK_RECORD_SIZE :: nat where "WOZ1_TRACK_RECORD_SIZE = 6656"
definition WOZ1_BITSTREAM_SIZE :: nat where "WOZ1_BITSTREAM_SIZE = 6646"
definition WOZ_INFO_DATA_SIZE :: nat where "WOZ_INFO_DATA_SIZE = 60"
definition WOZ_TMAP_DATA_SIZE :: nat where "WOZ_TMAP_DATA_SIZE = 160"

lemmas woz_sizes = WOZ_HEADER_SIZE_def WOZ_BLOCK_SIZE_def WOZ_TRK_ARRAY_ENTRIES_def WOZ_TRK_ENTRY_SIZE_def
  WOZ1_TRACK_RECORD_SIZE_def WOZ1_BITSTREAM_SIZE_def WOZ_INFO_DATA_SIZE_def WOZ_TMAP_DATA_SIZE_def

definition u16le :: "u8 list \<Rightarrow> nat \<Rightarrow> u16" where
  "u16le d i = ucast (d ! i) OR push_bit 8 (ucast (d ! (i + 1)))"

definition u32le :: "u8 list \<Rightarrow> nat \<Rightarrow> u32" where
  "u32le d i = ucast (d ! i) OR push_bit 8 (ucast (d ! (i + 1))) OR push_bit 16 (ucast (d ! (i + 2))) OR
     push_bit 24 (ucast (d ! (i + 3)))"

section \<open>Chunk parsers\<close>

text \<open>The parsers of INFO and TMAP fail on a short chunk; the size is the length of the data.\<close>

definition parse_info :: "u8 list \<Rightarrow> woz_image_t \<Rightarrow> int \<times> woz_image_t" where
  "parse_info data img =
     (if length data < 37 then (-1, img)
      else
        let winfo = (info img)\<lparr>info_version := data ! 0, disk_type := data ! 1, write_protected := data ! 2,
              synchronized := data ! 3, cleaned := data ! 4, creator := take 32 (drop 5 data)\<rparr>;
            winfo = (if info_version winfo \<ge> 2 \<and> length data \<ge> 50
                   then winfo\<lparr>disk_sides := data ! 37, boot_sector_format := data ! 38, optimal_bit_timing := data ! 39,
                     compatible_hardware := u16le data 40, required_ram := u16le data 42, largest_track := u16le data 44\<rparr>
                   else winfo);
            winfo = (if info_version winfo \<ge> 3 \<and> length data \<ge> 54
                   then winfo\<lparr>flux_block := u16le data 46, largest_flux_track := u16le data 48\<rparr> else winfo)
        in (0, img\<lparr>info := winfo\<rparr>))"

definition parse_tmap :: "u8 list \<Rightarrow> woz_image_t \<Rightarrow> int \<times> woz_image_t" where
  "parse_tmap data img = (if length data < 160 then (-1, img) else (0, img\<lparr>tmap := take 160 data\<rparr>))"

definition resize_tracks :: "nat \<Rightarrow> woz_track_t list \<Rightarrow> woz_track_t list" where
  "resize_tracks n trks = take n trks @ replicate (n - length trks) empty_track"

text \<open>\<open>recs\<close> are the bytes of the file from the record on.\<close>

definition track_record_v1 :: "u8 list \<Rightarrow> woz_track_t option" where
  "track_record_v1 recs =
     (let bytes_used = u16le recs WOZ1_BITSTREAM_SIZE; nbits = u16le recs (WOZ1_BITSTREAM_SIZE + 2);
          copy_bytes = (if bytes_used \<noteq> 0 then unat bytes_used else WOZ1_BITSTREAM_SIZE)
      in if copy_bytes > length recs then None
         else Some \<lparr>bits = take copy_bytes recs, bit_count = ucast nbits\<rparr>)"

fun parse_records_v1 :: "nat list \<Rightarrow> u8 list \<Rightarrow> woz_track_t list \<Rightarrow> woz_track_t list option" where
  "parse_records_v1 [] data trks = Some trks"
| "parse_records_v1 (i # is) data trks = do {
     trk \<leftarrow> track_record_v1 (drop (i * WOZ1_TRACK_RECORD_SIZE) data);
     parse_records_v1 is data (trks[i := trk])
   }"

definition parse_trks_v1 :: "u8 list \<Rightarrow> nat \<Rightarrow> nat \<Rightarrow> woz_image_t \<Rightarrow> woz_image_t option" where
  "parse_trks_v1 buf data_off chunk_size img =
     (let num_tracks = chunk_size div WOZ1_TRACK_RECORD_SIZE in do {
        trks \<leftarrow> parse_records_v1 [0..<num_tracks] (drop data_off buf) (resize_tracks num_tracks (tracks img));
        Some (img\<lparr>tracks := trks\<rparr>)
      })"

text \<open>The loop over the track descriptors: an entry past the end of the file ends it, an empty entry and one whose blocks
  are not in the file are skipped.  The bytes that are copied are those of the bit count, not of the blocks.\<close>

fun parse_entries_v2 :: "u8 list \<Rightarrow> nat \<Rightarrow> nat list \<Rightarrow> woz_track_t list \<Rightarrow> woz_track_t list option" where
  "parse_entries_v2 file_buf chunk_data_offset [] trks = Some trks"
| "parse_entries_v2 file_buf chunk_data_offset (i # is) trks =
     (let entry_off = chunk_data_offset + i * WOZ_TRK_ENTRY_SIZE in
      if entry_off + WOZ_TRK_ENTRY_SIZE > length file_buf then Some trks
      else
        let e = drop entry_off file_buf;
            starting_block = u16le e 0; block_count = u16le e 2; nbits = u32le e 4 in
        if starting_block = 0 \<and> block_count = 0 then parse_entries_v2 file_buf chunk_data_offset is trks
        else
          let byte_offset = unat starting_block * WOZ_BLOCK_SIZE;
              byte_count = unat ((nbits + 7) div 8);
              alloc_bytes = unat block_count * WOZ_BLOCK_SIZE in
          if byte_offset + alloc_bytes > length file_buf then parse_entries_v2 file_buf chunk_data_offset is trks
          else if byte_offset + byte_count > length file_buf then None
          else parse_entries_v2 file_buf chunk_data_offset is
                 (trks[i := \<lparr>bits = take byte_count (drop byte_offset file_buf), bit_count = nbits\<rparr>]))"

definition parse_trks_v2 :: "u8 list \<Rightarrow> nat \<Rightarrow> woz_image_t \<Rightarrow> woz_image_t option" where
  "parse_trks_v2 file_buf chunk_data_offset img =
     (let used = filter (\<lambda>q. q \<noteq> 0xFF) (tmap img) in
      if used = [] then Some img
      else let max_trk = fold max used 0; num_tracks = unat max_trk + 1 in do {
        trks \<leftarrow> parse_entries_v2 file_buf chunk_data_offset [0..<num_tracks] (resize_tracks num_tracks (tracks img));
        Some (img\<lparr>tracks := trks\<rparr>)
      })"

text \<open>\<^verbatim>\<open>meta[key] = val\<close>, keeping the entries in the order of the keys.\<close>

fun meta_put :: "u8 list \<Rightarrow> u8 list \<Rightarrow> (u8 list \<times> u8 list) list \<Rightarrow> (u8 list \<times> u8 list) list" where
  "meta_put key val [] = [(key, val)]"
| "meta_put key val ((k, v) # kvs) =
     (if key = k then (k, val) # kvs
      else if ord_class.lexordp key k then (key, val) # (k, v) # kvs
      else (k, v) # meta_put key val kvs)"

definition parse_meta_row :: "u8 list \<Rightarrow> (u8 list \<times> u8 list) list \<Rightarrow> (u8 list \<times> u8 list) list" where
  "parse_meta_row row kvs =
     (if 0x09 \<notin> set row then kvs
      else let key = takeWhile (\<lambda>b. b \<noteq> 0x09) row; val = drop (length key + 1) row
           in if key \<noteq> [] then meta_put key val kvs else kvs)"

function parse_meta_rows :: "u8 list \<Rightarrow> (u8 list \<times> u8 list) list \<Rightarrow> (u8 list \<times> u8 list) list" where
  "parse_meta_rows content kvs =
     (if content = [] then kvs
      else let row = takeWhile (\<lambda>b. b \<noteq> 0x0A) content
           in parse_meta_rows (drop (length row + 1) content) (parse_meta_row row kvs))"
  by pat_completeness auto
termination by (relation "measure (\<lambda>(content, kvs). length content)") auto

declare parse_meta_rows.simps [simp del]

definition parse_meta :: "u8 list \<Rightarrow> woz_image_t \<Rightarrow> woz_image_t" where
  "parse_meta data img = img\<lparr>meta := parse_meta_rows data (meta img)\<rparr>"

section \<open>Load\<close>

definition chunk_name :: "u32 \<Rightarrow> u8 list" where
  "chunk_name chunk_id = map (\<lambda>i. let c = ucast (drop_bit (8 * i) chunk_id) :: u8 in if c < 0x20 \<or> c > 0x7E then 0x3F else c) [0..<4]"

definition parse_chunk ::
    "u8 list \<Rightarrow> u32 \<Rightarrow> nat \<Rightarrow> nat \<Rightarrow> bool \<times> woz_image_t \<Rightarrow> (int \<times> bool \<times> woz_image_t) option" where
  "parse_chunk buf chunk_id data_off chunk_size st =
     (let (tmap_parsed, img) = st; data = take chunk_size (drop data_off buf) in
      if chunk_id = WOZ_CHUNK_INFO then (let (rc, img) = parse_info data img in Some (rc, tmap_parsed, img))
      else if chunk_id = WOZ_CHUNK_TMAP then (let (rc, img) = parse_tmap data img in Some (rc, True, img))
      else if chunk_id = WOZ_CHUNK_TRKS then
        (if \<not> tmap_parsed then Some (0, tmap_parsed, img)
         else if file_version img = 1
         then map_option (\<lambda>img. (0, tmap_parsed, img)) (parse_trks_v1 buf data_off chunk_size img)
         else map_option (\<lambda>img. (0, tmap_parsed, img)) (parse_trks_v2 buf data_off img))
      else if chunk_id = WOZ_CHUNK_META then Some (0, tmap_parsed, parse_meta data img)
      else Some (0, tmap_parsed, img\<lparr>unsaved_chunks := unsaved_chunks img @ [chunk_name chunk_id]\<rparr>))"

function walk_chunks :: "u8 list \<Rightarrow> nat \<Rightarrow> bool \<times> woz_image_t \<Rightarrow> (int \<times> woz_image_t) option" where
  "walk_chunks buf off st =
     (if off + 8 \<le> length buf then
        let chunk_id = u32le buf off; chunk_size = unat (u32le buf (off + 4)); data_off = off + 8 in
        if data_off + chunk_size > length buf then Some (0, snd st)
        else do {
          (rc, st') \<leftarrow> parse_chunk buf chunk_id data_off chunk_size st;
          if rc \<noteq> 0 then Some (rc, snd st') else walk_chunks buf (data_off + chunk_size) st'
        }
      else Some (0, snd st))"
  by pat_completeness auto
termination by (relation "measure (\<lambda>(buf, off, st). length buf - off)") auto

declare walk_chunks.simps [simp del]

definition load :: "host_io \<Rightarrow> string \<Rightarrow> woz_image_t \<Rightarrow> files \<Rightarrow> (int \<times> woz_image_t) option" where
  "load io fname img fs =
     (case fopen_rb io fname fs of
        None \<Rightarrow> Some (-1, img)
      | Some buf \<Rightarrow>
          if length buf < WOZ_HEADER_SIZE + 8 then Some (-1, img)
          else if \<not> read_ok io then Some (-1, img)
          else if take 8 buf \<noteq> WOZ1_MAGIC \<and> take 8 buf \<noteq> WOZ2_MAGIC then Some (-1, img)
          else
            let img = img\<lparr>file_version := (if take 8 buf = WOZ1_MAGIC then 1 else 2)\<rparr>;
                stored_crc = u32le buf 8 in
            if stored_crc \<noteq> 0 \<and> crc32 (drop WOZ_HEADER_SIZE buf) \<noteq> stored_crc then Some (-1, img)
            else
              let img = img\<lparr>tracks := [], meta := [], unsaved_chunks := [], tmap := replicate 160 0xFF\<rparr>
              in walk_chunks buf WOZ_HEADER_SIZE (False, img))"

section \<open>Chunk writers\<close>

definition append_u16le :: "u16 \<Rightarrow> u8 list" where
  "append_u16le val = [ucast val, ucast (drop_bit 8 val)]"

definition append_u32le :: "u32 \<Rightarrow> u8 list" where
  "append_u32le val = [ucast val, ucast (drop_bit 8 val), ucast (drop_bit 16 val), ucast (drop_bit 24 val)]"

definition write_chunk :: "u32 \<Rightarrow> u8 list \<Rightarrow> u8 list" where
  "write_chunk cid data = append_u32le cid @ append_u32le (of_nat (length data)) @ data"

definition saved_version :: "woz_info_t \<Rightarrow> u8" where
  "saved_version winfo = (if flux_block winfo \<noteq> 0 \<or> largest_flux_track winfo \<noteq> 0 then 3 else 2)"

definition build_info_chunk :: "woz_info_t \<Rightarrow> u8 list" where
  "build_info_chunk winfo =
     (let d = [saved_version winfo, disk_type winfo, write_protected winfo, synchronized winfo, cleaned winfo] @ take 32 (creator winfo) @
            [disk_sides winfo, boot_sector_format winfo, optimal_bit_timing winfo] @
            append_u16le (compatible_hardware winfo) @ append_u16le (required_ram winfo) @ append_u16le (largest_track winfo) @
            append_u16le (flux_block winfo) @ append_u16le (largest_flux_track winfo)
      in d @ replicate (WOZ_INFO_DATA_SIZE - length d) 0)"

definition build_tmap_chunk :: "woz_image_t \<Rightarrow> u8 list" where
  "build_tmap_chunk img = take WOZ_TMAP_DATA_SIZE (tmap img)"

record trks_state =
  trk_array :: "u8 list"
  bit_data :: "u8 list"
  current_block :: u16
  largest_blocks :: u16

definition write_at :: "nat \<Rightarrow> u8 list \<Rightarrow> u8 list \<Rightarrow> u8 list" where
  "write_at off bs xs = take off xs @ bs @ drop (off + length bs) xs"

definition track_bytes :: "woz_track_t \<Rightarrow> nat" where
  "track_bytes trk = unat ((bit_count trk + 7) div 8)"

definition track_blocks :: "woz_track_t \<Rightarrow> u16" where
  "track_blocks trk = of_nat ((track_bytes trk + WOZ_BLOCK_SIZE - 1) div WOZ_BLOCK_SIZE)"

definition write_track :: "woz_track_t list \<Rightarrow> nat \<Rightarrow> trks_state \<Rightarrow> trks_state" where
  "write_track trks i st =
     (let trk = trks ! i in
      if bit_count trk = 0 then st
      else
        let block_count = track_blocks trk; block_bytes = unat block_count * WOZ_BLOCK_SIZE
        in st\<lparr>trk_array := write_at (i * WOZ_TRK_ENTRY_SIZE)
                (append_u16le (current_block st) @ append_u16le block_count @ append_u32le (bit_count trk)) (trk_array st),
              bit_data := bit_data st @ take block_bytes (bits trk @ replicate block_bytes 0),
              largest_blocks := (if block_count > largest_blocks st then block_count else largest_blocks st),
              current_block := current_block st + block_count\<rparr>)"

definition trks_loop :: "woz_track_t list \<Rightarrow> trks_state" where
  "trks_loop trks = fold (write_track trks) [0..<min (length trks) WOZ_TRK_ARRAY_ENTRIES]
     \<lparr>trk_array = replicate (WOZ_TRK_ARRAY_ENTRIES * WOZ_TRK_ENTRY_SIZE) 0, bit_data = [], current_block = 3, largest_blocks = 0\<rparr>"

definition build_trks_chunk :: "woz_image_t \<Rightarrow> u8 list \<times> woz_image_t" where
  "build_trks_chunk img =
     (let st = trks_loop (tracks img)
      in (trk_array st @ bit_data st, img\<lparr>info := (info img)\<lparr>largest_track := largest_blocks st\<rparr>\<rparr>))"

definition build_meta_chunk :: "woz_image_t \<Rightarrow> u8 list" where
  "build_meta_chunk img = concat (map (\<lambda>(k, v). k @ [0x09] @ v @ [0x0A]) (meta img))"

section \<open>Save\<close>

definition woz_chunks :: "woz_image_t \<Rightarrow> u8 list \<times> woz_image_t" where
  "woz_chunks img =
     (let (trks_data, img) = build_trks_chunk img
      in (write_chunk WOZ_CHUNK_INFO (build_info_chunk (info img)) @
          write_chunk WOZ_CHUNK_TMAP (build_tmap_chunk img) @
          write_chunk WOZ_CHUNK_TRKS trks_data @
          (if meta img \<noteq> [] then write_chunk WOZ_CHUNK_META (build_meta_chunk img) else []), img))"

definition save :: "host_io \<Rightarrow> string \<Rightarrow> woz_image_t \<Rightarrow> files \<Rightarrow> int \<times> woz_image_t \<times> files" where
  "save io fname img fs =
     (let (chunks, img) = woz_chunks img;
          out = WOZ2_MAGIC @ append_u32le (crc32 chunks) @ chunks;
          (ok, fs') = atomic_write io fname out fs
      in if \<not> ok then (-1, img, fs') else (0, img, fs'))"

end
