(* ===== verification/Woz_Roundtrip.thy ===== *)
theory Woz_Roundtrip
  imports Woz_File
begin

text \<open>
  What \<open>save\<close> writes, \<open>load\<close> reads back.
\<close>

section \<open>Little-endian numbers\<close>

lemma length_append_le [simp]: "length (append_u16le v) = 2" "length (append_u32le w) = 4"
  by (simp_all add: append_u16le_def append_u32le_def)

lemma u16le_append:
  assumes "d = xs @ append_u16le v @ ys"
  shows "u16le d (length xs) = v"
proof -
  have "d ! length xs = ucast v" "d ! (length xs + 1) = ucast (drop_bit 8 v)"
    by (simp_all add: assms append_u16le_def nth_append)
  then have "u16le d (length xs) = ucast (ucast v :: u8) OR push_bit 8 (ucast (ucast (drop_bit 8 v) :: u8))"
    by (simp add: u16le_def)
  also have "\<dots> = v"
  proof (rule bit_word_eqI)
    fix n assume "n < LENGTH(16)"
    then show "bit (ucast (ucast v :: u8) OR push_bit 8 (ucast (ucast (drop_bit 8 v) :: u8)) :: u16) n = bit v n"
      by (cases "n < 8") (auto simp: bit_simps)
  qed
  finally show ?thesis .
qed

lemma u32le_append:
  assumes "d = xs @ append_u32le v @ ys"
  shows "u32le d (length xs) = v"
proof -
  have nths: "d ! length xs = ucast v" "d ! (length xs + 1) = ucast (drop_bit 8 v)" "d ! (length xs + 2) = ucast (drop_bit 16 v)"
    "d ! (length xs + 3) = ucast (drop_bit 24 v)"
    by (simp_all add: assms append_u32le_def nth_append)
  show ?thesis
  proof (rule bit_word_eqI)
    fix n assume "n < LENGTH(32)"
    then consider "n < 8" | "8 \<le> n" "n < 16" | "16 \<le> n" "n < 24" | "24 \<le> n" "n < 32" by force
    then show "bit (u32le d (length xs)) n = bit v n"
      unfolding u32le_def nths by cases (auto simp: bit_simps)
  qed
qed

section \<open>Walking the chunks\<close>

lemma length_write_chunk [simp]: "length (write_chunk cid data) = 8 + length data"
  by (simp add: write_chunk_def)

lemma walk_chunk:
  assumes "buf = pre @ write_chunk cid data @ rest" "length data < 2 ^ 32"
  shows "walk_chunks buf (length pre) st = do {
      (rc, st') \<leftarrow> parse_chunk buf cid (length pre + 8) (length data) st;
      if rc \<noteq> 0 then Some (rc, snd st') else walk_chunks buf (length pre + 8 + length data) st' }"
    "take (length data) (drop (length pre + 8) buf) = data"
proof -
  have "u32le buf (length pre) = cid"
    using u32le_append [of buf pre cid] by (simp add: assms(1) write_chunk_def)
  moreover have "u32le buf (length (pre @ append_u32le cid)) = of_nat (length data)"
    by (rule u32le_append) (simp add: assms(1) write_chunk_def)
  then have "unat (u32le buf (length pre + 4)) = length data"
    using assms(2) by (simp add: unat_of_nat)
  moreover have "length buf = length pre + 8 + length data + length rest"
    by (simp add: assms(1))
  ultimately show "walk_chunks buf (length pre) st = do {
      (rc, st') \<leftarrow> parse_chunk buf cid (length pre + 8) (length data) st;
      if rc \<noteq> 0 then Some (rc, snd st') else walk_chunks buf (length pre + 8 + length data) st' }"
    by (subst walk_chunks.simps) (simp add: Let_def)
  show "take (length data) (drop (length pre + 8) buf) = data"
    by (simp add: assms(1) write_chunk_def)
qed

lemma walk_end: "walk_chunks buf (length buf) st = Some (0, snd st)"
  by (subst walk_chunks.simps) simp

section \<open>The INFO chunk\<close>

lemma parse_build_info:
  assumes "length (creator winfo) = 32" "flux_block (info img) = 0" "largest_flux_track (info img) = 0"
  shows "parse_info (build_info_chunk winfo) img = (0, img\<lparr>info := winfo\<lparr>info_version := saved_version winfo\<rparr>\<rparr>)"
    "length (build_info_chunk winfo) = 60"
proof -
  let ?A = "[saved_version winfo, disk_type winfo, write_protected winfo, synchronized winfo, cleaned winfo]"
  let ?B = "[disk_sides winfo, boot_sector_format winfo, optimal_bit_timing winfo]"
  let ?le = "[compatible_hardware winfo, required_ram winfo, largest_track winfo, flux_block winfo, largest_flux_track winfo]"
  have d: "build_info_chunk winfo = ?A @ creator winfo @ ?B @ concat (map append_u16le ?le) @ replicate 10 0"
    using assms(1) by (simp add: build_info_chunk_def woz_sizes)
  show len: "length (build_info_chunk winfo) = 60"
    using assms(1) by (simp add: d)
  have le: "u16le (build_info_chunk winfo) 40 = compatible_hardware winfo" "u16le (build_info_chunk winfo) 42 = required_ram winfo"
    "u16le (build_info_chunk winfo) 44 = largest_track winfo" "u16le (build_info_chunk winfo) 46 = flux_block winfo"
    "u16le (build_info_chunk winfo) 48 = largest_flux_track winfo"
    using u16le_append [of "build_info_chunk winfo" "?A @ creator winfo @ ?B" "compatible_hardware winfo"]
      u16le_append [of "build_info_chunk winfo" "?A @ creator winfo @ ?B @ append_u16le (compatible_hardware winfo)" "required_ram winfo"]
      u16le_append [of "build_info_chunk winfo" "?A @ creator winfo @ ?B @ concat (map append_u16le (take 2 ?le))" "largest_track winfo"]
      u16le_append [of "build_info_chunk winfo" "?A @ creator winfo @ ?B @ concat (map append_u16le (take 3 ?le))" "flux_block winfo"]
      u16le_append [of "build_info_chunk winfo" "?A @ creator winfo @ ?B @ concat (map append_u16le (take 4 ?le))" "largest_flux_track winfo"]
      assms(1)
    by (simp_all add: d)
  have bytes: "build_info_chunk winfo ! 0 = saved_version winfo" "build_info_chunk winfo ! 1 = disk_type winfo"
    "build_info_chunk winfo ! 2 = write_protected winfo" "build_info_chunk winfo ! 3 = synchronized winfo" "build_info_chunk winfo ! 4 = cleaned winfo"
    "build_info_chunk winfo ! 37 = disk_sides winfo" "build_info_chunk winfo ! 38 = boot_sector_format winfo"
    "build_info_chunk winfo ! 39 = optimal_bit_timing winfo" "take 32 (drop 5 (build_info_chunk winfo)) = creator winfo"
    using assms(1) by (simp_all add: d nth_append)
  show "parse_info (build_info_chunk winfo) img = (0, img\<lparr>info := winfo\<lparr>info_version := saved_version winfo\<rparr>\<rparr>)"
    using assms(2,3) bytes [simplified] le len
    by (cases winfo; cases "info img"; cases img) (auto simp: parse_info_def saved_version_def Let_def)
qed

section \<open>The META chunk\<close>

text \<open>Keys without tabs and newlines, values without newlines, in the order of the keys.\<close>

definition meta_ok :: "(u8 list \<times> u8 list) list \<Rightarrow> bool" where
  "meta_ok kvs \<longleftrightarrow> (\<forall>(k, v) \<in> set kvs. k \<noteq> [] \<and> 0x09 \<notin> set k \<and> 0x0A \<notin> set k \<and> 0x0A \<notin> set v) \<and>
     sorted_wrt (\<lambda>x y. ord_class.lexordp (fst x) (fst y)) kvs"

lemma parse_row:
  assumes "k \<noteq> []" "0x09 \<notin> set k" "0x0A \<notin> set k" "0x0A \<notin> set v"
  shows "parse_meta_rows ((k @ [0x09] @ v @ [0x0A]) @ rest) kvs = parse_meta_rows rest (meta_put k v kvs)"
proof -
  have "takeWhile (\<lambda>b. b \<noteq> 0x0A) ((k @ 0x09 # v) @ 0x0A # rest) = k @ 0x09 # v"
    using assms(3,4) by (subst takeWhile_append2) auto
  then have "takeWhile (\<lambda>b. b \<noteq> 0x0A) ((k @ [0x09] @ v @ [0x0A]) @ rest) = k @ 0x09 # v" by simp
  moreover have "takeWhile (\<lambda>b. b \<noteq> 0x09) (k @ 0x09 # v) = k"
    using assms(2) by (subst takeWhile_append2) auto
  ultimately show ?thesis
    using assms(1) by (subst parse_meta_rows.simps) (simp add: parse_meta_row_def Let_def)
qed

lemma meta_put_last:
  assumes "\<forall>x \<in> set kvs. ord_class.lexordp (fst x) key"
  shows "meta_put key val kvs = kvs @ [(key, val)]"
  using assms
proof (induction kvs)
  case (Cons x kvs)
  then show ?case
    using lexordp_irreflexive' [of key] lexordp_antisym by (cases x) fastforce
qed simp

lemma parse_build_rows:
  assumes "meta_ok kvs" "\<forall>x \<in> set acc. \<forall>y \<in> set kvs. ord_class.lexordp (fst x) (fst y)"
  shows "parse_meta_rows (concat (map (\<lambda>(k, v). k @ [0x09] @ v @ [0x0A]) kvs)) acc = acc @ kvs"
  using assms
proof (induction kvs arbitrary: acc)
  case Nil
  then show ?case by (subst parse_meta_rows.simps) simp
next
  case (Cons x kvs)
  obtain k v where x: "x = (k, v)" by (cases x)
  have "meta_put k v acc = acc @ [(k, v)]"
    using Cons.prems(2) by (intro meta_put_last) (simp add: x)
  moreover have "parse_meta_rows (concat (map (\<lambda>(k, v). k @ [0x09] @ v @ [0x0A]) kvs)) (acc @ [(k, v)]) = (acc @ [(k, v)]) @ kvs"
    using Cons.prems by (intro Cons.IH) (auto simp: meta_ok_def x)
  ultimately show ?case
    using Cons.prems(1) parse_row [of k v] by (simp add: meta_ok_def x)
qed

section \<open>The TRKS chunk\<close>

text \<open>Tracks whose bytes are those of their bit count, in as many blocks as a block number can address.\<close>

definition stored_track :: "woz_track_t \<Rightarrow> bool" where
  "stored_track trk \<longleftrightarrow> unat (bit_count trk) + 7 < 2 ^ 32 \<and> length (bits trk) = (unat (bit_count trk) + 7) div 8"

definition blocks :: "woz_track_t \<Rightarrow> nat" where
  "blocks trk = (length (bits trk) + 511) div 512"

definition start_block :: "woz_track_t list \<Rightarrow> nat \<Rightarrow> nat" where
  "start_block trks i = 3 + sum_list (map blocks (take i trks))"

definition padded :: "woz_track_t \<Rightarrow> u8 list" where
  "padded trk = bits trk @ replicate (blocks trk * 512 - length (bits trk)) 0"

definition entry :: "woz_track_t list \<Rightarrow> nat \<Rightarrow> u8 list" where
  "entry trks i =
     (if bit_count (trks ! i) = 0 then replicate 8 0
      else append_u16le (of_nat (start_block trks i)) @ append_u16le (of_nat (blocks (trks ! i))) @ append_u32le (bit_count (trks ! i)))"

lemma length_entry [simp]: "length (entry trks i) = 8"
  by (simp add: entry_def)

lemma length_padded: "length (padded trk) = blocks trk * 512"
  by (simp add: padded_def blocks_def)

lemma start_block_Suc: "i < length trks \<Longrightarrow> start_block trks (Suc i) = start_block trks i + blocks (trks ! i)"
  by (simp add: start_block_def take_Suc_conv_app_nth)

lemma start_block_mono: "i \<le> j \<Longrightarrow> start_block trks i \<le> start_block trks j"
proof -
  assume "i \<le> j"
  then have "take j trks = take i trks @ take (j - i) (drop i trks)"
    by (metis le_add_diff_inverse take_add)
  then show ?thesis by (simp add: start_block_def)
qed

lemma track_bytes_stored: "stored_track trk \<Longrightarrow> track_bytes trk = length (bits trk)"
  by (simp add: stored_track_def track_bytes_def unat_div unat_word_ariths)

lemma track_blocks_stored: "stored_track trk \<Longrightarrow> track_blocks trk = of_nat (blocks trk)"
  by (simp add: track_blocks_def track_bytes_stored blocks_def woz_sizes add.commute)

lemma write_at_entry:
  assumes "length bs = 8" "i < 160" "j < 160" "length xs = 1280"
  shows "take 8 (drop (j * 8) (write_at (i * 8) bs xs)) = (if j = i then bs else take 8 (drop (j * 8) xs))"
    "length (write_at (i * 8) bs xs) = 1280"
proof -
  show "length (write_at (i * 8) bs xs) = 1280"
    using assms by (simp add: write_at_def)
  consider "j = i" | "j < i" | "i < j" by linarith
  then show "take 8 (drop (j * 8) (write_at (i * 8) bs xs)) = (if j = i then bs else take 8 (drop (j * 8) xs))"
  proof cases
    case 1
    then show ?thesis using assms by (simp add: write_at_def)
  next
    case 2
    then have "8 \<le> i * 8 - j * 8" by linarith
    then show ?thesis
      using 2 assms by (simp add: write_at_def drop_take min_def)
  next
    case 3
    then have "i * 8 + 8 \<le> j * 8" by linarith
    then show ?thesis
      using 3 assms by (simp add: write_at_def)
  qed
qed

text \<open>The state of the writer after \<open>k\<close> tracks.\<close>

lemma trks_loop_state:
  assumes "k \<le> length trks" "length trks \<le> 160" "\<forall>trk \<in> set trks. stored_track trk" "start_block trks (length trks) < 2 ^ 16"
  defines "st \<equiv> fold (write_track trks) [0..<k] \<lparr>trk_array = replicate 1280 0, bit_data = [], current_block = 3, largest_blocks = 0\<rparr>"
  shows "length (trk_array st) = 1280 \<and> current_block st = of_nat (start_block trks k) \<and>
    bit_data st = concat (map padded (take k trks)) \<and>
    (\<forall>j < 160. take 8 (drop (j * 8) (trk_array st)) = (if j < k then entry trks j else replicate 8 0))"
  using assms(1) unfolding st_def
proof (induction k)
  case 0
  then show ?case by (simp add: start_block_def)
next
  case (Suc k)
  define s where "s = fold (write_track trks) [0..<k] \<lparr>trk_array = replicate 1280 0, bit_data = [], current_block = 3, largest_blocks = 0\<rparr>"
  have IH: "length (trk_array s) = 1280" "current_block s = of_nat (start_block trks k)"
    "bit_data s = concat (map padded (take k trks))"
    "\<forall>j < 160. take 8 (drop (j * 8) (trk_array s)) = (if j < k then entry trks j else replicate 8 0)"
    using Suc by (simp_all add: s_def)
  have step: "fold (write_track trks) [0..<Suc k] \<lparr>trk_array = replicate 1280 0, bit_data = [], current_block = 3, largest_blocks = 0\<rparr> =
      write_track trks k s"
    by (simp add: s_def)
  have k: "k < length trks" "k < 160" and stored: "stored_track (trks ! k)"
    using Suc.prems assms(2,3) by simp_all
  note next_block = start_block_Suc [OF k(1)]
  have "start_block trks (Suc k) < 2 ^ 16"
    using start_block_mono [of "Suc k" "length trks" trks] k(1) assms(4) by simp
  then have small: "blocks (trks ! k) < 2 ^ 16" by (simp add: next_block)
  have take: "take (Suc k) trks = take k trks @ [trks ! k]" using k(1) by (simp add: take_Suc_conv_app_nth)
  show ?case
  proof (cases "bit_count (trks ! k) = 0")
    case True
    then have "bits (trks ! k) = []" using stored by (simp add: stored_track_def)
    then have "blocks (trks ! k) = 0" "padded (trks ! k) = []" by (simp_all add: blocks_def padded_def)
    then show ?thesis
      unfolding step using True IH by (auto simp: write_track_def take next_block entry_def less_Suc_eq)
  next
    case False
    have blk: "unat (track_blocks (trks ! k)) = blocks (trks ! k)"
      using small by (simp add: track_blocks_stored [OF stored] unat_of_nat)
    have "length (bits (trks ! k)) \<le> blocks (trks ! k) * 512"
      using length_padded [of "trks ! k"] by (simp add: padded_def)
    then have pad: "take (blocks (trks ! k) * 512) (bits (trks ! k) @ replicate (blocks (trks ! k) * 512) 0) = padded (trks ! k)"
      by (simp add: padded_def)
    let ?e = "append_u16le (current_block s) @ append_u16le (track_blocks (trks ! k)) @ append_u32le (bit_count (trks ! k))"
    have e: "?e = entry trks k"
      using False by (simp add: entry_def IH(2) track_blocks_stored [OF stored])
    note at = write_at_entry [of "entry trks k" k _ "trk_array s", OF length_entry k(2) _ IH(1)]
    have "trk_array (write_track trks k s) = write_at (k * 8) (entry trks k) (trk_array s)"
      "bit_data (write_track trks k s) = bit_data s @ padded (trks ! k)"
      using False e pad by (simp_all add: write_track_def Let_def woz_sizes blk)
    moreover have "current_block (write_track trks k s) = of_nat (start_block trks (Suc k))"
      using False by (simp add: write_track_def Let_def IH(2) next_block track_blocks_stored [OF stored])
    ultimately show ?thesis
      unfolding step using IH(3,4) at(1) at(2) [of 0] by (auto simp: take less_Suc_eq)
  qed
qed

lemma length_padded_tracks:
  "length (concat (map padded trks)) = sum_list (map blocks trks) * 512"
  by (induction trks) (simp_all add: length_padded distrib_right)

text \<open>The descriptors and the data of the tracks in a file with the TRKS chunk at offset 256.\<close>

definition holds_tracks :: "u8 list \<Rightarrow> woz_track_t list \<Rightarrow> bool" where
  "holds_tracks buf trks \<longleftrightarrow> (\<exists>pre arr rest. buf = pre @ arr @ concat (map padded trks) @ rest \<and> length pre = 256 \<and> length arr = 1280 \<and>
     (\<forall>j < length trks. take 8 (drop (j * 8) arr) = entry trks j))"

lemma tracks_in_file:
  assumes "holds_tracks buf trks" "i < length trks" "length trks \<le> 160"
  shows "take 8 (drop (256 + i * 8) buf) = entry trks i" "256 + i * 8 + 8 \<le> length buf"
    "start_block trks (Suc i) * 512 \<le> length buf"
    "take (length (bits (trks ! i))) (drop (start_block trks i * 512) buf) = bits (trks ! i)"
proof -
  obtain pre arr rest where buf: "buf = pre @ arr @ concat (map padded trks) @ rest" "length pre = 256" "length arr = 1280"
    "\<forall>j < length trks. take 8 (drop (j * 8) arr) = entry trks j"
    using assms(1) by (auto simp: holds_tracks_def)
  have "take 8 (drop (256 + i * 8) buf) = take 8 (drop (i * 8) arr)"
    using buf(1-3) assms(2,3) by (simp add: drop_take)
  then show "take 8 (drop (256 + i * 8) buf) = entry trks i" using buf(4) assms(2) by simp
  show "256 + i * 8 + 8 \<le> length buf" using buf(1-3) assms(2,3) by simp
  have split: "concat (map padded trks) = concat (map padded (take i trks)) @ padded (trks ! i) @ concat (map padded (drop (Suc i) trks))"
    using id_take_nth_drop [OF assms(2)] by (metis concat.simps(2) concat_append list.map(2) map_append)
  have "length (concat (map padded (take i trks))) = (start_block trks i - 3) * 512"
    by (simp add: length_padded_tracks start_block_def)
  moreover have "start_block trks i \<ge> 3" by (simp add: start_block_def)
  ultimately have at: "start_block trks i * 512 = length (pre @ arr @ concat (map padded (take i trks)))"
    using buf(2,3) by simp
  then have "drop (start_block trks i * 512) buf = padded (trks ! i) @ concat (map padded (drop (Suc i) trks)) @ rest"
    by (simp only: at) (simp add: buf(1) split)
  then show "take (length (bits (trks ! i))) (drop (start_block trks i * 512) buf) = bits (trks ! i)"
    by (simp add: padded_def)
  show "start_block trks (Suc i) * 512 \<le> length buf"
    using at buf(1) split by (simp add: start_block_Suc [OF assms(2)] length_padded distrib_right)
qed

lemma parse_stored_tracks:
  assumes "holds_tracks buf trks" "length trks \<le> 160" "\<forall>trk \<in> set trks. stored_track trk" "start_block trks (length trks) < 2 ^ 16"
    and "i \<le> length trks"
  shows "parse_entries_v2 buf 256 [i..<length trks] (take i trks @ replicate (length trks - i) empty_track) = Some trks"
  using assms(5)
proof (induction "length trks - i" arbitrary: i)
  case 0
  then show ?case by simp
next
  case (Suc n)
  then have i: "i < length trks" by simp
  note slot = tracks_in_file [OF assms(1) i assms(2)]
  let ?trk = "trks ! i" and ?e = "drop (256 + i * 8) buf"
  have stored: "stored_track ?trk" using assms(3) i by simp
  have upt: "[i..<length trks] = i # [Suc i..<length trks]" using i by (simp add: upt_rec)
  have update: "(take i trks @ replicate (length trks - i) empty_track)[i := ?trk] =
      take (Suc i) trks @ replicate (length trks - Suc i) empty_track"
  proof -
    have "replicate (length trks - i) empty_track = empty_track # replicate (length trks - Suc i) empty_track"
      using i by (metis Suc_diff_Suc replicate_Suc)
    then show ?thesis using i by (simp add: list_update_append take_Suc_conv_app_nth)
  qed
  have rest: "parse_entries_v2 buf 256 [Suc i..<length trks] (take (Suc i) trks @ replicate (length trks - Suc i) empty_track) = Some trks"
    using Suc by (intro Suc.hyps(1)) simp_all
  show ?case
  proof (cases "bit_count ?trk = 0")
    case True
    have "bits ?trk = []" using stored True by (simp add: stored_track_def)
    then have "?trk = empty_track" using True by (cases ?trk) (simp add: empty_track_def)
    then have same: "take i trks @ replicate (length trks - i) empty_track =
        take (Suc i) trks @ replicate (length trks - Suc i) empty_track"
      using update i by (metis list_update_id nth_append_length_plus nth_replicate add.right_neutral length_take min.absorb4 zero_less_diff)
    have "replicate 8 0 = append_u16le 0 @ append_u16le 0 @ append_u32le 0"
      by (simp add: append_u16le_def append_u32le_def eval_nat_numeral)
    then obtain tl where e: "?e = append_u16le 0 @ append_u16le 0 @ append_u32le 0 @ tl"
      using slot(1) True append_take_drop_id [of 8 ?e] unfolding entry_def by (metis append_assoc)
    then have "u16le ?e 0 = 0" "u16le ?e 2 = 0"
      using u16le_append [of ?e "[]"] u16le_append [of ?e "append_u16le 0"] by simp_all
    then show ?thesis
      using slot(2) same rest by (simp add: upt woz_sizes Let_def)
  next
    case False
    obtain tl where e: "?e = append_u16le (of_nat (start_block trks i)) @ append_u16le (of_nat (blocks ?trk)) @
        append_u32le (bit_count ?trk) @ tl"
      using slot(1) False append_take_drop_id [of 8 ?e] unfolding entry_def by (metis append_assoc)
    have le: "u16le ?e 0 = of_nat (start_block trks i)" "u16le ?e 2 = of_nat (blocks ?trk)" "u32le ?e 4 = bit_count ?trk"
      using u16le_append [of ?e "[]"] u16le_append [of ?e "append_u16le (of_nat (start_block trks i))"]
        u32le_append [of ?e "append_u16le (of_nat (start_block trks i)) @ append_u16le (of_nat (blocks ?trk))"] e
      by simp_all
    have "start_block trks (Suc i) < 2 ^ 16"
      using start_block_mono [of "Suc i" "length trks" trks] i assms(4) by simp
    then have small: "unat (of_nat (start_block trks i) :: u16) = start_block trks i" "unat (of_nat (blocks ?trk) :: u16) = blocks ?trk"
      by (simp_all add: start_block_Suc [OF i] unat_of_nat)
    then have nz: "(of_nat (start_block trks i) :: u16) \<noteq> 0"
      by (metis start_block_def unat_0 add_is_0 zero_neq_numeral)
    have bytes: "unat ((bit_count ?trk + 7) div 8) = length (bits ?trk)"
      using track_bytes_stored [OF stored] by (simp add: track_bytes_def)
    have fits: "start_block trks i * 512 + blocks ?trk * 512 \<le> length buf"
      using slot(3) by (simp add: start_block_Suc [OF i] distrib_right)
    moreover have "length (bits ?trk) \<le> blocks ?trk * 512"
      using length_padded [of ?trk] by (simp add: padded_def)
    moreover have "\<lparr>bits = bits ?trk, bit_count = bit_count ?trk\<rparr> = ?trk" by simp
    ultimately show ?thesis
      using slot(2,4) update rest nz
      by (simp only: upt parse_entries_v2.simps woz_sizes Let_def le small bytes) simp
  qed
qed

text \<open>The track map names every track up to the last one.\<close>

definition tmap_ok :: "u8 list \<Rightarrow> woz_track_t list \<Rightarrow> bool" where
  "tmap_ok qs trks \<longleftrightarrow> length qs = 160 \<and> length trks \<le> 160 \<and> (\<forall>q \<in> set qs. q = 0xFF \<or> unat q < length trks) \<and>
     (trks \<noteq> [] \<longrightarrow> of_nat (length trks - 1) \<in> set qs)"

lemma fold_max_mem: "fold max xs a \<in> insert a (set xs)" "\<forall>x \<in> insert a (set xs). x \<le> fold max xs (a :: u8)"
proof (induction xs arbitrary: a)
  case (Cons x xs)
  case 1
  then show ?case using Cons(1) [of "max x a"] by (auto simp: max_def split: if_splits)
next
  case (Cons x xs)
  case 2
  then show ?case using Cons(2) [of "max x a"] by (auto simp: max_def split: if_splits)
qed simp_all

lemma parse_saved_tracks:
  assumes "holds_tracks buf trks" "tmap_ok (tmap img) trks" "\<forall>trk \<in> set trks. stored_track trk"
    and "start_block trks (length trks) < 2 ^ 16" "tracks img = []"
  shows "parse_trks_v2 buf 256 img = Some (img\<lparr>tracks := trks\<rparr>)"
proof (cases "trks = []")
  case True
  then have "filter (\<lambda>q. q \<noteq> 0xFF) (tmap img) = []" using assms(2) by (auto simp: tmap_ok_def filter_empty_conv)
  then show ?thesis using True assms(5) by (simp add: parse_trks_v2_def)
next
  case False
  let ?used = "filter (\<lambda>q. q \<noteq> 0xFF) (tmap img)" and ?n = "length trks"
  have n: "?n \<le> 160" "0 < ?n" using assms(2) False by (auto simp: tmap_ok_def)
  define k where "k = ?n - 1"
  have k: "k < 160" "?n = Suc k" using n by (simp_all add: k_def)
  then have last: "unat (of_nat k :: u8) = k" by (simp add: unat_of_nat)
  then have "(of_nat k :: u8) \<noteq> 0xFF" using k(1) by auto
  then have mem: "of_nat k \<in> set ?used" using assms(2) False by (simp add: tmap_ok_def k_def)
  have "unat (fold max ?used 0) \<le> k"
    using fold_max_mem(1) [of ?used 0] assms(2) k by (auto simp: tmap_ok_def)
  moreover have "k \<le> unat (fold max ?used 0)"
    using fold_max_mem(2) [of 0 ?used] mem last by (auto simp: word_le_nat_alt)
  ultimately have "unat (fold max ?used 0) + 1 = ?n" using k(2) by simp
  moreover have "?used \<noteq> []" using mem by (metis empty_iff empty_set)
  ultimately show ?thesis
    using parse_stored_tracks [OF assms(1) n(1) assms(3,4), of 0] assms(5)
    by (simp only: parse_trks_v2_def Let_def resize_tracks_def if_False) simp
qed

section \<open>Saving and loading\<close>

definition saveable :: "woz_image_t \<Rightarrow> bool" where
  "saveable img \<longleftrightarrow> length (creator (info img)) = 32 \<and> tmap_ok (tmap img) (tracks img) \<and> (\<forall>trk \<in> set (tracks img). stored_track trk) \<and>
     start_block (tracks img) (length (tracks img)) < 2 ^ 16 \<and> meta_ok (meta img) \<and> length (build_meta_chunk img) < 2 ^ 32"

definition loaded :: "woz_image_t \<Rightarrow> woz_image_t" where
  "loaded img = img\<lparr>file_version := 2, info := (info img)\<lparr>info_version := saved_version (info img)\<rparr>, unsaved_chunks := []\<rparr>"

lemma saved_tracks:
  assumes "saveable img"
  shows "\<exists>arr. fst (build_trks_chunk img) = arr @ concat (map padded (tracks img)) \<and> length arr = 1280 \<and>
    (\<forall>j < length (tracks img). take 8 (drop (j * 8) arr) = entry (tracks img) j)"
    "length (fst (build_trks_chunk img)) < 2 ^ 32"
proof -
  let ?trks = "tracks img"
  have len: "length ?trks \<le> 160" using assms by (simp add: saveable_def tmap_ok_def)
  have loop: "length (trk_array (trks_loop ?trks)) = 1280 \<and> bit_data (trks_loop ?trks) = concat (map padded ?trks) \<and>
      (\<forall>j < length ?trks. take 8 (drop (j * 8) (trk_array (trks_loop ?trks))) = entry ?trks j)"
    using trks_loop_state [OF order_refl len] assms len by (simp add: trks_loop_def woz_sizes saveable_def min_def)
  then show "\<exists>arr. fst (build_trks_chunk img) = arr @ concat (map padded ?trks) \<and> length arr = 1280 \<and>
      (\<forall>j < length ?trks. take 8 (drop (j * 8) arr) = entry ?trks j)"
    by (auto simp: build_trks_chunk_def Let_def)
  have "sum_list (map blocks ?trks) < 2 ^ 16" using assms by (simp add: saveable_def start_block_def)
  then show "length (fst (build_trks_chunk img)) < 2 ^ 32"
    using loop by (simp add: build_trks_chunk_def Let_def length_padded_tracks)
qed

lemma magic_bytes: "length WOZ2_MAGIC = 8" "WOZ2_MAGIC \<noteq> WOZ1_MAGIC"
  by (simp_all add: WOZ2_MAGIC_def WOZ1_MAGIC_def)

lemma chunk_ids:
  "WOZ_CHUNK_TMAP \<noteq> WOZ_CHUNK_INFO" "WOZ_CHUNK_TRKS \<noteq> WOZ_CHUNK_INFO" "WOZ_CHUNK_TRKS \<noteq> WOZ_CHUNK_TMAP"
  "WOZ_CHUNK_META \<noteq> WOZ_CHUNK_INFO" "WOZ_CHUNK_META \<noteq> WOZ_CHUNK_TMAP" "WOZ_CHUNK_META \<noteq> WOZ_CHUNK_TRKS"
  by (simp_all add: WOZ_CHUNK_INFO_def WOZ_CHUNK_TMAP_def WOZ_CHUNK_TRKS_def WOZ_CHUNK_META_def)

text \<open>The bytes of a saved file, and the image that \<open>load\<close> starts from after its header checks.\<close>

definition woz_bytes :: "woz_image_t \<Rightarrow> u8 list" where
  "woz_bytes img = WOZ2_MAGIC @ append_u32le (crc32 (fst (woz_chunks img))) @ fst (woz_chunks img)"

definition cleared :: "woz_image_t \<Rightarrow> woz_image_t" where
  "cleared img = img\<lparr>file_version := 2, tracks := [], meta := [], unsaved_chunks := [], tmap := replicate 160 0xFF\<rparr>"

lemma walk_meta:
  assumes "meta_ok (meta img)" "length (build_meta_chunk img) < 2 ^ 32" "meta base = []"
    and "buf = pre @ (if meta img \<noteq> [] then write_chunk WOZ_CHUNK_META (build_meta_chunk img) else [])"
  shows "walk_chunks buf (length pre) (True, base) = Some (0, base\<lparr>meta := meta img\<rparr>)"
proof (cases "meta img = []")
  case True
  then have "base\<lparr>meta := meta img\<rparr> = base" using assms(3) by (cases base) simp
  then show ?thesis using True assms(4) walk_end [of buf] by simp
next
  case False
  then have buf: "buf = pre @ write_chunk WOZ_CHUNK_META (build_meta_chunk img) @ []" using assms(4) by simp
  have "parse_meta (build_meta_chunk img) base = base\<lparr>meta := meta img\<rparr>"
    using parse_build_rows [OF assms(1), of "[]"] assms(3) by (simp add: parse_meta_def build_meta_chunk_def)
  then show ?thesis
    using walk_chunk [OF buf assms(2)] walk_end [of buf] buf chunk_ids by (simp add: parse_chunk_def add.assoc)
qed

lemma walk_saved:
  assumes "saveable img" "flux_block (info base) = 0" "largest_flux_track (info base) = 0"
  shows "walk_chunks (woz_bytes img) 12 (False, cleared base) = Some (0, loaded (snd (woz_chunks img)))"
proof -
  let ?trks = "fst (build_trks_chunk img)"
  define img' where "img' = snd (build_trks_chunk img)"
  have img': "creator (info img') = creator (info img)"
    by (simp_all add: img'_def build_trks_chunk_def Let_def)
  let ?i = "build_info_chunk (info img')" and ?t = "tmap img"
  define rest where "rest = (if meta img \<noteq> [] then write_chunk WOZ_CHUNK_META (build_meta_chunk img) else [])"
  define hd where "hd = WOZ2_MAGIC @ append_u32le (crc32 (fst (woz_chunks img)))"
  have hd: "length hd = 12" by (simp add: hd_def magic_bytes)
  have ok: "length (creator (info img')) = 32" "length ?t = 160" "tmap_ok ?t (tracks img)" "meta_ok (meta img)"
    "\<forall>trk \<in> set (tracks img). stored_track trk" "start_block (tracks img) (length (tracks img)) < 2 ^ 16"
    "length (build_meta_chunk img) < 2 ^ 32"
    using assms(1) by (simp_all add: saveable_def tmap_ok_def img')
  have fields: "tmap img' = tmap img" "meta img' = meta img" "tracks img' = tracks img" "build_meta_chunk img' = build_meta_chunk img"
    by (simp_all add: img'_def build_trks_chunk_def build_meta_chunk_def Let_def)
  note pinfo = parse_build_info(1) [OF ok(1)] and len = parse_build_info(2) [OF ok(1) assms(2,3)]
  have chunks: "fst (woz_chunks img) = write_chunk WOZ_CHUNK_INFO ?i @ write_chunk WOZ_CHUNK_TMAP ?t @ write_chunk WOZ_CHUNK_TRKS ?trks @ rest"
    "snd (woz_chunks img) = img'"
    using ok(2) fields unfolding img'_def
    by (simp_all add: woz_chunks_def case_prod_beta Let_def build_tmap_chunk_def woz_sizes rest_def)
  let ?buf = "woz_bytes img"
  have buf: "?buf = hd @ write_chunk WOZ_CHUNK_INFO ?i @ write_chunk WOZ_CHUNK_TMAP ?t @ write_chunk WOZ_CHUNK_TRKS ?trks @ rest"
    by (simp add: woz_bytes_def chunks(1) hd_def)
  define b1 where "b1 = (cleared base)\<lparr>info := (info img')\<lparr>info_version := saved_version (info img')\<rparr>\<rparr>"
  define b2 where "b2 = b1\<lparr>tmap := tmap img\<rparr>"
  define b3 where "b3 = b2\<lparr>tracks := tracks img\<rparr>"
  have one: "walk_chunks ?buf 12 (False, cleared base) = walk_chunks ?buf 80 (False, b1)"
    using walk_chunk(1) [OF buf, of "(False, cleared base)"] walk_chunk(2) [OF buf] pinfo [of "cleared base"] assms(2,3) len
    by (simp add: hd parse_chunk_def b1_def cleared_def)
  have two: "walk_chunks ?buf 80 (False, b1) = walk_chunks ?buf 248 (True, b2)"
    using walk_chunk(1) [of ?buf "hd @ write_chunk WOZ_CHUNK_INFO ?i" WOZ_CHUNK_TMAP ?t _ "(False, b1)"]
      walk_chunk(2) [of ?buf "hd @ write_chunk WOZ_CHUNK_INFO ?i" WOZ_CHUNK_TMAP ?t] buf ok(2) chunk_ids len
    by (simp add: hd parse_chunk_def parse_tmap_def b2_def)
  let ?pre = "hd @ write_chunk WOZ_CHUNK_INFO ?i @ write_chunk WOZ_CHUNK_TMAP ?t"
  obtain arr where arr: "?trks = arr @ concat (map padded (tracks img))" "length arr = 1280"
    "\<forall>j < length (tracks img). take 8 (drop (j * 8) arr) = entry (tracks img) j"
    using saved_tracks(1) [OF assms(1)] by blast
  have "?buf = (?pre @ append_u32le WOZ_CHUNK_TRKS @ append_u32le (of_nat (length ?trks))) @ arr @ concat (map padded (tracks img)) @ rest"
    by (simp add: buf write_chunk_def arr(1))
  then have "holds_tracks ?buf (tracks img)"
    unfolding holds_tracks_def using arr(2,3) hd ok(2) len
    by (intro exI [of _ "?pre @ append_u32le WOZ_CHUNK_TRKS @ append_u32le (of_nat (length ?trks))"] exI [of _ arr] exI [of _ rest]) simp
  then have "parse_trks_v2 ?buf 256 b2 = Some b3"
    using parse_saved_tracks [of ?buf "tracks img" b2] ok by (simp add: b3_def b2_def b1_def cleared_def)
  then have three: "walk_chunks ?buf 248 (True, b2) = walk_chunks ?buf (256 + length ?trks) (True, b3)"
    using walk_chunk(1) [of ?buf ?pre WOZ_CHUNK_TRKS ?trks rest "(True, b2)"] buf saved_tracks(2) [OF assms(1)] ok(2) chunk_ids len
    by (simp add: hd parse_chunk_def b2_def b1_def cleared_def)
  have "walk_chunks ?buf (length (?pre @ write_chunk WOZ_CHUNK_TRKS ?trks)) (True, b3) = Some (0, b3\<lparr>meta := meta img\<rparr>)"
    using buf by (intro walk_meta [OF ok(4,7)]) (simp_all add: b3_def b2_def b1_def cleared_def rest_def)
  moreover have "b3\<lparr>meta := meta img\<rparr> = loaded img'"
    using fields by (cases img', cases base) (simp add: b3_def b2_def b1_def cleared_def loaded_def)
  ultimately show ?thesis
    using one two three ok(2) hd len chunks(2) by (simp add: ac_simps)
qed

text \<open>
  C9.  Saving and loading a WOZ image are inverse.  An image whose tracks hold as many bytes as their bit counts say and fit
  the 16-bit block numbers, whose track map names the last track, and whose metadata keys and values are free of separators,
  is saved without error when the host's calls succeed; loading the file over any image without flux data then passes the
  CRC check and gives the saved image, with its version set to that of the file and its largest track as
  counted by the writer.
\<close>

theorem woz_save_load:
  assumes "saveable img" "io_ok io" "flux_block (info base) = 0" "largest_flux_track (info base) = 0"
  shows "\<exists>img' fs'. save io fname img fs = (0, img', fs') \<and> load io fname base fs' = Some (0, loaded img') \<and>
    tracks img' = tracks img \<and> tmap img' = tmap img \<and> meta img' = meta img \<and>
    info img' = (info img)\<lparr>largest_track := largest_track (info img')\<rparr>"
proof -
  obtain chunks img' where c: "woz_chunks img = (chunks, img')" by (cases "woz_chunks img")
  let ?out = "woz_bytes img" and ?fs' = "fs(fname \<mapsto> woz_bytes img, tmp_path fname := None)"
  have out: "?out = WOZ2_MAGIC @ append_u32le (crc32 chunks) @ chunks" by (simp add: woz_bytes_def c)
  have "atomic_write io fname ?out fs = (True, ?fs')"
    using assms(2) by (auto simp: atomic_write_def atomic_write_steps_def io_ok_def Let_def storage_defs fun_upd_def)
  then have saved: "save io fname img fs = (0, img', ?fs')" by (simp add: save_def c out)
  have same: "tracks img' = tracks img" "tmap img' = tmap img" "meta img' = meta img"
    "info img' = (info img)\<lparr>largest_track := largest_track (info img')\<rparr>"
    using c by (auto simp: woz_chunks_def build_trks_chunk_def Let_def)
  have "u32le ?out (length WOZ2_MAGIC) = crc32 chunks" by (rule u32le_append [OF out])
  moreover have "drop 12 ?out = chunks" "take 8 ?out = WOZ2_MAGIC" "length ?out = 12 + length chunks"
    by (simp_all add: out magic_bytes)
  moreover have "8 \<le> length chunks" using c by (auto simp: woz_chunks_def Let_def split: prod.splits)
  moreover have "walk_chunks ?out 12 (False, cleared base) = Some (0, loaded img')"
    using walk_saved [OF assms(1,3,4)] by (simp add: c)
  ultimately have "load io fname base ?fs' = Some (0, loaded img')"
    using assms(2) magic_bytes by (simp add: load_def fopen_rb_def io_ok_def woz_sizes Let_def cleared_def)
  then show ?thesis using saved same by blast
qed

text \<open>A disk with one short track and one line of metadata.\<close>

definition small_info :: woz_info_t where
  "small_info = \<lparr>info_version = 2, disk_type = 1, write_protected = 0, synchronized = 0, cleaned = 1, creator = replicate 32 0x20,
     disk_sides = 1, boot_sector_format = 0, optimal_bit_timing = 32, compatible_hardware = 0, required_ram = 0, largest_track = 0,
     flux_block = 0, largest_flux_track = 0\<rparr>"

definition small_woz :: woz_image_t where
  "small_woz = \<lparr>file_version = 2, info = small_info, tmap = 0 # replicate 159 0xFF,
     tracks = [\<lparr>bits = [0xD5, 0xAA, 0x90], bit_count = 20\<rparr>], meta = [([0x61], [0x62, 0x09])], unsaved_chunks = []\<rparr>"

definition good_io :: host_io where
  "good_io = \<lparr>open_ok = True, read_ok = True, create_ok = True, fwrite_ok = True, flush_ok = True, rename_ok = True,
     remove_ok = True, partial_write = []\<rparr>"

lemma saveable_small: "saveable small_woz"
  by (simp add: saveable_def small_woz_def small_info_def tmap_ok_def stored_track_def start_block_def blocks_def meta_ok_def
      build_meta_chunk_def)

theorem woz_save_load_witness:
  "saveable small_woz \<and> io_ok good_io \<and> flux_block small_info = 0 \<and>
   (\<exists>img' fs'. save good_io ''a.woz'' small_woz Map.empty = (0, img', fs') \<and>
      load good_io ''a.woz'' small_woz fs' = Some (0, loaded img') \<and> tracks img' = [\<lparr>bits = [0xD5, 0xAA, 0x90], bit_count = 20\<rparr>])"
proof -
  have "io_ok good_io" "flux_block small_info = 0"
    "flux_block (info small_woz) = 0" "largest_flux_track (info small_woz) = 0"
    "tracks small_woz = [\<lparr>bits = [0xD5, 0xAA, 0x90], bit_count = 20\<rparr>]"
    by (simp_all add: io_ok_def good_io_def small_woz_def small_info_def)
  then show ?thesis
    using woz_save_load [OF saveable_small, of good_io small_woz "''a.woz''" Map.empty] saveable_small by auto
qed

section \<open>Track sizes that are not checked\<close>

text \<open>The bit count of a track descriptor is not compared with its blocks: when the count names more bytes than the file
  has from the first block on, the copy runs past the end of the file buffer.\<close>

lemma entry_past_end:
  assumes "buf = pre @ append_u16le b @ append_u16le n @ append_u32le k @ rest" "b \<noteq> 0 \<or> n \<noteq> 0"
    and "unat b * 512 + unat n * 512 \<le> length buf" "length buf < unat b * 512 + unat ((k + 7) div 8)"
  shows "parse_entries_v2 buf (length pre) (0 # is) trks = None"
proof -
  let ?e = "drop (length pre) buf"
  have e: "?e = append_u16le b @ append_u16le n @ append_u32le k @ rest" by (simp add: assms(1))
  have "u16le ?e 0 = b" "u16le ?e 2 = n" "u32le ?e 4 = k"
    using u16le_append [of ?e "[]" b] u16le_append [of ?e "append_u16le b" n] u32le_append [of ?e "append_u16le b @ append_u16le n" k] e
    by simp_all
  moreover have "length pre + 8 \<le> length buf" by (simp add: assms(1))
  ultimately show ?thesis using assms(2-4) by (auto simp: Let_def woz_sizes)
qed

lemma load_past_end:
  assumes "buf = WOZ2_MAGIC @ append_u32le 0 @ write_chunk WOZ_CHUNK_TMAP (0 # replicate 159 0xFF) @
      write_chunk WOZ_CHUNK_TRKS (append_u16le b @ append_u16le n @ append_u32le k @ rest)"
    and "length rest < 2 ^ 16" "b \<noteq> 0 \<or> n \<noteq> 0" "unat b * 512 + unat n * 512 \<le> length buf"
      "length buf < unat b * 512 + unat ((k + 7) div 8)"
    and "fs fname = Some buf" "open_ok io" "read_ok io"
  shows "load io fname img fs = None"
proof -
  let ?hd = "WOZ2_MAGIC @ append_u32le 0" and ?t = "0 # replicate 159 0xFF :: u8 list"
  let ?trks = "append_u16le b @ append_u16le n @ append_u32le k @ rest"
  define base where "base = img\<lparr>file_version := 2, tracks := [], meta := [], unsaved_chunks := [], tmap := replicate 160 0xFF\<rparr>"
  have buf: "buf = ?hd @ write_chunk WOZ_CHUNK_TMAP ?t @ write_chunk WOZ_CHUNK_TRKS ?trks"
    "buf = (?hd @ write_chunk WOZ_CHUNK_TMAP ?t) @ write_chunk WOZ_CHUNK_TRKS ?trks @ []"
    by (simp_all add: assms(1))
  have "180 \<le> length buf" by (simp add: assms(1) magic_bytes)
  then have "walk_chunks buf 12 (False, base) = walk_chunks buf 180 (True, base\<lparr>tmap := ?t\<rparr>)"
    using walk_chunk(1) [OF buf(1), of "(False, base)"] walk_chunk(2) [OF buf(1)] chunk_ids
    by (simp add: magic_bytes parse_chunk_def parse_tmap_def)
  moreover have "parse_trks_v2 buf 188 (base\<lparr>tmap := ?t\<rparr>) = None"
    using entry_past_end [OF _ assms(3-5), of "?hd @ write_chunk WOZ_CHUNK_TMAP ?t @ append_u32le WOZ_CHUNK_TRKS @
      append_u32le (of_nat (length ?trks))" rest] buf(1)
    by (simp add: parse_trks_v2_def magic_bytes write_chunk_def)
  then have "walk_chunks buf 180 (True, base\<lparr>tmap := ?t\<rparr>) = None"
    using walk_chunk(1) [OF buf(2), of "(True, base\<lparr>tmap := ?t\<rparr>)"] chunk_ids assms(2)
    by (simp add: magic_bytes parse_chunk_def base_def)
  moreover have "u32le buf (length WOZ2_MAGIC) = 0" by (rule u32le_append) (simp add: assms(1))
  moreover have "take 8 buf = WOZ2_MAGIC" "20 \<le> length buf" by (simp_all add: assms(1) magic_bytes)
  ultimately show ?thesis
    using assms(6-8) magic_bytes by (simp add: load_def fopen_rb_def woz_sizes Let_def base_def)
qed

end
