(* ===== verification/Woz_Scan.thy ===== *)
theory Woz_Scan
  imports Woz_Bits
begin

text \<open>
  Hunting for fields in a bit stream, as both track decoders do it (\<^verbatim>\<open>decode_track\<close> of
  \<^verbatim>\<open>src/util/woz_nibblizer_525.cpp\<close> and of \<^verbatim>\<open>woz_nibblizer_35.cpp\<close>, whose loops have the same head): the hunt for the data
  prologue, and the main loop that waits for an address prologue and hands the cursor to the decoder of the fields.
  The locale \<open>address_scan\<close> is the interface of that loop to the field decoder; \<open>bounded_scan\<close> adds that the field
  decoder comes back.
\<close>

section \<open>Runs of nibbles\<close>

fun read_nibbles :: "nat \<Rightarrow> woz_track_t \<Rightarrow> bit_cursor \<Rightarrow> (u8 list \<times> bit_cursor) option" where
  "read_nibbles 0 trk c = Some ([], c)"
| "read_nibbles (Suc n) trk c = do {
     (b, c) \<leftarrow> read_nibble trk c;
     (bs, c) \<leftarrow> read_nibbles n trk c;
     Some (b # bs, c)
   }"

text \<open>The hunt for the data prologue, up to a number of consumed bits.\<close>

partial_function (option) hunt_prologue ::
    "woz_track_t \<Rightarrow> u64 \<Rightarrow> u8 \<Rightarrow> u8 \<Rightarrow> bit_cursor \<Rightarrow> (bool \<times> bit_cursor) option" where
  "hunt_prologue trk hunt_limit d1 d0 c =
     (if consumed c < hunt_limit then do {
        (d, c') \<leftarrow> read_nibble trk c;
        if d1 = 0xD5 \<and> d0 = 0xAA \<and> d = 0xAD then Some (True, c')
        else hunt_prologue trk hunt_limit d0 d c'
      } else Some (False, c))"

section \<open>Reading cells\<close>

text \<open>The cursor stands before the cells \<open>cs\<close>, at most two zero bits away, and has consumed what it has passed.\<close>

definition before :: "woz_track_t \<Rightarrow> bit_cursor \<Rightarrow> cell list \<Rightarrow> bool" where
  "before trk c cs \<longleftrightarrow>
     track_ok trk \<and> (\<exists>j \<le> 2. ahead trk c = replicate j False @ cell_bits cs) \<and>
     (\<forall>(b, k) \<in> set cs. bit b 7 \<and> k \<le> 2) \<and> unat (consumed c) = unat (pos c)"

lemma consumed_advance:
  assumes "unat (consumed c) = unat (pos c)" "unat (pos c) + n \<le> unat (bit_count trk)"
  shows "unat (consumed (advance n c)) = unat (pos (advance n c))"
proof -
  have "unat (bit_count trk) < 2 ^ LENGTH(32)"
    by (rule unsigned_less)
  then have "unat (consumed c) + n < 2 ^ 64"
    using assms by simp
  then show ?thesis
    using pos_advance [OF assms(2)] assms(1) by (simp add: advance_def unat_word_ariths unat_of_nat)
qed

lemma before_read:
  assumes "before trk c ((b, k) # cs)"
  obtains c' where "read_nibble trk c = Some (b, c')" "before trk c' cs" "unat (consumed c') \<le> unat (consumed c) + 10"
proof -
  obtain j where j: "j \<le> 2" "ahead trk c = replicate j False @ byte_bits b @ replicate k False @ cell_bits cs"
    and ok: "track_ok trk" "bit b 7" "k \<le> 2" "unat (consumed c) = unat (pos c)" "\<forall>(b, k) \<in> set cs. bit b 7 \<and> k \<le> 2"
    using assms by (auto simp: before_def)
  note read = read_nibble_cell [OF ok(1,2) j(2)]
  have "unat (pos c) + (j + 8) \<le> unat (bit_count trk)"
    using arg_cong [OF j(2), of length] by (simp add: ahead_def)
  note pos = pos_advance [OF this] consumed_advance [OF ok(4) this]
  have "before trk (advance (j + 8) c) cs"
    using read(2) ok pos(2) by (auto simp: before_def)
  moreover have "unat (consumed (advance (j + 8) c)) \<le> unat (consumed c) + 10"
    using pos ok(4) j(1) by simp
  ultimately show thesis using that read(1) by blast
qed

lemma before_within:
  assumes "before trk c (x # cs)"
  shows "consumed c < ucast (bit_count trk) * 2"
proof -
  obtain j b k where eq: "ahead trk c = replicate j False @ byte_bits b @ replicate k False @ cell_bits cs"
    using assms by (cases x) (auto simp: before_def)
  have "unat (pos c) < unat (bit_count trk)"
    using arg_cong [OF eq, of length] by (simp add: ahead_def)
  moreover have less: "unat (bit_count trk) < 2 ^ LENGTH(32)"
    by (rule unsigned_less)
  moreover have "unat (ucast (bit_count trk) :: u64) = unat (bit_count trk)"
    using less by (simp add: unsigned_ucast_eq take_bit_nat_eq_self)
  ultimately show ?thesis
    using assms by (simp add: before_def word_less_nat_alt unat_word_ariths)
qed

lemma before_read_nibbles:
  assumes "before trk c (data_cells bs @ cs)"
  obtains c' where "read_nibbles (length bs) trk c = Some (bs, c')" "before trk c' cs"
    "unat (consumed c') \<le> unat (consumed c) + 10 * length bs"
  using assms
proof (induction bs arbitrary: c thesis)
  case Nil
  then show ?case by simp
next
  case (Cons b bs)
  from before_read [of trk c b 0 "data_cells bs @ cs"] Cons.prems(2)
  obtain c1 where c1: "read_nibble trk c = Some (b, c1)" "before trk c1 (data_cells bs @ cs)"
    "unat (consumed c1) \<le> unat (consumed c) + 10" by auto
  from Cons.IH [OF _ c1(2)] obtain c2 where "read_nibbles (length bs) trk c1 = Some (bs, c2)" "before trk c2 cs"
    "unat (consumed c2) \<le> unat (consumed c1) + 10 * length bs" by blast
  with c1 show ?case by (intro Cons.prems(1) [of c2]) simp_all
qed

text \<open>The hunt skips what cannot end a prologue.\<close>

lemma hunt_skips:
  assumes "before trk c (ds @ (0xD5, 0) # (0xAA, 0) # (0xAD, 0) # cs)" "\<forall>(b, k) \<in> set ds. b \<noteq> 0xAD"
    and "unat (consumed c) + 10 * length ds + 30 < unat limit"
  shows "\<exists>c'. hunt_prologue trk limit d1 d0 c = Some (True, c') \<and> before trk c' cs"
  using assms
proof (induction ds arbitrary: c d1 d0)
  case Nil
  from before_read [of trk c "0xD5" 0] Nil(1) obtain c1 where c1: "read_nibble trk c = Some (0xD5, c1)"
    "before trk c1 ((0xAA, 0) # (0xAD, 0) # cs)" "unat (consumed c1) \<le> unat (consumed c) + 10" by auto
  from before_read [OF c1(2)] obtain c2 where c2: "read_nibble trk c1 = Some (0xAA, c2)"
    "before trk c2 ((0xAD, 0) # cs)" "unat (consumed c2) \<le> unat (consumed c1) + 10" by auto
  from before_read [OF c2(2)] obtain c3 where c3: "read_nibble trk c2 = Some (0xAD, c3)" "before trk c3 cs" by auto
  have less: "consumed c < limit" "consumed c1 < limit" "consumed c2 < limit"
    using Nil(3) c1(3) c2(3) by (simp_all add: word_less_nat_alt)
  have "hunt_prologue trk limit d1 d0 c = hunt_prologue trk limit d0 0xD5 c1"
    by (subst hunt_prologue.simps) (simp add: less c1(1))
  also have "\<dots> = hunt_prologue trk limit 0xD5 0xAA c2"
    by (subst hunt_prologue.simps) (simp add: less c2(1))
  also have "\<dots> = Some (True, c3)"
    by (subst hunt_prologue.simps) (simp add: less c3(1))
  finally show ?case using c3(2) by blast
next
  case (Cons x ds)
  obtain b k where x: "x = (b, k)" "b \<noteq> 0xAD" using Cons.prems(2) by (cases x) auto
  from before_read [of trk c b k] Cons.prems(1) x(1) obtain c1 where c1: "read_nibble trk c = Some (b, c1)"
    "before trk c1 (ds @ (0xD5, 0) # (0xAA, 0) # (0xAD, 0) # cs)" "unat (consumed c1) \<le> unat (consumed c) + 10" by auto
  have "consumed c < limit"
    using Cons.prems(3) by (simp add: word_less_nat_alt)
  then have "hunt_prologue trk limit d1 d0 c = hunt_prologue trk limit d0 b c1"
    by (subst hunt_prologue.simps) (simp add: c1(1) x(2))
  moreover have "\<exists>c'. hunt_prologue trk limit d0 b c1 = Some (True, c') \<and> before trk c' cs"
    using Cons.prems(2,3) c1(3) by (intro Cons.IH [OF c1(2)]) auto
  ultimately show ?case by simp
qed

text \<open>Both decoders skip the three nibbles behind the address and hunt through the gap for the data field.\<close>

lemma skip_to_data:
  assumes "before trk c (data_cells [x, y, z] @ sync_cells 5 @ (0xD5, 0) # (0xAA, 0) # (0xAD, 0) # cs)"
  shows "\<exists>c1 c2. read_nibbles 3 trk c = Some ([x, y, z], c1) \<and> hunt_prologue trk (consumed c1 + 64 * 8) 0 0 c1 = Some (True, c2) \<and>
    before trk c2 cs"
proof -
  let ?rest = "sync_cells 5 @ (0xD5, 0) # (0xAA, 0) # (0xAD, 0) # cs"
  obtain c1 where c1: "read_nibbles (length [x, y, z]) trk c = Some ([x, y, z], c1)" "before trk c1 ?rest"
    by (rule before_read_nibbles [OF assms])
  have "length [x, y, z] = 3" by simp
  have "unat (pos c1) < 2 ^ LENGTH(32)" "unat (consumed c1) = unat (pos c1)"
    using c1(2) by (simp_all add: before_def del: len_of_numeral_defs)
  then have "unat (consumed c1) + 10 * length (sync_cells 5) + 30 < unat (consumed c1 + 64 * 8)"
    by (simp add: unat_word_ariths)
  with c1 \<open>length [x, y, z] = 3\<close> show ?thesis
    using hunt_skips [OF c1(2), of "consumed c1 + 64 * 8" 0 0] by (simp only:) auto
qed

section \<open>A track without a one bit\<close>

lemma read_bit_total:
  assumes "track_ok trk" "bit_count trk \<noteq> 0"
  shows "read_bit trk c = Some (stream trk ! (unat (pos c) mod unat (bit_count trk)), advance 1 c)"
proof -
  have n: "0 < unat (bit_count trk)" using assms(2) by (simp add: unat_gt_0)
  then have i: "unat (pos c) mod unat (bit_count trk) < unat (bit_count trk)" by simp
  then have "unat (pos c) mod unat (bit_count trk) div 8 < length (bits trk)"
    using assms(1) by (auto simp: track_ok_def)
  with i assms(2) show ?thesis
    by (auto simp: read_bit_def Let_def bit_index unat_mod advance_def stream_def stored_bit_def)
qed

lemma blank_track_latches_nothing:
  assumes "track_ok trk" "bit_count trk \<noteq> 0" "True \<notin> set (stream trk)"
  shows "read_nibble trk c = None"
proof (rule ccontr)
  assume "read_nibble trk c \<noteq> None"
  then obtain r where r: "latch_nibble trk 0 c = Some r" by (auto simp: read_nibble_def)
  have zero: "\<not> stream trk' ! (unat (pos c') mod unat (bit_count trk'))"
    if "track_ok trk'" "bit_count trk' \<noteq> 0" "True \<notin> set (stream trk')" for trk' c'
  proof -
    have "stream trk' ! (unat (pos c') mod unat (bit_count trk')) \<in> set (stream trk')"
      using that(2) by (intro nth_mem) (simp add: unat_gt_0)
    with that(3) show ?thesis by (metis (full_types))
  qed
  have "track_ok trk \<longrightarrow> bit_count trk \<noteq> 0 \<longrightarrow> True \<notin> set (stream trk) \<longrightarrow> (0 :: u8) = 0 \<longrightarrow> False"
  proof (rule latch_nibble.raw_induct [where P = "\<lambda>trk sh c r. track_ok trk \<longrightarrow> bit_count trk \<noteq> 0 \<longrightarrow>
        True \<notin> set (stream trk) \<longrightarrow> sh = 0 \<longrightarrow> False", OF _ r], intro impI)
    fix f :: "woz_track_t \<Rightarrow> u8 \<Rightarrow> bit_cursor \<Rightarrow> (u8 \<times> bit_cursor) option" and trk' sh c' r'
    assume IH: "\<And>trk sh c r. f trk sh c = Some r \<Longrightarrow> track_ok trk \<longrightarrow> bit_count trk \<noteq> 0 \<longrightarrow>
        True \<notin> set (stream trk) \<longrightarrow> sh = 0 \<longrightarrow> False"
      and eq: "read_bit trk' c' \<bind> (\<lambda>(b, c'). let shifter' = shift_in sh b in
        if shifter' AND 0x80 \<noteq> 0 then Some (shifter', c') else f trk' shifter' c') = Some r'"
      and ok: "track_ok trk'" "bit_count trk' \<noteq> 0" "True \<notin> set (stream trk')" "sh = 0"
    have "read_bit trk' c' = Some (False, advance 1 c')"
      using zero [OF ok(1-3), of c'] by (simp only: read_bit_total [OF ok(1,2)])
    then have "f trk' 0 (advance 1 c') = Some r'"
      using eq ok(4) by (simp add: shift_in_zero Let_def)
    then show False using IH ok by blast
  qed
  then show False using assms by blast
qed

section \<open>A track with a one bit\<close>

text \<open>\<open>ends B x c\<close>: the result \<open>x\<close> exists and leaves the cursor between one and \<open>B\<close> bits past \<open>c\<close>.\<close>

definition ends :: "nat \<Rightarrow> ('a \<times> bit_cursor) option \<Rightarrow> bit_cursor \<Rightarrow> bool" where
  "ends B x c \<longleftrightarrow> (\<exists>r m. x = Some (r, advance m c) \<and> 0 < m \<and> m \<le> B)"

lemma ends_step: "ends m x (advance 1 c) \<Longrightarrow> Suc m \<le> n \<Longrightarrow> ends n x c"
  by (fastforce simp: ends_def)

lemma shifted_bit: "bit (shift_in v b) n \<longleftrightarrow> (if n = 0 then b else n < 8 \<and> bit v (n - 1))"
  unfolding shift_in_def bit_or_iff bit_push_bit_iff by (cases n) (auto simp: bit_simps)

lemma latch_after_one:
  assumes "track_ok trk" "bit_count trk \<noteq> 0" "bit sh j" "j + m = 7" "0 < m"
  shows "ends m (latch_nibble trk sh c) c"
  using assms(3-5)
proof (induction m arbitrary: sh j c)
  case (Suc m)
  obtain b where b: "read_bit trk c = Some (b, advance 1 c)"
    using read_bit_total [OF assms(1,2)] by blast
  have bit: "bit (shift_in sh b) (Suc j)"
    using Suc.prems by (simp add: shifted_bit)
  show ?case
  proof (cases "shift_in sh b AND 0x80 = 0")
    case True
    then have "\<not> bit (shift_in sh b) 7" using latched_iff [of 0 "shift_in sh b"] by simp
    with bit Suc.prems have "0 < m" by (cases m) auto
    then have "ends m (latch_nibble trk (shift_in sh b) (advance 1 c)) (advance 1 c)"
      using Suc.IH [OF bit] Suc.prems by simp
    from ends_step [OF this le_refl] show ?thesis
      using True by (subst latch_nibble.simps) (simp add: b Let_def)
  next
    case False
    then show ?thesis
      by (subst latch_nibble.simps) (auto simp: ends_def b Let_def)
  qed
qed simp

lemma latch_one:
  assumes "track_ok trk" "bit_count trk \<noteq> 0" "stream trk ! (unat (pos c) mod unat (bit_count trk))" "8 \<le> n"
  shows "ends n (latch_nibble trk 0 c) c"
proof -
  have "bit (shift_in 0 True) 0" by (simp add: shifted_bit)
  then have "ends 7 (latch_nibble trk (shift_in 0 True) (advance 1 c)) (advance 1 c)"
    by (rule latch_after_one [OF assms(1,2)]) simp_all
  from ends_step [OF this] have "ends n (latch_nibble trk (shift_in 0 True) (advance 1 c)) c"
    using assms(4) by simp
  moreover have "shift_in 0 True AND 0x80 = 0" by (simp add: shift_in_def)
  ultimately show ?thesis
    using assms(3) by (subst latch_nibble.simps) (simp add: read_bit_total [OF assms(1,2)] Let_def)
qed

lemma latch_returns:
  assumes "track_ok trk" "bit_count trk \<noteq> 0"
    and "stream trk ! (unat (pos (advance k c)) mod unat (bit_count trk))"
  shows "ends (k + 8) (latch_nibble trk 0 c) c"
  using assms(3)
proof (induction k arbitrary: c)
  case 0
  then show ?case by (intro latch_one [OF assms(1,2)]) simp_all
next
  case (Suc k)
  show ?case
  proof (cases "stream trk ! (unat (pos c) mod unat (bit_count trk))")
    case True
    then show ?thesis by (rule latch_one [OF assms(1,2)]) simp
  next
    case False
    have "ends (k + 8) (latch_nibble trk 0 (advance 1 c)) (advance 1 c)"
      using Suc.prems by (intro Suc.IH) simp
    from ends_step [OF this] show ?thesis
      using False by (subst latch_nibble.simps) (simp add: read_bit_total [OF assms(1,2)] shift_in_zero Let_def)
  qed
qed

lemma one_bit_within_reach:
  assumes "bit_count trk \<noteq> 0" "i < unat (bit_count trk)"
  shows "\<exists>k \<le> 2 ^ 33. unat (pos (advance k c)) mod unat (bit_count trk) = i"
proof -
  let ?n = "unat (bit_count trk)" and ?p = "unat (pos c)"
  have n: "?n < 2 ^ LENGTH(32)" and p: "?p < 2 ^ LENGTH(32)"
    by (rule unsigned_less)+
  define d where "d = (i + ?n - ?p mod ?n) mod ?n"
  have d: "d < ?n" using assms(2) by (simp add: d_def)
  have dp: "(?p + d) mod ?n = i"
  proof -
    have "(?p + d) mod ?n = (?p mod ?n + (i + ?n - ?p mod ?n)) mod ?n"
      unfolding d_def by (metis mod_add_left_eq mod_add_right_eq)
    also have "?p mod ?n + (i + ?n - ?p mod ?n) = i + ?n"
      using assms(2) by (simp add: mod_le_divisor le_add_diff_inverse trans_le_add2)
    finally show ?thesis using assms(2) by simp
  qed
  show ?thesis
  proof (cases "?p + d < 2 ^ 32")
    case True
    then have "unat (pos (advance d c)) = ?p + d"
      by (simp add: advance_def unat_word_ariths unat_of_nat)
    with dp d n show ?thesis by (intro exI [of _ d]) simp
  next
    case False
    define k where "k = 2 ^ 32 - ?p + i"
    have "unat (pos (advance k c)) = (?p + k) mod 2 ^ 32"
      by (simp add: advance_def unat_word_ariths unat_of_nat mod_add_right_eq)
    also have "?p + k = 2 ^ 32 + i" using p by (simp add: k_def)
    also have "(2 ^ 32 + i) mod 2 ^ 32 = i" using assms(2) n by simp
    finally show ?thesis
      using assms(2) n by (intro exI [of _ k]) (simp add: k_def)
  qed
qed

text \<open>The most bits one nibble can take.\<close>

definition nibble_bound :: nat where "nibble_bound = 2 ^ 33 + 8"

definition readable :: "woz_track_t \<Rightarrow> bool" where
  "readable trk \<longleftrightarrow> track_ok trk \<and> True \<in> set (stream trk)"

lemma readable_nonempty: "readable trk \<Longrightarrow> bit_count trk \<noteq> 0"
  by (auto simp: readable_def stream_def)

lemma read_nibble_ends:
  assumes "readable trk"
  shows "ends nibble_bound (read_nibble trk c) c"
proof -
  obtain i where i: "i < unat (bit_count trk)" "stream trk ! i"
    using assms by (auto simp: readable_def in_set_conv_nth)
  obtain k where k: "k \<le> 2 ^ 33" "unat (pos (advance k c)) mod unat (bit_count trk) = i"
    using one_bit_within_reach [OF readable_nonempty [OF assms] i(1)] by blast
  have "ends (k + 8) (latch_nibble trk 0 c) c"
    using i(2) k(2) assms by (intro latch_returns readable_nonempty) (simp_all add: readable_def)
  with k(1) show ?thesis
    by (force simp: ends_def read_nibble_def nibble_bound_def)
qed

lemma read_nibbles_ends:
  assumes "readable trk" "0 < n"
  shows "ends (n * nibble_bound) (read_nibbles n trk c) c"
  using assms(2)
proof (induction n arbitrary: c)
  case (Suc n)
  obtain b m where b: "read_nibble trk c = Some (b, advance m c)" "0 < m" "m \<le> nibble_bound"
    using read_nibble_ends [OF assms(1), of c] by (auto simp: ends_def)
  show ?case
  proof (cases "n = 0")
    case True
    then show ?thesis using b by (auto simp: ends_def)
  next
    case False
    then obtain bs k where "read_nibbles n trk (advance m c) = Some (bs, advance k (advance m c))" "0 < k" "k \<le> n * nibble_bound"
      using Suc.IH [of "advance m c"] by (auto simp: ends_def)
    then show ?thesis
      using b by (auto simp: ends_def intro!: exI [of _ "m + k"])
  qed
qed simp

lemma unat_consumed_advance:
  assumes "unat (consumed c) + m < 2 ^ 64"
  shows "unat (consumed (advance m c)) = unat (consumed c) + m"
  using assms by (simp add: advance_def unat_word_ariths unat_of_nat)

lemma hunt_ends:
  assumes "readable trk" "unat limit < 2 ^ 60"
  shows "\<exists>got m. hunt_prologue trk limit d1 d0 c = Some (got, advance m c) \<and> m \<le> (unat limit - unat (consumed c)) * nibble_bound"
proof (induction "unat limit - unat (consumed c)" arbitrary: c d1 d0 rule: less_induct)
  case less
  show ?case
  proof (cases "consumed c < limit")
    case False
    then have "hunt_prologue trk limit d1 d0 c = Some (False, advance 0 c)"
      by (subst hunt_prologue.simps) simp
    then show ?thesis by (intro exI [of _ False] exI [of _ 0]) simp
  next
    case True
    then have lt: "unat (consumed c) < unat limit" by (simp add: word_less_nat_alt)
    obtain d m where d: "read_nibble trk c = Some (d, advance m c)" "0 < m" "m \<le> nibble_bound"
      using read_nibble_ends [OF assms(1), of c] by (auto simp: ends_def)
    have cons: "unat (consumed (advance m c)) = unat (consumed c) + m"
      using lt assms(2) d(3) by (intro unat_consumed_advance) (simp add: nibble_bound_def)
    show ?thesis
    proof (cases "d1 = 0xD5 \<and> d0 = 0xAA \<and> d = 0xAD")
      case True
      then have "hunt_prologue trk limit d1 d0 c = Some (True, advance m c)"
        using \<open>consumed c < limit\<close> d(1) by (subst hunt_prologue.simps) simp
      moreover have "m \<le> (unat limit - unat (consumed c)) * nibble_bound"
      proof -
        have "1 * nibble_bound \<le> (unat limit - unat (consumed c)) * nibble_bound"
          using lt by (intro mult_le_mono1) simp
        with d(3) show ?thesis by linarith
      qed
      ultimately show ?thesis by blast
    next
      case False
      then have eq: "hunt_prologue trk limit d1 d0 c = hunt_prologue trk limit d0 d (advance m c)"
        using True d(1) by (subst hunt_prologue.simps) auto
      have "unat limit - unat (consumed (advance m c)) < unat limit - unat (consumed c)"
        using lt d(2) cons by simp
      then obtain got k where k: "hunt_prologue trk limit d0 d (advance m c) = Some (got, advance k (advance m c))"
        "k \<le> (unat limit - unat (consumed (advance m c))) * nibble_bound"
        using less [of "advance m c" d0 d] by blast
      have "m + k \<le> Suc (unat limit - unat (consumed (advance m c))) * nibble_bound"
        using d(3) k(2) by simp
      also have "\<dots> \<le> (unat limit - unat (consumed c)) * nibble_bound"
        using lt d(2) cons by (intro mult_le_mono1) simp
      finally show ?thesis
        using k(1) eq by auto
    qed
  qed
qed

section \<open>The loop over address fields\<close>

text \<open>The state of the decoder's main loop: the cursor, the sectors found so far and the last three nibbles.  A nibblizer
  extends it by the image it fills.\<close>

record scan_state =
  cur :: bit_cursor
  found :: "bool list"
  found_count :: nat
  n0 :: u8
  n1 :: u8
  n2 :: u8

text \<open>\<^verbatim>\<open>n2 = n1; n1 = n0; n0 = read_nibble(c)\<close>, and \<^verbatim>\<open>n0 = n1 = n2 = 0\<close> before the next round.\<close>

definition slide :: "bit_cursor \<Rightarrow> u8 \<Rightarrow> 'a scan_state_scheme \<Rightarrow> 'a scan_state_scheme" where
  "slide c n st = st\<lparr>cur := c, n2 := n1 st, n1 := n0 st, n0 := n\<rparr>"

definition restart :: "bit_cursor \<Rightarrow> 'a scan_state_scheme \<Rightarrow> 'a scan_state_scheme" where
  "restart c st = st\<lparr>cur := c, n0 := 0, n1 := 0, n2 := 0\<rparr>"

lemma slide_simps [simp]:
  "cur (slide c n st) = c" "n0 (slide c n st) = n" "n1 (slide c n st) = n0 st" "n2 (slide c n st) = n1 st"
  "found (slide c n st) = found st" "found_count (slide c n st) = found_count st"
  "restart c' (slide c n st) = restart c' st"
  by (simp_all add: slide_def restart_def)

lemma restart_simps [simp]:
  "cur (restart c st) = c" "found (restart c st) = found st" "found_count (restart c st) = found_count st"
  "restart c (restart c' st) = restart c st"
  by (simp_all add: restart_def)

text \<open>The main loop of both decoders: rounds until all sectors are found or two revolutions have been read.\<close>

partial_function (option) scan_loop ::
    "('a scan_state_scheme \<Rightarrow> 'a scan_state_scheme option) \<Rightarrow> nat \<Rightarrow> woz_track_t \<Rightarrow> 'a scan_state_scheme \<Rightarrow>
     'a scan_state_scheme option" where
  "scan_loop round sectors trk st =
     (if found_count st < sectors \<and> consumed (cur st) < ucast (bit_count trk) * 2
      then do { st' \<leftarrow> round st; scan_loop round sectors trk st' }
      else Some st)"

lemma scan_loop_keeps:
  assumes "scan_loop round sectors trk st = Some st'" "P st" "\<And>st st'. P st \<Longrightarrow> round st = Some st' \<Longrightarrow> P st'"
  shows "P st'"
proof -
  have "(\<forall>st st'. P st \<longrightarrow> round st = Some st' \<longrightarrow> P st') \<longrightarrow> P st \<longrightarrow> P st'"
  proof (rule scan_loop.raw_induct [where P = "\<lambda>round sectors trk st st'. (\<forall>st st'. P st \<longrightarrow> round st = Some st' \<longrightarrow> P st') \<longrightarrow>
        P st \<longrightarrow> P st'", OF _ assms(1)], intro impI)
    fix f :: "('a scan_state_scheme \<Rightarrow> 'a scan_state_scheme option) \<Rightarrow> nat \<Rightarrow> woz_track_t \<Rightarrow> 'a scan_state_scheme \<Rightarrow>
      'a scan_state_scheme option" and round sectors trk st st'
    assume IH: "\<And>round sectors trk st st'. f round sectors trk st = Some st' \<Longrightarrow>
        (\<forall>st st'. P st \<longrightarrow> round st = Some st' \<longrightarrow> P st') \<longrightarrow> P st \<longrightarrow> P st'"
      and eq: "(if found_count st < sectors \<and> consumed (cur st) < ucast (bit_count trk) * 2
         then round st \<bind> f round sectors trk else Some st) = Some st'"
      and keeps: "\<forall>st st'. P st \<longrightarrow> round st = Some st' \<longrightarrow> P st'" and "P st"
    show "P st'"
    proof (cases "found_count st < sectors \<and> consumed (cur st) < ucast (bit_count trk) * 2")
      case True
      with eq obtain st1 where "round st = Some st1" "f round sectors trk st1 = Some st'"
        by (auto split: Option.bind_splits)
      then show ?thesis using IH keeps \<open>P st\<close> by blast
    next
      case False
      then show ?thesis using eq \<open>P st\<close> by (simp only: if_False option.inject)
    qed
  qed
  with assms(2,3) show ?thesis by blast
qed

text \<open>
  The main loop of both decoders, over what they do with an address field: \<open>field\<close> gets the state with the prologue in
  its three nibbles and must not depend on them.
\<close>

locale address_scan =
  fixes loop :: "woz_track_t \<Rightarrow> 'a scan_state_scheme \<Rightarrow> 'a scan_state_scheme option"
    and sectors :: nat
    and field :: "woz_track_t \<Rightarrow> 'a scan_state_scheme \<Rightarrow> bit_cursor \<Rightarrow> 'a scan_state_scheme option"
  assumes loop_unfold: "loop trk st =
      (if found_count st < sectors \<and> consumed (cur st) < ucast (bit_count trk) * 2
       then do {
         (n, c) \<leftarrow> read_nibble trk (cur st);
         let st' = slide c n st;
         st'' \<leftarrow> (if \<not> (n2 st' = 0xD5 \<and> n1 st' = 0xAA \<and> n0 st' = 0x96) then Some st' else field trk st' c);
         loop trk st''
       } else Some st)"
    and field_slide: "field trk (slide c n st) c' = field trk st c'"
begin

lemma skip:
  assumes "before trk (cur st) ((b, k) # cs)" "found_count st < sectors" "b \<noteq> 0x96 \<or> n0 st \<noteq> 0xAA \<or> n1 st \<noteq> 0xD5"
  shows "\<exists>c. loop trk st = loop trk (slide c b st) \<and> before trk c cs"
proof -
  obtain c where c: "read_nibble trk (cur st) = Some (b, c)" "before trk c cs"
    using before_read [OF assms(1)] by blast
  have "loop trk st = loop trk (slide c b st)"
    using assms(2,3) before_within [OF assms(1)] by (subst loop_unfold) (auto simp: c(1) Let_def slide_simps)
  with c(2) show ?thesis by blast
qed

text \<open>Nothing before the prologue can be taken for its last nibble.\<close>

lemma reaches_field:
  assumes "before trk (cur st) (js @ (0xD5, 0) # (0xAA, 0) # (0x96, 0) # cs)" "found_count st < sectors" "\<forall>(b, k) \<in> set js. b \<noteq> 0x96"
  shows "\<exists>c. loop trk st = field trk st c \<bind> loop trk \<and> before trk c cs"
  using assms
proof (induction js arbitrary: st)
  case Nil
  obtain c1 where 1: "loop trk st = loop trk (slide c1 0xD5 st)" "before trk c1 ((0xAA, 0) # (0x96, 0) # cs)"
    using skip [of trk st "0xD5"] Nil by auto
  let ?s1 = "slide c1 0xD5 st"
  obtain c2 where 2: "loop trk ?s1 = loop trk (slide c2 0xAA ?s1)" "before trk c2 ((0x96, 0) # cs)"
    using skip [of trk ?s1 "0xAA" 0] 1(2) Nil(2) by (auto simp: slide_simps)
  let ?s2 = "slide c2 0xAA ?s1"
  obtain c3 where 3: "read_nibble trk c2 = Some (0x96, c3)" "before trk c3 cs"
    using before_read [OF 2(2)] by blast
  have "loop trk ?s2 = field trk (slide c3 0x96 ?s2) c3 \<bind> loop trk"
    using Nil(2) before_within [OF 2(2)] by (subst loop_unfold) (simp add: slide_simps 3(1) Let_def)
  then show ?case
    using 1(1) 2(1) 3(2) by (auto simp: field_slide)
next
  case (Cons x js)
  obtain b k where x: "x = (b, k)" "b \<noteq> 0x96" using Cons.prems(3) by (cases x) auto
  obtain c1 where 1: "loop trk st = loop trk (slide c1 b st)" "before trk c1 (js @ (0xD5, 0) # (0xAA, 0) # (0x96, 0) # cs)"
    using skip [of trk st b k] Cons.prems(1,2) x by auto
  have "\<exists>c. loop trk (slide c1 b st) = field trk (slide c1 b st) c \<bind> loop trk \<and> before trk c cs"
    using 1(2) Cons.prems(2,3) by (intro Cons.IH) (auto simp: slide_simps)
  then show ?case using 1(1) by (auto simp: field_slide)
qed

lemma stops: "\<not> found_count st < sectors \<Longrightarrow> loop trk st = Some st"
  by (subst loop_unfold) simp

text \<open>On a track of zero bits the loop does not end.\<close>

lemma hangs:
  assumes "track_ok trk" "bit_count trk \<noteq> 0" "True \<notin> set (stream trk)" "found_count st < sectors" "consumed (cur st) = 0"
  shows "loop trk st = None"
proof -
  have "unat (bit_count trk) < 2 ^ LENGTH(32)" by (rule unsigned_less)
  then have "unat (ucast (bit_count trk) * 2 :: u64) = 2 * unat (bit_count trk)"
    by (simp add: unat_word_ariths unsigned_ucast_eq take_bit_nat_eq_self)
  then have "(0 :: u64) < ucast (bit_count trk) * 2"
    using assms(2) by (simp add: word_less_nat_alt unat_gt_0)
  then show ?thesis
    using assms(4,5) blank_track_latches_nothing [OF assms(1-3)] by (subst loop_unfold) simp
qed

end

locale bounded_scan = address_scan +
  assumes field_ends: "readable trk \<Longrightarrow> unat (consumed c) < 2 ^ 35 \<Longrightarrow>
      \<exists>st' m. field trk st c = Some st' \<and> cur st' = advance m c \<and> m < 2 ^ 50"
begin

lemma loop_ends:
  assumes "readable trk"
  shows "\<exists>st'. loop trk st = Some st'"
proof (induction "2 * unat (bit_count trk) - unat (consumed (cur st))" arbitrary: st rule: less_induct)
  case less
  have n: "unat (bit_count trk) < 2 ^ LENGTH(32)" by (rule unsigned_less)
  have "unat (ucast (bit_count trk) * 2 :: u64) = 2 * unat (bit_count trk)"
    using n by (simp add: unat_word_ariths unsigned_ucast_eq take_bit_nat_eq_self)
  then have bound: "consumed (cur st) < ucast (bit_count trk) * 2 \<longleftrightarrow> unat (consumed (cur st)) < 2 * unat (bit_count trk)"
    by (simp add: word_less_nat_alt)
  show ?case
  proof (cases "found_count st < sectors \<and> consumed (cur st) < ucast (bit_count trk) * 2")
    case False
    then show ?thesis by (subst loop_unfold) auto
  next
    case True
    with bound n have small: "unat (consumed (cur st)) < 2 * unat (bit_count trk)" "unat (consumed (cur st)) < 2 ^ 33"
      by simp_all
    obtain b k where b: "read_nibble trk (cur st) = Some (b, advance k (cur st))" "0 < k" "k \<le> nibble_bound"
      using read_nibble_ends [OF assms, of "cur st"] by (auto simp: ends_def)
    let ?c = "advance k (cur st)" and ?s = "slide (advance k (cur st)) b st"
    have c: "unat (consumed ?c) = unat (consumed (cur st)) + k" "unat (consumed ?c) < 2 ^ 35"
      using small(2) b(3) unat_consumed_advance [of "cur st" k] by (simp_all add: nibble_bound_def)
    have "\<exists>st1 m. (if \<not> (n2 ?s = 0xD5 \<and> n1 ?s = 0xAA \<and> n0 ?s = 0x96) then Some ?s else field trk ?s ?c) = Some st1 \<and>
        cur st1 = advance m ?c \<and> m < 2 ^ 50"
    proof (cases "n2 ?s = 0xD5 \<and> n1 ?s = 0xAA \<and> n0 ?s = 0x96")
      case True
      then show ?thesis using field_ends [OF assms c(2), of ?s] by simp
    next
      case False
      then show ?thesis by (intro exI [of _ ?s] exI [of _ 0]) (auto simp: slide_simps)
    qed
    then obtain st1 m where st1: "(if \<not> (n2 ?s = 0xD5 \<and> n1 ?s = 0xAA \<and> n0 ?s = 0x96) then Some ?s
        else field trk ?s ?c) = Some st1" "cur st1 = advance m ?c" "m < 2 ^ 50" by blast
    have "unat (consumed (cur st1)) = unat (consumed (cur st)) + k + m"
      using c st1(2,3) unat_consumed_advance [of ?c m] by simp
    then have "2 * unat (bit_count trk) - unat (consumed (cur st1)) < 2 * unat (bit_count trk) - unat (consumed (cur st))"
      using small(1) b(2) by simp
    from less [OF this] show ?thesis
      using True st1(1) by (subst loop_unfold) (simp add: b(1) Let_def)
  qed
qed

lemma returns_iff:
  assumes "track_ok trk" "bit_count trk \<noteq> 0" "found_count st < sectors" "consumed (cur st) = 0"
  shows "(\<exists>st'. loop trk st = Some st') \<longleftrightarrow> True \<in> set (stream trk)"
proof (cases "True \<in> set (stream trk)")
  case True
  then show ?thesis using loop_ends [of trk st] assms(1) by (simp add: readable_def)
next
  case False
  then show ?thesis using hangs [OF assms(1,2) _ assms(3,4)] by simp
qed

end

end
