(* ===== verification/Woz_Gcr.thy ===== *)
theory Woz_Gcr
  imports Woz_Scan "HOL-Library.While_Combinator"
begin

text \<open>
  Group coding of a 5.25 inch sector (\<^verbatim>\<open>src/util/woz_nibblizer_525.hpp\<close>, \<^verbatim>\<open>woz_nibblizer_525.cpp\<close>): 256
  bytes become 342 six-bit values, each written as one of 64 disk nibbles; \<open>decode_sector_62\<close> is the
  inverse.  The scratch buffer of \<^verbatim>\<open>prenibble\<close> is not initialised by its caller, so its old contents are an
  argument of the model.
\<close>

section \<open>Tables\<close>

definition woz_translate_62 :: "u8 list" where
  "woz_translate_62 = [
     0x96, 0x97, 0x9A, 0x9B, 0x9D, 0x9E, 0x9F, 0xA6, 0xA7, 0xAB, 0xAC, 0xAD, 0xAE, 0xAF, 0xB2, 0xB3,
     0xB4, 0xB5, 0xB6, 0xB7, 0xB9, 0xBA, 0xBB, 0xBC, 0xBD, 0xBE, 0xBF, 0xCB, 0xCD, 0xCE, 0xCF, 0xD3,
     0xD6, 0xD7, 0xD9, 0xDA, 0xDB, 0xDC, 0xDD, 0xDE, 0xDF, 0xE5, 0xE6, 0xE7, 0xE9, 0xEA, 0xEB, 0xEC,
     0xED, 0xEE, 0xEF, 0xF2, 0xF3, 0xF4, 0xF5, 0xF6, 0xF7, 0xF9, 0xFA, 0xFB, 0xFC, 0xFD, 0xFE, 0xFF]"

definition woz_denibble_table :: "u8 list" where
  "woz_denibble_table = [
     0x00, 0x00, 0x00, 0x00, 0x00, 0x00, 0x00, 0x00, 0x00, 0x00, 0x00, 0x00, 0x00, 0x00, 0x00, 0x00,
     0x00, 0x00, 0x00, 0x00, 0x00, 0x00, 0x00, 0x00, 0x00, 0x00, 0x00, 0x00, 0x00, 0x00, 0x00, 0x00,
     0x00, 0x00, 0x00, 0x00, 0x00, 0x00, 0x00, 0x00, 0x00, 0x00, 0x00, 0x00, 0x00, 0x00, 0x00, 0x00,
     0x00, 0x00, 0x00, 0x00, 0x00, 0x00, 0x00, 0x00, 0x00, 0x00, 0x00, 0x00, 0x00, 0x00, 0x00, 0x00,
     0x00, 0x00, 0x00, 0x00, 0x00, 0x00, 0x00, 0x00, 0x00, 0x00, 0x00, 0x00, 0x00, 0x00, 0x00, 0x00,
     0x00, 0x00, 0x00, 0x00, 0x00, 0x00, 0x00, 0x00, 0x00, 0x00, 0x00, 0x00, 0x00, 0x00, 0x00, 0x00,
     0x00, 0x00, 0x00, 0x00, 0x00, 0x00, 0x00, 0x00, 0x00, 0x00, 0x00, 0x00, 0x00, 0x00, 0x00, 0x00,
     0x00, 0x00, 0x00, 0x00, 0x00, 0x00, 0x00, 0x00, 0x00, 0x00, 0x00, 0x00, 0x00, 0x00, 0x00, 0x00,
     0x00, 0x00, 0x00, 0x00, 0x00, 0x00, 0x00, 0x00, 0x00, 0x00, 0x00, 0x00, 0x00, 0x00, 0x00, 0x00,
     0x00, 0x00, 0x00, 0x00, 0x00, 0x00, 0x00, 0x01, 0x00, 0x00, 0x02, 0x03, 0x00, 0x04, 0x05, 0x06,
     0x00, 0x00, 0x00, 0x00, 0x00, 0x00, 0x07, 0x08, 0x00, 0x00, 0x00, 0x09, 0x0A, 0x0B, 0x0C, 0x0D,
     0x00, 0x00, 0x0E, 0x0F, 0x10, 0x11, 0x12, 0x13, 0x00, 0x14, 0x15, 0x16, 0x17, 0x18, 0x19, 0x1A,
     0x00, 0x00, 0x00, 0x00, 0x00, 0x00, 0x00, 0x00, 0x00, 0x00, 0x00, 0x1B, 0x00, 0x1C, 0x1D, 0x1E,
     0x00, 0x00, 0x00, 0x1F, 0x00, 0x00, 0x20, 0x21, 0x00, 0x22, 0x23, 0x24, 0x25, 0x26, 0x27, 0x28,
     0x00, 0x00, 0x00, 0x00, 0x00, 0x29, 0x2A, 0x2B, 0x00, 0x2C, 0x2D, 0x2E, 0x2F, 0x30, 0x31, 0x32,
     0x00, 0x00, 0x33, 0x34, 0x35, 0x36, 0x37, 0x38, 0x00, 0x39, 0x3A, 0x3B, 0x3C, 0x3D, 0x3E, 0x3F]"

section \<open>Encoding\<close>

text \<open>One round of the loop at label \<^verbatim>\<open>prenib1\<close>: \<open>y\<close> goes down modulo 256, the two low bits of the byte are
  shifted into the second buffer, which starts at offset \<open>0x100\<close> of the first.\<close>

definition prenib1 :: "u8 list \<Rightarrow> nat \<Rightarrow> u8 \<times> u8 list \<Rightarrow> u8 \<times> u8 list" where
  "prenib1 buf x s =
     (let y = fst s - 1; nbuf = snd s; a = buf ! unat y;
          nbuf = nbuf[0x100 + x := shift_in (nbuf ! (0x100 + x)) (bit a 0)];
          nbuf = nbuf[0x100 + x := shift_in (nbuf ! (0x100 + x)) (bit a 1)]
      in (y, nbuf[unat y := drop_bit 2 a]))"

text \<open>\<open>x\<close> runs from 0 to \<open>0x55\<close>, again and again until \<open>y\<close> is 0 at the end of a run.\<close>

definition prenib_pass :: "u8 list \<Rightarrow> u8 \<times> u8 list \<Rightarrow> u8 \<times> u8 list" where
  "prenib_pass buf = fold (prenib1 buf) [0..<0x56]"

definition prenibble :: "u8 list \<Rightarrow> u8 list \<Rightarrow> u8 list" where
  "prenibble buf nbuf =
     (let (y, nbuf) = while (\<lambda>(y, _). y \<noteq> 0) (prenib_pass buf) (prenib_pass buf (2, nbuf))
      in fold (\<lambda>x nbuf. nbuf[0x100 + x := nbuf ! (0x100 + x) AND 0x3F]) (rev [0..<0x56]) nbuf)"

section \<open>Decoding\<close>

text \<open>One round of the loop at label \<^verbatim>\<open>post2\<close>.\<close>

definition post2 :: "nat \<Rightarrow> int \<times> u8 list \<times> u8 list \<Rightarrow> int \<times> u8 list \<times> u8 list" where
  "post2 y s =
     (let x = (if fst s - 1 < 0 then 0x55 else fst s - 1);
          nbuf = fst (snd s); decoded = snd (snd s);
          k = 0x100 + nat x; a = nbuf ! y;
          c = bit (nbuf ! k) 0; nbuf = nbuf[k := drop_bit 1 (nbuf ! k)]; a = shift_in a c;
          c = bit (nbuf ! k) 0; nbuf = nbuf[k := drop_bit 1 (nbuf ! k)]; a = shift_in a c
      in (x, nbuf, decoded[y := a]))"

definition decode_sector_62 :: "u8 list \<Rightarrow> u8 list" where
  "decode_sector_62 nbuf = snd (snd (fold post2 [0..<256] (0x56, nbuf, replicate 256 0)))"

section \<open>The six-bit values\<close>

text \<open>The two low bits of a byte shifted into a value, lowest first.\<close>

definition pair_in :: "u8 \<Rightarrow> u8 \<Rightarrow> u8" where
  "pair_in v a = shift_in (shift_in v (bit a 0)) (bit a 1)"

lemma length_prenib1 [simp]: "length (snd (prenib1 buf x s)) = length (snd s)"
  by (simp add: prenib1_def Let_def)

lemma length_prenib_fold [simp]: "length (snd (fold (prenib1 buf) xs s)) = length (snd s)"
  by (induction xs arbitrary: s) simp_all

lemma unat_u8_less: "unat (w :: u8) < 256"
  using unsigned_less [of w] by simp

lemma prenib1_nth:
  assumes "length (snd s) = 342" "x < 0x56"
  shows "fst (prenib1 buf x s) = fst s - 1"
    and "k < 0x56 \<Longrightarrow> snd (prenib1 buf x s) ! (0x100 + k) =
      (if k = x then pair_in (snd s ! (0x100 + k)) (buf ! unat (fst s - 1)) else snd s ! (0x100 + k))"
    and "j < 256 \<Longrightarrow> snd (prenib1 buf x s) ! j =
      (if j = unat (fst s - 1) then drop_bit 2 (buf ! j) else snd s ! j)"
  using assms unat_u8_less [of "fst s - 1"] by (auto simp: prenib1_def pair_in_def Let_def nth_list_update)

text \<open>The byte that round \<open>x\<close> of a run from \<open>y\<close> works on.\<close>

definition run_byte :: "u8 \<Rightarrow> nat \<Rightarrow> nat" where
  "run_byte y x = unat (y - 1 - of_nat x)"

lemma prenib_fold_y:
  assumes "length (snd s) = 342" "n \<le> 0x56"
  shows "fst (fold (prenib1 buf) [0..<n] s) = fst s - of_nat n"
  using assms(2) by (induction n) (simp_all add: prenib1_nth(1) assms(1))

lemma prenib_fold_nth:
  assumes "length (snd s) = 342" "n \<le> 0x56"
  shows "k < 0x56 \<Longrightarrow> snd (fold (prenib1 buf) [0..<n] s) ! (0x100 + k) =
      (if k < n then pair_in (snd s ! (0x100 + k)) (buf ! run_byte (fst s) k) else snd s ! (0x100 + k))"
    and "j < 256 \<Longrightarrow> snd (fold (prenib1 buf) [0..<n] s) ! j =
      (if j \<in> run_byte (fst s) ` {..<n} then drop_bit 2 (buf ! j) else snd s ! j)"
proof -
  have y: "fst s - of_nat n - 1 = fst s - 1 - of_nat n" for n by simp
  show "snd (fold (prenib1 buf) [0..<n] s) ! (0x100 + k) =
      (if k < n then pair_in (snd s ! (0x100 + k)) (buf ! run_byte (fst s) k) else snd s ! (0x100 + k))"
    if "k < 0x56"
    using assms(2)
    by (induction n) (auto simp: prenib1_nth(2) that assms(1) prenib_fold_y y run_byte_def less_Suc_eq)
  show "snd (fold (prenib1 buf) [0..<n] s) ! j =
      (if j \<in> run_byte (fst s) ` {..<n} then drop_bit 2 (buf ! j) else snd s ! j)" if "j < 256"
    using assms(2)
    by (induction n) (auto simp: prenib1_nth(3) that assms(1) prenib_fold_y y run_byte_def lessThan_Suc)
qed

lemma prenib_pass:
  assumes "length (snd s) = 342"
  shows "fst (prenib_pass buf s) = fst s - 0x56" "length (snd (prenib_pass buf s)) = 342"
    and "k < 0x56 \<Longrightarrow> snd (prenib_pass buf s) ! (0x100 + k) = pair_in (snd s ! (0x100 + k)) (buf ! run_byte (fst s) k)"
    and "j < 256 \<Longrightarrow> snd (prenib_pass buf s) ! j =
      (if j \<in> run_byte (fst s) ` {..<0x56} then drop_bit 2 (buf ! j) else snd s ! j)"
  using assms by (simp_all add: prenib_pass_def prenib_fold_y prenib_fold_nth)

lemma mask_fold:
  assumes "length nbuf = 342" "n \<le> 0x56"
  defines "r \<equiv> fold (\<lambda>x nbuf. nbuf[0x100 + x := nbuf ! (0x100 + x) AND 0x3F]) (rev [0..<n]) nbuf"
  shows "length r = 342" and "j < 256 \<Longrightarrow> r ! j = nbuf ! j"
    and "k < 0x56 \<Longrightarrow> r ! (0x100 + k) = (if k < n then nbuf ! (0x100 + k) AND 0x3F else nbuf ! (0x100 + k))"
proof -
  have "length r = 342 \<and> (j < 256 \<longrightarrow> r ! j = nbuf ! j) \<and> (k < 0x56 \<longrightarrow>
      r ! (0x100 + k) = (if k < n then nbuf ! (0x100 + k) AND 0x3F else nbuf ! (0x100 + k)))"
    using assms(1,2) unfolding r_def
    by (induction n arbitrary: nbuf) (auto simp: nth_list_update less_Suc_eq)
  then show "length r = 342" "j < 256 \<Longrightarrow> r ! j = nbuf ! j"
    "k < 0x56 \<Longrightarrow> r ! (0x100 + k) = (if k < n then nbuf ! (0x100 + k) AND 0x3F else nbuf ! (0x100 + k))"
    by simp_all
qed

text \<open>Three runs, and the value of every entry afterwards.\<close>

lemma prenibble_runs:
  assumes "length nbuf = 342"
  shows "prenibble buf nbuf = fold (\<lambda>x nbuf. nbuf[0x100 + x := nbuf ! (0x100 + x) AND 0x3F]) (rev [0..<0x56])
    (snd (prenib_pass buf (prenib_pass buf (prenib_pass buf (2, nbuf)))))"
proof -
  let ?p1 = "prenib_pass buf (2, nbuf)"
  let ?p2 = "prenib_pass buf ?p1"
  have y: "fst ?p1 = 0xAC" "fst ?p2 = 0x56" "fst (prenib_pass buf ?p2) = 0"
    using assms by (simp_all add: prenib_pass)
  have "while (\<lambda>(y, _). y \<noteq> 0) (prenib_pass buf) ?p1 = prenib_pass buf ?p2"
    using y by (subst while_unfold, subst while_unfold, subst while_unfold) (simp add: case_prod_beta)
  then show ?thesis by (simp add: prenibble_def case_prod_beta)
qed

lemma run_byte_eq:
  assumes "x < 0x56"
  shows "run_byte y x = (if x < unat y then unat y - 1 - x else unat y + 255 - x)"
  using assms unat_u8_less [of y] by (auto simp: run_byte_def unat_sub_if' unat_of_nat word_le_nat_alt)

lemma runs_cover:
  assumes "j < 256"
  shows "j \<in> run_byte 2 ` {..<0x56} \<or> j \<in> run_byte 0xAC ` {..<0x56} \<or> j \<in> run_byte 0x56 ` {..<0x56}"
proof -
  consider "j < 86" | "86 \<le> j" "j < 172" | "172 \<le> j" by linarith
  then show ?thesis
  proof cases
    case 1
    then have "j = run_byte 0x56 (85 - j)" by (simp add: run_byte_eq)
    with 1 show ?thesis by auto
  next
    case 2
    then have "j = run_byte 0xAC (171 - j)" by (simp add: run_byte_eq)
    with 2 show ?thesis by auto
  next
    case 3
    then have "j = run_byte 2 (257 - j)" using assms by (auto simp: run_byte_eq)
    with 3 show ?thesis by auto
  qed
qed

lemma prenibble_nth:
  assumes "length nbuf = 342"
  shows "length (prenibble buf nbuf) = 342"
    and "j < 256 \<Longrightarrow> prenibble buf nbuf ! j = drop_bit 2 (buf ! j)"
    and "k < 0x56 \<Longrightarrow> prenibble buf nbuf ! (0x100 + k) =
      pair_in (pair_in (pair_in (nbuf ! (0x100 + k)) (buf ! run_byte 2 k)) (buf ! run_byte 0xAC k)) (buf ! run_byte 0x56 k)
      AND 0x3F"
proof -
  note p = prenib_pass [where buf = buf]
  have 1: "length (snd (2 :: u8, nbuf)) = 342" using assms by simp
  note 2 = p(2) [OF 1] and 3 = p(2) [OF p(2) [OF 1]]
  have y: "fst (prenib_pass buf (2, nbuf)) = 0xAC" "fst (prenib_pass buf (prenib_pass buf (2, nbuf))) = 0x56"
    using assms by (simp_all add: p(1,2))
  note mask = mask_fold [OF p(2) [OF 3], where n = "0x56", OF order_refl]
  show "length (prenibble buf nbuf) = 342"
    using assms mask(1) by (simp only: prenibble_runs)
  show "prenibble buf nbuf ! j = drop_bit 2 (buf ! j)" if "j < 256"
    using runs_cover [OF that] unfolding prenibble_runs [OF assms]
    by (auto simp: mask(2) that p(4) [OF 1] p(4) [OF 2] p(4) [OF 3] y)
  show "prenibble buf nbuf ! (0x100 + k) =
      pair_in (pair_in (pair_in (nbuf ! (0x100 + k)) (buf ! run_byte 2 k)) (buf ! run_byte 0xAC k)) (buf ! run_byte 0x56 k)
      AND 0x3F" if "k < 0x56"
    unfolding prenibble_runs [OF assms]
    using that by (simp add: mask(3) p(3) [OF 1] p(3) [OF 2] p(3) [OF 3] y)
qed

lemma bit_pair_in:
  "bit (pair_in v a) n \<longleftrightarrow> (if n = 0 then bit a 1 else if n = 1 then bit a 0 else n < 8 \<and> bit v (n - 2))"
  by (auto simp: pair_in_def shifted_bit diff_diff_left numeral_2_eq_2)

lemma bit_mask_6: "bit (0x3F :: u8) n \<longleftrightarrow> n < 6"
proof -
  have mask: "(0x3F :: u8) = mask 6" by (simp add: mask_eq_exp_minus_1)
  show ?thesis unfolding mask by (auto simp: bit_mask_iff simp del: mask_numeral)
qed

text \<open>The pair of bits that decoding takes for byte \<open>y\<close>.\<close>

lemma prenibble_pair:
  fixes buf nbuf :: "u8 list"
  assumes "length nbuf = 342" "y < 256"
  defines "q \<equiv> drop_bit (2 * (y div 86)) (prenibble buf nbuf ! (0x100 + (85 - y mod 86)))"
  shows "bit q 0 = bit (buf ! y) 1" "bit q 1 = bit (buf ! y) 0"
proof -
  define k where "k = 85 - y mod 86"
  have k: "k < 0x56" by (simp add: k_def)
  have q: "q = drop_bit (2 * (y div 86)) (pair_in (pair_in (pair_in (nbuf ! (0x100 + k)) (buf ! run_byte 2 k))
      (buf ! run_byte 0xAC k)) (buf ! run_byte 0x56 k) AND 0x3F)"
    using prenibble_nth(3) [OF assms(1) k] by (simp add: q_def k_def)
  consider "y div 86 = 0" | "y div 86 = 1" | "y div 86 = 2"
    using assms(2) by linarith
  then have "bit q 0 = bit (buf ! y) 1 \<and> bit q 1 = bit (buf ! y) 0"
  proof cases
    case 1
    then have "run_byte 0x56 k = y"
      using k by (simp add: run_byte_eq k_def div_eq_0_iff)
    with 1 k show ?thesis
      by (simp add: q bit_and_iff bit_mask_6 bit_pair_in)
  next
    case 2
    then have "y = 86 + y mod 86" using div_mult_mod_eq [of y 86] by simp
    then have "run_byte 0xAC k = y"
      using k by (simp add: run_byte_eq k_def)
    with 2 k show ?thesis
      by (simp add: q bit_drop_bit_eq bit_and_iff bit_mask_6 bit_pair_in)
  next
    case 3
    then have y: "y = 172 + y mod 86" using div_mult_mod_eq [of y 86] by simp
    then have "y mod 86 < 84" using assms(2) by linarith
    with y have "run_byte 2 k = y"
      using k by (simp add: run_byte_eq k_def)
    with 3 k show ?thesis
      by (simp add: q bit_drop_bit_eq bit_and_iff bit_mask_6 bit_pair_in)
  qed
  then show "bit q 0 = bit (buf ! y) 1" "bit q 1 = bit (buf ! y) 0" by simp_all
qed

lemma post2_x: "fst (post2 y s) = (if fst s - 1 < 0 then 0x55 else fst s - 1)"
  by (simp add: post2_def Let_def)

lemma drop_bit_1_1: "drop_bit (Suc (Suc 0)) (w :: u8) = drop_bit 2 w" "bit (drop_bit (Suc 0) w) 0 = bit w (Suc 0)"
  by (simp_all only: numeral_2_eq_2 bit_drop_bit_eq comp_def add_0_right)

lemma post2_nth:
  assumes "length (fst (snd s)) = 342" "y < 256" "length (snd (snd s)) = 256"
    and x: "fst (post2 y s) = int x" "x < 0x56"
  shows "length (fst (snd (post2 y s))) = 342" "length (snd (snd (post2 y s))) = 256"
    and "j < 256 \<Longrightarrow> fst (snd (post2 y s)) ! j = fst (snd s) ! j"
    and "k < 0x56 \<Longrightarrow> fst (snd (post2 y s)) ! (0x100 + k) =
      (if k = x then drop_bit 2 (fst (snd s) ! (0x100 + k)) else fst (snd s) ! (0x100 + k))"
    and "snd (snd (post2 y s)) = (snd (snd s))[y := shift_in (shift_in (fst (snd s) ! y)
      (bit (fst (snd s) ! (0x100 + x)) 0)) (bit (fst (snd s) ! (0x100 + x)) 1)]"
  using assms(1-3) x unfolding post2_x
  by (auto simp: post2_def Let_def nth_list_update drop_bit_1_1)

definition decoded_byte :: "u8 list \<Rightarrow> nat \<Rightarrow> u8" where
  "decoded_byte nbuf y =
     (let q = drop_bit (2 * (y div 86)) (nbuf ! (0x100 + (85 - y mod 86)))
      in shift_in (shift_in (nbuf ! y) (bit q 0)) (bit q 1))"

lemma visits_Suc:
  fixes k n :: nat
  assumes "k < 86"
  shows "(Suc n + k) div 86 = (if k = 85 - n mod 86 then Suc ((n + k) div 86) else (n + k) div 86)"
proof -
  have "Suc (n + k) mod 86 = Suc (n mod 86 + k) mod 86"
    by (metis add_Suc mod_Suc_eq mod_add_left_eq)
  moreover have "n mod 86 < 86" by simp
  moreover have "Suc (n mod 86 + k) mod 86 =
      (if Suc (n mod 86 + k) < 86 then Suc (n mod 86 + k) else Suc (n mod 86 + k) - 86)"
    using assms \<open>n mod 86 < 86\<close> by (simp add: le_mod_geq)
  ultimately have "k = 85 - n mod 86 \<longleftrightarrow> Suc (n + k) mod 86 = 0"
    by (cases "Suc (n mod 86 + k) < 86") (simp_all, linarith+)
  then show ?thesis by (simp add: div_Suc)
qed

lemma visits_at: "(n + (85 - n mod 86)) div 86 = n div (86 :: nat)"
proof -
  have "n + (85 - n mod 86) = 85 + 86 * (n div 86)"
    using mult_div_mod_eq [of 86 n] mod_less_divisor [of 86 n] by linarith
  then show ?thesis by simp
qed

text \<open>The state after \<open>n\<close> rounds.\<close>

definition post_state :: "u8 list \<Rightarrow> nat \<Rightarrow> int \<times> u8 list \<times> u8 list" where
  "post_state nbuf n = fold post2 [0..<n] (0x56, nbuf, replicate 256 0)"

lemma post_state_simps:
  "post_state nbuf 0 = (0x56, nbuf, replicate 256 0)" "post_state nbuf (Suc n) = post2 n (post_state nbuf n)"
  by (simp_all add: post_state_def)

lemma post_state_x: "fst (post2 y (post_state nbuf n)) = int (85 - n mod 86)"
proof (induction n arbitrary: y)
  case (Suc n)
  have "Suc n mod 86 = (if n mod 86 = 85 then 0 else Suc (n mod 86))" "n mod 86 < 86"
    by (auto simp: mod_Suc)
  then show ?case
    unfolding post2_x [of y] by (auto simp: post_state_simps Suc.IH)
qed (simp add: post2_x post_state_simps)

lemma post_state_nth:
  assumes "length nbuf = 342" "n \<le> 256"
  shows "length (fst (snd (post_state nbuf n))) = 342 \<and> length (snd (snd (post_state nbuf n))) = 256 \<and>
    (\<forall>j < 256. fst (snd (post_state nbuf n)) ! j = nbuf ! j) \<and>
    (\<forall>k < 0x56. fst (snd (post_state nbuf n)) ! (0x100 + k) = drop_bit (2 * ((n + k) div 86)) (nbuf ! (0x100 + k))) \<and>
    (\<forall>i < n. snd (snd (post_state nbuf n)) ! i = decoded_byte nbuf i)"
  using assms(2)
proof (induction n)
  case 0
  then show ?case using assms(1) by (simp add: post_state_simps)
next
  case (Suc n)
  let ?s = "post_state nbuf n" and ?x = "85 - n mod 86"
  have IH: "length (fst (snd ?s)) = 342" "length (snd (snd ?s)) = 256" "\<And>j. j < 256 \<Longrightarrow> fst (snd ?s) ! j = nbuf ! j"
    "\<And>k. k < 0x56 \<Longrightarrow> fst (snd ?s) ! (0x100 + k) = drop_bit (2 * ((n + k) div 86)) (nbuf ! (0x100 + k))"
    "\<And>i. i < n \<Longrightarrow> snd (snd ?s) ! i = decoded_byte nbuf i"
    using Suc by auto
  have n: "n < 256" and x: "?x < 0x56" using Suc.prems by simp_all
  note step = post2_nth [OF IH(1) n IH(2) post_state_x x]
  have "fst (snd ?s) ! (0x100 + ?x) = drop_bit (2 * (n div 86)) (nbuf ! (0x100 + ?x))"
    using IH(4) [OF x] visits_at by simp
  then have "snd (snd (post2 n ?s)) = (snd (snd ?s))[n := decoded_byte nbuf n]"
    unfolding step(5) decoded_byte_def Let_def using IH(3) [OF n] by simp
  moreover have "fst (snd (post2 n ?s)) ! (0x100 + k) = drop_bit (2 * ((Suc n + k) div 86)) (nbuf ! (0x100 + k))"
    if "k < 0x56" for k
  proof -
    have "drop_bit 2 (drop_bit (2 * v) w) = drop_bit (2 * Suc v) w" for v and w :: u8
      by (simp add: add.commute)
    then show ?thesis
      unfolding step(4) [OF that] IH(4) [OF that] visits_Suc [OF that [simplified]] by presburger
  qed
  ultimately show ?case
    using step(1-3) IH(2-5) n by (auto simp: post_state_simps less_Suc_eq)
qed

lemma decode_sector_62_nth:
  assumes "length nbuf = 342"
  shows "decode_sector_62 nbuf = map (decoded_byte nbuf) [0..<256]"
  using post_state_nth [OF assms order_refl] unfolding decode_sector_62_def post_state_def
  by (auto intro!: nth_equalityI)

lemma sector_62_roundtrip:
  assumes "length buf = 256" "length nbuf = 342"
  shows "decode_sector_62 (prenibble buf nbuf) = buf"
proof -
  have "decoded_byte (prenibble buf nbuf) y = buf ! y" if "y < 256" for y
  proof -
    have "shift_in (shift_in (drop_bit 2 (buf ! y)) (bit (buf ! y) 1)) (bit (buf ! y) 0) = buf ! y"
      using shift_in_drop_bit [of 1 "buf ! y"] shift_in_drop_bit [of 0 "buf ! y"] by (simp add: numeral_2_eq_2)
    then show ?thesis
      using prenibble_pair [OF assms(2) that, where buf = buf] prenibble_nth(2) [OF assms(2) that]
      by (simp add: decoded_byte_def Let_def)
  qed
  then have "map (decoded_byte (prenibble buf nbuf)) [0..<256] = buf"
    using assms(1) by (intro nth_equalityI) simp_all
  then show ?thesis
    by (simp add: decode_sector_62_nth prenibble_nth(1) [OF assms(2)])
qed

section \<open>Disk nibbles\<close>

definition six_bit :: "u8 \<Rightarrow> bool" where
  "six_bit w \<longleftrightarrow> take_bit 6 w = w"

lemma six_bit_xor: "six_bit v \<Longrightarrow> six_bit w \<Longrightarrow> six_bit (v XOR w)"
  by (simp add: six_bit_def take_bit_xor)

lemma six_bit_less: "six_bit w \<Longrightarrow> unat w < 64"
proof -
  assume "six_bit w"
  then have "unat w = take_bit 6 (unat w)"
    by (metis six_bit_def unsigned_take_bit_eq)
  then show "unat w < 64"
    using take_bit_nat_less_exp [of 6 "unat w"] by simp
qed

lemma six_bit_0: "six_bit 0"
  by (simp add: six_bit_def)

lemma six_bit_prenibble:
  assumes "length nbuf = 342" "i < 342"
  shows "six_bit (prenibble buf nbuf ! i)"
proof -
  have "w AND 0x3F = take_bit 6 w" for w :: u8
    by (simp add: take_bit_eq_mask mask_eq_exp_minus_1)
  then have "six_bit (w AND 0x3F)" for w
    by (simp add: six_bit_def)
  moreover have "six_bit (drop_bit 2 w)" for w
    unfolding six_bit_def
    by (rule bit_word_eqI) (auto simp: bit_take_bit_iff bit_drop_bit_eq dest: bit_imp_le_length)
  moreover have "i < 256 \<or> (\<exists>k < 0x56. i = 0x100 + k)"
    using assms(2) by presburger
  ultimately show ?thesis
    using prenibble_nth(2,3) [OF assms(1)] by metis
qed

lemma tables_inverse:
  "map (\<lambda>b. woz_denibble_table ! unat b) woz_translate_62 = map of_nat [0..<64]"
  by (simp add: woz_translate_62_def woz_denibble_table_def upt_rec)

lemma translate_msb: "list_all (\<lambda>b. bit b 7) woz_translate_62"
  by (simp add: woz_translate_62_def)

lemma translate_62:
  assumes "six_bit w"
  shows "woz_denibble_table ! unat (woz_translate_62 ! unat w) = w" "bit (woz_translate_62 ! unat w) 7"
proof -
  have len: "length woz_translate_62 = 64" by (simp add: woz_translate_62_def)
  note w = six_bit_less [OF assms]
  have "map (\<lambda>b. woz_denibble_table ! unat b) woz_translate_62 ! unat w = map of_nat [0..<64] ! unat w"
    by (simp only: tables_inverse)
  then show "woz_denibble_table ! unat (woz_translate_62 ! unat w) = w"
    using w len by simp
  show "bit (woz_translate_62 ! unat w) 7"
    using translate_msb w len by (simp add: list_all_length)
qed

section \<open>4 and 4 encoding\<close>

definition decode_44 :: "u8 \<Rightarrow> u8 \<Rightarrow> u8" where
  "decode_44 e0 e1 = push_bit 1 (e0 AND 0x55) OR (e1 AND 0x55)"

definition encode_44 :: "u8 \<Rightarrow> u8 list" where
  "encode_44 value = [drop_bit 1 (value AND 0xAA) OR 0xAA, (value AND 0x55) OR 0xAA]"

lemma emits_encoded_44 [emits_intro]: "emits (emit_encoded_44 v) (cell_bits (data_cells (encode_44 v)))"
  using emits_then [OF emits_data_byte emits_data_byte]
  by (simp add: emit_encoded_44_def [abs_def] encode_44_def Let_def)

lemma byte_bit_cases: "n < 8 \<Longrightarrow> n \<in> {0, 1, 2, 3, 4, 5, 6, 7 :: nat}"
  by auto

lemma decode_encode_44:
  "decode_44 (encode_44 v ! 0) (encode_44 v ! 1) = v" "\<forall>b \<in> set (encode_44 v). bit b 7"
proof -
  show "decode_44 (encode_44 v ! 0) (encode_44 v ! 1) = v"
  proof (rule bit_word_eqI)
    fix n assume "n < LENGTH(8)"
    then have "n \<in> {0, 1, 2, 3, 4, 5, 6, 7}" by (intro byte_bit_cases) simp
    then show "bit (decode_44 (encode_44 v ! 0) (encode_44 v ! 1)) n = bit v n"
      unfolding decode_44_def bit_or_iff bit_push_bit_iff encode_44_def
      by (auto simp: bit_simps)
  qed
  show "\<forall>b \<in> set (encode_44 v). bit b 7"
    by (simp add: encode_44_def bit_or_iff)
qed

end
