(* ===== verification/Woz_35.thy ===== *)
theory Woz_35
  imports Woz_Gcr
begin

text \<open>
  The sector encoding of 3.5 inch disks (\<^verbatim>\<open>EncodeSector62_524\<close> and \<^verbatim>\<open>DecodeSector62_524\<close> of
  \<^verbatim>\<open>src/util/woz_nibblizer_35.cpp\<close>): 524 bytes in 175 chunks of three, chained through three running checksums, and
  703 disk nibbles.
\<close>

definition sDiskBytes62 :: "u8 list" where
  "sDiskBytes62 = [
    0x96, 0x97, 0x9A, 0x9B, 0x9D, 0x9E, 0x9F, 0xA6,
    0xA7, 0xAB, 0xAC, 0xAD, 0xAE, 0xAF, 0xB2, 0xB3,
    0xB4, 0xB5, 0xB6, 0xB7, 0xB9, 0xBA, 0xBB, 0xBC,
    0xBD, 0xBE, 0xBF, 0xCB, 0xCD, 0xCE, 0xCF, 0xD3,
    0xD6, 0xD7, 0xD9, 0xDA, 0xDB, 0xDC, 0xDD, 0xDE,
    0xDF, 0xE5, 0xE6, 0xE7, 0xE9, 0xEA, 0xEB, 0xEC,
    0xED, 0xEE, 0xEF, 0xF2, 0xF3, 0xF4, 0xF5, 0xF6,
    0xF7, 0xF9, 0xFA, 0xFB, 0xFC, 0xFD, 0xFE, 0xFF]"

definition sInvDiskBytes62 :: "u8 list" where
  "sInvDiskBytes62 = [
    0xFF, 0xFF, 0xFF, 0xFF, 0xFF, 0xFF, 0xFF, 0xFF, 0xFF, 0xFF, 0xFF, 0xFF, 0xFF, 0xFF, 0xFF, 0xFF,
    0xFF, 0xFF, 0xFF, 0xFF, 0xFF, 0xFF, 0xFF, 0xFF, 0xFF, 0xFF, 0xFF, 0xFF, 0xFF, 0xFF, 0xFF, 0xFF,
    0xFF, 0xFF, 0xFF, 0xFF, 0xFF, 0xFF, 0xFF, 0xFF, 0xFF, 0xFF, 0xFF, 0xFF, 0xFF, 0xFF, 0xFF, 0xFF,
    0xFF, 0xFF, 0xFF, 0xFF, 0xFF, 0xFF, 0xFF, 0xFF, 0xFF, 0xFF, 0xFF, 0xFF, 0xFF, 0xFF, 0xFF, 0xFF,
    0xFF, 0xFF, 0xFF, 0xFF, 0xFF, 0xFF, 0xFF, 0xFF, 0xFF, 0xFF, 0xFF, 0xFF, 0xFF, 0xFF, 0xFF, 0xFF,
    0xFF, 0xFF, 0xFF, 0xFF, 0xFF, 0xFF, 0xFF, 0xFF, 0xFF, 0xFF, 0xFF, 0xFF, 0xFF, 0xFF, 0xFF, 0xFF,
    0xFF, 0xFF, 0xFF, 0xFF, 0xFF, 0xFF, 0xFF, 0xFF, 0xFF, 0xFF, 0xFF, 0xFF, 0xFF, 0xFF, 0xFF, 0xFF,
    0xFF, 0xFF, 0xFF, 0xFF, 0xFF, 0xFF, 0xFF, 0xFF, 0xFF, 0xFF, 0xFF, 0xFF, 0xFF, 0xFF, 0xFF, 0xFF,
    0xFF, 0xFF, 0xFF, 0xFF, 0xFF, 0xFF, 0xFF, 0xFF, 0xFF, 0xFF, 0xFF, 0xFF, 0xFF, 0xFF, 0xFF, 0xFF,
    0xFF, 0xFF, 0xFF, 0xFF, 0xFF, 0xFF, 0x00, 0x01, 0xFF, 0xFF, 0x02, 0x03, 0xFF, 0x04, 0x05, 0x06,
    0xFF, 0xFF, 0xFF, 0xFF, 0xFF, 0xFF, 0x07, 0x08, 0xFF, 0xFF, 0xFF, 0x09, 0x0A, 0x0B, 0x0C, 0x0D,
    0xFF, 0xFF, 0x0E, 0x0F, 0x10, 0x11, 0x12, 0x13, 0xFF, 0x14, 0x15, 0x16, 0x17, 0x18, 0x19, 0x1A,
    0xFF, 0xFF, 0xFF, 0xFF, 0xFF, 0xFF, 0xFF, 0xFF, 0xFF, 0xFF, 0xFF, 0x1B, 0xFF, 0x1C, 0x1D, 0x1E,
    0xFF, 0xFF, 0xFF, 0x1F, 0xFF, 0xFF, 0x20, 0x21, 0xFF, 0x22, 0x23, 0x24, 0x25, 0x26, 0x27, 0x28,
    0xFF, 0xFF, 0xFF, 0xFF, 0xFF, 0x29, 0x2A, 0x2B, 0xFF, 0x2C, 0x2D, 0x2E, 0x2F, 0x30, 0x31, 0x32,
    0xFF, 0xFF, 0x33, 0x34, 0x35, 0x36, 0x37, 0x38, 0xFF, 0x39, 0x3A, 0x3B, 0x3C, 0x3D, 0x3E, 0x3F]"

definition CHUNK_SIZE_62_524 :: nat where "CHUNK_SIZE_62_524 = 175"

definition INVALID_INV :: u8 where "INVALID_INV = 0xFF"

section \<open>The running checksums\<close>

record chk_t =
  chk0 :: u32
  chk1 :: u32
  chk2 :: u32

definition chk_start :: chk_t where
  "chk_start = \<lparr>chk0 = 0, chk1 = 0, chk2 = 0\<rparr>"

definition chk_rotate :: "chk_t \<Rightarrow> chk_t" where
  "chk_rotate c =
     (let v = push_bit 1 (chk0 c AND 0xFF) in c\<lparr>chk0 := if v AND 0x100 \<noteq> 0 then v + 1 else v\<rparr>)"

definition chk_add0 :: "u8 \<Rightarrow> chk_t \<Rightarrow> chk_t" where
  "chk_add0 val c =
     (let c = c\<lparr>chk2 := chk2 c + ucast val\<rparr>
      in if chk0 c AND 0x100 \<noteq> 0 then c\<lparr>chk2 := chk2 c + 1, chk0 := chk0 c AND 0xFF\<rparr> else c)"

definition chk_add1 :: "u8 \<Rightarrow> chk_t \<Rightarrow> chk_t" where
  "chk_add1 val c =
     (let c = c\<lparr>chk1 := chk1 c + ucast val\<rparr>
      in if chk2 c > 0xFF then c\<lparr>chk1 := chk1 c + 1, chk2 := chk2 c AND 0xFF\<rparr> else c)"

definition chk_add2 :: "u8 \<Rightarrow> chk_t \<Rightarrow> chk_t" where
  "chk_add2 val c =
     (let c = c\<lparr>chk0 := chk0 c + ucast val\<rparr>
      in if chk1 c > 0xFF then c\<lparr>chk0 := chk0 c + 1, chk1 := chk1 c AND 0xFF\<rparr> else c)"

section \<open>Encoding\<close>

text \<open>The entries of \<^verbatim>\<open>part0\<close>, \<^verbatim>\<open>part1\<close> and \<^verbatim>\<open>part2\<close> at one index.  The loop ends where the 524 bytes do, after the second
  byte of a chunk, whose third part is zero.\<close>

type_synonym chunk = "u8 \<times> u8 \<times> u8"

fun split_loop :: "chk_t \<Rightarrow> u8 list \<Rightarrow> chunk list \<times> chk_t" where
  "split_loop c (a # b # rest) =
     (let c = chk_add0 a (chk_rotate c); p0 = a XOR ucast (chk0 c);
          c = chk_add1 b c; p1 = b XOR ucast (chk2 c)
      in case rest of
           [] \<Rightarrow> ([(p0, p1, 0)], c)
         | v # rest' \<Rightarrow>
             let c = chk_add2 v c; p2 = v XOR ucast (chk1 c);
                 (ps, c) = split_loop c rest'
             in ((p0, p1, p2) # ps, c))"
| "split_loop c [a] = ([], c)"
| "split_loop c [] = ([], c)"

definition disk_byte :: "u8 \<Rightarrow> u8" where
  "disk_byte v = sDiskBytes62 ! unat v"

fun chunk_nibbles :: "chunk list \<Rightarrow> u8 list" where
  "chunk_nibbles [] = []"
| "chunk_nibbles ((p0, p1, p2) # ps) =
     (let twos = drop_bit 2 (p0 AND 0xC0) OR drop_bit 4 (p1 AND 0xC0) OR drop_bit 6 (p2 AND 0xC0)
      in disk_byte twos # disk_byte (p0 AND 0x3F) # disk_byte (p1 AND 0x3F) #
         (if ps \<noteq> [] then [disk_byte (p2 AND 0x3F)] else []) @ chunk_nibbles ps)"

definition checksum_nibbles :: "chk_t \<Rightarrow> u8 list" where
  "checksum_nibbles c =
     (let chktwos = ucast (drop_bit 6 (chk0 c AND 0xC0) OR drop_bit 4 (chk1 c AND 0xC0) OR drop_bit 2 (chk2 c AND 0xC0))
      in [disk_byte chktwos, disk_byte (ucast (chk2 c AND 0x3F)), disk_byte (ucast (chk1 c AND 0x3F)),
          disk_byte (ucast (chk0 c AND 0x3F))])"

definition EncodeSector62_524 :: "u8 list \<Rightarrow> u8 list" where
  "EncodeSector62_524 buffer =
     (let (parts, c) = split_loop chk_start buffer in chunk_nibbles parts @ checksum_nibbles c)"

section \<open>Decoding\<close>

definition inverse_byte :: "u8 \<Rightarrow> u8 option" where
  "inverse_byte n = (let v = sInvDiskBytes62 ! unat n in if v = INVALID_INV then None else Some v)"

definition high_bits :: "nat \<Rightarrow> u8 \<Rightarrow> u8 \<Rightarrow> u8" where
  "high_bits k twos nib = nib OR (push_bit k twos AND 0xC0)"

text \<open>\<open>n\<close> chunks from the front of the input; the last one has no third nibble.\<close>

fun join_parts :: "nat \<Rightarrow> u8 list \<Rightarrow> (chunk list \<times> u8 list) option" where
  "join_parts 0 inp = Some ([], inp)"
| "join_parts (Suc n) (t # a # b # rest) = do {
     twos \<leftarrow> inverse_byte t;
     nib0 \<leftarrow> inverse_byte a;
     nib1 \<leftarrow> inverse_byte b;
     (nib2, rest) \<leftarrow>
       (if n \<noteq> 0 then (case rest of [] \<Rightarrow> None | d # rest \<Rightarrow> do { v \<leftarrow> inverse_byte d; Some (v, rest) })
        else Some (0, rest));
     (ps, rest) \<leftarrow> join_parts n rest;
     Some ((high_bits 2 twos nib0, high_bits 4 twos nib1, high_bits 6 twos nib2) # ps, rest)
   }"
| "join_parts (Suc n) _ = None"

fun merge_loop :: "chk_t \<Rightarrow> chunk list \<Rightarrow> u8 list \<times> chk_t" where
  "merge_loop c [] = ([], c)"
| "merge_loop c ((p0, p1, p2) # ps) =
     (let c = chk_rotate c; a = p0 XOR ucast (chk0 c); c = chk_add0 a c;
          b = p1 XOR ucast (chk2 c); c = chk_add1 b c
      in if ps = [] then ([a, b], c)
         else let v = p2 XOR ucast (chk1 c); c = chk_add2 v c;
                  (bs, c) = merge_loop c ps
              in (a # b # v # bs, c))"

text \<open>\<^const>\<open>None\<close> is the result \<^verbatim>\<open>false\<close>.\<close>

definition DecodeSector62_524 :: "u8 list \<Rightarrow> u8 list option" where
  "DecodeSector62_524 inp = do {
     (parts, rest) \<leftarrow> join_parts CHUNK_SIZE_62_524 inp;
     twos \<leftarrow> inverse_byte (rest ! 0);
     nib2 \<leftarrow> inverse_byte (rest ! 1);
     nib1 \<leftarrow> inverse_byte (rest ! 2);
     nib0 \<leftarrow> inverse_byte (rest ! 3);
     let readChk2 = high_bits 2 twos nib2;
     let readChk1 = high_bits 4 twos nib1;
     let readChk0 = high_bits 6 twos nib0;
     let (buffer, c) = merge_loop chk_start parts;
     if readChk0 \<noteq> ucast (chk0 c) \<or> readChk1 \<noteq> ucast (chk1 c) \<or> readChk2 \<noteq> ucast (chk2 c) then None
     else Some buffer
   }"

section \<open>A sector read back\<close>

lemma low_byte_mask: "(ucast (w AND 0xFF :: u32) :: u8) = ucast w"
proof -
  have "(w AND 0xFF :: u32) = take_bit 8 w" by (simp add: take_bit_eq_mask mask_eq_exp_minus_1)
  then show ?thesis
    by (simp only:) (rule bit_word_eqI, simp add: bit_simps)
qed

lemma chk_low_bytes:
  "(ucast (chk0 (chk_add0 a c)) :: u8) = ucast (chk0 c)" "(ucast (chk2 (chk_add1 b c)) :: u8) = ucast (chk2 c)"
  "(ucast (chk1 (chk_add2 v c)) :: u8) = ucast (chk1 c)"
  by (simp_all add: chk_add0_def chk_add1_def chk_add2_def Let_def low_byte_mask)

lemma chunk_induct [consumes 1, case_names last more]:
  assumes "length buf mod 3 = 2" "\<And>c a b. P c [a, b]"
    and "\<And>c a b v rest. length rest mod 3 = 2 \<Longrightarrow> (\<And>c. P c rest) \<Longrightarrow> P c (a # b # v # rest)"
  shows "P c buf"
  using assms(1)
proof (induction buf arbitrary: c rule: length_induct)
  case (1 buf)
  obtain a b rest where buf: "buf = a # b # rest"
    using "1.prems" by (cases buf; cases "tl buf") auto
  show ?case
  proof (cases rest)
    case Nil
    then show ?thesis using assms(2) buf by simp
  next
    case (Cons v rest')
    then have "length rest' mod 3 = 2" using "1.prems" buf by simp
    then show ?thesis using assms(3) "1.IH" buf Cons by simp
  qed
qed

text \<open>The decoder's checksums run through the same values as the encoder's.\<close>

lemma merge_split:
  assumes "length buf mod 3 = 2"
  shows "merge_loop c (fst (split_loop c buf)) = (buf, snd (split_loop c buf)) \<and> fst (split_loop c buf) \<noteq> []"
  using assms
  by (induction c buf rule: chunk_induct) (simp_all add: Let_def chk_low_bytes xor.assoc case_prod_beta)

lemma split_parts:
  assumes "length buf mod 3 = 2"
  shows "length (fst (split_loop c buf)) = Suc (length buf div 3) \<and> snd (snd (last (fst (split_loop c buf)))) = 0"
  using assms
  by (induction c buf rule: chunk_induct) (simp_all add: Let_def case_prod_beta merge_split)

lemma inverse_tables:
  "map (\<lambda>b. sInvDiskBytes62 ! unat b) sDiskBytes62 = map of_nat [0..<64]"
  by (simp add: sDiskBytes62_def sInvDiskBytes62_def upt_rec)

lemma sDiskBytes62_msb: "list_all (\<lambda>b. bit b 7) sDiskBytes62"
  by (simp add: sDiskBytes62_def)

lemma disk_byte:
  assumes "six_bit w"
  shows "inverse_byte (disk_byte w) = Some w" "bit (disk_byte w) 7"
proof -
  have len: "length sDiskBytes62 = 64" by (simp add: sDiskBytes62_def)
  note w = six_bit_less [OF assms]
  have "map (\<lambda>b. sInvDiskBytes62 ! unat b) sDiskBytes62 ! unat w = map of_nat [0..<64] ! unat w"
    by (simp only: inverse_tables)
  then have "sInvDiskBytes62 ! unat (disk_byte w) = w"
    using w len by (simp add: disk_byte_def)
  moreover have "w \<noteq> INVALID_INV" using w by (auto simp: INVALID_INV_def)
  ultimately show "inverse_byte (disk_byte w) = Some w" by (simp add: inverse_byte_def)
  show "bit (disk_byte w) 7"
    using sDiskBytes62_msb w len by (simp add: list_all_length disk_byte_def)
qed

lemma six_bit_low [simp]: "six_bit (w AND 0x3F)"
proof -
  have "w AND 0x3F = take_bit 6 w" by (simp add: take_bit_eq_mask mask_eq_exp_minus_1)
  then show ?thesis by (simp add: six_bit_def)
qed

definition twos_of :: "u8 \<Rightarrow> u8 \<Rightarrow> u8 \<Rightarrow> u8" where
  "twos_of p0 p1 p2 = drop_bit 2 (p0 AND 0xC0) OR drop_bit 4 (p1 AND 0xC0) OR drop_bit 6 (p2 AND 0xC0)"

lemma bit_twos_of:
  "n < 8 \<Longrightarrow> bit (twos_of p0 p1 p2) n =
    (if n = 5 then bit p0 7 else if n = 4 then bit p0 6 else if n = 3 then bit p1 7 else if n = 2 then bit p1 6
     else if n = 1 then bit p2 7 else if n = 0 then bit p2 6 else False)"
  using byte_bit_cases [of n] unfolding twos_of_def bit_or_iff bit_drop_bit_eq by (auto simp: bit_simps)

lemma six_bit_twos [simp]: "six_bit (twos_of p0 p1 p2)"
  unfolding six_bit_def
  by (rule bit_word_eqI) (use bit_twos_of in \<open>auto simp: bit_take_bit_iff\<close>)

lemma high_bits_twos:
  "high_bits 2 (twos_of p0 p1 p2) (p0 AND 0x3F) = p0" "high_bits 4 (twos_of p0 p1 p2) (p1 AND 0x3F) = p1"
  "high_bits 6 (twos_of p0 p1 p2) (p2 AND 0x3F) = p2" "high_bits 6 (twos_of p0 p1 0) 0 = 0"
proof -
  show "high_bits 2 (twos_of p0 p1 p2) (p0 AND 0x3F) = p0"
  proof (rule bit_word_eqI)
    fix n assume "n < LENGTH(8)"
    with byte_bit_cases [of n] show "bit (high_bits 2 (twos_of p0 p1 p2) (p0 AND 0x3F)) n = bit p0 n"
      unfolding high_bits_def bit_or_iff bit_and_iff bit_push_bit_iff by (auto simp: bit_twos_of bit_simps)
  qed
  show "high_bits 4 (twos_of p0 p1 p2) (p1 AND 0x3F) = p1"
  proof (rule bit_word_eqI)
    fix n assume "n < LENGTH(8)"
    with byte_bit_cases [of n] show "bit (high_bits 4 (twos_of p0 p1 p2) (p1 AND 0x3F)) n = bit p1 n"
      unfolding high_bits_def bit_or_iff bit_and_iff bit_push_bit_iff by (auto simp: bit_twos_of bit_simps)
  qed
  show six: "high_bits 6 (twos_of p0 p1 p2) (p2 AND 0x3F) = p2" for p2
  proof (rule bit_word_eqI)
    fix n assume "n < LENGTH(8)"
    with byte_bit_cases [of n] show "bit (high_bits 6 (twos_of p0 p1 p2) (p2 AND 0x3F)) n = bit p2 n"
      unfolding high_bits_def bit_or_iff bit_and_iff bit_push_bit_iff by (auto simp: bit_twos_of bit_simps)
  qed
  show "high_bits 6 (twos_of p0 p1 0) 0 = 0" using six [of 0] by simp
qed

lemma chunk_nibbles_twos:
  "chunk_nibbles ((p0, p1, p2) # ps) = disk_byte (twos_of p0 p1 p2) # disk_byte (p0 AND 0x3F) # disk_byte (p1 AND 0x3F) #
     (if ps \<noteq> [] then [disk_byte (p2 AND 0x3F)] else []) @ chunk_nibbles ps"
  by (simp add: twos_of_def)

lemma join_chunks:
  assumes "ps \<noteq> [] \<longrightarrow> snd (snd (last ps)) = 0"
  shows "join_parts (length ps) (chunk_nibbles ps @ rest) = Some (ps, rest)"
  using assms
proof (induction ps)
  case (Cons p ps)
  obtain p0 p1 p2 where p: "p = (p0, p1, p2)" by (cases p)
  show ?case
    using Cons by (cases ps) (simp_all add: p chunk_nibbles_twos disk_byte high_bits_twos del: chunk_nibbles.simps(2))
qed simp

lemma masked_byte: "ucast (drop_bit k (w AND ucast m :: u32)) = (drop_bit k (ucast w AND m) :: u8)"
  by (rule bit_word_eqI) (auto simp: bit_simps dest: bit_imp_le_length)

lemma checksum_twos:
  "checksum_nibbles c = map disk_byte [twos_of (ucast (chk2 c)) (ucast (chk1 c)) (ucast (chk0 c)),
     ucast (chk2 c) AND 0x3F, ucast (chk1 c) AND 0x3F, ucast (chk0 c) AND 0x3F]"
proof -
  have "ucast (drop_bit k (w AND 0xC0 :: u32)) = (drop_bit k (ucast w AND 0xC0) :: u8)"
    "(ucast (w AND 0x3F :: u32) :: u8) = ucast w AND 0x3F" for w k
    using masked_byte [of k w "0xC0"] masked_byte [of 0 w "0x3F"] by simp_all
  moreover have "ucast (v OR w) = (ucast v OR ucast w :: u8)" for v w :: u32
    by (rule bit_word_eqI) (auto simp: bit_simps)
  ultimately show ?thesis
    by (simp only: checksum_nibbles_def twos_of_def Let_def or.commute or.left_commute list.map)
qed

lemma length_chunk_nibbles: "ps \<noteq> [] \<Longrightarrow> length (chunk_nibbles ps) = 4 * length ps - 1"
  by (induction ps rule: chunk_nibbles.induct) (auto simp: chunk_nibbles_twos simp del: chunk_nibbles.simps(2))

lemma chunk_nibbles_msb: "b \<in> set (chunk_nibbles ps) \<Longrightarrow> bit b 7"
  by (induction ps rule: chunk_nibbles.induct)
    (auto simp: chunk_nibbles_twos disk_byte simp del: chunk_nibbles.simps(2) split: if_splits)

text \<open>A sector read back: decoding the 703 nibbles of any 524 bytes gives these bytes.\<close>

lemma sector_524_roundtrip:
  assumes "length buf = 524"
  shows "DecodeSector62_524 (EncodeSector62_524 buf) = Some buf" "length (EncodeSector62_524 buf) = 703"
    "\<forall>b \<in> set (EncodeSector62_524 buf). bit b 7"
proof -
  have mod: "length buf mod 3 = 2" using assms by simp
  obtain ps c where ps: "split_loop chk_start buf = (ps, c)" by (cases "split_loop chk_start buf")
  have props: "length ps = 175" "snd (snd (last ps)) = 0" "merge_loop chk_start ps = (buf, c)" "ps \<noteq> []"
    using split_parts [OF mod, of chk_start] merge_split [OF mod, of chk_start] assms by (simp_all add: ps)
  have enc: "EncodeSector62_524 buf = chunk_nibbles ps @ checksum_nibbles c"
    by (simp add: EncodeSector62_524_def ps)
  have "join_parts CHUNK_SIZE_62_524 (EncodeSector62_524 buf) = Some (ps, checksum_nibbles c)"
    using join_chunks [of ps] props by (simp add: enc CHUNK_SIZE_62_524_def)
  then show "DecodeSector62_524 (EncodeSector62_524 buf) = Some buf"
    by (simp add: DecodeSector62_524_def checksum_twos disk_byte high_bits_twos props(3) Let_def)
  show "length (EncodeSector62_524 buf) = 703"
    using length_chunk_nibbles [OF props(4)] props(1) by (simp add: enc checksum_twos)
  show "\<forall>b \<in> set (EncodeSector62_524 buf). bit b 7"
    using chunk_nibbles_msb by (auto simp: enc checksum_twos disk_byte)
qed

end
