(* ===== verification/Woz_Track.thy ===== *)
theory Woz_Track
  imports Woz_Gcr
begin

text \<open>
  A 5.25 inch track (\<^verbatim>\<open>src/util/woz_nibblizer_525.cpp\<close>): address and data fields, \<open>build_track\<close> from the sectors
  of a disk image, and \<open>decode_track\<close>, which hunts for fields in the bit stream and rebuilds the sectors.
  The loops of the decoder are partial functions: \<^const>\<open>None\<close> when a read leaves the track or a loop does not end.
\<close>

section \<open>Writing a track\<close>

type_synonym sector_t = "u8 list"
type_synonym disk_image_t = "sector_t list list"

definition GAP_A_SIZE :: nat where "GAP_A_SIZE = 64"
definition GAP_B_SIZE :: nat where "GAP_B_SIZE = 5"
definition GAP_C_SIZE :: nat where "GAP_C_SIZE = 21"
definition SECTORS_PER_TRACK :: nat where "SECTORS_PER_TRACK = 16"
definition SECTOR_SIZE :: nat where "SECTOR_SIZE = 256"
definition TRACKS_PER_DISK :: nat where "TRACKS_PER_DISK = 35"

definition po_phys_to_logical :: "nat list" where
  "po_phys_to_logical = [0, 8, 1, 9, 2, 10, 3, 11, 4, 12, 5, 13, 6, 14, 7, 15]"

definition do_phys_to_logical :: "nat list" where
  "do_phys_to_logical = [0, 7, 14, 6, 13, 5, 12, 4, 11, 3, 10, 2, 9, 1, 8, 15]"

text \<open>The order in which the 342 values go to the disk.\<close>

definition nibble_order :: "nat list" where
  "nibble_order = rev [0x100..<0x156] @ [0..<0x100]"

definition emit_chained :: "u8 list \<Rightarrow> nat \<Rightarrow> u8 \<times> woz_track_t \<Rightarrow> u8 \<times> woz_track_t" where
  "emit_chained nbuf i s =
     (nbuf ! i, emit_data_byte (woz_translate_62 ! unat (nbuf ! i XOR fst s)) (snd s))"

definition emit_nibblized_sector :: "u8 list \<Rightarrow> sector_t \<Rightarrow> woz_track_t \<Rightarrow> woz_track_t" where
  "emit_nibblized_sector junk inp trk =
     (let nbuf = prenibble inp junk;
          trk = snd (fold (emit_chained nbuf) nibble_order (0, trk))
      in emit_data_byte (woz_translate_62 ! unat (nbuf ! 0xFF)) trk)"

definition emit_address_field :: "u8 \<Rightarrow> u8 \<Rightarrow> u8 \<Rightarrow> woz_track_t \<Rightarrow> woz_track_t" where
  "emit_address_field volume track_num sector_num trk =
     (let trk = emit_data_byte 0xD5 trk;
          trk = emit_data_byte 0xAA trk;
          trk = emit_data_byte 0x96 trk;
          checksum = volume XOR track_num XOR sector_num;
          trk = emit_encoded_44 volume trk;
          trk = emit_encoded_44 track_num trk;
          trk = emit_encoded_44 sector_num trk;
          trk = emit_encoded_44 checksum trk;
          trk = emit_data_byte 0xDE trk;
          trk = emit_data_byte 0xAA trk
      in emit_data_byte 0xEB trk)"

definition emit_data_field :: "u8 list \<Rightarrow> sector_t \<Rightarrow> woz_track_t \<Rightarrow> woz_track_t" where
  "emit_data_field junk inp trk =
     (let trk = emit_data_byte 0xD5 trk;
          trk = emit_data_byte 0xAA trk;
          trk = emit_data_byte 0xAD trk;
          trk = emit_nibblized_sector junk inp trk;
          trk = emit_data_byte 0xDE trk;
          trk = emit_data_byte 0xAA trk
      in emit_data_byte 0xEB trk)"

definition emit_sector :: "u8 list \<Rightarrow> sector_t \<Rightarrow> u8 \<Rightarrow> u8 \<Rightarrow> u8 \<Rightarrow> woz_track_t \<Rightarrow> woz_track_t" where
  "emit_sector junk inp volume track_num sector_num trk =
     (let trk = emit_address_field volume track_num sector_num trk;
          trk = emit_sync_bytes GAP_B_SIZE trk;
          trk = emit_data_field junk inp trk
      in emit_sync_bytes GAP_C_SIZE trk)"

text \<open>\<open>junk s\<close> is what the uninitialised buffer of \<^verbatim>\<open>emit_nibblized_sector\<close> holds for sector \<open>s\<close>.\<close>

definition build_track ::
    "(nat \<Rightarrow> u8 list) \<Rightarrow> disk_image_t \<Rightarrow> nat list \<Rightarrow> nat \<Rightarrow> u8 \<Rightarrow> woz_track_t" where
  "build_track junk disk_image phys_to_logical track_num volume =
     fold (\<lambda>s. emit_sector (junk s) (disk_image ! track_num ! (phys_to_logical ! s)) volume (of_nat track_num) (of_nat s))
       [0..<SECTORS_PER_TRACK] (emit_sync_bytes GAP_A_SIZE empty_track)"

section \<open>Reading a track\<close>

text \<open>The 342 values, each the exclusive or of its nibble and the value before it.\<close>

fun read_payload ::
    "woz_track_t \<Rightarrow> nat list \<Rightarrow> u8 \<Rightarrow> u8 list \<Rightarrow> bit_cursor \<Rightarrow> (u8 \<times> u8 list \<times> bit_cursor) option" where
  "read_payload trk [] csum nbuf c = Some (csum, nbuf, c)"
| "read_payload trk (i # is) csum nbuf c = do {
     (n, c) \<leftarrow> read_nibble trk c;
     let v = csum XOR woz_denibble_table ! unat n;
     read_payload trk is v (nbuf[i := v]) c
   }"

record decode_state = scan_state +
  out_sectors :: disk_image_t

definition store_sector :: "nat \<Rightarrow> nat list \<Rightarrow> nat \<Rightarrow> sector_t \<Rightarrow> decode_state \<Rightarrow> decode_state" where
  "store_sector track_num phys_to_logical sector decoded st =
     (let out = out_sectors st; logical = phys_to_logical ! sector;
          st = st\<lparr>out_sectors := out[track_num := (out ! track_num)[logical := decoded]]\<rparr>
      in if \<not> found st ! sector
         then st\<lparr>found := (found st)[sector := True], found_count := found_count st + 1\<rparr>
         else st)"

text \<open>The data field of a sector whose address field has been accepted.  Every entry of the buffer is written
  before it is read, so its initial contents do not matter.\<close>

definition decode_data_field ::
    "woz_track_t \<Rightarrow> nat \<Rightarrow> nat list \<Rightarrow> nat \<Rightarrow> decode_state \<Rightarrow> bit_cursor \<Rightarrow> decode_state option" where
  "decode_data_field trk track_num phys_to_logical sector st c = do {
     (_, c) \<leftarrow> read_nibbles 3 trk c;
     (got_prologue, c) \<leftarrow> hunt_prologue trk (consumed c + 64 * 8) 0 0 c;
     if \<not> got_prologue then Some (restart c st)
     else do {
       (csum, nbuf, c) \<leftarrow> read_payload trk nibble_order 0 (replicate 342 0) c;
       (n, c) \<leftarrow> read_nibble trk c;
       let tail = woz_denibble_table ! unat n;
       if csum XOR tail \<noteq> 0 then Some (restart c st)
       else Some (restart c (store_sector track_num phys_to_logical sector (decode_sector_62 nbuf) st))
     }
   }"

definition decode_address_field ::
    "woz_track_t \<Rightarrow> nat \<Rightarrow> nat list \<Rightarrow> decode_state \<Rightarrow> bit_cursor \<Rightarrow> decode_state option" where
  "decode_address_field trk track_num phys_to_logical st c = do {
     (e, c) \<leftarrow> read_nibbles 8 trk c;
     let volume = decode_44 (e ! 0) (e ! 1);
     let trk_no = decode_44 (e ! 2) (e ! 3);
     let sector = decode_44 (e ! 4) (e ! 5);
     let checksum = decode_44 (e ! 6) (e ! 7);
     if checksum \<noteq> volume XOR trk_no XOR sector then Some (restart c st)
     else if unat sector \<ge> SECTORS_PER_TRACK then Some (restart c st)
     else decode_data_field trk track_num phys_to_logical (unat sector) st c
   }"

text \<open>One round of the main loop.\<close>

definition decode_round :: "woz_track_t \<Rightarrow> nat \<Rightarrow> nat list \<Rightarrow> decode_state \<Rightarrow> decode_state option" where
  "decode_round trk track_num phys_to_logical st = do {
     (n, c) \<leftarrow> read_nibble trk (cur st);
     let st = slide c n st;
     if \<not> (n2 st = 0xD5 \<and> n1 st = 0xAA \<and> n0 st = 0x96) then Some st
     else decode_address_field trk track_num phys_to_logical st c
   }"

definition decode_loop ::
    "woz_track_t \<Rightarrow> nat \<Rightarrow> nat list \<Rightarrow> decode_state \<Rightarrow> decode_state option" where
  "decode_loop trk track_num phys_to_logical =
     scan_loop (decode_round trk track_num phys_to_logical) SECTORS_PER_TRACK trk"

definition decode_track ::
    "woz_track_t \<Rightarrow> nat \<Rightarrow> nat list \<Rightarrow> disk_image_t \<Rightarrow> (nat \<times> disk_image_t) option" where
  "decode_track trk track_num phys_to_logical out =
     (if bit_count trk = 0 then Some (0, out)
      else do {
        st \<leftarrow> decode_loop trk track_num phys_to_logical
          \<lparr>cur = start_cursor, found = replicate SECTORS_PER_TRACK False, found_count = 0,
           n0 = 0, n1 = 0, n2 = 0, out_sectors = out\<rparr>;
        Some (found_count st, out_sectors st)
      })"

lemmas track_sizes = GAP_A_SIZE_def GAP_B_SIZE_def GAP_C_SIZE_def SECTORS_PER_TRACK_def SECTOR_SIZE_def
  TRACKS_PER_DISK_def

section \<open>The cells of a track\<close>

fun xor_chain :: "u8 \<Rightarrow> u8 list \<Rightarrow> u8 list" where
  "xor_chain prev [] = []"
| "xor_chain prev (v # vs) = woz_translate_62 ! unat (v XOR prev) # xor_chain v vs"

definition sector_nibbles :: "u8 list \<Rightarrow> u8 list" where
  "sector_nibbles nbuf = xor_chain 0 (map ((!) nbuf) nibble_order) @ [woz_translate_62 ! unat (nbuf ! 0xFF)]"

definition address_cells :: "u8 \<Rightarrow> u8 \<Rightarrow> u8 \<Rightarrow> cell list" where
  "address_cells volume track_num sector_num = data_cells ([0xD5, 0xAA, 0x96] @ encode_44 volume @ encode_44 track_num @
     encode_44 sector_num @ encode_44 (volume XOR track_num XOR sector_num) @ [0xDE, 0xAA, 0xEB])"

definition data_field_cells :: "u8 list \<Rightarrow> cell list" where
  "data_field_cells nbuf = data_cells ([0xD5, 0xAA, 0xAD] @ sector_nibbles nbuf @ [0xDE, 0xAA, 0xEB])"

definition sector_cells :: "u8 \<Rightarrow> u8 \<Rightarrow> u8 \<Rightarrow> u8 list \<Rightarrow> cell list" where
  "sector_cells volume track_num sector_num nbuf =
     address_cells volume track_num sector_num @ sync_cells GAP_B_SIZE @ data_field_cells nbuf @ sync_cells GAP_C_SIZE"

lemma fst_emit_chained: "fst (fold (emit_chained nbuf) is (v, trk)) = (if is = [] then v else nbuf ! last is)"
  by (induction "is" arbitrary: v trk) (auto simp: emit_chained_def)

lemma emits_chain:
  "emits (\<lambda>trk. snd (fold (emit_chained nbuf) is (v, trk))) (cell_bits (data_cells (xor_chain v (map ((!) nbuf) is))))"
proof (induction "is" arbitrary: v)
  case Nil
  then show ?case by (simp add: emits_nothing)
next
  case (Cons i "is")
  show ?case
    using emits_then [OF emits_data_byte [of "woz_translate_62 ! unat (nbuf ! i XOR v)"] Cons.IH [of "nbuf ! i"]]
    by (simp add: emit_chained_def)
qed

lemma emits_nibblized_sector:
  "emits (emit_nibblized_sector junk inp) (cell_bits (data_cells (sector_nibbles (prenibble inp junk))))"
  using emits_then [OF emits_chain emits_data_byte]
  by (simp add: emit_nibblized_sector_def [abs_def] sector_nibbles_def Let_def)

lemma emits_address_field: "emits (emit_address_field volume t s) (cell_bits (address_cells volume t s))"
proof -
  note b = emits_data_byte and e = emits_encoded_44
  have "emits (emit_address_field volume t s) (((((((((cell_bits [(0xD5, 0)] @ cell_bits [(0xAA, 0)]) @ cell_bits [(0x96, 0)])
      @ cell_bits (data_cells (encode_44 volume))) @ cell_bits (data_cells (encode_44 t))) @ cell_bits (data_cells (encode_44 s)))
      @ cell_bits (data_cells (encode_44 (volume XOR t XOR s)))) @ cell_bits [(0xDE, 0)]) @ cell_bits [(0xAA, 0)])
      @ cell_bits [(0xEB, 0)])"
    unfolding emit_address_field_def [abs_def] Let_def by (intro emits_then b e)
  then show ?thesis by (simp add: address_cells_def)
qed

lemma emits_data_field:
  "emits (emit_data_field junk inp) (cell_bits (data_field_cells (prenibble inp junk)))"
proof -
  note b = emits_data_byte
  have "emits (emit_data_field junk inp) ((((((cell_bits [(0xD5, 0)] @ cell_bits [(0xAA, 0)]) @ cell_bits [(0xAD, 0)])
      @ cell_bits (data_cells (sector_nibbles (prenibble inp junk)))) @ cell_bits [(0xDE, 0)]) @ cell_bits [(0xAA, 0)])
      @ cell_bits [(0xEB, 0)])"
    unfolding emit_data_field_def [abs_def] Let_def by (intro emits_then b emits_nibblized_sector)
  then show ?thesis by (simp add: data_field_cells_def)
qed

lemma emits_sector:
  "emits (emit_sector junk inp volume t s) (cell_bits (sector_cells volume t s (prenibble inp junk)))"
proof -
  have "emits (emit_sector junk inp volume t s) (((cell_bits (address_cells volume t s) @ cell_bits (sync_cells GAP_B_SIZE))
      @ cell_bits (data_field_cells (prenibble inp junk))) @ cell_bits (sync_cells GAP_C_SIZE))"
    unfolding emit_sector_def [abs_def] Let_def
    by (intro emits_then emits_address_field emits_data_field emits_sync_bytes)
  then show ?thesis by (simp add: sector_cells_def)
qed

definition track_cells :: "(nat \<Rightarrow> u8 list) \<Rightarrow> disk_image_t \<Rightarrow> nat list \<Rightarrow> nat \<Rightarrow> u8 \<Rightarrow> nat list \<Rightarrow> cell list" where
  "track_cells junk disk p2l t volume ss =
     concat (map (\<lambda>s. sector_cells volume (of_nat t) (of_nat s) (prenibble (disk ! t ! (p2l ! s)) (junk s))) ss)"

lemma cell_bits_concat: "cell_bits (concat xss) = concat (map cell_bits xss)"
  by (induction xss) simp_all

lemma length_data_cells: "length (cell_bits (data_cells bs)) = 8 * length bs"
  by (induction bs) simp_all

lemma length_sync_cells: "length (cell_bits (sync_cells n)) = 10 * n"
  by (induction n) simp_all

lemma length_xor_chain [simp]: "length (xor_chain v vs) = length vs"
  by (induction vs arbitrary: v) simp_all

lemma length_nibble_order [simp]: "length nibble_order = 342"
  by (simp add: nibble_order_def)

lemma length_sector_cells: "length (cell_bits (sector_cells volume t s nbuf)) = 3164"
  by (simp add: sector_cells_def address_cells_def data_field_cells_def sector_nibbles_def length_data_cells
      length_sync_cells track_sizes encode_44_def)

lemma length_track_cells: "length (cell_bits (track_cells junk disk p2l t volume ss)) = 3164 * length ss"
  by (induction ss) (simp_all add: track_cells_def length_sector_cells)

lemma build_track_stream:
  "track_ok (build_track junk disk p2l t volume)"
  "stream (build_track junk disk p2l t volume) =
     cell_bits (sync_cells GAP_A_SIZE @ track_cells junk disk p2l t volume [0..<SECTORS_PER_TRACK])"
proof -
  let ?f = "\<lambda>s. emit_sector (junk s) (disk ! t ! (p2l ! s)) volume (of_nat t) (of_nat s)"
  let ?xs = "cell_bits (sync_cells GAP_A_SIZE) @ cell_bits (track_cells junk disk p2l t volume [0..<SECTORS_PER_TRACK])"
  have "emits (fold ?f [0..<SECTORS_PER_TRACK]) (cell_bits (track_cells junk disk p2l t volume [0..<SECTORS_PER_TRACK]))"
    unfolding track_cells_def cell_bits_concat map_map comp_def by (intro emits_fold emits_sector)
  from emits_then [OF emits_sync_bytes this]
  have "emits (\<lambda>trk. fold ?f [0..<SECTORS_PER_TRACK] (emit_sync_bytes GAP_A_SIZE trk)) ?xs" .
  moreover have "unat (bit_count empty_track) + length ?xs < 2 ^ 32"
    by (simp add: length_track_cells length_sync_cells track_sizes empty_track_def)
  ultimately show "track_ok (build_track junk disk p2l t volume)"
    "stream (build_track junk disk p2l t volume) =
       cell_bits (sync_cells GAP_A_SIZE @ track_cells junk disk p2l t volume [0..<SECTORS_PER_TRACK])"
    unfolding build_track_def using emitsD track_ok_empty by fastforce+
qed

section \<open>Reading a sector\<close>

lemma before_read_payload:
  assumes "before trk c (data_cells (xor_chain csum (map f is)) @ cs)" "six_bit csum" "\<And>i. i \<in> set is \<Longrightarrow> six_bit (f i)"
  obtains c' where
    "read_payload trk is csum nbuf c = Some (if is = [] then csum else f (last is), fold (\<lambda>i nbuf. nbuf[i := f i]) is nbuf, c')"
    "before trk c' cs"
  using assms
proof (induction "is" arbitrary: c csum nbuf thesis)
  case Nil
  then show ?case by simp
next
  case (Cons i "is")
  let ?n = "woz_translate_62 ! unat (f i XOR csum)"
  from before_read [of trk c ?n 0 "data_cells (xor_chain (f i) (map f is)) @ cs"] Cons.prems(2)
  obtain c1 where c1: "read_nibble trk c = Some (?n, c1)" "before trk c1 (data_cells (xor_chain (f i) (map f is)) @ cs)"
    by auto
  have "csum XOR woz_denibble_table ! unat ?n = f i"
    using translate_62(1) [OF six_bit_xor [of "f i" csum]] Cons.prems(3,4) by (simp add: xor.commute xor.left_commute)
  moreover obtain c2 where
    "read_payload trk is (f i) (nbuf[i := f i]) c1 =
       Some (if is = [] then f i else f (last is), fold (\<lambda>i nbuf. nbuf[i := f i]) is (nbuf[i := f i]), c2)"
    "before trk c2 cs"
    using Cons.IH [OF _ c1(2)] Cons.prems(4) by auto
  ultimately show ?case
    using c1(1) by (intro Cons.prems(1) [of c2]) (simp_all add: Let_def)
qed

lemma fold_update_nth:
  "j < length xs \<Longrightarrow> fold (\<lambda>i xs. xs[i := f i]) is xs ! j = (if j \<in> set is then f j else xs ! j)"
  by (induction "is" arbitrary: xs) (auto simp: nth_list_update)

lemma length_fold_update [simp]: "length (fold (\<lambda>i xs. xs[i := f i]) is xs) = length xs"
  by (induction "is" arbitrary: xs) simp_all

lemma nibble_order_props: "distinct nibble_order" "set nibble_order = {..<342}" "last nibble_order = 0xFF" "nibble_order \<noteq> []"
proof -
  show "set nibble_order = {..<342}"
    by (simp only: nibble_order_def set_append set_rev set_upt) auto
  show "distinct nibble_order"
    by (simp only: nibble_order_def distinct_append distinct_rev distinct_upt set_rev set_upt) auto
  show "last nibble_order = 0xFF" "nibble_order \<noteq> []"
    by (simp_all add: nibble_order_def)
qed

lemma nibble_order_fills:
  assumes "length ys = 342" "length xs = 342"
  shows "fold (\<lambda>i xs. xs[i := ys ! i]) nibble_order xs = ys"
  using assms by (intro nth_equalityI) (simp_all add: fold_update_nth nibble_order_props)

lemma decode_data_field_cells:
  assumes "before trk c (data_cells [0xDE, 0xAA, 0xEB] @ sync_cells GAP_B_SIZE @ data_field_cells nbuf @ cs)"
    and "length nbuf = 342" "\<And>i. i < 342 \<Longrightarrow> six_bit (nbuf ! i)"
  shows "\<exists>c'. decode_data_field trk t p2l s st c = Some (restart c' (store_sector t p2l s (decode_sector_62 nbuf) st)) \<and>
    before trk c' (data_cells [0xDE, 0xAA, 0xEB] @ cs)"
proof -
  let ?rest = "data_cells [0xDE, 0xAA, 0xEB] @ cs"
  have "before trk c (data_cells [0xDE, 0xAA, 0xEB] @ sync_cells 5 @ (0xD5, 0) # (0xAA, 0) # (0xAD, 0) #
      data_cells (sector_nibbles nbuf) @ ?rest)"
    using assms(1) by (simp add: data_field_cells_def track_sizes)
  from skip_to_data [OF this] obtain c1 c2 where c1: "read_nibbles 3 trk c = Some ([0xDE, 0xAA, 0xEB], c1)"
    and c2: "hunt_prologue trk (consumed c1 + 64 * 8) 0 0 c1 = Some (True, c2)" "before trk c2 (data_cells (sector_nibbles nbuf) @ ?rest)"
    by blast
  obtain c3 where c3: "read_payload trk nibble_order 0 (replicate 342 0) c2 = Some (nbuf ! 0xFF, nbuf, c3)"
    "before trk c3 ((woz_translate_62 ! unat (nbuf ! 0xFF), 0) # ?rest)"
  proof (rule before_read_payload [where nbuf = "replicate 342 0", of trk c2 0 "(!) nbuf" nibble_order "(woz_translate_62 ! unat (nbuf ! 0xFF), 0) # ?rest"])
    show "before trk c2 (data_cells (xor_chain 0 (map ((!) nbuf) nibble_order)) @ (woz_translate_62 ! unat (nbuf ! 0xFF), 0) # ?rest)"
      using c2(2) by (simp add: sector_nibbles_def)
    show "six_bit (nbuf ! i)" if "i \<in> set nibble_order" for i
      using that assms(3) by (simp add: nibble_order_props)
  qed (simp_all add: six_bit_0 nibble_order_props nibble_order_fills assms(2) that)
  obtain c4 where c4: "read_nibble trk c3 = Some (woz_translate_62 ! unat (nbuf ! 0xFF), c4)" "before trk c4 ?rest"
    using before_read [OF c3(2)] by blast
  have "nbuf ! 0xFF XOR woz_denibble_table ! unat (woz_translate_62 ! unat (nbuf ! 0xFF)) = 0"
    using translate_62(1) assms(3) by simp
  then show ?thesis
    using c4(2) by (auto simp: decode_data_field_def c1 c2(1) [simplified] c3(1) c4(1) Let_def)
qed

lemma decode_address_cells:
  assumes "before trk c (data_cells (encode_44 volume @ encode_44 tn @ encode_44 (of_nat s) @
      encode_44 (volume XOR tn XOR of_nat s)) @ cs)" "s < 16"
  shows "\<exists>c'. decode_address_field trk t p2l st c = decode_data_field trk t p2l s st c' \<and> before trk c' cs"
proof -
  have "length (encode_44 v) = 2" for v by (simp add: encode_44_def)
  then have len: "length (encode_44 volume @ encode_44 tn @ encode_44 (of_nat s) @ encode_44 (volume XOR tn XOR of_nat s)) = 8"
    by simp
  obtain c1 where c1: "read_nibbles 8 trk c = Some (encode_44 volume @ encode_44 tn @ encode_44 (of_nat s) @
      encode_44 (volume XOR tn XOR of_nat s), c1)" "before trk c1 cs"
    by (rule before_read_nibbles [OF assms(1), unfolded len])
  have split: "encode_44 v = [encode_44 v ! 0, encode_44 v ! 1]" for v by (simp add: encode_44_def)
  have "unat (of_nat s :: u8) = s"
    using assms(2) by (simp add: unat_of_nat)
  then show ?thesis
    using c1 assms(2) decode_encode_44(1)
    by (subst (asm) (1 2 3 4) split) (auto simp: decode_address_field_def Let_def track_sizes)
qed

section \<open>The main loop\<close>

lemma out_sectors_simps [simp]:
  "out_sectors (slide c n st) = out_sectors st" "out_sectors (restart c st) = out_sectors st"
  by (simp_all add: slide_def restart_def)

lemma store_sector_simps [simp]:
  "store_sector t p2l s d (slide c n st) = slide c n (store_sector t p2l s d st)"
  "cur (store_sector t p2l s d st) = cur st"
  by (simp_all add: store_sector_def slide_def Let_def)

interpretation scan_525: address_scan "\<lambda>trk. decode_loop trk t p2l" SECTORS_PER_TRACK "\<lambda>trk. decode_address_field trk t p2l"
  for t p2l
proof
  show "decode_loop trk t p2l st = (if found_count st < SECTORS_PER_TRACK \<and> consumed (cur st) < ucast (bit_count trk) * 2
      then do {
        (n, c) \<leftarrow> read_nibble trk (cur st);
        let st' = slide c n st;
        st'' \<leftarrow> (if \<not> (n2 st' = 0xD5 \<and> n1 st' = 0xAA \<and> n0 st' = 0x96) then Some st' else decode_address_field trk t p2l st' c);
        decode_loop trk t p2l st''
      } else Some st)" for trk st
    unfolding decode_loop_def by (subst scan_loop.simps) (simp add: decode_round_def Let_def split: Option.bind_split)
  show "decode_address_field trk t p2l (slide c n st) c' = decode_address_field trk t p2l st c'" for trk c n st c'
    by (simp add: decode_address_field_def decode_data_field_def Let_def cong: if_cong)
qed

lemma loop_sector:
  assumes "before trk (cur st) (js @ sector_cells volume tn (of_nat s) nbuf @ cs)"
    and "found_count st < SECTORS_PER_TRACK" "\<forall>(b, k) \<in> set js. b \<noteq> 0x96" "s < 16"
    and "length nbuf = 342" "\<And>i. i < 342 \<Longrightarrow> six_bit (nbuf ! i)"
  shows "\<exists>c'. decode_loop trk t p2l st = decode_loop trk t p2l (restart c' (store_sector t p2l s (decode_sector_62 nbuf) st)) \<and>
    before trk c' (data_cells [0xDE, 0xAA, 0xEB] @ sync_cells GAP_C_SIZE @ cs)"
proof -
  let ?id = "encode_44 volume @ encode_44 tn @ encode_44 (of_nat s) @ encode_44 (volume XOR tn XOR of_nat s)"
  let ?data = "data_cells [0xDE, 0xAA, 0xEB] @ sync_cells GAP_B_SIZE @ data_field_cells nbuf @ sync_cells GAP_C_SIZE @ cs"
  have "before trk (cur st) (js @ (0xD5, 0) # (0xAA, 0) # (0x96, 0) # data_cells ?id @ ?data)"
    using assms(1) by (simp add: sector_cells_def address_cells_def)
  from scan_525.reaches_field [OF this assms(2,3), of t p2l] obtain c1 where
    1: "decode_loop trk t p2l st = decode_address_field trk t p2l st c1 \<bind> decode_loop trk t p2l"
      "before trk c1 (data_cells ?id @ ?data)" by blast
  obtain c2 where 2: "decode_address_field trk t p2l st c1 = decode_data_field trk t p2l s st c2" "before trk c2 ?data"
    using decode_address_cells [OF 1(2) assms(4)] by blast
  show ?thesis
    using 1(1) 2(1) decode_data_field_cells [OF 2(2) assms(5,6), of t p2l s st] by auto
qed

section \<open>A track read back\<close>

definition image_ok :: "disk_image_t \<Rightarrow> bool" where
  "image_ok disk \<longleftrightarrow> length disk = TRACKS_PER_DISK \<and>
     (\<forall>trk \<in> set disk. length trk = SECTORS_PER_TRACK \<and> (\<forall>sec \<in> set trk. length sec = SECTOR_SIZE))"

definition interleave_ok :: "nat list \<Rightarrow> bool" where
  "interleave_ok p2l \<longleftrightarrow> length p2l = SECTORS_PER_TRACK \<and> distinct p2l \<and> set p2l = {..<SECTORS_PER_TRACK}"

lemma interleaves_ok: "interleave_ok po_phys_to_logical" "interleave_ok do_phys_to_logical"
proof -
  have "{..<16 :: nat} = {0, 1, 2, 3, 4, 5, 6, 7, 8, 9, 10, 11, 12, 13, 14, 15}"
    by (auto simp: numeral_eq_Suc less_Suc_eq)
  then show "interleave_ok po_phys_to_logical" "interleave_ok do_phys_to_logical"
    by (auto simp: interleave_ok_def po_phys_to_logical_def do_phys_to_logical_def track_sizes)
qed

lemma store_fresh:
  assumes "s < length (found st)" "\<not> found st ! s"
  shows "found_count (store_sector t p2l s d st) = found_count st + 1"
    "found (store_sector t p2l s d st) = (found st)[s := True]"
    "out_sectors (store_sector t p2l s d st) = (out_sectors st)[t := (out_sectors st ! t)[p2l ! s := d]]"
  using assms by (simp_all add: store_sector_def Let_def)

text \<open>From sector \<open>s\<close> on, with the sectors before it found.\<close>

lemma loop_sectors:
  assumes "before trk (cur st) (js @ track_cells junk disk p2l t volume [s..<16])" "\<forall>(b, k) \<in> set js. b \<noteq> 0x96"
    and "s \<le> 16" "found_count st = s" "found st = replicate s True @ replicate (16 - s) False" "t < length (out_sectors st)"
    and "\<And>i. i < 16 \<Longrightarrow> length (disk ! t ! (p2l ! i)) = 256 \<and> length (junk i) = 342"
  shows "\<exists>st'. decode_loop trk t p2l st = Some st' \<and> found_count st' = 16 \<and>
    out_sectors st' = (out_sectors st)[t := fold (\<lambda>i row. row[p2l ! i := disk ! t ! (p2l ! i)]) [s..<16] (out_sectors st ! t)]"
  using assms(1-6)
proof (induction "16 - s" arbitrary: s st js)
  case 0
  then have "s = 16" by simp
  then have "decode_loop trk t p2l st = Some st"
    using 0 by (intro scan_525.stops) (simp add: track_sizes)
  then show ?case using 0 \<open>s = 16\<close> by simp
next
  case (Suc n)
  then have s: "s < 16" by simp
  define nbuf where "nbuf = prenibble (disk ! t ! (p2l ! s)) (junk s)"
  have nbuf: "length nbuf = 342" "\<And>i. i < 342 \<Longrightarrow> six_bit (nbuf ! i)" "decode_sector_62 nbuf = disk ! t ! (p2l ! s)"
    using assms(7) [OF s] prenibble_nth(1) six_bit_prenibble sector_62_roundtrip by (simp_all add: nbuf_def)
  have upt: "[s..<16] = s # [Suc s..<16]" using s by (simp add: upt_rec)
  have "before trk (cur st) (js @ sector_cells volume (of_nat t) (of_nat s) nbuf @ track_cells junk disk p2l t volume [Suc s..<16])"
    using Suc.prems(1) unfolding upt by (simp add: track_cells_def nbuf_def)
  from loop_sector [OF this _ Suc.prems(2) s nbuf(1,2)] obtain c' where
    c': "decode_loop trk t p2l st = decode_loop trk t p2l (restart c' (store_sector t p2l s (disk ! t ! (p2l ! s)) st))"
    "before trk c' ((data_cells [0xDE, 0xAA, 0xEB] @ sync_cells GAP_C_SIZE) @ track_cells junk disk p2l t volume [Suc s..<16])"
    using Suc.prems(4) s by (auto simp: nbuf(3) track_sizes)
  let ?st = "restart c' (store_sector t p2l s (disk ! t ! (p2l ! s)) st)"
  have fresh: "s < length (found st)" "\<not> found st ! s"
    using Suc.prems(5) s by (simp_all add: nth_append)
  have found: "found ?st = replicate (Suc s) True @ replicate (16 - Suc s) False"
  proof -
    have "replicate (16 - s) False = False # replicate (16 - Suc s) False"
      using s by (simp add: Suc_diff_Suc flip: replicate_Suc)
    then show ?thesis
      by (simp add: store_fresh [OF fresh] Suc.prems(5) list_update_append replicate_append_same)
  qed
  have "\<exists>st'. decode_loop trk t p2l ?st = Some st' \<and> found_count st' = 16 \<and> out_sectors st' =
      (out_sectors ?st)[t := fold (\<lambda>i row. row[p2l ! i := disk ! t ! (p2l ! i)]) [Suc s..<16] (out_sectors ?st ! t)]"
    using Suc.hyps(2) s Suc.prems(4,6) c'(2) found
    by (intro Suc.hyps(1) [where js = "data_cells [0xDE, 0xAA, 0xEB] @ sync_cells GAP_C_SIZE"])
      (auto simp: store_fresh [OF fresh])
  then show ?case
    using c'(1) Suc.prems(6) unfolding upt by (auto simp: store_fresh [OF fresh])
qed

lemma fold_interleaved:
  assumes "interleave_ok p2l" "length row = 16" "length xs = 16"
  shows "fold (\<lambda>i row. row[p2l ! i := xs ! (p2l ! i)]) [0..<16] row = xs"
proof -
  have len: "length p2l = 16" "distinct p2l" "set p2l = {..<16}"
    using assms(1) by (simp_all add: interleave_ok_def track_sizes)
  have "fold (\<lambda>i row. row[p2l ! i := xs ! (p2l ! i)]) [0..<16] row =
      fold (\<lambda>j row. row[j := xs ! j]) (map ((!) p2l) [0..<16]) row"
    by (simp only: fold_map comp_def)
  also have "map ((!) p2l) [0..<16] = p2l"
    using len(1) map_nth [of p2l] by (simp only:)
  also have "fold (\<lambda>j row. row[j := xs ! j]) p2l row = xs"
    using assms(2,3) len by (intro nth_equalityI) (simp_all add: fold_update_nth)
  finally show ?thesis .
qed

lemma image_okD:
  assumes "image_ok disk" "t < TRACKS_PER_DISK"
  shows "length disk = 35" "length (disk ! t) = 16" "j < 16 \<Longrightarrow> length (disk ! t ! j) = 256"
proof -
  have "disk ! t \<in> set disk" using assms by (simp add: image_ok_def)
  then have "length disk = 35" "length (disk ! t) = 16" "\<forall>sec \<in> set (disk ! t). length sec = 256"
    using assms(1) by (simp_all add: image_ok_def track_sizes)
  then show "length disk = 35" "length (disk ! t) = 16" "j < 16 \<Longrightarrow> length (disk ! t ! j) = 256"
    by simp_all
qed

lemma encode_44_msb: "b \<in> set (encode_44 v) \<Longrightarrow> bit b 7"
  using decode_encode_44(2) by blast

lemma xor_chain_msb:
  assumes "six_bit v" "\<forall>w \<in> set vs. six_bit w" "b \<in> set (xor_chain v vs)"
  shows "bit b 7"
  using assms by (induction vs arbitrary: v) (auto intro: translate_62(2) six_bit_xor)

lemma sector_cells_msb:
  assumes "length nbuf = 342" "\<And>i. i < 342 \<Longrightarrow> six_bit (nbuf ! i)" "(b, k) \<in> set (sector_cells volume t s nbuf)"
  shows "bit b 7 \<and> k \<le> 2"
proof -
  have "bit b' 7" if "b' \<in> set (sector_nibbles nbuf)" for b'
    using that assms(1,2) xor_chain_msb [of 0 "map ((!) nbuf) nibble_order" b']
    by (auto simp: sector_nibbles_def nibble_order_props six_bit_0 intro: translate_62(2))
  then show ?thesis
    using assms(3) encode_44_msb
    by (auto simp: sector_cells_def address_cells_def data_field_cells_def split: if_splits)
qed

text \<open>
  A track read back: for every well-formed disk image, both sector interleaves, every track and volume number
  and whatever the encoder's uninitialised buffers hold, decoding the bit stream that the encoder built finds all
  sixteen sectors and restores every byte of the track, leaving the other tracks of the output alone.
\<close>

lemma decode_built_track:
  assumes "image_ok disk" "image_ok out" "interleave_ok p2l" "t < TRACKS_PER_DISK" "\<And>s. length (junk s) = 342"
  shows "decode_track (build_track junk disk p2l t volume) t p2l out = Some (16, out[t := disk ! t])"
proof -
  let ?trk = "build_track junk disk p2l t volume"
  let ?st = "\<lparr>cur = start_cursor, found = replicate SECTORS_PER_TRACK False, found_count = 0, n0 = 0, n1 = 0, n2 = 0,
    out_sectors = out\<rparr>"
  have sec: "length (disk ! t) = 16" "length (out ! t) = 16" "\<And>i. i < 16 \<Longrightarrow> length (disk ! t ! (p2l ! i)) = 256"
    and len: "length out = 35"
  proof -
    have "p2l ! i < 16" if "i < 16" for i
      using that assms(3) nth_mem [of i p2l] by (auto simp: interleave_ok_def track_sizes)
    then show "\<And>i. i < 16 \<Longrightarrow> length (disk ! t ! (p2l ! i)) = 256"
      using image_okD(3) [OF assms(1,4)] by blast
  qed (use image_okD(1,2) [OF assms(1,4)] image_okD(1,2) [OF assms(2,4)] in simp_all)
  have "bit_count ?trk \<noteq> 0"
    using length_stream [of ?trk] by (auto simp: build_track_stream length_track_cells length_sync_cells track_sizes)
  moreover have "before ?trk start_cursor (sync_cells GAP_A_SIZE @ track_cells junk disk p2l t volume [0..<16])"
  proof -
    have "bit b 7 \<and> k \<le> 2" if "(b, k) \<in> set (track_cells junk disk p2l t volume [0..<16])" for b k
      using that assms(5) sector_cells_msb prenibble_nth(1) six_bit_prenibble unfolding track_cells_def by fastforce
    then have "\<forall>(b, k) \<in> set (sync_cells GAP_A_SIZE @ track_cells junk disk p2l t volume [0..<16]). bit b 7 \<and> k \<le> 2"
      by auto
    moreover have "ahead ?trk start_cursor = replicate 0 False @ cell_bits (sync_cells GAP_A_SIZE @ track_cells junk disk p2l t volume [0..<16])"
      by (simp add: ahead_def start_cursor_def build_track_stream track_sizes)
    ultimately show ?thesis
      unfolding before_def using build_track_stream(1) by (auto simp: start_cursor_def intro!: exI [of _ 0])
  qed
  then have "\<exists>st'. decode_loop ?trk t p2l ?st = Some st' \<and> found_count st' = 16 \<and> out_sectors st' =
      (out_sectors ?st)[t := fold (\<lambda>i row. row[p2l ! i := disk ! t ! (p2l ! i)]) [0..<16] (out_sectors ?st ! t)]"
    using assms(4,5) sec(3) len by (intro loop_sectors [where js = "sync_cells GAP_A_SIZE"]) (auto simp: track_sizes)
  then have "\<exists>st'. decode_loop ?trk t p2l ?st = Some st' \<and> found_count st' = 16 \<and> out_sectors st' = out[t := disk ! t]"
    using fold_interleaved [OF assms(3) sec(2,1)] by simp
  ultimately show ?thesis
    by (auto simp: decode_track_def)
qed

section \<open>When decoding returns\<close>

lemma read_payload_ends:
  assumes "readable trk"
  shows "\<exists>csum' nbuf' m. read_payload trk is csum nbuf c = Some (csum', nbuf', advance m c) \<and> m \<le> length is * nibble_bound"
proof (induction "is" arbitrary: csum nbuf c)
  case Nil
  have "read_payload trk [] csum nbuf c = Some (csum, nbuf, advance 0 c)" by simp
  then show ?case by fastforce
next
  case (Cons i "is")
  obtain b m where b: "read_nibble trk c = Some (b, advance m c)" "m \<le> nibble_bound"
    using read_nibble_ends [OF assms(1), of c] by (auto simp: ends_def)
  let ?v = "csum XOR woz_denibble_table ! unat b"
  obtain csum' nbuf' k where "read_payload trk is ?v (nbuf[i := ?v]) (advance m c) = Some (csum', nbuf', advance k (advance m c))"
    "k \<le> length is * nibble_bound"
    using Cons.IH by blast
  then show ?case
    using b by (auto simp: Let_def intro!: exI [of _ "m + k"])
qed

lemma decode_address_field_ends:
  assumes "readable trk" "unat (consumed c) < 2 ^ 35"
  shows "\<exists>st' m. decode_address_field trk t p2l st c = Some st' \<and> cur st' = advance m c \<and> m < 2 ^ 50"
proof -
  obtain e m2 where 2: "read_nibbles 8 trk c = Some (e, advance m2 c)" "m2 \<le> 8 * nibble_bound"
    using read_nibbles_ends [OF assms(1), of 8 c] by (auto simp: ends_def)
  let ?c2 = "advance m2 c"
  obtain e' m3 where 3: "read_nibbles 3 trk ?c2 = Some (e', advance m3 ?c2)" "m3 \<le> 3 * nibble_bound"
    using read_nibbles_ends [OF assms(1), of 3 ?c2] by (auto simp: ends_def)
  let ?c3 = "advance m3 ?c2"
  have "unat (consumed ?c3) = unat (consumed c) + (m2 + m3)"
    using unat_consumed_advance [of c "m2 + m3"] assms(2) 2(2) 3(2) by (simp add: nibble_bound_def add.assoc)
  then have c3: "unat (consumed ?c3) < 2 ^ 40"
    using assms(2) 2(2) 3(2) by (simp add: nibble_bound_def)
  then have limit: "unat (consumed ?c3 + 64 * 8) = unat (consumed ?c3) + 512"
    by (simp add: unat_word_ariths)
  with c3 obtain got m4 where 4: "hunt_prologue trk (consumed ?c3 + 64 * 8) 0 0 ?c3 = Some (got, advance m4 ?c3)"
    "m4 \<le> 512 * nibble_bound"
    using hunt_ends [OF assms(1), of "consumed ?c3 + 64 * 8" 0 0 ?c3] by auto
  let ?c4 = "advance m4 ?c3"
  obtain csum nbuf m5 where 5: "read_payload trk nibble_order 0 (replicate 342 0) ?c4 = Some (csum, nbuf, advance m5 ?c4)"
    "m5 \<le> 342 * nibble_bound"
    using read_payload_ends [OF assms(1), of nibble_order] by fastforce
  let ?c5 = "advance m5 ?c4"
  obtain w m6 where 6: "read_nibble trk ?c5 = Some (w, advance m6 ?c5)" "m6 \<le> nibble_bound"
    using read_nibble_ends [OF assms(1), of ?c5] by (auto simp: ends_def)
  have "m2 + m3 + m4 + m5 + m6 < 2 ^ 50"
    using 2(2) 3(2) 4(2) 5(2) 6(2) by (simp add: nibble_bound_def)
  then show ?thesis
    using 2(1) 3(1) 4(1) 5(1) 6(1)
    by (auto simp: decode_address_field_def decode_data_field_def Let_def add.assoc intro: exI)
qed

interpretation ends_525: bounded_scan "\<lambda>trk. decode_loop trk t p2l" SECTORS_PER_TRACK "\<lambda>trk. decode_address_field trk t p2l"
  for t p2l
  by unfold_locales (rule decode_address_field_ends)

text \<open>
  C31.  When decoding returns.  Decoding a well-formed track comes to an end exactly if the track is empty or has a one
  bit: on a track of zero bits the loop of \<^verbatim>\<open>read_nibble\<close> never ends, and the bound of two revolutions, which is there so
  that a corrupt track cannot loop forever, is not reached.
\<close>

theorem decode_returns_iff:
  assumes "track_ok trk"
  shows "(\<exists>r. decode_track trk t p2l out = Some r) \<longleftrightarrow> bit_count trk = 0 \<or> True \<in> set (stream trk)"
proof (cases "bit_count trk = 0")
  case False
  let ?st = "\<lparr>cur = start_cursor, found = replicate SECTORS_PER_TRACK False, found_count = 0, n0 = 0, n1 = 0, n2 = 0,
    out_sectors = out\<rparr>"
  have "(\<exists>st'. decode_loop trk t p2l ?st = Some st') \<longleftrightarrow> True \<in> set (stream trk)"
    using False by (intro ends_525.returns_iff [OF assms]) (simp_all add: track_sizes start_cursor_def)
  then show ?thesis
    using False by (auto simp: decode_track_def bind_eq_Some_conv)
qed (simp add: decode_track_def)

theorem decode_returns_iff_witness:
  "decode_track \<lparr>bits = [0, 0], bit_count = 16\<rparr> 0 po_phys_to_logical [] = None"
proof -
  have "track_ok \<lparr>bits = [0, 0], bit_count = 16\<rparr>" "True \<notin> set (stream \<lparr>bits = [0, 0], bit_count = 16\<rparr>)"
    by (simp_all add: track_ok_def stream_def upt_rec stored_bit_def)
  then show ?thesis
    using decode_returns_iff [of "\<lparr>bits = [0, 0], bit_count = 16\<rparr>" 0 po_phys_to_logical "[]"]
    by (cases "decode_track \<lparr>bits = [0, 0], bit_count = 16\<rparr> 0 po_phys_to_logical []") auto
qed

end
