(* ===== verification/Woz_35_Track.thy ===== *)
theory Woz_35_Track
  imports Woz_35 Woz_Track
begin

text \<open>
  A 3.5 inch track (\<^verbatim>\<open>src/util/woz_nibblizer_35.cpp\<close>): the zones of the disk, address and data fields, \<open>build_track\<close> and
  \<open>decode_track\<close>.  The main loop is an instance of \<open>address_scan\<close>.  \<^const>\<open>None\<close> also stands for an access outside the
  tables and arrays of the decoder, which it does not guard against.
\<close>

section \<open>Writing a track\<close>

definition GAP_A_SIZE_35 :: nat where "GAP_A_SIZE_35 = 148"
definition GAP_B_SIZE_35 :: nat where "GAP_B_SIZE_35 = 5"
definition GAP_C_SIZE_35 :: nat where "GAP_C_SIZE_35 = 54"
definition TRACKS_PER_DISK_35 :: nat where "TRACKS_PER_DISK_35 = 80"
definition SECTORS_PER_DISK :: nat where "SECTORS_PER_DISK = 1600"
definition SECTOR_SIZE_35 :: nat where "SECTOR_SIZE_35 = 512"

lemmas sizes_35 = GAP_A_SIZE_35_def GAP_B_SIZE_35_def GAP_C_SIZE_35_def TRACKS_PER_DISK_35_def SECTORS_PER_DISK_def
  SECTOR_SIZE_35_def

definition sectorsPerZone :: "nat list" where
  "sectorsPerZone = [12, 11, 10, 9, 8]"

definition zoneOffset :: "nat list" where
  "zoneOffset = [0, 192 * 2, 368 * 2, 528 * 2, 672 * 2]"

definition calculateSectorOffset :: "nat \<Rightarrow> nat \<Rightarrow> nat \<Rightarrow> nat" where
  "calculateSectorOffset track sector side =
     (let zone = track div 16; zoneTrackIndex = track mod 16
      in zoneOffset ! zone + (zoneTrackIndex * 2 + side) * (sectorsPerZone ! zone) + sector)"

definition i_logical_to_phys :: "nat list list" where
  "i_logical_to_phys = [
     [0, 3, 6, 9, 1, 4, 7, 10, 2, 5, 8, 11],
     [0, 3, 6, 9, 1, 4, 7, 10, 2, 5, 8],
     [0, 5, 3, 8, 1, 6, 4, 9, 2, 7],
     [0, 7, 5, 3, 1, 8, 6, 4, 2],
     [0, 2, 4, 6, 1, 3, 5, 7]]"

definition emit_nibblized_sector_35 :: "u8 list \<Rightarrow> woz_track_t \<Rightarrow> woz_track_t" where
  "emit_nibblized_sector_35 inp trk =
     (let nbuf = EncodeSector62_524 inp in fold (\<lambda>i. emit_data_byte (nbuf ! i)) [0..<703] trk)"

definition emit_data_field_35 :: "u8 list \<Rightarrow> nat \<Rightarrow> woz_track_t \<Rightarrow> woz_track_t" where
  "emit_data_field_35 inp sector_num trk =
     (let trk = emit_data_byte 0xD5 trk;
          trk = emit_data_byte 0xAA trk;
          trk = emit_data_byte 0xAD trk;
          trk = emit_data_byte (disk_byte (of_nat sector_num)) trk;
          trk = emit_nibblized_sector_35 inp trk;
          trk = emit_data_byte 0xDE trk;
          trk = emit_data_byte 0xAA trk
      in emit_data_byte 0xFF trk)"

definition side_byte :: "nat \<Rightarrow> nat \<Rightarrow> u8" where
  "side_byte track_num side = (if side = 0 then 0 else 0x20) OR drop_bit 6 (of_nat track_num AND 0x40)"

definition emit_address_field_35 :: "nat \<Rightarrow> nat \<Rightarrow> nat \<Rightarrow> woz_track_t \<Rightarrow> woz_track_t" where
  "emit_address_field_35 track_num side sector_num trk =
     (let trk = emit_data_byte 0xD5 trk;
          trk = emit_data_byte 0xAA trk;
          trk = emit_data_byte 0x96 trk;
          low_part_of_track_number = of_nat track_num AND 0x3F;
          sector_number = of_nat sector_num;
          side_number = side_byte track_num side;
          format = 0x24;
          address_checksum = (low_part_of_track_number XOR sector_number XOR side_number XOR format) AND 0x3F;
          trk = emit_data_byte (disk_byte low_part_of_track_number) trk;
          trk = emit_data_byte (disk_byte sector_number) trk;
          trk = emit_data_byte (disk_byte side_number) trk;
          trk = emit_data_byte (disk_byte format) trk;
          trk = emit_data_byte (disk_byte address_checksum) trk;
          trk = emit_data_byte 0xDE trk;
          trk = emit_data_byte 0xAA trk
      in emit_data_byte 0xFF trk)"

definition emit_sector_35 :: "u8 list \<Rightarrow> nat \<Rightarrow> nat \<Rightarrow> nat \<Rightarrow> woz_track_t \<Rightarrow> woz_track_t" where
  "emit_sector_35 inp track_num side sector_num trk =
     (let ondisk = replicate 12 0 @ inp;
          trk = emit_address_field_35 track_num side sector_num trk;
          trk = emit_sync_bytes GAP_B_SIZE_35 trk;
          trk = emit_data_field_35 ondisk sector_num trk
      in emit_sync_bytes GAP_C_SIZE_35 trk)"

definition build_track_35 :: "u8 list list \<Rightarrow> nat list \<Rightarrow> nat \<Rightarrow> nat \<Rightarrow> woz_track_t" where
  "build_track_35 disk_image phys_to_logical track_num side =
     (let trk = emit_sync_bytes GAP_A_SIZE_35 empty_track;
          sectors = sectorsPerZone ! (track_num div 16)
      in fold (\<lambda>s. let logical = phys_to_logical ! s; index = calculateSectorOffset track_num logical side
                   in emit_sector_35 (disk_image ! index) track_num side logical)
           [0..<sectors] trk)"

section \<open>Reading a track\<close>

record decode_state_35 = scan_state +
  out_35 :: "u8 list list"

text \<open>The sector that the address field names.  The address is not checked against the tables: a track number of 80 or
  more reads past \<^verbatim>\<open>zoneOffset\<close>, a sector number of 12 or more indexes past \<^verbatim>\<open>found\<close>.\<close>

definition store_sector_35 :: "nat \<Rightarrow> nat \<Rightarrow> nat \<Rightarrow> u8 list \<Rightarrow> decode_state_35 \<Rightarrow> decode_state_35 option" where
  "store_sector_35 track_num sector side_num decoded st =
     (if track_num div 16 \<ge> length zoneOffset then None
      else let logical = calculateSectorOffset track_num sector side_num in
        if logical \<ge> SECTORS_PER_DISK \<or> sector \<ge> length (found st) then None
        else let st = st\<lparr>out_35 := (out_35 st)[logical := take SECTOR_SIZE_35 (drop 12 decoded)]\<rparr>
             in Some (if \<not> found st ! sector
                      then st\<lparr>found := (found st)[sector := True], found_count := found_count st + 1\<rparr> else st))"

definition decode_data_field_35 ::
    "woz_track_t \<Rightarrow> nat \<Rightarrow> nat \<Rightarrow> nat \<Rightarrow> decode_state_35 \<Rightarrow> bit_cursor \<Rightarrow> decode_state_35 option" where
  "decode_data_field_35 trk track_num sector side_num st c = do {
     (_, c) \<leftarrow> read_nibbles 3 trk c;
     (got_prologue, c) \<leftarrow> hunt_prologue trk (consumed c + 64 * 8) 0 0 c;
     if \<not> got_prologue then Some (restart c st)
     else do {
       (_, c) \<leftarrow> read_nibble trk c;
       (nbuf, c) \<leftarrow> read_nibbles 703 trk c;
       case DecodeSector62_524 nbuf of
         None \<Rightarrow> Some (restart c st)
       | Some decoded \<Rightarrow> map_option (restart c) (store_sector_35 track_num sector side_num decoded st)
     }
   }"

definition decode_address_field_35 :: "woz_track_t \<Rightarrow> decode_state_35 \<Rightarrow> bit_cursor \<Rightarrow> decode_state_35 option" where
  "decode_address_field_35 trk st c = do {
     (e, c) \<leftarrow> read_nibbles 5 trk c;
     let track_low = sInvDiskBytes62 ! unat (e ! 0) AND 0x3F;
     let sector = sInvDiskBytes62 ! unat (e ! 1) AND 0x3F;
     let side = sInvDiskBytes62 ! unat (e ! 2) AND 0x3F;
     let format = sInvDiskBytes62 ! unat (e ! 3) AND 0x3F;
     let checksum = sInvDiskBytes62 ! unat (e ! 4) AND 0x3F;
     let track_num = unat (track_low OR push_bit 6 (side AND 1));
     let side_num = unat (drop_bit 5 side AND 1);
     if checksum \<noteq> track_low XOR sector XOR side XOR format then Some (restart c st)
     else decode_data_field_35 trk track_num (unat sector) side_num st c
   }"

definition decode_round_35 :: "woz_track_t \<Rightarrow> decode_state_35 \<Rightarrow> decode_state_35 option" where
  "decode_round_35 trk st = do {
     (n, c) \<leftarrow> read_nibble trk (cur st);
     let st = slide c n st;
     if \<not> (n2 st = 0xD5 \<and> n1 st = 0xAA \<and> n0 st = 0x96) then Some st
     else decode_address_field_35 trk st c
   }"

definition decode_loop_35 :: "woz_track_t \<Rightarrow> nat \<Rightarrow> decode_state_35 \<Rightarrow> decode_state_35 option" where
  "decode_loop_35 trk sectors_this_track = scan_loop (decode_round_35 trk) sectors_this_track trk"

definition decode_track_35 :: "woz_track_t \<Rightarrow> nat \<Rightarrow> u8 list list \<Rightarrow> (bool \<times> u8 list list) option" where
  "decode_track_35 trk track_num out =
     (if bit_count trk = 0 then Some (False, out)
      else let sectors_this_track = sectorsPerZone ! (track_num div 16) in do {
        st \<leftarrow> decode_loop_35 trk sectors_this_track
          \<lparr>cur = start_cursor, found = replicate 12 False, found_count = 0, n0 = 0, n1 = 0, n2 = 0, out_35 = out\<rparr>;
        Some (found_count st = sectors_this_track, out_35 st)
      })"

section \<open>The cells of a track\<close>

definition address_values :: "nat \<Rightarrow> nat \<Rightarrow> nat \<Rightarrow> u8 list" where
  "address_values t side s = [of_nat t AND 0x3F, of_nat s, side_byte t side, 0x24,
     (of_nat t AND 0x3F XOR of_nat s XOR side_byte t side XOR 0x24) AND 0x3F]"

definition sector_cells_35 :: "u8 list \<Rightarrow> nat \<Rightarrow> nat \<Rightarrow> nat \<Rightarrow> cell list" where
  "sector_cells_35 inp t side s =
     data_cells ([0xD5, 0xAA, 0x96] @ map disk_byte (address_values t side s) @ [0xDE, 0xAA, 0xFF]) @ sync_cells GAP_B_SIZE_35 @
     data_cells ([0xD5, 0xAA, 0xAD, disk_byte (of_nat s)] @ EncodeSector62_524 (replicate 12 0 @ inp) @ [0xDE, 0xAA, 0xFF]) @
     sync_cells GAP_C_SIZE_35"

lemma emits_data_bytes: "emits (fold emit_data_byte bs) (cell_bits (data_cells bs))"
  using emits_fold [where f = emit_data_byte and g = "\<lambda>b. cell_bits [(b, 0)]" and xs = bs, OF emits_data_byte]
  by (simp add: cell_bits_def comp_def)

lemma emits_nibblized_sector_35:
  assumes "length inp = 524"
  shows "emits (emit_nibblized_sector_35 inp) (cell_bits (data_cells (EncodeSector62_524 inp)))"
proof -
  have "fold (\<lambda>i. emit_data_byte (EncodeSector62_524 inp ! i)) [0..<703] =
      fold emit_data_byte (map ((!) (EncodeSector62_524 inp)) [0..<703])"
    by (simp add: fold_map comp_def)
  also have "map ((!) (EncodeSector62_524 inp)) [0..<703] = EncodeSector62_524 inp"
    using map_nth [of "EncodeSector62_524 inp"] sector_524_roundtrip(2) [OF assms] by simp
  finally show ?thesis
    using emits_data_bytes [of "EncodeSector62_524 inp"] by (simp add: emit_nibblized_sector_35_def [abs_def] Let_def)
qed

lemma emits_address_field_35:
  "emits (emit_address_field_35 t side s)
     (cell_bits (data_cells ([0xD5, 0xAA, 0x96] @ map disk_byte (address_values t side s) @ [0xDE, 0xAA, 0xFF])))"
  using emits_data_bytes [of "[0xD5, 0xAA, 0x96] @ map disk_byte (address_values t side s) @ [0xDE, 0xAA, 0xFF]"]
  by (simp add: emit_address_field_35_def [abs_def] address_values_def Let_def comp_def)

lemma emits_data_field_35:
  assumes "length inp = 524"
  shows "emits (emit_data_field_35 inp s)
     (cell_bits (data_cells ([0xD5, 0xAA, 0xAD, disk_byte (of_nat s)] @ EncodeSector62_524 inp @ [0xDE, 0xAA, 0xFF])))"
  using emits_then [OF emits_then [OF emits_data_bytes [of "[0xD5, 0xAA, 0xAD, disk_byte (of_nat s)]"]
        emits_nibblized_sector_35 [OF assms]] emits_data_bytes [of "[0xDE, 0xAA, 0xFF]"]]
  by (simp add: emit_data_field_35_def [abs_def] Let_def)

lemma emits_sector_35:
  assumes "length inp = 512"
  shows "emits (emit_sector_35 inp t side s) (cell_bits (sector_cells_35 inp t side s))"
proof -
  have "length (replicate 12 0 @ inp :: u8 list) = 524" using assms by simp
  from emits_then [OF emits_then [OF emits_then [OF emits_address_field_35 emits_sync_bytes] emits_data_field_35 [OF this]]
      emits_sync_bytes]
  show ?thesis
    unfolding emit_sector_35_def [abs_def] Let_def sector_cells_35_def by (simp only: cell_bits_simps(3) append_assoc)
qed

lemma length_sector_cells_35: "length inp = 512 \<Longrightarrow> length (cell_bits (sector_cells_35 inp t side s)) = 6358"
  by (simp add: sector_cells_35_def length_data_cells length_sync_cells sector_524_roundtrip address_values_def sizes_35)

definition track_cells_35 :: "u8 list list \<Rightarrow> nat \<Rightarrow> nat \<Rightarrow> nat list \<Rightarrow> cell list" where
  "track_cells_35 disk t side ls =
     concat (map (\<lambda>l. sector_cells_35 (disk ! calculateSectorOffset t l side) t side l) ls)"

lemma track_cells_35_simps [simp]:
  "track_cells_35 disk t side [] = []"
  "track_cells_35 disk t side (l # ls) =
     sector_cells_35 (disk ! calculateSectorOffset t l side) t side l @ track_cells_35 disk t side ls"
  by (simp_all add: track_cells_35_def)

lemma emits_track_35:
  assumes "\<And>l. l \<in> set ls \<Longrightarrow> length (disk ! calculateSectorOffset t l side) = 512"
  shows "emits (fold (\<lambda>l. emit_sector_35 (disk ! calculateSectorOffset t l side) t side l) ls)
    (cell_bits (track_cells_35 disk t side ls))"
  using assms
proof (induction ls)
  case Nil
  then show ?case by (simp add: id_def emits_nothing)
next
  case (Cons l ls)
  then show ?case
    using emits_then [OF emits_sector_35 [of "disk ! calculateSectorOffset t l side" t side l] Cons.IH] by (simp add: comp_def)
qed

lemma length_track_cells_35:
  assumes "\<And>l. l \<in> set ls \<Longrightarrow> length (disk ! calculateSectorOffset t l side) = 512"
  shows "length (cell_bits (track_cells_35 disk t side ls)) = 6358 * length ls"
  using assms by (induction ls) (simp_all add: length_sector_cells_35)

lemma build_track_35_stream:
  assumes "\<And>l. l \<in> set ls \<Longrightarrow> length (disk ! calculateSectorOffset t l side) = 512"
    and "length ls = sectorsPerZone ! (t div 16)" "length ls \<le> 12"
  shows "track_ok (build_track_35 disk ls t side)"
    "stream (build_track_35 disk ls t side) = cell_bits (sync_cells GAP_A_SIZE_35 @ track_cells_35 disk t side ls)"
proof -
  let ?f = "\<lambda>l. emit_sector_35 (disk ! calculateSectorOffset t l side) t side l"
  let ?xs = "cell_bits (sync_cells GAP_A_SIZE_35) @ cell_bits (track_cells_35 disk t side ls)"
  have "fold ?f ls = fold (\<lambda>s. ?f (ls ! s)) [0..<length ls]"
    using fold_map [of ?f "(!) ls" "[0..<length ls]"] by (simp add: map_nth comp_def)
  then have build: "build_track_35 disk ls t side = fold ?f ls (emit_sync_bytes GAP_A_SIZE_35 empty_track)"
    by (simp add: build_track_35_def Let_def assms(2))
  have "emits (\<lambda>trk. fold ?f ls (emit_sync_bytes GAP_A_SIZE_35 trk)) ?xs"
    by (rule emits_then [OF emits_sync_bytes emits_track_35 [OF assms(1)]])
  moreover have "unat (bit_count empty_track) + length ?xs < 2 ^ 32"
    using length_track_cells_35 [OF assms(1)] assms(3) by (simp add: length_sync_cells sizes_35 empty_track_def)
  ultimately show "track_ok (build_track_35 disk ls t side)"
    "stream (build_track_35 disk ls t side) = cell_bits (sync_cells GAP_A_SIZE_35 @ track_cells_35 disk t side ls)"
    unfolding build using emitsD track_ok_empty by fastforce+
qed

section \<open>Reading a sector\<close>

lemma sInv_disk_byte: "six_bit v \<Longrightarrow> sInvDiskBytes62 ! unat (disk_byte v) AND 0x3F = v"
proof -
  assume "six_bit v"
  then have "sInvDiskBytes62 ! unat (disk_byte v) = v"
    using disk_byte(1) [of v] by (auto simp: inverse_byte_def Let_def split: if_splits)
  moreover have "v AND 0x3F = take_bit 6 v" by (simp add: take_bit_eq_mask mask_eq_exp_minus_1)
  ultimately show ?thesis using \<open>six_bit v\<close> by (simp add: six_bit_def)
qed

lemma six_bit_format: "six_bit 0x24"
  by (simp add: six_bit_def)

lemma six_bit_of_nat: "n < 64 \<Longrightarrow> six_bit (of_nat n)"
  unfolding six_bit_def by (rule word_unat_eq_iff [THEN iffD2]) (simp add: unsigned_take_bit_eq unat_of_nat take_bit_nat_eq_self)

lemma bit_side_byte: "n < 8 \<Longrightarrow> bit (side_byte t side) n = (n = 5 \<and> side \<noteq> 0 \<or> n = 0 \<and> bit (of_nat t :: u8) 6)"
  using byte_bit_cases [of n] unfolding side_byte_def bit_or_iff bit_drop_bit_eq by (auto simp: bit_simps)

lemma six_bit_side_byte: "six_bit (side_byte t side)"
  unfolding six_bit_def by (rule bit_word_eqI) (auto simp: bit_take_bit_iff bit_side_byte)

lemma track_of_address:
  assumes "t < 128"
  shows "unat ((of_nat t AND 0x3F :: u8) OR push_bit 6 (side_byte t side AND 1)) = t"
proof -
  have "take_bit 7 (of_nat t :: u8) = of_nat t"
    using assms by (intro word_unat_eq_iff [THEN iffD2]) (simp add: unsigned_take_bit_eq unat_of_nat take_bit_nat_eq_self)
  then have seven: "\<not> bit (of_nat t :: u8) 7"
    by (metis bit_take_bit_iff less_irrefl)
  have "(of_nat t AND 0x3F :: u8) OR push_bit 6 (side_byte t side AND 1) = of_nat t"
  proof (rule bit_word_eqI)
    fix n assume "n < LENGTH(8)"
    with byte_bit_cases [of n] show "bit ((of_nat t AND 0x3F :: u8) OR push_bit 6 (side_byte t side AND 1)) n = bit (of_nat t :: u8) n"
      unfolding bit_or_iff bit_push_bit_iff bit_and_iff using seven by (auto simp: bit_side_byte bit_simps)
  qed
  then show ?thesis using assms by (simp add: unat_of_nat)
qed

lemma side_of_address: "unat (drop_bit 5 (side_byte t side) AND 1) = (if side = 0 then 0 else 1)"
proof -
  have "drop_bit 5 (side_byte t side) AND 1 = (if side = 0 then 0 else 1)"
  proof (rule bit_word_eqI)
    fix n assume "n < LENGTH(8)"
    with byte_bit_cases [of n] show "bit (drop_bit 5 (side_byte t side) AND 1) n = bit (if side = 0 then 0 else 1 :: u8) n"
      unfolding bit_and_iff bit_drop_bit_eq by (auto simp: bit_side_byte bit_simps)
  qed
  then show ?thesis by simp
qed

lemma decode_data_field_35_cells:
  assumes "before trk c (data_cells [0xDE, 0xAA, 0xFF] @ sync_cells GAP_B_SIZE_35 @
      data_cells ([0xD5, 0xAA, 0xAD, b] @ EncodeSector62_524 buf @ [0xDE, 0xAA, 0xFF]) @ cs)" "length buf = 524"
  shows "\<exists>c'. decode_data_field_35 trk t s side st c = map_option (restart c') (store_sector_35 t s side buf st) \<and>
    before trk c' (data_cells [0xDE, 0xAA, 0xFF] @ cs)"
proof -
  let ?rest = "data_cells [0xDE, 0xAA, 0xFF] @ cs"
  have "before trk c (data_cells [0xDE, 0xAA, 0xFF] @ sync_cells 5 @ (0xD5, 0) # (0xAA, 0) # (0xAD, 0) #
      (b, 0) # data_cells (EncodeSector62_524 buf) @ ?rest)"
    using assms(1) by (simp add: sizes_35)
  from skip_to_data [OF this] obtain c1 c2 where c1: "read_nibbles 3 trk c = Some ([0xDE, 0xAA, 0xFF], c1)"
    and c2: "hunt_prologue trk (consumed c1 + 64 * 8) 0 0 c1 = Some (True, c2)"
      "before trk c2 ((b, 0) # data_cells (EncodeSector62_524 buf) @ ?rest)"
    by blast
  obtain c3 where c3: "read_nibble trk c2 = Some (b, c3)" "before trk c3 (data_cells (EncodeSector62_524 buf) @ ?rest)"
    using before_read [OF c2(2)] by blast
  obtain c4 where c4: "read_nibbles 703 trk c3 = Some (EncodeSector62_524 buf, c4)" "before trk c4 ?rest"
    using before_read_nibbles [OF c3(2)] sector_524_roundtrip(2) [OF assms(2)] by metis
  show ?thesis
    using c4(2) by (auto simp: decode_data_field_35_def c1 c2(1) [simplified] c3(1) c4(1) sector_524_roundtrip(1) [OF assms(2)])
qed

lemma decode_address_cells_35:
  assumes "before trk c (data_cells (map disk_byte (address_values t side s)) @ cs)" "t < 128" "s < 64" "side < 2"
  shows "\<exists>c'. decode_address_field_35 trk st c = decode_data_field_35 trk t s side st c' \<and> before trk c' cs"
proof -
  have six: "\<forall>v \<in> set (address_values t side s). six_bit v"
    using assms(3) by (auto simp: address_values_def six_bit_of_nat six_bit_side_byte six_bit_format)
  have len: "length (map disk_byte (address_values t side s)) = 5" by (simp add: address_values_def)
  obtain c1 where c1: "read_nibbles 5 trk c = Some (map disk_byte (address_values t side s), c1)" "before trk c1 cs"
    by (rule before_read_nibbles [OF assms(1), unfolded len])
  have "(of_nat t AND 0x3F XOR of_nat s XOR side_byte t side XOR 0x24) AND 0x3F =
      of_nat t AND 0x3F XOR of_nat s XOR side_byte t side XOR (0x24 :: u8)"
  proof -
    have "six_bit (of_nat t AND 0x3F XOR of_nat s XOR side_byte t side XOR (0x24 :: u8))"
      using assms(3) by (intro six_bit_xor six_bit_low six_bit_side_byte six_bit_of_nat) (simp_all add: six_bit_format)
    moreover have "v AND 0x3F = take_bit 6 v" for v :: u8 by (simp add: take_bit_eq_mask mask_eq_exp_minus_1)
    ultimately show ?thesis by (simp add: six_bit_def)
  qed
  moreover have "unat (of_nat s :: u8) = s" using assms(3) by (simp add: unat_of_nat)
  moreover have "(if side = 0 then 0 else 1) = side" using assms(4) by simp
  ultimately show ?thesis
    using c1 six track_of_address [OF assms(2), of side] side_of_address [of t side]
    by (auto simp: decode_address_field_35_def Let_def address_values_def sInv_disk_byte)
qed

section \<open>The main loop\<close>

lemma out_35_simps [simp]:
  "out_35 (slide c n st) = out_35 st" "out_35 (restart c st) = out_35 st"
  by (simp_all add: slide_def restart_def)

lemma store_sector_35_slide:
  "store_sector_35 t s side d (slide c n st) = map_option (slide c n) (store_sector_35 t s side d st)"
  by (simp add: store_sector_35_def slide_def Let_def)

interpretation scan_35: address_scan "\<lambda>trk. decode_loop_35 trk sectors" sectors decode_address_field_35
  for sectors
proof
  show "decode_loop_35 trk sectors st = (if found_count st < sectors \<and> consumed (cur st) < ucast (bit_count trk) * 2
      then do {
        (n, c) \<leftarrow> read_nibble trk (cur st);
        let st' = slide c n st;
        st'' \<leftarrow> (if \<not> (n2 st' = 0xD5 \<and> n1 st' = 0xAA \<and> n0 st' = 0x96) then Some st' else decode_address_field_35 trk st' c);
        decode_loop_35 trk sectors st''
      } else Some st)" for trk st
    unfolding decode_loop_35_def by (subst scan_loop.simps) (simp add: decode_round_35_def Let_def split: Option.bind_split)
  show "decode_address_field_35 trk (slide c n st) c' = decode_address_field_35 trk st c'" for trk c n st c'
    by (simp add: decode_address_field_35_def decode_data_field_35_def Let_def store_sector_35_slide option.map_comp comp_def
        cong: if_cong option.case_cong)
qed

lemma loop_sector_35:
  assumes "before trk (cur st) (js @ sector_cells_35 inp t side s @ cs)"
    and "found_count st < sectors" "\<forall>(b, k) \<in> set js. b \<noteq> 0x96" "t < 128" "s < 64" "side < 2" "length inp = 512"
  shows "\<exists>c'. decode_loop_35 trk sectors st =
      map_option (restart c') (store_sector_35 t s side (replicate 12 0 @ inp) st) \<bind> decode_loop_35 trk sectors \<and>
    before trk c' ((data_cells [0xDE, 0xAA, 0xFF] @ sync_cells GAP_C_SIZE_35) @ cs)"
proof -
  let ?data = "data_cells [0xDE, 0xAA, 0xFF] @ sync_cells GAP_B_SIZE_35 @
    data_cells ([0xD5, 0xAA, 0xAD, disk_byte (of_nat s)] @ EncodeSector62_524 (replicate 12 0 @ inp) @ [0xDE, 0xAA, 0xFF]) @
    sync_cells GAP_C_SIZE_35 @ cs"
  have "before trk (cur st) (js @ (0xD5, 0) # (0xAA, 0) # (0x96, 0) # data_cells (map disk_byte (address_values t side s)) @ ?data)"
    using assms(1) by (simp add: sector_cells_35_def)
  from scan_35.reaches_field [OF this assms(2,3)] obtain c1 where
    1: "decode_loop_35 trk sectors st = decode_address_field_35 trk st c1 \<bind> decode_loop_35 trk sectors"
      "before trk c1 (data_cells (map disk_byte (address_values t side s)) @ ?data)" by blast
  obtain c2 where 2: "decode_address_field_35 trk st c1 = decode_data_field_35 trk t s side st c2" "before trk c2 ?data"
    using decode_address_cells_35 [OF 1(2) assms(4-6)] by blast
  have "length (replicate 12 0 @ inp :: u8 list) = 524" using assms(7) by simp
  from decode_data_field_35_cells [OF 2(2) this, of t s side st] show ?thesis
    using 1(1) 2(1) by auto
qed

section \<open>The zones\<close>

lemma zone_cases: "t < 80 \<Longrightarrow> t div 16 \<in> {0, 1, 2, 3, 4 :: nat}"
  by auto

lemma zone_tables:
  "list_all (\<lambda>z. length (i_logical_to_phys ! z) = sectorsPerZone ! z \<and> distinct (i_logical_to_phys ! z) \<and>
     list_all (\<lambda>l. l < sectorsPerZone ! z) (i_logical_to_phys ! z) \<and> sectorsPerZone ! z \<le> 12 \<and> 0 < sectorsPerZone ! z) [0, 1, 2, 3, 4]"
  by (simp add: i_logical_to_phys_def sectorsPerZone_def)

lemma zone_table:
  assumes "t < 80"
  defines "ls \<equiv> i_logical_to_phys ! (t div 16)"
  shows "length ls = sectorsPerZone ! (t div 16)" "distinct ls" "set ls = {..<sectorsPerZone ! (t div 16)}"
    "sectorsPerZone ! (t div 16) \<le> 12" "0 < sectorsPerZone ! (t div 16)"
proof -
  have "t div 16 \<in> set [0, 1, 2, 3, 4]" using zone_cases [OF assms(1)] by simp
  then have all: "length ls = sectorsPerZone ! (t div 16)" "distinct ls" "set ls \<subseteq> {..<sectorsPerZone ! (t div 16)}"
    "sectorsPerZone ! (t div 16) \<le> 12" "0 < sectorsPerZone ! (t div 16)"
    using zone_tables unfolding ls_def list_all_iff by blast+
  then show "length ls = sectorsPerZone ! (t div 16)" "distinct ls" "sectorsPerZone ! (t div 16) \<le> 12" "0 < sectorsPerZone ! (t div 16)"
    by blast+
  show "set ls = {..<sectorsPerZone ! (t div 16)}"
    using all(1-3) by (intro card_subset_eq) (simp_all add: distinct_card)
qed

lemma sector_offset_bound:
  assumes "t < 80" "side < 2" "l < sectorsPerZone ! (t div 16)"
  shows "calculateSectorOffset t l side < 1600"
proof -
  have "t mod 16 \<le> 15" "side \<le> 1" using assms(2) by auto
  then have "(t mod 16 * 2 + side) * n + l < 32 * n" if "l < n" for n
  proof -
    have "(t mod 16 * 2 + side) * n \<le> 31 * n"
      using \<open>t mod 16 \<le> 15\<close> \<open>side \<le> 1\<close> by (intro mult_le_mono1) linarith
    then show ?thesis using that by linarith
  qed
  note this [OF assms(3)]
  then show ?thesis
    using zone_cases [OF assms(1)] by (auto simp: calculateSectorOffset_def Let_def sectorsPerZone_def zoneOffset_def)
qed

text \<open>Every block of the disk belongs to a sector of some track.\<close>

lemma sector_in_zone:
  assumes "z < 5" "k < 32 * sectorsPerZone ! z"
  shows "\<exists>t < 80. \<exists>side < 2. \<exists>l < sectorsPerZone ! (t div 16). calculateSectorOffset t l side = zoneOffset ! z + k"
proof -
  let ?n = "sectorsPerZone ! z" and ?q = "k div sectorsPerZone ! z"
  have n: "0 < ?n" using assms(2) by (cases ?n) simp_all
  have "?q < 32" using assms(2) by (simp add: less_mult_imp_div_less mult.commute)
  then have q: "?q div 2 < 16" by simp
  let ?t = "16 * z + ?q div 2"
  have t: "?t div 16 = z" "?t mod 16 = ?q div 2" using q by simp_all
  have "(?q div 2 * 2 + ?q mod 2) * ?n + k mod ?n = k"
    by (simp only: div_mult_mod_eq)
  then have "calculateSectorOffset ?t (k mod ?n) (?q mod 2) = zoneOffset ! z + k"
    unfolding calculateSectorOffset_def Let_def t by (simp only: add.assoc)
  moreover have "?t < 80" using q assms(1) by simp
  moreover have "k mod ?n < sectorsPerZone ! (?t div 16)" using n by (simp only: t(1)) simp
  moreover have "?q mod 2 < 2" by simp
  ultimately show ?thesis by blast
qed

lemma sector_of_block:
  assumes "i < 1600"
  shows "\<exists>t < 80. \<exists>side < 2. \<exists>l < sectorsPerZone ! (t div 16). calculateSectorOffset t l side = i"
proof -
  have "\<exists>z < 5. \<exists>k < 32 * sectorsPerZone ! z. i = zoneOffset ! z + k"
  proof -
    consider "i < 384" | "384 \<le> i" "i < 736" | "736 \<le> i" "i < 1056" | "1056 \<le> i" "i < 1344" | "1344 \<le> i" by linarith
    then show ?thesis
    proof cases
      case 1 then show ?thesis by (intro exI [of _ 0] conjI exI [of _ i]) (simp_all add: sectorsPerZone_def zoneOffset_def)
    next
      case 2 then show ?thesis by (intro exI [of _ 1] conjI exI [of _ "i - 384"]) (simp_all add: sectorsPerZone_def zoneOffset_def)
    next
      case 3 then show ?thesis by (intro exI [of _ 2] conjI exI [of _ "i - 736"]) (simp_all add: sectorsPerZone_def zoneOffset_def)
    next
      case 4 then show ?thesis by (intro exI [of _ 3] conjI exI [of _ "i - 1056"]) (simp_all add: sectorsPerZone_def zoneOffset_def)
    next
      case 5 then show ?thesis
        using assms by (intro exI [of _ 4] conjI exI [of _ "i - 1344"]) (simp_all add: sectorsPerZone_def zoneOffset_def)
    qed
  qed
  then show ?thesis using sector_in_zone by blast
qed

section \<open>A track read back\<close>

lemma store_fresh_35:
  assumes "t < 80" "calculateSectorOffset t l side < 1600" "l < length (found st)" "\<not> found st ! l" "length inp = 512"
  shows "store_sector_35 t l side (replicate 12 0 @ inp) st = Some (st\<lparr>out_35 := (out_35 st)[calculateSectorOffset t l side := inp],
    found := (found st)[l := True], found_count := found_count st + 1\<rparr>)"
  using assms by (simp add: store_sector_35_def Let_def zoneOffset_def sizes_35)

lemma loop_sectors_35:
  assumes "before trk (cur st) (js @ track_cells_35 disk t side ls)" "\<forall>(b, k) \<in> set js. b \<noteq> 0x96"
    and "t < 80" "side < 2" "distinct ls"
    and "\<And>l. l \<in> set ls \<Longrightarrow> l < 12 \<and> calculateSectorOffset t l side < 1600 \<and> length (disk ! calculateSectorOffset t l side) = 512 \<and> \<not> found st ! l"
    and "length (found st) = 12" "found_count st + length ls = sectors"
  shows "\<exists>st'. decode_loop_35 trk sectors st = Some st' \<and> found_count st' = sectors \<and>
    out_35 st' = fold (\<lambda>i out. out[i := disk ! i]) (map (\<lambda>l. calculateSectorOffset t l side) ls) (out_35 st)"
  using assms(1,2,5-)
proof (induction ls arbitrary: st js)
  case Nil
  then show ?case using scan_35.stops [of st sectors trk] by simp
next
  case (Cons l ls)
  let ?i = "calculateSectorOffset t l side"
  have l: "l < 12" "?i < 1600" "length (disk ! ?i) = 512" "\<not> found st ! l"
    using Cons.prems(4) [of l] by simp_all
  from loop_sector_35 [of trk st js "disk ! ?i" t side l "track_cells_35 disk t side ls" sectors] Cons.prems(1,2,6) assms(3,4) l
  obtain c' where c': "decode_loop_35 trk sectors st =
      map_option (restart c') (store_sector_35 t l side (replicate 12 0 @ disk ! ?i) st) \<bind> decode_loop_35 trk sectors"
    "before trk c' ((data_cells [0xDE, 0xAA, 0xFF] @ sync_cells GAP_C_SIZE_35) @ track_cells_35 disk t side ls)"
    by auto
  let ?st = "restart c' (st\<lparr>out_35 := (out_35 st)[?i := disk ! ?i], found := (found st)[l := True], found_count := found_count st + 1\<rparr>)"
  have loop: "decode_loop_35 trk sectors st = decode_loop_35 trk sectors ?st"
    using c'(1) store_fresh_35 [OF assms(3) l(2) _ l(4,3)] l(1) Cons.prems(5) by simp
  have "\<exists>st'. decode_loop_35 trk sectors ?st = Some st' \<and> found_count st' = sectors \<and>
      out_35 st' = fold (\<lambda>i out. out[i := disk ! i]) (map (\<lambda>l. calculateSectorOffset t l side) ls) (out_35 ?st)"
    using c'(2) Cons.prems(3-6)
    by (intro Cons.IH [where js = "data_cells [0xDE, 0xAA, 0xFF] @ sync_cells GAP_C_SIZE_35"]) (auto simp: nth_list_update)
  then show ?case by (simp add: loop)
qed

lemma sector_cells_35_msb:
  assumes "(b, k) \<in> set (sector_cells_35 inp t side s)" "s < 64" "length inp = 512"
  shows "bit b 7 \<and> k \<le> 2"
proof -
  have "\<forall>v \<in> set (address_values t side s). six_bit v"
    using assms(2) by (auto simp: address_values_def six_bit_of_nat six_bit_side_byte six_bit_format)
  moreover have "\<forall>b \<in> set (EncodeSector62_524 (replicate 12 0 @ inp)). bit b 7"
    using assms(3) by (intro sector_524_roundtrip(3)) simp
  ultimately show ?thesis
    using assms(1,2) by (auto simp: sector_cells_35_def disk_byte(2) six_bit_of_nat split: if_splits)
qed

definition image_ok_35 :: "u8 list list \<Rightarrow> bool" where
  "image_ok_35 disk \<longleftrightarrow> length disk = 1600 \<and> (\<forall>sec \<in> set disk. length sec = 512)"

lemma before_start:
  assumes "track_ok trk" "stream trk = cell_bits cs" "\<And>b k. (b, k) \<in> set cs \<Longrightarrow> bit b 7 \<and> k \<le> 2"
  shows "before trk start_cursor cs"
proof -
  have "ahead trk start_cursor = replicate 0 False @ cell_bits cs"
    using assms(2) by (simp add: ahead_def start_cursor_def)
  then show ?thesis
    unfolding before_def using assms(1,3) by (auto simp: start_cursor_def intro!: exI [of _ 0])
qed

text \<open>
  A track side read back: for every disk, the decoder finds all sectors that the encoder put on the track and stores
  each at its place.
\<close>

lemma decode_built_track_35:
  assumes "image_ok_35 disk" "t < 80" "side < 2"
  defines "ls \<equiv> i_logical_to_phys ! (t div 16)"
  shows "decode_track_35 (build_track_35 disk ls t side) t out =
    Some (True, fold (\<lambda>i out. out[i := disk ! i]) (map (\<lambda>l. calculateSectorOffset t l side) ls) out)"
proof -
  let ?trk = "build_track_35 disk ls t side" and ?n = "sectorsPerZone ! (t div 16)"
  let ?st = "\<lparr>cur = start_cursor, found = replicate 12 False, found_count = 0, n0 = 0, n1 = 0, n2 = 0, out_35 = out\<rparr>"
  note zone = zone_table [OF assms(2), folded ls_def]
  have ls: "l < 12 \<and> calculateSectorOffset t l side < 1600 \<and> length (disk ! calculateSectorOffset t l side) = 512"
    if "l \<in> set ls" for l
  proof -
    have "calculateSectorOffset t l side < 1600"
      using that zone(3) by (intro sector_offset_bound [OF assms(2,3)]) simp
    then show ?thesis
      using that zone(3,4) assms(1) nth_mem [of "calculateSectorOffset t l side" disk] by (auto simp: image_ok_35_def)
  qed
  note stream = build_track_35_stream [of ls disk t side, OF conjunct2 [OF conjunct2 [OF ls]] zone(1)]
  have len: "length ls \<le> 12" using zone(1,4) by simp
  have "bit b 7 \<and> k \<le> 2" if "(b, k) \<in> set (sync_cells GAP_A_SIZE_35 @ track_cells_35 disk t side ls)" for b k
    using that ls sector_cells_35_msb unfolding track_cells_35_def
    by (fastforce split: if_splits)
  from before_start [OF stream(1) [OF _ len] stream(2) [OF _ len] this]
  have "before ?trk start_cursor (sync_cells GAP_A_SIZE_35 @ track_cells_35 disk t side ls)" by blast
  then have "\<exists>st'. decode_loop_35 ?trk ?n ?st = Some st' \<and> found_count st' = ?n \<and>
      out_35 st' = fold (\<lambda>i out. out[i := disk ! i]) (map (\<lambda>l. calculateSectorOffset t l side) ls) (out_35 ?st)"
    using ls zone(1,2) by (intro loop_sectors_35 [where js = "sync_cells GAP_A_SIZE_35"] assms(2,3)) auto
  moreover have "bit_count ?trk \<noteq> 0"
    using length_stream [of ?trk] stream(2) [OF _ len] by (auto simp: length_sync_cells sizes_35)
  ultimately show ?thesis
    by (auto simp: decode_track_35_def)
qed

text \<open>
  A track whose first sector has an address field with a correct checksum that names sector 12 or a later one, or track
  80 or a later one, and a readable data field, has no defined decoding: there is no check between the checksum of the
  address and the store, which indexes \<^verbatim>\<open>found\<close> by the sector and \<^verbatim>\<open>zoneOffset\<close> by the track.
\<close>

lemma decode_35_out_of_bounds:
  assumes "length inp = 512" "t < 128" "side < 2" "s < 64" "12 \<le> s \<or> 80 \<le> t" "u < 80"
  shows "decode_track_35 (emit_sector_35 inp t side s (emit_sync_bytes GAP_A_SIZE_35 empty_track)) u out = None"
proof -
  let ?trk = "emit_sector_35 inp t side s (emit_sync_bytes GAP_A_SIZE_35 empty_track)"
  let ?cells = "sync_cells GAP_A_SIZE_35 @ sector_cells_35 inp t side s"
  let ?st = "\<lparr>cur = start_cursor, found = replicate 12 False, found_count = 0, n0 = 0, n1 = 0, n2 = 0, out_35 = out\<rparr>"
  have "emits (\<lambda>trk. emit_sector_35 inp t side s (emit_sync_bytes GAP_A_SIZE_35 trk)) (cell_bits ?cells)"
    using emits_then [OF emits_sync_bytes emits_sector_35 [OF assms(1)]] by simp
  moreover have "unat (bit_count empty_track) + length (cell_bits ?cells) < 2 ^ 32"
    using length_sector_cells_35 [OF assms(1)] by (simp add: length_sync_cells sizes_35 empty_track_def)
  ultimately have trk: "track_ok ?trk" "stream ?trk = cell_bits ?cells"
    using emitsD track_ok_empty by fastforce+
  have "before ?trk start_cursor ?cells"
    using sector_cells_35_msb [OF _ assms(4,1)] by (intro before_start [OF trk]) (auto split: if_splits)
  then have "before ?trk (cur ?st) (sync_cells GAP_A_SIZE_35 @ sector_cells_35 inp t side s @ [])" by simp
  from loop_sector_35 [OF this _ _ assms(2,4,3,1), of "sectorsPerZone ! (u div 16)"] obtain c' where
    "decode_loop_35 ?trk (sectorsPerZone ! (u div 16)) ?st = map_option (restart c')
      (store_sector_35 t s side (replicate 12 0 @ inp) ?st) \<bind> decode_loop_35 ?trk (sectorsPerZone ! (u div 16))"
    using zone_table(5) [OF assms(6)] by auto
  moreover have "store_sector_35 t s side (replicate 12 0 @ inp) ?st = None"
    using assms(5) by (auto simp: store_sector_35_def Let_def zoneOffset_def)
  moreover have "bit_count ?trk \<noteq> 0"
    using length_stream [of ?trk, unfolded trk(2)] by (auto simp: length_sync_cells sizes_35)
  ultimately show ?thesis by (simp add: decode_track_35_def Let_def)
qed

end
