(* ===== verification/Woz_Disk.thy ===== *)
theory Woz_Disk
  imports Woz_Track Woz_Image
begin

text \<open>
  Whole 5.25 inch disks: import of a block or nibble file into a WOZ image and export back to the file
  (\<^verbatim>\<open>woz_nibblizer_525.cpp\<close>).
\<close>

section \<open>Import\<close>

definition TRACK_SIZE :: nat where "TRACK_SIZE = 0x1A00"

fun fread_tracks :: "nat \<Rightarrow> u8 list \<Rightarrow> (disk_image_t \<times> u8 list) option" where
  "fread_tracks 0 f = Some ([], f)"
| "fread_tracks (Suc n) f = do {
     (secs, f) \<leftarrow> fread_pieces SECTORS_PER_TRACK SECTOR_SIZE f;
     (trks, f) \<leftarrow> fread_tracks n f;
     Some (secs # trks, f)
   }"

definition load_disk_image :: "host_io \<Rightarrow> media_descriptor \<Rightarrow> files \<Rightarrow> disk_image_t option" where
  "load_disk_image io media fs = do {
     f \<leftarrow> fopen_rb io (filename media) fs;
     (disk, _) \<leftarrow> fread_tracks TRACKS_PER_DISK (drop (data_offset media) f);
     if \<not> read_ok io then None else Some disk
   }"

definition load_nib_image :: "host_io \<Rightarrow> media_descriptor \<Rightarrow> files \<Rightarrow> u8 list list option" where
  "load_nib_image io media fs = do {
     f \<leftarrow> fopen_rb io (filename media) fs;
     (trks, _) \<leftarrow> fread_pieces TRACKS_PER_DISK TRACK_SIZE (drop (data_offset media) f);
     if \<not> read_ok io then None else Some trks
   }"

definition build_track_from_nib :: "u8 list \<Rightarrow> woz_track_t" where
  "build_track_from_nib nib_data = fold emit_data_byte nib_data empty_track"

text \<open>The reset of the image and the INFO fields, the same in both imports.\<close>

definition import_reset :: "media_descriptor \<Rightarrow> woz_image_t \<Rightarrow> woz_image_t" where
  "import_reset media img = img\<lparr>
     tmap := replicate 160 0xFF, tracks := [],
     info := (info img)\<lparr>disk_type := 1,
       write_protected := (if media_write_protected media then 1 else 0), synchronized := 0, cleaned := 1,
       optimal_bit_timing := 32, boot_sector_format := 1, disk_sides := 1\<rparr>\<rparr>"

text \<open>Append a track and map the whole track and the quarter track behind it.\<close>

definition add_track :: "(nat \<Rightarrow> woz_track_t) \<Rightarrow> nat \<Rightarrow> woz_image_t \<Rightarrow> woz_image_t" where
  "add_track build t img =
     (let trk_idx = of_nat (length (tracks img));
          img = img\<lparr>tracks := tracks img @ [build t]\<rparr>;
          qt = t * 4;
          img = (if qt < 160 then img\<lparr>tmap := (tmap img)[qt := trk_idx]\<rparr> else img)
      in if qt + 1 < 160 then img\<lparr>tmap := (tmap img)[qt + 1 := trk_idx]\<rparr> else img)"

definition import_from_nib :: "host_io \<Rightarrow> woz_image_t \<Rightarrow> media_descriptor \<Rightarrow> files \<Rightarrow> int \<times> woz_image_t" where
  "import_from_nib io img media fs =
     (case load_nib_image io media fs of
        None \<Rightarrow> (-1, img)
      | Some nib \<Rightarrow>
          (0, fold (add_track (\<lambda>t. build_track_from_nib (nib ! t))) [0..<TRACKS_PER_DISK] (import_reset media img)))"

definition interleave_table :: "media_interleave_t \<Rightarrow> nat list option" where
  "interleave_table i =
     (case i of INTERLEAVE_PO \<Rightarrow> Some po_phys_to_logical | INTERLEAVE_DO \<Rightarrow> Some do_phys_to_logical | _ \<Rightarrow> None)"

text \<open>\<open>junk t s\<close> is what the encoder's uninitialised buffer holds for sector \<open>s\<close> of track \<open>t\<close>.\<close>

definition import_block_image ::
    "(nat \<Rightarrow> nat \<Rightarrow> u8 list) \<Rightarrow> host_io \<Rightarrow> woz_image_t \<Rightarrow> media_descriptor option \<Rightarrow> files \<Rightarrow> int \<times> woz_image_t" where
  "import_block_image junk io img media_ptr fs =
     (case media_ptr of
        None \<Rightarrow> (-1, img)
      | Some media \<Rightarrow>
          if media_type media = MEDIA_PRENYBBLE then import_from_nib io img media fs
          else if media_type media \<noteq> MEDIA_NYBBLE then (-1, img)
          else case load_disk_image io media fs of
            None \<Rightarrow> (-1, img)
          | Some disk_image \<Rightarrow>
              case interleave_table (interleave media) of
                None \<Rightarrow> (-1, img)
              | Some phys_to_logical \<Rightarrow>
                  (0, fold (add_track (\<lambda>t. build_track (junk t) disk_image phys_to_logical t (ucast (dos33_volume media))))
                        [0..<TRACKS_PER_DISK] (import_reset media img)))"

section \<open>Export\<close>

definition write_disk_image_po_do ::
    "host_io \<Rightarrow> media_descriptor \<Rightarrow> disk_image_t \<Rightarrow> files \<Rightarrow> int \<times> files" where
  "write_disk_image_po_do io media disk_image fs =
     (let payload = concat (map (\<lambda>t. concat (disk_image ! t)) [0..<TRACKS_PER_DISK]);
          (ok, fs') = atomic_patch io (filename media) (data_offset media) payload fs
      in if \<not> ok then (-1, fs') else (0, fs'))"

text \<open>The loop over the tracks: the number of tracks that decoded completely, and the image.\<close>

fun export_tracks ::
    "woz_image_t \<Rightarrow> nat list \<Rightarrow> nat list \<Rightarrow> nat \<times> disk_image_t \<Rightarrow> (nat \<times> disk_image_t) option" where
  "export_tracks img p2l [] r = Some r"
| "export_tracks img p2l (t # ts) r =
     (case get_track_ptr img (int t * 4) of
        None \<Rightarrow> export_tracks img p2l ts r
      | Some trk \<Rightarrow> do {
          (got, out) \<leftarrow> decode_track trk t p2l (snd r);
          export_tracks img p2l ts (if got = SECTORS_PER_TRACK then fst r + 1 else fst r, out)
        })"

definition blank_image :: disk_image_t where
  "blank_image = replicate TRACKS_PER_DISK (replicate SECTORS_PER_TRACK (replicate SECTOR_SIZE 0))"

definition export_block_image ::
    "host_io \<Rightarrow> woz_image_t \<Rightarrow> media_descriptor \<Rightarrow> files \<Rightarrow> (int \<times> files) option" where
  "export_block_image io img media fs =
     (case interleave_table (interleave media) of
        None \<Rightarrow> Some (-1, fs)
      | Some phys_to_logical \<Rightarrow> do {
          (tracks_with_full_data, out) \<leftarrow> export_tracks img phys_to_logical [0..<TRACKS_PER_DISK] (0, blank_image);
          if tracks_with_full_data \<noteq> TRACKS_PER_DISK then Some (EXPORT_LOSSY, fs)
          else Some (write_disk_image_po_do io media out fs)
        })"

section \<open>Reading the file\<close>

lemma fread_tracks_spec:
  assumes "n * 4096 \<le> length f"
  shows "\<exists>disk. fread_tracks n f = Some (disk, drop (n * 4096) f) \<and> length disk = n \<and>
    (\<forall>trk \<in> set disk. length trk = SECTORS_PER_TRACK \<and> (\<forall>sec \<in> set trk. length sec = SECTOR_SIZE)) \<and>
    concat (concat disk) = take (n * 4096) f"
  using assms
proof (induction n arbitrary: f)
  case (Suc n)
  obtain secs where secs: "fread_pieces 16 256 f = Some (secs, drop 4096 f)" "length secs = 16" "\<forall>p \<in> set secs. length p = 256"
    "concat secs = take 4096 f"
    using fread_pieces_spec [of 16 256 f] Suc.prems by auto
  have "n * 4096 \<le> length (drop 4096 f)" using Suc.prems by simp
  from Suc.IH [OF this] obtain disk where disk: "fread_tracks n (drop 4096 f) = Some (disk, drop (n * 4096) (drop 4096 f))"
    "length disk = n" "\<forall>trk \<in> set disk. length trk = SECTORS_PER_TRACK \<and> (\<forall>sec \<in> set trk. length sec = SECTOR_SIZE)"
    "concat (concat disk) = take (n * 4096) (drop 4096 f)" by blast
  then show ?case
    using secs by (auto simp: track_sizes take_add add.commute)
qed simp

lemma load_disk_image_spec:
  assumes "data_offset media + 143360 \<le> length f" "fs (filename media) = Some f" "open_ok io" "read_ok io"
  shows "\<exists>disk. load_disk_image io media fs = Some disk \<and> image_ok disk \<and>
    concat (concat disk) = take 143360 (drop (data_offset media) f)"
proof -
  have "35 * 4096 \<le> length (drop (data_offset media) f)" using assms by simp
  from fread_tracks_spec [OF this] show ?thesis
    using assms(2-4) by (auto simp: load_disk_image_def fopen_rb_def image_ok_def track_sizes)
qed

section \<open>The imported image\<close>

lemma add_track_fields:
  assumes "t * 4 + 1 < 160"
  shows "tracks (add_track build t img) = tracks img @ [build t]"
    "tmap (add_track build t img) = (tmap img)[t * 4 := of_nat (length (tracks img)), t * 4 + 1 := of_nat (length (tracks img))]"
  using assms by (simp_all add: add_track_def Let_def)

lemma add_tracks:
  fixes build :: "nat \<Rightarrow> woz_track_t"
  assumes "n \<le> TRACKS_PER_DISK" "tracks img = []" "length (tmap img) = 160"
  defines "img' \<equiv> fold (add_track build) [0..<n] img"
  shows "tracks img' = map build [0..<n] \<and> length (tmap img') = 160 \<and> (\<forall>t < n. tmap img' ! (t * 4) = of_nat t)"
  using assms(1) unfolding img'_def
proof (induction n)
  case (Suc n)
  then have n: "n * 4 + 1 < 160" by (simp add: track_sizes)
  show ?case
    using Suc n by (auto simp: add_track_fields [OF n] nth_list_update less_Suc_eq)
qed (simp add: assms(2,3))

lemma imported_track:
  assumes "tracks img' = map build [0..<35]" "\<forall>t < 35. tmap img' ! (t * 4) = of_nat t" "t < 35"
  shows "get_track_ptr img' (int t * 4) = Some (build t)"
proof -
  have idx: "tmap img' ! nat (int t * 4) = of_nat t"
    using assms(2,3) by (simp add: nat_mult_distrib)
  have "unat (of_nat t :: u8) = t"
    using assms(3) by (simp add: unat_of_nat)
  moreover have "(of_nat t :: u8) \<noteq> 0xFF"
  proof
    assume "(of_nat t :: u8) = 0xFF"
    then have "unat (of_nat t :: u8) = 0xFF" by simp
    then show False using calculation assms(3) by simp
  qed
  ultimately show ?thesis
    using assms(1,3) idx by (simp add: get_track_ptr_def Let_def)
qed

lemma image_ok_update:
  assumes "image_ok out" "image_ok disk" "t < TRACKS_PER_DISK"
  shows "image_ok (out[t := disk ! t])"
proof -
  have "disk ! t \<in> set disk" using assms(2,3) by (simp add: image_ok_def)
  then show ?thesis
    using assms(1,2) set_update_subset_insert [of out t "disk ! t"] unfolding image_ok_def by fastforce
qed

lemma image_ok_blank: "image_ok blank_image"
  by (auto simp: image_ok_def blank_image_def)

text \<open>Exporting freshly built tracks restores them.\<close>

lemma export_built_tracks:
  assumes "\<And>t. t < TRACKS_PER_DISK \<Longrightarrow> get_track_ptr img (int t * 4) = Some (build_track (junk t) disk p2l t volume)"
    and "image_ok disk" "interleave_ok p2l" "\<And>t s. length (junk t s) = 342" "image_ok out" "set ts \<subseteq> {..<TRACKS_PER_DISK}"
  shows "export_tracks img p2l ts (n, out) = Some (n + length ts, fold (\<lambda>t out. out[t := disk ! t]) ts out)"
  using assms(5,6)
proof (induction ts arbitrary: n out)
  case (Cons t ts)
  then have t: "t < TRACKS_PER_DISK" by simp
  have "decode_track (build_track (junk t) disk p2l t volume) t p2l out = Some (16, out[t := disk ! t])"
    by (rule decode_built_track [OF assms(2) Cons.prems(1) assms(3) t assms(4)])
  then show ?case
    using Cons.IH [of "out[t := disk ! t]" "n + 1"] image_ok_update [OF Cons.prems(1) assms(2) t] Cons.prems(2)
    by (simp add: assms(1) [OF t] SECTORS_PER_TRACK_def)
qed simp

lemma concat_map_concat: "concat (map concat xss) = concat (concat xss)"
  by (induction xss) simp_all

section \<open>What decoding keeps\<close>

lemma image_ok_store:
  assumes "image_ok (out_sectors st)" "length decoded = SECTOR_SIZE"
  shows "image_ok (out_sectors (store_sector t p2l sector decoded st))"
proof (cases "t < length (out_sectors st)")
  case True
  let ?out = "out_sectors st"
  have "?out ! t \<in> set ?out" using True by simp
  then have "length ((?out ! t)[p2l ! sector := decoded]) = SECTORS_PER_TRACK"
    "\<forall>sec \<in> set ((?out ! t)[p2l ! sector := decoded]). length sec = SECTOR_SIZE"
    using assms set_update_subset_insert [of "?out ! t" "p2l ! sector" decoded] by (auto simp: image_ok_def)
  then show ?thesis
    using assms(1) set_update_subset_insert [of ?out t "(?out ! t)[p2l ! sector := decoded]"]
    by (auto simp: store_sector_def Let_def image_ok_def)
next
  case False
  then show ?thesis using assms(1) by (simp add: store_sector_def Let_def list_update_beyond)
qed

lemma read_payload_length: "read_payload trk is csum nbuf c = Some (csum', nbuf', c') \<Longrightarrow> length nbuf' = length nbuf"
  by (induction "is" arbitrary: csum nbuf c) (auto split: Option.bind_splits simp: Let_def)

lemma decode_round_image:
  assumes "decode_round trk t p2l st = Some st'" "image_ok (out_sectors st)"
  shows "image_ok (out_sectors st')"
proof -
  have "length (decode_sector_62 nbuf) = SECTOR_SIZE" if "length nbuf = 342" for nbuf
    using that by (simp add: decode_sector_62_nth track_sizes)
  then show ?thesis
    using assms
    by (auto simp: decode_round_def decode_address_field_def decode_data_field_def Let_def image_ok_store
        split: Option.bind_splits if_splits dest!: read_payload_length)
qed

lemma decode_loop_image:
  assumes "decode_loop trk t p2l st = Some st'" "image_ok (out_sectors st)"
  shows "image_ok (out_sectors st')"
  using assms unfolding decode_loop_def by (rule scan_loop_keeps) (rule decode_round_image)

lemma decode_track_image:
  assumes "decode_track trk t p2l out = Some (n, out')" "image_ok out"
  shows "image_ok out'"
  using assms decode_loop_image by (fastforce simp: decode_track_def split: if_splits Option.bind_splits)

lemma export_tracks_spec:
  assumes "export_tracks img p2l ts (n, out) = Some (n', out')" "image_ok out"
  shows "image_ok out' \<and> n' \<le> n + length ts \<and>
    (n' = n + length ts \<longrightarrow> (\<forall>t \<in> set ts. \<exists>trk o1 o2. get_track_ptr img (int t * 4) = Some trk \<and>
       decode_track trk t p2l o1 = Some (SECTORS_PER_TRACK, o2)))"
  using assms
proof (induction ts arbitrary: n out)
  case (Cons t ts)
  show ?case
  proof (cases "get_track_ptr img (int t * 4)")
    case None
    then show ?thesis using Cons.IH [of n out] Cons.prems by auto
  next
    case (Some trk)
    with Cons.prems(1) obtain got o2 where o2: "decode_track trk t p2l out = Some (got, o2)"
      "export_tracks img p2l ts (if got = SECTORS_PER_TRACK then n + 1 else n, o2) = Some (n', out')"
      by (auto split: Option.bind_splits cong: if_cong)
    from Cons.IH [OF o2(2) decode_track_image [OF o2(1) Cons.prems(2)]] o2(1) Some
    show ?thesis by (auto split: if_splits)
  qed
qed simp

lemma length_payload:
  assumes "image_ok out"
  shows "length (concat (map (\<lambda>t. concat (out ! t)) [0..<TRACKS_PER_DISK])) = 143360"
proof -
  have "length (concat (out ! t)) = 4096" if "t < 35" for t
  proof -
    have "map length (out ! t) = replicate 16 256"
      using image_okD [OF assms, of t] that by (intro nth_equalityI) (simp_all add: track_sizes)
    then show ?thesis by (simp add: length_concat sum_list_replicate)
  qed
  then have "map (\<lambda>t. length (concat (out ! t))) [0..<35] = replicate 35 4096"
    by (intro nth_equalityI) simp_all
  then show ?thesis
    by (simp add: length_concat comp_def track_sizes sum_list_replicate)
qed

definition accepts_525 :: "media_descriptor \<Rightarrow> bool" where
  "accepts_525 media \<longleftrightarrow> media_type media = MEDIA_NYBBLE \<and> interleave media \<in> {INTERLEAVE_PO, INTERLEAVE_DO}"

text \<open>What the exporter finds on a freshly imported disk.\<close>

lemma export_imported_tracks:
  fixes volume :: u8
  assumes "image_ok disk" "interleave_ok p2l" "\<And>t s. length (junk t s) = 342"
  defines "build \<equiv> \<lambda>t. build_track (junk t) disk p2l t volume"
  shows "export_tracks (fold (add_track build) [0..<TRACKS_PER_DISK] (import_reset media img)) p2l [0..<TRACKS_PER_DISK] (0, blank_image) =
    Some (TRACKS_PER_DISK, disk)"
proof -
  define img' where "img' = fold (add_track build) [0..<TRACKS_PER_DISK] (import_reset media img)"
  have "tracks img' = map build [0..<35]" "\<forall>t < 35. tmap img' ! (t * 4) = of_nat t"
    using add_tracks [of "TRACKS_PER_DISK" "import_reset media img" build]
    by (simp_all add: import_reset_def img'_def track_sizes)
  then have ptr: "get_track_ptr img' (int t * 4) = Some (build_track (junk t) disk p2l t volume)" if "t < TRACKS_PER_DISK" for t
    using imported_track [of img' build t] that by (simp add: track_sizes build_def)
  have len: "length disk = 35" using assms(1) by (simp add: image_ok_def track_sizes)
  have "fold (\<lambda>t out. out[t := disk ! t]) [0..<35] blank_image = disk"
    using len by - (rule nth_equalityI, simp_all add: fold_update_nth blank_image_def track_sizes lessThan_atLeast0)
  moreover have "export_tracks img' p2l [0..<TRACKS_PER_DISK] (0, blank_image) =
      Some (0 + length [0..<TRACKS_PER_DISK], fold (\<lambda>t out. out[t := disk ! t]) [0..<TRACKS_PER_DISK] blank_image)"
    by (rule export_built_tracks [OF ptr assms(1,2,3) image_ok_blank]) auto
  ultimately show ?thesis by (simp add: track_sizes img'_def)
qed

lemma export_of_import:
  assumes "accepts_525 media" "fs (filename media) = Some f" "data_offset media + 143360 \<le> length f" "open_ok io" "read_ok io"
    and "open_ok io'" "\<And>t s. length (junk t s) = 342"
  shows "\<exists>img' fs'. import_block_image junk io img (Some media) fs = (0, img') \<and>
    export_block_image io' img' media fs = Some (if io_ok io' then 0 else -1, fs') \<and> same_but (tmp_path (filename media)) fs fs'"
proof -
  obtain disk where disk: "load_disk_image io media fs = Some disk" "image_ok disk"
    "concat (concat disk) = take 143360 (drop (data_offset media) f)"
    using load_disk_image_spec assms(2-5) by blast
  obtain p2l where p2l: "interleave_table (interleave media) = Some p2l" "interleave_ok p2l"
    using assms(1) interleaves_ok by (auto simp: interleave_table_def accepts_525_def)
  let ?img = "fold (add_track (\<lambda>t. build_track (junk t) disk p2l t (ucast (dos33_volume media)))) [0..<TRACKS_PER_DISK]
    (import_reset media img)"
  have imported: "import_block_image junk io img (Some media) fs = (0, ?img)"
    using assms(1) by (simp add: import_block_image_def disk(1) p2l(1) accepts_525_def)
  let ?payload = "concat (map (\<lambda>t. concat (disk ! t)) [0..<TRACKS_PER_DISK])"
  have "?payload = concat (map concat disk)"
    using disk(2) map_nth [of disk] by (metis (no_types, lifting) image_ok_def map_map comp_def map_cong)
  then have payload: "?payload = take 143360 (drop (data_offset media) f)" "length ?payload = 143360"
    using disk(3) assms(3) by (simp_all add: concat_map_concat)
  obtain fs' where "atomic_patch io' (filename media) (data_offset media) ?payload fs = (io_ok io', fs')"
    "same_but (tmp_path (filename media)) fs fs'"
    using atomic_patch_self [of fs "filename media" f io' "data_offset media" ?payload] assms(2,3,6) payload by auto
  then have "export_block_image io' ?img media fs = Some (if io_ok io' then 0 else -1, fs')"
    using export_imported_tracks [OF disk(2) p2l(2) assms(7)]
    by (simp add: export_block_image_def p2l(1) write_disk_image_po_do_def Let_def)
  with imported \<open>same_but _ fs fs'\<close> show ?thesis by blast
qed

lemma export_525_cases:
  assumes "export_block_image io img media fs = Some (rc, fs')"
  obtains (refused) "rc \<noteq> 0" "fs' = fs"
  | (written) p2l out ok where "interleave_table (interleave media) = Some p2l"
      "export_tracks img p2l [0..<TRACKS_PER_DISK] (0, blank_image) = Some (TRACKS_PER_DISK, out)" "image_ok out"
      "atomic_patch io (filename media) (data_offset media) (concat (map (\<lambda>t. concat (out ! t)) [0..<TRACKS_PER_DISK])) fs = (ok, fs')"
      "rc = (if ok then 0 else -1)"
proof (cases "interleave_table (interleave media)")
  case None
  then show thesis using assms refused by (auto simp: export_block_image_def)
next
  case (Some p2l)
  with assms obtain n out where tracks: "export_tracks img p2l [0..<TRACKS_PER_DISK] (0, blank_image) = Some (n, out)"
    and rest: "if n \<noteq> TRACKS_PER_DISK then (rc, fs') = (EXPORT_LOSSY, fs) else write_disk_image_po_do io media out fs = (rc, fs')"
    by (auto simp: export_block_image_def bind_eq_Some_conv split: if_splits)
  note ok = conjunct1 [OF export_tracks_spec [OF tracks image_ok_blank]]
  show thesis
  proof (cases "n = TRACKS_PER_DISK")
    case True
    then show thesis
      using rest written [OF Some _ ok] tracks by (auto simp: write_disk_image_po_do_def Let_def split: prod.splits if_splits)
  next
    case False
    then show thesis using rest refused by (simp add: EXPORT_LOSSY_def)
  qed
qed

lemma export_525_contained:
  assumes "export_block_image io img media fs = Some (rc, fs')" "fs (filename media) = Some f" "open_ok io"
  shows "contained 143360 media fs rc fs'"
  using assms(1)
proof (cases rule: export_525_cases)
  case refused
  then show ?thesis by (simp add: contained_def)
next
  case (written p2l out ok)
  then show ?thesis
    using contained_patch [OF written(4) assms(2,3) length_payload [OF written(3)]] by simp
qed

text \<open>Any memory, seen as buffers of 342 bytes.\<close>

definition buffers_342 :: "(nat \<Rightarrow> nat \<Rightarrow> u8 list) \<Rightarrow> nat \<Rightarrow> nat \<Rightarrow> u8 list" where
  "buffers_342 memory t s = take 342 (memory t s @ replicate 342 0)"

interpretation nib_525: nibblizer "import_block_image (buffers_342 memory)" export_block_image 143360 accepts_525
  for memory
  using export_of_import export_525_contained by unfold_locales (auto simp: buffers_342_def)

section \<open>Nibble files\<close>

lemma nib_track:
  assumes "\<forall>b \<in> set nib. bit b 7" "length nib < 2 ^ 28"
  shows "before (build_track_from_nib nib) start_cursor (data_cells nib)"
proof -
  have "emits (fold emit_data_byte nib) (concat (map (\<lambda>b. cell_bits [(b, 0)]) nib))"
    by (intro emits_fold emits_data_byte)
  moreover have "concat (map (\<lambda>b. cell_bits [(b, 0)]) nib) = cell_bits (data_cells nib)"
    by (simp add: cell_bits_def comp_def)
  ultimately have "track_ok (build_track_from_nib nib)" "stream (build_track_from_nib nib) = cell_bits (data_cells nib)"
    using assms(2) emitsD [of "fold emit_data_byte nib" "cell_bits (data_cells nib)" empty_track] track_ok_empty
    by (simp_all add: build_track_from_nib_def length_data_cells empty_track_def)
  then show ?thesis
    using assms(1) by (auto simp: before_def ahead_def start_cursor_def intro!: exI [of _ 0])
qed

section \<open>The properties of import and export\<close>

text \<open>
  C6.  Round trip of a disk.  A file with a complete 140K image at its data offset that can be opened and read imports
  without error.  If it can be opened again, exporting the imported disk at once returns, whatever later host calls
  fail, with every file exactly as it was, byte for byte and headers included (a failed call may leave the temporary
  file), and it reports success if and only if the host calls succeed.  Every interleave the importer accepts, every volume number and every content of the encoder's
  uninitialised buffers is covered.
\<close>

theorem disk_roundtrip:
  assumes "accepts_525 media" "fs (filename media) = Some f" "data_offset media + 143360 \<le> length f" "open_ok io" "read_ok io"
    and "open_ok io'" "\<And>t s. length (junk t s) = 342"
  shows "\<exists>img' fs'. import_block_image junk io img (Some media) fs = (0, img') \<and>
    export_block_image io' img' media fs = Some (if io_ok io' then 0 else -1, fs') \<and> same_but (tmp_path (filename media)) fs fs'"
  using assms by (rule export_of_import)

text \<open>
  C7.  Export does not destroy.  For a file that can be opened for reading, whatever is on the disk's tracks and whatever
  later host calls fail, an export that returns anything but success leaves every file but the temporary one untouched; one that succeeds has
  decoded all sixteen sectors of all 35 tracks and changes no byte outside the 143360 bytes at the data offset.
\<close>

theorem export_does_not_destroy:
  assumes "export_block_image io img media fs = Some (rc, fs')" "fs (filename media) = Some f" "open_ok io"
  shows "contained 143360 media fs rc fs' \<and>
    (rc = 0 \<longrightarrow> (\<exists>p2l. interleave_table (interleave media) = Some p2l \<and>
      (\<forall>t < 35. \<exists>trk o1 o2. get_track_ptr img (int t * 4) = Some trk \<and> decode_track trk t p2l o1 = Some (16, o2))))"
  using assms(1)
proof (cases rule: export_525_cases)
  case (written p2l out ok)
  have "\<forall>t < 35. \<exists>trk o1 o2. get_track_ptr img (int t * 4) = Some trk \<and> decode_track trk t p2l o1 = Some (16, o2)"
    using export_tracks_spec [OF written(2) image_ok_blank] by (auto simp: track_sizes)
  then show ?thesis using export_525_contained [OF assms] written(1) by blast
qed (use export_525_contained [OF assms] in simp)

text \<open>
  Nibble files.  The track that the importer builds from the nibbles of a \<^verbatim>\<open>.nib\<close> file reads back as these
  nibbles, one for one and in order, as long as each has its top bit set, as disk nibbles do.
\<close>

lemma nib_track_reads_back:
  assumes "\<forall>b \<in> set nib. bit b 7" "length nib < 2 ^ 28"
  shows "\<exists>c. read_nibbles (length nib) (build_track_from_nib nib) start_cursor = Some (nib, c)"
  using before_read_nibbles [of _ _ nib "[]"] nib_track [OF assms] by (metis append_Nil2)

section \<open>A concrete disk\<close>

definition demo_media :: media_descriptor where
  "demo_media = \<lparr>filename = ''disk.2mg'', media_type = MEDIA_NYBBLE, interleave = INTERLEAVE_DO, data_offset = 64,
     data_size = 143360, media_write_protected = False, dos33_volume = 254\<rparr>"

definition demo_image :: woz_image_t where
  "demo_image = \<lparr>file_version = 2,
     info = \<lparr>info_version = 2, disk_type = 1, write_protected = 0, synchronized = 0, cleaned = 1, creator = [],
       disk_sides = 1, boot_sector_format = 0, optimal_bit_timing = 32, compatible_hardware = 0, required_ram = 0,
       largest_track = 0, flux_block = 0, largest_flux_track = 0\<rparr>,
     tmap = replicate 160 0xFF, tracks = [], meta = [], unsaved_chunks = []\<rparr>"

definition demo_files :: files where
  "demo_files = [''disk.2mg'' \<mapsto> replicate 64 0x2A @ replicate 143360 0xE5]"

definition demo_io :: host_io where
  "demo_io = \<lparr>open_ok = True, read_ok = True, create_ok = True, fwrite_ok = True, flush_ok = True, rename_ok = True,
     remove_ok = True, partial_write = []\<rparr>"

lemma demo_disk:
  "accepts_525 demo_media" "demo_files (filename demo_media) = Some (replicate 64 0x2A @ replicate 143360 0xE5)"
  "data_offset demo_media + 143360 \<le> length (replicate 64 (0x2A :: u8) @ replicate 143360 0xE5)" "open_ok demo_io" "read_ok demo_io" "io_ok demo_io"
  by (simp_all add: demo_media_def demo_files_def demo_io_def io_ok_def accepts_525_def)

theorem disk_roundtrip_witness:
  "\<exists>img' fs'. import_block_image (\<lambda>_ _. replicate 342 7) demo_io demo_image (Some demo_media) demo_files = (0, img') \<and>
    export_block_image demo_io img' demo_media demo_files = Some (0, fs') \<and> fs' ''disk.2mg'' = demo_files ''disk.2mg''"
  using disk_roundtrip [where fs = demo_files, OF demo_disk(1-5,4), of "\<lambda>_ _. replicate 342 7" demo_image] demo_disk(6)
  by (fastforce simp: same_but_def tmp_path_def demo_media_def)

theorem export_does_not_destroy_witness:
  "\<exists>img fs'. export_block_image demo_io img demo_media demo_files = Some (0, fs') \<and> contained 143360 demo_media demo_files 0 fs'"
proof -
  obtain img' fs' where ex: "export_block_image demo_io img' demo_media demo_files = Some (0, fs')"
    using nib_525.import_export [where fs = demo_files and img = demo_image and memory = "\<lambda>_ _. []", OF demo_disk(1-5,4)] demo_disk(6) by auto
  then show ?thesis
    using export_does_not_destroy [OF ex demo_disk(2,4)] by blast
qed

end
