(* ===== verification/Woz_35_Disk.thy ===== *)
theory Woz_35_Disk
  imports Woz_35_Track Woz_Disk
begin

text \<open>
  Whole 3.5 inch disks: import of an 800K block file into a WOZ image and export back to the file
  (\<^verbatim>\<open>woz_nibblizer_35.cpp\<close>), the second instance of the locale \<open>nibblizer\<close>.
\<close>

section \<open>Import\<close>

text \<open>\<^verbatim>\<open>fread\<close> of \<^verbatim>\<open>SECTOR_SIZE\<close> items of \<^verbatim>\<open>SECTORS_PER_DISK\<close> bytes into the array of sectors.\<close>

definition load_disk_image_35 :: "host_io \<Rightarrow> media_descriptor \<Rightarrow> files \<Rightarrow> u8 list list option" where
  "load_disk_image_35 io media fs = do {
     f \<leftarrow> fopen_rb io (filename media) fs;
     (items, _) \<leftarrow> fread_pieces SECTOR_SIZE_35 SECTORS_PER_DISK (drop (data_offset media) f);
     let bytes = concat items;
     if \<not> read_ok io then None
     else Some (map (\<lambda>i. take SECTOR_SIZE_35 (drop (i * SECTOR_SIZE_35) bytes)) [0..<SECTORS_PER_DISK])
   }"

definition import_reset_35 :: "media_descriptor \<Rightarrow> woz_image_t \<Rightarrow> woz_image_t" where
  "import_reset_35 media img = img\<lparr>
     tmap := replicate 160 0xFF, tracks := [],
     info := (info img)\<lparr>disk_type := 2,
       write_protected := (if media_write_protected media then 1 else 0), synchronized := 0, cleaned := 1,
       optimal_bit_timing := 16, boot_sector_format := 0, disk_sides := 2\<rparr>\<rparr>"

definition add_track_35 :: "u8 list list \<Rightarrow> nat \<Rightarrow> woz_image_t \<Rightarrow> woz_image_t" where
  "add_track_35 disk_image t img =
     (let trk_idx = of_nat (t * 2); zone = t div 16;
          img = img\<lparr>tracks := tracks img @ [build_track_35 disk_image (i_logical_to_phys ! zone) t 0]\<rparr>;
          img = img\<lparr>tmap := (tmap img)[unat trk_idx := trk_idx]\<rparr>;
          img = img\<lparr>tracks := tracks img @ [build_track_35 disk_image (i_logical_to_phys ! zone) t 1]\<rparr>
      in img\<lparr>tmap := (tmap img)[unat trk_idx + 1 := trk_idx + 1]\<rparr>)"

definition import_block_image_35 ::
    "host_io \<Rightarrow> woz_image_t \<Rightarrow> media_descriptor option \<Rightarrow> files \<Rightarrow> int \<times> woz_image_t" where
  "import_block_image_35 io img media_ptr fs =
     (case media_ptr of
        None \<Rightarrow> (-1, img)
      | Some media \<Rightarrow>
          if media_type media \<noteq> MEDIA_BLK then (-1, img)
          else if data_size media \<noteq> 800 * 1024 then (-1, img)
          else case load_disk_image_35 io media fs of
            None \<Rightarrow> (-1, img)
          | Some disk_image \<Rightarrow> (0, fold (add_track_35 disk_image) [0..<TRACKS_PER_DISK_35] (import_reset_35 media img)))"

section \<open>Export\<close>

definition write_disk_image_po_do_35 ::
    "host_io \<Rightarrow> media_descriptor \<Rightarrow> u8 list list \<Rightarrow> files \<Rightarrow> int \<times> files" where
  "write_disk_image_po_do_35 io media disk_image fs =
     (let (ok, fs') = atomic_patch io (filename media) (data_offset media) (concat disk_image) fs
      in if \<not> ok then (-1, fs') else (0, fs'))"

text \<open>The loop over the tracks and sides: the number of track sides that decoded completely, and the image.\<close>

fun export_sides ::
    "woz_image_t \<Rightarrow> (nat \<times> nat) list \<Rightarrow> nat \<times> u8 list list \<Rightarrow> (nat \<times> u8 list list) option" where
  "export_sides img [] r = Some r"
| "export_sides img ((t, side) # ts) r =
     (case get_track_ptr img (int (t * 2 + side)) of
        None \<Rightarrow> export_sides img ts r
      | Some trk \<Rightarrow> do {
          (complete, out) \<leftarrow> decode_track_35 trk t (snd r);
          export_sides img ts (if complete then fst r + 1 else fst r, out)
        })"

definition blank_image_35 :: "u8 list list" where
  "blank_image_35 = replicate SECTORS_PER_DISK (replicate SECTOR_SIZE_35 0)"

definition track_sides :: "(nat \<times> nat) list" where
  "track_sides = concat (map (\<lambda>t. map (\<lambda>side. (t, side)) [0..<2]) [0..<TRACKS_PER_DISK_35])"

definition export_block_image_35 ::
    "host_io \<Rightarrow> woz_image_t \<Rightarrow> media_descriptor \<Rightarrow> files \<Rightarrow> (int \<times> files) option" where
  "export_block_image_35 io img media fs = do {
     (tracks_with_full_data, out) \<leftarrow> export_sides img track_sides (0, blank_image_35);
     if tracks_with_full_data \<noteq> TRACKS_PER_DISK_35 * 2 then Some (EXPORT_LOSSY, fs)
     else Some (write_disk_image_po_do_35 io media out fs)
   }"

section \<open>The imported image\<close>

lemma concat_slices: "concat (map (\<lambda>i. take k (drop (i * k) xs)) [0..<n]) = take (n * k) xs"
  by (induction n) (simp_all add: take_add [symmetric] add.commute)

lemma load_disk_image_35_spec:
  assumes "data_offset media + 819200 \<le> length f" "fs (filename media) = Some f" "open_ok io" "read_ok io"
  shows "\<exists>disk. load_disk_image_35 io media fs = Some disk \<and> image_ok_35 disk \<and>
    concat disk = take 819200 (drop (data_offset media) f)"
proof -
  have "512 * 1600 \<le> length (drop (data_offset media) f)" using assms(1) by simp
  from fread_pieces_spec [OF this] obtain items where items: "fread_pieces 512 1600 (drop (data_offset media) f) =
      Some (items, drop (512 * 1600) (drop (data_offset media) f))" "concat items = take 819200 (drop (data_offset media) f)"
    by auto
  let ?disk = "map (\<lambda>i. take 512 (drop (i * 512) (concat items))) [0..<1600]"
  have len: "length (concat items) = 819200" using items(2) assms(1) by simp
  have "i * 512 + 512 \<le> 819200" if "i < 1600" for i :: nat using that by simp
  then have "image_ok_35 ?disk" by (auto simp: image_ok_35_def len)
  moreover have "concat ?disk = concat items"
    using len by (simp only: concat_slices) simp
  moreover have "load_disk_image_35 io media fs = Some ?disk"
    using items(1) assms(2-4) by (simp add: load_disk_image_35_def fopen_rb_def sizes_35)
  ultimately show ?thesis using items(2) by simp
qed

lemma add_tracks_35:
  fixes disk :: "u8 list list"
  assumes "n \<le> 80" "tracks img = []" "length (tmap img) = 160"
  defines "img' \<equiv> fold (add_track_35 disk) [0..<n] img"
  shows "tracks img' = map (\<lambda>i. build_track_35 disk (i_logical_to_phys ! (i div 2 div 16)) (i div 2) (i mod 2)) [0..<2 * n] \<and>
    length (tmap img') = 160 \<and> (\<forall>i < 2 * n. tmap img' ! i = of_nat i)"
  using assms(1) unfolding img'_def
proof (induction n)
  case (Suc n)
  let ?img = "fold (add_track_35 disk) [0..<n] img"
  have u: "unat (of_nat (n * 2) :: u8) = n * 2" using Suc.prems by (simp only: unat_of_nat) simp
  have new: "tracks (add_track_35 disk n ?img) = tracks ?img @ [build_track_35 disk (i_logical_to_phys ! (n div 16)) n 0,
        build_track_35 disk (i_logical_to_phys ! (n div 16)) n 1]"
    "tmap (add_track_35 disk n ?img) = (tmap ?img)[n * 2 := of_nat (n * 2), n * 2 + 1 := of_nat (n * 2 + 1)]"
    by (simp_all only: add_track_35_def Let_def u) (simp_all add: add.commute)
  have "[0..<2 * Suc n] = [0..<2 * n] @ [2 * n, 2 * n + 1]" by simp
  moreover have "tmap (add_track_35 disk n ?img) ! i = of_nat i" if "i < 2 * Suc n" for i
    using that Suc by (cases "i < 2 * n") (auto simp: new nth_list_update less_Suc_eq mult.commute)
  ultimately show ?case
    using Suc by (simp add: new)
qed (simp add: assms(2,3))

lemma imported_side:
  assumes "t < 80" "side < 2"
  shows "get_track_ptr (fold (add_track_35 disk) [0..<80] (import_reset_35 media img)) (int (t * 2 + side)) =
    Some (build_track_35 disk (i_logical_to_phys ! (t div 16)) t side)"
proof -
  define img' where "img' = fold (add_track_35 disk) [0..<80] (import_reset_35 media img)"
  define i where "i = t * 2 + side"
  have i: "i < 160" "i div 2 = t" "i mod 2 = side" using assms by (auto simp: i_def)
  have spec: "tracks img' = map (\<lambda>i. build_track_35 disk (i_logical_to_phys ! (i div 2 div 16)) (i div 2) (i mod 2)) [0..<160]"
    "tmap img' ! i = of_nat i"
    using add_tracks_35 [of 80 "import_reset_35 media img" disk] i(1) by (simp_all add: img'_def import_reset_35_def)
  have u: "unat (of_nat i :: u8) = i" using i(1) by (simp add: unat_of_nat)
  then have "(of_nat i :: u8) \<noteq> 0xFF" using i(1) by auto
  then have "get_track_ptr img' (int i) = Some (build_track_35 disk (i_logical_to_phys ! (t div 16)) t side)"
    using i u by (simp add: get_track_ptr_def Let_def spec)
  then show ?thesis by (simp add: img'_def i_def)
qed

lemma export_built_sides:
  assumes "\<And>t side. (t, side) \<in> set ts \<Longrightarrow> t < 80 \<and> side < 2 \<and>
      get_track_ptr img (int (t * 2 + side)) = Some (build_track_35 disk (i_logical_to_phys ! (t div 16)) t side)"
    and "image_ok_35 disk"
  shows "export_sides img ts (n, out) = Some (n + length ts, fold (\<lambda>i out. out[i := disk ! i])
    (concat (map (\<lambda>(t, side). map (\<lambda>l. calculateSectorOffset t l side) (i_logical_to_phys ! (t div 16))) ts)) out)"
  using assms(1)
proof (induction ts arbitrary: n out)
  case (Cons x ts)
  obtain t side where x: "x = (t, side)" by (cases x)
  have t: "t < 80" "side < 2" "get_track_ptr img (int (t * 2 + side)) = Some (build_track_35 disk (i_logical_to_phys ! (t div 16)) t side)"
    using Cons.prems [of t side] by (simp_all add: x)
  have "export_sides img ts (n', out') = Some (n' + length ts, fold (\<lambda>i out. out[i := disk ! i])
      (concat (map (\<lambda>(t, side). map (\<lambda>l. calculateSectorOffset t l side) (i_logical_to_phys ! (t div 16))) ts)) out')" for n' out'
    by (rule Cons.IH) (rule Cons.prems, simp)
  then show ?case
    by (simp add: x t(3) [simplified] decode_built_track_35 [OF assms(2) t(1,2)])
qed simp

lemma set_track_sides: "set track_sides = {..<80} \<times> {..<2}"
  by (auto simp: track_sides_def sizes_35)

lemma length_track_sides: "length track_sides = 160"
  by (simp add: track_sides_def sizes_35 length_concat comp_def sum_list_triv)

lemma export_imported_sides:
  assumes "image_ok_35 disk"
  shows "export_sides (fold (add_track_35 disk) [0..<80] (import_reset_35 media img)) track_sides (0, blank_image_35) = Some (160, disk)"
proof -
  let ?is = "concat (map (\<lambda>(t, side). map (\<lambda>l. calculateSectorOffset t l side) (i_logical_to_phys ! (t div 16))) track_sides)"
  have "i \<in> set ?is" if i: "i < 1600" for i
  proof -
    obtain t side l where "t < 80" "side < 2" "l < sectorsPerZone ! (t div 16)" "calculateSectorOffset t l side = i"
      using sector_of_block [OF i] by blast
    then have "(t, side) \<in> set track_sides" "i \<in> (\<lambda>l. calculateSectorOffset t l side) ` set (i_logical_to_phys ! (t div 16))"
      using zone_table(3) [of t] by (auto simp: set_track_sides)
    then show ?thesis by (force simp: set_concat)
  qed
  then have "fold (\<lambda>i out. out[i := disk ! i]) ?is blank_image_35 = disk"
    using assms by (intro nth_equalityI) (simp_all add: blank_image_35_def image_ok_35_def sizes_35 fold_update_nth)
  then show ?thesis
    using export_built_sides [of track_sides "fold (add_track_35 disk) [0..<80] (import_reset_35 media img)" disk 0 blank_image_35]
      imported_side assms
    by (simp add: set_track_sides length_track_sides)
qed

section \<open>What decoding keeps\<close>

lemma length_merge: "ps \<noteq> [] \<Longrightarrow> length (fst (merge_loop c ps)) = 3 * length ps - 1"
  by (induction c ps rule: merge_loop.induct) (auto simp: Let_def case_prod_beta)

lemma length_join: "join_parts n inp = Some (ps, rest) \<Longrightarrow> length ps = n"
  by (induction n inp arbitrary: ps rest rule: join_parts.induct) (auto split: Option.bind_splits list.splits if_splits)

lemma length_decoded:
  assumes "DecodeSector62_524 nbuf = Some buf"
  shows "length buf = 524"
proof -
  obtain parts rest where "join_parts 175 nbuf = Some (parts, rest)" "buf = fst (merge_loop chk_start parts)"
    using assms
    by (auto simp: DecodeSector62_524_def CHUNK_SIZE_62_524_def Let_def bind_eq_Some_conv case_prod_beta split: if_splits)
  moreover from this have "parts \<noteq> []" using length_join by fastforce
  ultimately show ?thesis using length_join length_merge by fastforce
qed

lemma image_ok_store_35:
  assumes "store_sector_35 t s side decoded st = Some st'" "image_ok_35 (out_35 st)" "length decoded = 524"
  shows "image_ok_35 (out_35 st')"
proof -
  have "out_35 st' = (out_35 st)[calculateSectorOffset t s side := take 512 (drop 12 decoded)]"
    using assms(1) by (auto simp: store_sector_35_def Let_def sizes_35 split: if_splits)
  then show ?thesis
    using assms(2,3) set_update_subset_insert [of "out_35 st" "calculateSectorOffset t s side" "take 512 (drop 12 decoded)"]
    by (auto simp: image_ok_35_def)
qed

lemma decode_round_35_image:
  assumes "image_ok_35 (out_35 st)" "decode_round_35 trk st = Some st'"
  shows "image_ok_35 (out_35 st')"
  using assms length_decoded image_ok_store_35
  by (fastforce simp: decode_round_35_def decode_address_field_35_def decode_data_field_35_def Let_def
      split: Option.bind_splits if_splits option.splits)

lemma decode_track_35_image:
  assumes "decode_track_35 trk t out = Some (n, out')" "image_ok_35 out"
  shows "image_ok_35 out'"
proof (cases "bit_count trk = 0")
  case False
  let ?st = "\<lparr>cur = start_cursor, found = replicate 12 False, found_count = 0, n0 = 0, n1 = 0, n2 = 0, out_35 = out\<rparr>"
  obtain st' where st': "scan_loop (decode_round_35 trk) (sectorsPerZone ! (t div 16)) trk ?st = Some st'" "out' = out_35 st'"
    using assms(1) False by (auto simp: decode_track_35_def Let_def decode_loop_35_def split: Option.bind_splits)
  have "image_ok_35 (out_35 st')"
    by (rule scan_loop_keeps [OF st'(1)]) (use assms(2) decode_round_35_image in auto)
  with st'(2) show ?thesis by simp
qed (use assms in \<open>simp add: decode_track_35_def\<close>)

lemma export_sides_spec:
  assumes "export_sides img ts (n, out) = Some (n', out')" "image_ok_35 out"
  shows "image_ok_35 out' \<and> n' \<le> n + length ts \<and>
    (n' = n + length ts \<longrightarrow> (\<forall>(t, side) \<in> set ts. \<exists>trk o1 o2. get_track_ptr img (int (t * 2 + side)) = Some trk \<and>
       decode_track_35 trk t o1 = Some (True, o2)))"
  using assms
proof (induction ts arbitrary: n out)
  case (Cons x ts)
  obtain t side where x: "x = (t, side)" by (cases x)
  show ?case
  proof (cases "get_track_ptr img (int (t * 2 + side))")
    case None
    then show ?thesis using Cons.IH [of n out] Cons.prems by (auto simp: x)
  next
    case (Some trk)
    with Cons.prems(1) obtain complete o2 where o2: "decode_track_35 trk t out = Some (complete, o2)"
      "export_sides img ts (if complete then n + 1 else n, o2) = Some (n', out')"
      by (auto simp: x split: Option.bind_splits cong: if_cong)
    from Cons.IH [OF o2(2) decode_track_35_image [OF o2(1) Cons.prems(2)]] o2(1) Some
    show ?thesis by (auto simp: x split: if_splits)
  qed
qed simp

section \<open>Import and export\<close>

definition accepts_35 :: "media_descriptor \<Rightarrow> bool" where
  "accepts_35 media \<longleftrightarrow> media_type media = MEDIA_BLK \<and> data_size media = 800 * 1024"

lemma length_payload_35: "image_ok_35 out \<Longrightarrow> length (concat out) = 819200"
proof -
  assume "image_ok_35 out"
  then have "map length out = replicate 1600 512"
    by (intro nth_equalityI) (auto simp: image_ok_35_def)
  then show ?thesis by (simp add: length_concat sum_list_replicate)
qed

lemma export_of_import_35:
  assumes "accepts_35 media" "fs (filename media) = Some f" "data_offset media + 819200 \<le> length f" "open_ok io" "read_ok io"
    and "open_ok io'"
  shows "\<exists>img' fs'. import_block_image_35 io img (Some media) fs = (0, img') \<and>
    export_block_image_35 io' img' media fs = Some (if io_ok io' then 0 else -1, fs') \<and> same_but (tmp_path (filename media)) fs fs'"
proof -
  obtain disk where disk: "load_disk_image_35 io media fs = Some disk" "image_ok_35 disk"
    "concat disk = take 819200 (drop (data_offset media) f)"
    using load_disk_image_35_spec assms(2-5) by blast
  let ?img = "fold (add_track_35 disk) [0..<80] (import_reset_35 media img)"
  have imported: "import_block_image_35 io img (Some media) fs = (0, ?img)"
    using assms(1) by (simp add: import_block_image_35_def disk(1) accepts_35_def sizes_35)
  obtain fs' where fs': "atomic_patch io' (filename media) (data_offset media) (concat disk) fs = (io_ok io', fs')"
    "same_but (tmp_path (filename media)) fs fs'"
    using atomic_patch_self [of fs "filename media" f io' "data_offset media" "concat disk"] assms(2,3,6) disk(3)
      length_payload_35 [OF disk(2)] by auto
  then have "export_block_image_35 io' ?img media fs = Some (if io_ok io' then 0 else -1, fs')"
    using export_imported_sides [OF disk(2), of media img]
    by (simp add: export_block_image_35_def write_disk_image_po_do_35_def sizes_35)
  with imported fs'(2) show ?thesis by blast
qed

lemma export_35_cases:
  assumes "export_block_image_35 io img media fs = Some (rc, fs')"
  obtains (refused) "rc \<noteq> 0" "fs' = fs"
  | (written) out ok where "export_sides img track_sides (0, blank_image_35) = Some (160, out)" "image_ok_35 out"
      "atomic_patch io (filename media) (data_offset media) (concat out) fs = (ok, fs')" "rc = (if ok then 0 else -1)"
proof -
  from assms obtain n out where sides: "export_sides img track_sides (0, blank_image_35) = Some (n, out)"
    and rest: "if n \<noteq> 160 then (rc, fs') = (EXPORT_LOSSY, fs) else write_disk_image_po_do_35 io media out fs = (rc, fs')"
    by (auto simp: export_block_image_35_def bind_eq_Some_conv sizes_35 split: if_splits)
  have "image_ok_35 blank_image_35" by (auto simp: image_ok_35_def blank_image_35_def sizes_35)
  note ok = conjunct1 [OF export_sides_spec [OF sides this]]
  show thesis
  proof (cases "n = 160")
    case True
    then show thesis
      using rest written [OF _ ok] sides by (auto simp: write_disk_image_po_do_35_def split: prod.splits if_splits)
  next
    case False
    then show thesis using rest refused by (simp add: EXPORT_LOSSY_def)
  qed
qed

lemma export_35_contained:
  assumes "export_block_image_35 io img media fs = Some (rc, fs')" "fs (filename media) = Some f" "open_ok io"
  shows "contained 819200 media fs rc fs'"
  using assms(1)
proof (cases rule: export_35_cases)
  case refused
  then show ?thesis by (simp add: contained_def)
next
  case (written out ok)
  then show ?thesis
    using contained_patch [OF written(3) assms(2,3) length_payload_35 [OF written(2)]] by simp
qed

interpretation nib_35: nibblizer import_block_image_35 export_block_image_35 819200 accepts_35
  by unfold_locales (use export_of_import_35 export_35_contained in blast)+

text \<open>
  C8.  Round trip of a 3.5 inch disk.  A file with a complete 800K image at its data offset that can be opened and
  read imports without error into 160 track sides of five zones.  If the file can be opened again, exporting the imported
  disk at once returns, whatever later host calls fail, with every file exactly as it was (a failed call may leave the
  temporary file), and it reports success if and only if the host calls succeed.
\<close>

theorem disk_35_roundtrip:
  assumes "accepts_35 media" "fs (filename media) = Some f" "data_offset media + 819200 \<le> length f" "open_ok io" "read_ok io"
    and "open_ok io'"
  shows "\<exists>img' fs'. import_block_image_35 io img (Some media) fs = (0, img') \<and>
    export_block_image_35 io' img' media fs = Some (if io_ok io' then 0 else -1, fs') \<and> same_but (tmp_path (filename media)) fs fs'"
  using assms by (rule nib_35.import_export)

definition demo_media_35 :: media_descriptor where
  "demo_media_35 = \<lparr>filename = ''disk.po'', media_type = MEDIA_BLK, interleave = INTERLEAVE_NONE, data_offset = 0,
     data_size = 819200, media_write_protected = False, dos33_volume = 254\<rparr>"

theorem disk_35_roundtrip_witness:
  "\<exists>img' fs'. import_block_image_35 demo_io demo_image (Some demo_media_35) [''disk.po'' \<mapsto> replicate 819200 0xE5] = (0, img') \<and>
    export_block_image_35 demo_io img' demo_media_35 [''disk.po'' \<mapsto> replicate 819200 0xE5] = Some (0, fs') \<and>
    fs' ''disk.po'' = Some (replicate 819200 0xE5)"
proof -
  let ?fs = "[''disk.po'' \<mapsto> replicate 819200 0xE5]"
  have "accepts_35 demo_media_35" "?fs (filename demo_media_35) = Some (replicate 819200 0xE5)"
    "data_offset demo_media_35 + 819200 \<le> length (replicate 819200 (0xE5 :: u8))"
    by (simp_all add: demo_media_35_def accepts_35_def)
  from disk_35_roundtrip [where fs = ?fs, OF this demo_disk(4,5,4), of demo_image] demo_disk(6) show ?thesis
    by (fastforce simp: same_but_def tmp_path_def demo_media_35_def)
qed

end
