(* ===== verification/Floppy_Woz.thy ===== *)
theory Floppy_Woz
  imports Woz_Roundtrip Woz_35_Disk
begin

text \<open>
  The base class of the floppy drives (\<^verbatim>\<open>src/devices/floppy/Floppy_woz.hpp\<close>, \<^verbatim>\<open>Floppy_woz.cpp\<close>): a WOZ image in
  memory, the angular position of the disk, single bit pulses under the head, mounting and writing back.

  A drive is a record that the 5.25 and 3.5 inch drives extend.  The pointer to the current track is an index into the
  tracks of the image.  The virtual functions of the class are a record of functions \<open>hooks\<close>, an argument of the
  operations; the time of the clock is an argument of those that ask for it.  \<^const>\<open>None\<close> as a result stands for a
  division by zero or an access outside a vector.  Sounds, messages, media identity and snapshots are left out.

  The source keeps pointers where the record keeps an index and a copy: after a failed load the pointer to the track points
  into a cleared vector, and after a refused mount the descriptor is deleted by the caller (\<^verbatim>\<open>src/util/mount.cpp\<close>).  The
  properties exclude both: they start from an accepted mount, or admit WOZ files only when they are accepted.
\<close>

section \<open>State\<close>

definition POSITION_FP_SHIFT :: nat where "POSITION_FP_SHIFT = 7"
definition POSITION_FP_MUL :: u64 where "POSITION_FP_MUL = 128"
definition POSITION_FP_MASK :: u64 where "POSITION_FP_MASK = 127"
definition POSITION_ADV_PER_CYCLE :: u64 where "POSITION_ADV_PER_CYCLE = 16"
definition MAX_BITS_TO_SIM :: u64 where "MAX_BITS_TO_SIM = 32"

lemmas position_consts = POSITION_FP_SHIFT_def POSITION_FP_MUL_def POSITION_FP_MASK_def POSITION_ADV_PER_CYCLE_def
  MAX_BITS_TO_SIM_def

record floppy =
  woz :: woz_image_t
  cur_track :: "nat option"
  last_cycle :: u64
  read_position :: u64
  head_position :: u64
  advance_per_cycle :: u64
  enable :: bool
  write_protect :: u8
  is_mounted :: bool
  modified :: bool
  media_d :: "media_descriptor option"
  writing :: bool
  random_bits :: u64
  windowBits :: u32

record nibblizer_ops =
  import_image_op :: "host_io \<Rightarrow> woz_image_t \<Rightarrow> media_descriptor option \<Rightarrow> files \<Rightarrow> int \<times> woz_image_t"
  export_image_op :: "host_io \<Rightarrow> woz_image_t \<Rightarrow> media_descriptor \<Rightarrow> files \<Rightarrow> (int \<times> files) option"

text \<open>The virtual functions: \<^verbatim>\<open>head_advance_per_cycle\<close>, \<^verbatim>\<open>current_tmap_index\<close>, \<^verbatim>\<open>lss_disk_spinning\<close>, \<^verbatim>\<open>read_amplifier\<close>,
  \<^verbatim>\<open>empty_track_bits\<close>, \<^verbatim>\<open>write_gate\<close>, \<^verbatim>\<open>unmount\<close> and \<^verbatim>\<open>make_nibblizer\<close>.\<close>

record 'd hooks =
  head_advance_hook :: "'d \<Rightarrow> u64 option"
  tmap_index_hook :: "'d \<Rightarrow> int"
  spinning_hook :: "'d \<Rightarrow> bool"
  amplifier_hook :: "u8 \<Rightarrow> 'd \<Rightarrow> u8 \<times> 'd"
  empty_bits_hook :: u64
  write_gate_hook :: "'d \<Rightarrow> bool"
  unmount_hook :: "'d \<Rightarrow> 'd"
  nibblizer_hook :: "nibblizer_ops option"

definition new_woz_info :: woz_info_t where
  "new_woz_info = \<lparr>info_version = 2, disk_type = 1, write_protected = 0, synchronized = 0, cleaned = 1,
     creator = [0x47, 0x53, 0x32, 0x20, 0x57, 0x4F, 0x5A] @ replicate 25 0x20, disk_sides = 1, boot_sector_format = 0,
     optimal_bit_timing = 32, compatible_hardware = 0, required_ram = 0, largest_track = 0, flux_block = 0, largest_flux_track = 0\<rparr>"

definition new_woz :: woz_image_t where
  "new_woz = \<lparr>file_version = 2, info = new_woz_info, tmap = replicate 160 0xFF, tracks = [], meta = [], unsaved_chunks = []\<rparr>"

definition new_floppy :: floppy where
  "new_floppy = \<lparr>woz = new_woz, cur_track = None, last_cycle = 0, read_position = 0, head_position = 0, advance_per_cycle = 0,
     enable = False, write_protect = 0, is_mounted = False, modified = False, media_d = None, writing = False,
     random_bits = 0x5FCB9E767DC3523A, windowBits = 0\<rparr>"

section \<open>Tracks and positions\<close>

definition track_index :: "woz_image_t \<Rightarrow> int \<Rightarrow> nat option" where
  "track_index img quarter_track =
     (if quarter_track < 0 \<or> quarter_track \<ge> 160 then None
      else let idx = tmap img ! nat quarter_track
           in if idx = 0xFF then None else if unat idx \<ge> length (tracks img) then None else Some (unat idx))"

definition cur_bit_count :: "'a floppy_scheme \<Rightarrow> u64" where
  "cur_bit_count d = (case cur_track d of None \<Rightarrow> 0 | Some i \<Rightarrow> ucast (bit_count (tracks (woz d) ! i)))"

definition track_len :: "'a floppy_scheme hooks \<Rightarrow> 'a floppy_scheme \<Rightarrow> u64" where
  "track_len h d = (if cur_bit_count d \<noteq> 0 then cur_bit_count d else empty_bits_hook h)"

definition rescale :: "u64 \<Rightarrow> u64 \<Rightarrow> u64 \<Rightarrow> u64" where
  "rescale old_bits new_bits head =
     (let head = (if new_bits \<noteq> 0 \<and> old_bits \<noteq> 0 then ucast ((ucast head * ucast new_bits :: 128 word) div ucast old_bits) else head)
      in if new_bits \<noteq> 0 then head mod (new_bits * POSITION_FP_MUL) else head)"

definition update_track_ptr :: "'a floppy_scheme hooks \<Rightarrow> 'a floppy_scheme \<Rightarrow> 'a floppy_scheme" where
  "update_track_ptr h d =
     (let old_bits = track_len h d;
          d = d\<lparr>cur_track := track_index (woz d) (tmap_index_hook h d)\<rparr>;
          head = rescale old_bits (track_len h d) (head_position d)
      in d\<lparr>head_position := head, read_position := head\<rparr>)"

section \<open>Pulses\<close>

definition get_random_bit :: "'a floppy_scheme \<Rightarrow> u8 \<times> 'a floppy_scheme" where
  "get_random_bit d =
     (let r = push_bit 1 (random_bits d) OR drop_bit 63 (random_bits d) in (ucast (r AND 1), d\<lparr>random_bits := r\<rparr>))"

text \<open>The amplifier of the base class, which the 3.5 inch drive keeps.\<close>

definition read_amplifier :: "u8 \<Rightarrow> 'a floppy_scheme \<Rightarrow> u8 \<times> 'a floppy_scheme" where
  "read_amplifier b d =
     (let d = d\<lparr>windowBits := push_bit 1 (windowBits d) OR ucast b\<rparr>
      in if windowBits d AND 0x0F = 0 then get_random_bit d else (b, d))"

definition next_position :: "'a floppy_scheme hooks \<Rightarrow> 'a floppy_scheme \<Rightarrow> 'a floppy_scheme" where
  "next_position h d =
     (let pos = read_position d + POSITION_FP_MUL; len = track_len h d
      in d\<lparr>read_position := (if len \<noteq> 0 then pos mod (len * POSITION_FP_MUL) else pos)\<rparr>)"

text \<open>The bit under the head: the index, the byte it is in and the bit of the byte.\<close>

definition bit_index_of :: "'a floppy_scheme \<Rightarrow> u64" where
  "bit_index_of d = drop_bit POSITION_FP_SHIFT (read_position d) mod cur_bit_count d"

definition surface_bit :: "'a floppy_scheme hooks \<Rightarrow> 'a floppy_scheme \<Rightarrow> u8 option" where
  "surface_bit h d =
     (case cur_track d of
        None \<Rightarrow> Some 0
      | Some i \<Rightarrow>
          if \<not> spinning_hook h d \<or> cur_bit_count d = 0 then Some 0
          else let bi = bit_index_of d; byte_idx = unat (drop_bit 3 bi); trk = tracks (woz d) ! i
               in if byte_idx \<ge> length (bits trk) then None
                  else Some (drop_bit (unat (7 - (bi AND 7))) (bits trk ! byte_idx) AND 1))"

definition read_pulse :: "'a floppy_scheme hooks \<Rightarrow> 'a floppy_scheme \<Rightarrow> (u8 \<times> 'a floppy_scheme) option" where
  "read_pulse h d = do {
     b \<leftarrow> surface_bit h d;
     let (b, d) = amplifier_hook h b d;
     Some (b, next_position h d)
   }"

definition put_bit :: "u8 \<Rightarrow> u64 \<Rightarrow> u8 list \<Rightarrow> u8 list option" where
  "put_bit b bi bs =
     (let byte_idx = unat (drop_bit 3 bi); mask = push_bit (unat (7 - (bi AND 7))) 1 :: u8
      in if byte_idx \<ge> length bs then None
         else Some (bs[byte_idx := (if b AND 1 \<noteq> 0 then bs ! byte_idx OR mask else bs ! byte_idx AND NOT mask)]))"

definition write_surface :: "u8 \<Rightarrow> nat \<Rightarrow> 'a floppy_scheme \<Rightarrow> 'a floppy_scheme option" where
  "write_surface b i d = do {
     bs \<leftarrow> put_bit b (bit_index_of d) (bits (tracks (woz d) ! i));
     Some (d\<lparr>woz := (woz d)\<lparr>tracks := (tracks (woz d))[i := (tracks (woz d) ! i)\<lparr>bits := bs\<rparr>]\<rparr>, modified := True\<rparr>)
   }"

definition write_pulse :: "'a floppy_scheme hooks \<Rightarrow> u8 \<Rightarrow> 'a floppy_scheme \<Rightarrow> 'a floppy_scheme option" where
  "write_pulse h b d = do {
     d \<leftarrow> (case cur_track d of
            None \<Rightarrow> Some d
          | Some i \<Rightarrow> if spinning_hook h d \<and> cur_bit_count d > 0 \<and> write_gate_hook h d then write_surface b i d else Some d);
     Some (next_position h d)
   }"

definition tick_no_write :: "'a floppy_scheme hooks \<Rightarrow> 'a floppy_scheme \<Rightarrow> 'a floppy_scheme" where
  "tick_no_write h d = next_position h d"

definition set_writing :: "bool \<Rightarrow> 'a floppy_scheme \<Rightarrow> 'a floppy_scheme" where
  "set_writing b d = d\<lparr>writing := b\<rparr>"

definition restart_cell_phase :: "'a floppy_scheme \<Rightarrow> 'a floppy_scheme" where
  "restart_cell_phase d = d\<lparr>head_position := head_position d AND NOT POSITION_FP_MASK\<rparr>"

section \<open>The passage of time\<close>

definition note_spinning_inputs_changed ::
    "'a floppy_scheme hooks \<Rightarrow> u64 \<Rightarrow> bool \<Rightarrow> 'a floppy_scheme \<Rightarrow> 'a floppy_scheme" where
  "note_spinning_inputs_changed h now was_spinning d =
     (if \<not> was_spinning \<and> spinning_hook h d then d\<lparr>last_cycle := now\<rparr> else d)"

definition set_enable :: "'a floppy_scheme hooks \<Rightarrow> u64 \<Rightarrow> bool \<Rightarrow> 'a floppy_scheme \<Rightarrow> 'a floppy_scheme" where
  "set_enable h now b d = note_spinning_inputs_changed h now (spinning_hook h d) (d\<lparr>enable := b\<rparr>)"

definition reset_drive :: "'a floppy_scheme \<Rightarrow> 'a floppy_scheme" where
  "reset_drive d = d\<lparr>enable := False\<rparr>"

text \<open>How many bit cells the sequencer is to be clocked through, and where the read position is moved.\<close>

definition catch_up :: "'a floppy_scheme hooks \<Rightarrow> 'a floppy_scheme \<Rightarrow> u64 \<times> 'a floppy_scheme" where
  "catch_up h d =
     (let track_bits = track_len h d;
          head_bit = drop_bit POSITION_FP_SHIFT (head_position d); read_bit = drop_bit POSITION_FP_SHIFT (read_position d) in
      if track_bits = 0 then
        let bits_to_sim = head_bit - read_bit
        in if bits_to_sim > MAX_BITS_TO_SIM
           then (MAX_BITS_TO_SIM, d\<lparr>read_position := (head_bit - MAX_BITS_TO_SIM) * POSITION_FP_MUL\<rparr>)
           else (bits_to_sim, d)
      else
        let bits_to_sim = (head_bit - read_bit) mod track_bits
        in if bits_to_sim > MAX_BITS_TO_SIM \<and> \<not> writing d
           then let snap_bit = (head_bit mod track_bits + track_bits - MAX_BITS_TO_SIM) mod track_bits
                in (MAX_BITS_TO_SIM, d\<lparr>read_position := snap_bit * POSITION_FP_MUL\<rparr>)
           else (bits_to_sim, d))"

definition fast_forward :: "'a floppy_scheme hooks \<Rightarrow> u64 \<Rightarrow> 'a floppy_scheme \<Rightarrow> (u64 \<times> 'a floppy_scheme) option" where
  "fast_forward h now d =
     (let elapsed = now - last_cycle d; d = d\<lparr>last_cycle := now\<rparr> in
      if \<not> spinning_hook h d then Some (0, d)
      else do {
        d \<leftarrow> (if advance_per_cycle d = 0 then map_option (\<lambda>a. d\<lparr>advance_per_cycle := a\<rparr>) (head_advance_hook h d) else Some d);
        Some (catch_up h (d\<lparr>head_position := head_position d + elapsed * advance_per_cycle d\<rparr>))
      })"

section \<open>Mounting\<close>

definition unmount_base :: "'a floppy_scheme \<Rightarrow> 'a floppy_scheme" where
  "unmount_base d = d\<lparr>woz := new_woz, cur_track := None, read_position := 0, head_position := 0, last_cycle := 0,
     advance_per_cycle := 0, is_mounted := False, media_d := None, modified := False\<rparr>"

text \<open>The part of \<^verbatim>\<open>mount\<close> after the image has been read.\<close>

definition insert_disk ::
    "'a floppy_scheme hooks \<Rightarrow> u64 \<Rightarrow> media_descriptor \<Rightarrow> 'a floppy_scheme \<Rightarrow> 'a floppy_scheme option" where
  "insert_disk h now media d =
     (let d = update_track_ptr h (d\<lparr>read_position := 0, head_position := 0, last_cycle := now, cur_track := None\<rparr>);
          locked = (media_type media = MEDIA_WOZ \<and> write_protected (info (woz d)) \<noteq> 0);
          media = (if locked then media\<lparr>media_write_protected := True\<rparr> else media);
          d = d\<lparr>write_protect := of_bool (media_write_protected media), is_mounted := True, media_d := Some media, modified := False\<rparr>
      in map_option (\<lambda>a. d\<lparr>advance_per_cycle := a\<rparr>) (head_advance_hook h d))"

definition mount_base ::
    "'a floppy_scheme hooks \<Rightarrow> host_io \<Rightarrow> u64 \<Rightarrow> media_descriptor \<Rightarrow> files \<Rightarrow> 'a floppy_scheme \<Rightarrow> (bool \<times> 'a floppy_scheme) option" where
  "mount_base h io now media fs d =
     (let d = (if is_mounted d then unmount_hook h d else d) in
      if media_type media \<noteq> MEDIA_WOZ \<and> nibblizer_hook h = None then Some (False, d)
      else do {
        (rc, img) \<leftarrow> (if media_type media = MEDIA_WOZ then load io (filename media) (woz d) fs
                      else Some (import_image_op (the (nibblizer_hook h)) io (woz d) (Some media) fs));
        if rc \<noteq> 0 then Some (False, d\<lparr>woz := img, is_mounted := False\<rparr>)
        else map_option (Pair True) (insert_disk h now media (d\<lparr>woz := img\<rparr>))
      })"

section \<open>Writing back\<close>

definition sidecar_path :: "media_descriptor \<Rightarrow> string" where
  "sidecar_path media = filename media @ ''.written.woz''"

text \<open>Saving the image to a path; the flag says whether it worked.\<close>

definition save_to :: "host_io \<Rightarrow> string \<Rightarrow> files \<Rightarrow> 'a floppy_scheme \<Rightarrow> bool \<times> files \<times> 'a floppy_scheme" where
  "save_to io path fs d = (let (rc, img, fs') = save io path (woz d) fs in (rc = 0, fs', d\<lparr>woz := img\<rparr>))"

definition save_written_sidecar ::
    "host_io \<Rightarrow> media_descriptor \<Rightarrow> files \<Rightarrow> 'a floppy_scheme \<Rightarrow> bool \<times> files \<times> 'a floppy_scheme" where
  "save_written_sidecar io media fs d = save_to io (sidecar_path media) fs d"

definition write_media ::
    "'a floppy_scheme hooks \<Rightarrow> host_io \<Rightarrow> media_descriptor \<Rightarrow> files \<Rightarrow> 'a floppy_scheme \<Rightarrow> (bool \<times> files \<times> 'a floppy_scheme) option" where
  "write_media h io media fs d =
     (if media_type media = MEDIA_NYBBLE \<or> media_type media = MEDIA_BLK then
        case nibblizer_hook h of
          None \<Rightarrow> Some (False, fs, d)
        | Some nib \<Rightarrow> do {
            (rc, fs') \<leftarrow> export_image_op nib io (woz d) media fs;
            Some (if rc = EXPORT_LOSSY then save_written_sidecar io media fs' d else (rc = 0, fs', d))
          }
      else if media_type media = MEDIA_WOZ \<and> unsaved_chunks (woz d) \<noteq> [] then Some (save_written_sidecar io media fs d)
      else if media_type media = MEDIA_WOZ then Some (save_to io (filename media) fs d)
      else Some (save_written_sidecar io media fs d))"

definition writeback ::
    "'a floppy_scheme hooks \<Rightarrow> host_io \<Rightarrow> files \<Rightarrow> 'a floppy_scheme \<Rightarrow> (bool \<times> files \<times> 'a floppy_scheme) option" where
  "writeback h io fs d =
     (case media_d d of
        None \<Rightarrow> Some (False, fs, d)
      | Some media \<Rightarrow>
          if \<not> modified d then Some (True, fs, d)
          else if media_write_protected media then Some (True, fs, d\<lparr>modified := False\<rparr>)
          else do {
            (ok, fs', d) \<leftarrow> write_media h io media fs d;
            Some (ok, fs', if ok then d\<lparr>modified := False\<rparr> else d)
          })"

end
