(* ===== verification/Floppy_Head.thy ===== *)
theory Floppy_Head
  imports Floppy_Woz
begin

text \<open>
  The head of a floppy drive: positions as natural numbers, the laws of the virtual functions as a locale that both
  drives interpret, and what follows from them about pulses, the catching up with the rotating disk, and the surface.
\<close>

section \<open>Positions as numbers\<close>

text \<open>The tracks hold the bytes of their bits, the current track is one of them, and the read position is on it.\<close>

definition sound_track :: "woz_track_t \<Rightarrow> bool" where
  "sound_track trk \<longleftrightarrow> (unat (bit_count trk) + 7) div 8 \<le> length (bits trk)"

definition head_ok :: "'a floppy_scheme hooks \<Rightarrow> 'a floppy_scheme \<Rightarrow> bool" where
  "head_ok h d \<longleftrightarrow> (\<forall>i. cur_track d = Some i \<longrightarrow> i < length (tracks (woz d))) \<and> (\<forall>trk \<in> set (tracks (woz d)). sound_track trk) \<and>
     (track_len h d \<noteq> 0 \<longrightarrow> unat (read_position d) < unat (track_len h d) * 128)"

text \<open>The read position is on the bit the head is over.\<close>

definition synced :: "'a floppy_scheme hooks \<Rightarrow> 'a floppy_scheme \<Rightarrow> bool" where
  "synced h d \<longleftrightarrow> track_len h d \<noteq> 0 \<and> unat (head_position d) div 128 mod unat (track_len h d) = unat (read_position d) div 128"

lemma unat_ucast_32_64 [simp]: "unat (ucast (w :: u32) :: u64) = unat w"
proof -
  have "unat w < 2 ^ LENGTH(32)" by (rule unsigned_less)
  then show ?thesis by (simp add: unsigned_ucast_eq take_bit_nat_eq_self_iff)
qed

lemma ucast_8_64_0: "(ucast (w :: u8) :: u64) = 0 \<longleftrightarrow> w = 0"
proof -
  have "unat w < 2 ^ LENGTH(8)" by (rule unsigned_less)
  then have "unat (ucast w :: u64) = unat w" by (simp add: unsigned_ucast_eq take_bit_nat_eq_self_iff)
  then show ?thesis by (simp flip: unat_eq_zero)
qed

lemma cur_bit_count_less: "unat (cur_bit_count d) < 2 ^ 32"
proof (cases "cur_track d")
  case (Some i)
  then have "unat (cur_bit_count d) = unat (bit_count (tracks (woz d) ! i))"
    by (simp add: cur_bit_count_def)
  then show ?thesis using unsigned_less [of "bit_count (tracks (woz d) ! i)"] by simp
qed (simp add: cur_bit_count_def)

lemma cur_bit_count_0: "cur_track d = Some i \<Longrightarrow> cur_bit_count d = 0 \<longleftrightarrow> bit_count (tracks (woz d) ! i) = 0"
  using unat_ucast_32_64 [of "bit_count (tracks (woz d) ! i)"] by (simp add: cur_bit_count_def flip: unat_eq_zero)

lemma unat_shift [simp]: "unat (drop_bit POSITION_FP_SHIFT w :: u64) = unat w div 128"
  by (simp add: position_consts drop_bit_eq_div unat_div)

lemma track_len_cong: "woz d = woz d' \<Longrightarrow> cur_track d = cur_track d' \<Longrightarrow> track_len h d = track_len h d'"
  by (simp add: track_len_def cur_bit_count_def cong: option.case_cong)

lemma track_len_simps [simp]:
  "track_len h (d\<lparr>last_cycle := t\<rparr>) = track_len h d" "track_len h (d\<lparr>read_position := p\<rparr>) = track_len h d"
  "track_len h (d\<lparr>head_position := p\<rparr>) = track_len h d" "track_len h (d\<lparr>advance_per_cycle := a\<rparr>) = track_len h d"
  "track_len h (d\<lparr>enable := e\<rparr>) = track_len h d" "track_len h (d\<lparr>writing := e\<rparr>) = track_len h d"
  "track_len h (d\<lparr>windowBits := w\<rparr>) = track_len h d" "track_len h (d\<lparr>random_bits := r\<rparr>) = track_len h d"
  "track_len h (d\<lparr>modified := e\<rparr>) = track_len h d"
  by (rule track_len_cong; simp)+

lemma next_position_simps [simp]:
  "woz (next_position h d) = woz d" "cur_track (next_position h d) = cur_track d" "head_position (next_position h d) = head_position d"
  "enable (next_position h d) = enable d" "floppy.more (next_position h d) = floppy.more d"
  "track_len h (next_position h d) = track_len h d" "last_cycle (next_position h d) = last_cycle d"
  "advance_per_cycle (next_position h d) = advance_per_cycle d" "modified (next_position h d) = modified d"
  by (simp_all add: next_position_def Let_def)

lemma bit_place:
  fixes w :: u64
  shows "unat (drop_bit 3 w) = unat w div 8" "unat (7 - (w AND 7)) = 7 - unat w mod 8"
proof -
  show "unat (drop_bit 3 w) = unat w div 8" by (simp add: drop_bit_eq_div unat_div)
  have "w AND 7 = take_bit 3 w" by (simp add: take_bit_eq_mask mask_eq_exp_minus_1)
  moreover have "unat (take_bit 3 w) = unat w mod 8" by (simp add: take_bit_eq_mod unat_mod)
  ultimately show "unat (7 - (w AND 7)) = 7 - unat w mod 8" by (simp add: unat_sub word_le_nat_alt)
qed

lemma put_bit_bits:
  assumes "put_bit b bi bs = Some bs'"
  shows "length bs' = length bs" "i div 8 < length bs \<Longrightarrow> stored_bit bs' i = (if i = unat bi then b AND 1 \<noteq> 0 else stored_bit bs i)"
proof -
  show "length bs' = length bs" using assms by (auto simp: put_bit_def Let_def split: if_splits)
  assume i: "i div 8 < length bs"
  have same: "i = unat bi \<longleftrightarrow> i div 8 = unat bi div 8 \<and> 7 - i mod 8 = 7 - unat bi mod 8"
  proof -
    have "i mod 8 < 8" "unat bi mod 8 < 8" by simp_all
    then have "7 - i mod 8 = 7 - unat bi mod 8 \<longleftrightarrow> i mod 8 = unat bi mod 8" by linarith
    then show ?thesis by (metis div_mult_mod_eq)
  qed
  show "stored_bit bs' i = (if i = unat bi then b AND 1 \<noteq> 0 else stored_bit bs i)"
    using assms i unfolding same
    by (auto simp: put_bit_def Let_def bit_place stored_bit_def nth_list_update bit_simps split: if_splits)
qed

text \<open>A number of pulses in a row.\<close>

fun read_pulses :: "'a floppy_scheme hooks \<Rightarrow> nat \<Rightarrow> 'a floppy_scheme \<Rightarrow> (u8 list \<times> 'a floppy_scheme) option" where
  "read_pulses h 0 d = Some ([], d)"
| "read_pulses h (Suc n) d = do {
     (b, d) \<leftarrow> read_pulse h d;
     (bs, d) \<leftarrow> read_pulses h n d;
     Some (b # bs, d)
   }"

section \<open>The laws of the virtual functions and what follows\<close>

locale drive =
  fixes h :: "'a floppy_scheme hooks"
  assumes spinning_more: "enable d = enable d' \<Longrightarrow> floppy.more d = floppy.more d' \<Longrightarrow> spinning_hook h d = spinning_hook h d'"
    and gate_more: "floppy.more d = floppy.more d' \<Longrightarrow> write_gate_hook h d = write_gate_hook h d'"
    and tmap_more: "floppy.more d = floppy.more d' \<Longrightarrow> tmap_index_hook h d = tmap_index_hook h d'"
    and amplifier_frame: "\<exists>w r. snd (amplifier_hook h b d) = d\<lparr>windowBits := w, random_bits := r\<rparr>"
    and empty_bits: "unat (empty_bits_hook h) < 2 ^ 32"
begin

lemma track_len_less: "unat (track_len h d) < 2 ^ 32"
  using cur_bit_count_less [of d] empty_bits by (simp add: track_len_def)

lemma unat_track_bits: "unat (track_len h d * POSITION_FP_MUL) = unat (track_len h d) * 128"
  using track_len_less [of d] by (simp add: position_consts unat_word_ariths)

lemma next_position_number:
  assumes "track_len h d \<noteq> 0" "unat (read_position d) < unat (track_len h d) * 128"
  shows "unat (read_position (next_position h d)) = (unat (read_position d) + 128) mod (unat (track_len h d) * 128)"
proof -
  have "unat (read_position d + POSITION_FP_MUL) = unat (read_position d) + 128"
    using assms track_len_less [of d] by (simp add: position_consts unat_word_ariths)
  then show ?thesis
    using assms(1) by (simp add: next_position_def Let_def unat_mod unat_track_bits)
qed

lemma head_ok_next: "head_ok h d \<Longrightarrow> head_ok h (next_position h d)"
  using next_position_number [of d] by (auto simp: head_ok_def unat_gt_0)

lemma next_position_bit:
  assumes "track_len h d \<noteq> 0" "unat (read_position d) < unat (track_len h d) * 128"
  shows "unat (read_position (next_position h d)) div 128 = (unat (read_position d) div 128 + 1) mod unat (track_len h d)"
proof -
  let ?L = "unat (track_len h d)" and ?p = "unat (read_position d)"
  have "(?p + 128) mod (?L * 128) div 128 = ((?p + 128) div 128) mod ?L"
    using mod_mult2_eq [of "?p + 128" 128 ?L] by (simp add: mult.commute)
  moreover have "(?p + 128) div 128 = ?p div 128 + 1" by simp
  ultimately show ?thesis by (simp only: next_position_number [OF assms])
qed

text \<open>Reading is always inside the track, and leaves the surface and the head alone.\<close>

lemma bit_index_in_track:
  assumes "head_ok h d" "cur_track d = Some i" "cur_bit_count d \<noteq> 0"
  shows "unat (bit_index_of d) < unat (bit_count (tracks (woz d) ! i))" "i < length (tracks (woz d))"
    "unat (drop_bit 3 (bit_index_of d)) < length (bits (tracks (woz d) ! i))" "unat (bit_index_of d) = unat (read_position d) div 128"
proof -
  let ?trk = "tracks (woz d) ! i"
  have n: "unat (cur_bit_count d) = unat (bit_count ?trk)" using assms(2) by (simp add: cur_bit_count_def)
  have "unat (bit_index_of d) = unat (read_position d) div 128 mod unat (cur_bit_count d)"
    by (simp add: bit_index_of_def unat_mod)
  moreover have "unat (read_position d) < unat (cur_bit_count d) * 128"
    using assms(1,3) by (simp add: head_ok_def track_len_def)
  then have "unat (read_position d) div 128 < unat (cur_bit_count d)" by (simp add: less_mult_imp_div_less)
  ultimately show idx: "unat (bit_index_of d) = unat (read_position d) div 128" "unat (bit_index_of d) < unat (bit_count ?trk)"
    by (simp_all add: n)
  show i: "i < length (tracks (woz d))" using assms(1,2) by (simp add: head_ok_def)
  then have "(unat (bit_count ?trk) + 7) div 8 \<le> length (bits ?trk)" using assms(1) by (simp add: head_ok_def sound_track_def)
  then show "unat (drop_bit 3 (bit_index_of d)) < length (bits ?trk)"
    using idx(2) by (simp add: drop_bit_eq_div unat_div)
qed

lemma read_pulse_returns:
  assumes "head_ok h d"
  shows "\<exists>b w r. read_pulse h d = Some (b, next_position h (d\<lparr>windowBits := w, random_bits := r\<rparr>))"
proof -
  have "surface_bit h d \<noteq> None"
    using bit_index_in_track(3) [OF assms] by (auto simp: surface_bit_def Let_def not_le split: option.split)
  then obtain b where b: "surface_bit h d = Some b" by blast
  obtain b' w r where "amplifier_hook h b d = (b', d\<lparr>windowBits := w, random_bits := r\<rparr>)"
    using amplifier_frame [of b d] by (cases "amplifier_hook h b d") auto
  then show ?thesis by (auto simp: read_pulse_def b)
qed

lemma head_ok_frame: "head_ok h (d\<lparr>windowBits := w, random_bits := r\<rparr>) = head_ok h d"
  by (simp add: head_ok_def)

lemma read_pulse_keeps:
  assumes "head_ok h d" "read_pulse h d = Some (b, d')"
  shows "head_ok h d'" "woz d' = woz d" "cur_track d' = cur_track d" "enable d' = enable d" "floppy.more d' = floppy.more d"
    "head_position d' = head_position d" "track_len h d' = track_len h d" "modified d' = modified d"
    "read_position d' = read_position (next_position h d)"
proof -
  obtain w r where d': "d' = next_position h (d\<lparr>windowBits := w, random_bits := r\<rparr>)"
    using read_pulse_returns [OF assms(1)] assms(2) by auto
  show "head_ok h d'" unfolding d' using assms(1) by (intro head_ok_next) (simp add: head_ok_frame)
  show "woz d' = woz d" "cur_track d' = cur_track d" "enable d' = enable d" "floppy.more d' = floppy.more d"
    "head_position d' = head_position d" "track_len h d' = track_len h d" "modified d' = modified d"
    by (simp_all add: d')
  show "read_position d' = read_position (next_position h d)" by (simp add: d' next_position_def Let_def)
qed

text \<open>Catching up: after as many pulses as \<open>catch_up\<close> asks for the read position is where the head is.\<close>

lemma catch_up_frame:
  "catch_up h d = (n, d') \<Longrightarrow> \<exists>p. d' = d\<lparr>read_position := p\<rparr>"
  by (auto simp: catch_up_def Let_def split: if_splits intro: exI [of _ "read_position d"])

lemma catch_up_lag:
  assumes "head_ok h d" "track_len h d \<noteq> 0" "unat (read_position d) div 128 \<le> unat (head_position d) div 128"
    and "catch_up h d = (n, d')"
  shows "unat (read_position d') < unat (track_len h d) * 128"
    "(unat (read_position d') div 128 + unat n) mod unat (track_len h d) = unat (head_position d) div 128 mod unat (track_len h d)"
    "writing d \<or> unat n \<le> 32" "unat n < unat (track_len h d)"
proof -
  let ?L = "unat (track_len h d)" and ?r = "unat (read_position d) div 128" and ?b = "unat (head_position d) div 128"
  let ?rb = "drop_bit POSITION_FP_SHIFT (read_position d)" and ?hb = "drop_bit POSITION_FP_SHIFT (head_position d)"
  have L: "0 < ?L" "?L < 2 ^ 32" using assms(2) track_len_less [of d] by (simp_all add: unat_gt_0)
  have range: "unat (read_position d) < ?L * 128" using assms(1,2) by (simp add: head_ok_def)
  have "unat (?hb - ?rb) = ?b - ?r"
    using assms(3) by (subst unat_sub) (simp_all add: word_le_nat_alt)
  then have lag: "unat ((?hb - ?rb) mod track_len h d) = (?b - ?r) mod ?L" by (simp add: unat_mod)
  have "unat (read_position d') < ?L * 128 \<and> (unat (read_position d') div 128 + unat n) mod ?L = ?b mod ?L \<and>
    (writing d \<or> unat n \<le> 32) \<and> unat n < ?L"
  proof (cases "(?hb - ?rb) mod track_len h d > MAX_BITS_TO_SIM \<and> \<not> writing d")
    case False
    then have d': "d' = d" "n = (?hb - ?rb) mod track_len h d"
      using assms(2,4) by (auto simp: catch_up_def Let_def split: if_splits)
    have "(?r + (?b - ?r) mod ?L) mod ?L = ?b mod ?L"
      using assms(3) by (simp add: mod_add_right_eq)
    then show ?thesis
      using range L(1) False by (auto simp: d' lag word_less_nat_alt MAX_BITS_TO_SIM_def not_less)
  next
    case True
    let ?snap = "(?hb mod track_len h d + track_len h d - MAX_BITS_TO_SIM) mod track_len h d"
    have d': "d' = d\<lparr>read_position := ?snap * POSITION_FP_MUL\<rparr>" "n = MAX_BITS_TO_SIM"
      using True assms(2,4) by (auto simp: catch_up_def Let_def split: if_splits)
    have "32 < (?b - ?r) mod ?L" using True by (simp add: word_less_nat_alt lag MAX_BITS_TO_SIM_def)
    then have big: "32 < ?L" using L(1) mod_less_divisor [of ?L "?b - ?r"] by linarith
    have m: "?b mod ?L < ?L" using L(1) by simp
    have "unat (?hb mod track_len h d + track_len h d) = ?b mod ?L + ?L"
      using m L(2) by (simp add: unat_word_ariths unat_mod)
    then have "unat (?hb mod track_len h d + track_len h d - MAX_BITS_TO_SIM) = ?b mod ?L + ?L - 32"
      using big by (subst unat_sub) (simp_all add: word_le_nat_alt MAX_BITS_TO_SIM_def)
    then have snap: "unat ?snap = (?b mod ?L + ?L - 32) mod ?L" by (simp add: unat_mod)
    then have less: "unat ?snap < ?L" using L(1) by simp
    then have pos: "unat (?snap * POSITION_FP_MUL) = unat ?snap * 128"
      using L(2) by (simp add: unat_word_ariths POSITION_FP_MUL_def)
    have "((?b mod ?L + ?L - 32) mod ?L + 32) mod ?L = (?b mod ?L + ?L - 32 + 32) mod ?L"
      by (rule mod_add_left_eq)
    then have "(unat ?snap + 32) mod ?L = ?b mod ?L" using big snap by simp
    then show ?thesis using less pos big by (simp add: d' MAX_BITS_TO_SIM_def)
  qed
  then show "unat (read_position d') < ?L * 128" "(unat (read_position d') div 128 + unat n) mod ?L = ?b mod ?L"
    "writing d \<or> unat n \<le> 32" "unat n < ?L" by simp_all
qed

lemma read_pulses_advance:
  assumes "head_ok h d" "track_len h d \<noteq> 0"
  shows "\<exists>bs d'. read_pulses h n d = Some (bs, d') \<and> length bs = n \<and> head_ok h d' \<and>
    unat (read_position d') div 128 = (unat (read_position d) div 128 + n) mod unat (track_len h d) \<and>
    woz d' = woz d \<and> cur_track d' = cur_track d \<and> head_position d' = head_position d \<and> enable d' = enable d \<and>
    floppy.more d' = floppy.more d \<and> track_len h d' = track_len h d"
  using assms
proof (induction n arbitrary: d)
  case 0
  then have "unat (read_position d) div 128 < unat (track_len h d)"
    by (simp add: head_ok_def less_mult_imp_div_less)
  then show ?case using 0 by simp
next
  case (Suc n)
  obtain b d1 where d1: "read_pulse h d = Some (b, d1)" using read_pulse_returns [OF Suc.prems(1)] by blast
  note keeps = read_pulse_keeps [OF Suc.prems(1) d1]
  have "unat (read_position d1) div 128 = (unat (read_position d) div 128 + 1) mod unat (track_len h d)"
    using next_position_bit [OF Suc.prems(2)] Suc.prems keeps(9) by (simp add: head_ok_def)
  moreover obtain bs d' where "read_pulses h n d1 = Some (bs, d')" "length bs = n" "head_ok h d'"
    "unat (read_position d') div 128 = (unat (read_position d1) div 128 + n) mod unat (track_len h d)"
    "woz d' = woz d" "cur_track d' = cur_track d" "head_position d' = head_position d" "enable d' = enable d"
    "floppy.more d' = floppy.more d" "track_len h d' = track_len h d"
    using Suc.IH [OF keeps(1)] Suc.prems(2) keeps by auto
  ultimately show ?case by (auto simp: d1 mod_add_left_eq)
qed

lemma fast_forward_sync:
  assumes "head_ok h d" "synced h d" "spinning_hook h d" "advance_per_cycle d \<noteq> 0"
    and "unat (head_position d) + unat (now - last_cycle d) * unat (advance_per_cycle d) < 2 ^ 64"
  shows "\<exists>n d1 bs d'. fast_forward h now d = Some (n, d1) \<and> (writing d \<or> unat n \<le> 32) \<and> unat n < unat (track_len h d) \<and>
    read_pulses h (unat n) d1 = Some (bs, d') \<and> head_ok h d' \<and> synced h d' \<and>
    unat (head_position d') = unat (head_position d) + unat (now - last_cycle d) * unat (advance_per_cycle d) \<and>
    woz d' = woz d \<and> cur_track d' = cur_track d"
proof -
  let ?e = "(now - last_cycle d) * advance_per_cycle d"
  define d0 where "d0 = d\<lparr>last_cycle := now, head_position := head_position d + ?e\<rparr>"
  have head: "unat (head_position d0) = unat (head_position d) + unat (now - last_cycle d) * unat (advance_per_cycle d)"
    using assms(5) by (simp add: d0_def unat_word_ariths mod_less)
  have d0: "head_ok h d0" "track_len h d0 = track_len h d" "read_position d0 = read_position d" "writing d0 = writing d"
    "woz d0 = woz d" "cur_track d0 = cur_track d"
    using assms(1) by (simp_all add: d0_def head_ok_def)
  have L: "track_len h d \<noteq> 0" using assms(2) by (simp add: synced_def)
  have "unat (read_position d) div 128 \<le> unat (head_position d) div 128"
    using assms(2) by (metis synced_def mod_less_eq_dividend)
  also have "\<dots> \<le> unat (head_position d0) div 128" using head by (simp add: div_le_mono)
  finally have behind: "unat (read_position d0) div 128 \<le> unat (head_position d0) div 128" by (simp add: d0(3))
  obtain n d1 where c: "catch_up h d0 = (n, d1)" by (cases "catch_up h d0")
  note lag = catch_up_lag [OF d0(1) _ behind c, unfolded d0(2,4), OF L]
  obtain p where d1: "d1 = d0\<lparr>read_position := p\<rparr>" using catch_up_frame [OF c] by blast
  then have ok1: "head_ok h d1" "track_len h d1 = track_len h d" "woz d1 = woz d" "cur_track d1 = cur_track d"
    "head_position d1 = head_position d0"
    using d0 lag(1) L by (simp_all add: head_ok_def)
  have "spinning_hook h (d\<lparr>last_cycle := now\<rparr>)" using assms(3) spinning_more [of "d\<lparr>last_cycle := now\<rparr>" d] by simp
  then have ff: "fast_forward h now d = Some (n, d1)"
    using assms(4) c by (simp add: fast_forward_def Let_def d0_def)
  obtain bs d' where "read_pulses h (unat n) d1 = Some (bs, d')" "head_ok h d'"
    "unat (read_position d') div 128 = (unat (read_position d1) div 128 + unat n) mod unat (track_len h d)"
    "woz d' = woz d" "cur_track d' = cur_track d" "head_position d' = head_position d0" "track_len h d' = track_len h d"
    using read_pulses_advance [OF ok1(1), of "unat n"] L ok1 by auto
  moreover from this have "synced h d'" using lag(2) L by (simp add: synced_def)
  ultimately show ?thesis using ff lag(3,4) head by auto
qed

text \<open>Writing replaces the bit under the head and no other.\<close>

lemma surface_is_stream:
  assumes "head_ok h d" "cur_track d = Some i" "cur_bit_count d \<noteq> 0" "spinning_hook h d"
  shows "surface_bit h d = Some (of_bool (stream (tracks (woz d) ! i) ! (unat (read_position d) div 128)))"
proof -
  note idx = bit_index_in_track [OF assms(1-3)]
  have "drop_bit n b AND 1 = of_bool (bit b n)" for n and b :: u8
    by (simp add: and_one_eq bit_iff_odd_drop_bit mod_2_eq_odd)
  moreover have "unat (read_position d) div 128 < unat (bit_count (tracks (woz d) ! i))" using idx(1,4) by simp
  ultimately show ?thesis
    using assms idx(3,4) by (simp add: surface_bit_def Let_def bit_place stream_def stored_bit_def)
qed

lemma write_pulse_spec:
  assumes "head_ok h d"
  shows "\<exists>d'. write_pulse h b d = Some d' \<and> head_ok h d' \<and> cur_track d' = cur_track d \<and> enable d' = enable d \<and>
    floppy.more d' = floppy.more d \<and> head_position d' = head_position d \<and> track_len h d' = track_len h d \<and>
    read_position d' = read_position (next_position h d) \<and> map bit_count (tracks (woz d')) = map bit_count (tracks (woz d)) \<and>
    map stream (tracks (woz d')) =
      (case cur_track d of
         Some i \<Rightarrow> if spinning_hook h d \<and> cur_bit_count d \<noteq> 0 \<and> write_gate_hook h d
           then (map stream (tracks (woz d)))[i := (stream (tracks (woz d) ! i))[unat (read_position d) div 128 := (b AND 1 \<noteq> 0)]]
           else map stream (tracks (woz d))
       | None \<Rightarrow> map stream (tracks (woz d)))"
proof (cases "\<exists>i. cur_track d = Some i \<and> spinning_hook h d \<and> cur_bit_count d \<noteq> 0 \<and> write_gate_hook h d")
  case False
  then have "write_pulse h b d = Some (next_position h d)"
    by (auto simp: write_pulse_def word_gt_0 split: option.split)
  then show ?thesis using False assms head_ok_next [of d] by (auto split: option.split)
next
  case True
  then obtain i where i: "cur_track d = Some i" "spinning_hook h d" "cur_bit_count d \<noteq> 0" "write_gate_hook h d" by blast
  let ?trk = "tracks (woz d) ! i"
  note idx = bit_index_in_track [OF assms i(1,3)]
  obtain bs where bs: "put_bit b (bit_index_of d) (bits ?trk) = Some bs"
    using idx(3) by (simp add: put_bit_def Let_def)
  define d1 where "d1 = d\<lparr>woz := (woz d)\<lparr>tracks := (tracks (woz d))[i := ?trk\<lparr>bits := bs\<rparr>]\<rparr>, modified := True\<rparr>"
  have w: "write_pulse h b d = Some (next_position h d1)"
    using i bs by (simp add: write_pulse_def write_surface_def d1_def word_gt_0)
  have sound: "sound_track ?trk" using assms idx(2) by (simp add: head_ok_def)
  have "stream (?trk\<lparr>bits := bs\<rparr>) = (stream ?trk)[unat (read_position d) div 128 := (b AND 1 \<noteq> 0)]"
  proof (rule nth_equalityI)
    fix j assume "j < length (stream (?trk\<lparr>bits := bs\<rparr>))"
    then have j: "j < unat (bit_count ?trk)" by simp
    then have "j div 8 < length (bits ?trk)" using sound by (simp add: sound_track_def)
    then show "stream (?trk\<lparr>bits := bs\<rparr>) ! j = (stream ?trk)[unat (read_position d) div 128 := (b AND 1 \<noteq> 0)] ! j"
      using put_bit_bits(2) [OF bs] j idx(4) by (simp add: stream_def nth_list_update)
  qed simp
  moreover have len: "track_len h d1 = track_len h d"
    using i(1) idx(2) by (simp add: track_len_def cur_bit_count_def d1_def)
  moreover have "sound_track (?trk\<lparr>bits := bs\<rparr>)" using sound put_bit_bits(1) [OF bs] by (simp add: sound_track_def)
  then have "\<forall>trk \<in> set (tracks (woz d1)). sound_track trk"
    using assms set_update_subset_insert [of "tracks (woz d)" i "?trk\<lparr>bits := bs\<rparr>"] by (auto simp: head_ok_def d1_def)
  then have "head_ok h d1"
    using assms len i(1) idx(2) by (simp add: head_ok_def) (simp add: d1_def)
  moreover have "read_position (next_position h d1) = read_position (next_position h d)"
    by (simp add: next_position_def Let_def len) (simp add: d1_def)
  moreover have "(map bit_count (tracks (woz d)))[i := bit_count ?trk] = map bit_count (tracks (woz d))"
    by (metis list_update_id map_update)
  ultimately show ?thesis
    using w i head_ok_next [of d1] by (auto simp: d1_def map_update)
qed

lemma update_track_ptr_ok:
  assumes "\<forall>trk \<in> set (tracks (woz d)). sound_track trk"
  shows "head_ok h (update_track_ptr h d)" "track_len h (update_track_ptr h d) \<noteq> 0 \<Longrightarrow> synced h (update_track_ptr h d)"
    "cur_track (update_track_ptr h d) = track_index (woz d) (tmap_index_hook h d)"
    "woz (update_track_ptr h d) = woz d" "floppy.more (update_track_ptr h d) = floppy.more d" "enable (update_track_ptr h d) = enable d"
proof -
  let ?d1 = "d\<lparr>cur_track := track_index (woz d) (tmap_index_hook h d)\<rparr>"
  let ?p = "rescale (track_len h d) (track_len h ?d1) (head_position d)"
  have u: "update_track_ptr h d = ?d1\<lparr>head_position := ?p, read_position := ?p\<rparr>"
    by (simp add: update_track_ptr_def Let_def)
  show "cur_track (update_track_ptr h d) = track_index (woz d) (tmap_index_hook h d)"
    "woz (update_track_ptr h d) = woz d" "floppy.more (update_track_ptr h d) = floppy.more d" "enable (update_track_ptr h d) = enable d"
    by (simp_all add: u)
  have p: "unat ?p < unat (track_len h ?d1) * 128" if "track_len h ?d1 \<noteq> 0"
    using that by (simp add: rescale_def Let_def unat_mod unat_track_bits unat_gt_0)
  then show "head_ok h (update_track_ptr h d)"
    using assms by (auto simp: head_ok_def u track_index_def Let_def split: if_splits)
  show "synced h (update_track_ptr h d)" if "track_len h (update_track_ptr h d) \<noteq> 0"
    using that p by (simp add: synced_def u less_mult_imp_div_less)
qed

text \<open>The passage of time keeps the head on the track.\<close>

lemma catch_up_ok:
  assumes "head_ok h d" "catch_up h d = (n, d')"
  shows "head_ok h d'" "woz d' = woz d" "floppy.more d' = floppy.more d"
proof -
  obtain p where d': "d' = d\<lparr>read_position := p\<rparr>" using catch_up_frame [OF assms(2)] by blast
  then show "woz d' = woz d" "floppy.more d' = floppy.more d" by simp_all
  have "unat p < unat (track_len h d) * 128" if "track_len h d \<noteq> 0"
  proof -
    have L: "0 < unat (track_len h d)" "unat (track_len h d) < 2 ^ 32" using that track_len_less [of d] by (simp_all add: unat_gt_0)
    have snap: "unat (x mod track_len h d * POSITION_FP_MUL) < unat (track_len h d) * 128" for x
    proof -
      have "unat (x mod track_len h d) < unat (track_len h d)" using L(1) by (simp add: unat_mod)
      then show ?thesis using L(2) by (simp add: unat_word_ariths POSITION_FP_MUL_def)
    qed
    have "read_position d' = read_position d \<or> (\<exists>x. read_position d' = x mod track_len h d * POSITION_FP_MUL)"
      using assms(2) that by (auto simp: catch_up_def Let_def split: if_splits)
    then show ?thesis using assms(1) that snap by (auto simp: head_ok_def d')
  qed
  then show "head_ok h d'" using assms(1) by (auto simp: head_ok_def d')
qed

lemma fast_forward_ok:
  assumes "head_ok h d" "fast_forward h now d = Some (n, d')"
  shows "head_ok h d' \<and> woz d' = woz d \<and> floppy.more d' = floppy.more d"
proof -
  let ?d = "d\<lparr>last_cycle := now\<rparr>" and ?e = "now - last_cycle d"
  show "head_ok h d' \<and> woz d' = woz d \<and> floppy.more d' = floppy.more d"
  proof (cases "spinning_hook h ?d")
    case False
    then show ?thesis using assms by (auto simp: fast_forward_def Let_def head_ok_def)
  next
    case True
    then obtain a where "catch_up h (?d\<lparr>head_position := head_position d + ?e * a\<rparr>) = (n, d') \<or>
        catch_up h (?d\<lparr>advance_per_cycle := a, head_position := head_position d + ?e * a\<rparr>) = (n, d')"
      using assms(2) by (auto simp: fast_forward_def Let_def split: if_splits bind_splits) blast
    then obtain d0 where d0: "catch_up h d0 = (n, d')" "head_ok h d0" "woz d0 = woz d" "floppy.more d0 = floppy.more d"
      using assms(1) by (elim disjE) (auto simp: head_ok_def)
    then show ?thesis using catch_up_ok [OF d0(2,1)] by simp
  qed
qed

lemma fast_forward_returns:
  assumes "head_advance_hook h (d\<lparr>last_cycle := now\<rparr>) \<noteq> None"
  shows "fast_forward h now d \<noteq> None"
  using assms by (auto simp: fast_forward_def Let_def)

lemma insert_disk_ok:
  assumes "insert_disk h now media d = Some d'" "\<forall>trk \<in> set (tracks (woz d)). sound_track trk"
  shows "head_ok h d'" "woz d' = woz d" "floppy.more d' = floppy.more d" "enable d' = enable d"
    "is_mounted d'" "\<not> modified d'" "track_len h d' \<noteq> 0 \<Longrightarrow> synced h d'"
proof -
  let ?d0 = "d\<lparr>read_position := 0, head_position := 0, last_cycle := now, cur_track := None\<rparr>"
  let ?d1 = "update_track_ptr h ?d0"
  obtain w m a where d': "d' = ?d1\<lparr>write_protect := w, is_mounted := True, media_d := Some m, modified := False, advance_per_cycle := a\<rparr>"
    using assms(1) by (auto simp: insert_disk_def Let_def split: if_splits)
  have len: "track_len h d' = track_len h ?d1" by (rule track_len_cong) (simp_all add: d')
  note ptr = update_track_ptr_ok [of ?d0]
  show "head_ok h d'" using ptr(1) assms(2) len by (simp add: head_ok_def) (simp add: d')
  show "synced h d'" if "track_len h d' \<noteq> 0" using ptr(2) assms(2) that len by (simp add: synced_def) (simp add: d')
  show "woz d' = woz d" "floppy.more d' = floppy.more d" "enable d' = enable d" "is_mounted d'" "\<not> modified d'"
    using ptr(4-6) assms(2) by (simp_all add: d')
qed

end

end
