(* ===== verification/Std_Heap.thy ===== *)
theory Std_Heap
  imports Prelude "HOL-Library.Multiset"
begin

text \<open>
  The heap algorithms of the C++ library the event timer calls: \<^verbatim>\<open>std::push_heap\<close>,
  \<^verbatim>\<open>std::pop_heap\<close> and \<^verbatim>\<open>std::make_heap\<close> on a vector, ordered by a key with the
  smallest in front.  The locale \<open>std_heap\<close> is what the language standard promises of them; the
  binary heap on lists below provides it.  Clients use the promises only, so that the order among
  equal keys, which the standard leaves open, plays no role.
\<close>

section \<open>The contract\<close>

definition parent :: "nat \<Rightarrow> nat" where
  "parent i = (i - 1) div 2"

lemma parent_less: "0 < i \<Longrightarrow> parent i < i"
  by (simp add: parent_def)

lemma parent_iff: "0 < j \<Longrightarrow> parent j = i \<longleftrightarrow> j = 2 * i + 1 \<or> j = 2 * i + 2"
  unfolding parent_def by arith

definition is_heap :: "('a \<Rightarrow> 'k::linorder) \<Rightarrow> 'a list \<Rightarrow> bool" where
  "is_heap key xs \<longleftrightarrow> (\<forall>i < length xs. 0 < i \<longrightarrow> key (xs ! (parent i)) \<le> key (xs ! i))"

lemma is_heap_Nil [simp]: "is_heap key []"
  by (simp add: is_heap_def)

lemma is_heap_front_nth:
  assumes "is_heap key xs" and "i < length xs"
  shows "key (xs ! 0) \<le> key (xs ! i)"
  using assms(2)
proof (induction i rule: less_induct)
  case (less i)
  show ?case
  proof (cases "i = 0")
    case False
    then have "parent i < i" by (simp add: parent_less)
    then have "key (xs ! 0) \<le> key (xs ! (parent i))" using less by simp
    also have "\<dots> \<le> key (xs ! i)" using assms(1) False less.prems by (simp add: is_heap_def)
    finally show ?thesis .
  qed simp
qed

lemma is_heap_hd_le: "is_heap key xs \<Longrightarrow> x \<in> set xs \<Longrightarrow> key (hd xs) \<le> key x"
  using is_heap_front_nth by (metis hd_conv_nth in_set_conv_nth length_pos_if_in_set list.size(3) not_less0)

locale std_heap =
  fixes push :: "('a \<Rightarrow> 'k::linorder) \<Rightarrow> 'a list \<Rightarrow> 'a list"
    and pop :: "('a \<Rightarrow> 'k) \<Rightarrow> 'a list \<Rightarrow> 'a list"
    and make :: "('a \<Rightarrow> 'k) \<Rightarrow> 'a list \<Rightarrow> 'a list"
  assumes push_mset: "mset (push key xs) = mset xs"
    and push_heap: "is_heap key xs \<Longrightarrow> is_heap key (push key (xs @ [x]))"
    and pop_mset: "mset (pop key xs) = mset xs"
    and pop_last: "xs \<noteq> [] \<Longrightarrow> last (pop key xs) = hd xs"
    and pop_heap: "is_heap key xs \<Longrightarrow> is_heap key (butlast (pop key xs))"
    and make_mset: "mset (make key xs) = mset xs"
    and make_heap: "is_heap key (make key xs)"
begin

lemma push_set [simp]: "set (push key xs) = set xs"
  using push_mset by (metis set_mset_mset)

lemma make_set [simp]: "set (make key xs) = set xs"
  using make_mset by (metis set_mset_mset)

text \<open>The pair \<^verbatim>\<open>pop_heap\<close>, \<^verbatim>\<open>pop_back\<close> removes the front element and nothing else.\<close>

lemma pop_back_mset:
  assumes "xs \<noteq> []"
  shows "mset xs = add_mset (hd xs) (mset (butlast (pop key xs)))"
proof -
  have "pop key xs \<noteq> []" using assms pop_mset [of key xs] by auto
  then have "mset (pop key xs) = mset (butlast (pop key xs)) + {#last (pop key xs)#}"
    by (metis append_butlast_last_id mset_append mset_single_iff_right)
  with assms show ?thesis by (simp add: pop_mset pop_last)
qed

lemma pop_back_length: "xs \<noteq> [] \<Longrightarrow> length (butlast (pop key xs)) < length xs"
  using pop_back_mset [of xs key] by (metis lessI size_add_mset size_mset)

end

section \<open>A binary heap on lists\<close>

definition swap :: "'a list \<Rightarrow> nat \<Rightarrow> nat \<Rightarrow> 'a list" where
  "swap xs i j = xs[i := xs ! j, j := xs ! i]"

lemma swap_mset [simp]: "i < length xs \<Longrightarrow> j < length xs \<Longrightarrow> mset (swap xs i j) = mset xs"
  by (simp add: swap_def mset_swap)

lemma swap_length [simp]: "length (swap xs i j) = length xs"
  by (simp add: swap_def)

lemma swap_nth:
  "i < length xs \<Longrightarrow> j < length xs \<Longrightarrow>
   swap xs i j ! k = (if k = j then xs ! i else if k = i then xs ! j else xs ! k)"
  by (simp add: swap_def nth_list_update)

function sift_up :: "('a \<Rightarrow> 'k::linorder) \<Rightarrow> nat \<Rightarrow> 'a list \<Rightarrow> 'a list" where
  "sift_up key i xs =
     (if i = 0 \<or> key (xs ! (parent i)) \<le> key (xs ! i) then xs
      else sift_up key (parent i) (swap xs (parent i) i))"
  by pat_completeness auto
termination
  by (relation "measure (\<lambda>(_, i, _). i)") (auto simp: parent_less)

function sift_down :: "('a \<Rightarrow> 'k::linorder) \<Rightarrow> nat \<Rightarrow> 'a list \<Rightarrow> 'a list" where
  "sift_down key i xs =
     (let l = 2 * i + 1; r = 2 * i + 2;
          c = (if r < length xs \<and> key (xs ! r) < key (xs ! l) then r else l)
      in if l < length xs \<and> key (xs ! c) < key (xs ! i) then sift_down key c (swap xs i c) else xs)"
  by pat_completeness auto
termination
  by (relation "measure (\<lambda>(_, i, xs). length xs - i)") auto

declare sift_up.simps [simp del] sift_down.simps [simp del]

definition push_heap :: "('a \<Rightarrow> 'k::linorder) \<Rightarrow> 'a list \<Rightarrow> 'a list" where
  "push_heap key xs = sift_up key (length xs - 1) xs"

definition pop_heap :: "('a \<Rightarrow> 'k::linorder) \<Rightarrow> 'a list \<Rightarrow> 'a list" where
  "pop_heap key xs =
     (case xs of [] \<Rightarrow> [] | [x] \<Rightarrow> [x]
      | x # y # ys \<Rightarrow> sift_down key 0 (last (y # ys) # butlast (y # ys)) @ [x])"

definition make_heap :: "('a \<Rightarrow> 'k::linorder) \<Rightarrow> 'a list \<Rightarrow> 'a list" where
  "make_heap key xs = foldl (\<lambda>h x. push_heap key (h @ [x])) [] xs"

text \<open>While an element moves, the heap order is broken at its place only: above it on the way up,
  below it on the way down.\<close>

definition heap_but_up :: "('a \<Rightarrow> 'k::linorder) \<Rightarrow> nat \<Rightarrow> 'a list \<Rightarrow> bool" where
  "heap_but_up key i xs \<longleftrightarrow> (\<forall>j < length xs. 0 < j \<longrightarrow>
     (j \<noteq> i \<longrightarrow> key (xs ! (parent j)) \<le> key (xs ! j)) \<and>
     (parent j = i \<and> 0 < i \<longrightarrow> key (xs ! (parent i)) \<le> key (xs ! j)))"

definition heap_but_down :: "('a \<Rightarrow> 'k::linorder) \<Rightarrow> nat \<Rightarrow> 'a list \<Rightarrow> bool" where
  "heap_but_down key i xs \<longleftrightarrow> (\<forall>j < length xs. 0 < j \<longrightarrow>
     (parent j \<noteq> i \<longrightarrow> key (xs ! (parent j)) \<le> key (xs ! j)) \<and>
     (parent j = i \<and> 0 < i \<longrightarrow> key (xs ! (parent i)) \<le> key (xs ! j)))"

lemma sift_up_mset: "i < length xs \<Longrightarrow> mset (sift_up key i xs) = mset xs"
proof (induction key i xs rule: sift_up.induct)
  case (1 key i xs)
  show ?case
  proof (cases "i = 0 \<or> key (xs ! (parent i)) \<le> key (xs ! i)")
    case False
    moreover have "parent i < length xs" using parent_less [of i] "1.prems" False by linarith
    ultimately show ?thesis
      using 1 by (subst sift_up.simps) simp
  qed (simp add: sift_up.simps)
qed

lemma sift_up_heap: "i < length xs \<Longrightarrow> heap_but_up key i xs \<Longrightarrow> is_heap key (sift_up key i xs)"
proof (induction key i xs rule: sift_up.induct)
  case (1 key i xs)
  let ?p = "parent i"
  show ?case
  proof (cases "i = 0 \<or> key (xs ! ?p) \<le> key (xs ! i)")
    case True
    then have "is_heap key xs" using "1.prems" by (auto simp: heap_but_up_def is_heap_def)
    with True show ?thesis by (simp add: sift_up.simps)
  next
    case False
    have p: "?p < length xs" "?p < i" using False "1.prems" parent_less [of i] by auto
    have "heap_but_up key ?p (swap xs ?p i)"
      unfolding heap_but_up_def
    proof (intro allI impI conjI)
      fix j assume j: "j < length (swap xs ?p i)" "0 < j"
      note N = swap_nth [OF p(1) "1.prems"(1)]
      have H: "(j \<noteq> i \<longrightarrow> key (xs ! (parent j)) \<le> key (xs ! j)) \<and>
          (parent j = i \<and> 0 < i \<longrightarrow> key (xs ! ?p) \<le> key (xs ! j))"
        using "1.prems"(2) j by (simp add: heap_but_up_def)
      show "key (swap xs ?p i ! (parent j)) \<le> key (swap xs ?p i ! j)" if "j \<noteq> ?p"
        using H False that by (auto simp: N)
      show "key (swap xs ?p i ! (parent ?p)) \<le> key (swap xs ?p i ! j)"
        if "parent j = ?p \<and> 0 < ?p"
      proof -
        have "parent ?p \<noteq> ?p" "parent ?p \<noteq> i" using that p parent_less [of ?p] by auto
        moreover have "key (xs ! (parent ?p)) \<le> key (xs ! ?p)"
          using "1.prems"(2) p that by (auto simp: heap_but_up_def)
        ultimately show ?thesis using H that by (auto simp: N)
      qed
    qed
    with False p 1 show ?thesis by (subst sift_up.simps) simp
  qed
qed

lemma sift_down_mset: "mset (sift_down key i xs) = mset xs"
proof (induction key i xs rule: sift_down.induct)
  case (1 key i xs)
  then show ?case by (subst sift_down.simps) (auto simp: Let_def)
qed

lemma heap_but_down_child:
  assumes H: "heap_but_down key i xs" and c: "c < length xs" "parent c = i" "0 < c"
    and least: "\<And>j. j < length xs \<Longrightarrow> 0 < j \<Longrightarrow> parent j = i \<Longrightarrow> key (xs ! c) \<le> key (xs ! j)"
    and less: "key (xs ! c) < key (xs ! i)"
  shows "heap_but_down key c (swap xs i c)"
  unfolding heap_but_down_def
proof (intro allI impI conjI)
  fix j assume j: "j < length (swap xs i c)" "0 < j"
  have i: "i < c" "i < length xs" using c parent_less [of c] by auto
  note N = swap_nth [OF i(2) c(1)]
  have Hj: "(parent j \<noteq> i \<longrightarrow> key (xs ! parent j) \<le> key (xs ! j)) \<and>
      (parent j = i \<and> 0 < i \<longrightarrow> key (xs ! parent i) \<le> key (xs ! j))"
    using H j by (simp add: heap_but_down_def)
  show "key (swap xs i c ! parent j) \<le> key (swap xs i c ! j)" if "parent j \<noteq> c"
  proof (cases "parent j = i")
    case True
    then show ?thesis using least [of j] less j that by (auto simp: N)
  next
    case False
    moreover have "j \<noteq> c" using False c by auto
    moreover have "key (xs ! parent j) \<le> key (xs ! c)" if "j = i"
      using H c that j by (auto simp: heap_but_down_def)
    ultimately show ?thesis using Hj \<open>parent j \<noteq> c\<close> by (auto simp: N)
  qed
  show "key (swap xs i c ! parent c) \<le> key (swap xs i c ! j)" if "parent j = c \<and> 0 < c"
  proof -
    have "j \<noteq> c" "j \<noteq> i" using that j parent_less [of j] i by auto
    moreover have "key (xs ! c) \<le> key (xs ! j)" using Hj that c i by auto
    ultimately show ?thesis using c i by (auto simp: N)
  qed
qed

lemma sift_down_heap: "heap_but_down key i xs \<Longrightarrow> is_heap key (sift_down key i xs)"
proof (induction key i xs rule: sift_down.induct)
  case (1 key i xs)
  define c where "c = (if 2 * i + 2 < length xs \<and> key (xs ! (2 * i + 2)) < key (xs ! (2 * i + 1))
    then 2 * i + 2 else 2 * i + 1)"
  have unfold: "sift_down key i xs = (if 2 * i + 1 < length xs \<and> key (xs ! c) < key (xs ! i)
      then sift_down key c (swap xs i c) else xs)"
    by (subst sift_down.simps) (simp only: c_def Let_def)
  have least: "key (xs ! c) \<le> key (xs ! j)" if "j < length xs" "0 < j" "parent j = i" for j
    using that by (auto simp: parent_iff c_def)
  show ?case
  proof (cases "2 * i + 1 < length xs \<and> key (xs ! c) < key (xs ! i)")
    case True
    then have "heap_but_down key c (swap xs i c)"
      using "1.prems" least by (intro heap_but_down_child) (auto simp: c_def parent_iff)
    then have "is_heap key (sift_down key c (swap xs i c))"
      using "1.IH" True by (simp add: c_def)
    with True show ?thesis by (simp add: unfold)
  next
    case False
    have "is_heap key xs"
      unfolding is_heap_def
    proof (intro allI impI)
      fix j assume j: "j < length xs" "0 < j"
      show "key (xs ! parent j) \<le> key (xs ! j)"
      proof (cases "parent j = i")
        case True
        moreover from this have "2 * i + 1 < length xs" using j by (auto simp: parent_iff)
        ultimately show ?thesis using False least [OF j] by auto
      next
        case False
        with "1.prems" j show ?thesis by (simp add: heap_but_down_def)
      qed
    qed
    with False show ?thesis by (simp only: unfold if_False)
  qed
qed

lemma is_heap_append1: "is_heap key xs \<Longrightarrow> heap_but_up key (length xs) (xs @ [x])"
  unfolding heap_but_up_def is_heap_def
proof (intro allI impI conjI)
  fix j assume H: "\<forall>i<length xs. 0 < i \<longrightarrow> key (xs ! parent i) \<le> key (xs ! i)"
    and j: "j < length (xs @ [x])" "0 < j"
  show "key ((xs @ [x]) ! parent j) \<le> key ((xs @ [x]) ! j)" if "j \<noteq> length xs"
    using H j that parent_less [of j] by (simp add: nth_append)
  show "key ((xs @ [x]) ! parent (length xs)) \<le> key ((xs @ [x]) ! j)"
    if "parent j = length xs \<and> 0 < length xs"
    using j that parent_less [of j] by simp
qed

lemma is_heap_replace_front:
  assumes "is_heap key (x # y # ys)"
  shows "heap_but_down key 0 (last (y # ys) # butlast (y # ys))"
  unfolding heap_but_down_def
proof (intro allI impI conjI)
  fix j assume j': "j < length (last (y # ys) # butlast (y # ys))" and "0 < j"
  then have j: "j < length (y # ys)" "0 < j" by (simp_all split: if_splits)
  have N: "(last (y # ys) # butlast (y # ys)) ! k = (x # y # ys) ! k"
    if "0 < k" "k < length (y # ys)" for k
    using that nth_butlast [of "k - 1" "y # ys"] by (cases k) (simp_all del: butlast.simps)
  have "key ((x # y # ys) ! parent j) \<le> key ((x # y # ys) ! j)"
    using assms j by (simp add: is_heap_def)
  then show "key ((last (y # ys) # butlast (y # ys)) ! parent j) \<le> key ((last (y # ys) # butlast (y # ys)) ! j)"
    if "parent j \<noteq> 0"
    using N [of j] N [of "parent j"] that j parent_less [of j] by simp
qed simp

interpretation std: std_heap push_heap pop_heap make_heap
proof
  fix key :: "'a \<Rightarrow> 'k::linorder" and xs :: "'a list" and x :: 'a
  have push: "mset (push_heap key ys) = mset ys" for ys :: "'a list"
    by (cases ys) (simp_all add: push_heap_def sift_up_mset, simp add: sift_up.simps)
  have up: "is_heap key (push_heap key (ys @ [y]))" if "is_heap key ys" for ys and y :: 'a
    using that by (simp add: push_heap_def sift_up_heap is_heap_append1)
  show "mset (push_heap key xs) = mset xs" by (rule push)
  show "is_heap key (push_heap key (xs @ [x]))" if "is_heap key xs" using that by (rule up)
  show "mset (pop_heap key xs) = mset xs"
  proof (cases xs rule: remdups_adj.cases)
    case (3 x y ys)
    have "mset (last (y # ys) # butlast (y # ys)) = mset (butlast (y # ys) @ [last (y # ys)])"
      by (simp only: mset_append) simp
    also have "\<dots> = mset (y # ys)" by (simp only: append_butlast_last_id [OF list.distinct(2)])
    finally show ?thesis using 3 by (simp add: pop_heap_def sift_down_mset)
  qed (simp_all add: pop_heap_def)
  show "last (pop_heap key xs) = hd xs" if "xs \<noteq> []"
    using that by (cases xs rule: remdups_adj.cases) (simp_all add: pop_heap_def)
  show "is_heap key (butlast (pop_heap key xs))" if "is_heap key xs"
  proof (cases xs rule: remdups_adj.cases)
    case (3 x y ys)
    with that have "is_heap key (sift_down key 0 (last (y # ys) # butlast (y # ys)))"
      by (intro sift_down_heap is_heap_replace_front) simp
    with 3 show ?thesis by (simp add: pop_heap_def)
  qed (simp_all add: pop_heap_def)
  have fold: "mset (foldl (\<lambda>h x. push_heap key (h @ [x])) h ys) = mset h + mset ys"
    "is_heap key h \<Longrightarrow> is_heap key (foldl (\<lambda>h x. push_heap key (h @ [x])) h ys)" for h ys
    by (induction ys arbitrary: h) (simp_all add: push up)
  show "mset (make_heap key xs) = mset xs" "is_heap key (make_heap key xs)"
    by (simp_all add: make_heap_def fold)
qed

end
