(* ===== verification/Event_Timer.thy ===== *)
theory Event_Timer
  imports Std_Heap
begin

text \<open>
  The event timer (\<^verbatim>\<open>src/util/EventTimer.hpp\<close>, \<^verbatim>\<open>EventTimer.cpp\<close>): a heap of
  events keyed by the cycle they are due, at most one per instance.  The clock pointer may be null,
  so the current cycle is an option; the labels an event carries for observers do not take part in
  the scheduling and are left out.  A callback may call the timer again, so \<open>processEvents\<close> is a
  partial function: it is shown to return when callbacks only ask for later events.  The abstract
  timer is a map from instances to what is due when.
\<close>

section \<open>State and operations\<close>

record ('c, 'u) event =
  triggerCycles :: u64
  triggerCallback :: "'c option"
  instanceID :: u64
  userData :: 'u

record ('c, 'u) event_timer =
  events :: "('c, 'u) event list"
  next_event_cycle :: u64

definition EventTimer :: "('c, 'u) event_timer" where
  "EventTimer = \<lparr>events = [], next_event_cycle = 0\<rparr>"

definition updateNextEventCycle :: "('c, 'u) event_timer \<Rightarrow> ('c, 'u) event_timer" where
  "updateNextEventCycle t =
     t\<lparr>next_event_cycle := (if events t = [] then - 1 else triggerCycles (hd (events t)))\<rparr>"

fun replace_first :: "('a \<Rightarrow> bool) \<Rightarrow> ('a \<Rightarrow> 'a) \<Rightarrow> 'a list \<Rightarrow> 'a list" where
  "replace_first P f [] = []"
| "replace_first P f (x # xs) = (if P x then f x # xs else x # replace_first P f xs)"

definition in_the_past :: "u64 option \<Rightarrow> u64 \<Rightarrow> bool" where
  "in_the_past clk trig = (case clk of None \<Rightarrow> False | Some cycles \<Rightarrow> trig < cycles)"

definition scheduleEvent ::
    "u64 option \<Rightarrow> u64 \<Rightarrow> 'c option \<Rightarrow> u64 \<Rightarrow> 'u \<Rightarrow> ('c, 'u) event_timer \<Rightarrow> ('c, 'u) event_timer" where
  "scheduleEvent clk trig callback ident ud t =
     (if in_the_past clk trig then t
      else updateNextEventCycle
        (if list_ex (\<lambda>e. instanceID e = ident) (events t) then
           t\<lparr>events := make_heap triggerCycles
              (replace_first (\<lambda>e. instanceID e = ident)
                 (\<lambda>e. e\<lparr>triggerCycles := trig, triggerCallback := callback, userData := ud\<rparr>)
                 (events t))\<rparr>
         else
           t\<lparr>events := push_heap triggerCycles (events t @
              [\<lparr>triggerCycles = trig, triggerCallback = callback, instanceID = ident, userData = ud\<rparr>])\<rparr>))"

definition cancelEvents :: "u64 \<Rightarrow> ('c, 'u) event_timer \<Rightarrow> ('c, 'u) event_timer" where
  "cancelEvents ident t =
     (let kept = filter (\<lambda>e. instanceID e \<noteq> ident) (events t)
      in updateNextEventCycle
        (if length kept \<noteq> length (events t) then t\<lparr>events := make_heap triggerCycles kept\<rparr> else t))"

type_synonym ('c, 'u, 'w) callbacks =
  "'c \<Rightarrow> u64 \<Rightarrow> 'u \<Rightarrow> ('c, 'u) event_timer \<times> 'w \<Rightarrow> ('c, 'u) event_timer \<times> 'w"

definition has_due :: "u64 \<Rightarrow> ('c, 'u) event_timer \<Rightarrow> bool" where
  "has_due now t \<longleftrightarrow> events t \<noteq> [] \<and> triggerCycles (hd (events t)) \<le> now"

definition fire_front ::
    "('c, 'u, 'w) callbacks \<Rightarrow> ('c, 'u) event_timer \<times> 'w \<Rightarrow> ('c, 'u) event_timer \<times> 'w" where
  "fire_front call = (\<lambda>(t, w).
     let e = hd (events t);
         t1 = t\<lparr>events := butlast (pop_heap triggerCycles (events t))\<rparr>
     in case triggerCallback e of None \<Rightarrow> (t1, w)
        | Some c \<Rightarrow> call c (instanceID e) (userData e) (t1, w))"

partial_function (option) process_loop ::
    "('c, 'u, 'w) callbacks \<Rightarrow> u64 \<Rightarrow> ('c, 'u) event_timer \<times> 'w \<Rightarrow> (('c, 'u) event_timer \<times> 'w) option" where
  "process_loop call now s =
     (if has_due now (fst s) then process_loop call now (fire_front call s) else Some s)"

definition processEvents ::
    "('c, 'u, 'w) callbacks \<Rightarrow> u64 \<Rightarrow> ('c, 'u) event_timer \<times> 'w \<Rightarrow> (('c, 'u) event_timer \<times> 'w) option" where
  "processEvents call now s = map_option (apfst updateNextEventCycle) (process_loop call now s)"

definition hasPendingEvents :: "('c, 'u) event_timer \<Rightarrow> bool" where
  "hasPendingEvents t \<longleftrightarrow> events t \<noteq> []"

definition getNextEventCycle :: "('c, 'u) event_timer \<Rightarrow> u64" where
  "getNextEventCycle t = next_event_cycle t"

definition isEventPassed :: "u64 \<Rightarrow> ('c, 'u) event_timer \<Rightarrow> bool" where
  "isEventPassed currentCycles t \<longleftrightarrow> next_event_cycle t \<le> currentCycles"

section \<open>The abstract timer\<close>

definition pending :: "('c, 'u) event_timer \<Rightarrow> u64 \<rightharpoonup> u64 \<times> 'c option \<times> 'u" where
  "pending t = map_of (map (\<lambda>e. (instanceID e, triggerCycles e, triggerCallback e, userData e)) (events t))"

definition timer_ok :: "('c, 'u) event_timer \<Rightarrow> bool" where
  "timer_ok t \<longleftrightarrow> is_heap triggerCycles (events t) \<and> distinct (map instanceID (events t)) \<and>
     (\<forall>e \<in> set (events t). next_event_cycle t \<le> triggerCycles e)"

text \<open>After an operation that looked at the heap, the cached cycle is exactly the earliest one.\<close>

definition next_exact :: "('c, 'u) event_timer \<Rightarrow> bool" where
  "next_exact t \<longleftrightarrow>
     next_event_cycle t = (if events t = [] then - 1 else Min (triggerCycles ` set (events t)))"

lemma timer_ok_EventTimer [simp]: "timer_ok EventTimer"
  by (simp add: timer_ok_def EventTimer_def)

lemma heap_hd_Min:
  "is_heap triggerCycles es \<Longrightarrow> es \<noteq> [] \<Longrightarrow> triggerCycles (hd es) = Min (triggerCycles ` set es)"
  by (intro Min_eqI [symmetric]) (auto intro: is_heap_hd_le)

lemma update_exact [simp]:
  assumes "is_heap triggerCycles (events t)" and "distinct (map instanceID (events t))"
  shows "timer_ok (updateNextEventCycle t) \<and> next_exact (updateNextEventCycle t)"
  using assms heap_hd_Min [of "events t"]
  by (auto simp: updateNextEventCycle_def timer_ok_def next_exact_def is_heap_hd_le)

lemma pending_update [simp]: "pending (updateNextEventCycle t) = pending t"
  by (simp add: pending_def updateNextEventCycle_def)

lemma pending_events: "pending (t\<lparr>events := es\<rparr>) =
    map_of (map (\<lambda>e. (instanceID e, triggerCycles e, triggerCallback e, userData e)) es)"
  by (simp add: pending_def)

lemma pending_mset:
  assumes "mset es = mset (events t)" and "distinct (map instanceID (events t))"
  shows "pending (t\<lparr>events := es\<rparr>) = pending t" "distinct (map instanceID es)"
proof -
  let ?f = "\<lambda>e. (instanceID e, triggerCycles e, triggerCallback e, userData e)"
  have fst: "map fst (map ?f xs) = map instanceID xs" for xs by simp
  have "mset (map instanceID es) = mset (map instanceID (events t))"
    using assms(1) by (simp only: mset_map)
  then show d: "distinct (map instanceID es)" using assms(2) by (metis mset_eq_imp_distinct_iff)
  have "set es = set (events t)" using assms(1) by (metis set_mset_mset)
  then have "set (map ?f es) = set (map ?f (events t))" by simp
  then have "map_of (map ?f es) = map_of (map ?f (events t))"
    using d assms(2) by (intro map_of_inject_set [THEN iffD2]) (simp_all only: fst)
  then show "pending (t\<lparr>events := es\<rparr>) = pending t" by (simp add: pending_def)
qed

lemma replace_first_ids:
  assumes "\<And>e. instanceID (f e) = instanceID e"
  shows "map instanceID (replace_first P f es) = map instanceID es"
  by (induction es) (simp_all add: assms)

lemma map_of_replace_first:
  assumes "list_ex (\<lambda>e. instanceID e = i) es" and "distinct (map instanceID es)"
    and "\<And>e. instanceID e = i \<Longrightarrow> g (f e) = (i, v)" and "\<And>e. fst (g e) = instanceID e"
  shows "map_of (map g (replace_first (\<lambda>e. instanceID e = i) f es)) = (map_of (map g es))(i \<mapsto> v)"
  using assms(1,2)
proof (induction es)
  case (Cons e es)
  have e: "map_of (g e # ys) = (map_of ys)(instanceID e \<mapsto> snd (g e))" for ys
    using assms(4) [of e] by (cases "g e") simp
  show ?case
  proof (cases "instanceID e = i")
    case True
    with assms(3) [of e] show ?thesis by (simp only: replace_first.simps list.map if_True e) (simp add: fun_eq_iff)
  next
    case False
    with Cons show ?thesis by (simp only: replace_first.simps list.map if_False e) auto
  qed
qed simp

lemma map_of_fresh:
  assumes "\<not> list_ex (\<lambda>e. instanceID e = i) es" and "\<And>e. fst (g e) = instanceID e" and "g e = (i, v)"
  shows "map_of (map g (es @ [e])) = (map_of (map g es))(i \<mapsto> v)"
proof -
  have "i \<notin> fst ` set (map g es)" using assms(1,2) by (auto simp: list_ex_iff)
  then have "map_of (map g es) i = None" by (simp only: map_of_eq_None_iff not_False_eq_True)
  then show ?thesis using assms(3) by (auto simp: map_add_def fun_eq_iff split: option.splits)
qed

lemma map_of_filter_ids:
  assumes "\<And>e. fst (g e) = instanceID e"
  shows "map_of (map g (filter (\<lambda>e. instanceID e \<noteq> i) es)) = (map_of (map g es))(i := None)"
proof (induction es)
  case (Cons e es)
  show ?case
  proof (cases "g e")
    case (Pair j v)
    with assms [of e] Cons show ?thesis by (auto simp: fun_eq_iff)
  qed
qed simp

lemma scheduleEvent_spec:
  fixes t :: "('c, 'u) event_timer" and callback :: "'c option" and ident :: u64 and ud :: 'u
  assumes ok: "timer_ok t" and now: "\<not> in_the_past clk trig"
  defines "t' \<equiv> scheduleEvent clk trig callback ident ud t"
  shows "timer_ok t' \<and> next_exact t' \<and> pending t' = (pending t)(ident \<mapsto> (trig, callback, ud))"
proof -
  have d: "distinct (map instanceID (events t))" and h: "is_heap triggerCycles (events t)"
    using ok by (simp_all add: timer_ok_def)
  show ?thesis
  proof (cases "list_ex (\<lambda>e. instanceID e = ident) (events t)")
    case True
    define es where "es = replace_first (\<lambda>e. instanceID e = ident)
      (\<lambda>e. e\<lparr>triggerCycles := trig, triggerCallback := callback, userData := ud\<rparr>) (events t)"
    have d': "distinct (map instanceID (events (t\<lparr>events := es\<rparr>)))"
      using d by (simp add: es_def replace_first_ids)
    have "pending (t\<lparr>events := es\<rparr>) = (pending t)(ident \<mapsto> (trig, callback, ud))"
      unfolding pending_def es_def using True d
      by (simp add: map_of_replace_first [where v = "(trig, callback, ud)"])
    with True now d' show ?thesis
      using pending_mset [OF _ d', of "make_heap triggerCycles es"]
      by (simp add: t'_def scheduleEvent_def std.make_mset std.make_heap es_def [symmetric])
  next
    case False
    define es where "es = events t @
      [\<lparr>triggerCycles = trig, triggerCallback = callback, instanceID = ident, userData = ud\<rparr>]"
    have d': "distinct (map instanceID (events (t\<lparr>events := es\<rparr>)))"
      using d False by (auto simp: es_def list_ex_iff)
    have "pending (t\<lparr>events := es\<rparr>) = (pending t)(ident \<mapsto> (trig, callback, ud))"
      unfolding pending_events unfolding pending_def es_def using False by (intro map_of_fresh) simp_all
    with False now d' show ?thesis
      using pending_mset [OF _ d', of "push_heap triggerCycles es"] std.push_heap [OF h]
      by (simp add: t'_def scheduleEvent_def std.push_mset es_def [symmetric]) (simp add: es_def)
  qed
qed

lemma cancelEvents_spec:
  assumes "timer_ok t"
  shows "timer_ok (cancelEvents ident t) \<and> next_exact (cancelEvents ident t) \<and>
     pending (cancelEvents ident t) = (pending t)(ident := None)"
proof -
  define kept where "kept = filter (\<lambda>e. instanceID e \<noteq> ident) (events t)"
  have d: "distinct (map instanceID (events t))" and h: "is_heap triggerCycles (events t)"
    using assms by (simp_all add: timer_ok_def)
  have d': "distinct (map instanceID (events (t\<lparr>events := kept\<rparr>)))"
    using d by (simp add: kept_def distinct_map_filter)
  have pending: "pending (t\<lparr>events := kept\<rparr>) = (pending t)(ident := None)"
    unfolding pending_events unfolding pending_def kept_def by (rule map_of_filter_ids) simp
  show ?thesis
  proof (cases "length kept = length (events t)")
    case True
    then have "kept = events t"
      unfolding kept_def by (metis filter_id_conv length_filter_less less_irrefl)
    with True pending h d show ?thesis
      by (simp add: cancelEvents_def kept_def [symmetric] Let_def)
  next
    case False
    with pending d' show ?thesis
      using pending_mset [OF _ d', of "make_heap triggerCycles kept"]
      by (simp add: cancelEvents_def kept_def [symmetric] Let_def std.make_mset std.make_heap)
  qed
qed

section \<open>Processing due events\<close>

definition due :: "u64 \<Rightarrow> ('c, 'u) event_timer \<Rightarrow> ('c, 'u) event multiset" where
  "due now t = filter_mset (\<lambda>e. triggerCycles e \<le> now) (mset (events t))"

definition pop_front :: "('c, 'u) event_timer \<Rightarrow> ('c, 'u) event_timer" where
  "pop_front t = t\<lparr>events := butlast (pop_heap triggerCycles (events t))\<rparr>"

lemma fire_front_eq:
  "fire_front call (t, w) = (case triggerCallback (hd (events t)) of None \<Rightarrow> (pop_front t, w)
     | Some c \<Rightarrow> call c (instanceID (hd (events t))) (userData (hd (events t))) (pop_front t, w))"
  by (simp add: fire_front_def pop_front_def Let_def split: option.split)

lemma pop_front_mset: "events t \<noteq> [] \<Longrightarrow> mset (events t) = add_mset (hd (events t)) (mset (events (pop_front t)))"
  using std.pop_back_mset by (simp add: pop_front_def)

lemma pop_front_ok:
  assumes "timer_ok t" and "events t \<noteq> []"
  shows "timer_ok (pop_front t)"
proof -
  note m = pop_front_mset [OF assms(2)]
  then have "set (events (pop_front t)) \<subseteq> set (events t)"
    by (metis set_mset_add_mset_insert set_mset_mset subset_insertI)
  moreover have "mset (map instanceID (events t)) =
      add_mset (instanceID (hd (events t))) (mset (map instanceID (events (pop_front t))))"
    by (simp add: m)
  then have "distinct (map instanceID (events (pop_front t)))"
    using assms(1) by (metis distinct.simps(2) mset.simps(2) mset_eq_imp_distinct_iff timer_ok_def)
  ultimately show ?thesis
    using assms std.pop_heap by (auto simp: timer_ok_def pop_front_def)
qed

lemma pop_front_due: "has_due now t \<Longrightarrow> due now t = add_mset (hd (events t)) (due now (pop_front t))"
  by (simp add: due_def has_due_def pop_front_mset)

lemma no_due:
  assumes "timer_ok t" and "\<not> has_due now t"
  shows "due now t = {#}"
proof -
  have "\<not> triggerCycles e \<le> now" if "e \<in> set (events t)" for e
  proof -
    have "triggerCycles (hd (events t)) \<le> triggerCycles e"
      using assms(1) that by (simp add: timer_ok_def is_heap_hd_le)
    with that assms(2) show ?thesis by (cases "events t") (auto simp: has_due_def)
  qed
  then show ?thesis by (auto simp: due_def)
qed

text \<open>
  The timer's interface for callbacks is \<open>scheduleEvent\<close> and \<open>cancelEvents\<close>, the event vector is
  private.  So a callback is a list of requests and an effect on the rest of the machine, both
  depending on everything the callback can see.
\<close>

datatype ('c, 'u) request = Schedule u64 "'c option" u64 'u | Cancel u64

fun run_request :: "u64 option \<Rightarrow> ('c, 'u) request \<Rightarrow> ('c, 'u) event_timer \<Rightarrow> ('c, 'u) event_timer" where
  "run_request clk (Schedule trig cb i u) t = scheduleEvent clk trig cb i u t"
| "run_request clk (Cancel i) t = cancelEvents i t"

fun later :: "u64 \<Rightarrow> ('c, 'u) request \<Rightarrow> bool" where
  "later now (Schedule trig cb i u) \<longleftrightarrow> now < trig"
| "later now (Cancel i) \<longleftrightarrow> True"

type_synonym ('c, 'u, 'w) scripts =
  "'c \<Rightarrow> u64 \<Rightarrow> 'u \<Rightarrow> ('c, 'u) event_timer \<Rightarrow> 'w \<Rightarrow> ('c, 'u) request list \<times> 'w"

definition scripted :: "u64 option \<Rightarrow> ('c, 'u, 'w) scripts \<Rightarrow> ('c, 'u, 'w) callbacks" where
  "scripted clk script c i u = (\<lambda>(t, w).
     let (rs, w') = script c i u t w in (fold (run_request clk) rs t, w'))"

definition sound_callbacks :: "u64 \<Rightarrow> ('c, 'u, 'w) callbacks \<Rightarrow> bool" where
  "sound_callbacks now call \<longleftrightarrow> (\<forall>c i u t w. timer_ok t \<longrightarrow>
     timer_ok (fst (call c i u (t, w))) \<and> size (due now (fst (call c i u (t, w)))) \<le> size (due now t))"

lemma due_pending:
  assumes "timer_ok t"
  shows "size (due now t) = card {i. \<exists>trig cb u. pending t i = Some (trig, cb, u) \<and> trig \<le> now}"
proof -
  let ?es = "filter (\<lambda>e. triggerCycles e \<le> now) (events t)"
  let ?f = "\<lambda>e. (instanceID e, triggerCycles e, triggerCallback e, userData e)"
  have d: "distinct (map instanceID (events t))" using assms by (simp add: timer_ok_def)
  then have "distinct (map fst (map ?f (events t)))" by (simp add: comp_def)
  then have "pending t i = Some v \<longleftrightarrow> (i, v) \<in> ?f ` set (events t)" for i v
    unfolding pending_def by (subst map_of_eq_Some_iff) simp_all
  then have "{i. \<exists>trig cb u. pending t i = Some (trig, cb, u) \<and> trig \<le> now} = instanceID ` set ?es"
    by force
  also have "card \<dots> = length ?es"
    using distinct_card [of "map instanceID ?es"] d by (simp add: distinct_map_filter)
  finally show ?thesis by (simp add: due_def flip: mset_filter)
qed

lemma run_request_sound:
  assumes "timer_ok t" and "later now r"
  shows "timer_ok (run_request clk r t) \<and> size (due now (run_request clk r t)) \<le> size (due now t)"
proof (cases r)
  case (Schedule trig cb i u)
  show ?thesis
  proof (cases "in_the_past clk trig")
    case True
    with Schedule assms(1) show ?thesis by (simp add: scheduleEvent_def)
  next
    case False
    note spec = scheduleEvent_spec [OF assms(1) False, of cb i u]
    have "card {j. \<exists>a b c. pending (scheduleEvent clk trig cb i u t) j = Some (a, b, c) \<and> a \<le> now} \<le>
        card {j. \<exists>a b c. pending t j = Some (a, b, c) \<and> a \<le> now}"
      using assms(2) Schedule spec by (intro card_mono) (auto split: if_splits)
    then show ?thesis using Schedule spec assms(1) by (simp add: due_pending)
  qed
next
  case (Cancel i)
  note spec = cancelEvents_spec [OF assms(1), of i]
  have "card {j. \<exists>a b c. pending (cancelEvents i t) j = Some (a, b, c) \<and> a \<le> now} \<le>
      card {j. \<exists>a b c. pending t j = Some (a, b, c) \<and> a \<le> now}"
    using spec by (intro card_mono) (auto split: if_splits)
  then show ?thesis using Cancel spec assms(1) by (simp add: due_pending)
qed

lemma run_requests_sound:
  assumes "timer_ok t" and "\<forall>r \<in> set rs. later now r"
  shows "timer_ok (fold (run_request clk) rs t) \<and>
     size (due now (fold (run_request clk) rs t)) \<le> size (due now t)"
  using assms
proof (induction rs arbitrary: t)
  case (Cons r rs)
  then show ?case
    using run_request_sound [of t now r clk] by (force intro: order_trans)
qed simp

lemma scripted_sound:
  assumes "\<And>c i u t w r. r \<in> set (fst (script c i u t w)) \<Longrightarrow> later now r"
  shows "sound_callbacks now (scripted clk script)"
  unfolding sound_callbacks_def
proof (intro allI impI)
  fix c i u and t :: "('a, 'b) event_timer" and w
  assume "timer_ok t"
  then show "timer_ok (fst (scripted clk script c i u (t, w))) \<and>
      size (due now (fst (scripted clk script c i u (t, w)))) \<le> size (due now t)"
    using run_requests_sound [of t "fst (script c i u t w)" now clk] assms
    by (simp add: scripted_def split_beta)
qed

lemma sound_callbacksD:
  assumes "sound_callbacks now call" and "timer_ok t" and "call c i u (t, w) = (t', w')"
  shows "timer_ok t' \<and> size (due now t') \<le> size (due now t)"
  using assms unfolding sound_callbacks_def by (metis fst_conv)

lemma process_loop_returns:
  assumes sound: "sound_callbacks now call" and "timer_ok t"
  shows "\<exists>t' w'. process_loop call now (t, w) = Some (t', w') \<and> timer_ok t' \<and> \<not> has_due now t'"
  using assms(2)
proof (induction "size (due now t)" arbitrary: t w rule: less_induct)
  case less
  show ?case
  proof (cases "has_due now t")
    case True
    then have ne: "events t \<noteq> []" by (simp add: has_due_def)
    obtain t1 w1 where f: "fire_front call (t, w) = (t1, w1)" by fastforce
    have ok: "timer_ok (pop_front t)" using less.prems ne by (rule pop_front_ok)
    then have "timer_ok t1 \<and> size (due now t1) \<le> size (due now (pop_front t))"
      using f sound_callbacksD [OF sound ok] unfolding fire_front_eq
      by (cases "triggerCallback (hd (events t))") auto
    moreover have "size (due now (pop_front t)) < size (due now t)" using True by (simp add: pop_front_due)
    ultimately obtain t' w' where "process_loop call now (t1, w1) = Some (t', w')" "timer_ok t'"
        "\<not> has_due now t'"
      using less.hyps [of t1 w1] by auto
    then show ?thesis using True f by (subst process_loop.simps) simp
  next
    case False
    with less.prems show ?thesis by (subst process_loop.simps) simp
  qed
qed

definition effect :: "('c \<Rightarrow> u64 \<Rightarrow> 'u \<Rightarrow> 'w \<Rightarrow> 'w) \<Rightarrow> ('c, 'u) event \<Rightarrow> 'w \<Rightarrow> 'w" where
  "effect f e w = (case triggerCallback e of None \<Rightarrow> w | Some c \<Rightarrow> f c (instanceID e) (userData e) w)"

definition quiet :: "('c \<Rightarrow> u64 \<Rightarrow> 'u \<Rightarrow> 'w \<Rightarrow> 'w) \<Rightarrow> ('c, 'u, 'w) callbacks" where
  "quiet f c i u = (\<lambda>(t, w). (t, f c i u w))"

lemma fire_front_quiet: "fire_front (quiet f) (t, w) = (pop_front t, effect f (hd (events t)) w)"
  by (simp add: fire_front_eq quiet_def effect_def split: option.split)

lemma process_loop_quiet:
  assumes "timer_ok t"
  shows "\<exists>t' es. process_loop (quiet f) now (t, w) = Some (t', fold (effect f) es w) \<and>
     timer_ok t' \<and> \<not> has_due now t' \<and> mset es = due now t \<and> sorted (map triggerCycles es) \<and>
     mset (events t') = mset (events t) - due now t"
  using assms
proof (induction "length (events t)" arbitrary: t w rule: less_induct)
  case less
  show ?case
  proof (cases "has_due now t")
    case True
    let ?e = "hd (events t)"
    have ne: "events t \<noteq> []" using True by (simp add: has_due_def)
    note m = pop_front_mset [OF ne] and d = pop_front_due [OF True]
    have len: "length (events (pop_front t)) < length (events t)"
      using ne std.pop_back_length by (simp add: pop_front_def)
    obtain t' es where R: "process_loop (quiet f) now (pop_front t, effect f ?e w) =
          Some (t', fold (effect f) es (effect f ?e w))"
        "timer_ok t'" "\<not> has_due now t'" and es: "mset es = due now (pop_front t)"
        "sorted (map triggerCycles es)" "mset (events t') = mset (events (pop_front t)) - due now (pop_front t)"
      using less.hyps [OF len pop_front_ok [OF less.prems ne], of "effect f ?e w"] by blast
    have "set_mset (mset es) \<subseteq> set_mset (mset (events t))"
      unfolding es(1) m by (auto simp: due_def)
    then have "set es \<subseteq> set (events t)" by simp
    then have "\<forall>e \<in> set es. triggerCycles ?e \<le> triggerCycles e"
      using less.prems by (auto simp: timer_ok_def intro: is_heap_hd_le)
    then have "sorted (map triggerCycles (?e # es))" using es(2) by simp
    moreover have "process_loop (quiet f) now (t, w) = Some (t', fold (effect f) (?e # es) w)"
      using True R(1) by (subst process_loop.simps) (simp add: fire_front_quiet)
    moreover have "mset (?e # es) = due now t" "mset (events t') = mset (events t) - due now t"
      using es m d by simp_all
    ultimately show ?thesis using R by blast
  next
    case False
    then have "process_loop (quiet f) now (t, w) = Some (t, fold (effect f) [] w)"
      by (subst process_loop.simps) simp
    with False less.prems show ?thesis using no_due by fastforce
  qed
qed

section \<open>What callbacks ask for\<close>

fun target :: "('c, 'u) request \<Rightarrow> u64" where
  "target (Schedule trig cb i u) = i"
| "target (Cancel i) = i"

text \<open>A callback of instance \<open>i\<close> leaves the other due events alone: it asks for later events only, and schedules or
  cancels no instance that is still due, its own apart.\<close>

definition considerate :: "u64 \<Rightarrow> ('c, 'u, 'w) scripts \<Rightarrow> bool" where
  "considerate now script \<longleftrightarrow> (\<forall>c i u t w. \<forall>r \<in> set (fst (script c i u t w)).
     later now r \<and> (target r = i \<or> target r \<notin> instanceID ` set_mset (due now t)))"

text \<open>What a request does to the map of pending events, and the events of a map that are not due.\<close>

fun abs_request ::
    "u64 option \<Rightarrow> ('c, 'u) request \<Rightarrow> (u64 \<rightharpoonup> u64 \<times> 'c option \<times> 'u) \<Rightarrow> u64 \<rightharpoonup> u64 \<times> 'c option \<times> 'u" where
  "abs_request clk (Schedule trig cb i u) m = (if in_the_past clk trig then m else m(i \<mapsto> (trig, cb, u)))"
| "abs_request clk (Cancel i) m = m(i := None)"

definition not_due :: "u64 \<Rightarrow> (u64 \<rightharpoonup> u64 \<times> 'a) \<Rightarrow> u64 \<rightharpoonup> u64 \<times> 'a" where
  "not_due now m i = (case m i of None \<Rightarrow> None | Some (trig, x) \<Rightarrow> if trig \<le> now then None else Some (trig, x))"

text \<open>The calls that a list of events makes, and callbacks that also write down each call with its requests.\<close>

definition calls :: "('c, 'u) event list \<Rightarrow> ('c \<times> u64 \<times> 'u) list" where
  "calls es = concat (map (\<lambda>e. case triggerCallback e of None \<Rightarrow> [] | Some c \<Rightarrow> [(c, instanceID e, userData e)]) es)"

definition recording ::
    "('c, 'u, 'w) scripts \<Rightarrow> ('c, 'u, 'w \<times> (('c \<times> u64 \<times> 'u) \<times> ('c, 'u) request list) list) scripts" where
  "recording script c i u t = (\<lambda>(w, log). let (rs, w') = script c i u t w in (rs, w', log @ [((c, i, u), rs)]))"

lemma due_set:
  fixes t :: "('c, 'u) event_timer"
  assumes "timer_ok t"
  shows "due now t = mset_set {e. pending t (instanceID e) = Some (triggerCycles e, triggerCallback e, userData e) \<and>
    triggerCycles e \<le> now}"
proof -
  let ?f = "\<lambda>e. (instanceID e, triggerCycles e, triggerCallback e, userData e)"
  have d: "distinct (map instanceID (events t))" using assms by (simp add: timer_ok_def)
  then have "distinct (map fst (map ?f (events t)))" by (simp add: comp_def)
  then have "pending t (instanceID e) = Some (snd (?f e)) \<longleftrightarrow> ?f e \<in> ?f ` set (events t)" for e :: "('c, 'u) event"
    unfolding pending_def by (subst map_of_eq_Some_iff) simp_all
  moreover have "inj (?f :: ('c, 'u) event \<Rightarrow> _)" by (rule injI, rule event.equality) auto
  ultimately have "pending t (instanceID e) = Some (snd (?f e)) \<longleftrightarrow> e \<in> set (events t)" for e
    using inj_image_mem_iff [of ?f e "set (events t)"] by simp
  then have "{e. pending t (instanceID e) = Some (snd (?f e)) \<and> triggerCycles e \<le> now} =
      set (filter (\<lambda>e. triggerCycles e \<le> now) (events t))"
    by auto
  moreover have "distinct (filter (\<lambda>e. triggerCycles e \<le> now) (events t))"
    using d by (simp add: distinct_map)
  ultimately show ?thesis
    using mset_set_set [of "filter (\<lambda>e. triggerCycles e \<le> now) (events t)"] by (simp add: due_def flip: mset_filter)
qed

lemma schedule_past: "in_the_past clk trig \<Longrightarrow> scheduleEvent clk trig cb i u t = t"
  by (simp add: scheduleEvent_def)

lemma run_request_abs:
  "timer_ok t \<Longrightarrow> timer_ok (run_request clk r t) \<and> pending (run_request clk r t) = abs_request clk r (pending t)"
  by (cases r) (simp_all add: scheduleEvent_spec cancelEvents_spec schedule_past)

lemma run_request_due:
  assumes "timer_ok t" "later now r" "target r \<notin> instanceID ` set_mset (due now t)"
  shows "due now (run_request clk r t) = due now t"
    "not_due now (pending (run_request clk r t)) = abs_request clk r (not_due now (pending t))"
proof -
  have free: "\<not> x \<le> now" if a: "pending t (target r) = Some (x, y)" for x y
  proof
    assume "x \<le> now"
    obtain e where "e \<in> set (events t)" "instanceID e = target r" "triggerCycles e = x"
      using a by (auto simp: pending_def dest!: map_of_SomeD)
    with \<open>x \<le> now\<close> assms(3) show False by (force simp: due_def)
  qed
  have "pending (run_request clk r t) i = Some (x, y) \<and> x \<le> now \<longleftrightarrow> pending t i = Some (x, y) \<and> x \<le> now" for i x y
    using run_request_abs [OF assms(1), of clk r] assms(2) free [of x y]
    by (cases r; cases "i = target r") auto
  then show "due now (run_request clk r t) = due now t"
    using run_request_abs [OF assms(1), of clk r] assms(1) by (simp add: due_set)
  show "not_due now (pending (run_request clk r t)) = abs_request clk r (not_due now (pending t))"
    using run_request_abs [OF assms(1), of clk r] assms(2)
    by (cases r) (auto simp: not_due_def fun_eq_iff split: option.splits)
qed

lemma run_requests_due:
  assumes "timer_ok t" "\<forall>r \<in> set rs. later now r \<and> target r \<notin> instanceID ` set_mset (due now t)"
  shows "timer_ok (fold (run_request clk) rs t) \<and> due now (fold (run_request clk) rs t) = due now t \<and>
    not_due now (pending (fold (run_request clk) rs t)) = fold (abs_request clk) rs (not_due now (pending t))"
  using assms
proof (induction rs arbitrary: t)
  case (Cons r rs)
  then show ?case
    using run_request_due [of t now r clk] run_request_abs [of t clk r] by auto
qed simp

lemma pop_front_pending:
  assumes "timer_ok t" "has_due now t"
  shows "instanceID (hd (events t)) \<notin> instanceID ` set (events (pop_front t))"
    "not_due now (pending (pop_front t)) = not_due now (pending t)"
proof -
  let ?f = "\<lambda>e. (instanceID e, triggerCycles e, triggerCallback e, userData e)"
  have ne: "events t \<noteq> []" using assms(2) by (simp add: has_due_def)
  note m = pop_front_mset [OF ne]
  have d: "distinct (map instanceID (events t))" using assms(1) by (simp add: timer_ok_def)
  let ?es = "hd (events t) # events (pop_front t)"
  have p: "pending (t\<lparr>events := ?es\<rparr>) = pending t" and d': "distinct (map instanceID ?es)"
    using pending_mset [of ?es t, OF _ d] m by simp_all
  show fresh: "instanceID (hd (events t)) \<notin> instanceID ` set (events (pop_front t))"
    using d' by simp
  have "pending t = (pending (pop_front t))(instanceID (hd (events t)) \<mapsto> snd (?f (hd (events t))))"
    unfolding p [symmetric] pending_events by (simp add: pending_def)
  moreover have "pending (pop_front t) (instanceID (hd (events t))) = None"
    using fresh by (auto simp: pending_def map_of_eq_None_iff image_image)
  ultimately show "not_due now (pending (pop_front t)) = not_due now (pending t)"
    using assms(2) by (auto simp: not_due_def fun_eq_iff has_due_def)
qed

lemma fire_front_scripted:
  fixes t :: "('c, 'u) event_timer" and script :: "('c, 'u, 'w) scripts"
  assumes "timer_ok t" "has_due now t" "considerate now script"
  obtains t1 w1 log1 where "fire_front (scripted clk script) (t, w) = (t1, w1)"
    "fire_front (scripted clk (recording script)) (t, w, log) = (t1, w1, log @ log1)" "timer_ok t1"
    "due now t = add_mset (hd (events t)) (due now t1)" "map fst log1 = calls [hd (events t)]"
    "not_due now (pending t1) = fold (abs_request clk) (concat (map snd log1)) (not_due now (pending t))"
proof -
  let ?e = "hd (events t)" and ?p = "pop_front t"
  have ok: "timer_ok ?p" using pop_front_ok [OF assms(1)] assms(2) by (simp add: has_due_def)
  note pp = pop_front_pending [OF assms(1,2)] and d = pop_front_due [OF assms(2)]
  show thesis
  proof (cases "triggerCallback ?e")
    case None
    then show thesis
      using that [of ?p w "[]"] ok pp d by (simp add: fire_front_eq calls_def)
  next
    case (Some c)
    obtain rs w1 where scr: "script c (instanceID ?e) (userData ?e) ?p w = (rs, w1)" by fastforce
    have "instanceID ?e \<notin> instanceID ` set_mset (due now ?p)" using pp(1) by (auto simp: due_def)
    moreover have "later now r \<and> (target r = instanceID ?e \<or> target r \<notin> instanceID ` set_mset (due now ?p))"
      if "r \<in> set rs" for r
      using assms(3) that unfolding considerate_def by (metis scr fst_conv)
    ultimately have "\<forall>r \<in> set rs. later now r \<and> target r \<notin> instanceID ` set_mset (due now ?p)" by metis
    note rs = run_requests_due [OF ok this, of clk]
    show thesis
      using that [of "fold (run_request clk) rs ?p" w1 "[((c, instanceID ?e, userData ?e), rs)]"] rs Some scr pp(2) d
      by (simp add: fire_front_eq calls_def scripted_def recording_def)
  qed
qed

lemma process_loop_recorded:
  fixes t :: "('c, 'u) event_timer" and script :: "('c, 'u, 'w) scripts"
  assumes "considerate now script" "timer_ok t"
  shows "\<exists>t' w' log' es. process_loop (scripted clk script) now (t, w) = Some (t', w') \<and>
     process_loop (scripted clk (recording script)) now (t, w, log) = Some (t', w', log @ log') \<and>
     timer_ok t' \<and> map fst log' = calls es \<and> mset es = due now t \<and> sorted (map triggerCycles es) \<and>
     pending t' = fold (abs_request clk) (concat (map snd log')) (not_due now (pending t))"
  using assms(2)
proof (induction "size (due now t)" arbitrary: t w log rule: less_induct)
  case less
  show ?case
  proof (cases "has_due now t")
    case True
    let ?e = "hd (events t)"
    from fire_front_scripted [OF less.prems True assms(1), of clk w log]
    obtain t1 w1 log1 where f: "fire_front (scripted clk script) (t, w) = (t1, w1)"
      "fire_front (scripted clk (recording script)) (t, w, log) = (t1, w1, log @ log1)" and t1: "timer_ok t1"
      "due now t = add_mset ?e (due now t1)" "map fst log1 = calls [?e]"
      "not_due now (pending t1) = fold (abs_request clk) (concat (map snd log1)) (not_due now (pending t))" .
    from t1(2) have "size (due now t1) < size (due now t)" by simp
    from less.hyps [OF this t1(1), of w1 "log @ log1"] obtain t' w' log' es where
      R: "process_loop (scripted clk script) now (t1, w1) = Some (t', w')"
      "process_loop (scripted clk (recording script)) now (t1, w1, log @ log1) = Some (t', w', (log @ log1) @ log')"
      "timer_ok t'" and es: "map fst log' = calls es" "mset es = due now t1" "sorted (map triggerCycles es)"
      "pending t' = fold (abs_request clk) (concat (map snd log')) (not_due now (pending t1))" by metis
    have "set_mset (mset es) \<subseteq> set_mset (mset (events t))"
      unfolding es(2) using t1(2) by (metis due_def add_mset_add_single multiset_filter_subset mset_subset_eq_add_left
        set_mset_mono subset_mset.order_trans)
    then have "\<forall>e \<in> set es. triggerCycles ?e \<le> triggerCycles e"
      using less.prems by (auto simp: timer_ok_def intro: is_heap_hd_le)
    then have "sorted (map triggerCycles (?e # es))" using es(3) by simp
    moreover have "process_loop (scripted clk script) now (t, w) = Some (t', w')"
      "process_loop (scripted clk (recording script)) now (t, w, log) = Some (t', w', log @ (log1 @ log'))"
      using True R f by (subst process_loop.simps, simp)+
    moreover have "map fst (log1 @ log') = calls (?e # es)" using t1(3) es(1) by (simp add: calls_def)
    moreover have "mset (?e # es) = due now t" using es(2) t1(2) by simp
    moreover have "pending t' = fold (abs_request clk) (concat (map snd (log1 @ log'))) (not_due now (pending t))"
      using es(4) t1(4) by simp
    ultimately show ?thesis using R(3) by blast
  next
    case False
    note nd = no_due [OF less.prems False]
    then have "filter (\<lambda>e. triggerCycles e \<le> now) (events t) = []" by (simp add: due_def flip: mset_filter)
    then have "not_due now (pending t) = pending t"
      by (force simp: not_due_def fun_eq_iff pending_def filter_empty_conv dest!: map_of_SomeD split: option.splits)
    moreover have "process_loop call now (t, v) = Some (t, v)" for call and v :: 'x
      using False by (subst process_loop.simps) simp
    ultimately show ?thesis using nd less.prems
      by (intro exI [of _ t] exI [of _ w] exI [of _ "[]"]) (auto simp: calls_def process_loop.simps False)
  qed
qed

section \<open>What the timer promises\<close>

text \<open>
  C28.  The heap of events implements a map from instances to pending events: scheduling is a map
  update, unless the event lies before the clock, when the call changes nothing; cancelling removes
  the instance; both keep the heap order and at most one event per instance, and leave
  \<^verbatim>\<open>next_event_cycle\<close> the earliest pending cycle, or the largest 64-bit value when none is
  pending.
\<close>

theorem timer_refines_map:
  assumes "timer_ok t"
  shows "(\<not> in_the_past clk trig \<longrightarrow>
       timer_ok (scheduleEvent clk trig cb i u t) \<and> next_exact (scheduleEvent clk trig cb i u t) \<and>
       pending (scheduleEvent clk trig cb i u t) = (pending t)(i \<mapsto> (trig, cb, u))) \<and>
     (in_the_past clk trig \<longrightarrow> scheduleEvent clk trig cb i u t = t) \<and>
     timer_ok (cancelEvents i t) \<and> next_exact (cancelEvents i t) \<and>
     pending (cancelEvents i t) = (pending t)(i := None)"
  using assms scheduleEvent_spec [of t clk trig cb i u] cancelEvents_spec [of t i]
  by (simp add: scheduleEvent_def)

text \<open>
  C29.  Processing ends and leaves nothing due.  If every event a callback asks for lies after the
  current cycle, \<^verbatim>\<open>processEvents\<close> returns, whatever else callbacks schedule, cancel or do; the
  queue it leaves is well formed, holds no event that is due, and its cached cycle is exact, so the
  timer is not seen as passed again at this cycle unless the queue is empty and the cycle the
  largest one.
\<close>

theorem processEvents_returns:
  assumes "timer_ok t" and "\<And>c i u t w r. r \<in> set (fst (script c i u t w)) \<Longrightarrow> later now r"
  shows "\<exists>t' w'. processEvents (scripted clk script) now (t, w) = Some (t', w') \<and>
     timer_ok t' \<and> next_exact t' \<and> due now t' = {#} \<and>
     (isEventPassed now t' \<longleftrightarrow> events t' = [] \<and> now = - 1)"
proof -
  obtain t' w' where R: "process_loop (scripted clk script) now (t, w) = Some (t', w')"
      "timer_ok t'" "\<not> has_due now t'"
    using process_loop_returns [OF scripted_sound assms(1)] assms(2) by metis
  have "timer_ok (updateNextEventCycle t') \<and> next_exact (updateNextEventCycle t')"
    using R(2) by (intro update_exact) (simp_all add: timer_ok_def)
  moreover have "due now (updateNextEventCycle t') = {#}"
    using no_due [OF R(2,3)] by (simp add: due_def updateNextEventCycle_def)
  moreover have "isEventPassed now (updateNextEventCycle t') \<longleftrightarrow>
      events (updateNextEventCycle t') = [] \<and> now = - 1"
    using R(3) by (auto simp: isEventPassed_def updateNextEventCycle_def has_due_def word_order.extremum_unique)
  ultimately show ?thesis using R(1) by (simp add: processEvents_def)
qed

text \<open>
  C30.  Events fire in the order they are due.  Let callbacks schedule and cancel as they like, their own instance
  included, as long as they ask for later events only and leave the instances that are still due alone.  Then
  \<^verbatim>\<open>processEvents\<close> returns having run exactly the callbacks of the events that were due, each once, in the order of
  their cycles (the log of the calls is that of a list of these events, sorted), and what is pending at the end is what
  was not due with the callbacks' requests applied in the order they were made.  An event that is due is never
  overlooked by the cached cycle.
\<close>

theorem events_fire_in_order:
  assumes "timer_ok t" "considerate now script"
  shows "(\<exists>t' w' log es. processEvents (scripted clk script) now (t, w) = Some (t', w') \<and>
       processEvents (scripted clk (recording script)) now (t, w, []) = Some (t', w', log) \<and>
       map fst log = calls es \<and> mset es = due now t \<and> sorted (map triggerCycles es) \<and>
       pending t' = fold (abs_request clk) (concat (map snd log)) (not_due now (pending t))) \<and>
     (due now t \<noteq> {#} \<longrightarrow> isEventPassed now t)"
proof -
  have "isEventPassed now t" if "due now t \<noteq> {#}"
    using that assms(1) by (force simp: due_def isEventPassed_def timer_ok_def)
  moreover obtain t' w' log es where "process_loop (scripted clk script) now (t, w) = Some (t', w')"
      "process_loop (scripted clk (recording script)) now (t, w, []) = Some (t', w', [] @ log)"
      "map fst log = calls es" "mset es = due now t" "sorted (map triggerCycles es)"
      "pending t' = fold (abs_request clk) (concat (map snd log)) (not_due now (pending t))"
    using process_loop_recorded [OF assms(2,1), of clk w "[]"] by metis
  ultimately show ?thesis
    by (auto simp: processEvents_def intro!: exI [of _ es])
qed

text \<open>A timer with three instances, one of them rescheduled, and a callback that asks for another
  event of its own instance.\<close>

definition demo_timer :: "(nat, unit) event_timer" where
  "demo_timer = scheduleEvent None 50 (Some 1) 2 () (scheduleEvent None 10 (Some 0) 1 ()
     (scheduleEvent None 90 None 3 () (scheduleEvent None 30 (Some 0) 1 () EventTimer)))"

lemma demo_timer_ok: "timer_ok demo_timer"
  unfolding demo_timer_def
  by (intro conjunct1 [OF scheduleEvent_spec] timer_ok_EventTimer) (simp_all add: in_the_past_def)

theorem timer_refines_map_witness:
  "timer_ok demo_timer \<and> pending (scheduleEvent (Some 20) 25 None 7 () demo_timer) =
     (pending demo_timer)(7 \<mapsto> (25, None, ()))"
  using timer_refines_map [OF demo_timer_ok, of "Some 20" 25 None 7 "()"] demo_timer_ok
  by (simp add: in_the_past_def)

theorem processEvents_returns_witness:
  "\<exists>t' w'. processEvents (scripted (Some 60) (\<lambda>c i u t w. ([Schedule 70 (Some c) i u], w + 1))) 60
       (demo_timer, 0 :: nat) = Some (t', w') \<and> due 60 t' = {#}"
  using processEvents_returns [OF demo_timer_ok,
      of "\<lambda>c i u t w. ([Schedule 70 (Some c) i u], w + 1)" 60 "Some 60" "0 :: nat"]
  by auto

text \<open>At cycle 60 both instances that have a callback ask for an event of their own 40 cycles on.\<close>

theorem events_fire_in_order_witness:
  "let script = (\<lambda>c i u t w. ([Schedule 100 (Some c) i u], c # w))
   in considerate 60 script \<and> (\<exists>t' w' log es. processEvents (scripted (Some 60) script) 60 (demo_timer, []) = Some (t', w') \<and>
     map fst log = calls es \<and> mset es = due 60 demo_timer \<and> sorted (map triggerCycles es) \<and>
     pending t' = fold (abs_request (Some 60)) (concat (map snd log)) (not_due 60 (pending demo_timer)))"
proof -
  let ?script = "\<lambda>c i u (t :: (nat, unit) event_timer) w. ([Schedule 100 (Some c) i u], c # w)"
  have "considerate 60 ?script" by (simp add: considerate_def)
  with events_fire_in_order [OF demo_timer_ok this, of "Some 60" "[]"] show ?thesis
    unfolding Let_def by blast
qed

end
