(* ===== verification/Floppy_525.thy ===== *)
theory Floppy_525
  imports Floppy_Head Event_Timer
begin

text \<open>
  The 5.25 inch drive (\<^verbatim>\<open>src/devices/floppy/Floppy525_woz.hpp\<close>, \<^verbatim>\<open>Floppy525_woz.cpp\<close>): four phase magnets that
  move the head by quarter tracks, the read amplifier with its fake bits, and mounting.  A phase change schedules an
  event on the timer; the head moves when the event fires.

  The readings of the clock are a record of the arguments; phase lines are booleans, since every caller passes 0 or 1.
\<close>

section \<open>State\<close>

record times =
  t_cycles :: u64
  t_vid_cycles :: u64
  t_c14m :: u64
  t_c14m_per_second :: u64
  t_timer :: "u64 option"

record floppy525 = floppy +
  phase0 :: bool
  phase1 :: bool
  phase2 :: bool
  phase3 :: bool
  track :: int
  max_tracks :: int
  drive_instance :: u64
  drive_index :: nat
  real_time :: bool

datatype drive_callback = PHASE_CHANGE_CALLBACK

definition new_floppy525 :: "u16 \<Rightarrow> nat \<Rightarrow> bool \<Rightarrow> floppy525" where
  "new_floppy525 slot drv rt = floppy.extend new_floppy
     (floppy525.fields False False False False 0 139 (0xABAB0000 OR push_bit 8 (ucast slot) OR of_nat drv) drv rt)"

definition get_current_time_525 :: "times \<Rightarrow> 'a floppy525_scheme \<Rightarrow> u64" where
  "get_current_time_525 tm d = (if real_time d then t_vid_cycles tm else t_cycles tm)"

section \<open>The virtual functions\<close>

definition kFakeBits :: "u8 list" where
  "kFakeBits = [
     0xD1, 0xB9, 0x7C, 0xB0, 0x55, 0x04, 0x91, 0x11, 0x95, 0x14, 0x81, 0xC4, 0xD1, 0x08, 0xC0, 0x21,
     0x58, 0x24, 0x0C, 0xA0, 0x14, 0xC0, 0x04, 0x40, 0x12, 0x11, 0x04, 0x2C, 0x06, 0xC0, 0x40, 0x88]"

definition read_amplifier_525 :: "u8 \<Rightarrow> 'a floppy525_scheme \<Rightarrow> u8 \<times> 'a floppy525_scheme" where
  "read_amplifier_525 b d =
     (let w = (push_bit 1 (windowBits d) OR ucast b) AND 0x0F; d = d\<lparr>windowBits := w\<rparr> in
      if w \<noteq> 0 then (ucast (drop_bit 1 w AND 1), d)
      else let i = ucast (random_bits d AND 0xFF) :: u8
           in (drop_bit (unat (7 - (i AND 7))) (kFakeBits ! unat (drop_bit 3 i)) AND 1, d\<lparr>random_bits := random_bits d + 1\<rparr>))"

definition head_advance_525 :: "'a floppy525_scheme \<Rightarrow> u64 option" where
  "head_advance_525 d =
     (let timing = ucast (optimal_bit_timing (info (woz d))) :: u64
      in if timing = 0 then None else Some ((2 * POSITION_ADV_PER_CYCLE * 32) div timing))"

definition write_gate_525 :: "'a floppy525_scheme \<Rightarrow> bool" where
  "write_gate_525 d \<longleftrightarrow> \<not> (phase1 d \<and> phase3 d)"

definition unmount_525 :: "'a floppy525_scheme \<Rightarrow> 'a floppy525_scheme" where
  "unmount_525 d = unmount_base (d\<lparr>max_tracks := 139\<rparr>)"

text \<open>The nibblizer works on buffers it does not initialise; their contents are the argument \<open>memory\<close>.\<close>

definition make_nibblizer_525 :: "(nat \<Rightarrow> nat \<Rightarrow> u8 list) \<Rightarrow> nibblizer_ops" where
  "make_nibblizer_525 memory = \<lparr>import_image_op = import_block_image memory, export_image_op = export_block_image\<rparr>"

definition hooks_525 :: "(nat \<Rightarrow> nat \<Rightarrow> u8 list) \<Rightarrow> 'a floppy525_scheme hooks" where
  "hooks_525 memory = \<lparr>head_advance_hook = head_advance_525, tmap_index_hook = track, spinning_hook = enable,
     amplifier_hook = read_amplifier_525, empty_bits_hook = 51200, write_gate_hook = write_gate_525,
     unmount_hook = unmount_525, nibblizer_hook = Some (make_nibblizer_525 memory)\<rparr>"

lemma hooks_525_simps [simp]:
  "head_advance_hook (hooks_525 memory) = head_advance_525" "tmap_index_hook (hooks_525 memory) = track"
  "spinning_hook (hooks_525 memory) = enable" "amplifier_hook (hooks_525 memory) = read_amplifier_525"
  "empty_bits_hook (hooks_525 memory) = 51200" "write_gate_hook (hooks_525 memory) = write_gate_525"
  "unmount_hook (hooks_525 memory) = unmount_525" "nibblizer_hook (hooks_525 memory) = Some (make_nibblizer_525 memory)"
  by (simp_all add: hooks_525_def)

section \<open>Mounting\<close>

definition span_slots :: "woz_image_t \<Rightarrow> int" where
  "span_slots img = int (fold (\<lambda>q hi. if tmap img ! q \<noteq> 0xFF then Suc q else hi) [0..<160] 0)"

definition mount_525 ::
    "(nat \<Rightarrow> nat \<Rightarrow> u8 list) \<Rightarrow> host_io \<Rightarrow> times \<Rightarrow> media_descriptor \<Rightarrow> files \<Rightarrow> 'a floppy525_scheme \<Rightarrow>
     (bool \<times> 'a floppy525_scheme) option" where
  "mount_525 memory io tm media fs d =
     (if (media_type media = MEDIA_BLK \<or> media_type media = MEDIA_NYBBLE) \<and> data_size media \<noteq> 140 * 1024 then Some (False, d)
      else do {
        (ok, d) \<leftarrow> mount_base (hooks_525 memory) io (get_current_time_525 tm d) media fs d;
        if \<not> ok then Some (False, d)
        else if media_type media = MEDIA_WOZ \<and> disk_type (info (woz d)) \<noteq> 1 then Some (False, d\<lparr>is_mounted := False\<rparr>)
        else
          let d = d\<lparr>max_tracks := max 140 (span_slots (woz d)) - 1\<rparr>
          in Some (True, if track d > max_tracks d then update_track_ptr (hooks_525 memory) (d\<lparr>track := max_tracks d\<rparr>) else d)
      })"

section \<open>The stepper\<close>

definition kDetentFromPhases :: "int list" where
  "kDetentFromPhases = [-1, 0, 2, 1, 4, -1, 3, 2, 6, 7, -1, 0, 5, 6, 4, -1]"

text \<open>Conversion to \<^verbatim>\<open>int8_t\<close> and the remainder of the language, which has the sign of the dividend.\<close>

definition to_int8 :: "int \<Rightarrow> int" where
  "to_int8 x = (x + 128) mod 256 - 128"

definition c_rem :: "int \<Rightarrow> int \<Rightarrow> int" where
  "c_rem x n = (if x < 0 then - ((- x) mod n) else x mod n)"

definition phase_bits :: "'a floppy525_scheme \<Rightarrow> nat" where
  "phase_bits d = of_bool (phase0 d) + 2 * of_bool (phase1 d) + 4 * of_bool (phase2 d) + 8 * of_bool (phase3 d)"

definition update_track :: "'a floppy525_scheme hooks \<Rightarrow> 'a floppy525_scheme \<Rightarrow> 'a floppy525_scheme" where
  "update_track h d =
     (let cur_trk = to_int8 (track d); cur_phase = c_rem cur_trk 8; detent = kDetentFromPhases ! phase_bits d in
      if detent = -1 then d
      else if detent = cur_phase then d
      else
        let slice_add = (detent - cur_phase) AND 7; slice_subtract = (cur_phase - detent) AND 7 in
        if slice_add = slice_subtract then d
        else
          let t = (if slice_subtract < slice_add then track d - slice_subtract else track d + slice_add);
              t = (if t < 0 then 0 else t);
              t = (if t > max_tracks d then max_tracks d else t);
              d = d\<lparr>track := t\<rparr>
          in if t \<noteq> cur_trk then update_track_ptr h d else d)"

definition set_phase_line :: "nat \<Rightarrow> bool \<Rightarrow> 'a floppy525_scheme \<Rightarrow> 'a floppy525_scheme" where
  "set_phase_line phase onoff d =
     (if phase = 0 then d\<lparr>phase0 := onoff\<rparr> else if phase = 1 then d\<lparr>phase1 := onoff\<rparr>
      else if phase = 2 then d\<lparr>phase2 := onoff\<rparr> else if phase = 3 then d\<lparr>phase3 := onoff\<rparr> else d)"

definition settle_time :: "times \<Rightarrow> 'a floppy525_scheme \<Rightarrow> u64" where
  "settle_time tm d = (if real_time d then t_c14m tm + 520 * 14 else t_cycles tm + 520)"

definition set_phase_525 ::
    "times \<Rightarrow> nat \<Rightarrow> bool \<Rightarrow> 'a floppy525_scheme \<times> (drive_callback, nat) event_timer \<Rightarrow>
     'a floppy525_scheme \<times> (drive_callback, nat) event_timer" where
  "set_phase_525 tm phase onoff = (\<lambda>(d, t).
     (set_phase_line phase onoff d,
      scheduleEvent (t_timer tm) (settle_time tm d) (Some PHASE_CHANGE_CALLBACK) (drive_instance d) (drive_index d) t))"

definition read_sense_525 :: "'a floppy525_scheme \<Rightarrow> u8" where
  "read_sense_525 d = (if \<not> is_mounted d \<or> phase1 d then 1 else write_protect d)"

section \<open>The laws of the drive\<close>

interpretation d525: drive "hooks_525 memory :: 'a floppy525_scheme hooks"
  for memory
proof
  fix d d' :: "'a floppy525_scheme"
  assume more: "floppy.more d = floppy.more d'"
  then show "write_gate_hook (hooks_525 memory) d = write_gate_hook (hooks_525 memory) d'"
    "tmap_index_hook (hooks_525 memory) d = tmap_index_hook (hooks_525 memory) d'"
    by (cases d, cases d', simp add: hooks_525_def write_gate_525_def)+
  assume "enable d = enable d'"
  then show "spinning_hook (hooks_525 memory) d = spinning_hook (hooks_525 memory) d'" by (simp add: hooks_525_def)
next
  fix b and d :: "'a floppy525_scheme"
  show "\<exists>w r. snd (amplifier_hook (hooks_525 memory) b d) = d\<lparr>windowBits := w, random_bits := r\<rparr>"
    by (rule exI [of _ "windowBits (snd (read_amplifier_525 b d))"], rule exI [of _ "random_bits (snd (read_amplifier_525 b d))"],
        cases d) (simp add: hooks_525_def read_amplifier_525_def Let_def)
qed (simp add: hooks_525_def)

section \<open>The head follows the magnets\<close>

lemma int_and_7: "(x :: int) AND 7 = x mod 8"
  by (simp add: take_bit_eq_mod take_bit_eq_mask [of 3 x, simplified mask_eq_exp_minus_1, simplified, symmetric])

text \<open>The phase of a track number: the conversion to 8 bits changes it by a multiple of eight only.\<close>

lemma cur_phase_mod:
  assumes "0 \<le> t" "t \<le> 159"
  shows "c_rem (to_int8 t) 8 mod 8 = t mod 8" "\<bar>c_rem (to_int8 t) 8\<bar> < 8"
proof -
  have "to_int8 t = (if t < 128 then t else t - 256)"
    using assms mod_add_self2 [of "t - 128" 256] by (cases "t < 128") (simp_all add: to_int8_def add.commute)
  moreover have "(- ((256 - t) mod 8)) mod 8 = (t + (- 32) * 8) mod 8" by (simp add: mod_minus_eq)
  then have "(- ((256 - t) mod 8)) mod 8 = t mod 8" by (simp only: mod_mult_self1)
  ultimately show "c_rem (to_int8 t) 8 mod 8 = t mod 8"
    using assms by (simp add: c_rem_def)
  show "\<bar>c_rem (to_int8 t) 8\<bar> < 8" by (simp add: c_rem_def)
qed

text \<open>Where a head at quarter track \<open>t\<close> goes when the magnets pull it to detent \<open>k\<close>: the shorter way round, unless both ways are
  equally long, and not past the ends.\<close>

definition pulled_to :: "int \<Rightarrow> int \<Rightarrow> int \<Rightarrow> int" where
  "pulled_to m k t =
     (if (t - k) mod 8 < (k - t) mod 8 then max 0 (t - (t - k) mod 8)
      else if (k - t) mod 8 < (t - k) mod 8 then min m (t + (k - t) mod 8)
      else t)"

lemma update_track_ptr_track [simp]:
  "track (update_track_ptr h d) = track d" "max_tracks (update_track_ptr h d) = max_tracks d"
  by (simp_all add: update_track_ptr_def Let_def)

lemma update_track_pos:
  assumes "0 \<le> track d" "track d \<le> max_tracks d" "max_tracks d \<le> 159" "phase_bits d < 16"
  defines "k \<equiv> kDetentFromPhases ! phase_bits d"
  shows "track (update_track h d) = (if k = -1 then track d else pulled_to (max_tracks d) k (track d))"
    "max_tracks (update_track h d) = max_tracks d"
proof -
  let ?t = "track d" and ?c = "c_rem (to_int8 (track d)) 8"
  have c: "?c mod 8 = ?t mod 8" using cur_phase_mod(1) assms(1-3) by simp
  have slices: "(k - ?c) AND 7 = (k - ?t) mod 8" "(?c - k) AND 7 = (?t - k) mod 8"
    using c by (simp_all add: int_and_7) (metis mod_diff_right_eq, metis mod_diff_left_eq)
  show "max_tracks (update_track h d) = max_tracks d" by (simp add: update_track_def Let_def)
  have id: "pulled_to (max_tracks d) k ?t = ?t" if "k = ?c"
  proof -
    have "(?t - k) mod 8 = 0" "(k - ?t) mod 8 = 0"
      using c by (simp_all add: that mod_eq_dvd_iff [symmetric] flip: dvd_eq_mod_eq_0)
    then show ?thesis by (simp add: pulled_to_def)
  qed
  have r: "0 \<le> (?t - k) mod 8" "0 \<le> (k - ?t) mod 8" by simp_all
  show "track (update_track h d) = (if k = -1 then ?t else pulled_to (max_tracks d) k ?t)"
  proof (cases "k = -1 \<or> k = ?c")
    case True
    then show ?thesis using id by (auto simp: update_track_def Let_def k_def [symmetric])
  next
    case False
    then show ?thesis
      using assms(1-3) r unfolding update_track_def Let_def k_def [symmetric] slices
      by (auto simp: pulled_to_def)
  qed
qed

text \<open>The quarter track stays between the stop and the last track of the disk.\<close>

definition stepper_ok :: "'a floppy525_scheme \<Rightarrow> bool" where
  "stepper_ok d \<longleftrightarrow> 0 \<le> track d \<and> track d \<le> max_tracks d \<and> 139 \<le> max_tracks d \<and> max_tracks d \<le> 159"

lemma phase_bits_less: "phase_bits d < 16"
  by (simp add: phase_bits_def)

lemma pulled_to_range: "0 \<le> t \<Longrightarrow> t \<le> m \<Longrightarrow> 0 \<le> pulled_to m k t \<and> pulled_to m k t \<le> m"
proof -
  assume t: "0 \<le> t" "t \<le> m"
  have "0 \<le> (k - t) mod 8" "0 \<le> (t - k) mod 8" by simp_all
  with t show ?thesis by (auto simp: pulled_to_def)
qed

lemma update_track_ok: "stepper_ok d \<Longrightarrow> stepper_ok (update_track h d)"
  using update_track_pos [OF _ _ _ phase_bits_less, of d h] pulled_to_range [of "track d" "max_tracks d"] by (simp add: stepper_ok_def)

section \<open>Recalibration\<close>

text \<open>One magnet energised alone, and the head settled.\<close>

definition settle_at :: "'a floppy525_scheme hooks \<Rightarrow> nat \<Rightarrow> 'a floppy525_scheme \<Rightarrow> 'a floppy525_scheme" where
  "settle_at h p d = update_track h (fold (\<lambda>q. set_phase_line q (q = p)) [0, 1, 2, 3] d)"

lemma set_phase_line_track [simp]:
  "track (set_phase_line p b d) = track d" "max_tracks (set_phase_line p b d) = max_tracks d"
  by (simp_all add: set_phase_line_def)

lemma settle_at_pos:
  assumes "stepper_ok d" "p < 4"
  shows "track (settle_at h p d) = pulled_to (max_tracks d) (2 * int p) (track d)" "max_tracks (settle_at h p d) = max_tracks d"
    "stepper_ok (settle_at h p d)"
proof -
  let ?d = "fold (\<lambda>q. set_phase_line q (q = p)) [0, 1, 2, 3] d"
  have d: "track ?d = track d" "max_tracks ?d = max_tracks d" by simp_all
  have "p \<in> {0, 1, 2, 3}" using assms(2) by auto
  then have k: "kDetentFromPhases ! phase_bits ?d = 2 * int p"
    by (auto simp: set_phase_line_def phase_bits_def kDetentFromPhases_def)
  have ok: "stepper_ok ?d" using assms(1) by (simp add: stepper_ok_def d)
  then show "track (settle_at h p d) = pulled_to (max_tracks d) (2 * int p) (track d)" "max_tracks (settle_at h p d) = max_tracks d"
    using update_track_pos [OF _ _ _ phase_bits_less, of ?d h] k by (simp_all add: settle_at_def stepper_ok_def d)
  show "stepper_ok (settle_at h p d)" using update_track_ok [OF ok] by (simp add: settle_at_def)
qed

text \<open>A turn of the magnets against the direction of the tracks takes the head two tracks out, or to the stop.\<close>

lemma pulled_near:
  assumes "(x - k) mod 8 = 0" "0 \<le> x" "t \<le> m" "\<bar>t - x\<bar> < 4"
  shows "pulled_to m k t = (if x \<le> t then x else min m x)"
proof -
  obtain j where "x - k = 8 * j" using assms(1) by (metis mod_0_imp_dvd dvdE)
  then have "t - k = (t - x) + j * 8" "k - t = (x - t) + (- j) * 8" by simp_all
  then have "(t - k) mod 8 = (t - x) mod 8" "(k - t) mod 8 = (x - t) mod 8"
    by (metis mod_mult_self1)+
  moreover have "u mod 8 = u + 8" if "- 4 < u" "u < 0" for u :: int
    using that mod_pos_pos_trivial [of "u + 8" 8] by simp
  then have "(x - t) mod 8 = (if t = x then 0 else x - t + 8)" if "x \<le> t"
    using that assms(4) by auto
  moreover have "(t - x) mod 8 = t - x + 8" if "t < x"
    using that assms(4) \<open>\<And>u. - 4 < u \<Longrightarrow> u < 0 \<Longrightarrow> u mod 8 = u + 8\<close> [of "t - x"] by auto
  moreover have "(t - x) mod 8 = t - x" if "x \<le> t" using that assms(4) by (simp add: mod_pos_pos_trivial)
  moreover have "(x - t) mod 8 = x - t" if "t < x" using that assms(4) by (simp add: mod_pos_pos_trivial)
  ultimately show ?thesis
    using assms(2-4) by (cases "x \<le> t") (auto simp: pulled_to_def)
qed

lemma turn_back:
  assumes "0 \<le> t" "t \<le> m" "2 \<le> m"
  shows "pulled_to m 0 (pulled_to m 2 (pulled_to m 4 (pulled_to m 6 t))) = (if t < 10 then 0 else 8 * ((t - 2) div 8))"
proof (cases "t < 2")
  case True
  then have "t = 0 \<or> t = 1" using assms(1) by auto
  then have "pulled_to m 6 t = 0" by (elim disjE) (simp_all add: pulled_to_def)
  moreover have "pulled_to m 4 0 = 0" "pulled_to m 2 0 = 2" "pulled_to m 0 2 = 0" using assms(3) by (simp_all add: pulled_to_def)
  ultimately show ?thesis using True by simp
next
  case False
  define q where "q = (t - 2) div 8"
  have t: "8 * q + 2 \<le> t" "t < 8 * q + 10" "0 \<le> q" using False by (auto simp: q_def)
  let ?a = "pulled_to m 6 t" and ?b = "pulled_to m 4 (pulled_to m 6 t)"
  have a: "8 * q + 2 \<le> ?a" "?a \<le> 8 * q + 6" "?a \<le> m"
  proof -
    have "?a = t" if "t = 8 * q + 2"
    proof -
      have "(t - 6) mod 8 = 4" "(6 - t) mod 8 = 4" using that by presburger+
      then show ?thesis by (simp add: pulled_to_def)
    qed
    moreover have "?a = (if 8 * q + 6 \<le> t then 8 * q + 6 else min m (8 * q + 6))" if "t \<noteq> 8 * q + 2"
      using t that assms(2) by (intro pulled_near) auto
    ultimately show "8 * q + 2 \<le> ?a" "?a \<le> 8 * q + 6" "?a \<le> m"
      using t assms(2) by (cases "t = 8 * q + 2"; simp split: if_splits)+
  qed
  have "?b = (if 8 * q + 4 \<le> ?a then 8 * q + 4 else min m (8 * q + 4))"
    using a t(3) by (intro pulled_near) auto
  then have b: "8 * q + 2 \<le> ?b" "?b \<le> 8 * q + 4" "?b \<le> m" using a by (auto split: if_splits)
  have c: "pulled_to m 2 ?b = 8 * q + 2"
    using b t(3) pulled_near [of "8 * q + 2" 2 ?b m] by auto
  have "pulled_to m 0 (8 * q + 2) = 8 * q"
    using b t(3) pulled_near [of "8 * q" 0 "8 * q + 2" m] by auto
  moreover have "q = 0" if "t < 10" using that t by linarith
  ultimately show ?thesis using c by (simp add: q_def [symmetric])
qed

text \<open>A turn of the magnets against the direction of the tracks, as one step of a recalibration.\<close>

definition turn :: "'a floppy525_scheme hooks \<Rightarrow> 'a floppy525_scheme \<Rightarrow> 'a floppy525_scheme" where
  "turn h d = fold (settle_at h) [3, 2, 1, 0] d"

lemma turn_pos:
  assumes "stepper_ok d"
  shows "track (turn h d) = (if track d < 10 then 0 else 8 * ((track d - 2) div 8))" "stepper_ok (turn h d)"
proof -
  let ?m = "max_tracks d" and ?d1 = "settle_at h 3 d"
  let ?d2 = "settle_at h 2 ?d1" let ?d3 = "settle_at h 1 ?d2"
  note s1 = settle_at_pos [OF assms, of 3 h]
  note s2 = settle_at_pos [of ?d1 2 h]
  note s3 = settle_at_pos [of ?d2 1 h]
  note s4 = settle_at_pos [of ?d3 0 h]
  have ok: "stepper_ok ?d1" "stepper_ok ?d2" "stepper_ok ?d3" "stepper_ok (settle_at h 0 ?d3)" using s1 s2 s3 s4 by simp_all
  have "track (turn h d) = pulled_to ?m 0 (pulled_to ?m 2 (pulled_to ?m 4 (pulled_to ?m 6 (track d))))"
    using s1 s2 s3 s4 ok by (simp add: turn_def)
  then show "track (turn h d) = (if track d < 10 then 0 else 8 * ((track d - 2) div 8))"
    using turn_back [of "track d" ?m] assms by (simp add: stepper_ok_def)
  show "stepper_ok (turn h d)" using ok(4) by (simp add: turn_def)
qed

lemma turns_pos:
  assumes "stepper_ok d"
  shows "stepper_ok ((turn h ^^ Suc n) d) \<and> (\<exists>q. track ((turn h ^^ Suc n) d) = 8 * q \<and> 8 * q \<le> max 0 (track d - 2 - 8 * int n))"
proof (induction n)
  case 0
  have "8 * ((track d - 2) div 8) \<le> track d - 2" by simp
  then show ?case using turn_pos [OF assms, of h] by (auto intro: exI [of _ 0])
next
  case (Suc n)
  define d' where "d' = (turn h ^^ Suc n) d"
  obtain q where q: "track d' = 8 * q" "8 * q \<le> max 0 (track d - 2 - 8 * int n)" "stepper_ok d'" using Suc by (auto simp: d'_def)
  have "(8 * q - 2) div 8 = q - 1" by presburger
  then have "track (turn h d') = (if 8 * q < 10 then 0 else 8 * (q - 1))" "stepper_ok (turn h d')"
    using turn_pos [OF q(3), of h] by (simp_all only: q(1))
  moreover have "(turn h ^^ Suc (Suc n)) d = turn h d'" by (simp add: d'_def)
  ultimately show ?case using q(2) by (cases "8 * q < 10") (auto intro: exI [of _ 0] exI [of _ "q - 1"])
qed

section \<open>Mounted disks are sound\<close>

lemma track_ok_sound: "track_ok trk \<Longrightarrow> sound_track trk"
  by (simp add: track_ok_def sound_track_def)

lemma fread_pieces_lengths: "fread_pieces n sz f = Some (ps, f') \<Longrightarrow> length ps = n \<and> (\<forall>p \<in> set ps. length p = sz)"
  by (induction n arbitrary: f ps) (auto split: if_splits bind_splits)

lemma nib_track_sound:
  assumes "length nib < 2 ^ 28"
  shows "sound_track (build_track_from_nib nib)"
proof -
  have "emits (fold emit_data_byte nib) (concat (map (\<lambda>b. cell_bits [(b, 0)]) nib))"
    by (intro emits_fold emits_data_byte)
  moreover have "length (concat (map (\<lambda>b. cell_bits [(b, 0)]) nib)) = 8 * length nib"
    by (induction nib) (simp_all add: cell_bits_def)
  ultimately show ?thesis
    using emitsD(1) [of "fold emit_data_byte nib" _ empty_track] track_ok_empty(1) assms
    by (intro track_ok_sound) (simp add: build_track_from_nib_def empty_track_def)
qed

lemma import_525_sound:
  assumes "import_block_image memory io img (Some media) fs = (0, img')"
  shows "\<forall>trk \<in> set (tracks img'). sound_track trk"
proof -
  have "\<exists>build. img' = fold (add_track build) [0..<TRACKS_PER_DISK] (import_reset media img) \<and>
      (\<forall>t < TRACKS_PER_DISK. sound_track (build t))"
  proof (cases "media_type media = MEDIA_PRENYBBLE")
    case True
    then obtain nib where nib: "load_nib_image io media fs = Some nib"
      "img' = fold (add_track (\<lambda>t. build_track_from_nib (nib ! t))) [0..<TRACKS_PER_DISK] (import_reset media img)"
      using assms by (auto simp: import_block_image_def import_from_nib_def split: option.splits)
    then have "length nib = TRACKS_PER_DISK \<and> (\<forall>p \<in> set nib. length p = TRACK_SIZE)"
      by (auto simp: load_nib_image_def split: bind_splits if_splits dest: fread_pieces_lengths)
    then show ?thesis using nib(2) nib_track_sound by (fastforce simp: TRACK_SIZE_def)
  next
    case False
    then show ?thesis
      using assms track_ok_sound [OF build_track_stream(1)]
      by (auto simp: import_block_image_def split: if_splits option.splits)
  qed
  then obtain build where "img' = fold (add_track build) [0..<TRACKS_PER_DISK] (import_reset media img)"
    "\<forall>t < TRACKS_PER_DISK. sound_track (build t)" by blast
  moreover have "tracks (fold (add_track build) [0..<TRACKS_PER_DISK] (import_reset media img)) = map build [0..<TRACKS_PER_DISK]"
    using add_tracks [of TRACKS_PER_DISK "import_reset media img" build] by (simp add: import_reset_def)
  ultimately show ?thesis by auto
qed

text \<open>A successful mount: the image, if it is a WOZ file, is as the loader left it; an imported one is sound.\<close>

lemma mount_base_cases:
  assumes "mount_base h io now media fs d = Some (True, d')"
  obtains d0 img where "d0 = (if is_mounted d then unmount_hook h d else d)" "insert_disk h now media (d0\<lparr>woz := img\<rparr>) = Some d'"
    "media_type media \<noteq> MEDIA_WOZ \<Longrightarrow> nibblizer_hook h \<noteq> None \<and> import_image_op (the (nibblizer_hook h)) io (woz d0) (Some media) fs = (0, img)"
  using assms by (auto simp: mount_base_def Let_def split: if_splits bind_splits prod.splits)

lemma span_slots_range: "0 \<le> span_slots img \<and> span_slots img \<le> 160"
proof -
  have "fold (\<lambda>q hi. if tmap img ! q \<noteq> 0xFF then Suc q else hi) [0..<n] 0 \<le> n" for n
    by (induction n) auto
  from this [of 160] show ?thesis by (simp only: span_slots_def) simp
qed

lemma mount_525_ok:
  assumes "mount_525 memory io tm media fs d = Some (True, d')" "0 \<le> track d"
    and "media_type media = MEDIA_WOZ \<Longrightarrow> \<forall>trk \<in> set (tracks (woz d')). sound_track trk"
  shows "head_ok (hooks_525 memory) d'" "stepper_ok d'" "synced (hooks_525 memory) d'"
proof -
  let ?h = "hooks_525 memory :: 'a floppy525_scheme hooks"
  obtain d1 where m: "mount_base ?h io (get_current_time_525 tm d) media fs d = Some (True, d1)"
    and d': "d' = (if track d1 > max 140 (span_slots (woz d1)) - 1
        then update_track_ptr ?h (d1\<lparr>max_tracks := max 140 (span_slots (woz d1)) - 1, track := max 140 (span_slots (woz d1)) - 1\<rparr>)
        else d1\<lparr>max_tracks := max 140 (span_slots (woz d1)) - 1\<rparr>)"
    using assms(1) by (auto simp: mount_525_def Let_def split: if_splits bind_splits)
  have woz: "woz d' = woz d1" by (simp add: d' update_track_ptr_def Let_def)
  obtain d0 img where d0: "d0 = (if is_mounted d then unmount_hook ?h d else d)"
    and ins: "insert_disk ?h (get_current_time_525 tm d) media (d0\<lparr>woz := img\<rparr>) = Some d1"
    and imp: "media_type media \<noteq> MEDIA_WOZ \<Longrightarrow> import_block_image memory io (woz d0) (Some media) fs = (0, img)"
    using mount_base_cases [OF m] by (auto simp: hooks_525_def make_nibblizer_525_def)
  have "woz d1 = img"
    using ins by (auto simp: insert_disk_def Let_def update_track_ptr_def)
  then have sound: "\<forall>trk \<in> set (tracks img). sound_track trk"
    using assms(3) import_525_sound [OF imp] woz by auto
  note ok1 = d525.insert_disk_ok [OF ins]
  have "floppy.more d1 = floppy.more d0" using ok1(3) sound by simp
  then have "track d1 = track d0" by (cases d1, cases d0) simp
  also have "track d0 = track d" by (simp add: d0 hooks_525_def unmount_525_def unmount_base_def)
  finally have "0 \<le> track d1" using assms(2) by simp
  then show "stepper_ok d'" using span_slots_range [of "woz d1"] by (auto simp: d' stepper_ok_def)
  have len: "track_len ?h (d1\<lparr>max_tracks := m\<rparr>) = track_len ?h d1" for m by (rule track_len_cong) simp_all
  have nz: "track_len ?h x \<noteq> 0" for x by (simp add: track_len_def hooks_525_def)
  have "head_ok ?h d1" "synced ?h d1" using ok1(1,7) sound nz by simp_all
  then have "head_ok ?h (d1\<lparr>max_tracks := m\<rparr>)" "synced ?h (d1\<lparr>max_tracks := m\<rparr>)" for m
    by (simp_all add: head_ok_def synced_def len)
  moreover have "head_ok ?h (update_track_ptr ?h x)" "synced ?h (update_track_ptr ?h x)" if "woz x = woz d1" for x
    using d525.update_track_ptr_ok(1,2) [of x memory] sound nz \<open>woz d1 = img\<close> that by simp_all
  ultimately show "head_ok ?h d'" "synced ?h d'" by (simp_all add: d')
qed

end
