(* ===== verification/Floppy_Writeback.thy ===== *)
theory Floppy_Writeback
  imports Floppy_Woz
begin

text \<open>
  What writing a drive's disk back does to the host's files, for any nibblizer whose export stays inside its part of the
  file (the contract of the locale \<open>nibblizer\<close>).
\<close>

text \<open>The files that a writeback may touch.\<close>

definition writeback_paths :: "media_descriptor \<Rightarrow> string set" where
  "writeback_paths media =
     {filename media, tmp_path (filename media), sidecar_path media, tmp_path (sidecar_path media)}"

lemma sidecar_neq [simp]:
  "sidecar_path media \<noteq> filename media" "filename media \<noteq> sidecar_path media"
  "tmp_path (sidecar_path media) \<noteq> filename media" "filename media \<noteq> tmp_path (sidecar_path media)"
  "tmp_path (filename media) \<noteq> filename media"
  by (simp_all add: sidecar_path_def tmp_path_def)

lemma save_to_files:
  assumes "save_to io path fs d = (ok, fs', d')"
  shows "\<forall>p. p \<noteq> path \<longrightarrow> p \<noteq> tmp_path path \<longrightarrow> fs' p = fs p" "\<not> ok \<Longrightarrow> fs' path = fs path"
    "modified d' = modified d" "media_d d' = media_d d"
proof -
  obtain chunks img' where c: "woz_chunks (woz d) = (chunks, img')" by (cases "woz_chunks (woz d)")
  obtain ok' fs1 where a: "atomic_write io path (WOZ2_MAGIC @ append_u32le (crc32 chunks) @ chunks) fs = (ok', fs1)"
    by (cases "atomic_write io path (WOZ2_MAGIC @ append_u32le (crc32 chunks) @ chunks) fs")
  then have r: "ok = ok'" "fs' = fs1" "d' = d\<lparr>woz := img'\<rparr>"
    using assms c by (auto simp: save_to_def save_def split: if_splits)
  note w = atomic_write_result [OF a]
  show "\<forall>p. p \<noteq> path \<longrightarrow> p \<noteq> tmp_path path \<longrightarrow> fs' p = fs p" "modified d' = modified d" "media_d d' = media_d d"
    using w by (auto simp: r same_but_def split: if_splits)
  show "\<not> ok \<Longrightarrow> fs' path = fs path" using w by (simp add: r same_but_def)
qed

text \<open>A block image has changed at most in the bytes of the disk.\<close>

definition keeps_rest :: "nat \<Rightarrow> media_descriptor \<Rightarrow> u8 list \<Rightarrow> u8 list \<Rightarrow> bool" where
  "keeps_rest n media f f' \<longleftrightarrow> length f \<le> length f' \<and>
     (\<forall>i < length f. i < data_offset media \<or> data_offset media + n \<le> i \<longrightarrow> f' ! i = f ! i)"

definition only_sidecar :: "media_descriptor \<Rightarrow> woz_image_t \<Rightarrow> bool" where
  "only_sidecar media img \<longleftrightarrow> media_type media = MEDIA_PRENYBBLE \<or> media_type media = MEDIA_WOZ \<and> unsaved_chunks img \<noteq> []"

lemma sidecar_files:
  assumes "save_written_sidecar io media fs d = (ok, fs', d')"
  shows "fs' (filename media) = fs (filename media)" "\<forall>p. p \<notin> writeback_paths media \<longrightarrow> fs' p = fs p" "modified d' = modified d"
  using save_to_files [OF assms [unfolded save_written_sidecar_def]] by (auto simp: writeback_paths_def)

lemma write_media_files:
  assumes "write_media h io media fs d = Some (ok, fs', d')" "nibblizer_hook h = Some nib" "fs (filename media) = Some f"
    and contained: "\<And>rc fs'. export_image_op nib io (woz d) media fs = Some (rc, fs') \<Longrightarrow> contained n media fs rc fs'"
  shows "\<forall>p. p \<notin> writeback_paths media \<longrightarrow> fs' p = fs p" "\<not> ok \<or> only_sidecar media (woz d) \<Longrightarrow> fs' (filename media) = Some f"
    "media_type media \<noteq> MEDIA_WOZ \<Longrightarrow> \<exists>f'. fs' (filename media) = Some f' \<and> keeps_rest n media f f'" "modified d' = modified d"
proof -
  have same: "keeps_rest n media f f" by (simp add: keeps_rest_def)
  consider (block) "media_type media = MEDIA_NYBBLE \<or> media_type media = MEDIA_BLK"
    | (sidecar) "only_sidecar media (woz d)" "save_written_sidecar io media fs d = (ok, fs', d')"
    | (original) "media_type media = MEDIA_WOZ" "unsaved_chunks (woz d) = []" "save_to io (filename media) fs d = (ok, fs', d')"
    using assms(1) by (cases "media_type media") (auto simp: write_media_def only_sidecar_def split: if_splits)
  then have "(\<forall>p. p \<notin> writeback_paths media \<longrightarrow> fs' p = fs p) \<and> (\<not> ok \<or> only_sidecar media (woz d) \<longrightarrow> fs' (filename media) = Some f) \<and>
    (media_type media \<noteq> MEDIA_WOZ \<longrightarrow> (\<exists>f'. fs' (filename media) = Some f' \<and> keeps_rest n media f f')) \<and> modified d' = modified d"
  proof cases
    case block
    then obtain rc fs1 where e: "export_image_op nib io (woz d) media fs = Some (rc, fs1)"
      and r: "(if rc = EXPORT_LOSSY then save_written_sidecar io media fs1 d else (rc = 0, fs1, d)) = (ok, fs', d')"
      using assms(1,2) by (auto simp: write_media_def split: bind_splits)
    note c = contained [OF e, unfolded contained_def]
    show ?thesis
    proof (cases "rc = 0")
      case True
      then show ?thesis
        using c r block assms(3) by (auto simp: EXPORT_LOSSY_def keeps_rest_def writeback_paths_def only_sidecar_def)
    next
      case False
      then have "same_but (tmp_path (filename media)) fs fs1" using c by simp
      then have fs1: "fs1 (filename media) = Some f" "\<forall>p. p \<notin> writeback_paths media \<longrightarrow> fs1 p = fs p"
        using assms(3) by (auto simp: same_but_def writeback_paths_def)
      show ?thesis
      proof (cases "rc = EXPORT_LOSSY")
        case True
        then have "save_written_sidecar io media fs1 d = (ok, fs', d')" using r by simp
        from sidecar_files [OF this] show ?thesis using fs1 same by auto
      next
        case False
        then show ?thesis using r fs1 same by auto
      qed
    qed
  next
    case sidecar
    then show ?thesis using sidecar_files [OF sidecar(2)] assms(3) same by auto
  next
    case original
    then show ?thesis
      using save_to_files [OF original(3)] assms(3) by (auto simp: writeback_paths_def only_sidecar_def)
  qed
  then show "\<forall>p. p \<notin> writeback_paths media \<longrightarrow> fs' p = fs p" "\<not> ok \<or> only_sidecar media (woz d) \<Longrightarrow> fs' (filename media) = Some f"
    "media_type media \<noteq> MEDIA_WOZ \<Longrightarrow> \<exists>f'. fs' (filename media) = Some f' \<and> keeps_rest n media f f'" "modified d' = modified d"
    by blast+
qed

lemma writeback_files:
  assumes "writeback h io fs d = Some (ok, fs', d')" "media_d d = Some media" "nibblizer_hook h = Some nib" "fs (filename media) = Some f"
    and "\<And>rc fs'. export_image_op nib io (woz d) media fs = Some (rc, fs') \<Longrightarrow> contained n media fs rc fs'"
  shows "(\<forall>p. p \<notin> writeback_paths media \<longrightarrow> fs' p = fs p) \<and> (\<not> modified d \<or> media_write_protected media \<longrightarrow> ok \<and> fs' = fs) \<and>
    (\<not> ok \<or> only_sidecar media (woz d) \<longrightarrow> fs' (filename media) = Some f) \<and>
    (media_type media \<noteq> MEDIA_WOZ \<longrightarrow> (\<exists>f'. fs' (filename media) = Some f' \<and> keeps_rest n media f f')) \<and>
    modified d' = (modified d \<and> \<not> ok)"
proof (cases "modified d \<and> \<not> media_write_protected media")
  case False
  then show ?thesis
    using assms(1,2,4) by (auto simp: writeback_def keeps_rest_def split: if_splits)
next
  case True
  then obtain d1 where d1: "write_media h io media fs d = Some (ok, fs', d1)" "d' = (if ok then d1\<lparr>modified := False\<rparr> else d1)"
    using assms(1,2) by (auto simp: writeback_def split: bind_splits)
  from write_media_files [OF d1(1) assms(3-5)] show ?thesis using True d1(2) by auto
qed

section \<open>The drive after a writeback\<close>

text \<open>Writing back keeps the tracks and what the head is doing.\<close>

definition same_disk :: "'a floppy_scheme \<Rightarrow> 'a floppy_scheme \<Rightarrow> bool" where
  "same_disk d d' \<longleftrightarrow> tracks (woz d') = tracks (woz d) \<and> tmap (woz d') = tmap (woz d) \<and> optimal_bit_timing (info (woz d')) = optimal_bit_timing (info (woz d)) \<and>
     cur_track d' = cur_track d \<and> read_position d' = read_position d \<and> enable d' = enable d \<and> floppy.more d' = floppy.more d"

lemma save_to_same: "same_disk d (snd (snd (save_to io path fs d)))"
  by (simp add: same_disk_def save_to_def save_def woz_chunks_def build_trks_chunk_def Let_def case_prod_beta)

lemma writeback_same:
  assumes "writeback h io fs d = Some (ok, fs', d')"
  shows "same_disk d d'"
proof -
  have forget: "same_disk d (x\<lparr>modified := b\<rparr>) = same_disk d x" for x b by (simp add: same_disk_def)
  have "same_disk d x" if "write_media h io media fs d = Some (ok', fs'', x)" for media ok' fs'' x
    using that save_to_same [of d io _ fs] save_to_same [of d io "sidecar_path media"]
    by (auto simp: write_media_def save_written_sidecar_def same_disk_def split: option.splits if_splits bind_splits)
      (metis snd_conv)+
  then show ?thesis
    using assms by (auto simp: writeback_def forget same_disk_def split: option.splits if_splits bind_splits)
qed

end
