(* ===== verification/Floppy_525_Correct.thy ===== *)
theory Floppy_525_Correct
  imports Floppy_525 Floppy_Writeback
begin

text \<open>
  The properties of the 5.25 inch drive: the operations as a step relation with its invariant, the stepper with the event
  timer, recalibration, catching up, writing back.
\<close>

section \<open>The operations of a mounted drive\<close>

inductive drive_step :: "(nat \<Rightarrow> nat \<Rightarrow> u8 list) \<Rightarrow> 'a floppy525_scheme \<Rightarrow> 'a floppy525_scheme \<Rightarrow> bool" for memory where
  read: "read_pulse (hooks_525 memory) d = Some (b, d') \<Longrightarrow> drive_step memory d d'"
| writes: "write_pulse (hooks_525 memory) b d = Some d' \<Longrightarrow> drive_step memory d d'"
| tick: "drive_step memory d (tick_no_write (hooks_525 memory) d)"
| forward: "fast_forward (hooks_525 memory) now d = Some (n, d') \<Longrightarrow> drive_step memory d d'"
| cell_phase: "drive_step memory d (restart_cell_phase d)"
| select: "drive_step memory d (set_enable (hooks_525 memory) now b d)"
| direction: "drive_step memory d (set_writing b d)"
| phase: "drive_step memory d (set_phase_line p b d)"
| settle: "drive_step memory d (update_track (hooks_525 memory) d)"
| resets: "drive_step memory d (reset_drive d)"
| written_back: "writeback (hooks_525 memory) io fs d = Some (ok, fs', d') \<Longrightarrow> drive_step memory d d'"

inductive_cases drive_stepE: "drive_step memory d d'"

definition on_track :: "(nat \<Rightarrow> nat \<Rightarrow> u8 list) \<Rightarrow> 'a floppy525_scheme \<Rightarrow> bool" where
  "on_track memory d \<longleftrightarrow> head_ok (hooks_525 memory) d \<and> stepper_ok d"

lemma stepper_ok_cong: "floppy.more d = floppy.more d' \<Longrightarrow> stepper_ok d = stepper_ok d'"
  by (cases d, cases d') (simp add: stepper_ok_def)

lemma head_ok_cong:
  assumes "woz d = woz d'" "cur_track d = cur_track d'" "read_position d = read_position d'"
  shows "head_ok h d = head_ok h d'"
  using assms track_len_cong [OF assms(1,2), of h] by (simp add: head_ok_def)

lemma update_track_head:
  fixes d :: "'a floppy525_scheme"
  assumes "head_ok (hooks_525 memory) d"
  shows "head_ok (hooks_525 memory) (update_track (hooks_525 memory) d)"
proof -
  have "head_ok (hooks_525 memory) (update_track_ptr (hooks_525 memory) (d\<lparr>track := t\<rparr>))" for t
    using assms by (intro d525.update_track_ptr_ok(1)) (simp add: head_ok_def)
  moreover have "head_ok (hooks_525 memory) (d\<lparr>track := t\<rparr>)" for t
    using assms head_ok_cong [of "d\<lparr>track := t\<rparr>" d "hooks_525 memory"] by simp
  ultimately show ?thesis using assms by (simp add: update_track_def Let_def)
qed

lemma writeback_head:
  fixes d :: "'a floppy525_scheme"
  assumes "writeback (hooks_525 memory) io fs d = Some (ok, fs', d')" "head_ok (hooks_525 memory) d"
  shows "head_ok (hooks_525 memory) d'"
proof -
  have s: "same_disk d d'" by (rule writeback_same [OF assms(1)])
  then have "cur_bit_count d' = cur_bit_count d" by (simp add: same_disk_def cur_bit_count_def cong: option.case_cong)
  then show ?thesis using s assms(2) by (simp add: same_disk_def head_ok_def track_len_def split: if_splits)
qed

lemma drive_step_head:
  assumes "drive_step memory d d'" "head_ok (hooks_525 memory) d"
  shows "head_ok (hooks_525 memory) d'"
  using assms(1)
proof cases
  case (read b)
  then show ?thesis using d525.read_pulse_keeps(1) [of memory d b d'] assms(2) by simp
next
  case (writes b)
  then show ?thesis using d525.write_pulse_spec [of memory d b] assms(2) by auto
next
  case tick
  then show ?thesis using d525.head_ok_next [of memory d] assms(2) by (simp add: tick_no_write_def)
next
  case (forward now n)
  then show ?thesis using d525.fast_forward_ok [of memory d now n d'] assms(2) by simp
next
  case settle
  then show ?thesis using update_track_head [of memory d] assms(2) by simp
next
  case (written_back io fs ok fs')
  then show ?thesis using writeback_head assms(2) by blast
qed (use assms(2) head_ok_cong [of d' d "hooks_525 memory"] in \<open>simp add: restart_cell_phase_def set_enable_def
  note_spinning_inputs_changed_def set_writing_def reset_drive_def set_phase_line_def\<close>)+

text \<open>The stepper moves only when the head settles.\<close>

lemma drive_step_stepper:
  assumes "drive_step memory d d'" "head_ok (hooks_525 memory) d"
  shows "d' = update_track (hooks_525 memory) d \<or> track d' = track d \<and> max_tracks d' = max_tracks d"
proof -
  have more: "track d' = track d \<and> max_tracks d' = max_tracks d" if "floppy.more d' = floppy.more d"
    using that by (cases d, cases d') simp
  show ?thesis
    using assms(1)
  proof cases
    case (read b)
    then show ?thesis using d525.read_pulse_keeps(5) [of memory d b d'] assms(2) more by simp
  next
    case (writes b)
    then show ?thesis using d525.write_pulse_spec [of memory d b] assms(2) more by auto
  next
    case tick
    then show ?thesis using more by (simp add: tick_no_write_def)
  next
    case (forward now n)
    then show ?thesis using d525.fast_forward_ok [of memory d now n d'] assms(2) more by simp
  next
    case (written_back io fs ok fs')
    then have "same_disk d d'" by (intro writeback_same)
    then show ?thesis using more by (simp add: same_disk_def)
  qed (use more in \<open>simp_all add: restart_cell_phase_def set_enable_def note_spinning_inputs_changed_def set_writing_def reset_drive_def\<close>)
qed

lemma drive_step_ok:
  assumes "drive_step memory d d'" "on_track memory d"
  shows "on_track memory d'"
  using drive_step_head [OF assms(1)] drive_step_stepper [OF assms(1)] update_track_ok [of d "hooks_525 memory"] assms(2)
  by (auto simp: on_track_def stepper_ok_def)

text \<open>
  C14.  A mounted drive never leaves its disk.  From a successful mount of a 5.25 inch image, with the head at or above the
  stop, until the next mount or unmount, after any sequence of pulses, waits, phase changes, settling of the head,
  selections, resets and writebacks, the head is between the stop and the last track, the position is on the current
  track, and the next read and the next write are inside the bytes of the track.  For a WOZ file this needs the tracks
  of the file to hold the bytes of their bit counts; imported images always do.
\<close>

theorem mounted_drive_stays_on_track:
  assumes "mount_525 memory io tm media fs d = Some (True, d0)" "0 \<le> track d"
    and "media_type media = MEDIA_WOZ \<Longrightarrow> \<forall>trk \<in> set (tracks (woz d0)). sound_track trk"
    and "(drive_step memory)\<^sup>*\<^sup>* d0 d'"
  shows "0 \<le> track d' \<and> track d' \<le> max_tracks d' \<and> max_tracks d' < 160 \<and>
    unat (read_position d') < unat (track_len (hooks_525 memory) d') * 128 \<and>
    read_pulse (hooks_525 memory) d' \<noteq> None \<and> (\<forall>b. write_pulse (hooks_525 memory) b d' \<noteq> None)"
proof -
  have "on_track memory d0"
    using mount_525_ok [OF assms(1-3)] by (simp add: on_track_def)
  with assms(4) have ok: "on_track memory d'"
    by (induction rule: rtranclp_induct) (auto intro: drive_step_ok)
  have "track_len (hooks_525 memory) d' \<noteq> 0" by (simp add: track_len_def hooks_525_def)
  then show ?thesis
    using ok d525.read_pulse_returns [of memory d'] d525.write_pulse_spec [of memory d']
    by (fastforce simp: on_track_def head_ok_def stepper_ok_def)
qed

text \<open>
  C17.  Recalibration.  Twenty turns of the four magnets, 80 settled steps, take the head to track 0 from wherever it is.
\<close>

theorem recalibration_reaches_track_0:
  assumes "stepper_ok d"
  shows "track (fold (settle_at (hooks_525 memory)) (concat (replicate 20 [3, 2, 1, 0])) d) = 0"
proof -
  have turns: "fold (settle_at h) (concat (replicate n [3, 2, 1, 0])) d = (turn h ^^ n) d" for h n and d :: "'a floppy525_scheme"
    by (induction n arbitrary: d) (simp_all add: turn_def funpow_swap1)
  obtain q where "track ((turn (hooks_525 memory) ^^ 20) d) = 8 * q" "8 * q \<le> max 0 (track d - 154)"
    "stepper_ok ((turn (hooks_525 memory) ^^ 20) d)"
    using turns_pos [OF assms, where h = "hooks_525 memory" and n = 19] by auto
  moreover have "track d \<le> 159" using assms by (simp add: stepper_ok_def)
  ultimately have "8 * q \<le> 5" "0 \<le> 8 * q" by (auto simp: stepper_ok_def max_def split: if_splits)
  then have "q = 0" by linarith
  with \<open>track ((turn (hooks_525 memory) ^^ 20) d) = 8 * q\<close> show ?thesis by (simp only: turns)
qed

section \<open>Mounting block images\<close>

lemma import_525_info:
  assumes "import_block_image memory io img (Some media) fs = (0, img')"
  shows "optimal_bit_timing (info img') = 32"
proof -
  have "info (fold (add_track build) ts img0) = info img0" for build ts img0
    by (induction ts arbitrary: img0) (simp_all add: add_track_def Let_def)
  then show ?thesis
    using assms by (auto simp: import_block_image_def import_from_nib_def import_reset_def split: if_splits option.splits)
qed

lemma mount_525_block:
  fixes d :: "'a floppy525_scheme"
  assumes "accepts_525 media" "fs (filename media) = Some f" "data_offset media + 143360 \<le> length f" "open_ok io" "read_ok io"
    and "data_size media = 143360" "\<And>t s. length (memory t s) = 342"
  shows "\<exists>d0. mount_525 memory io tm media fs d = Some (True, d0)"
proof -
  let ?h = "hooks_525 memory :: 'a floppy525_scheme hooks"
  let ?d = "if is_mounted d then unmount_525 d else d"
  have type: "media_type media = MEDIA_NYBBLE" using assms(1) by (simp add: accepts_525_def)
  have "buffers_342 memory = memory" using assms(7) by (intro ext) (simp add: buffers_342_def)
  then obtain img' where imp: "import_block_image memory io (woz ?d) (Some media) fs = (0, img')"
    using nib_525.import_export [where fs = fs and memory = memory, OF assms(1-5,4), of "woz ?d"] by auto
  have "optimal_bit_timing (info img') = 32" by (rule import_525_info [OF imp])
  then have "\<exists>d1. insert_disk ?h now media (?d\<lparr>woz := img'\<rparr>) = Some d1 \<and> woz d1 = img'" for now
    by (simp add: insert_disk_def Let_def hooks_525_def head_advance_525_def update_track_ptr_def)
  then obtain d1 where "insert_disk ?h (get_current_time_525 tm d) media (?d\<lparr>woz := img'\<rparr>) = Some d1" by blast
  then have "mount_base ?h io (get_current_time_525 tm d) media fs d = Some (True, d1)"
    using imp type by (cases "is_mounted d") (simp_all add: mount_base_def Let_def make_nibblizer_525_def)
  then show ?thesis using type assms(6) by (auto simp: mount_525_def Let_def)
qed

section \<open>Rotation, writing and settling\<close>

text \<open>
  C20.  Catching up with the disk.  When the read position is where the head is and time passes (less than the 64 bits of the
  position can count), \<^verbatim>\<open>fast_forward\<close> asks for at most 32 bit cells, or while writing for less than a revolution, and
  after that many pulses the read position is again where the head is.
\<close>

theorem catching_up_is_exact:
  assumes "head_ok (hooks_525 memory) d" "synced (hooks_525 memory) d" "enable d" "advance_per_cycle d \<noteq> 0"
    and "unat (head_position d) + unat (now - last_cycle d) * unat (advance_per_cycle d) < 2 ^ 64"
  shows "\<exists>n d1 bs d'. fast_forward (hooks_525 memory) now d = Some (n, d1) \<and> (writing d \<or> unat n \<le> 32) \<and>
    unat n < unat (track_len (hooks_525 memory) d) \<and> read_pulses (hooks_525 memory) (unat n) d1 = Some (bs, d') \<and>
    synced (hooks_525 memory) d' \<and>
    unat (head_position d') = unat (head_position d) + unat (now - last_cycle d) * unat (advance_per_cycle d)"
  using d525.fast_forward_sync [OF assms(1,2) _ assms(4,5)] assms(3) by fastforce

text \<open>
  C21.  A write pulse changes one bit.  With the drive enabled, the magnets not in the bus-enable state and a track under
  the head, a write pulse replaces the bit at the read position in the stream of that track by the given bit and leaves
  every other bit of the disk as it was; otherwise it changes no bit.  A read at that position then sees the bit.
\<close>

theorem write_pulse_changes_one_bit:
  assumes "head_ok (hooks_525 memory) d" "cur_track d = Some i" "bit_count (tracks (woz d) ! i) \<noteq> 0"
  shows "\<exists>d'. write_pulse (hooks_525 memory) b d = Some d' \<and>
    map stream (tracks (woz d')) = (if enable d \<and> \<not> (phase1 d \<and> phase3 d)
      then (map stream (tracks (woz d)))[i := (stream (tracks (woz d) ! i))[unat (read_position d) div 128 := (b AND 1 \<noteq> 0)]]
      else map stream (tracks (woz d))) \<and>
    (enable d \<and> \<not> (phase1 d \<and> phase3 d) \<longrightarrow>
      surface_bit (hooks_525 memory) (d'\<lparr>read_position := read_position d\<rparr>) = Some (b AND 1))"
proof -
  let ?h = "hooks_525 memory"
  obtain d' where d': "write_pulse ?h b d = Some d'" "head_ok ?h d'" "cur_track d' = cur_track d" "enable d' = enable d"
    "track_len ?h d' = track_len ?h d" "map bit_count (tracks (woz d')) = map bit_count (tracks (woz d))"
    and st: "map stream (tracks (woz d')) = (if enable d \<and> \<not> (phase1 d \<and> phase3 d)
      then (map stream (tracks (woz d)))[i := (stream (tracks (woz d) ! i))[unat (read_position d) div 128 := (b AND 1 \<noteq> 0)]]
      else map stream (tracks (woz d)))"
    using d525.write_pulse_spec [OF assms(1), of b] assms(2,3) by (auto simp: cur_bit_count_0 [OF assms(2)] write_gate_525_def)
  have i: "i < length (tracks (woz d))" using assms(1,2) by (simp add: head_ok_def)
  have len: "length (tracks (woz d')) = length (tracks (woz d))" using d'(6) by (metis length_map)
  have "bit_count (tracks (woz d') ! i) = bit_count (tracks (woz d) ! i)" using d'(6) i len by (metis nth_map)
  then have cnt: "cur_bit_count (d'\<lparr>read_position := p\<rparr>) \<noteq> 0" for p
    using assms(2,3) d'(3) cur_bit_count_0 [of "d'\<lparr>read_position := p\<rparr>" i] by simp
  have "head_ok ?h (d'\<lparr>read_position := read_position d\<rparr>)"
    using assms(1) d'(2,5) by (simp add: head_ok_def)
  note surface = d525.surface_is_stream [OF this _ cnt, of i]
  have "unat (read_position d) div 128 < unat (bit_count (tracks (woz d) ! i))"
    using d525.bit_index_in_track(1,4) [OF assms(1,2)] assms(3) cur_bit_count_0 [OF assms(2)] by simp
  then have "stream (tracks (woz d') ! i) ! (unat (read_position d) div 128) = (b AND 1 \<noteq> 0)" if "enable d" "\<not> (phase1 d \<and> phase3 d)"
  proof -
    have "stream (tracks (woz d') ! i) = map stream (tracks (woz d')) ! i" using i len by simp
    then show ?thesis using st that i \<open>unat (read_position d) div 128 < unat (bit_count (tracks (woz d) ! i))\<close> by simp
  qed
  moreover have "of_bool (b AND 1 \<noteq> 0) = b AND 1" by (simp add: and_one_eq)
  ultimately have "surface_bit ?h (d'\<lparr>read_position := read_position d\<rparr>) = Some (b AND 1)" if "enable d" "\<not> (phase1 d \<and> phase3 d)"
    using surface that assms(2) d'(3,4) by simp
  then show ?thesis using d'(1) st by blast
qed

lemma pending_event:
  fixes t :: "('c, 'u) event_timer" and e :: "('c, 'u) event"
  assumes "timer_ok t"
  shows "e \<in> set (events t) \<longleftrightarrow> pending t (instanceID e) = Some (triggerCycles e, triggerCallback e, userData e)"
proof -
  let ?f = "\<lambda>e :: ('c, 'u) event. (instanceID e, triggerCycles e, triggerCallback e, userData e)"
  have "distinct (map fst (map ?f (events t)))" using assms by (simp add: timer_ok_def comp_def)
  from map_of_eq_Some_iff [OF this] have "pending t (instanceID e) = Some (triggerCycles e, triggerCallback e, userData e) \<longleftrightarrow>
      ?f e \<in> ?f ` set (events t)" by (simp add: pending_def)
  moreover have "inj ?f"
  proof (rule injI)
    fix x y :: "('c, 'u) event" assume "?f x = ?f y"
    then show "x = y" by (cases x; cases y; simp)
  qed
  then have "?f e \<in> ?f ` set (events t) \<longleftrightarrow> e \<in> set (events t)" by (rule inj_image_mem_iff)
  ultimately show ?thesis by simp
qed

lemma pending_unique:
  assumes "timer_ok t" "e \<in> set (events t)" "instanceID e = i" "pending t i = Some (w, cb, u)"
  shows "e = \<lparr>triggerCycles = w, triggerCallback = cb, instanceID = i, userData = u\<rparr>"
  using pending_event [OF assms(1), of e] assms(2-4) by (cases e) simp

lemma due_scheduled:
  assumes "timer_ok t" "timer_ok t'" "pending t' = (pending t)(ident \<mapsto> (w, cb, u))"
    and "\<forall>e \<in> set (events t). instanceID e = ident \<or> now < triggerCycles e" "w \<le> now"
  shows "due now t' = {#\<lparr>triggerCycles = w, triggerCallback = cb, instanceID = ident, userData = u\<rparr>#}"
proof -
  let ?e = "\<lparr>triggerCycles = w, triggerCallback = cb, instanceID = ident, userData = u\<rparr>"
  let ?due = "filter (\<lambda>e. triggerCycles e \<le> now) (events t')"
  have e: "?e \<in> set (events t')" using pending_event [OF assms(2), of ?e] assms(3) by simp
  have only: "e = ?e" if "e \<in> set (events t')" "triggerCycles e \<le> now" for e
  proof (cases "instanceID e = ident")
    case True
    then show ?thesis using assms(3) by (intro pending_unique [OF assms(2) that(1)]) simp_all
  next
    case False
    then have "e \<in> set (events t)" using pending_event [OF assms(2), of e] pending_event [OF assms(1), of e] that(1) assms(3) by simp
    then show ?thesis using assms(4) that(2) False by auto
  qed
  have "set ?due = {?e}"
  proof (intro equalityI subsetI)
    fix e assume "e \<in> set ?due"
    then have "e = ?e" by (intro only) simp_all
    then show "e \<in> {?e}" by blast
  qed (use e assms(5) in simp)
  moreover have "distinct (events t')" using assms(2) by (simp add: timer_ok_def distinct_map)
  then have "mset_set (set ?due) = mset ?due" by (intro mset_set_set) simp
  ultimately have "mset ?due = {#?e#}" by simp
  then show ?thesis by (simp add: due_def)
qed

text \<open>
  C19.  Phase changes settle once.  A change of a phase line schedules the settling of the head 520 cycles later and
  replaces a settling of the same drive that was still pending; when the timer is processed at that cycle or later and
  nothing else is due, the head moves exactly once, by the magnets as they are then.
\<close>

theorem phase_change_settles_once:
  fixes drives :: "nat \<Rightarrow> 'a floppy525_scheme"
  assumes "timer_ok t" "\<not> in_the_past (t_timer tm) (settle_time tm (drives n))" "drive_index (drives n) = n"
    and "\<forall>e \<in> set (events t). instanceID e = drive_instance (drives n) \<or> now < triggerCycles e"
    and "settle_time tm (drives n) \<le> now" "set_phase_525 tm p b (drives n, t) = (d', t')"
  shows "\<exists>t''. processEvents (quiet (\<lambda>c i u w. w(u := update_track (hooks_525 memory) (w u)))) now (t', drives(n := d')) =
      Some (t'', drives(n := update_track (hooks_525 memory) (set_phase_line p b (drives n)))) \<and>
    drive_instance (drives n) \<notin> instanceID ` set (events t'')"
proof -
  let ?id = "drive_instance (drives n)" and ?when = "settle_time tm (drives n)"
  let ?f = "\<lambda>c i u w. w(u := update_track (hooks_525 memory) (w u)) :: nat \<Rightarrow> 'a floppy525_scheme"
  let ?e = "\<lparr>triggerCycles = ?when, triggerCallback = Some PHASE_CHANGE_CALLBACK, instanceID = ?id, userData = n\<rparr>"
  have d': "d' = set_phase_line p b (drives n)"
    and t': "t' = scheduleEvent (t_timer tm) ?when (Some PHASE_CHANGE_CALLBACK) ?id n t"
    using assms(3,6) by (auto simp: set_phase_525_def)
  have spec: "timer_ok t'" "pending t' = (pending t)(?id \<mapsto> (?when, Some PHASE_CHANGE_CALLBACK, n))"
    using scheduleEvent_spec [OF assms(1,2), of "Some PHASE_CHANGE_CALLBACK" ?id n] by (simp_all add: t')
  have due: "due now t' = {#?e#}"
    by (rule due_scheduled [OF assms(1) spec assms(4,5)])
  obtain t'' es where p: "processEvents (quiet ?f) now (t', drives(n := d')) = Some (t'', fold (effect ?f) es (drives(n := d')))"
    "mset es = due now t'" "mset (events t'') = mset (events t') - due now t'"
    using process_loop_quiet [OF spec(1), of ?f now "drives(n := d')"] by (auto simp: processEvents_def updateNextEventCycle_def)
  then have "es = [?e]" by (simp add: due)
  then have "fold (effect ?f) es (drives(n := d')) = drives(n := update_track (hooks_525 memory) d')" by (simp add: effect_def)
  moreover have "?id \<notin> instanceID ` set (events t'')"
  proof
    assume "?id \<in> instanceID ` set (events t'')"
    then obtain e where e: "e \<in># mset (events t') - {#?e#}" "instanceID e = ?id" using p(3) due by (metis imageE set_mset_mset)
    then have "e \<in> set (events t')" by (meson in_diffD set_mset_mset in_multiset_in_set)
    then have "e = ?e" using e(2) spec(2) by (intro pending_unique [OF spec(1)]) simp_all
    then have "2 \<le> count (mset (events t')) ?e" using e(1) by (simp add: in_diff_count)
    moreover have "count (mset (events t')) ?e \<le> 1" if "distinct (events t')" using that by (simp add: distinct_count_atmost_1)
    ultimately have "\<not> distinct (events t')" by fastforce
    then have "\<not> distinct (map instanceID (events t'))" by (auto simp: distinct_map)
    then show False using spec(1) by (simp add: timer_ok_def)
  qed
  ultimately show ?thesis using p(1) by (intro exI [of _ t'']) (simp add: d')
qed

section \<open>Writing back and refusing disks\<close>

text \<open>
  C13.  Writing back never damages the original.  As long as its file can be opened, writing a disk back touches no file but the image, the sidecar beside it and
  their temporary files; a disk that was not written or is write protected changes no file at all; when it fails, and for
  nibble files and WOZ files with chunks that cannot be saved, the image keeps its bytes; a block image changes only in the
  bytes of the disk.  The drive forgets its changes exactly when they have been written.
\<close>

theorem writeback_keeps_original:
  assumes "writeback (hooks_525 memory) io fs d = Some (ok, fs', d')" "media_d d = Some media" "fs (filename media) = Some f" "open_ok io"
  shows "(\<forall>p. p \<notin> writeback_paths media \<longrightarrow> fs' p = fs p) \<and> (\<not> modified d \<or> media_write_protected media \<longrightarrow> ok \<and> fs' = fs) \<and>
    (\<not> ok \<or> only_sidecar media (woz d) \<longrightarrow> fs' (filename media) = Some f) \<and>
    (media_type media \<noteq> MEDIA_WOZ \<longrightarrow> (\<exists>f'. fs' (filename media) = Some f' \<and> keeps_rest 143360 media f f')) \<and>
    modified d' = (modified d \<and> \<not> ok)"
proof (rule writeback_files [OF assms(1,2) _ assms(3)])
  show "nibblizer_hook (hooks_525 memory) = Some (make_nibblizer_525 memory)" by simp
  show "contained 143360 media fs rc fs'" if "export_image_op (make_nibblizer_525 memory) io (woz d) media fs = Some (rc, fs')" for rc fs'
    using that assms(3,4) by (intro export_525_contained) (simp_all add: make_nibblizer_525_def)
qed

text \<open>
  A refused disk stays in the drive.  Mounting a WOZ file of another disk type fails, but the drive, although not mounted,
  keeps the image, its track under the head and the descriptor of the file.
\<close>

lemma refused_disk_stays_in_drive:
  assumes "\<not> is_mounted d" "media_type media = MEDIA_WOZ" "load io (filename media) (woz d) fs = Some (0, img)"
    and "disk_type (info img) \<noteq> 1" "optimal_bit_timing (info img) \<noteq> 0"
  shows "\<exists>d'. mount_525 memory io tm media fs d = Some (False, d') \<and> \<not> is_mounted d' \<and> woz d' = img \<and>
    cur_track d' = track_index img (track d) \<and> map_option filename (media_d d') = Some (filename media)"
proof -
  let ?h = "hooks_525 memory :: 'a floppy525_scheme hooks"
  obtain d1 where ins: "insert_disk ?h (get_current_time_525 tm d) media (d\<lparr>woz := img\<rparr>) = Some d1" and d1: "woz d1 = img"
    "cur_track d1 = track_index img (track d)" "map_option filename (media_d d1) = Some (filename media)"
    using assms(5) by (auto simp: insert_disk_def Let_def ucast_8_64_0 head_advance_525_def update_track_ptr_def)
  then have "mount_525 memory io tm media fs d = Some (False, d1\<lparr>is_mounted := False\<rparr>)"
    using assms(1-4) by (simp add: mount_525_def mount_base_def Let_def)
  then show ?thesis using d1 by (intro exI [of _ "d1\<lparr>is_mounted := False\<rparr>"]) simp
qed

section \<open>Concrete drives\<close>

definition demo_times :: times where
  "demo_times = \<lparr>t_cycles = 100, t_vid_cycles = 100, t_c14m = 1400, t_c14m_per_second = 14318181, t_timer = Some 100\<rparr>"

definition demo_memory :: "nat \<Rightarrow> nat \<Rightarrow> u8 list" where
  "demo_memory t s = replicate 342 7"

definition demo_drive :: "nat \<Rightarrow> floppy525" where
  "demo_drive n = new_floppy525 6 n False"

lemmas demo_drive_defs = demo_drive_def new_floppy525_def new_floppy_def floppy.defs floppy525.defs

text \<open>A spinning drive with a short track under the head.\<close>

definition demo_spinning :: floppy525 where
  "demo_spinning = (demo_drive 0)\<lparr>woz := small_woz, cur_track := Some 0, enable := True, advance_per_cycle := 32\<rparr>"

lemma demo_spinning_ok:
  "head_ok (hooks_525 demo_memory) demo_spinning" "synced (hooks_525 demo_memory) demo_spinning"
  "cur_track demo_spinning = Some 0" "bit_count (tracks (woz demo_spinning) ! 0) = 20" "enable demo_spinning"
  "advance_per_cycle demo_spinning = 32" "head_position demo_spinning = 0" "read_position demo_spinning = 0"
  "last_cycle demo_spinning = 0" "\<not> phase1 demo_spinning" "tracks (woz demo_spinning) = [\<lparr>bits = [0xD5, 0xAA, 0x90], bit_count = 20\<rparr>]"
  by (simp_all add: head_ok_def synced_def track_len_def cur_bit_count_def sound_track_def demo_spinning_def demo_drive_defs small_woz_def)

theorem mounted_drive_stays_on_track_witness:
  "\<exists>d0. mount_525 demo_memory demo_io demo_times demo_media demo_files (demo_drive 0) = Some (True, d0) \<and>
    read_pulse (hooks_525 demo_memory) d0 \<noteq> None"
proof -
  obtain d0 where m: "mount_525 demo_memory demo_io demo_times demo_media demo_files (demo_drive 0) = Some (True, d0)"
    using mount_525_block [where fs = demo_files and d = "demo_drive 0", OF demo_disk(1-5), of demo_memory demo_times]
    by (auto simp: demo_media_def demo_memory_def)
  have "media_type demo_media \<noteq> MEDIA_WOZ" "0 \<le> track (demo_drive 0)" by (simp_all add: demo_media_def demo_drive_defs)
  then show ?thesis using mounted_drive_stays_on_track [OF m, of d0] m by auto
qed

theorem recalibration_reaches_track_0_witness:
  "track (fold (settle_at (hooks_525 demo_memory)) (concat (replicate 20 [3, 2, 1, 0])) ((demo_drive 0)\<lparr>track := 77\<rparr>)) = 0"
  by (rule recalibration_reaches_track_0) (simp add: stepper_ok_def demo_drive_defs)

theorem catching_up_is_exact_witness:
  "\<exists>n d1 bs d'. fast_forward (hooks_525 demo_memory) 1000 demo_spinning = Some (n, d1) \<and>
    read_pulses (hooks_525 demo_memory) (unat n) d1 = Some (bs, d') \<and> synced (hooks_525 demo_memory) d' \<and> unat (head_position d') = 32000"
  using catching_up_is_exact [OF demo_spinning_ok(1,2,5), of 1000] demo_spinning_ok(6,7,9) by auto

theorem write_pulse_changes_one_bit_witness:
  "\<exists>d'. write_pulse (hooks_525 demo_memory) 0 demo_spinning = Some d' \<and>
    map stream (tracks (woz d')) = [(stream \<lparr>bits = [0xD5, 0xAA, 0x90], bit_count = 20\<rparr>)[0 := False]]"
  using write_pulse_changes_one_bit [OF demo_spinning_ok(1,3), of 0] demo_spinning_ok(4,5,8,10,11) by auto

theorem phase_change_settles_once_witness:
  "\<exists>t''. processEvents (quiet (\<lambda>c i u w. w(u := update_track (hooks_525 demo_memory) (w u)))) 620
      (snd (set_phase_525 demo_times 1 True (demo_drive 0, EventTimer)),
       demo_drive(0 := fst (set_phase_525 demo_times 1 True (demo_drive 0, EventTimer)))) =
    Some (t'', demo_drive(0 := update_track (hooks_525 demo_memory) (set_phase_line 1 True (demo_drive 0))))"
proof -
  have "settle_time demo_times (demo_drive 0) = 620" "t_timer demo_times = Some 100" "drive_index (demo_drive 0) = 0"
    "events (EventTimer :: (drive_callback, nat) event_timer) = []"
    by (simp_all add: settle_time_def demo_times_def demo_drive_defs EventTimer_def)
  then show ?thesis
    using phase_change_settles_once [OF timer_ok_EventTimer _ _ _ _ prod.collapse [symmetric],
        where tm = demo_times and drives = demo_drive and n = 0 and now = 620 and p = 1 and b = True and memory = demo_memory]
    by (auto simp: in_the_past_def)
qed

definition woz_media :: media_descriptor where
  "woz_media = demo_media\<lparr>filename := ''b.woz'', media_type := MEDIA_WOZ\<rparr>"

theorem writeback_keeps_original_witness:
  "\<exists>ok fs' d'. writeback (hooks_525 demo_memory) good_io ([''b.woz'' \<mapsto> [1, 2, 3]])
      (demo_spinning\<lparr>media_d := Some woz_media, modified := True\<rparr>) = Some (ok, fs', d') \<and> modified d' = (\<not> ok)"
proof -
  let ?d = "demo_spinning\<lparr>media_d := Some woz_media, modified := True\<rparr>" and ?fs = "[''b.woz'' \<mapsto> [1, 2, 3 :: u8]]"
  have "writeback (hooks_525 demo_memory) good_io ?fs ?d \<noteq> None"
    by (simp add: writeback_def write_media_def woz_media_def demo_media_def case_prod_beta)
  then obtain ok fs' d' where w: "writeback (hooks_525 demo_memory) good_io ?fs ?d = Some (ok, fs', d')" by auto
  from writeback_keeps_original [OF w, of woz_media "[1, 2, 3]"] show ?thesis
    using w by (simp add: woz_media_def good_io_def)
qed

end
