(* ===== verification/Disk_II.thy ===== *)
theory Disk_II
  imports Floppy_525_Correct
begin

text \<open>
  The Disk II controller (\<^verbatim>\<open>src/devices/diskii/diskii_controller.hpp\<close>, \<^verbatim>\<open>ndiskii_woz.cpp\<close>): the addressable latch with
  its eight switches, the motor with its delay, the logic state sequencer that shifts bits between the drive and the data
  register, and the two drives.  The bookkeeping of sound effects, the taps of observers and snapshots are left out.

  An operation works on the controller and the event timer that its drives use.
\<close>

section \<open>State\<close>

record diskii =
  drives :: "floppy525 list"
  mark_cycles_turnoff :: u64
  motor_on :: bool
  switches :: "bool list"
  data_register :: u8
  sequencer_state :: bool

type_synonym drive_timer = "(drive_callback, nat) event_timer"

definition DiskII_WOZ_Controller :: "u16 \<Rightarrow> bool \<Rightarrow> diskii" where
  "DiskII_WOZ_Controller slot rt = \<lparr>drives = [new_floppy525 slot 0 rt, new_floppy525 slot 1 rt], mark_cycles_turnoff = 0,
     motor_on = False, switches = replicate 8 False, data_register = 0, sequencer_state = False\<rparr>"

definition diskii_select :: "diskii \<Rightarrow> nat" where "diskii_select c = of_bool (switches c ! 5)"
definition diskii_q6 :: "diskii \<Rightarrow> bool" where "diskii_q6 c = switches c ! 6"
definition diskii_q7 :: "diskii \<Rightarrow> bool" where "diskii_q7 c = switches c ! 7"

definition selected :: "diskii \<Rightarrow> floppy525" where "selected c = drives c ! diskii_select c"

definition put_drive :: "nat \<Rightarrow> floppy525 \<Rightarrow> diskii \<Rightarrow> diskii" where
  "put_drive i d c = c\<lparr>drives := (drives c)[i := d]\<rparr>"

definition put_selected :: "floppy525 \<Rightarrow> diskii \<Rightarrow> diskii" where
  "put_selected d c = put_drive (diskii_select c) d c"

text \<open>\<^verbatim>\<open>drives[i].set_enable(on)\<close>.\<close>

definition enable_drive :: "times \<Rightarrow> bool \<Rightarrow> nat \<Rightarrow> diskii \<Rightarrow> diskii" where
  "enable_drive tm on i c = put_drive i (set_enable (hooks_525 (\<lambda>_ _. [])) (get_current_time_525 tm (drives c ! i)) on (drives c ! i)) c"

section \<open>The motor\<close>

definition request_motor_off :: "times \<Rightarrow> diskii \<Rightarrow> diskii" where
  "request_motor_off tm c = c\<lparr>mark_cycles_turnoff := t_c14m tm + t_c14m_per_second tm\<rparr>"

definition request_motor_on :: "times \<Rightarrow> diskii \<Rightarrow> diskii" where
  "request_motor_on tm c = enable_drive tm True (diskii_select c) (c\<lparr>mark_cycles_turnoff := 0, motor_on := True\<rparr>)"

definition check_motor_off_timer :: "times \<Rightarrow> diskii \<Rightarrow> diskii" where
  "check_motor_off_timer tm c =
     (if mark_cycles_turnoff c \<noteq> 0 \<and> t_c14m tm > mark_cycles_turnoff c
      then (enable_drive tm False (diskii_select c) c)\<lparr>motor_on := False, mark_cycles_turnoff := 0\<rparr> else c)"

text \<open>\<^verbatim>\<open>drives[i].set_phase(phase, on)\<close>, with the timer.\<close>

definition phase_drive :: "times \<Rightarrow> nat \<Rightarrow> bool \<Rightarrow> nat \<Rightarrow> diskii \<times> drive_timer \<Rightarrow> diskii \<times> drive_timer" where
  "phase_drive tm phase on i = (\<lambda>(c, t). let (d, t') = set_phase_525 tm phase on (drives c ! i, t) in (put_drive i d c, t'))"

definition diskii_reset :: "times \<Rightarrow> diskii \<times> drive_timer \<Rightarrow> diskii \<times> drive_timer" where
  "diskii_reset tm = (\<lambda>(c, t).
     let (c, t) = fold (\<lambda>i s. phase_drive tm i False 1 (phase_drive tm i False 0 s)) [0, 1, 2, 3]
           (c\<lparr>switches := replicate 8 False, motor_on := False, mark_cycles_turnoff := 0\<rparr>, t)
     in (enable_drive tm False 1 (enable_drive tm False 0 c), t))"

section \<open>The sequencer\<close>

text \<open>Shifting a bit into the data register: once its top bit is set it is held until a one bit and the bit after it have come,
  which are the first bits of the next nibble.\<close>

definition read_shift :: "u8 \<Rightarrow> u8 \<times> bool \<Rightarrow> u8 \<times> bool" where
  "read_shift b = (\<lambda>(reg, seq).
     if reg AND 0x80 \<noteq> 0 then (if \<not> seq then (reg, b \<noteq> 0) else (0x02 OR b, False))
     else (push_bit 1 reg OR b, seq))"

text \<open>One bit cell, in the mode of the switches Q6 and Q7.\<close>

definition lss_cell :: "diskii \<Rightarrow> diskii option" where
  "lss_cell c =
     (let h = hooks_525 (\<lambda>_ _. []) in
      if \<not> diskii_q7 c \<and> \<not> diskii_q6 c then do {
        (b, d) \<leftarrow> read_pulse h (selected c);
        let (reg, seq) = read_shift b (data_register c, sequencer_state c);
        Some ((put_selected d c)\<lparr>data_register := reg, sequencer_state := seq\<rparr>)
      }
      else if \<not> diskii_q7 c then do {
        (_, d) \<leftarrow> read_pulse h (selected c);
        Some ((put_selected d c)\<lparr>data_register := drop_bit 1 (data_register c) OR push_bit 7 (write_protect d AND 1),
          sequencer_state := False\<rparr>)
      }
      else do {
        d \<leftarrow> write_pulse h (drop_bit 7 (data_register c) AND 0x01) (selected c);
        Some ((put_selected d c)\<lparr>data_register := push_bit 1 (data_register c), sequencer_state := False\<rparr>)
      })"

fun lss_cells :: "nat \<Rightarrow> diskii \<Rightarrow> diskii option" where
  "lss_cells 0 c = Some c"
| "lss_cells (Suc n) c = do { c \<leftarrow> lss_cell c; lss_cells n c }"

definition diskii_fast_forward :: "times \<Rightarrow> diskii \<Rightarrow> diskii option" where
  "diskii_fast_forward tm c =
     (if \<not> motor_on c then Some c
      else do {
        (bits_to_sim, d) \<leftarrow> fast_forward (hooks_525 (\<lambda>_ _. [])) (get_current_time_525 tm (selected c)) (set_writing (diskii_q7 c) (selected c));
        lss_cells (unat bits_to_sim) (put_selected d c)
      })"

section \<open>The soft switches\<close>

definition decode :: "times \<Rightarrow> nat \<Rightarrow> diskii \<times> drive_timer \<Rightarrow> diskii \<times> drive_timer" where
  "decode tm reg = (\<lambda>(c, t).
     let c = c\<lparr>switches := (switches c)[reg div 2 := odd reg]\<rparr>;
         c = (if reg = 0x0D \<and> \<not> diskii_q7 c then c\<lparr>data_register := 0, sequencer_state := False\<rparr> else c)
     in if reg < 8 then phase_drive tm (reg div 2) (odd reg) (diskii_select c) (c, t)
        else if reg = 0x08 then (request_motor_off tm c, t)
        else if reg = 0x09 then (request_motor_on tm c, t)
        else if reg = 0x0A then (if motor_on c then enable_drive tm True 0 (enable_drive tm False 1 c) else c, t)
        else if reg = 0x0B then (if motor_on c then enable_drive tm True 1 (enable_drive tm False 0 c) else c, t)
        else (c, t))"

definition diskii_read :: "times \<Rightarrow> nat \<Rightarrow> diskii \<times> drive_timer \<Rightarrow> (u8 \<times> diskii \<times> drive_timer) option" where
  "diskii_read tm reg = (\<lambda>(c, t). do {
     c \<leftarrow> diskii_fast_forward tm c;
     let (c, t) = decode tm reg (c, t);
     Some (if even reg then data_register c else 0, c, t)
   })"

definition diskii_write :: "times \<Rightarrow> nat \<Rightarrow> u8 \<Rightarrow> diskii \<times> drive_timer \<Rightarrow> (diskii \<times> drive_timer) option" where
  "diskii_write tm reg data = (\<lambda>(c, t). do {
     c \<leftarrow> diskii_fast_forward tm c;
     let (c, t) = decode tm reg (c, t);
     Some (if motor_on c \<and> odd reg then c\<lparr>data_register := data\<rparr> else c, t)
   })"

text \<open>The handlers of the card; an odd address reads the floating bus, an argument.\<close>

definition ndiskII_woz_read_C0xx :: "times \<Rightarrow> u8 \<Rightarrow> u32 \<Rightarrow> diskii \<times> drive_timer \<Rightarrow> (u8 \<times> diskii \<times> drive_timer) option" where
  "ndiskII_woz_read_C0xx tm floating address s = do {
     (data, s) \<leftarrow> diskii_read tm (unat (address AND 0x0F)) s;
     Some (if address AND 0x1 = 1 then floating else data, s)
   }"

definition ndiskII_woz_write_C0xx :: "times \<Rightarrow> u32 \<Rightarrow> u8 \<Rightarrow> diskii \<times> drive_timer \<Rightarrow> (diskii \<times> drive_timer) option" where
  "ndiskII_woz_write_C0xx tm address data s = diskii_write tm (unat (address AND 0x0F)) data s"

section \<open>The storage device\<close>

definition diskii_mount ::
    "(nat \<Rightarrow> nat \<Rightarrow> u8 list) \<Rightarrow> host_io \<Rightarrow> times \<Rightarrow> nat \<Rightarrow> media_descriptor list \<Rightarrow> files \<Rightarrow> diskii \<Rightarrow> (bool \<times> diskii) option" where
  "diskii_mount memory io tm drv media_list fs c =
     (if length media_list > 1 then Some (False, c)
      else if media_list = [] then None
      else do {
        (ok, d) \<leftarrow> mount_525 memory io tm (media_list ! 0) fs (drives c ! drv);
        Some (ok, put_drive drv d c)
      })"

definition diskii_unmount :: "nat \<Rightarrow> diskii \<Rightarrow> bool \<times> diskii" where
  "diskii_unmount drv c = (True, put_drive drv (unmount_525 (drives c ! drv)) c)"

definition diskii_writeback :: "host_io \<Rightarrow> nat \<Rightarrow> files \<Rightarrow> diskii \<Rightarrow> (bool \<times> files \<times> diskii) option" where
  "diskii_writeback io drv fs c = do {
     (ok, fs', d) \<leftarrow> writeback (hooks_525 (\<lambda>_ _. [])) io fs (drives c ! drv);
     Some (ok, fs', put_drive drv d c)
   }"

text \<open>The callback of the timer.\<close>

definition phase_change_callback :: "nat \<Rightarrow> diskii \<Rightarrow> diskii" where
  "phase_change_callback i c = put_drive i (update_track (hooks_525 (\<lambda>_ _. [])) (drives c ! i)) c"

end
