(* ===== verification/Disk_II_Read.thy ===== *)
theory Disk_II_Read
  imports Disk_II
begin

text \<open>
  What the program sees in the data register: the sequencer behind the read amplifier, against the nibbles of a formatted
  track.
\<close>

section \<open>The shift register\<close>

lemma byte_bits_cons: "byte_bits b = [bit b 7, bit b 6, bit b 5, bit b 4, bit b 3, bit b 2, bit b 1, bit b 0]"
  by (simp add: byte_bits_def upt_rec eval_nat_numeral)

lemma shift_rest:
  "fold read_shift (map (\<lambda>i. of_bool (bit b i)) (rev [0..<n])) (drop_bit n b, s) = (b, s)"
proof (induction n)
  case (Suc n)
  have "\<not> bit b (Suc n + 7)" by (auto dest: bit_imp_le_length)
  then have "drop_bit (Suc n) b AND 0x80 = 0" using latched_iff [of "Suc n" b] by blast
  then have "read_shift (of_bool (bit b n)) (drop_bit (Suc n) b, s) = (drop_bit n b, s)"
    using shift_in_drop_bit [of n b] by (simp add: read_shift_def shift_in_def)
  then show ?case using Suc.IH by simp
qed simp

text \<open>A nibble comes into the register, from an empty register or over the nibble before it.\<close>

lemma shift_nibble:
  assumes "bit b 7" "r = 0 \<or> bit r 7"
  shows "fold read_shift (map of_bool (byte_bits b)) (r, False) = (b, False)"
proof -
  have "rev [0..<8] = 7 # 6 # rev [0..<6]" by (simp add: upt_rec eval_nat_numeral)
  then have bs: "map of_bool (byte_bits b) = (of_bool (bit b 7) :: u8) # of_bool (bit b 6) # map (\<lambda>i. of_bool (bit b i)) (rev [0..<6])"
    by (simp add: byte_bits_def comp_def del: upt_conv_Nil)
  have "drop_bit 8 b = 0" using drop_bit_word_beyond [of 8 b] by simp
  then have "drop_bit 7 b = 1" using shift_in_drop_bit [of 7 b] assms(1) by (simp add: shift_in_def)
  then have two: "2 OR of_bool (bit b 6) = drop_bit 6 b" using shift_in_drop_bit [of 6 b] by (simp add: shift_in_def)
  have "read_shift (of_bool (bit b 6)) (read_shift (of_bool (bit b 7)) (r, False)) = (drop_bit 6 b, False)"
    using assms latched_iff [of 0 r] by (auto simp: read_shift_def two [symmetric])
  then show ?thesis using shift_rest [of b 6 False] by (simp add: bs)
qed

lemma shift_zeros:
  assumes "bit r 7"
  shows "fold read_shift (replicate k 0) (r, False) = (r, False)"
  using assms latched_iff [of 0 r] by (induction k) (auto simp: read_shift_def)

lemma shift_cells:
  assumes "\<forall>(b, k) \<in> set cs. bit b 7" "r = 0 \<or> bit r 7"
  shows "\<exists>r'. fold read_shift (map of_bool (cell_bits cs)) (r, False) = (r', False) \<and> (r' = 0 \<or> bit r' 7)"
  using assms
proof (induction cs arbitrary: r)
  case (Cons c cs)
  obtain b k where c: "c = (b, k)" "bit b 7" using Cons.prems(1) by (cases c) auto
  from Cons.IH [of b] Cons.prems(1) c(2) show ?case
    using shift_nibble [OF c(2) Cons.prems(2)] shift_zeros [OF c(2), of k] by (simp add: c(1))
qed simp

section \<open>The amplifier\<close>

text \<open>The last four bits under the head, and whether they were never all zero, so that the amplifier made up no bit.\<close>

definition slide_window :: "u32 \<Rightarrow> bool \<Rightarrow> u32" where
  "slide_window w y = (push_bit 1 w OR of_bool y) AND 0x0F"

fun clear :: "u32 \<Rightarrow> bool list \<Rightarrow> bool" where
  "clear w [] \<longleftrightarrow> True"
| "clear w (y # ys) \<longleftrightarrow> slide_window w y \<noteq> 0 \<and> clear (slide_window w y) ys"

lemma clear_append: "clear w (xs @ ys) \<longleftrightarrow> clear w xs \<and> clear (fold (\<lambda>y w. slide_window w y) xs w) ys"
  by (induction xs arbitrary: w) auto

text \<open>More ones in the window do no harm.\<close>

lemma clear_mono: "clear u ys \<Longrightarrow> u AND w = u \<Longrightarrow> clear w ys"
proof (induction ys arbitrary: u w)
  case (Cons y ys)
  have sub: "slide_window u y AND slide_window w y = slide_window u y"
  proof (rule bit_word_eqI)
    fix n
    have "bit u m \<Longrightarrow> bit w m" for m using Cons.prems(2) by (metis bit_and_iff)
    then show "bit (slide_window u y AND slide_window w y) n = bit (slide_window u y) n"
      unfolding slide_window_def bit_and_iff bit_or_iff bit_push_bit_iff by blast
  qed
  then have "slide_window w y \<noteq> 0" using Cons.prems(1) by auto
  then show ?case using Cons.IH [OF _ sub] Cons.prems(1) by simp
qed simp

text \<open>Cells that can be read: a nibble with its top bit set and no four zero bits in a row.\<close>

definition clean_cell :: "cell \<Rightarrow> bool" where
  "clean_cell cell \<longleftrightarrow> bit (fst cell) 7 \<and> clear 0 (cell_bits [cell])"

lemma clear_cells: "\<forall>cell \<in> set cs. clean_cell cell \<Longrightarrow> clear w (cell_bits cs)"
proof (induction cs arbitrary: w)
  case (Cons c cs)
  obtain b k where c: "c = (b, k)" by (cases c)
  have "clear w (cell_bits [c])"
    using Cons.prems clear_mono [of 0 "cell_bits [c]" w] by (simp add: clean_cell_def)
  then show ?case using Cons by (simp add: c clear_append del: append_assoc flip: append_assoc)
qed simp

section \<open>The sequencer behind the amplifier\<close>

text \<open>The controller reads the stream \<open>xs\<close> of track \<open>i\<close>, at bit \<open>p\<close>, with the window \<open>w\<close>.\<close>

definition reading :: "diskii \<Rightarrow> nat \<Rightarrow> bool list \<Rightarrow> nat \<Rightarrow> u32 \<Rightarrow> bool" where
  "reading c i xs p w \<longleftrightarrow> length (drives c) = 2 \<and> \<not> diskii_q6 c \<and> \<not> diskii_q7 c \<and>
     head_ok (hooks_525 (\<lambda>_ _. [])) (selected c) \<and> enable (selected c) \<and> cur_track (selected c) = Some i \<and>
     stream (tracks (woz (selected c)) ! i) = xs \<and> unat (read_position (selected c)) div 128 = p \<and> windowBits (selected c) = w"

lemma selected_put [simp]:
  "length (drives c) = 2 \<Longrightarrow> selected (put_selected d c) = d" "switches (put_selected d c) = switches c"
  "diskii_q6 (put_selected d c) = diskii_q6 c" "diskii_q7 (put_selected d c) = diskii_q7 c"
  "length (drives (put_selected d c)) = length (drives c)" "motor_on (put_selected d c) = motor_on c"
  by (simp_all add: selected_def put_selected_def put_drive_def diskii_select_def diskii_q6_def diskii_q7_def)

lemma controller_update_simps [simp]:
  "selected (c\<lparr>data_register := r, sequencer_state := s\<rparr>) = selected c"
  "diskii_q6 (c\<lparr>data_register := r, sequencer_state := s\<rparr>) = diskii_q6 c"
  "diskii_q7 (c\<lparr>data_register := r, sequencer_state := s\<rparr>) = diskii_q7 c"
  by (simp_all add: selected_def diskii_select_def diskii_q6_def diskii_q7_def)

lemma read_step:
  assumes "reading c i xs p w" "p < length xs" "slide_window w (xs ! p) \<noteq> 0"
  shows "\<exists>c'. lss_cell c = Some c' \<and> reading c' i xs (Suc p mod length xs) (slide_window w (xs ! p)) \<and>
    (data_register c', sequencer_state c') = read_shift (of_bool (bit w 0)) (data_register c, sequencer_state c)"
proof -
  let ?h = "hooks_525 (\<lambda>_ _. []) :: floppy525 hooks" and ?d = "selected c" and ?w = "slide_window w (xs ! p)"
  let ?d1 = "?d\<lparr>windowBits := ?w\<rparr>"
  let ?d' = "next_position ?h ?d1"
  have r: "length (drives c) = 2" "\<not> diskii_q6 c" "\<not> diskii_q7 c" "head_ok ?h ?d" "enable ?d" "cur_track ?d = Some i"
    "stream (tracks (woz ?d) ! i) = xs" "unat (read_position ?d) div 128 = p" "windowBits ?d = w"
    using assms(1) by (simp_all add: reading_def)
  have n: "length xs = unat (bit_count (tracks (woz ?d) ! i))" using r(7) by auto
  then have cnt: "cur_bit_count ?d \<noteq> 0" using assms(2) cur_bit_count_0 [OF r(6)] by auto
  have s: "surface_bit ?h ?d = Some (of_bool (xs ! p))"
    using d525.surface_is_stream [OF r(4,6) cnt] r(5,7,8) by simp
  have "bit ?w 1 = bit w 0" by (simp only: slide_window_def bit_and_iff bit_or_iff bit_push_bit_iff) (simp add: bit_simps)
  then have "ucast (drop_bit 1 ?w AND 1) = (of_bool (bit w 0) :: u8)" by (simp add: and_one_eq bit_iff_odd_drop_bit mod_2_eq_odd)
  moreover have "ucast (of_bool (xs ! p) :: u8) = (of_bool (xs ! p) :: u32)" by simp
  ultimately have "read_amplifier_525 (of_bool (xs ! p)) ?d = (of_bool (bit w 0), ?d1)"
    using assms(3) r(9) unfolding read_amplifier_525_def Let_def slide_window_def by simp
  then have "read_pulse ?h ?d = Some (of_bool (bit w 0), ?d')" using s by (simp add: read_pulse_def)
  moreover obtain reg seq where sh: "read_shift (of_bool (bit w 0)) (data_register c, sequencer_state c) = (reg, seq)" by fastforce
  ultimately have l: "lss_cell c = Some ((put_selected ?d' c)\<lparr>data_register := reg, sequencer_state := seq\<rparr>)"
    using r(2,3) by (simp add: lss_cell_def)
  have len: "track_len ?h ?d1 = track_len ?h ?d" "track_len ?h ?d \<noteq> 0" "unat (track_len ?h ?d) = length xs"
    using cnt n r(6) by (simp_all add: track_len_def cur_bit_count_def)
  have ok1: "head_ok ?h ?d1" using r(4) by (simp add: head_ok_def)
  then have "unat (read_position ?d') div 128 = Suc p mod length xs"
    using d525.next_position_bit [of _ ?d1] len r(8) by (simp add: head_ok_def)
  moreover have "windowBits ?d' = ?w" by (simp add: next_position_def Let_def)
  ultimately have "reading ((put_selected ?d' c)\<lparr>data_register := reg, sequencer_state := seq\<rparr>) i xs (Suc p mod length xs) ?w"
    using r d525.head_ok_next [OF ok1] by (simp add: reading_def)
  then show ?thesis using l sh by auto
qed

text \<open>A run of bit cells: the register takes the bits one cell late.\<close>

lemma read_run:
  assumes "reading c i xs p w" "p + length ys \<le> length xs" "take (length ys) (drop p xs) = ys" "clear w ys"
  shows "\<exists>c'. lss_cells (length ys) c = Some c' \<and>
    (data_register c', sequencer_state c') = fold read_shift (map of_bool (butlast (bit w 0 # ys))) (data_register c, sequencer_state c)"
  using assms
proof (induction ys arbitrary: c p w)
  case (Cons y ys)
  let ?w = "slide_window w y"
  have p: "p < length xs" "xs ! p = y" "take (length ys) (drop (Suc p) xs) = ys"
    using Cons.prems(2,3) by (auto simp: Cons_nth_drop_Suc [symmetric])
  obtain c1 where c1: "lss_cell c = Some c1" "reading c1 i xs (Suc p mod length xs) ?w"
    "(data_register c1, sequencer_state c1) = read_shift (of_bool (bit w 0)) (data_register c, sequencer_state c)"
    using read_step [OF Cons.prems(1) p(1)] Cons.prems(4) p(2) by auto
  have "bit ?w 0 = y" by (simp only: slide_window_def bit_and_iff bit_or_iff bit_push_bit_iff) (simp add: bit_simps)
  moreover have "\<exists>c'. lss_cells (length ys) c1 = Some c' \<and>
    (data_register c', sequencer_state c') = fold read_shift (map of_bool (butlast (bit ?w 0 # ys))) (data_register c1, sequencer_state c1)"
  proof (cases "ys = []")
    case False
    then have "Suc p mod length xs = Suc p" using Cons.prems(2) by (cases ys) simp_all
    then show ?thesis using c1(2) Cons.prems(2,4) p(3) by (intro Cons.IH [of c1 "Suc p" ?w]) simp_all
  qed simp
  ultimately show ?case using c1(1,3) by auto
qed simp

lemma read_cells:
  assumes "reading c i (cell_bits cells) 0 w" "even w" "data_register c = 0 \<or> bit (data_register c) 7" "\<not> sequencer_state c"
    and "\<forall>cell \<in> set cells. clean_cell cell" "Suc n < length cells"
  shows "\<exists>c'. lss_cells (length (cell_bits (take n cells)) + 9) c = Some c' \<and> data_register c' = fst (cells ! n) \<and> \<not> sequencer_state c'"
proof -
  obtain b k where b: "cells ! n = (b, k)" by fastforce
  let ?pre = "cell_bits (take n cells)"
  have cells: "cells = take n cells @ (b, k) # drop (Suc n) cells" using id_take_nth_drop [of n cells] assms(6) b by simp
  have bits: "cell_bits cells = ?pre @ byte_bits b @ replicate k False @ cell_bits (drop (Suc n) cells)"
    by (subst cells) simp
  have "drop (Suc n) cells \<noteq> []" using assms(6) by simp
  then obtain b' k' cs where "drop (Suc n) cells = (b', k') # cs" by (cases "drop (Suc n) cells") auto
  then have "replicate k False @ cell_bits (drop (Suc n) cells) \<noteq> []" by (simp add: byte_bits_cons)
  then obtain z zs where z: "replicate k False @ cell_bits (drop (Suc n) cells) = z # zs" by (meson list.exhaust)
  let ?ys = "?pre @ byte_bits b @ [z]"
  have split: "cell_bits cells = ?ys @ zs" by (simp add: bits z)
  have "clear w ?ys" using clear_cells [OF assms(5), of w] by (simp add: split clear_append)
  from read_run [OF assms(1) _ _ this] obtain c' where c': "lss_cells (length ?ys) c = Some c'"
    "(data_register c', sequencer_state c') = fold read_shift (map of_bool (butlast (bit w 0 # ?ys))) (data_register c, sequencer_state c)"
    by (auto simp: split)
  have "cells ! n \<in> set cells" using assms(6) by simp
  then have msb: "bit b 7" "\<forall>(b, k) \<in> set (take n cells). bit b 7"
    using assms(5) b by (fastforce simp: clean_cell_def dest: in_set_takeD)+
  have "butlast (bit w 0 # ?ys) = False # ?pre @ byte_bits b" using assms(2) by (simp add: butlast_append bit_0)
  moreover have "read_shift 0 (data_register c, False) = (data_register c, False)"
    using assms(3) latched_iff [of 0 "data_register c"] by (auto simp: read_shift_def)
  moreover obtain r where "fold read_shift (map of_bool ?pre) (data_register c, False) = (r, False)" "r = 0 \<or> bit r 7"
    using shift_cells [OF msb(2) assms(3)] by blast
  ultimately have "(data_register c', sequencer_state c') = (b, False)"
    using c'(2) assms(4) shift_nibble [OF msb(1), of r] by simp
  then show ?thesis using c'(1) b by simp
qed

section \<open>The cells of a formatted track\<close>

lemma clean_translate: "list_all (\<lambda>b. clean_cell (b, 0)) woz_translate_62"
  by (simp add: woz_translate_62_def clean_cell_def byte_bits_cons slide_window_def)

lemma clean_six: "six_bit v \<Longrightarrow> clean_cell (woz_translate_62 ! unat v, 0)"
  using clean_translate six_bit_less [of v] by (simp add: list_all_length woz_translate_62_def)

lemma clean_marks:
  "\<forall>b \<in> {0xD5, 0xAA, 0x96, 0xAD, 0xDE, 0xEB}. clean_cell (b, 0)" "clean_cell (0xFF, 2)"
proof -
  have "replicate 2 False = [False, False]" by (simp add: numeral_2_eq_2)
  then show "clean_cell (0xFF, 2)" by (simp add: clean_cell_def byte_bits_cons slide_window_def)
qed (simp_all add: clean_cell_def byte_bits_cons slide_window_def)

lemma clean_44:
  assumes "b \<in> set (encode_44 v)"
  shows "clean_cell (b, 0)"
proof -
  have "bit b 7" "bit b 5" "bit b 3" "bit b 1" using assms by (auto simp: encode_44_def bit_simps)
  then show ?thesis
    by (cases "bit b 6"; cases "bit b 4"; cases "bit b 2"; cases "bit b 0")
      (simp_all add: clean_cell_def byte_bits_cons slide_window_def)
qed

lemma clean_chain:
  assumes "six_bit v" "\<forall>w \<in> set vs. six_bit w" "b \<in> set (xor_chain v vs)"
  shows "clean_cell (b, 0)"
  using assms
proof (induction vs arbitrary: v)
  case (Cons w vs)
  then show ?case using clean_six [OF six_bit_xor [of w v]] by auto
qed simp

lemma clean_sector:
  assumes "length nbuf = 342" "\<And>i. i < 342 \<Longrightarrow> six_bit (nbuf ! i)"
  shows "\<forall>cell \<in> set (sector_cells volume t s nbuf). clean_cell cell"
proof -
  have "clean_cell (b, 0)" if "b \<in> set (sector_nibbles nbuf)" for b
    using that assms clean_chain [of 0 "map ((!) nbuf) nibble_order" b] clean_six
    by (auto simp: sector_nibbles_def nibble_order_props six_bit_0)
  then show ?thesis
    using clean_marks clean_44 by (auto simp: sector_cells_def address_cells_def data_field_cells_def split: if_splits)
qed

lemma clean_track:
  assumes "\<And>s. length (junk s) = 342"
  shows "\<forall>cell \<in> set (sync_cells GAP_A_SIZE @ track_cells junk disk p2l t volume ss). clean_cell cell"
proof -
  have "\<forall>cell \<in> set (sector_cells volume n m (prenibble inp (junk s))). clean_cell cell" for n m inp s
    using assms by (intro clean_sector prenibble_nth(1) six_bit_prenibble)
  then show ?thesis using clean_marks(2) by (auto simp: track_cells_def)
qed

text \<open>
  C12.  The program sees the nibbles of the disk.  With a track that the emulator has formatted under the head of the selected
  drive, from the first bit of the track and in read mode, the data register holds the nibble \<open>n\<close> of the track nine cells
  after that nibble has begun: the amplifier's cell of delay and eight bits, so the amplifier makes up no bit and the
  sequencer frames every sync byte, mark and data nibble where the encoder put it.
\<close>

theorem disk_ii_reads_formatted_track:
  assumes "reading c i (stream (build_track junk disk p2l t volume)) 0 w" "even w" "data_register c = 0" "\<not> sequencer_state c"
    and "\<And>s. length (junk s) = 342"
    and "cells = sync_cells GAP_A_SIZE @ track_cells junk disk p2l t volume [0..<SECTORS_PER_TRACK]" "Suc n < length cells"
  shows "\<exists>c'. lss_cells (length (cell_bits (take n cells)) + 9) c = Some c' \<and> data_register c' = fst (cells ! n)"
  using read_cells [of c i cells w n] assms clean_track [of junk disk p2l t volume "[0..<SECTORS_PER_TRACK]"]
  by (auto simp: build_track_stream(2))

definition demo_track :: woz_track_t where
  "demo_track = build_track (\<lambda>_. replicate 342 7) [] do_phys_to_logical 0 254"

definition demo_controller :: diskii where
  "demo_controller = (DiskII_WOZ_Controller 6 False)\<lparr>motor_on := True,
     drives := [demo_spinning\<lparr>woz := small_woz\<lparr>tracks := [demo_track]\<rparr>\<rparr>, demo_drive 1]\<rparr>"

theorem disk_ii_reads_formatted_track_witness:
  "\<exists>c'. lss_cells (10 * GAP_A_SIZE + 9) demo_controller = Some c' \<and> data_register c' = 0xD5"
proof -
  let ?cells = "sync_cells GAP_A_SIZE @ track_cells (\<lambda>_. replicate 342 7) [] do_phys_to_logical 0 254 [0..<SECTORS_PER_TRACK]"
  have ok: "track_ok demo_track" by (simp add: demo_track_def build_track_stream(1))
  have sel: "selected demo_controller = demo_spinning\<lparr>woz := small_woz\<lparr>tracks := [demo_track]\<rparr>\<rparr>"
    by (simp add: selected_def demo_controller_def diskii_select_def DiskII_WOZ_Controller_def)
  have "reading demo_controller 0 (stream (build_track (\<lambda>_. replicate 342 7) [] do_phys_to_logical 0 254)) 0 0"
    using track_ok_sound [OF ok] demo_spinning_ok(3,5,8)
    by (simp add: reading_def sel head_ok_def track_len_def cur_bit_count_def)
      (simp add: demo_track_def demo_spinning_def demo_drive_defs demo_controller_def DiskII_WOZ_Controller_def diskii_q6_def diskii_q7_def unat_gt_0, auto)
  moreover have "data_register demo_controller = 0" "\<not> sequencer_state demo_controller"
    by (simp_all add: demo_controller_def DiskII_WOZ_Controller_def)
  moreover have "?cells ! GAP_A_SIZE = (0xD5, 0)" "Suc GAP_A_SIZE < length ?cells" "take GAP_A_SIZE ?cells = sync_cells GAP_A_SIZE"
    by (simp_all add: nth_append track_cells_def sector_cells_def address_cells_def track_sizes upt_rec)
  ultimately show ?thesis
    using disk_ii_reads_formatted_track [of demo_controller 0 "\<lambda>_. replicate 342 7" "[]" do_phys_to_logical 0 254 0 ?cells GAP_A_SIZE]
    by (simp add: length_sync_cells)
qed

end
