(* ===== verification/Disk_II_Correct.thy ===== *)
theory Disk_II_Correct
  imports Disk_II
begin

text \<open>
  The controller and its drives over time: every access, reset, mount, unmount, writeback, frame and timer callback as a step
  of a relation, and the invariant of its reachable states.
\<close>

section \<open>The invariant\<close>

definition drive_sound :: "floppy525 \<Rightarrow> bool" where
  "drive_sound d \<longleftrightarrow> head_ok (hooks_525 (\<lambda>_ _. [])) d \<and> 0 \<le> track d \<and> 0 \<le> max_tracks d \<and> optimal_bit_timing (info (woz d)) \<noteq> 0"

definition diskii_ok :: "diskii \<Rightarrow> bool" where
  "diskii_ok c \<longleftrightarrow> length (drives c) = 2 \<and> length (switches c) = 8 \<and>
     (\<forall>i < 2. drive_sound (drives c ! i) \<and> enable (drives c ! i) = (motor_on c \<and> i = diskii_select c))"

lemma head_ok_memory: "head_ok (hooks_525 memory) d \<longleftrightarrow> head_ok (hooks_525 memory') d"
  by (simp add: head_ok_def track_len_def)

lemma update_track_sign: "0 \<le> track d \<Longrightarrow> 0 \<le> max_tracks d \<Longrightarrow> 0 \<le> track (update_track h d) \<and> max_tracks (update_track h d) = max_tracks d"
  by (simp add: update_track_def Let_def)

lemma drive_sound_step:
  assumes "drive_step memory d d'" "drive_sound d" "info (woz d') = info (woz d)"
  shows "drive_sound d'"
proof -
  have ok: "head_ok (hooks_525 memory) d" using assms(2) head_ok_memory by (simp add: drive_sound_def) blast
  then have "head_ok (hooks_525 (\<lambda>_ _. [])) d'" using drive_step_head [OF assms(1)] head_ok_memory [of memory] by blast
  then show ?thesis
    using drive_step_stepper [OF assms(1) ok] assms(2,3) update_track_sign [of d] by (auto simp: drive_sound_def)
qed

lemma write_pulse_info:
  assumes "write_pulse h b d = Some d'"
  shows "info (woz d') = info (woz d)" "enable d' = enable d"
  using assms by (auto simp: write_pulse_def write_surface_def split: option.splits if_splits bind_splits)

lemma fast_forward_enable:
  assumes "fast_forward h now d = Some (n, d')"
  shows "enable d' = enable d" "woz d' = woz d"
  using assms by (auto simp: fast_forward_def catch_up_def Let_def split: if_splits bind_splits)

lemma update_track_info: "info (woz (update_track h d)) = info (woz d)" "enable (update_track h d) = enable d"
  by (simp_all add: update_track_def update_track_ptr_def Let_def)

lemma set_enable_info [simp]: "info (woz (set_enable h now b d)) = info (woz d)" "enable (set_enable h now b d) = b"
  by (simp_all add: set_enable_def note_spinning_inputs_changed_def)

lemma set_phase_line_info [simp]: "info (woz (set_phase_line p b d)) = info (woz d)" "enable (set_phase_line p b d) = enable d"
  by (simp_all add: set_phase_line_def)

section \<open>Operations on one drive\<close>

lemma diskii_select_less: "diskii_select c < 2"
  by (simp add: diskii_select_def)

lemma put_drive_simps [simp]:
  "length (drives (put_drive i d c)) = length (drives c)" "switches (put_drive i d c) = switches c"
  "motor_on (put_drive i d c) = motor_on c" "diskii_select (put_drive i d c) = diskii_select c"
  "drives (put_drive i d c) = (drives c)[i := d]" "diskii_q7 (put_drive i d c) = diskii_q7 c"
  by (simp_all add: put_drive_def diskii_select_def diskii_q7_def)

lemma diskii_ok_put:
  assumes "diskii_ok c" "i < 2" "drive_sound d" "enable d = enable (drives c ! i)"
  shows "diskii_ok (put_drive i d c)"
  using assms by (auto simp: diskii_ok_def nth_list_update)

lemma diskii_ok_cong:
  assumes "drives c' = drives c" "switches c' = switches c" "motor_on c' = motor_on c"
  shows "diskii_ok c' = diskii_ok c"
  using assms by (simp add: diskii_ok_def diskii_select_def)

lemma enable_sound: "drive_sound d \<Longrightarrow> drive_sound (set_enable (hooks_525 memory) now b d)"
  by (rule drive_sound_step [OF drive_step.select]) simp_all

lemma phase_sound: "drive_sound d \<Longrightarrow> drive_sound (set_phase_line p b d)"
  by (rule drive_sound_step [OF drive_step.phase]) simp_all

lemma phase_drive_ok:
  assumes "diskii_ok c" "i < 2" "phase_drive tm p b i (c, t) = (c', t')"
  shows "diskii_ok c'"
proof -
  have "drive_sound (set_phase_line p b (drives c ! i))" using assms(1,2) phase_sound by (simp add: diskii_ok_def)
  moreover have "c' = put_drive i (set_phase_line p b (drives c ! i)) c" using assms(3) by (simp add: phase_drive_def set_phase_525_def)
  ultimately show ?thesis using assms(1,2) by (simp add: diskii_ok_put)
qed

section \<open>The sequencer\<close>

lemma lss_cell_ok:
  assumes "diskii_ok c"
  shows "\<exists>c'. lss_cell c = Some c' \<and> diskii_ok c'"
proof -
  let ?h = "hooks_525 (\<lambda>_ _. []) :: floppy525 hooks" and ?d = "selected c"
  have d: "drive_sound ?d" using assms diskii_select_less [of c] by (simp add: diskii_ok_def selected_def)
  then have ok: "head_ok ?h ?d" by (simp add: drive_sound_def)
  have put: "diskii_ok ((put_selected d' c)\<lparr>data_register := r, sequencer_state := s\<rparr>)" if "drive_sound d'" "enable d' = enable ?d" for d' r s
    using that(2) diskii_ok_put [OF assms diskii_select_less that(1), of c]
      diskii_ok_cong [of "(put_selected d' c)\<lparr>data_register := r, sequencer_state := s\<rparr>" "put_selected d' c"]
    by (simp add: put_selected_def selected_def)
  obtain b d1 where r: "read_pulse ?h ?d = Some (b, d1)" using d525.read_pulse_returns [OF ok] by blast
  have d1: "drive_sound d1" "enable d1 = enable ?d"
    using d525.read_pulse_keeps(2,4) [OF ok r] drive_sound_step [OF drive_step.read [OF r] d] by simp_all
  obtain d2 where w: "write_pulse ?h (drop_bit 7 (data_register c) AND 0x01) ?d = Some d2" using d525.write_pulse_spec [OF ok] by blast
  have d2: "drive_sound d2" "enable d2 = enable ?d"
    using write_pulse_info [OF w] drive_sound_step [OF drive_step.writes [OF w] d] by simp_all
  obtain reg seq where sh: "read_shift b (data_register c, sequencer_state c) = (reg, seq)" by fastforce
  show ?thesis
    using put [OF d1] put [OF d2] by (cases "diskii_q7 c"; cases "diskii_q6 c") (simp_all add: lss_cell_def Let_def r w [simplified] sh)
qed

lemma lss_cells_ok: "diskii_ok c \<Longrightarrow> \<exists>c'. lss_cells n c = Some c' \<and> diskii_ok c'"
proof (induction n arbitrary: c)
  case (Suc n)
  obtain c1 where "lss_cell c = Some c1" "diskii_ok c1" using lss_cell_ok [OF Suc.prems] by blast
  then show ?case using Suc.IH [of c1] by simp
qed simp

lemma fast_forward_controller_ok:
  assumes "diskii_ok c"
  shows "\<exists>c'. diskii_fast_forward tm c = Some c' \<and> diskii_ok c'"
proof (cases "motor_on c")
  case True
  let ?h = "hooks_525 (\<lambda>_ _. []) :: floppy525 hooks" and ?d = "set_writing (diskii_q7 c) (selected c)"
  let ?now = "get_current_time_525 tm (selected c)"
  have "drive_sound (selected c)" using assms diskii_select_less [of c] by (simp add: diskii_ok_def selected_def)
  then have d: "drive_sound ?d" by (rule drive_sound_step [OF drive_step.direction]) (simp add: set_writing_def)
  then have "head_advance_hook ?h (?d\<lparr>last_cycle := ?now\<rparr>) \<noteq> None"
    by (simp add: drive_sound_def head_advance_525_def Let_def ucast_8_64_0)
  then obtain n d' where f: "fast_forward ?h ?now ?d = Some (n, d')" using d525.fast_forward_returns by fastforce
  have "drive_sound d'" "enable d' = enable (selected c)"
    using fast_forward_enable [OF f] drive_sound_step [OF drive_step.forward [OF f] d] by (simp_all add: set_writing_def)
  then have "diskii_ok (put_selected d' c)"
    using diskii_ok_put [OF assms diskii_select_less, of d' c] by (simp add: put_selected_def selected_def)
  then show ?thesis using lss_cells_ok f True by (simp add: diskii_fast_forward_def)
qed (simp add: diskii_fast_forward_def assms)

section \<open>The soft switches\<close>

text \<open>Switches other than the drive select.\<close>

lemma diskii_ok_switch:
  assumes "diskii_ok c" "j \<noteq> 5"
  shows "diskii_ok (c\<lparr>switches := (switches c)[j := b]\<rparr>)"
  using assms by (simp add: diskii_ok_def diskii_select_def)

lemma select_drive_ok:
  fixes b
  assumes "diskii_ok c"
  defines "c1 \<equiv> c\<lparr>switches := (switches c)[5 := b]\<rparr>"
  shows "diskii_ok (if motor_on c1 then enable_drive tm True (of_bool b) (enable_drive tm False (1 - of_bool b) c1) else c1)"
proof -
  have sel: "diskii_select (put_drive i d c1) = of_bool b" "diskii_select c1 = of_bool b" for i d
    using assms(1) by (simp_all add: c1_def diskii_ok_def diskii_select_def)
  have len: "length (drives c1) = 2" "length (switches c1) = 8" "motor_on c1 = motor_on c" "drives c1 = drives c"
    using assms(1) by (simp_all add: c1_def diskii_ok_def)
  have "i = 0 \<or> i = 1" if "i < 2" for i :: nat using that by auto
  then show ?thesis
    using assms(1) len sel enable_sound by (cases b) (fastforce simp: diskii_ok_def enable_drive_def nth_list_update)+
qed

lemma decode_ok:
  assumes "diskii_ok c" "reg < 16" "decode tm reg (c, t) = (c', t')"
  shows "diskii_ok c'"
proof -
  define c1 where "c1 = c\<lparr>switches := (switches c)[reg div 2 := odd reg]\<rparr>"
  define c2 where "c2 = (if reg = 0x0D \<and> \<not> diskii_q7 c1 then c1\<lparr>data_register := 0, sequencer_state := False\<rparr> else c1)"
  have same: "drives c2 = drives c1" "switches c2 = switches c1" "motor_on c2 = motor_on c1"
    by (simp_all add: c2_def)
  consider "reg = 0x0A" | "reg = 0x0B" | "reg < 8" | "reg = 8" | "reg = 9" | "reg \<ge> 12" using assms(2) by linarith
  then show ?thesis
  proof cases
    case 1
    then have c1: "c2 = c1" "c1 = c\<lparr>switches := (switches c)[5 := False]\<rparr>" by (simp_all add: c1_def c2_def)
    then have "c' = (if motor_on c1 then enable_drive tm True 0 (enable_drive tm False 1 c1) else c1)"
      using assms(3) 1 by (auto simp: decode_def Let_def)
    then show ?thesis using select_drive_ok [OF assms(1), of False tm] by (simp add: c1(2) split: if_splits)
  next
    case 2
    then have c1: "c2 = c1" "c1 = c\<lparr>switches := (switches c)[5 := True]\<rparr>" by (simp_all add: c1_def c2_def)
    then have "c' = (if motor_on c1 then enable_drive tm True 1 (enable_drive tm False 0 c1) else c1)"
      using assms(3) 2 by (auto simp: decode_def Let_def)
    then show ?thesis using select_drive_ok [OF assms(1), of True tm] by (simp add: c1(2) split: if_splits)
  next
    case 3
    then have ok1: "diskii_ok c1" "c2 = c1" using assms(1) diskii_ok_switch [of c "reg div 2"] by (simp_all add: c1_def c2_def)
    have "phase_drive tm (reg div 2) (odd reg) (diskii_select c1) (c1, t) = (c', t')"
      using assms(3) 3 by (simp add: decode_def Let_def c1_def)
    then show ?thesis using phase_drive_ok [OF ok1(1) diskii_select_less] by blast
  next
    case 4
    then have ok1: "diskii_ok c1" using assms(1) diskii_ok_switch [of c 4] by (simp add: c1_def)
    have "c' = request_motor_off tm c1" using assms(3) 4 by (simp add: decode_def Let_def c1_def)
    then show ?thesis using ok1 diskii_ok_cong [of c' c1] by (simp add: request_motor_off_def)
  next
    case 5
    then have ok1: "diskii_ok c1" using assms(1) diskii_ok_switch [of c 4] by (simp add: c1_def)
    have "c' = request_motor_on tm c1" using assms(3) 5 by (simp add: decode_def Let_def c1_def)
    then show ?thesis
      using ok1 enable_sound diskii_select_less [of c1]
      by (auto simp: diskii_ok_def request_motor_on_def enable_drive_def put_drive_def diskii_select_def nth_list_update)
  next
    case 6
    then have "reg div 2 \<noteq> 5" by linarith
    then have "diskii_ok c1" using assms(1) diskii_ok_switch by (simp add: c1_def)
    moreover have "c' = c2" using assms(3) 6 unfolding decode_def Let_def prod.case c1_def [symmetric] c2_def [symmetric] by simp
    ultimately show ?thesis using diskii_ok_cong [OF same] by simp
  qed
qed

text \<open>While a reset works through the drives, the motor is off and the drives are still enabled.\<close>

definition stopping :: "diskii \<times> drive_timer \<Rightarrow> bool" where
  "stopping s \<longleftrightarrow> length (drives (fst s)) = 2 \<and> switches (fst s) = replicate 8 False \<and> \<not> motor_on (fst s) \<and>
     (\<forall>i < 2. drive_sound (drives (fst s) ! i))"

lemma stopping_phase: "stopping s \<Longrightarrow> i < 2 \<Longrightarrow> stopping (phase_drive tm p b i s)"
  using phase_sound by (cases s) (auto simp: stopping_def phase_drive_def set_phase_525_def nth_list_update)

lemma diskii_reset_ok:
  assumes "diskii_ok c"
  shows "diskii_ok (fst (diskii_reset tm (c, t)))"
proof -
  let ?s = "fold (\<lambda>i s. phase_drive tm i False 1 (phase_drive tm i False 0 s)) [0, 1, 2, 3]
    (c\<lparr>switches := replicate 8 False, motor_on := False, mark_cycles_turnoff := 0\<rparr>, t)"
  have "stopping (c\<lparr>switches := replicate 8 False, motor_on := False, mark_cycles_turnoff := 0\<rparr>, t)"
    using assms by (simp add: stopping_def diskii_ok_def)
  then have "stopping ?s" by (simp add: stopping_phase)
  moreover have "fst (diskii_reset tm (c, t)) = enable_drive tm False 1 (enable_drive tm False 0 (fst ?s))"
    by (simp add: diskii_reset_def case_prod_beta del: fold.simps)
  ultimately show ?thesis
    using enable_sound less_2_cases by (fastforce simp: diskii_ok_def stopping_def enable_drive_def nth_list_update)
qed

lemma motor_timer_ok: "diskii_ok c \<Longrightarrow> diskii_ok (check_motor_off_timer tm c)"
  using enable_sound diskii_select_less [of c]
  by (auto simp: diskii_ok_def check_motor_off_timer_def enable_drive_def put_drive_def diskii_select_def nth_list_update)

section \<open>Mounting and writing back\<close>

lemma unmount_sound: "drive_sound d \<Longrightarrow> drive_sound (unmount_525 d)" "enable (unmount_525 d) = enable d"
  by (simp_all add: drive_sound_def head_ok_def unmount_525_def unmount_base_def new_woz_def new_woz_info_def track_len_def cur_bit_count_def)

lemma writeback_sound:
  assumes "writeback h io fs d = Some (ok, fs', d')" "drive_sound d"
  shows "drive_sound d'" "enable d' = enable d"
proof -
  have s: "same_disk d d'" by (rule writeback_same [OF assms(1)])
  then have "track d' = track d" "max_tracks d' = max_tracks d" by (cases d, cases d', simp add: same_disk_def)+
  moreover have "cur_bit_count d' = cur_bit_count d" using s by (simp add: same_disk_def cur_bit_count_def cong: option.case_cong)
  ultimately show "drive_sound d'" "enable d' = enable d"
    using s assms(2) by (simp_all add: same_disk_def drive_sound_def head_ok_def track_len_def split: if_splits)
qed

lemma import_fails: "fst (import_block_image memory io img m fs) \<noteq> 0 \<Longrightarrow> snd (import_block_image memory io img m fs) = img"
  by (auto simp: import_block_image_def import_from_nib_def split: option.splits if_splits)

lemma insert_disk_timing:
  assumes "insert_disk (hooks_525 memory) now media d = Some d'"
  shows "optimal_bit_timing (info (woz d')) \<noteq> 0" "enable d' = enable d"
  using assms by (auto simp: insert_disk_def head_advance_525_def update_track_ptr_def Let_def ucast_8_64_0 split: if_splits)

lemma mount_succeeds_sound:
  fixes d :: floppy525
  assumes "mount_525 memory io tm media fs d = Some (True, d')" "drive_sound d"
    and "media_type media = MEDIA_WOZ \<Longrightarrow> \<forall>trk \<in> set (tracks (woz d')). sound_track trk"
  shows "drive_sound d'" "enable d' = enable d"
proof -
  let ?h = "hooks_525 memory :: floppy525 hooks"
  obtain d1 where m: "mount_base ?h io (get_current_time_525 tm d) media fs d = Some (True, d1)"
    and d': "woz d' = woz d1" "enable d' = enable d1"
    using assms(1) by (auto simp: mount_525_def Let_def update_track_ptr_def split: if_splits bind_splits)
  obtain d0 img where d0: "d0 = (if is_mounted d then unmount_hook ?h d else d)"
    and ins: "insert_disk ?h (get_current_time_525 tm d) media (d0\<lparr>woz := img\<rparr>) = Some d1"
    using mount_base_cases [OF m] by blast
  note t = insert_disk_timing [OF ins]
  then show "enable d' = enable d" using d' by (simp add: d0 unmount_sound(2))
  have "0 \<le> track d" using assms(2) by (simp add: drive_sound_def)
  note ok = mount_525_ok [OF assms(1) this assms(3)]
  have "head_ok (hooks_525 (\<lambda>_ _. [])) d'" using ok(1) head_ok_memory by blast
  then show "drive_sound d'" using ok(2) t(1) d'(1) by (simp add: drive_sound_def stepper_ok_def)
qed

lemma mount_fails_sound:
  fixes d :: floppy525
  assumes "mount_525 memory io tm media fs d = Some (False, d')" "drive_sound d" "media_type media \<noteq> MEDIA_WOZ"
  shows "drive_sound d'" "enable d' = enable d"
proof -
  let ?d0 = "if is_mounted d then unmount_525 d else d"
  have sound: "drive_sound ?d0" "enable ?d0 = enable d" using assms(2) unmount_sound by simp_all
  have "d' = d \<or> (\<exists>img. d' = ?d0\<lparr>woz := img, is_mounted := False\<rparr> \<and> img = woz ?d0)"
    using assms(1,3) import_fails [of memory io "woz ?d0" "Some media" fs]
    by (auto simp: mount_525_def mount_base_def make_nibblizer_525_def Let_def split: if_splits bind_splits prod.splits)
  moreover have "drive_sound (?d0\<lparr>woz := woz ?d0, is_mounted := False\<rparr>)"
    using sound(1) head_ok_cong [of "?d0\<lparr>is_mounted := False\<rparr>" ?d0 "hooks_525 (\<lambda>_ _. [])"] by (simp add: drive_sound_def)
  ultimately show "drive_sound d'" "enable d' = enable d" using assms(2) sound by auto
qed

section \<open>Reachable controllers\<close>

text \<open>What happens to a controller: accesses to its sixteen addresses, resets, frames, the storage operations, and the callback of
  the timer, which may have run other events.  A WOZ file that is mounted holds the bytes of its tracks and is accepted.\<close>

inductive controller_step :: "diskii \<times> drive_timer \<Rightarrow> diskii \<times> drive_timer \<Rightarrow> bool" where
  read: "ndiskII_woz_read_C0xx tm floating address s = Some (v, s') \<Longrightarrow> controller_step s s'"
| writes: "ndiskII_woz_write_C0xx tm address data s = Some s' \<Longrightarrow> controller_step s s'"
| resets: "controller_step s (diskii_reset tm s)"
| frame: "controller_step (c, t) (check_motor_off_timer tm c, t)"
| mount: "drv < 2 \<Longrightarrow> diskii_mount memory io tm drv [media] fs c = Some (ok, c') \<Longrightarrow>
    (media_type media = MEDIA_WOZ \<longrightarrow> ok \<and> (\<forall>trk \<in> set (tracks (woz (drives c' ! drv))). sound_track trk)) \<Longrightarrow>
    controller_step (c, t) (c', t)"
| unmount: "drv < 2 \<Longrightarrow> controller_step (c, t) (snd (diskii_unmount drv c), t)"
| writeback: "drv < 2 \<Longrightarrow> diskii_writeback io drv fs c = Some (ok, fs', c') \<Longrightarrow> controller_step (c, t) (c', t)"
| settle: "i < 2 \<Longrightarrow> controller_step (c, t) (phase_change_callback i c, t')"

lemma access_ok:
  assumes "diskii_ok c" "reg < 16"
  shows "\<exists>v s'. diskii_read tm reg (c, t) = Some (v, s') \<and> diskii_ok (fst s')"
    "\<exists>s'. diskii_write tm reg data (c, t) = Some s' \<and> diskii_ok (fst s')"
proof -
  obtain c1 where c1: "diskii_fast_forward tm c = Some c1" "diskii_ok c1" using fast_forward_controller_ok [OF assms(1)] by blast
  obtain c2 t2 where c2: "decode tm reg (c1, t) = (c2, t2)" by fastforce
  then have ok2: "diskii_ok c2" by (rule decode_ok [OF c1(2) assms(2)])
  then show "\<exists>v s'. diskii_read tm reg (c, t) = Some (v, s') \<and> diskii_ok (fst s')" by (simp add: diskii_read_def c1(1) c2)
  show "\<exists>s'. diskii_write tm reg data (c, t) = Some s' \<and> diskii_ok (fst s')"
    using ok2 diskii_ok_cong [of "c2\<lparr>data_register := data\<rparr>" c2] by (simp add: diskii_write_def c1(1) c2)
qed

lemma register_less: "unat (address AND 0x0F :: u32) < 16"
proof -
  have "address AND 0x0F = take_bit 4 address" by (simp add: take_bit_eq_mask mask_eq_exp_minus_1)
  then have "unat (address AND 0x0F) = take_bit 4 (unat address)" by (simp only: unsigned_take_bit_eq)
  then show ?thesis using take_bit_nat_less_exp [of 4 "unat address"] by simp
qed

lemma handlers_ok:
  assumes "diskii_ok (fst s)"
  shows "\<exists>v s'. ndiskII_woz_read_C0xx tm floating address s = Some (v, s') \<and> diskii_ok (fst s')"
    "\<exists>s'. ndiskII_woz_write_C0xx tm address data s = Some s' \<and> diskii_ok (fst s')"
  using access_ok(1) [OF assms register_less [of address], where tm = tm and t = "snd s"]
    access_ok(2) [OF assms register_less [of address], where tm = tm and t = "snd s" and data = data]
  by (auto simp: ndiskII_woz_read_C0xx_def ndiskII_woz_write_C0xx_def)

lemma controller_step_ok:
  assumes "controller_step s s'" "diskii_ok (fst s)"
  shows "diskii_ok (fst s')"
  using assms(1)
proof cases
  case (read tm floating address v)
  then show ?thesis using handlers_ok(1) [OF assms(2), of tm floating address] by simp
next
  case (writes tm address data)
  then show ?thesis using handlers_ok(2) [OF assms(2), of tm address data] by simp
next
  case (resets tm)
  then show ?thesis using diskii_reset_ok assms(2) by (cases s) simp
next
  case (frame c tm t)
  then show ?thesis using motor_timer_ok assms(2) by simp
next
  case (mount drv memory io tm media fs c ok c' t)
  then obtain d' where d': "mount_525 memory io tm media fs (drives c ! drv) = Some (ok, d')" "c' = put_drive drv d' c"
    by (auto simp: diskii_mount_def split: bind_splits)
  have "length (drives c) = 2" "drive_sound (drives c ! drv)" using assms(2) mount(1,3) by (simp_all add: diskii_ok_def)
  moreover from this have "drives c' ! drv = d'" using mount(3) d'(2) by simp
  ultimately have "drive_sound d'" "enable d' = enable (drives c ! drv)"
    using mount_succeeds_sound [of memory io tm media fs "drives c ! drv" d'] mount_fails_sound [of memory io tm media fs "drives c ! drv" d']
      mount(5) d'(1) by (cases ok; simp)+
  then show ?thesis using diskii_ok_put assms(2) mount(1,2,3) d'(2) by simp
next
  case (unmount drv c t)
  then show ?thesis
    using diskii_ok_put [of c drv] unmount_sound assms(2) by (simp add: diskii_unmount_def diskii_ok_def)
next
  case (writeback drv io fs c ok fs' c' t)
  then obtain d' where "Floppy_Woz.writeback (hooks_525 (\<lambda>_ _. [])) io fs (drives c ! drv) = Some (ok, fs', d')" "c' = put_drive drv d' c"
    by (auto simp: diskii_writeback_def split: bind_splits)
  then show ?thesis
    using diskii_ok_put [of c drv d'] writeback_sound [of _ io fs "drives c ! drv" ok fs' d'] assms(2) writeback(1-3)
    by (simp add: diskii_ok_def)
next
  case (settle i c t t')
  have "drive_sound (update_track (hooks_525 (\<lambda>_ _. [])) (drives c ! i))"
    by (rule drive_sound_step [OF drive_step.settle]) (use assms(2) settle in \<open>simp_all add: diskii_ok_def update_track_info\<close>)
  then show ?thesis using diskii_ok_put [of c i] assms(2) settle by (simp add: phase_change_callback_def update_track_info)
qed

lemma new_controller_ok: "diskii_ok (DiskII_WOZ_Controller slot rt)"
proof -
  have "drive_sound (new_floppy525 slot n rt)" "\<not> enable (new_floppy525 slot n rt)" for n
    by (simp_all add: drive_sound_def head_ok_def track_len_def cur_bit_count_def new_floppy525_def new_floppy_def floppy.defs floppy525.defs
        new_woz_def new_woz_info_def)
  then show ?thesis using less_2_cases by (fastforce simp: diskii_ok_def DiskII_WOZ_Controller_def)
qed

lemma reachable_ok:
  assumes "controller_step\<^sup>*\<^sup>* (DiskII_WOZ_Controller slot rt, t0) s"
  shows "diskii_ok (fst s)"
  using assms by (induction rule: rtranclp_induct) (auto simp: new_controller_ok intro: controller_step_ok)

text \<open>
  C15.  One drive spins.  Whatever is done to a Disk II controller, it has its two drives and eight switches, the selected drive
  is enabled exactly while the motor is on, and the other drive never is: after a change of the selection, a reset and the
  end of the motor's second of grace too.  The WOZ files mounted are accepted by the drive and hold the bytes of their tracks.
\<close>

theorem one_drive_spins:
  assumes "controller_step\<^sup>*\<^sup>* (DiskII_WOZ_Controller slot rt, t0) (c, t)"
  shows "length (drives c) = 2 \<and> length (switches c) = 8 \<and>
    (\<forall>i < 2. enable (drives c ! i) \<longleftrightarrow> motor_on c \<and> i = diskii_select c)"
  using reachable_ok [OF assms] by (simp add: diskii_ok_def)

text \<open>
  C11.  Every access returns.  Whatever was done to the controller before, accesses, resets, frames, storage operations and
  settling events in any order, an access of the
  program to any address of the card at any time returns: no bit cell of the simulated interval is outside the bytes of
  its track, and the speed of the disk is never a division by zero.  Block and nibble files may be mounted whether that
  succeeds or not; the WOZ files mounted are accepted by the drive and their tracks hold the bytes of their bit counts.
\<close>

theorem disk_ii_accesses_return:
  assumes "controller_step\<^sup>*\<^sup>* (DiskII_WOZ_Controller slot rt, t0) s"
  shows "ndiskII_woz_read_C0xx tm floating address s \<noteq> None \<and> ndiskII_woz_write_C0xx tm address data s \<noteq> None"
  using handlers_ok(1) [OF reachable_ok [OF assms], of tm floating address] handlers_ok(2) [OF reachable_ok [OF assms], of tm address data]
  by auto

lemma motor_on_access:
  "\<exists>v s. ndiskII_woz_read_C0xx demo_times 0 0xC0E9 (DiskII_WOZ_Controller 6 False, EventTimer) = Some (v, s) \<and> motor_on (fst s)"
  by (simp add: ndiskII_woz_read_C0xx_def diskii_read_def diskii_fast_forward_def decode_def Let_def DiskII_WOZ_Controller_def
      request_motor_on_def enable_drive_def put_drive_def case_prod_beta)

theorem one_drive_spins_witness:
  "\<exists>v c t. ndiskII_woz_read_C0xx demo_times 0 0xC0E9 (DiskII_WOZ_Controller 6 False, EventTimer) = Some (v, c, t) \<and>
    motor_on c \<and> length (drives c) = 2 \<and> (\<forall>i < 2. enable (drives c ! i) \<longleftrightarrow> i = diskii_select c)"
proof -
  obtain v c t where a: "ndiskII_woz_read_C0xx demo_times 0 0xC0E9 (DiskII_WOZ_Controller 6 False, EventTimer) = Some (v, c, t)" "motor_on c"
    using motor_on_access by fastforce
  have "controller_step\<^sup>*\<^sup>* (DiskII_WOZ_Controller 6 False, EventTimer) (c, t)" using controller_step.read [OF a(1)] by blast
  from one_drive_spins [OF this] a show ?thesis by auto
qed

theorem disk_ii_accesses_return_witness:
  "\<exists>v s. ndiskII_woz_read_C0xx demo_times 0 0xC0E9 (DiskII_WOZ_Controller 6 False, EventTimer) = Some (v, s) \<and> motor_on (fst s) \<and>
    ndiskII_woz_read_C0xx (demo_times\<lparr>t_cycles := 5000\<rparr>) 0 0xC0EC s \<noteq> None"
proof -
  obtain v s where a: "ndiskII_woz_read_C0xx demo_times 0 0xC0E9 (DiskII_WOZ_Controller 6 False, EventTimer) = Some (v, s)" "motor_on (fst s)"
    using motor_on_access by blast
  have "controller_step\<^sup>*\<^sup>* (DiskII_WOZ_Controller 6 False, EventTimer) s" using controller_step.read [OF a(1)] by blast
  from disk_ii_accesses_return [OF this] a show ?thesis by blast
qed

end
