(* ===== verification/Floppy_35.thy ===== *)
theory Floppy_35
  imports Floppy_525 Floppy_Writeback
begin

text \<open>
  The 3.5 inch drive (\<^verbatim>\<open>src/devices/floppy/Floppy35_woz.hpp\<close>, \<^verbatim>\<open>Floppy35_woz.cpp\<close>): the lines CA0 to CA2 and SEL select
  one of sixteen status bits and, on the rising edge of LSTRB, one of sixteen control functions.  It is the second
  instance of the base class, with the laws of the locale \<open>drive\<close>.

  The deadline of the spindle is computed in floating point by the source and in integers here, which agree while the 14M
  counter is below \<open>2 ^ 52\<close>.  The lines are booleans, since every caller passes 0 or 1.  Debug output and snapshots are
  left out.
\<close>

section \<open>State\<close>

record floppy35 = floppy +
  ca0 :: bool
  ca1 :: bool
  ca2 :: bool
  hdsel :: bool
  lstrb :: bool
  track_num :: int
  side :: int
  step_dir :: bool
  spindle_on :: bool
  disk_in_place :: bool
  disk_switched :: bool
  double_sided :: bool
  sense_out :: u8
  ready_cycles_end :: u64
  disk_ready :: bool
  stepping_cycles_end :: u64
  disk_stepping :: bool
  instance_35 :: u64
  index_35 :: nat

datatype drive_callback_35 = MOTOR_OFF_CALLBACK

type_synonym timer_35 = "(drive_callback_35, nat) event_timer"

definition new_floppy35 :: "nat \<Rightarrow> floppy35" where
  "new_floppy35 drv = floppy.extend new_floppy
     (floppy35.fields False False False False False 0 0 False False False False True 0 0 False 0 False (0xABAC0000 + of_nat drv) drv)"

definition select_index :: "'a floppy35_scheme \<Rightarrow> nat" where
  "select_index d = 8 * of_bool (ca2 d) + 4 * of_bool (ca1 d) + 2 * of_bool (ca0 d) + of_bool (hdsel d)"

section \<open>The virtual functions\<close>

definition head_advance_35 :: "'a floppy35_scheme \<Rightarrow> u64 option" where
  "head_advance_35 d =
     (let timing = ucast (optimal_bit_timing (info (woz d))) :: u64
      in if timing = 0 then None else Some ((4 * POSITION_ADV_PER_CYCLE * 16) div timing))"

definition tmap_index_35 :: "'a floppy35_scheme \<Rightarrow> int" where
  "tmap_index_35 d = push_bit 1 (track_num d) OR side d"

definition make_nibblizer_35 :: nibblizer_ops where
  "make_nibblizer_35 = \<lparr>import_image_op = import_block_image_35, export_image_op = export_block_image_35\<rparr>"

text \<open>What a change of the track under the head asks for; \<^verbatim>\<open>unmount\<close> is added below.\<close>

definition surface_hooks_35 :: "'a floppy35_scheme hooks" where
  "surface_hooks_35 = \<lparr>head_advance_hook = head_advance_35, tmap_index_hook = tmap_index_35, spinning_hook = enable,
     amplifier_hook = read_amplifier, empty_bits_hook = 0, write_gate_hook = (\<lambda>_. True),
     unmount_hook = unmount_base, nibblizer_hook = Some make_nibblizer_35\<rparr>"

definition track_side_changed :: "'a floppy35_scheme \<Rightarrow> 'a floppy35_scheme" where
  "track_side_changed d = update_track_ptr surface_hooks_35 d"

definition update_spinning :: "'a floppy35_scheme \<Rightarrow> 'a floppy35_scheme" where
  "update_spinning d = d"

section \<open>Status\<close>

definition update_timers :: "u64 \<Rightarrow> 'a floppy35_scheme \<Rightarrow> 'a floppy35_scheme" where
  "update_timers now d =
     (let d = (if stepping_cycles_end d \<noteq> 0 \<and> now > stepping_cycles_end d then d\<lparr>stepping_cycles_end := 0, disk_stepping := False\<rparr> else d)
      in if ready_cycles_end d \<noteq> 0 \<and> now > ready_cycles_end d then d\<lparr>ready_cycles_end := 0, disk_ready := True\<rparr> else d)"

text \<open>Sampling the selector of a head makes it the active one.\<close>

definition latch_side :: "int \<Rightarrow> 'a floppy35_scheme \<Rightarrow> 'a floppy35_scheme" where
  "latch_side s d = (if side d \<noteq> s then track_side_changed (d\<lparr>side := s\<rparr>) else d)"

definition refresh_sense :: "times \<Rightarrow> 'a floppy35_scheme \<Rightarrow> 'a floppy35_scheme" where
  "refresh_sense tm d =
     (let d = update_timers (t_vid_cycles tm) d; i = select_index d;
          d = (if i = 8 then latch_side 0 d else if i = 9 then latch_side 1 d else d);
          out = (if i = 0 then of_bool (step_dir d)
            else if i = 1 then of_bool (\<not> disk_in_place d)
            else if i = 2 then of_bool (\<not> disk_stepping d)
            else if i = 3 then of_bool (write_protect d = 0)
            else if i = 4 then of_bool (\<not> spindle_on d)
            else if i = 5 then of_bool (track_num d \<noteq> 0)
            else if i = 6 then of_bool (disk_switched d)
            else if i = 12 then of_bool (double_sided d)
            else if i = 13 then of_bool (\<not> disk_ready d)
            else 0)
      in d\<lparr>sense_out := out\<rparr>)"

definition read_sense_35 :: "'a floppy35_scheme \<Rightarrow> u8" where
  "read_sense_35 d = sense_out d"

definition set_hdsel :: "times \<Rightarrow> bool \<Rightarrow> 'a floppy35_scheme \<Rightarrow> 'a floppy35_scheme" where
  "set_hdsel tm on d = refresh_sense tm (d\<lparr>hdsel := on\<rparr>)"

section \<open>Control\<close>

definition schedule_motor_off :: "times \<Rightarrow> 'a floppy35_scheme \<Rightarrow> timer_35 \<Rightarrow> timer_35" where
  "schedule_motor_off tm d t =
     scheduleEvent (t_timer tm) (t_c14m tm + t_c14m_per_second tm div 2) (Some MOTOR_OFF_CALLBACK) (instance_35 d) (index_35 d) t"

definition motor_off_callback :: "times \<Rightarrow> 'a floppy35_scheme \<Rightarrow> 'a floppy35_scheme" where
  "motor_off_callback tm d = refresh_sense tm (update_spinning
     (d\<lparr>spindle_on := False, ready_cycles_end := 0, disk_ready := False, stepping_cycles_end := 0, disk_stepping := False\<rparr>))"

definition set_enable_35 :: "times \<Rightarrow> bool \<Rightarrow> 'a floppy35_scheme \<times> timer_35 \<Rightarrow> 'a floppy35_scheme \<times> timer_35" where
  "set_enable_35 tm on = (\<lambda>(d, t).
     let t = (if \<not> on \<and> enable d then schedule_motor_off tm d t else t);
         t = (if on then cancelEvents (instance_35 d) t else t)
     in (refresh_sense tm (update_spinning (d\<lparr>enable := on\<rparr>)), t))"

definition step_track :: "times \<Rightarrow> 'a floppy35_scheme \<Rightarrow> 'a floppy35_scheme" where
  "step_track tm d =
     (let new_track = track_num d + (if step_dir d then - 1 else 1);
          new_track = (if new_track < 0 then 0 else new_track);
          new_track = (if new_track > 79 then 79 else new_track) in
      if new_track = track_num d then d
      else track_side_changed (d\<lparr>
        ready_cycles_end := t_vid_cycles tm + (if new_track div 16 \<noteq> track_num d div 16 then 5000 else 1000), disk_ready := False,
        stepping_cycles_end := t_vid_cycles tm + 5000, disk_stepping := True, track_num := new_track\<rparr>))"

definition trigger_control :: "times \<Rightarrow> 'a floppy35_scheme \<times> timer_35 \<Rightarrow> 'a floppy35_scheme \<times> timer_35" where
  "trigger_control tm = (\<lambda>(d, t).
     if \<not> enable d then (d, t)
     else
       let i = select_index d;
           (d, t) = (if i = 0 then (d\<lparr>step_dir := False\<rparr>, t)
             else if i = 8 then (d\<lparr>step_dir := True\<rparr>, t)
             else if i = 9 then (d\<lparr>disk_switched := False\<rparr>, t)
             else if i = 2 then (step_track tm d, t)
             else if i = 4 then
               let d = (if \<not> spindle_on d then d\<lparr>last_cycle := t_vid_cycles tm\<rparr> else d)
               in (update_spinning (d\<lparr>spindle_on := True\<rparr>)\<lparr>ready_cycles_end := t_vid_cycles tm + 5000, disk_ready := False\<rparr>,
                   cancelEvents (instance_35 d) t)
             else if i = 12 then (update_spinning (d\<lparr>spindle_on := False\<rparr>)\<lparr>ready_cycles_end := 0, disk_ready := False\<rparr>, t)
             else if i = 14 then (d\<lparr>disk_in_place := False, disk_switched := True\<rparr>, t)
             else (d, t))
       in (refresh_sense tm d, t))"

definition set_phase_35 ::
    "times \<Rightarrow> nat \<Rightarrow> bool \<Rightarrow> 'a floppy35_scheme \<times> timer_35 \<Rightarrow> 'a floppy35_scheme \<times> timer_35" where
  "set_phase_35 tm phase onoff = (\<lambda>(d, t).
     if phase > 3 then (d, t)
     else
       let lstrb_rise = (phase = 3 \<and> \<not> lstrb d \<and> onoff);
           d = (if phase = 0 then d\<lparr>ca0 := onoff\<rparr> else if phase = 1 then d\<lparr>ca1 := onoff\<rparr>
                else if phase = 2 then d\<lparr>ca2 := onoff\<rparr> else d\<lparr>lstrb := onoff\<rparr>);
           (d, t) = (if lstrb_rise then trigger_control tm (d, t) else (d, t))
       in (refresh_sense tm d, t))"

section \<open>Mounting and rotation\<close>

definition unmount_35 :: "times \<Rightarrow> 'a floppy35_scheme \<Rightarrow> 'a floppy35_scheme" where
  "unmount_35 tm d = unmount_base (refresh_sense tm (update_spinning (d\<lparr>disk_in_place := False, spindle_on := False, disk_switched := True\<rparr>)))"

definition hooks_35 :: "times \<Rightarrow> 'a floppy35_scheme hooks" where
  "hooks_35 tm = surface_hooks_35\<lparr>unmount_hook := unmount_35 tm\<rparr>"

definition mount_35 ::
    "host_io \<Rightarrow> times \<Rightarrow> media_descriptor \<Rightarrow> files \<Rightarrow> 'a floppy35_scheme \<Rightarrow> (bool \<times> 'a floppy35_scheme) option" where
  "mount_35 io tm media fs d =
     (if media_type media \<noteq> MEDIA_WOZ \<and> media_type media \<noteq> MEDIA_BLK then Some (False, d)
      else do {
        (ok, d) \<leftarrow> mount_base (hooks_35 tm) io (t_vid_cycles tm) media fs d;
        if \<not> ok then Some (False, d)
        else if media_type media = MEDIA_WOZ \<and> disk_type (info (woz d)) \<noteq> 2 then Some (False, d\<lparr>is_mounted := False\<rparr>)
        else Some (True, refresh_sense tm (track_side_changed (d\<lparr>disk_in_place := True, disk_switched := False, track_num := 0, side := 0\<rparr>)))
      })"

definition fast_forward_35 :: "times \<Rightarrow> 'a floppy35_scheme \<Rightarrow> (u64 \<times> 'a floppy35_scheme) option" where
  "fast_forward_35 tm d = fast_forward (hooks_35 tm) (t_vid_cycles tm) (refresh_sense tm d)"

section \<open>The laws of the drive\<close>

lemma hooks_35_simps [simp]:
  "head_advance_hook (hooks_35 tm) = head_advance_35" "tmap_index_hook (hooks_35 tm) = tmap_index_35"
  "spinning_hook (hooks_35 tm) = enable" "amplifier_hook (hooks_35 tm) = read_amplifier"
  "empty_bits_hook (hooks_35 tm) = 0" "write_gate_hook (hooks_35 tm) d = True"
  "unmount_hook (hooks_35 tm) = unmount_35 tm" "nibblizer_hook (hooks_35 tm) = Some make_nibblizer_35"
  by (simp_all add: hooks_35_def surface_hooks_35_def)

interpretation d35: drive "hooks_35 tm :: 'a floppy35_scheme hooks"
  for tm
proof
  fix d d' :: "'a floppy35_scheme"
  assume more: "floppy.more d = floppy.more d'"
  then show "write_gate_hook (hooks_35 tm) d = write_gate_hook (hooks_35 tm) d'"
    "tmap_index_hook (hooks_35 tm) d = tmap_index_hook (hooks_35 tm) d'"
    by (cases d, cases d', simp add: tmap_index_35_def)+
  assume "enable d = enable d'"
  then show "spinning_hook (hooks_35 tm) d = spinning_hook (hooks_35 tm) d'" by simp
next
  fix b and d :: "'a floppy35_scheme"
  show "\<exists>w r. snd (amplifier_hook (hooks_35 tm) b d) = d\<lparr>windowBits := w, random_bits := r\<rparr>"
    by (rule exI [of _ "windowBits (snd (read_amplifier b d))"], rule exI [of _ "random_bits (snd (read_amplifier b d))"],
        cases d) (simp add: read_amplifier_def get_random_bit_def Let_def)
qed simp

end
