(* ===== verification/Floppy_35_Correct.thy ===== *)
theory Floppy_35_Correct
  imports Floppy_35
begin

text \<open>
  The properties of the 3.5 inch drive: the head over the track that the mechanism says, in every reachable state, and
  recalibration by the control protocol, through an abstract machine of the control lines.
\<close>

section \<open>The track under the head\<close>

definition over_track :: "floppy35 \<Rightarrow> bool" where
  "over_track d \<longleftrightarrow> head_ok surface_hooks_35 d \<and> 0 \<le> track_num d \<and> track_num d \<le> 79 \<and> side d \<in> {0, 1} \<and>
     cur_track d = track_index (woz d) (tmap_index_35 d) \<and> optimal_bit_timing (info (woz d)) \<noteq> 0"

lemma head_ok_35: "head_ok (hooks_35 tm) d = head_ok surface_hooks_35 d"
  by (simp add: head_ok_def track_len_def hooks_35_def)

lemma over_track_cong:
  assumes "woz d' = woz d" "cur_track d' = cur_track d" "read_position d' = read_position d" "track_num d' = track_num d" "side d' = side d"
  shows "over_track d' = over_track d"
  using assms track_len_cong [OF assms(1,2), of surface_hooks_35] by (simp add: over_track_def head_ok_def tmap_index_35_def)

text \<open>A change of track or side puts the head over the new track.\<close>

lemma update_track_ptr_35: "update_track_ptr surface_hooks_35 d = update_track_ptr (hooks_35 tm) d"
  unfolding update_track_ptr_def track_len_def by (simp add: hooks_35_def Let_def)

lemma track_side_changed_simps [simp]:
  "woz (track_side_changed d) = woz d" "track_num (track_side_changed d) = track_num d" "side (track_side_changed d) = side d"
  "enable (track_side_changed d) = enable d" "step_dir (track_side_changed d) = step_dir d"
  "ca0 (track_side_changed d) = ca0 d" "ca1 (track_side_changed d) = ca1 d" "ca2 (track_side_changed d) = ca2 d"
  "hdsel (track_side_changed d) = hdsel d" "lstrb (track_side_changed d) = lstrb d"
  by (simp_all add: track_side_changed_def update_track_ptr_def Let_def)

lemma track_side_changed_ok:
  assumes "\<forall>trk \<in> set (tracks (woz d)). sound_track trk" "0 \<le> track_num d" "track_num d \<le> 79" "side d \<in> {0, 1}"
    and "optimal_bit_timing (info (woz d)) \<noteq> 0"
  shows "over_track (track_side_changed d)"
proof -
  note ptr = d35.update_track_ptr_ok [OF assms(1)]
  have "tmap_index_35 (track_side_changed d) = tmap_index_35 d" by (simp add: tmap_index_35_def)
  moreover have "head_ok surface_hooks_35 (track_side_changed d)" "cur_track (track_side_changed d) = track_index (woz d) (tmap_index_35 d)"
    using ptr(1,3) [of undefined] by (simp_all add: track_side_changed_def update_track_ptr_35 [of _ undefined] head_ok_35)
  ultimately show ?thesis using assms(2-5) by (simp add: over_track_def)
qed

lemma over_track_sound: "over_track d \<Longrightarrow> \<forall>trk \<in> set (tracks (woz d)). sound_track trk"
  by (simp add: over_track_def head_ok_def)

lemma update_timers_simps [simp]:
  "woz (update_timers now d) = woz d" "cur_track (update_timers now d) = cur_track d" "read_position (update_timers now d) = read_position d"
  "track_num (update_timers now d) = track_num d" "side (update_timers now d) = side d" "enable (update_timers now d) = enable d"
  "step_dir (update_timers now d) = step_dir d" "ca0 (update_timers now d) = ca0 d" "ca1 (update_timers now d) = ca1 d"
  "ca2 (update_timers now d) = ca2 d" "hdsel (update_timers now d) = hdsel d" "lstrb (update_timers now d) = lstrb d"
  by (simp_all add: update_timers_def Let_def)

lemma latch_side_ok:
  assumes "over_track d" "s \<in> {0, 1}"
  shows "over_track (latch_side s d)"
proof -
  have "over_track (track_side_changed (d\<lparr>side := s\<rparr>))"
    using assms over_track_sound [OF assms(1)] by (intro track_side_changed_ok) (simp_all add: over_track_def)
  then show ?thesis using assms(1) by (simp add: latch_side_def)
qed

lemma latch_side_simps [simp]:
  "woz (latch_side s d) = woz d" "track_num (latch_side s d) = track_num d" "enable (latch_side s d) = enable d"
  "step_dir (latch_side s d) = step_dir d" "ca0 (latch_side s d) = ca0 d" "ca1 (latch_side s d) = ca1 d"
  "ca2 (latch_side s d) = ca2 d" "hdsel (latch_side s d) = hdsel d" "lstrb (latch_side s d) = lstrb d"
  by (simp_all add: latch_side_def)

lemma refresh_sense_ok:
  assumes "over_track d"
  shows "over_track (refresh_sense tm d)"
proof -
  let ?d = "update_timers (t_vid_cycles tm) d"
  have ok: "over_track ?d" using assms over_track_cong [of ?d d] by simp
  have "over_track (x\<lparr>sense_out := out\<rparr>) = over_track x" for x out by (rule over_track_cong) simp_all
  then show ?thesis using ok latch_side_ok [OF ok] by (simp add: refresh_sense_def Let_def)
qed

lemma refresh_sense_simps [simp]:
  "woz (refresh_sense tm d) = woz d" "track_num (refresh_sense tm d) = track_num d" "enable (refresh_sense tm d) = enable d"
  "step_dir (refresh_sense tm d) = step_dir d" "ca0 (refresh_sense tm d) = ca0 d" "ca1 (refresh_sense tm d) = ca1 d"
  "ca2 (refresh_sense tm d) = ca2 d" "hdsel (refresh_sense tm d) = hdsel d" "lstrb (refresh_sense tm d) = lstrb d"
  by (simp_all add: refresh_sense_def Let_def)

section \<open>Control\<close>

lemma over_track_update:
  assumes "over_track d"
  shows "over_track (d\<lparr>ca0 := b\<rparr>)" "over_track (d\<lparr>ca1 := b\<rparr>)" "over_track (d\<lparr>ca2 := b\<rparr>)" "over_track (d\<lparr>hdsel := b\<rparr>)"
    "over_track (d\<lparr>lstrb := b\<rparr>)" "over_track (d\<lparr>step_dir := b\<rparr>)" "over_track (d\<lparr>spindle_on := b\<rparr>)" "over_track (d\<lparr>disk_in_place := b\<rparr>)"
    "over_track (d\<lparr>disk_switched := b\<rparr>)" "over_track (d\<lparr>ready_cycles_end := n\<rparr>)" "over_track (d\<lparr>disk_ready := b\<rparr>)"
    "over_track (d\<lparr>stepping_cycles_end := n\<rparr>)" "over_track (d\<lparr>disk_stepping := b\<rparr>)" "over_track (d\<lparr>enable := b\<rparr>)"
    "over_track (d\<lparr>last_cycle := n\<rparr>)" "over_track (d\<lparr>writing := b\<rparr>)" "over_track (d\<lparr>head_position := n\<rparr>)" "over_track (d\<lparr>is_mounted := b\<rparr>)"
  by (rule over_track_cong [THEN iffD2, OF _ _ _ _ _ assms]; simp)+

lemma step_track_ok:
  assumes "over_track d"
  shows "over_track (step_track tm d)"
proof -
  have "over_track (track_side_changed (d\<lparr>ready_cycles_end := r, disk_ready := False, stepping_cycles_end := s, disk_stepping := True,
      track_num := n\<rparr>))" if "0 \<le> n" "n \<le> 79" for r s n
    using assms over_track_sound [OF assms] that by (intro track_side_changed_ok) (simp_all add: over_track_def)
  then show ?thesis using assms by (simp add: step_track_def Let_def)
qed

lemma trigger_control_ok:
  assumes "over_track d"
  shows "over_track (fst (trigger_control tm (d, t)))"
  using assms step_track_ok [OF assms]
  by (simp add: trigger_control_def update_spinning_def Let_def over_track_update refresh_sense_ok)

lemma set_phase_35_ok:
  assumes "over_track d"
  shows "over_track (fst (set_phase_35 tm p b (d, t)))"
  using assms trigger_control_ok
  by (simp add: set_phase_35_def Let_def case_prod_beta over_track_update refresh_sense_ok)

lemma set_enable_35_ok:
  assumes "over_track d"
  shows "over_track (fst (set_enable_35 tm b (d, t)))"
  using assms by (simp add: set_enable_35_def Let_def update_spinning_def over_track_update refresh_sense_ok)

lemma motor_off_ok: "over_track d \<Longrightarrow> over_track (motor_off_callback tm d)"
  by (simp add: motor_off_callback_def update_spinning_def over_track_update refresh_sense_ok)

section \<open>Pulses and rotation\<close>

lemma over_track_pulse:
  assumes "over_track d" "head_ok surface_hooks_35 d'" "cur_track d' = cur_track d" "floppy.more d' = floppy.more d"
    and "tmap (woz d') = tmap (woz d)" "length (tracks (woz d')) = length (tracks (woz d))" "info (woz d') = info (woz d)"
  shows "over_track d'"
proof -
  have "track_num d' = track_num d" "side d' = side d" using assms(4) by (cases d, cases d', simp)+
  moreover have "track_index (woz d') n = track_index (woz d) n" for n using assms(5,6) by (simp add: track_index_def Let_def)
  ultimately show ?thesis using assms by (simp add: over_track_def tmap_index_35_def)
qed

lemma write_pulse_image:
  assumes "write_pulse h b d = Some d'"
  shows "tmap (woz d') = tmap (woz d)" "length (tracks (woz d')) = length (tracks (woz d))" "info (woz d') = info (woz d)"
  using assms by (auto simp: write_pulse_def write_surface_def split: option.splits if_splits bind_splits)

lemma read_pulse_35_ok:
  assumes "over_track d"
  shows "\<exists>b d'. read_pulse (hooks_35 tm) d = Some (b, d') \<and> over_track d'"
proof -
  have ok: "head_ok (hooks_35 tm) d" using assms by (simp add: over_track_def head_ok_35)
  obtain b d' where r: "read_pulse (hooks_35 tm) d = Some (b, d')" using d35.read_pulse_returns [OF ok] by blast
  have "over_track d'"
    using d35.read_pulse_keeps [OF ok r] assms by (intro over_track_pulse [OF assms]) (simp_all add: head_ok_35)
  then show ?thesis using r by blast
qed

lemma write_pulse_35_ok:
  assumes "over_track d"
  shows "\<exists>d'. write_pulse (hooks_35 tm) b d = Some d' \<and> over_track d'"
proof -
  have ok: "head_ok (hooks_35 tm) d" using assms by (simp add: over_track_def head_ok_35)
  obtain d' where w: "write_pulse (hooks_35 tm) b d = Some d'" "head_ok (hooks_35 tm) d'" "cur_track d' = cur_track d"
    "floppy.more d' = floppy.more d"
    using d35.write_pulse_spec [OF ok] by blast
  have "over_track d'" using w(2-4) write_pulse_image [OF w(1)] by (intro over_track_pulse [OF assms]) (simp_all add: head_ok_35)
  then show ?thesis using w(1) by blast
qed

lemma fast_forward_35_ok:
  assumes "over_track d"
  shows "\<exists>n d'. fast_forward_35 tm d = Some (n, d') \<and> over_track d'"
proof -
  let ?d = "refresh_sense tm d" and ?h = "hooks_35 tm :: floppy35 hooks"
  have d: "over_track ?d" by (rule refresh_sense_ok [OF assms])
  then have ok: "head_ok ?h ?d" by (simp add: over_track_def head_ok_35)
  have "head_advance_hook ?h (?d\<lparr>last_cycle := t_vid_cycles tm\<rparr>) \<noteq> None"
    using d by (simp add: over_track_def head_advance_35_def Let_def ucast_8_64_0)
  then obtain n d' where f: "fast_forward ?h (t_vid_cycles tm) ?d = Some (n, d')" using d35.fast_forward_returns by fastforce
  have "cur_track d' = cur_track ?d"
    using f by (auto simp: fast_forward_def catch_up_def Let_def split: if_splits bind_splits)
  then have "over_track d'" using d35.fast_forward_ok [OF ok f] by (intro over_track_pulse [OF d]) (simp_all add: head_ok_35)
  then show ?thesis using f by (simp add: fast_forward_35_def)
qed

section \<open>Mounting\<close>

lemma built_track_35_ok:
  assumes "image_ok_35 disk" "t < 80" "sd < 2"
  shows "track_ok (build_track_35 disk (i_logical_to_phys ! (t div 16)) t sd)"
proof (rule build_track_35_stream(1))
  note zone = zone_table [OF assms(2)]
  show "length (disk ! calculateSectorOffset t l sd) = 512" if "l \<in> set (i_logical_to_phys ! (t div 16))" for l
  proof -
    have "calculateSectorOffset t l sd < 1600" using that zone(3) by (intro sector_offset_bound [OF assms(2,3)]) simp
    then show ?thesis using assms(1) nth_mem [of "calculateSectorOffset t l sd" disk] by (auto simp: image_ok_35_def)
  qed
  show "length (i_logical_to_phys ! (t div 16)) = sectorsPerZone ! (t div 16)" "length (i_logical_to_phys ! (t div 16)) \<le> 12"
    using zone(1,4) by simp_all
qed

lemma import_35_sound:
  assumes "import_block_image_35 io img (Some media) fs = (0, img')"
  shows "\<forall>trk \<in> set (tracks img'). sound_track trk" "optimal_bit_timing (info img') = 16"
proof -
  obtain disk where disk: "load_disk_image_35 io media fs = Some disk"
    and img': "img' = fold (add_track_35 disk) [0..<80] (import_reset_35 media img)"
    using assms by (auto simp: import_block_image_35_def sizes_35 split: if_splits option.splits)
  obtain items f' f where items: "fread_pieces SECTOR_SIZE_35 SECTORS_PER_DISK f = Some (items, f')"
    "disk = map (\<lambda>i. take SECTOR_SIZE_35 (drop (i * SECTOR_SIZE_35) (concat items))) [0..<SECTORS_PER_DISK]"
    using disk by (auto simp: load_disk_image_35_def Let_def split: bind_splits if_splits)
  have "map length items = replicate 512 1600"
    using fread_pieces_lengths [OF items(1)] by (intro nth_equalityI) (simp_all add: sizes_35)
  then have "length (concat items) = 819200" by (simp add: length_concat sum_list_replicate)
  then have "image_ok_35 disk" by (auto simp: items(2) image_ok_35_def sizes_35)
  then have "sound_track (build_track_35 disk (i_logical_to_phys ! (t div 16)) t sd)" if "t < 80" "sd < 2" for t sd
    using that built_track_35_ok by (blast intro: track_ok_sound)
  then show "\<forall>trk \<in> set (tracks img'). sound_track trk"
    using add_tracks_35 [of 80 "import_reset_35 media img" disk] by (auto simp: img' import_reset_35_def)
  have "info (fold (add_track_35 disk) ts x) = info x" for ts x
    by (induction ts arbitrary: x) (simp_all add: add_track_35_def Let_def)
  then show "optimal_bit_timing (info img') = 16" by (simp add: img' import_reset_35_def)
qed

lemma insert_disk_35:
  assumes "insert_disk (hooks_35 tm) now media d = Some d'" "\<forall>trk \<in> set (tracks (woz d)). sound_track trk"
  shows "woz d' = woz d" "optimal_bit_timing (info (woz d)) \<noteq> 0" "track_num d' = track_num d" "side d' = side d"
proof -
  show "woz d' = woz d" using d35.insert_disk_ok(2) [OF assms] .
  show "optimal_bit_timing (info (woz d)) \<noteq> 0"
    using assms(1) by (auto simp: insert_disk_def head_advance_35_def update_track_ptr_def Let_def ucast_8_64_0 split: if_splits)
  have "floppy.more d' = floppy.more d" using d35.insert_disk_ok(3) [OF assms] .
  then show "track_num d' = track_num d" "side d' = side d" by (cases d, cases d', simp)+
qed

lemma unmount_35_ok: "over_track d \<Longrightarrow> over_track (unmount_35 tm d)"
proof -
  assume d: "over_track d"
  let ?d = "refresh_sense tm (update_spinning (d\<lparr>disk_in_place := False, spindle_on := False, disk_switched := True\<rparr>))"
  have "over_track ?d" using d by (simp add: update_spinning_def over_track_update refresh_sense_ok)
  moreover have "track_index new_woz n = None" for n by (simp add: track_index_def new_woz_def Let_def)
  ultimately show ?thesis
    by (simp add: unmount_35_def unmount_base_def over_track_def head_ok_def track_len_def cur_bit_count_def)
      (simp add: new_woz_def new_woz_info_def surface_hooks_35_def tmap_index_35_def)
qed

lemma mount_35_ok:
  assumes "mount_35 io tm media fs d = Some (ok, d')" "over_track d"
    and "media_type media = MEDIA_WOZ \<Longrightarrow> ok \<and> (\<forall>trk \<in> set (tracks (woz d')). sound_track trk)"
  shows "over_track d'"
proof -
  let ?h = "hooks_35 tm :: floppy35 hooks" and ?d0 = "if is_mounted d then unmount_35 tm d else d"
  have d0: "over_track ?d0" using assms(2) unmount_35_ok by simp
  show ?thesis
  proof (cases ok)
    case False
    then have type: "media_type media \<noteq> MEDIA_WOZ" using assms(3) by blast
    let ?r = "import_block_image_35 io (woz ?d0) (Some media) fs"
    have "d' = d \<or> fst ?r \<noteq> 0 \<and> d' = ?d0\<lparr>woz := snd ?r, is_mounted := False\<rparr>"
      using assms(1) type False
      by (cases ?r) (auto simp: mount_35_def mount_base_def make_nibblizer_35_def Let_def bind_eq_Some_conv split: if_splits)
    moreover have "snd ?r = woz ?d0" if "fst ?r \<noteq> 0"
      using that by (auto simp: import_block_image_35_def split: if_splits option.splits)
    ultimately show ?thesis using assms(2) over_track_update(18) [OF d0, of False] by auto
  next
    case True
    then obtain d1 where mounted: "mount_base ?h io (t_vid_cycles tm) media fs d = Some (True, d1)"
        "d' = refresh_sense tm (track_side_changed (d1\<lparr>disk_in_place := True, disk_switched := False, track_num := 0, side := 0\<rparr>))"
      using assms(1) by (auto simp: mount_35_def bind_eq_Some_conv split: if_splits)
    obtain d0' img where d0': "d0' = (if is_mounted d then unmount_hook ?h d else d)"
      and ins: "insert_disk ?h (t_vid_cycles tm) media (d0'\<lparr>woz := img\<rparr>) = Some d1"
      and imp: "media_type media \<noteq> MEDIA_WOZ \<Longrightarrow> import_block_image_35 io (woz d0') (Some media) fs = (0, img)"
      using mount_base_cases [OF mounted(1)] by (auto simp: make_nibblizer_35_def)
    have img: "woz d1 = img" using ins by (auto simp: insert_disk_def Let_def update_track_ptr_def)
    then have sound: "\<forall>trk \<in> set (tracks img). sound_track trk"
      using assms(3) mounted(2) import_35_sound(1) [OF imp] by auto
    have t: "optimal_bit_timing (info img) \<noteq> 0" using insert_disk_35(2) [OF ins] sound by simp
    show ?thesis
      unfolding mounted(2) using sound t img by (intro refresh_sense_ok track_side_changed_ok) simp_all
  qed
qed

section \<open>Reachable drives\<close>

inductive drive_step_35 :: "floppy35 \<times> timer_35 \<Rightarrow> floppy35 \<times> timer_35 \<Rightarrow> bool" where
  reads: "read_pulse (hooks_35 tm) d = Some (b, d') \<Longrightarrow> drive_step_35 (d, t) (d', t)"
| writes: "write_pulse (hooks_35 tm) b d = Some d' \<Longrightarrow> drive_step_35 (d, t) (d', t)"
| forward: "fast_forward_35 tm d = Some (n, d') \<Longrightarrow> drive_step_35 (d, t) (d', t)"
| cell_phase: "drive_step_35 (d, t) (restart_cell_phase d, t)"
| direction: "drive_step_35 (d, t) (set_writing b d, t)"
| select: "drive_step_35 s (set_enable_35 tm b s)"
| phase: "drive_step_35 s (set_phase_35 tm p b s)"
| sel_line: "drive_step_35 (d, t) (set_hdsel tm b d, t)"
| spin_down: "drive_step_35 (d, t) (motor_off_callback tm d, t')"
| resets: "drive_step_35 (d, t) (reset_drive d, t)"
| mount: "mount_35 io tm media fs d = Some (ok, d') \<Longrightarrow>
    (media_type media = MEDIA_WOZ \<longrightarrow> ok \<and> (\<forall>trk \<in> set (tracks (woz d')). sound_track trk)) \<Longrightarrow> drive_step_35 (d, t) (d', t)"
| unmount: "drive_step_35 (d, t) (unmount_35 tm d, t)"
| save_disk: "writeback (hooks_35 tm) io fs d = Some (ok, fs', d') \<Longrightarrow> drive_step_35 (d, t) (d', t)"

lemma writeback_35_ok:
  assumes "writeback (hooks_35 tm) io fs d = Some (ok, fs', d')" "over_track d"
  shows "over_track d'"
proof -
  have s: "same_disk d d'" by (rule writeback_same [OF assms(1)])
  then have "track_num d' = track_num d" "side d' = side d" by (cases d, cases d', simp add: same_disk_def)+
  moreover have "cur_bit_count d' = cur_bit_count d" using s by (simp add: same_disk_def cur_bit_count_def cong: option.case_cong)
  moreover have "track_index (woz d') n = track_index (woz d) n" for n using s by (simp add: same_disk_def track_index_def Let_def)
  ultimately show ?thesis
    using s assms(2) by (simp add: same_disk_def over_track_def head_ok_def track_len_def tmap_index_35_def split: if_splits)
qed

lemma drive_step_35_ok:
  assumes "drive_step_35 s s'" "over_track (fst s)"
  shows "over_track (fst s')"
  using assms
proof induction
  case (reads tm d b d' t)
  then show ?case using read_pulse_35_ok [of d tm] by auto
next
  case (writes tm b d d' t)
  then show ?case using write_pulse_35_ok [of d tm b] by auto
next
  case (forward tm d n d' t)
  then show ?case using fast_forward_35_ok [of d tm] by auto
next
  case (mount io tm media fs d ok d' t)
  then show ?case using mount_35_ok [of io tm media fs d ok d'] by simp
next
  case (save_disk tm io fs d ok fs' d' t)
  then show ?case using writeback_35_ok by simp
next
  case (select s tm b)
  then show ?case using set_enable_35_ok by (cases s) simp
next
  case (phase s tm p b)
  then show ?case using set_phase_35_ok by (cases s) simp
qed (simp_all add: restart_cell_phase_def set_writing_def set_hdsel_def reset_drive_def over_track_update refresh_sense_ok motor_off_ok unmount_35_ok)

lemma new_floppy35_ok: "over_track (new_floppy35 drv)"
  by (simp add: over_track_def new_floppy35_def new_floppy_def floppy.defs floppy35.defs head_ok_def track_len_def cur_bit_count_def
      track_index_def new_woz_def new_woz_info_def surface_hooks_35_def tmap_index_35_def)

text \<open>
  C16.  The 3.5 inch head is over its track.  After any sequence of pulses, waits, settings of the control lines and strobes,
  selections, spin-downs, resets, mounts, unmounts and writebacks, the cylinder is between 0 and 79, the track
  under the head is the one of that cylinder and side in the map of the image, and the next pulse, and the next catching
  up with the disk, stay inside the bytes of that track.  A mount may be of a block image, whether it is accepted or
  refused; of a WOZ file only if it is accepted and its tracks hold the bytes of their bit counts, which the reader of
  WOZ files does not check.
\<close>

theorem head_35_is_over_its_track:
  assumes "drive_step_35\<^sup>*\<^sup>* (new_floppy35 drv, t0) (d, t)"
  shows "0 \<le> track_num d \<and> track_num d \<le> 79 \<and> cur_track d = track_index (woz d) (2 * track_num d + side d) \<and>
    read_pulse (hooks_35 tm) d \<noteq> None \<and> write_pulse (hooks_35 tm) b d \<noteq> None \<and> fast_forward_35 tm d \<noteq> None"
proof -
  have "over_track (fst (d, t))"
    using assms by (induction rule: rtranclp_induct) (auto simp: new_floppy35_ok intro: drive_step_35_ok)
  then have ok: "over_track d" by simp
  have "push_bit 1 (track_num d) OR side d = 2 * track_num d + side d"
    using ok by (auto simp: over_track_def push_bit_eq_mult or_one_eq)
  then have "tmap_index_35 d = 2 * track_num d + side d" by (simp add: tmap_index_35_def)
  then show ?thesis
    using ok read_pulse_35_ok [OF ok, of tm] write_pulse_35_ok [OF ok, of tm b] fast_forward_35_ok [OF ok, of tm]
    by (auto simp: over_track_def)
qed

section \<open>The control lines\<close>

text \<open>What the control lines do to the direction and the cylinder, without the disk.\<close>

record lines_35 =
  l_ca0 :: bool
  l_ca1 :: bool
  l_ca2 :: bool
  l_sel :: bool
  l_strobe :: bool
  l_outward :: bool
  l_cylinder :: int
  l_enabled :: bool

definition lines_of :: "floppy35 \<Rightarrow> lines_35" where
  "lines_of d = \<lparr>l_ca0 = ca0 d, l_ca1 = ca1 d, l_ca2 = ca2 d, l_sel = hdsel d, l_strobe = lstrb d, l_outward = step_dir d,
     l_cylinder = track_num d, l_enabled = enable d\<rparr>"

definition strobe :: "lines_35 \<Rightarrow> lines_35" where
  "strobe l =
     (if \<not> l_enabled l \<or> l_ca1 l \<or> l_sel l then l
      else if \<not> l_ca0 l then l\<lparr>l_outward := l_ca2 l\<rparr>
      else if l_ca2 l then l
      else l\<lparr>l_cylinder := (if l_outward l then max 0 (l_cylinder l - 1) else min 79 (l_cylinder l + 1))\<rparr>)"

fun line_step :: "nat \<times> bool \<Rightarrow> lines_35 \<Rightarrow> lines_35" where
  "line_step (p, b) l =
     (if p = 0 then l\<lparr>l_ca0 := b\<rparr> else if p = 1 then l\<lparr>l_ca1 := b\<rparr> else if p = 2 then l\<lparr>l_ca2 := b\<rparr>
      else if p = 3 then (if \<not> l_strobe l \<and> b then strobe (l\<lparr>l_strobe := b\<rparr>) else l\<lparr>l_strobe := b\<rparr>)
      else l)"

lemma lines_of_update [simp]:
  "lines_of (d\<lparr>ca0 := x\<rparr>) = (lines_of d)\<lparr>l_ca0 := x\<rparr>"
  "lines_of (d\<lparr>ca1 := x\<rparr>) = (lines_of d)\<lparr>l_ca1 := x\<rparr>"
  "lines_of (d\<lparr>ca2 := x\<rparr>) = (lines_of d)\<lparr>l_ca2 := x\<rparr>"
  "lines_of (d\<lparr>lstrb := x\<rparr>) = (lines_of d)\<lparr>l_strobe := x\<rparr>"
  "lines_of (d\<lparr>step_dir := x\<rparr>) = (lines_of d)\<lparr>l_outward := x\<rparr>"
  "lines_of (d\<lparr>disk_switched := x\<rparr>) = lines_of d"
  "lines_of (d\<lparr>disk_in_place := x\<rparr>) = lines_of d"
  "lines_of (d\<lparr>spindle_on := x\<rparr>) = lines_of d"
  "lines_of (d\<lparr>disk_ready := x\<rparr>) = lines_of d"
  "lines_of (d\<lparr>ready_cycles_end := u\<rparr>) = lines_of d"
  "lines_of (d\<lparr>last_cycle := u\<rparr>) = lines_of d"
  by (simp_all add: lines_of_def)

lemma lines_of_spinning [simp]: "lines_of (update_spinning d) = lines_of d"
  by (simp add: lines_of_def update_spinning_def)

lemma lines_of_refresh [simp]: "lines_of (refresh_sense tm d) = lines_of d"
  by (simp add: lines_of_def)

lemma lines_of_sel [simp]:
  "l_ca0 (lines_of d) = ca0 d" "l_ca1 (lines_of d) = ca1 d" "l_ca2 (lines_of d) = ca2 d" "l_sel (lines_of d) = hdsel d"
  "l_strobe (lines_of d) = lstrb d" "l_outward (lines_of d) = step_dir d" "l_cylinder (lines_of d) = track_num d"
  "l_enabled (lines_of d) = enable d"
  by (simp_all add: lines_of_def)

lemma lines_of_step_track:
  assumes "0 \<le> track_num d" "track_num d \<le> 79"
  shows "lines_of (step_track tm d) =
    (lines_of d)\<lparr>l_cylinder := (if step_dir d then max 0 (track_num d - 1) else min 79 (track_num d + 1))\<rparr>"
  using assms by (simp add: step_track_def Let_def lines_of_def)

lemma select_index_lines:
  "select_index d = 0 \<longleftrightarrow> \<not> ca2 d \<and> \<not> ca1 d \<and> \<not> ca0 d \<and> \<not> hdsel d"
  "select_index d = 8 \<longleftrightarrow> ca2 d \<and> \<not> ca1 d \<and> \<not> ca0 d \<and> \<not> hdsel d"
  "select_index d = 2 \<longleftrightarrow> \<not> ca2 d \<and> \<not> ca1 d \<and> ca0 d \<and> \<not> hdsel d"
  by (cases "ca0 d"; cases "ca1 d"; cases "ca2 d"; cases "hdsel d"; simp add: select_index_def)+

lemma trigger_control_lines:
  assumes "0 \<le> track_num d" "track_num d \<le> 79"
  shows "lines_of (fst (trigger_control tm (d, t))) = strobe (lines_of d)"
proof (cases "enable d")
  case True
  consider "select_index d = 0" | "select_index d = 8" | "select_index d = 2"
    | "select_index d \<noteq> 0" "select_index d \<noteq> 8" "select_index d \<noteq> 2" by blast
  then show ?thesis
  proof cases
    case 3
    then show ?thesis
      using True select_index_lines(3) [of d] by (simp add: trigger_control_def strobe_def lines_of_step_track [OF assms])
  next
    case 4
    then have "lines_of (fst (trigger_control tm (d, t))) = lines_of d"
      by (simp add: trigger_control_def Let_def)
    moreover have "strobe (lines_of d) = lines_of d" using 4 True by (auto simp: strobe_def select_index_lines)
    ultimately show ?thesis by simp
  qed (use True select_index_lines [of d] in \<open>simp_all add: trigger_control_def strobe_def\<close>)
qed (simp add: trigger_control_def strobe_def)

lemma set_phase_lines:
  assumes "0 \<le> track_num d" "track_num d \<le> 79"
  shows "lines_of (fst (set_phase_35 tm p b (d, t))) = line_step (p, b) (lines_of d)"
  using trigger_control_lines [of "d\<lparr>lstrb := b\<rparr>" tm t] assms
  by (cases b) (simp_all add: set_phase_35_def Let_def case_prod_beta)

lemma control_sequence_lines:
  assumes "over_track d"
  shows "lines_of (fst (fold (\<lambda>(tm, p, b). set_phase_35 tm p b) cmds (d, t))) = fold line_step (map snd cmds) (lines_of d)"
  using assms
proof (induction cmds arbitrary: d t)
  case (Cons c cmds)
  obtain tm p b where c: "c = (tm, p, b)" by (cases c)
  obtain d1 t1 where d1: "set_phase_35 tm p b (d, t) = (d1, t1)" by fastforce
  have "over_track d1" using set_phase_35_ok [OF Cons.prems, of tm p b t] by (simp add: d1)
  moreover have "lines_of d1 = line_step (p, b) (lines_of d)"
    using set_phase_lines [of d tm p b t] Cons.prems by (simp add: d1 over_track_def)
  ultimately show ?case using Cons.IH [of d1 t1] by (simp add: c d1)
qed simp

text \<open>Select the outward direction, then the step function, and strobe.\<close>

definition recalibrate_35 :: "nat \<Rightarrow> (nat \<times> bool) list" where
  "recalibrate_35 n = [(0, False), (1, False), (2, True), (3, True), (3, False), (2, False), (0, True)] @
     concat (replicate n [(3, True), (3, False)])"

lemma strobes_out:
  assumes "\<not> l_ca1 l" "l_ca0 l" "\<not> l_ca2 l" "\<not> l_sel l" "\<not> l_strobe l" "l_outward l" "l_enabled l" "0 \<le> l_cylinder l"
  shows "l_cylinder (fold line_step (concat (replicate n [(3, True), (3, False)])) l) = max 0 (l_cylinder l - int n)"
  using assms by (induction n arbitrary: l) (auto simp: strobe_def)

text \<open>
  C18.  Recalibration of a 3.5 inch drive.  With the drive enabled, its head over its track, and the head select and strobe
  lines low, the firmware's protocol on the control lines (direction outward, then 79 or more step strobes) brings the
  head to cylinder 0 from wherever it is, whatever the clock reads between the commands.
\<close>

theorem recalibration_35_reaches_cylinder_0:
  assumes "over_track d" "enable d" "\<not> hdsel d" "\<not> lstrb d" "map snd cmds = recalibrate_35 n" "79 \<le> n"
  shows "track_num (fst (fold (\<lambda>(tm, p, b). set_phase_35 tm p b) cmds (d, t))) = 0"
proof -
  let ?l = "(lines_of d)\<lparr>l_ca0 := True, l_ca1 := False, l_ca2 := False, l_strobe := False, l_outward := True\<rparr>"
  have start: "fold line_step [(0, False), (1, False), (2, True), (3, True), (3, False), (2, False), (0, True)] (lines_of d) = ?l"
    using assms(2-4) by (simp add: lines_of_def strobe_def)
  have "track_num (fst (fold (\<lambda>(tm, p, b). set_phase_35 tm p b) cmds (d, t))) =
      l_cylinder (lines_of (fst (fold (\<lambda>(tm, p, b). set_phase_35 tm p b) cmds (d, t))))" by (simp add: lines_of_def)
  also have "\<dots> = l_cylinder (fold line_step (recalibrate_35 n) (lines_of d))"
    by (simp add: control_sequence_lines [OF assms(1)] assms(5))
  also have "\<dots> = l_cylinder (fold line_step (concat (replicate n [(3, True), (3, False)])) ?l)"
    unfolding recalibrate_35_def fold_append comp_apply start ..
  also have "\<dots> = max 0 (track_num d - int n)"
    using assms(1-3) by (subst strobes_out) (simp_all add: lines_of_def over_track_def)
  also have "\<dots> = 0" using assms(1,6) by (simp add: over_track_def)
  finally show ?thesis .
qed

section \<open>Concrete drives\<close>

theorem head_35_is_over_its_track_witness:
  "\<exists>d t. drive_step_35\<^sup>*\<^sup>* (new_floppy35 0, EventTimer) (d, t) \<and> enable d \<and>
    fast_forward_35 \<lparr>t_cycles = 5, t_vid_cycles = 9, t_c14m = 70, t_c14m_per_second = 14318181, t_timer = Some 70\<rparr> d \<noteq> None"
proof -
  let ?tm = "\<lparr>t_cycles = 5, t_vid_cycles = 9, t_c14m = 70, t_c14m_per_second = 14318181, t_timer = Some 70\<rparr>"
  obtain d t where s: "set_enable_35 ?tm True (new_floppy35 0, EventTimer) = (d, t)" by fastforce
  have "drive_step_35\<^sup>*\<^sup>* (new_floppy35 0, EventTimer) (d, t)"
    using drive_step_35.select [of "(new_floppy35 0, EventTimer)" ?tm True] by (simp add: s r_into_rtranclp)
  moreover have "enable d" using s by (auto simp: set_enable_35_def Let_def update_spinning_def)
  ultimately show ?thesis using head_35_is_over_its_track [of 0 EventTimer d t ?tm] by blast
qed

theorem recalibration_35_reaches_cylinder_0_witness:
  "track_num (fst (fold (\<lambda>(tm, p, b). set_phase_35 tm p b)
     (map (Pair \<lparr>t_cycles = 5, t_vid_cycles = 9, t_c14m = 70, t_c14m_per_second = 14318181, t_timer = Some 70\<rparr>) (recalibrate_35 80))
     ((new_floppy35 0)\<lparr>enable := True\<rparr>, EventTimer))) = 0"
proof (rule recalibration_35_reaches_cylinder_0 [where n = 80])
  show "over_track ((new_floppy35 0)\<lparr>enable := True\<rparr>)" by (rule over_track_update(14) [OF new_floppy35_ok])
  show "map snd (map (Pair x) cs) = cs" for x :: times and cs :: "(nat \<times> bool) list" by (simp add: comp_def)
qed (simp_all add: new_floppy35_def new_floppy_def floppy.defs floppy35.defs)

end
