(* ===== verification/Spec2Isabelle.thy ===== *)
theory Spec2Isabelle
  imports System Cpu_Cycles Queues Iie_Board Disk_II_Read Disk_II_Correct Floppy_35_Correct
begin

text \<open>
  \<^bold>\<open>GSSquared: processor, bus, memory system, clock, event timer and floppy disks.\<close>

  GSSquared emulates the Apple II family from the II to the IIgs.  A \<^verbatim>\<open>computer_t\<close> owns a processor
  (\<^verbatim>\<open>src/cpus\<close>), which runs one instruction per call of \<^verbatim>\<open>execute_next\<close> and reaches everything else
  through a memory management unit (\<^verbatim>\<open>src/mmus\<close>) and a clock (\<^verbatim>\<open>src/NClock.hpp\<close>); devices
  (\<^verbatim>\<open>src/devices\<close>) register handlers with the MMU, events with the event timer
  (\<^verbatim>\<open>src/util/EventTimer.cpp\<close>) and levels with the interrupt and reset controllers
  (\<^verbatim>\<open>src/util\<close>).  The floppy drives (\<^verbatim>\<open>src/devices/floppy\<close>, \<^verbatim>\<open>src/devices/diskii\<close>) keep a disk as a WOZ image, a
  stream of bits per track (\<^verbatim>\<open>src/util/woz.cpp\<close>); the nibblizers translate files of sectors into such images and back,
  and an atomic writer replaces the host's files.  This development models these parts and proves what they promise each
  other.

  \<^bold>\<open>Theories.\<close>

  \<^item> \<open>Prelude\<close>: machine integers, byte access, the state monad of the processor, the judgement
    \<open>safe I f V\<close> on monadic code and its rules.
  \<^item> \<open>Cpu_State\<close>, \<open>Cpu_Alu\<close>, \<open>Cpu_Core\<close>, \<open>Cpu_Opcodes\<close>, \<open>Cpu_Exec\<close>: the processor
    (\<^verbatim>\<open>cpu_traits.hpp\<close>, \<^verbatim>\<open>cpu.hpp\<close>, \<^verbatim>\<open>base_6502.cpp\<close>, \<^verbatim>\<open>cpu_65816.cpp\<close>): one definition per helper and
    one per group of opcodes, in the order of the source, parametrised by the traits the C++
    templates are instantiated with, so that all nine cores are instances of one model.  Every bus
    cycle, phantom cycles included, is an action on the environment \<open>env\<close> (MMU, clock, lines).
  \<^item> \<open>Cpu_Frame\<close>, \<open>Cpu_Mode\<close>: locales for what an operation of the core may change, and the register
    discipline of the 65816 as their instance, with reachability.
  \<^item> \<open>Alu_Correct\<close>, \<open>Alu_Decimal\<close>: arithmetic against integer and decimal arithmetic, at 8 and 16 bits,
    flags included; comparisons and rotations.
  \<^item> \<open>Cpu_Cycles\<close>: the exact cycles of the 6502 instructions against the data sheet, page crossings and taken
    branches included, by the judgement \<open>costs\<close>; the switch has one case for every byte.
  \<^item> \<open>Cpu_Memory\<close>, \<open>System\<close>: the locale \<open>ram_bus\<close> is the interface of the processor to memory; stack,
    subroutine and interrupt properties are proved in it and transported to the board that
    \<^verbatim>\<open>computer_t\<close> assembles, by an interpretation on the page-table MMU.
  \<^item> \<open>Mmu\<close>, \<open>Page_Maps\<close>: the page-table MMU (\<^verbatim>\<open>mmu.hpp\<close>), raw access, probing, mapping; a calculus that
    turns the loops of mapping calls of the devices into one function on page table entries.
  \<^item> \<open>Language_Card\<close>: the flip-flops of \<^verbatim>\<open>LanguageCardLogic.hpp\<close> and the card of the II Plus.
  \<^item> \<open>Mmu_II\<close>, \<open>Slot_Cards\<close>: the MMU of the II and IIe (\<^verbatim>\<open>mmu_ii.cpp\<close>, \<^verbatim>\<open>mmu_iie.cpp\<close>): \<open>$C0xx\<close>
    dispatch, the IIgs slot register, slot ROM and expansion ROM, resets and constructors.  The
    locale \<open>card_handlers\<close> states what a card's handlers must respect; it is interpreted on the
    language card, the IIe switches and the expansion ROMs of five cards.
  \<^item> \<open>Iie_Memory\<close>, \<open>Iie_Board\<close>: the memory device of the IIe (\<^verbatim>\<open>iiememory.cpp\<close>) and the machine it forms
    with the MMU.  The locale \<open>board_handlers\<close> extends \<open>card_handlers\<close> by a property of the pages
    outside the slot ROM area; its instance gives the map of all 64K from power up.
  \<^item> \<open>Lines\<close>: the interrupt and reset controllers as bit sets.
  \<^item> \<open>Clock\<close>: \<^verbatim>\<open>NClockII\<close> and \<^verbatim>\<open>NClockIIgs\<close>, the clock tables of both television standards.
  \<^item> \<open>Std_Heap\<close>, \<open>Event_Timer\<close>: the binary heap operations of the C++ library behind the locale
    \<open>std_heap\<close>, and the event timer on them, refined to a map from instances to due times.
  \<^item> \<open>Queues\<close>: the ring buffer and the event queue behind one locale \<open>fifo\<close>.
  \<^item> \<open>Woz_Bits\<close>, \<open>Woz_Scan\<close>: the bit streams of \<^verbatim>\<open>woz_nibblizer.cpp\<close> and the hunt for fields in them; the locale
    \<open>address_scan\<close> is the interface of the scan to a decoder of fields, and both track formats interpret it.
  \<^item> \<open>Woz_Gcr\<close>, \<open>Woz_Track\<close>, \<open>Woz_Disk\<close>: 5.25 inch sectors, tracks and disks (\<^verbatim>\<open>woz_nibblizer_525.cpp\<close>);
    \<open>Woz_35\<close>, \<open>Woz_35_Track\<close>, \<open>Woz_35_Disk\<close>: 3.5 inch ones (\<^verbatim>\<open>woz_nibblizer_35.cpp\<close>).
  \<^item> \<open>Woz_Image\<close>: the image in memory, the atomic writer (\<^verbatim>\<open>file_safety.hpp\<close>) with a model of what a crash may lose,
    and the locale \<open>nibblizer\<close>, the contract of import and export that the drives rely on; \<open>Woz_Disk\<close> and
    \<open>Woz_35_Disk\<close> interpret it.
  \<^item> \<open>Woz_Crc\<close>, \<open>Woz_File\<close>, \<open>Woz_Roundtrip\<close>: the file format, \<^verbatim>\<open>load\<close> and \<^verbatim>\<open>save\<close> of \<^verbatim>\<open>woz.cpp\<close>.
  \<^item> \<open>Floppy_Woz\<close>, \<open>Floppy_Head\<close>, \<open>Floppy_Writeback\<close>: the base class of the drives (\<^verbatim>\<open>Floppy_woz.cpp\<close>), with its
    virtual functions as the record \<open>hooks\<close> and their laws as the locale \<open>drive\<close>; \<open>Floppy_525\<close> and \<open>Floppy_35\<close>
    are the two drives and interpret it, \<open>Floppy_525_Correct\<close> and \<open>Floppy_35_Correct\<close> hold their properties.
  \<^item> \<open>Disk_II\<close>, \<open>Disk_II_Correct\<close>, \<open>Disk_II_Read\<close>: the controller (\<^verbatim>\<open>diskii_controller.hpp\<close>), its reachable
    states, and what the program reads from a formatted track.

  \<^bold>\<open>What is shown.\<close>  Invariants: the 65816 register discipline on every instruction and in every
  reachable state, unless a WDM callback left it; the map of \<open>$C100\<close> to \<open>$CFFF\<close> of the II family and the whole
  memory map of the IIe on every run of the bus, where \<open>internal_rom_page\<close> says which pages \<open>$C1\<close> to \<open>$CF\<close>
  INTCXROM, SLOTC3ROM and the slot register give to the internal ROM; the IIgs clock in step with its video counter; the
  heads of the drives inside their tracks; one spinning drive per controller.  Functional correctness: arithmetic,
  comparisons, rotations; instruction timing; interrupt entry and return, subroutine call and return, with the high byte
  of the 8-bit stack pointer as the pushes leave it; reads after writes;
  frame timing; the language card; expansion ROM, its release at \<open>$CFFF\<close> and its contention counter; the
  checksum of WOZ files; single bit writes; catching up with the rotating disk; recalibration of both drives; the data
  register over a formatted track.  Round trips: import and export of 5.25 and 3.5 inch disks, saving and loading of
  WOZ files.  Crash safety: whatever a crash loses, the file is the old or the new one.
  Refinement and equivalence: the interrupt line is the wired-or of the devices, the timer a map, the
  ring buffer a list; the incremental map of the IIe the one its switches prescribe.  Termination:
  \<^verbatim>\<open>processEvents\<close> returns when callbacks schedule into the future only; the 5.25 inch track
  decoder returns exactly when a track is empty or has a one bit.  Errors: the accesses on which the MMU's raw accessors leave the page table, a full ring buffer of
  256 entries that reads as empty, uninitialised page table entries after construction, the language card after a
  reset, the PAL clock, a file that cannot be opened for patching and is zeroed, a refused disk that stays in the
  drive, and addresses on a 3.5 inch track that index outside the decoder's tables.

  \<^bold>\<open>Bounds and loops.\<close>  Loops of the source are folds or structural recursions, except
  \<^verbatim>\<open>processEvents\<close> and the loops of the track decoders (\<open>latch_nibble\<close>, \<open>hunt_prologue\<close>, \<open>scan_loop\<close>), each a
  \<^theory_text>\<open>partial_function\<close> in the option monad with theorems about when its result exists, and
  the video catch-up loop, which has a measure.  No definition uses fuel.  Integers are words of
  their C++ width where they can wrap; page numbers, host addresses and array indices are naturals.

  \<^bold>\<open>Parameters.\<close>  The video scanner, cycle handlers, WDM callbacks, timer callbacks, bus handlers of
  unmodelled devices and the keyboard are arguments of the definitions, and so are the host's files, which calls of the
  operating system succeed (\<open>host_io\<close>), what a buffer holds that the source does not initialise, the readings of the
  clock by the drives (\<open>times\<close>) and the floating bus.  A failed assertion, a null
  store and an index past a table are values of \<open>mmu_error\<close>; in the disk theories \<^const>\<open>None\<close> is an access outside an
  array or a loop that does not end.  A crash keeps the flushed data of every file, leaves anything in a file with unflushed
  data, and may undo a rename.

  \<^bold>\<open>Not modelled.\<close>  The FPI side of the IIgs MMU, the video scanners and displays, the IWM and the block
  devices, the identification of media, sound devices, serial ports, ADB and the real-time clock: devices on the modelled
  interfaces, left for later.  Observation rails, tracing, the debugger, snapshots, the control server
  and the user interface do not change emulated state.
\<close>

end
